(* ===== verification/Prelude.thy ===== *)
theory Prelude
  imports Main "HOL-Library.Char_ord" "HOL-Library.List_Lexorder"
begin

text \<open>
  Shared vocabulary of the development: Rust's strings and byte vectors, the little-endian and
  decimal renderings of its integers, the few text helpers of its standard library the sources
  use, SQLite-style updates of a table, and the three interfaces that several components share
  (a string-valued enum, a prefix-free byte code, a transition function with an invariant).

  A Rust \<open>String\<close>, \<open>&str\<close> or \<open>Vec<u8>\<close> is a list of bytes; \<open>as_bytes\<close> is the identity and \<open>len()\<close> is
  \<open>length\<close>. The characters that \<open>chars()\<close> yields are the groups of bytes that start at a byte which
  is not a UTF-8 continuation byte. An \<open>i64\<close> is an \<^typ>\<open>int\<close>; \<open>i64_range\<close> says that it fits.
\<close>

named_theorems wire_simps \<open>equations that evaluate the textual and binary encodings\<close>
named_theorems table_simps \<open>equations that evaluate updates and selections of a table\<close>

section \<open>Integers\<close>

definition i64_range :: "int \<Rightarrow> bool" where
  "i64_range x \<longleftrightarrow> - (2 ^ 63) \<le> x \<and> x < 2 ^ 63"

definition i64_max :: int where
  "i64_max = 9223372036854775807"

text \<open>\<open>i64::saturating_add\<close>.\<close>

definition saturating_add_i64 :: "int \<Rightarrow> int \<Rightarrow> int" where
  "saturating_add_i64 a b = max (- (2 ^ 63)) (min (2 ^ 63 - 1) (a + b))"

text \<open>\<open>i64::saturating_sub\<close>.\<close>

definition saturating_sub_i64 :: "int \<Rightarrow> int \<Rightarrow> int" where
  "saturating_sub_i64 a b = max (- (2 ^ 63)) (min (2 ^ 63 - 1) (a - b))"

text \<open>\<open>i64::saturating_mul\<close>.\<close>

definition saturating_mul_i64 :: "int \<Rightarrow> int \<Rightarrow> int" where
  "saturating_mul_i64 a b = max (- (2 ^ 63)) (min (2 ^ 63 - 1) (a * b))"

text \<open>The cast \<open>x as u32\<close> of an \<open>i64\<close>: the low 32 bits.\<close>

definition as_u32 :: "int \<Rightarrow> nat" where
  "as_u32 x = nat (x mod 2 ^ 32)"

lemma as_u32_small: "0 \<le> x \<Longrightarrow> x < 2 ^ 32 \<Longrightarrow> as_u32 x = nat x"
  by (simp add: as_u32_def)

lemma as_u32_bound: "as_u32 x < 2 ^ 32"
  by (simp add: as_u32_def nat_less_iff)

text \<open>\<open>to_le_bytes\<close> at a width of \<open>n\<close> bytes, two's complement for a negative number.\<close>

fun le_bytes :: "nat \<Rightarrow> int \<Rightarrow> string" where
  "le_bytes 0 x = []"
| "le_bytes (Suc n) x = char_of (nat (x mod 256)) # le_bytes n (x div 256)"

fun of_le_bytes :: "string \<Rightarrow> int" where
  "of_le_bytes [] = 0"
| "of_le_bytes (c # cs) = int (of_char c) + 256 * of_le_bytes cs"

text \<open>
  Bytes for evaluation: code equations on the bits of a character, which avoid the type classes of \<^const>\<open>char_of\<close>
  and \<^const>\<open>of_char\<close>.
\<close>

definition byte_char :: "int \<Rightarrow> char" where
  "byte_char x = char_of x"

definition byte_val :: "char \<Rightarrow> int" where
  "byte_val c = of_char c"

lemma byte_char_code [code]: "byte_char x = Char (bit x 0) (bit x 1) (bit x 2) (bit x 3) (bit x 4) (bit x 5) (bit x 6) (bit x 7)"
  by (simp add: byte_char_def char_of_def)

lemma byte_val_code [code]: "byte_val (Char b0 b1 b2 b3 b4 b5 b6 b7) =
    (if b0 then 1 else 0) + (if b1 then 2 else 0) + (if b2 then 4 else 0) + (if b3 then 8 else 0) +
    (if b4 then 16 else 0) + (if b5 then 32 else 0) + (if b6 then 64 else 0) + (if b7 then 128 else 0)"
  by (simp add: byte_val_def)

lemma byte_val_nat: "byte_val c = int (of_char c)"
  by (simp add: byte_val_def of_char_def)

lemma char_of_byte: "char_of (nat (x mod 256)) = (char_of x :: char)"
proof -
  have "char_of (nat (x mod 256)) = (char_of (int (nat (x mod 256))) :: char)" by (simp only: char_of_nat)
  also have "\<dots> = char_of (take_bit 8 x)" by (simp add: take_bit_eq_mod)
  also have "\<dots> = char_of x" by (simp add: char_of_take_bit_eq)
  finally show ?thesis .
qed

lemma le_bytes_code [code]: "le_bytes 0 x = []" "le_bytes (Suc n) x = byte_char x # le_bytes n (x div 256)"
  by (simp_all add: char_of_byte byte_char_def)

lemma of_le_bytes_code [code]: "of_le_bytes [] = 0" "of_le_bytes (c # cs) = byte_val c + 256 * of_le_bytes cs"
  by (simp_all add: byte_val_def of_char_def)

lemma length_le_bytes [simp]: "length (le_bytes n x) = n"
  by (induction n arbitrary: x) auto

lemma of_char_char_of_mod: "int (of_char (char_of (nat (x mod 256)) :: char)) = x mod 256"
proof -
  have "nat (x mod 256) < 256" by (simp add: nat_less_iff)
  then show ?thesis by (simp add: of_char_of)
qed

lemma of_le_bytes_le_bytes: "of_le_bytes (le_bytes n x) = x mod 256 ^ n"
proof (induction n arbitrary: x)
  case 0
  then show ?case by simp
next
  case (Suc n)
  have "x mod 256 ^ Suc n = 256 * (x div 256 mod 256 ^ n) + x mod 256"
    using zmod_zmult2_eq [of "256 ^ n" x 256] by simp
  then show ?case
    using Suc.IH by (simp add: of_char_char_of_mod)
qed

lemma base256_split:
  fixes a b r s :: int
  assumes "256 * a + r = 256 * b + s" "0 \<le> r" "r < 256" "0 \<le> s" "s < 256"
  shows "a = b \<and> r = s"
proof -
  have "a - b < 1" "b - a < 1" using assms by linarith+
  then show ?thesis using assms(1) by simp
qed

lemma le_bytes_eq_iff: "le_bytes n x = le_bytes n y \<longleftrightarrow> x mod 256 ^ n = y mod 256 ^ n"
proof
  assume "le_bytes n x = le_bytes n y"
  then have "of_le_bytes (le_bytes n x) = of_le_bytes (le_bytes n y)" by simp
  then show "x mod 256 ^ n = y mod 256 ^ n"
    unfolding of_le_bytes_le_bytes .
next
  assume "x mod 256 ^ n = y mod 256 ^ n"
  then show "le_bytes n x = le_bytes n y"
  proof (induction n arbitrary: x y)
    case (Suc n)
    have split: "z mod 256 ^ Suc n = 256 * (z div 256 mod 256 ^ n) + z mod 256" for z :: int
      using zmod_zmult2_eq [of "256 ^ n" z 256] by simp
    have "x div 256 mod 256 ^ n = y div 256 mod 256 ^ n \<and> x mod 256 = y mod 256"
      using Suc.prems unfolding split by (rule base256_split) simp_all
    with Suc.IH [of "x div 256" "y div 256"] show ?case by simp
  qed simp
qed

lemma le_bytes_8_inj:
  assumes "i64_range x" "i64_range y" "le_bytes 8 x = le_bytes 8 y"
  shows "x = y"
proof -
  from assms(3) have "x mod 256 ^ 8 = y mod 256 ^ 8" by (simp add: le_bytes_eq_iff)
  then have "256 ^ 8 dvd x - y" by (simp add: mod_eq_dvd_iff)
  moreover have "\<bar>x - y\<bar> < 256 ^ 8"
    using assms(1,2) unfolding i64_range_def by (simp add: abs_less_iff)
  ultimately show ?thesis
    using dvd_imp_le_int [of "x - y" "256 ^ 8"] by fastforce
qed

section \<open>Decimal rendering\<close>

text \<open>\<open>Display\<close> of the integer types, as \<open>format!\<close> prints them.\<close>

definition digit_char :: "nat \<Rightarrow> char" where
  "digit_char d = char_of (48 + d)"

fun show_nat :: "nat \<Rightarrow> string" where
  "show_nat n = (if n < 10 then [digit_char n] else show_nat (n div 10) @ [digit_char (n mod 10)])"

declare show_nat.simps [simp del]

definition show_int :: "int \<Rightarrow> string" where
  "show_int i = (if i < 0 then CHR ''-'' # show_nat (nat (- i)) else show_nat (nat i))"

definition digit_val :: "char \<Rightarrow> nat" where
  "digit_val c = of_char c - 48"

lemma digit_char_code [code]: "digit_char d = byte_char (48 + int d)"
proof -
  have "(char_of (int (48 + d)) :: char) = char_of (48 + d)" by (rule char_of_nat)
  then show ?thesis by (simp add: digit_char_def byte_char_def)
qed

lemma digit_val_code [code]: "digit_val c = nat (byte_val c - 48)"
  by (simp add: digit_val_def byte_val_nat)

lemma digit_val_digit_char: "d < 10 \<Longrightarrow> digit_val (digit_char d) = d"
  by (simp add: digit_val_def digit_char_def)

lemma show_nat_value: "foldl (\<lambda>v c. 10 * v + digit_val c) 0 (show_nat n) = n"
proof (induction n rule: show_nat.induct)
  case (1 n)
  then show ?case
    by (subst show_nat.simps) (auto simp: digit_val_digit_char)
qed

lemma show_nat_inj: "show_nat m = show_nat n \<Longrightarrow> m = n"
  by (metis show_nat_value)

lemma show_nat_digits: "c \<in> set (show_nat n) \<Longrightarrow> \<exists>d < 10. c = digit_char d"
proof (induction n rule: show_nat.induct)
  case (1 n)
  then show ?case
    by (subst (asm) show_nat.simps) (auto split: if_splits intro: exI [of _ "n mod 10"])
qed

lemma of_char_digit_char: "d < 10 \<Longrightarrow> of_char (digit_char d) = 48 + d"
  by (simp add: digit_char_def)

lemma digit_char_neq:
  assumes "d < 10"
  shows "digit_char d \<noteq> CHR '':''" and "digit_char d \<noteq> CHR ''-''"
  using of_char_digit_char [OF assms] assms by auto

lemma show_nat_no_sep:
  shows "CHR '':'' \<notin> set (show_nat n)" and "CHR ''-'' \<notin> set (show_nat n)"
  using show_nat_digits [of _ n] digit_char_neq by fastforce+

lemma show_nat_nonempty: "show_nat n \<noteq> []"
  by (subst show_nat.simps) simp

lemma show_int_no_colon: "CHR '':'' \<notin> set (show_int i)"
  by (auto simp: show_int_def show_nat_no_sep)

lemma show_int_inj:
  assumes "show_int i = show_int j"
  shows "i = j"
proof -
  have neg: "show_nat n \<noteq> CHR ''-'' # cs" for n cs
    using show_nat_no_sep(2) [of n] by auto
  show ?thesis
    using assms neg neg [symmetric] show_nat_inj
    by (fastforce simp: show_int_def split: if_splits)
qed

text \<open>Fields joined with a separator that the first, or the last, field does not contain.\<close>

lemma sep_first_inj:
  "c \<notin> set xs \<Longrightarrow> c \<notin> set xs' \<Longrightarrow> xs @ c # ys = xs' @ c # ys' \<Longrightarrow> xs = xs' \<and> ys = ys'"
proof (induction xs arbitrary: xs')
  case Nil
  then show ?case by (cases xs') auto
next
  case (Cons x xs)
  then show ?case by (cases xs') auto
qed

lemma append_sep_inj:
  assumes "xs @ c # ys = xs' @ c # ys'" "c \<notin> set ys" "c \<notin> set ys'"
  shows "xs = xs' \<and> ys = ys'"
proof -
  have "rev ys @ c # rev xs = rev ys' @ c # rev xs'"
    using arg_cong [OF assms(1), of rev] by simp
  then have "rev ys = rev ys' \<and> rev xs = rev xs'"
    using assms(2,3) by (intro sep_first_inj [of c]) simp_all
  then show ?thesis by simp
qed

section \<open>Text\<close>

text \<open>\<open>str::chars\<close>, as groups of bytes.\<close>

definition utf8_cont :: "char \<Rightarrow> bool" where
  "utf8_cont c \<longleftrightarrow> 128 \<le> (of_char c :: nat) \<and> (of_char c :: nat) < 192"

lemma utf8_cont_code [code]: "utf8_cont (Char b0 b1 b2 b3 b4 b5 b6 b7) \<longleftrightarrow> b7 \<and> \<not> b6"
  by (cases b0; cases b1; cases b2; cases b3; cases b4; cases b5; cases b6; cases b7) (simp_all add: utf8_cont_def)

function utf8_chars :: "string \<Rightarrow> string list" where
  "utf8_chars [] = []"
| "utf8_chars (c # cs) = (c # takeWhile utf8_cont cs) # utf8_chars (dropWhile utf8_cont cs)"
  by pat_completeness auto
termination
  by (relation "measure length") (auto simp: le_imp_less_Suc length_dropWhile_le)

lemma concat_utf8_chars [simp]: "concat (utf8_chars s) = s"
  by (induction s rule: utf8_chars.induct) auto

text \<open>\<open>std::str::from_utf8\<close> succeeds: well-formed UTF-8, without surrogates and overlong forms.\<close>

definition byte_in :: "nat \<Rightarrow> nat \<Rightarrow> char \<Rightarrow> bool" where
  "byte_in lo hi c \<longleftrightarrow> lo \<le> of_char c \<and> of_char c \<le> hi"

lemma byte_in_code [code]: "byte_in lo hi c \<longleftrightarrow> int lo \<le> byte_val c \<and> byte_val c \<le> int hi"
  by (simp add: byte_in_def byte_val_nat)

fun utf8_valid :: "string \<Rightarrow> bool" where
  "utf8_valid [] = True"
| "utf8_valid (a # s) =
    (if byte_in 0x00 0x7F a then utf8_valid s
     else if byte_in 0xC2 0xDF a then
       (case s of b # t \<Rightarrow> utf8_cont b \<and> utf8_valid t | [] \<Rightarrow> False)
     else if byte_in 0xE0 0xEF a then
       (case s of b # c # t \<Rightarrow>
            (if a = CHR 0xE0 then byte_in 0xA0 0xBF b else if a = CHR 0xED then byte_in 0x80 0x9F b
             else utf8_cont b) \<and> utf8_cont c \<and> utf8_valid t
        | _ \<Rightarrow> False)
     else if byte_in 0xF0 0xF4 a then
       (case s of b # c # d # t \<Rightarrow>
            (if a = CHR 0xF0 then byte_in 0x90 0xBF b else if a = CHR 0xF4 then byte_in 0x80 0x8F b
             else utf8_cont b) \<and> utf8_cont c \<and> utf8_cont d \<and> utf8_valid t
        | _ \<Rightarrow> False)
     else False)"

declare utf8_valid.simps(2) [simp del]

lemma utf8_valid_ascii: "list_all (byte_in 0x00 0x7F) s \<Longrightarrow> utf8_valid s"
  by (induction s) (simp_all add: utf8_valid.simps(2))

text \<open>
  \<open>char::is_whitespace\<close>: the characters with the Unicode property White\_Space, in UTF-8.
  \<open>char::is_control\<close>: the general category Cc.
\<close>

definition is_whitespace :: "string \<Rightarrow> bool" where
  "is_whitespace g \<longleftrightarrow> g \<in> set ([[CHR 0x09], [CHR 0x0A], [CHR 0x0B], [CHR 0x0C], [CHR 0x0D], [CHR 0x20],
     [CHR 0xC2, CHR 0x85], [CHR 0xC2, CHR 0xA0], [CHR 0xE1, CHR 0x9A, CHR 0x80],
     [CHR 0xE2, CHR 0x80, CHR 0xA8], [CHR 0xE2, CHR 0x80, CHR 0xA9], [CHR 0xE2, CHR 0x80, CHR 0xAF],
     [CHR 0xE2, CHR 0x81, CHR 0x9F], [CHR 0xE3, CHR 0x80, CHR 0x80]]
     @ map (\<lambda>b. [CHR 0xE2, CHR 0x80, char_of b]) [0x80 ..< (0x8B :: nat)])"

lemma is_whitespace_code [code]:
  "is_whitespace g \<longleftrightarrow> g \<in> set [[CHR 0x09], [CHR 0x0A], [CHR 0x0B], [CHR 0x0C], [CHR 0x0D], [CHR 0x20],
     [CHR 0xC2, CHR 0x85], [CHR 0xC2, CHR 0xA0], [CHR 0xE1, CHR 0x9A, CHR 0x80],
     [CHR 0xE2, CHR 0x80, CHR 0xA8], [CHR 0xE2, CHR 0x80, CHR 0xA9], [CHR 0xE2, CHR 0x80, CHR 0xAF],
     [CHR 0xE2, CHR 0x81, CHR 0x9F], [CHR 0xE3, CHR 0x80, CHR 0x80],
     [CHR 0xE2, CHR 0x80, CHR 0x80], [CHR 0xE2, CHR 0x80, CHR 0x81], [CHR 0xE2, CHR 0x80, CHR 0x82], [CHR 0xE2, CHR 0x80, CHR 0x83],
     [CHR 0xE2, CHR 0x80, CHR 0x84], [CHR 0xE2, CHR 0x80, CHR 0x85], [CHR 0xE2, CHR 0x80, CHR 0x86], [CHR 0xE2, CHR 0x80, CHR 0x87],
     [CHR 0xE2, CHR 0x80, CHR 0x88], [CHR 0xE2, CHR 0x80, CHR 0x89], [CHR 0xE2, CHR 0x80, CHR 0x8A]]"
proof -
  have "[0x80 ..< (0x8B :: nat)] = [0x80, 0x81, 0x82, 0x83, 0x84, 0x85, 0x86, 0x87, 0x88, 0x89, 0x8A]"
    by (simp add: upt_rec numeral_eq_Suc)
  then show ?thesis by (simp add: is_whitespace_def char_of_def bit_simps)
qed

definition is_control :: "string \<Rightarrow> bool" where
  "is_control g \<longleftrightarrow> (case g of
      [c] \<Rightarrow> (of_char c :: nat) < 32 \<or> of_char c = (127 :: nat)
    | [c, d] \<Rightarrow> c = CHR 0xC2 \<and> (of_char d :: nat) < 160
    | _ \<Rightarrow> False)"

text \<open>\<open>str::trim\<close>.\<close>

definition rust_trim :: "string \<Rightarrow> string" where
  "rust_trim s = concat (rev (dropWhile is_whitespace (rev (dropWhile is_whitespace (utf8_chars s)))))"

definition ascii_lower :: "char \<Rightarrow> char" where
  "ascii_lower c = (if 65 \<le> (of_char c :: nat) \<and> (of_char c :: nat) \<le> 90
     then char_of ((of_char c :: nat) + 32) else c)"

lemma ascii_lower_code [code]: "ascii_lower c = (let v = byte_val c in if 65 \<le> v \<and> v \<le> 90 then byte_char (v + 32) else c)"
proof -
  have "char_of (int (of_char c) + 32) = (char_of (of_char c + 32 :: nat) :: char)"
    using char_of_nat [of "of_char c + 32", where ?'a = int] by simp
  then show ?thesis by (simp add: ascii_lower_def byte_val_nat byte_char_def Let_def)
qed

text \<open>\<open>to_ascii_lowercase\<close>.\<close>

definition to_ascii_lowercase :: "string \<Rightarrow> string" where
  "to_ascii_lowercase s = map ascii_lower s"

text \<open>\<open>str::find\<close> of a non-empty pattern: the first index at which the pattern starts.\<close>

fun starts_with :: "string \<Rightarrow> string \<Rightarrow> bool" where
  "starts_with s [] = True"
| "starts_with [] (p # ps) = False"
| "starts_with (c # cs) (p # ps) = (c = p \<and> starts_with cs ps)"

fun str_find :: "string \<Rightarrow> string \<Rightarrow> nat option" where
  "str_find [] p = (if p = [] then Some 0 else None)"
| "str_find (c # cs) p = (if starts_with (c # cs) p then Some 0 else map_option Suc (str_find cs p))"

definition str_contains :: "string \<Rightarrow> string \<Rightarrow> bool" where
  "str_contains s p \<longleftrightarrow> str_find s p \<noteq> None"

lemma starts_with_iff: "starts_with s p \<longleftrightarrow> (\<exists>t. s = p @ t)"
  by (induction s p rule: starts_with.induct) auto

lemma str_find_Some:
  "str_find s p = Some i \<Longrightarrow> i \<le> length s \<and> starts_with (drop i s) p"
  by (induction s arbitrary: i) (auto split: if_splits)

lemma str_find_first:
  "str_find s p = Some i \<Longrightarrow> j < i \<Longrightarrow> \<not> starts_with (drop j s) p"
proof (induction s arbitrary: i j)
  case (Cons c cs)
  then show ?case by (cases j) (auto split: if_splits)
qed (auto split: if_splits)

lemma str_find_None: "str_find s p = None \<Longrightarrow> \<not> starts_with (drop j s) p"
proof (induction s arbitrary: j)
  case Nil
  then show ?case by (cases p) (auto split: if_splits)
next
  case (Cons c cs)
  then show ?case by (cases j) (auto split: if_splits)
qed

lemma str_contains_iff: "str_contains s p \<longleftrightarrow> (\<exists>a b. s = a @ p @ b)"
proof
  assume "str_contains s p"
  then obtain i where "str_find s p = Some i" by (auto simp: str_contains_def)
  then obtain t where "drop i s = p @ t"
    using str_find_Some starts_with_iff by blast
  then have "s = take i s @ p @ t" by (metis append_take_drop_id)
  then show "\<exists>a b. s = a @ p @ b" by blast
next
  assume "\<exists>a b. s = a @ p @ b"
  then obtain a b where "s = a @ p @ b" by blast
  then have "starts_with (drop (length a) s) p" by (simp add: starts_with_iff)
  then show "str_contains s p"
    using str_find_None by (auto simp: str_contains_def)
qed

section \<open>JSON\<close>

text \<open>What the sources use of the JSON library, over its type of values.\<close>

record 'j json =
  json_from_str :: "string \<Rightarrow> 'j option"
  json_null :: 'j
  json_to_string :: "'j \<Rightarrow> string"
  json_array_to_string :: "'j list \<Rightarrow> string"

section \<open>Tables\<close>

text \<open>
  A SQLite table is the list of its rows in rowid order. \<open>UPDATE t SET f WHERE p\<close> is \<open>update_where p f\<close>
  and reports \<open>count_where p\<close> changed rows; \<open>query_row\<close> with a \<open>WHERE\<close> is \<^const>\<open>List.find\<close>.
\<close>

definition update_where :: "('r \<Rightarrow> bool) \<Rightarrow> ('r \<Rightarrow> 'r) \<Rightarrow> 'r list \<Rightarrow> 'r list" where
  "update_where p f rows = map (\<lambda>r. if p r then f r else r) rows"

definition count_where :: "('r \<Rightarrow> bool) \<Rightarrow> 'r list \<Rightarrow> nat" where
  "count_where p rows = length (filter p rows)"

text \<open>\<open>LIMIT n\<close>; a negative number is no limit.\<close>

definition sql_limit :: "int \<Rightarrow> 'a list \<Rightarrow> 'a list" where
  "sql_limit n xs = (if n < 0 then xs else take (nat n) xs)"

lemma length_update_where [simp]: "length (update_where p f rows) = length rows"
  by (simp add: update_where_def)

lemma update_where_Nil [simp]: "update_where p f [] = []"
  by (simp add: update_where_def)

lemma update_where_Cons [simp]:
  "update_where p f (r # rows) = (if p r then f r else r) # update_where p f rows"
  by (simp add: update_where_def)

lemma map_update_where [table_simps]:
  "(\<And>r. p r \<Longrightarrow> g (f r) = g r) \<Longrightarrow> map g (update_where p f rows) = map g rows"
  by (auto simp: update_where_def)

lemma set_update_where: "set (update_where p f rows) = (\<lambda>r. if p r then f r else r) ` set rows"
  by (simp add: update_where_def)

lemma update_where_none: "(\<And>r. r \<in> set rows \<Longrightarrow> \<not> p r) \<Longrightarrow> update_where p f rows = rows"
  by (simp add: update_where_def map_idI)

lemma update_where_cong:
  "(\<And>r. r \<in> set rows \<Longrightarrow> p r = q r) \<Longrightarrow> (\<And>r. r \<in> set rows \<Longrightarrow> p r \<Longrightarrow> f r = g r)
   \<Longrightarrow> update_where p f rows = update_where q g rows"
  by (simp add: update_where_def)

lemma filter_update_where [table_simps]:
  "(\<And>r. p r \<Longrightarrow> q (f r) = q r) \<Longrightarrow> filter q (update_where p f rows) = update_where p f (filter q rows)"
  by (induction rows) auto

lemma find_update_where_key:
  "(\<And>r. p r \<Longrightarrow> k (f r) = k r) \<Longrightarrow>
   find (\<lambda>r. k r = x) (update_where p f rows) =
   map_option (\<lambda>r. if p r then f r else r) (find (\<lambda>r. k r = x) rows)"
  by (induction rows) auto

lemma find_SomeD: "find p xs = Some x \<Longrightarrow> x \<in> set xs \<and> p x"
  by (auto simp: find_Some_iff)

lemma find_distinct_key:
  "distinct (map k rows) \<Longrightarrow> r \<in> set rows \<Longrightarrow> find (\<lambda>x. k x = k r) rows = Some r"
  by (induction rows) force+

lemma find_key_iff:
  "distinct (map k rows) \<Longrightarrow> find (\<lambda>x. k x = i) rows = Some r \<longleftrightarrow> r \<in> set rows \<and> k r = i"
  using find_distinct_key find_SomeD by fastforce

lemma find_append: "find p (xs @ ys) = (case find p xs of Some x \<Rightarrow> Some x | None \<Rightarrow> find p ys)"
  by (induction xs) auto

lemma count_where_key:
  "distinct (map k rows) \<Longrightarrow>
   count_where (\<lambda>r. k r = i \<and> q r) rows = (case find (\<lambda>r. k r = i) rows of
      Some r \<Rightarrow> if q r then 1 else 0 | None \<Rightarrow> 0)"
proof (induction rows)
  case (Cons r rows)
  show ?case
  proof (cases "k r = i")
    case True
    with Cons.prems have "filter (\<lambda>r. k r = i \<and> q r) rows = []"
      by (auto simp: filter_empty_conv) (metis imageI)
    with True show ?thesis by (simp add: count_where_def)
  next
    case False
    with Cons show ?thesis by (simp add: count_where_def)
  qed
qed (simp add: count_where_def)

text \<open>A stable sort of a table that already ends with the largest key.\<close>

lemma sort_key_snoc:
  assumes "\<And>y. y \<in> set xs \<Longrightarrow> f y \<le> f x"
  shows "sort_key f (xs @ [x]) = sort_key f xs @ [x]"
proof -
  have "insort_key f y (zs @ [x]) = insort_key f y zs @ [x]" if "f y \<le> f x" for y zs
    using that by (induction zs) auto
  with assms show ?thesis
    by (induction xs) auto
qed

lemma filter_sort_key: "filter p (sort_key f xs) = sort_key f (filter p xs)"
  by (rule filter_sort)

section \<open>Shared interfaces\<close>

text \<open>
  Every enum that is stored as text comes with \<open>as_str\<close> and \<open>parse\<close>. The interface is what the
  stores rely on: parsing a stored value gives the value back, and nothing else parses to it.
\<close>

locale wire_enum =
  fixes as_str :: "'a \<Rightarrow> string"
    and parse :: "string \<Rightarrow> 'a option"
  assumes parse_as_str: "parse (as_str x) = Some x"
    and parse_sound: "parse s = Some x \<Longrightarrow> as_str x = s"
begin

lemma as_str_eq_iff: "as_str x = as_str y \<longleftrightarrow> x = y"
  by (metis option.inject parse_as_str)

lemma parse_iff: "parse s = Some x \<longleftrightarrow> s = as_str x"
  using parse_as_str parse_sound by blast

lemma parse_None_iff: "parse s = None \<longleftrightarrow> s \<notin> range as_str"
  by (metis option.distinct(1) option.exhaust parse_iff rangeE rangeI)

end

text \<open>
  A prefix-free byte code: after an encoded value any bytes may follow, and the value and the
  rest are still determined. Fixed-width fields, length-prefixed fields and terminated fields
  have it; a concatenation of such fields has it too, which is how the signed messages of the
  event log are shown to be unambiguous.
\<close>

locale prefix_code =
  fixes enc :: "'a \<Rightarrow> string"
    and valid :: "'a \<Rightarrow> bool"
  assumes unique: "valid x \<Longrightarrow> valid y \<Longrightarrow> enc x @ r = enc y @ s \<Longrightarrow> x = y \<and> r = s"
begin

lemma enc_inj: "valid x \<Longrightarrow> valid y \<Longrightarrow> enc x = enc y \<Longrightarrow> x = y"
  using unique [of x y "[]" "[]"] by simp

lemma concat_unique:
  assumes "list_all valid xs" "list_all valid ys" "length xs = length ys"
    and "concat (map enc xs) @ r = concat (map enc ys) @ s"
  shows "xs = ys \<and> r = s"
  using assms(3,1,2,4)
proof (induction xs ys rule: list_induct2)
  case Nil
  then show ?case by simp
next
  case (Cons x xs y ys)
  from Cons.prems have "x = y \<and> concat (map enc xs) @ r = concat (map enc ys) @ s"
    by (intro unique) simp_all
  then have "x = y" and "concat (map enc xs) @ r = concat (map enc ys) @ s" by simp_all
  with Cons.IH Cons.prems show ?case by simp
qed

end

text \<open>Fields of a fixed width.\<close>

lemma fixed_width_unique:
  "length a = length b \<Longrightarrow> a @ r = b @ s \<Longrightarrow> a = b \<and> r = s"
  by simp

definition fixed_field :: "nat \<Rightarrow> string \<Rightarrow> bool" where
  "fixed_field n b \<longleftrightarrow> length b = n"

definition nul_free :: "string \<Rightarrow> bool" where
  "nul_free s \<longleftrightarrow> CHR 0x00 \<notin> set s"

text \<open>A string followed by the separator \<open>0\<close>, and a byte string after its 64-bit length.\<close>

definition nul_field :: "string \<Rightarrow> string" where
  "nul_field s = s @ [CHR 0x00]"

definition len_field :: "string \<Rightarrow> string" where
  "len_field b = le_bytes 8 (int (length b)) @ b"

definition u64_length :: "'a list \<Rightarrow> bool" where
  "u64_length b \<longleftrightarrow> length b < 2 ^ 64"

lemma u64_length_inj:
  assumes "u64_length a" "u64_length b"
    and "le_bytes 8 (int (length a)) = le_bytes 8 (int (length b))"
  shows "length a = length b"
proof -
  have "int (length a) mod 256 ^ 8 = int (length b) mod 256 ^ 8"
    using assms(3) by (simp only: le_bytes_eq_iff)
  moreover have "int (length a) < 256 ^ 8" "int (length b) < 256 ^ 8"
    using assms(1,2) unfolding u64_length_def by simp_all
  ultimately show ?thesis by simp
qed

interpretation i64_code: prefix_code "le_bytes 8" i64_range
  by unfold_locales (metis fixed_width_unique length_le_bytes le_bytes_8_inj)

interpretation nul_code: prefix_code nul_field nul_free
proof
  fix x y r s
  assume "nul_free x" "nul_free y" "nul_field x @ r = nul_field y @ s"
  then show "x = y \<and> r = s"
    by (intro sep_first_inj [of "CHR 0x00"]) (simp_all add: nul_free_def nul_field_def)
qed

interpretation len_code: prefix_code len_field u64_length
proof
  fix x y r s
  assume ok: "u64_length x" "u64_length y" and eq: "len_field x @ r = len_field y @ s"
  then have "le_bytes 8 (int (length x)) = le_bytes 8 (int (length y)) \<and> x @ r = y @ s"
    by (intro fixed_width_unique) (simp_all add: len_field_def)
  with ok show "x = y \<and> r = s"
    by (metis u64_length_inj fixed_width_unique)
qed

text \<open>How many steps of a run satisfy a predicate of the state before the step and the action.\<close>

fun count_steps :: "('s \<Rightarrow> 'a \<Rightarrow> bool) \<Rightarrow> ('s \<Rightarrow> 'a \<Rightarrow> 's) \<Rightarrow> 's \<Rightarrow> 'a list \<Rightarrow> nat" where
  "count_steps p step s [] = 0"
| "count_steps p step s (a # as) = of_bool (p s a) + count_steps p step (step s a) as"

text \<open>
  A deterministic component: a step function and an invariant every step keeps. Runs are folds
  of the step function over a list of actions.
\<close>

locale invariant_machine =
  fixes step :: "'s \<Rightarrow> 'a \<Rightarrow> 's"
    and inv :: "'s \<Rightarrow> bool"
  assumes step_inv: "inv s \<Longrightarrow> inv (step s a)"
begin

lemma run_inv: "inv s \<Longrightarrow> inv (foldl step s as)"
  by (induction as arbitrary: s) (auto intro: step_inv)

end

end
