(* ===== verification/Db.thy ===== *)
theory Db
  imports Prelude
begin

text \<open>
  The database layer (\<open>crates/core/src/db.rs\<close>, \<open>crates/core/src/ids.rs\<close>): the error type, the
  tables the modelled stores read and write, the two ways a store runs SQL, and the
  identifiers.

  The SQLite database is a record of tables. A closure that runs inside \<open>Database::transaction\<close> is a
  function from the database to an error or to a result with the new database, and an error
  discards every write of the closure. SQLite itself, its connection mutex and the execution
  metrics are outside the model: transactions of different callers are serialised by that mutex,
  so an interleaving of operations is a sequence of transactions. Error values keep the variant
  and the fixed part of the message.
\<close>

section \<open>Errors\<close>

text \<open>The \<open>rusqlite\<close> errors that the modelled statements can raise.\<close>

datatype sql_error = QueryReturnedNoRows | ConstraintViolation string | InvalidQuery | FromSqlConversionFailure
  | IntegralValueOutOfRange | InvalidColumnType

datatype DbError =
    Sqlite sql_error
  | Config string
  | Migration string
  | Io string
  | Invariant string
  | Serde string
  | TamperDetected string
  | Backpressure
  | ExecutorUnavailable string
  | WorkerPanicked

section \<open>Tables\<close>

record event_row =
  er_conversation_id :: string
  er_seq :: int
  er_kind :: string
  er_payload :: string
  er_committed_at :: int
  er_actor :: "string option"
  er_tag :: "string option"
  er_key_id :: int
  er_integrity_version :: int
  er_prev_tag :: "string option"

record head_row =
  hr_conversation_id :: string
  hr_chain_start_seq :: int
  hr_head_seq :: int
  hr_head_tag :: string
  hr_genesis_key_id :: int
  hr_key_id :: int
  hr_checkpoint_tag :: string
  hr_updated_at :: int

record outbox_row =
  ob_id :: int
  ob_idempotency_key :: string
  ob_conversation_id :: string
  ob_effect_kind :: string
  ob_payload :: string
  ob_status :: string
  ob_attempts :: int
  ob_next_attempt_at :: "int option"
  ob_last_error :: "string option"
  ob_enqueued_seq :: int
  ob_lease_owner :: "string option"
  ob_lease_expires_at :: "int option"
  ob_ownership_scope_key :: "string option"
  ob_ownership_generation :: "int option"

record delivery_row =
  de_id :: int
  de_outbox_id :: int
  de_transition :: string
  de_occurred_at :: int
  de_attempt :: int
  de_detail :: "string option"
  de_external_receipt :: "string option"
  de_actor :: "string option"

record ownership_row =
  ow_scope_key :: string
  ow_conversation_id :: string
  ow_owner_kind :: string
  ow_agent_id :: "string option"
  ow_previous_agent_id :: "string option"
  ow_generation :: int
  ow_updated_at :: int

record handoff_row =
  ho_scope_key :: string
  ho_generation :: int
  ho_event_kind :: string
  ho_event_id :: string
  ho_conversation_seq :: "int option"
  ho_payload_json :: string
  ho_occurred_at :: int

record run_row =
  rn_run_id :: string
  rn_conversation_id :: string
  rn_parent_run_id :: "string option"
  rn_status :: string
  rn_cursor :: int
  rn_input_event_seq :: int
  rn_started_at :: int
  rn_updated_at :: int
  rn_deadline_at :: "int option"

record redrive_row =
  rd_job_kind :: string
  rd_job_id :: string
  rd_effect_identity :: string
  rd_actor :: string
  rd_reason :: string
  rd_prior_attempt :: int
  rd_occurred_at :: int

text \<open>
  \<open>outbox_seq\<close> and \<open>delivery_seq\<close> are the \<open>AUTOINCREMENT\<close> counters: the largest rowid ever given.
\<close>

record database =
  state_events :: "event_row list"
  state_event_integrity_heads :: "head_row list"
  state_outbox :: "outbox_row list"
  outbox_seq :: int
  state_outbox_delivery_events :: "delivery_row list"
  delivery_seq :: int
  state_inbox :: "(string \<times> int) list"
  state_agent_ownership :: "ownership_row list"
  state_agent_handoff_events :: "handoff_row list"
  state_runs :: "run_row list"
  state_job_redrive_events :: "redrive_row list"

definition empty_database :: database where
  "empty_database = \<lparr>state_events = [], state_event_integrity_heads = [], state_outbox = [],
     outbox_seq = 0, state_outbox_delivery_events = [], delivery_seq = 0, state_inbox = [],
     state_agent_ownership = [], state_agent_handoff_events = [], state_runs = [],
     state_job_redrive_events = []\<rparr>"

section \<open>Running SQL\<close>

type_synonym 'a tx = "database \<Rightarrow> DbError + 'a \<times> database"

text \<open>
  \<open>Database::transaction\<close>: commit on success, roll back on an error. A store whose table no other modelled store
  reads keeps that table as its own state \<open>'s\<close>.
\<close>

definition transaction :: "('s \<Rightarrow> DbError + 'a \<times> 's) \<Rightarrow> 's \<Rightarrow> (DbError + 'a) \<times> 's" where
  "transaction f db = (case f db of Inl e \<Rightarrow> (Inl e, db) | Inr (a, db') \<Rightarrow> (Inr a, db'))"

lemma transaction_Inl [simp]: "f db = Inl e \<Longrightarrow> transaction f db = (Inl e, db)"
  by (simp add: transaction_def)

lemma transaction_Inr [simp]: "f db = Inr (a, db') \<Longrightarrow> transaction f db = (Inr a, db')"
  by (simp add: transaction_def)

lemma transaction_Inr_iff: "transaction f db = (Inr a, db') \<longleftrightarrow> f db = Inr (a, db')"
  by (auto simp: transaction_def split: sum.splits)

lemma transaction_Inl_iff: "transaction f db = (Inl e, db') \<longleftrightarrow> f db = Inl e \<and> db' = db"
  by (auto simp: transaction_def split: sum.splits)

lemma transaction_cases:
  obtains (error) e where "f db = Inl e" "transaction f db = (Inl e, db)"
    | (commit) a db' where "f db = Inr (a, db')" "transaction f db = (Inr a, db')"
proof (cases "f db")
  case (Inl e)
  then show ?thesis by (auto intro: error)
next
  case (Inr p)
  then show ?thesis by (cases p) (auto intro: commit)
qed

text \<open>What holds of the database and is kept by the closure is kept by its transaction.\<close>

lemma transaction_invariant:
  "P db \<Longrightarrow> (\<And>a db'. f db = Inr (a, db') \<Longrightarrow> P db') \<Longrightarrow> P (snd (transaction f db))"
  by (cases rule: transaction_cases [of f db]) auto

text \<open>
  \<open>INSERT INTO state_outbox_delivery_events(outbox_id, transition, occurred_at, attempt, ...)\<close>: the
  rows of this table are only ever inserted, triggers abort every update and delete.
\<close>

definition insert_delivery_event ::
  "int \<Rightarrow> string \<Rightarrow> int \<Rightarrow> int \<Rightarrow> string option \<Rightarrow> string option \<Rightarrow> string option \<Rightarrow> database \<Rightarrow> database" where
  "insert_delivery_event oid tr at att detail receipt actor db =
     db\<lparr>state_outbox_delivery_events := state_outbox_delivery_events db @
          [\<lparr>de_id = delivery_seq db + 1, de_outbox_id = oid, de_transition = tr, de_occurred_at = at,
            de_attempt = att, de_detail = detail, de_external_receipt = receipt, de_actor = actor\<rparr>],
        delivery_seq := delivery_seq db + 1\<rparr>"

lemma insert_delivery_event_simps [simp]:
  "state_events (insert_delivery_event oid tr at att d r a db) = state_events db"
  "state_event_integrity_heads (insert_delivery_event oid tr at att d r a db) = state_event_integrity_heads db"
  "state_outbox (insert_delivery_event oid tr at att d r a db) = state_outbox db"
  "outbox_seq (insert_delivery_event oid tr at att d r a db) = outbox_seq db"
  "delivery_seq (insert_delivery_event oid tr at att d r a db) = delivery_seq db + 1"
  "state_inbox (insert_delivery_event oid tr at att d r a db) = state_inbox db"
  "state_agent_ownership (insert_delivery_event oid tr at att d r a db) = state_agent_ownership db"
  "state_agent_handoff_events (insert_delivery_event oid tr at att d r a db) = state_agent_handoff_events db"
  "state_runs (insert_delivery_event oid tr at att d r a db) = state_runs db"
  "state_job_redrive_events (insert_delivery_event oid tr at att d r a db) = state_job_redrive_events db"
  by (simp_all add: insert_delivery_event_def)

lemma delivery_events_insert:
  "state_outbox_delivery_events (insert_delivery_event oid tr at att d r a db) =
   state_outbox_delivery_events db @
     [\<lparr>de_id = delivery_seq db + 1, de_outbox_id = oid, de_transition = tr, de_occurred_at = at,
       de_attempt = att, de_detail = d, de_external_receipt = r, de_actor = a\<rparr>]"
  by (simp add: insert_delivery_event_def)

section \<open>Identifiers\<close>

text \<open>\<open>EventSeq::next\<close>.\<close>

definition EventSeq_next :: "int \<Rightarrow> int" where
  "EventSeq_next s = s + 1"

text \<open>\<open>IdempotencyKey::mint\<close>: \<open>{conversation}:{turn}:{ordinal}\<close>.\<close>

definition mint :: "string \<Rightarrow> int \<Rightarrow> nat \<Rightarrow> string" where
  "mint conversation_id turn_seq ordinal =
     conversation_id @ '':'' @ show_int turn_seq @ '':'' @ show_nat ordinal"

text \<open>
  \<open>IdempotencyKey::mint_scoped\<close>: the scope enters as the hexadecimal SHA-256 digest, a parameter.
\<close>

definition mint_scoped :: "(string \<Rightarrow> string) \<Rightarrow> string \<Rightarrow> string \<Rightarrow> nat \<Rightarrow> string" where
  "mint_scoped sha256_hex conversation_id scope ordinal =
     conversation_id @ '':scope:'' @ sha256_hex scope @ '':'' @ show_nat ordinal"

lemma mint_eq_iff: "mint c t n = mint c' t' n' \<longleftrightarrow> c = c' \<and> t = t' \<and> n = n'"
proof
  assume "mint c t n = mint c' t' n'"
  then have eq: "(c @ CHR '':'' # show_int t) @ CHR '':'' # show_nat n =
      (c' @ CHR '':'' # show_int t') @ CHR '':'' # show_nat n'"
    by (simp add: mint_def)
  then have "c @ CHR '':'' # show_int t = c' @ CHR '':'' # show_int t' \<and> show_nat n = show_nat n'"
    by (rule append_sep_inj) (rule show_nat_no_sep)+
  then have "show_nat n = show_nat n'" and "c @ CHR '':'' # show_int t = c' @ CHR '':'' # show_int t'"
    by simp_all
  then show "c = c' \<and> t = t' \<and> n = n'"
    using append_sep_inj [OF _ show_int_no_colon show_int_no_colon] show_int_inj show_nat_inj
    by blast
qed simp

end
