(* ===== verification/Chat_Requests.thy ===== *)
theory Chat_Requests
  imports Db
begin

text \<open>
  Idempotency of caller-submitted chat turns (\<open>crates/core/src/chat_requests.rs\<close>): a caller reserves a request
  identifier, runs the turn, and stores the response, which every retry gets back. The store's table
  \<open>state_chat_request_keys\<close> is its state. SHA-256 over the request's JSON (\<open>body_hash\<close>) is computed by the
  caller, so the hash is an argument of the operations.
\<close>

section \<open>State\<close>

definition PENDING_REQUEST_STALE_AFTER_SECS :: int where
  "PENDING_REQUEST_STALE_AFTER_SECS = 300"

datatype ChatRequestState =
    Reserved string
  | InProgress string
  | Replay string nat string
  | RequestUnknown string "string option"

record UnresolvedChatRequest =
  uq_principal_id :: string
  uq_conversation_id :: string
  uq_client_request_id :: string
  uq_run_id :: string
  uq_pending :: bool

record chat_request_row =
  cq_principal_id :: string
  cq_conversation_id :: string
  cq_client_request_id :: string
  cq_body_hash :: string
  cq_run_id :: string
  cq_status :: string
  cq_response_status :: "int option"
  cq_response_json :: "string option"
  cq_outcome_detail :: "string option"
  cq_created_at :: int
  cq_updated_at :: int

type_synonym chat_key = "string \<times> string \<times> string"
type_synonym chat_requests = "chat_request_row list"

text \<open>The table's primary key, and the row it selects.\<close>

definition request_key :: "chat_request_row \<Rightarrow> chat_key" where
  "request_key r = (cq_principal_id r, cq_conversation_id r, cq_client_request_id r)"

definition find_request :: "chat_key \<Rightarrow> chat_requests \<Rightarrow> chat_request_row option" where
  "find_request k rows = find (\<lambda>r. request_key r = k) rows"

section \<open>Operations\<close>

definition is_graphic_ascii :: "char \<Rightarrow> bool" where
  "is_graphic_ascii c \<longleftrightarrow> 0x21 \<le> (of_char c :: nat) \<and> (of_char c :: nat) \<le> 0x7E"

definition is_lower_hexdigit :: "char \<Rightarrow> bool" where
  "is_lower_hexdigit c \<longleftrightarrow> 48 \<le> (of_char c :: nat) \<and> (of_char c :: nat) \<le> 57 \<or>
     97 \<le> (of_char c :: nat) \<and> (of_char c :: nat) \<le> 102"

lemma is_lower_hexdigit_code [code]: "is_lower_hexdigit c \<longleftrightarrow> c \<in> set ''0123456789abcdef''"
  by (cases c) (auto simp: is_lower_hexdigit_def of_char_def)

lemma is_graphic_ascii_code [code]: "is_graphic_ascii c \<longleftrightarrow> 33 \<le> byte_val c \<and> byte_val c \<le> 126"
  by (cases c) (simp add: is_graphic_ascii_def byte_val_def)

definition validate_scope :: "string \<Rightarrow> string \<Rightarrow> string \<Rightarrow> string \<Rightarrow> string \<Rightarrow> DbError + unit" where
  "validate_scope p c request_id body_hash run_id =
     (if rust_trim p = [] \<or> 128 < length p \<or> rust_trim c = [] \<or> 128 < length c \<or>
         rust_trim request_id = [] \<or> 128 < length request_id \<or> \<not> list_all is_graphic_ascii request_id \<or>
         rust_trim run_id = [] \<or> 160 < length run_id \<or>
         length body_hash \<noteq> 64 \<or> \<not> list_all is_lower_hexdigit body_hash
      then Inl (Invariant ''invalid chat request idempotency scope'') else Inr ())"

definition pending_row :: "chat_key \<Rightarrow> string \<Rightarrow> string \<Rightarrow> int \<Rightarrow> chat_request_row" where
  "pending_row k body_hash run_id now = (case k of (p, c, q) \<Rightarrow>
     \<lparr>cq_principal_id = p, cq_conversation_id = c, cq_client_request_id = q, cq_body_hash = body_hash,
      cq_run_id = run_id, cq_status = ''pending'', cq_response_status = None, cq_response_json = None,
      cq_outcome_detail = None, cq_created_at = now, cq_updated_at = now\<rparr>)"

definition lease_expired_detail :: string where
  "lease_expired_detail = ''pending request lease expired; outcome requires reconciliation''"

text \<open>The row the updates of one request touch while it is pending, and the update that gives its outcome up.\<close>

definition pending_at :: "chat_key \<Rightarrow> chat_request_row \<Rightarrow> bool" where
  "pending_at k r \<longleftrightarrow> request_key r = k \<and> cq_status r = ''pending''"

definition set_unknown :: "chat_key \<Rightarrow> string option \<Rightarrow> int \<Rightarrow> chat_requests \<Rightarrow> chat_requests" where
  "set_unknown k detail now = update_where (pending_at k)
     (\<lambda>r. r\<lparr>cq_status := ''unknown'', cq_outcome_detail := detail, cq_updated_at := now\<rparr>)"

text \<open>What \<open>reserve\<close> answers from the row it reads back; \<open>inserted\<close> says that the row is its own.\<close>

definition stored_state :: "chat_request_row \<Rightarrow> DbError + ChatRequestState" where
  "stored_state r =
     (if cq_status r = ''pending'' then Inr (InProgress (cq_run_id r))
      else if cq_status r = ''completed'' then
        (let status = (case cq_response_status r of None \<Rightarrow> 0 | Some s \<Rightarrow> s) in
         if status < 0 \<or> 65535 < status then Inl (Invariant ''saved HTTP status is out of range'')
         else (case cq_response_json r of
             None \<Rightarrow> Inl (Invariant ''completed request has no saved response'')
           | Some body \<Rightarrow> Inr (Replay (cq_run_id r) (nat status) body)))
      else if cq_status r = ''unknown'' then Inr (RequestUnknown (cq_run_id r) (cq_outcome_detail r))
      else Inl (Invariant (''unknown chat request state '' @ cq_status r)))"

definition reserve_tx :: "chat_key \<Rightarrow> string \<Rightarrow> string \<Rightarrow> int \<Rightarrow> chat_requests
   \<Rightarrow> DbError + ChatRequestState \<times> chat_requests" where
  "reserve_tx k body_hash run_id now rows =
     (let inserted = (find_request k rows = None);
          rows1 = (if inserted then rows @ [pending_row k body_hash run_id now] else rows) in
      (case find_request k rows1 of
         None \<Rightarrow> Inl (Sqlite QueryReturnedNoRows)
       | Some r \<Rightarrow>
           if cq_body_hash r \<noteq> body_hash then Inl (Invariant ''client request id was reused with a different body'')
           else if cq_status r = ''pending'' \<and> inserted then Inr (Reserved (cq_run_id r), rows1)
           else if cq_status r = ''pending'' \<and> PENDING_REQUEST_STALE_AFTER_SECS \<le> saturating_sub_i64 now (cq_updated_at r)
             then Inr (RequestUnknown (cq_run_id r) (Some lease_expired_detail),
                       set_unknown k (Some lease_expired_detail) now rows1)
           else (case stored_state r of Inl e \<Rightarrow> Inl e | Inr s \<Rightarrow> Inr (s, rows1))))"

definition reserve :: "chat_key \<Rightarrow> string \<Rightarrow> string \<Rightarrow> int \<Rightarrow> chat_requests
   \<Rightarrow> (DbError + ChatRequestState) \<times> chat_requests" where
  "reserve k body_hash run_id now rows = (case k of (p, c, q) \<Rightarrow>
     (case validate_scope p c q body_hash run_id of
        Inl e \<Rightarrow> (Inl e, rows)
      | Inr _ \<Rightarrow> transaction (reserve_tx k body_hash run_id now) rows))"

text \<open>\<open>ORDER BY updated_at DESC LIMIT 1\<close>; SQLite leaves open which of two equally recent rows it returns.\<close>

definition in_progress_run_for_body :: "string \<Rightarrow> string \<Rightarrow> string \<Rightarrow> int \<Rightarrow> chat_requests \<Rightarrow> string option" where
  "in_progress_run_for_body p c body_hash updated_since rows =
     (case sort_key (\<lambda>r. - cq_updated_at r) (filter (\<lambda>r. cq_principal_id r = p \<and> cq_conversation_id r = c \<and>
              cq_body_hash r = body_hash \<and> cq_status r = ''pending'' \<and> updated_since \<le> cq_updated_at r) rows) of
        [] \<Rightarrow> None | r # _ \<Rightarrow> Some (cq_run_id r))"

definition invalid_response :: "nat \<Rightarrow> string \<Rightarrow> bool" where
  "invalid_response status_code response_json \<longleftrightarrow>
     2 * 1024 * 1024 < int (length response_json) \<or> \<not> (200 \<le> status_code \<and> status_code \<le> 599)"

definition complete :: "chat_key \<Rightarrow> string \<Rightarrow> nat \<Rightarrow> string \<Rightarrow> int \<Rightarrow> chat_requests
   \<Rightarrow> (DbError + unit) \<times> chat_requests" where
  "complete k run_id status_code response_json now rows =
     (if invalid_response status_code response_json then (Inl (Invariant ''invalid saved chat response''), rows)
      else (if count_where (pending_at k) rows \<noteq> 1 then Inl (Invariant ''chat request is not pending'') else Inr (),
            update_where (pending_at k)
              (\<lambda>r. r\<lparr>cq_run_id := run_id, cq_status := ''completed'', cq_response_status := Some (int status_code),
                     cq_response_json := Some response_json, cq_outcome_detail := None, cq_updated_at := now\<rparr>) rows))"

definition heartbeat :: "chat_key \<Rightarrow> int \<Rightarrow> chat_requests \<Rightarrow> bool \<times> chat_requests" where
  "heartbeat k now rows = (count_where (pending_at k) rows = 1,
     update_where (pending_at k) (\<lambda>r. r\<lparr>cq_updated_at := now\<rparr>) rows)"

definition bind_execution_run :: "chat_key \<Rightarrow> string \<Rightarrow> string \<Rightarrow> int \<Rightarrow> chat_requests
   \<Rightarrow> (DbError + unit) \<times> chat_requests" where
  "bind_execution_run k reserved_run_id execution_run_id now rows =
     (let p = (\<lambda>r. pending_at k r \<and> cq_run_id r = reserved_run_id);
          rows1 = update_where p (\<lambda>r. r\<lparr>cq_run_id := execution_run_id, cq_updated_at := now\<rparr>) rows in
      if count_where p rows = 1 then (Inr (), rows1)
      else (case find (pending_at k) rows1 of
          None \<Rightarrow> (Inl (Sqlite QueryReturnedNoRows), rows1)
        | Some r \<Rightarrow> (if cq_run_id r = execution_run_id then Inr ()
            else Inl (Invariant ''chat request reservation could not bind execution run''), rows1)))"

definition unknown_candidate :: "chat_key \<Rightarrow> string \<Rightarrow> chat_request_row \<Rightarrow> bool" where
  "unknown_candidate k previous_run_id r \<longleftrightarrow>
     request_key r = k \<and> cq_run_id r = previous_run_id \<and> cq_status r = ''unknown''"

definition reopen_unknown_for_recovery :: "chat_key \<Rightarrow> string \<Rightarrow> string \<Rightarrow> int \<Rightarrow> chat_requests
   \<Rightarrow> (DbError + unit) \<times> chat_requests" where
  "reopen_unknown_for_recovery k previous_run_id execution_run_id now rows =
     (if count_where (unknown_candidate k previous_run_id) rows = 1 then Inr ()
      else Inl (Invariant ''chat request is not an unknown recovery candidate''),
      update_where (unknown_candidate k previous_run_id)
        (\<lambda>r. r\<lparr>cq_run_id := execution_run_id, cq_status := ''pending'', cq_outcome_detail := None,
               cq_updated_at := now\<rparr>) rows)"

definition mark_request_unknown :: "chat_key \<Rightarrow> string option \<Rightarrow> int \<Rightarrow> chat_requests
   \<Rightarrow> (DbError + unit) \<times> chat_requests" where
  "mark_request_unknown k detail now rows =
     (if (case detail of None \<Rightarrow> False | Some v \<Rightarrow> 512 < length v)
      then (Inl (Invariant ''outcome detail exceeds 512 bytes''), rows)
      else (if count_where (pending_at k) rows \<noteq> 1 then Inl (Invariant ''chat request is not pending'') else Inr (),
            set_unknown k detail now rows))"

text \<open>\<open>ORDER BY created_at, principal_id, conversation_id, client_request_id LIMIT limit.clamp(1, 1000)\<close>.\<close>

definition unresolved_view :: "chat_request_row \<Rightarrow> UnresolvedChatRequest" where
  "unresolved_view r = \<lparr>uq_principal_id = cq_principal_id r, uq_conversation_id = cq_conversation_id r,
     uq_client_request_id = cq_client_request_id r, uq_run_id = cq_run_id r, uq_pending = (cq_status r = ''pending'')\<rparr>"

definition list_unresolved :: "nat \<Rightarrow> chat_requests \<Rightarrow> UnresolvedChatRequest list" where
  "list_unresolved limit rows = map unresolved_view (take (max 1 (min limit 1000))
     (sort_key cq_created_at (sort_key cq_principal_id (sort_key cq_conversation_id (sort_key cq_client_request_id
       (filter (\<lambda>r. cq_status r \<in> {''pending'', ''unknown''}) rows))))))"

definition unresolved_at :: "UnresolvedChatRequest \<Rightarrow> chat_request_row \<Rightarrow> bool" where
  "unresolved_at q r \<longleftrightarrow>
     request_key r = (uq_principal_id q, uq_conversation_id q, uq_client_request_id q) \<and>
     cq_run_id r = uq_run_id q \<and> cq_status r \<in> {''pending'', ''unknown''}"

definition complete_reconciled :: "UnresolvedChatRequest \<Rightarrow> nat \<Rightarrow> string \<Rightarrow> int \<Rightarrow> chat_requests
   \<Rightarrow> (DbError + unit) \<times> chat_requests" where
  "complete_reconciled q status_code response_json now rows =
     (if invalid_response status_code response_json then (Inl (Invariant ''invalid reconciled chat response''), rows)
      else
       (let rows1 = update_where (unresolved_at q)
              (\<lambda>r. r\<lparr>cq_status := ''completed'', cq_response_status := Some (int status_code),
                     cq_response_json := Some response_json, cq_outcome_detail := None, cq_updated_at := now\<rparr>) rows in
        if count_where (unresolved_at q) rows = 1 then (Inr (), rows1)
        else (case find (\<lambda>r. request_key r = (uq_principal_id q, uq_conversation_id q, uq_client_request_id q) \<and>
                       cq_status r = ''completed'') rows1 of
            None \<Rightarrow> (Inl (Invariant ''chat request changed while its completed run was reconciled''), rows1)
          | Some r \<Rightarrow> (if cq_run_id r = uq_run_id q \<and> cq_response_status r = Some (int status_code) \<and>
                         cq_response_json r = Some response_json then Inr ()
              else Inl (Invariant ''chat request changed while its completed run was reconciled''), rows1))))"

end
