(* ===== verification/Chat_Request_Properties.thy ===== *)
theory Chat_Request_Properties
  imports Chat_Requests
begin

text \<open>
  What the idempotency store of \<open>Chat_Requests\<close> promises to callers that retry: the table's constraints, one reservation
  per identifier, the exact replay of a saved response, and the fencing of a reservation whose lease ran out.
\<close>

section \<open>The store as a machine\<close>

datatype chat_action =
    Reserve chat_key string string int
  | Complete chat_key string nat string int
  | Heartbeat chat_key int
  | BindExecutionRun chat_key string string int
  | ReopenUnknownForRecovery chat_key string string int
  | MarkUnknown chat_key "string option" int
  | CompleteReconciled UnresolvedChatRequest nat string int

fun chat_step :: "chat_requests \<Rightarrow> chat_action \<Rightarrow> chat_requests" where
  "chat_step rows (Reserve k h run now) = snd (reserve k h run now rows)"
| "chat_step rows (Complete k run code body now) = snd (complete k run code body now rows)"
| "chat_step rows (Heartbeat k now) = snd (heartbeat k now rows)"
| "chat_step rows (BindExecutionRun k run run' now) = snd (bind_execution_run k run run' now rows)"
| "chat_step rows (ReopenUnknownForRecovery k run run' now) = snd (reopen_unknown_for_recovery k run run' now rows)"
| "chat_step rows (MarkUnknown k detail now) = snd (mark_request_unknown k detail now rows)"
| "chat_step rows (CompleteReconciled q code body now) = snd (complete_reconciled q code body now rows)"

definition row_ok :: "chat_request_row \<Rightarrow> bool" where
  "row_ok r \<longleftrightarrow> length (cq_body_hash r) = 64 \<and>
     (case cq_outcome_detail r of None \<Rightarrow> True | Some d \<Rightarrow> length d \<le> 512) \<and>
     (cq_status r \<in> {''pending'', ''unknown''} \<and> cq_response_status r = None \<and> cq_response_json r = None \<or>
      cq_status r = ''completed'' \<and> cq_outcome_detail r = None \<and>
        (\<exists>code body. \<not> invalid_response code body \<and> cq_response_status r = Some (int code) \<and> cq_response_json r = Some body))"

text \<open>
  Every operation but \<open>reserve\<close> is one update of rows that are not completed; it leaves keys and body hashes alone
  and keeps the row's constraints. \<open>reserve\<close> may also append a row.
\<close>

definition row_update :: "(chat_request_row \<Rightarrow> bool) \<Rightarrow> (chat_request_row \<Rightarrow> chat_request_row) \<Rightarrow> bool" where
  "row_update p f \<longleftrightarrow> (\<forall>r. p r \<longrightarrow> cq_status r \<noteq> ''completed'' \<and> request_key (f r) = request_key r \<and>
     cq_body_hash (f r) = cq_body_hash r \<and> (row_ok r \<longrightarrow> row_ok (f r)))"

definition chat_table_ok :: "chat_requests \<Rightarrow> bool" where
  "chat_table_ok rows \<longleftrightarrow> distinct (map request_key rows) \<and> list_all row_ok rows"

lemma request_key_updates [simp]:
  "request_key (r\<lparr>cq_run_id := a\<rparr>) = request_key r" "request_key (r\<lparr>cq_status := a\<rparr>) = request_key r"
  "request_key (r\<lparr>cq_response_status := b\<rparr>) = request_key r" "request_key (r\<lparr>cq_response_json := c\<rparr>) = request_key r"
  "request_key (r\<lparr>cq_outcome_detail := c\<rparr>) = request_key r" "request_key (r\<lparr>cq_updated_at := d\<rparr>) = request_key r"
  by (simp_all add: request_key_def)

lemma request_key_pending_row [simp]: "request_key (pending_row k h run now) = k"
  by (cases k) (simp add: request_key_def pending_row_def)

lemma pending_row_fields [simp]:
  "cq_body_hash (pending_row k h run now) = h" "cq_run_id (pending_row k h run now) = run"
  "cq_status (pending_row k h run now) = ''pending''" "cq_response_status (pending_row k h run now) = None"
  "cq_response_json (pending_row k h run now) = None" "cq_outcome_detail (pending_row k h run now) = None"
  by (simp_all add: pending_row_def split: prod.splits)

lemma find_request_append:
  "find_request k (rows @ [pending_row k' h run now]) = (case find_request k rows of
     Some r \<Rightarrow> Some r | None \<Rightarrow> if k' = k then Some (pending_row k' h run now) else None)"
  by (simp add: find_request_def find_append split: option.splits)

lemma find_request_update:
  assumes "row_update p f"
  shows "find_request k (update_where p f rows) = map_option (\<lambda>r. if p r then f r else r) (find_request k rows)"
  unfolding find_request_def using assms by (intro find_update_where_key) (simp add: row_update_def)

lemma find_request_key: "find_request k rows = Some r \<Longrightarrow> request_key r = k \<and> r \<in> set rows"
  unfolding find_request_def using find_SomeD by fastforce

lemma find_request_none: "find_request k rows = None \<longleftrightarrow> k \<notin> request_key ` set rows"
  by (auto simp: find_request_def find_None_iff)

text \<open>The three shapes of a call of \<open>reserve\<close>.\<close>

lemma reserve_tx_absent:
  assumes "find_request k rows = None"
  shows "reserve_tx k h run now rows = Inr (Reserved run, rows @ [pending_row k h run now])"
  using assms by (simp add: reserve_tx_def find_request_append)

lemma reserve_tx_present:
  assumes "find_request k rows = Some r"
  shows "reserve_tx k h run now rows =
     (if cq_body_hash r \<noteq> h then Inl (Invariant ''client request id was reused with a different body'')
      else if cq_status r = ''pending'' \<and> PENDING_REQUEST_STALE_AFTER_SECS \<le> saturating_sub_i64 now (cq_updated_at r)
        then Inr (RequestUnknown (cq_run_id r) (Some lease_expired_detail), set_unknown k (Some lease_expired_detail) now rows)
      else (case stored_state r of Inl e \<Rightarrow> Inl e | Inr s \<Rightarrow> Inr (s, rows)))"
  using assms by (simp add: reserve_tx_def)

lemma reserve_cases:
  obtains (unchanged) "snd (reserve k h run now rows) = rows"
    | (inserted) "snd (reserve k h run now rows) = rows @ [pending_row k h run now]" "find_request k rows = None"
        "length h = 64" "fst (reserve k h run now rows) = Inr (Reserved run)"
    | (expired) r where "snd (reserve k h run now rows) = set_unknown k (Some lease_expired_detail) now rows"
        "find_request k rows = Some r"
proof -
  obtain p c q where k: "k = (p, c, q)" by (cases k)
  show ?thesis
  proof (cases "validate_scope p c q h run")
    case Inl
    then show ?thesis by (intro unchanged) (simp add: reserve_def k)
  next
    case (Inr u)
    then have res: "reserve k h run now rows = transaction (reserve_tx k h run now) rows" by (simp add: reserve_def k)
    from Inr have len: "length h = 64" by (auto simp: validate_scope_def split: if_splits)
    show ?thesis
    proof (cases "find_request k rows")
      case None
      then show ?thesis using len by (intro inserted) (simp_all add: res reserve_tx_absent)
    next
      case (Some r)
      then have "snd (reserve k h run now rows) = rows \<or>
          snd (reserve k h run now rows) = set_unknown k (Some lease_expired_detail) now rows"
        by (simp add: res reserve_tx_present transaction_def split: sum.splits)
      then show ?thesis using Some expired unchanged by blast
    qed
  qed
qed

text \<open>A step is an update that keeps completed rows, keys and hashes, or an insertion under a fresh key.\<close>

lemma row_update_set_unknown:
  assumes "case detail of None \<Rightarrow> True | Some d \<Rightarrow> length d \<le> 512"
  shows "row_update (pending_at k) (\<lambda>r. r\<lparr>cq_status := ''unknown'', cq_outcome_detail := detail, cq_updated_at := now\<rparr>)"
  using assms by (auto simp: row_update_def pending_at_def row_ok_def)

lemma row_update_completed:
  assumes "\<not> invalid_response code body" "\<And>r. p r \<Longrightarrow> cq_status r \<noteq> ''completed''"
  shows "row_update p (\<lambda>r. r\<lparr>cq_run_id := g r, cq_status := ''completed'', cq_response_status := Some (int code),
           cq_response_json := Some body, cq_outcome_detail := None, cq_updated_at := now\<rparr>)"
  using assms by (auto simp: row_update_def row_ok_def)

lemma row_update_run:
  assumes "\<And>r. p r \<Longrightarrow> cq_status r = ''pending''"
  shows "row_update p (\<lambda>r. r\<lparr>cq_run_id := g r, cq_updated_at := now\<rparr>)"
  using assms by (auto simp: row_update_def row_ok_def)

lemma row_update_reopen:
  "row_update (unknown_candidate k run) (\<lambda>r. r\<lparr>cq_run_id := run', cq_status := ''pending'', cq_outcome_detail := None,
     cq_updated_at := now\<rparr>)"
  by (auto simp: row_update_def row_ok_def unknown_candidate_def)

lemma update_none: "rows = update_where (\<lambda>r. False) f rows"
  by (simp add: update_where_none)

lemma row_update_none: "row_update (\<lambda>r. False) f"
  by (simp add: row_update_def)

lemma chat_step_cases:
  obtains (updated) p f where "row_update p f" "chat_step rows a = update_where p f rows"
    | (inserted) k h run now where "a = Reserve k h run now" "find_request k rows = None" "length h = 64"
        "chat_step rows a = rows @ [pending_row k h run now]"
proof (cases a)
  case (Reserve k h run now)
  show ?thesis
  proof (cases rule: reserve_cases [of k h run now rows])
    case unchanged
    then show ?thesis using Reserve update_none by (intro updated [OF row_update_none]) auto
  next
    case inserted
    then show ?thesis using Reserve that(2) by simp
  next
    case expired
    then show ?thesis
      using Reserve row_update_set_unknown [of "Some lease_expired_detail"]
      by (intro updated) (auto simp: set_unknown_def lease_expired_detail_def)
  qed
next
  case (Complete k run code body now)
  show ?thesis
  proof (cases "invalid_response code body")
    case True
    then show ?thesis
      using Complete update_none by (intro updated [OF row_update_none]) (auto simp: complete_def)
  next
    case False
    then show ?thesis
      using Complete by (intro updated [OF row_update_completed [where g = "\<lambda>_. run" and p = "pending_at k" and now = now]])
        (auto simp: complete_def pending_at_def)
  qed
next
  case (Heartbeat k now)
  then show ?thesis
    by (intro updated [OF row_update_run [where g = cq_run_id and p = "pending_at k" and now = now]]) (auto simp: heartbeat_def pending_at_def)
next
  case (BindExecutionRun k run run' now)
  then show ?thesis
    by (intro updated [OF row_update_run [where g = "\<lambda>_. run'" and now = now and
          p = "\<lambda>r. pending_at k r \<and> cq_run_id r = run"]])
      (auto simp: bind_execution_run_def Let_def pending_at_def split: option.splits)
next
  case (ReopenUnknownForRecovery k run run' now)
  then show ?thesis
    by (intro updated [OF row_update_reopen]) (simp add: reopen_unknown_for_recovery_def)
next
  case (MarkUnknown k detail now)
  show ?thesis
  proof (cases "case detail of None \<Rightarrow> True | Some d \<Rightarrow> length d \<le> 512")
    case True
    with MarkUnknown show ?thesis
      by (intro updated [OF row_update_set_unknown [OF True]])
        (auto simp: mark_request_unknown_def set_unknown_def split: option.splits)
  next
    case False
    then have "mark_request_unknown k detail now rows = (Inl (Invariant ''outcome detail exceeds 512 bytes''), rows)"
      by (auto simp: mark_request_unknown_def split: option.splits)
    then show ?thesis using MarkUnknown update_none by (intro updated [OF row_update_none]) auto
  qed
next
  case (CompleteReconciled q code body now)
  show ?thesis
  proof (cases "invalid_response code body")
    case True
    then show ?thesis
      using CompleteReconciled update_none by (intro updated [OF row_update_none]) (auto simp: complete_reconciled_def)
  next
    case False
    then show ?thesis
      using CompleteReconciled by (intro updated [OF row_update_completed [where g = cq_run_id and p = "unresolved_at q" and now = now]])
        (auto simp: complete_reconciled_def Let_def unresolved_at_def split: option.splits)
  qed
qed

section \<open>The table's constraints\<close>

lemma chat_table_ok_update:
  assumes "row_update p f" "chat_table_ok rows"
  shows "chat_table_ok (update_where p f rows)"
proof -
  have "map request_key (update_where p f rows) = map request_key rows"
    using assms(1) by (intro map_update_where) (simp add: row_update_def)
  then show ?thesis
    using assms by (auto simp: chat_table_ok_def list_all_iff set_update_where row_update_def)
qed

lemma chat_table_ok_insert:
  assumes "find_request k rows = None" "length h = 64" "chat_table_ok rows"
  shows "chat_table_ok (rows @ [pending_row k h run now])"
  using assms by (auto simp: chat_table_ok_def find_request_none row_ok_def)

interpretation chat_requests: invariant_machine chat_step chat_table_ok
proof
  fix rows a
  assume ok: "chat_table_ok rows"
  show "chat_table_ok (chat_step rows a)"
    by (cases rule: chat_step_cases [of rows a]) (simp_all add: ok chat_table_ok_update chat_table_ok_insert)
qed

text \<open>
  C37: The table keeps its primary key and its CHECK constraints under every sequence of operations: a response is
  stored with a completed request and with no other, its status is one of 200 to 599, its body has at most 2 MiB, a hash has 64 bytes
  and a detail at most 512. So no update of the store can fail on a constraint.
\<close>

theorem chat_table_wellformed: "chat_table_ok (foldl chat_step [] actions)"
  by (rule chat_requests.run_inv) (simp add: chat_table_ok_def)

section \<open>One reservation per identifier\<close>

text \<open>The calls that are told to start the run of the request \<open>k\<close>.\<close>

fun starts_run :: "chat_key \<Rightarrow> chat_requests \<Rightarrow> chat_action \<Rightarrow> bool" where
  "starts_run k rows (Reserve k' h run now) \<longleftrightarrow> k' = k \<and> fst (reserve k' h run now rows) = Inr (Reserved run)"
| "starts_run k rows _ \<longleftrightarrow> False"

lemma find_request_step_Some:
  assumes "find_request k rows = Some r"
  obtains r' where "find_request k (chat_step rows a) = Some r'" "cq_body_hash r' = cq_body_hash r"
    "cq_status r = ''completed'' \<Longrightarrow> r' = r"
proof (cases rule: chat_step_cases [of rows a])
  case (updated p f)
  show ?thesis
  proof (rule that)
    show "find_request k (chat_step rows a) = Some (if p r then f r else r)"
      using updated assms by (simp add: find_request_update)
  qed (use updated(1) in \<open>auto simp: row_update_def\<close>)
next
  case inserted
  then show ?thesis using that [of r] assms by (simp add: find_request_append)
qed

lemma stored_state_not_reserved: "stored_state r \<noteq> Inr (Reserved run)"
  by (simp add: stored_state_def Let_def split: option.splits)

lemma starts_run_absent:
  assumes "starts_run k rows a"
  shows "find_request k rows = None"
proof (rule ccontr)
  assume "find_request k rows \<noteq> None"
  then obtain r where r: "find_request k rows = Some r" by blast
  from assms obtain h run now where "fst (reserve k h run now rows) = Inr (Reserved run)"
    by (cases a) auto
  with r stored_state_not_reserved show False
    by (auto simp: reserve_def transaction_def reserve_tx_present split: prod.splits sum.splits if_splits)
qed

lemma starts_run_present: "starts_run k rows a \<Longrightarrow> find_request k (chat_step rows a) \<noteq> None"
proof -
  assume st: "starts_run k rows a"
  then obtain h run now where a: "a = Reserve k h run now" by (cases a) auto
  with st starts_run_absent [OF st] show ?thesis
    by (cases k) (auto simp: reserve_def reserve_tx_absent find_request_append split: sum.splits)
qed

lemma no_start_when_present: "find_request k rows \<noteq> None \<Longrightarrow> count_steps (starts_run k) chat_step rows as = 0"
proof (induction as arbitrary: rows)
  case (Cons a as)
  then obtain r where r: "find_request k rows = Some r" by blast
  then have "\<not> starts_run k rows a" using starts_run_absent by fastforce
  moreover have "find_request k (chat_step rows a) \<noteq> None"
    by (rule find_request_step_Some [OF r, of a]) simp
  ultimately show ?case using Cons.IH by simp
qed simp

text \<open>
  C24: However many retries, heartbeats, completions, recoveries and lease expiries there are, and whatever the clock shows, at most one call
  is told to start the run of a request identifier, and none is once the identifier is in the table.
\<close>

theorem request_started_at_most_once:
  "count_steps (starts_run k) chat_step rows actions \<le> (if find_request k rows = None then 1 else 0)"
proof (cases "find_request k rows = None")
  case True
  then have "count_steps (starts_run k) chat_step rows actions \<le> 1"
  proof (induction actions arbitrary: rows)
    case (Cons a as)
    show ?case
    proof (cases "find_request k (chat_step rows a) = None")
      case True
      with Cons.IH starts_run_present show ?thesis by fastforce
    next
      case False
      then show ?thesis by (simp add: no_start_when_present)
    qed
  qed simp
  with True show ?thesis by simp
next
  case False
  then show ?thesis by (simp add: no_start_when_present)
qed

section \<open>Replay of a saved response\<close>

lemma completed_persists:
  "find_request k rows = Some r \<Longrightarrow> cq_status r = ''completed'' \<Longrightarrow> find_request k (foldl chat_step rows as) = Some r"
proof (induction as arbitrary: rows)
  case (Cons a as)
  show ?case by (rule find_request_step_Some [OF Cons.prems(1), of a]) (use Cons in simp)
qed simp

lemma reserve_completed:
  assumes "find_request (p, c, q) rows = Some r" "cq_status r = ''completed''" "cq_response_status r = Some (int code)"
    "cq_response_json r = Some body" "\<not> invalid_response code body" "validate_scope p c q h run = Inr ()"
  shows "reserve (p, c, q) h run now rows =
     (if h = cq_body_hash r then Inr (Replay (cq_run_id r) code body)
      else Inl (Invariant ''client request id was reused with a different body''), rows)"
  using assms by (auto simp: reserve_def reserve_tx_present stored_state_def invalid_response_def transaction_def)

lemma pending_at_key: "pending_at k = (\<lambda>r. request_key r = k \<and> cq_status r = ''pending'')"
  by (simp add: pending_at_def fun_eq_iff)

lemma count_pending:
  assumes "chat_table_ok rows"
  shows "count_where (pending_at k) rows = 1 \<longleftrightarrow> (\<exists>r. find_request k rows = Some r \<and> cq_status r = ''pending'')"
  using assms unfolding pending_at_key find_request_def chat_table_ok_def
  by (simp add: count_where_key [where k = request_key] split: option.splits)

text \<open>
  Once \<open>complete\<close> has succeeded, every later \<open>reserve\<close> of the identifier, after any further operations on the store and at any time,
  returns exactly the saved run, status and body when the request body is the one that was reserved, and
  is refused when it is another body; neither changes the table.
\<close>

theorem completed_request_is_replayed:
  assumes "chat_table_ok rows" "complete (p, c, q) run code body now rows = (Inr (), rows1)"
    "validate_scope p c q h run2 = Inr ()"
  shows "\<exists>r. find_request (p, c, q) rows = Some r \<and> cq_status r = ''pending'' \<and>
     reserve (p, c, q) h run2 now2 (foldl chat_step rows1 actions) =
       (if h = cq_body_hash r then Inr (Replay run code body)
        else Inl (Invariant ''client request id was reused with a different body''), foldl chat_step rows1 actions)"
proof -
  let ?f = "\<lambda>r. r\<lparr>cq_run_id := run, cq_status := ''completed'', cq_response_status := Some (int code),
     cq_response_json := Some body, cq_outcome_detail := None, cq_updated_at := now\<rparr>"
  from assms(2) have valid: "\<not> invalid_response code body" and "count_where (pending_at (p, c, q)) rows = 1"
    and rows1: "rows1 = update_where (pending_at (p, c, q)) ?f rows"
    by (auto simp: complete_def split: if_splits)
  with count_pending [OF assms(1)] obtain r
    where r: "find_request (p, c, q) rows = Some r" "cq_status r = ''pending''" by blast
  have up: "row_update (pending_at (p, c, q)) ?f"
    by (rule row_update_completed [OF valid]) (simp add: pending_at_def)
  have "find_request (p, c, q) rows1 = Some (?f r)"
    using r find_request_key [OF r(1)] by (simp add: rows1 find_request_update [OF up] pending_at_def)
  then have "find_request (p, c, q) (foldl chat_step rows1 actions) = Some (?f r)"
    by (rule completed_persists) simp
  from reserve_completed [OF this _ _ _ valid assms(3)] r show ?thesis by auto
qed

text \<open>A reservation, its completion, a late heartbeat and two retries.\<close>

definition example_hash :: string where
  "example_hash = replicate 64 CHR ''a''"

definition example_key :: chat_key where
  "example_key = (''controller'', ''thread-a'', ''req-1'')"

definition example_row :: "string \<Rightarrow> int \<Rightarrow> chat_request_row" where
  "example_row run now = pending_row example_key example_hash run now"

lemma example_valid: "validate_scope ''controller'' ''thread-a'' ''req-1'' example_hash ''run-new'' = Inr ()"
  by code_simp

lemma example_ok: "chat_table_ok [example_row run now]"
  by (simp add: chat_table_ok_def row_ok_def example_row_def example_hash_def)

theorem completed_request_is_replayed_witness:
  "reserve example_key example_hash ''run-new'' 99
     (foldl chat_step (snd (complete example_key ''run-a'' 200 ''{}'' 12 [example_row ''run-a'' 10])) [Heartbeat example_key 50]) =
   (Inr (Replay ''run-a'' 200 ''{}''),
    foldl chat_step (snd (complete example_key ''run-a'' 200 ''{}'' 12 [example_row ''run-a'' 10])) [Heartbeat example_key 50])"
proof -
  let ?rows = "[example_row ''run-a'' 10]"
  have stored: "complete (''controller'', ''thread-a'', ''req-1'') ''run-a'' 200 ''{}'' 12 ?rows =
      (Inr (), snd (complete example_key ''run-a'' 200 ''{}'' 12 ?rows))"
    by code_simp
  from completed_request_is_replayed [OF example_ok stored example_valid, of 99 "[Heartbeat example_key 50]"]
  show ?thesis
    by (auto simp: find_request_def example_row_def simp flip: example_key_def)
qed

section \<open>Reconciliation after a restart\<close>

definition reconcile_key :: "UnresolvedChatRequest \<Rightarrow> chat_key" where
  "reconcile_key q = (uq_principal_id q, uq_conversation_id q, uq_client_request_id q)"

lemma count_unresolved:
  assumes "chat_table_ok rows"
  shows "count_where (unresolved_at q) rows = 1 \<longleftrightarrow> (\<exists>r. find_request (reconcile_key q) rows = Some r \<and> unresolved_at q r)"
proof -
  let ?p = "\<lambda>r. cq_run_id r = uq_run_id q \<and> cq_status r \<in> {''pending'', ''unknown''}"
  have split: "unresolved_at q = (\<lambda>r. request_key r = reconcile_key q \<and> ?p r)"
    by (simp add: unresolved_at_def reconcile_key_def fun_eq_iff)
  have key: "request_key r = reconcile_key q" if "find (\<lambda>r. request_key r = reconcile_key q) rows = Some r" for r
    using find_SomeD [OF that] by simp
  have "distinct (map request_key rows)" using assms by (simp add: chat_table_ok_def)
  from count_where_key [OF this, of "reconcile_key q" ?p] key show ?thesis
    unfolding split find_request_def by (auto split: option.splits)
qed

lemma find_completed:
  assumes "chat_table_ok rows"
  shows "find (\<lambda>r. request_key r = k \<and> cq_status r = ''completed'') rows = Some r \<longleftrightarrow>
     find_request k rows = Some r \<and> cq_status r = ''completed''"
proof -
  have d: "distinct (map request_key rows)" using assms by (simp add: chat_table_ok_def)
  show ?thesis
  proof
    assume "find (\<lambda>r. request_key r = k \<and> cq_status r = ''completed'') rows = Some r"
    from find_SomeD [OF this] show "find_request k rows = Some r \<and> cq_status r = ''completed''"
      by (simp add: find_request_def find_key_iff [OF d])
  next
    assume r: "find_request k rows = Some r \<and> cq_status r = ''completed''"
    then have "request_key r = k \<and> cq_status r = ''completed''" "r \<in> set rows"
      using find_request_key [of k rows r] by simp_all
    then obtain r' where r': "find (\<lambda>r. request_key r = k \<and> cq_status r = ''completed'') rows = Some r'"
      by (cases "find (\<lambda>r. request_key r = k \<and> cq_status r = ''completed'') rows") (auto simp: find_None_iff)
    from find_SomeD [OF r'] have "find_request k rows = Some r'"
      by (simp add: find_request_def find_key_iff [OF d])
    with r r' show "find (\<lambda>r. request_key r = k \<and> cq_status r = ''completed'') rows = Some r" by simp
  qed
qed

text \<open>A request that is completed with this response: the call succeeds and changes nothing.\<close>

lemma complete_reconciled_again:
  assumes "chat_table_ok rows" "\<not> invalid_response code body" "find_request (reconcile_key q) rows = Some r"
    "cq_status r = ''completed''" "cq_run_id r = uq_run_id q" "cq_response_status r = Some (int code)" "cq_response_json r = Some body"
  shows "complete_reconciled q code body now rows = (Inr (), rows)"
proof -
  have d: "distinct (map request_key rows)" using assms(1) by (simp add: chat_table_ok_def)
  have "\<not> unresolved_at q x" if "x \<in> set rows" for x
  proof
    assume u: "unresolved_at q x"
    then have "find_request (reconcile_key q) rows = Some x"
      using that by (simp add: unresolved_at_def reconcile_key_def find_request_def find_key_iff [OF d])
    with assms(3,4) u show False by (simp add: unresolved_at_def)
  qed
  then have "update_where (unresolved_at q) f rows = rows" "count_where (unresolved_at q) rows = 0" for f
    by (simp_all add: update_where_none count_where_def filter_empty_conv)
  moreover have "find (\<lambda>r. request_key r = reconcile_key q \<and> cq_status r = ''completed'') rows = Some r"
    using assms(3,4) find_completed [OF assms(1)] by blast
  ultimately show ?thesis
    using assms(2,5-7) by (simp add: complete_reconciled_def reconcile_key_def)
qed

lemma complete_reconciled_stores:
  assumes "chat_table_ok rows" "complete_reconciled q code body now rows = (Inr (), rows1)"
  obtains r where "find_request (reconcile_key q) rows1 = Some r" "cq_status r = ''completed''" "cq_run_id r = uq_run_id q"
    "cq_response_status r = Some (int code)" "cq_response_json r = Some body" "\<not> invalid_response code body" "chat_table_ok rows1"
proof -
  let ?f = "\<lambda>r. r\<lparr>cq_status := ''completed'', cq_response_status := Some (int code),
     cq_response_json := Some body, cq_outcome_detail := None, cq_updated_at := now\<rparr>"
  from assms(2) have valid: "\<not> invalid_response code body" by (auto simp: complete_reconciled_def split: if_splits)
  with assms(2) have rows1: "rows1 = update_where (unresolved_at q) ?f rows"
    by (auto simp: complete_reconciled_def Let_def split: if_splits option.splits)
  have up: "row_update (unresolved_at q) ?f"
    using valid by (auto simp: row_update_def row_ok_def unresolved_at_def)
  have ok1: "chat_table_ok rows1" unfolding rows1 by (rule chat_table_ok_update [OF up assms(1)])
  show ?thesis
  proof (cases "count_where (unresolved_at q) rows = 1")
    case True
    with count_unresolved [OF assms(1)] obtain r where "find_request (reconcile_key q) rows = Some r" "unresolved_at q r"
      by blast
    then show ?thesis
      using that [of "?f r"] valid ok1 by (simp add: rows1 find_request_update [OF up] unresolved_at_def)
  next
    case False
    with assms(2) valid obtain r where
      "find (\<lambda>r. request_key r = reconcile_key q \<and> cq_status r = ''completed'') rows1 = Some r"
      "cq_run_id r = uq_run_id q" "cq_response_status r = Some (int code)" "cq_response_json r = Some body"
      by (auto simp: complete_reconciled_def Let_def rows1 reconcile_key_def split: option.splits if_splits)
    then show ?thesis using that valid ok1 find_completed [OF ok1] by blast
  qed
qed

text \<open>
  When \<open>complete_reconciled\<close> succeeds, whether this call stored the response or an earlier one did, every later retry of the
  request with the reserved body gets exactly that response for the run the request was listed with, and reconciling again, after any
  further operations, succeeds and changes nothing.
\<close>

theorem reconciled_request_is_replayed:
  assumes "chat_table_ok rows" "complete_reconciled q code body now rows = (Inr (), rows1)"
  shows "\<exists>r. find_request (reconcile_key q) rows1 = Some r \<and>
     complete_reconciled q code body now2 (foldl chat_step rows1 actions) = (Inr (), foldl chat_step rows1 actions) \<and>
     (validate_scope (uq_principal_id q) (uq_conversation_id q) (uq_client_request_id q) (cq_body_hash r) run = Inr () \<longrightarrow>
      reserve (reconcile_key q) (cq_body_hash r) run now2 (foldl chat_step rows1 actions) =
        (Inr (Replay (uq_run_id q) code body), foldl chat_step rows1 actions))"
proof -
  let ?rows2 = "foldl chat_step rows1 actions"
  obtain r where r: "find_request (reconcile_key q) rows1 = Some r" "cq_status r = ''completed''" "cq_run_id r = uq_run_id q"
    "cq_response_status r = Some (int code)" "cq_response_json r = Some body" "\<not> invalid_response code body" "chat_table_ok rows1"
    by (rule complete_reconciled_stores [OF assms])
  have r2: "find_request (reconcile_key q) ?rows2 = Some r" by (rule completed_persists [OF r(1,2)])
  have again: "complete_reconciled q code body now2 ?rows2 = (Inr (), ?rows2)"
    by (rule complete_reconciled_again [OF chat_requests.run_inv [OF r(7)] r(6) r2 r(2-5)])
  show ?thesis
    using r(1) again reserve_completed [OF r2 [unfolded reconcile_key_def] r(2,4,5,6)] r(3)
    by (auto simp: reconcile_key_def)
qed

theorem reconciled_request_is_replayed_witness:
  "reserve example_key example_hash ''run-new'' 99 (snd (complete_reconciled (unresolved_view (example_row ''run-a'' 10)) 200 ''{}'' 12
     [example_row ''run-a'' 10])) =
   (Inr (Replay ''run-a'' 200 ''{}''),
    snd (complete_reconciled (unresolved_view (example_row ''run-a'' 10)) 200 ''{}'' 12 [example_row ''run-a'' 10]))"
proof -
  let ?q = "unresolved_view (example_row ''run-a'' 10)" and ?rows = "[example_row ''run-a'' 10]"
  have stored: "complete_reconciled ?q 200 ''{}'' 12 ?rows = (Inr (), snd (complete_reconciled ?q 200 ''{}'' 12 ?rows))"
    by code_simp
  have fields: "uq_principal_id ?q = ''controller''" "uq_conversation_id ?q = ''thread-a''" "uq_client_request_id ?q = ''req-1''"
    "uq_run_id ?q = ''run-a''" "reconcile_key ?q = example_key"
    by (simp_all add: unresolved_view_def example_row_def pending_row_def example_key_def reconcile_key_def)
  have hash: "map_option cq_body_hash (find_request example_key (snd (complete_reconciled ?q 200 ''{}'' 12 ?rows))) = Some example_hash"
    by code_simp
  from reconciled_request_is_replayed [OF example_ok stored, of 99 "[]" "''run-new''"] hash example_valid
  show ?thesis by (auto simp: fields)
qed

section \<open>Leases\<close>

lemma saturating_sub_ge:
  assumes "i64_range now" "i64_range t"
  shows "300 \<le> saturating_sub_i64 now t \<longleftrightarrow> 300 \<le> now - t"
  using assms unfolding saturating_sub_i64_def i64_range_def by auto

text \<open>
  A reservation without a saved outcome for 300 seconds is given up by the next retry of the same body: the retry learns that the outcome is
  unknown, and neither the late handler can store a response nor renew the lease until an operator or the recovery reopens it. A retry
  within 300 seconds of the last heartbeat finds the run in progress and changes nothing.
\<close>

theorem stale_reservation_is_fenced:
  assumes "find_request (p, c, q) rows = Some r" "cq_status r = ''pending''"
    "validate_scope p c q (cq_body_hash r) run = Inr ()" "i64_range now" "i64_range (cq_updated_at r)"
  shows "if now - cq_updated_at r < 300
    then reserve (p, c, q) (cq_body_hash r) run now rows = (Inr (InProgress (cq_run_id r)), rows)
    else (let rows1 = snd (reserve (p, c, q) (cq_body_hash r) run now rows) in
      fst (reserve (p, c, q) (cq_body_hash r) run now rows) = Inr (RequestUnknown (cq_run_id r) (Some lease_expired_detail)) \<and>
      fst (complete (p, c, q) run2 code body now2 rows1) \<noteq> Inr () \<and>
      snd (complete (p, c, q) run2 code body now2 rows1) = rows1 \<and>
      heartbeat (p, c, q) now2 rows1 = (False, rows1))"
proof (cases "now - cq_updated_at r < 300")
  case True
  with assms(1-3) saturating_sub_ge [OF assms(4,5)] show ?thesis
    by (simp add: reserve_def reserve_tx_present PENDING_REQUEST_STALE_AFTER_SECS_def stored_state_def transaction_def)
next
  case False
  let ?rows1 = "set_unknown (p, c, q) (Some lease_expired_detail) now rows"
  have res: "reserve (p, c, q) (cq_body_hash r) run now rows =
      (Inr (RequestUnknown (cq_run_id r) (Some lease_expired_detail)), ?rows1)"
    using False assms(1-3) saturating_sub_ge [OF assms(4,5)]
    by (simp add: reserve_def reserve_tx_present PENDING_REQUEST_STALE_AFTER_SECS_def transaction_def)
  have none: "\<not> pending_at (p, c, q) x" if "x \<in> set ?rows1" for x
    using that by (auto simp: set_unknown_def set_update_where pending_at_def)
  then have "count_where (pending_at (p, c, q)) ?rows1 = 0"
    by (simp add: count_where_def filter_empty_conv)
  with none have "fst (complete (p, c, q) run2 code body now2 ?rows1) \<noteq> Inr ()"
      "snd (complete (p, c, q) run2 code body now2 ?rows1) = ?rows1" "heartbeat (p, c, q) now2 ?rows1 = (False, ?rows1)"
    by (simp_all add: complete_def heartbeat_def update_where_none)
  with False res show ?thesis by (simp add: Let_def)
qed

theorem stale_reservation_is_fenced_witness:
  "reserve example_key example_hash ''run-new'' 309 [example_row ''run-a'' 10] =
     (Inr (InProgress ''run-a''), [example_row ''run-a'' 10]) \<and>
   fst (reserve example_key example_hash ''run-new'' 310 [example_row ''run-a'' 10]) =
     Inr (RequestUnknown ''run-a'' (Some lease_expired_detail))"
proof -
  let ?rows = "[example_row ''run-a'' 10]"
  have row: "find_request (''controller'', ''thread-a'', ''req-1'') ?rows = Some (example_row ''run-a'' 10)"
    "cq_status (example_row ''run-a'' 10) = ''pending''" "cq_updated_at (example_row ''run-a'' 10) = 10"
    "cq_body_hash (example_row ''run-a'' 10) = example_hash" "cq_run_id (example_row ''run-a'' 10) = ''run-a''"
    by (simp_all add: find_request_def example_row_def pending_row_def request_key_def example_key_def)
  have valid: "validate_scope ''controller'' ''thread-a'' ''req-1'' (cq_body_hash (example_row ''run-a'' 10)) ''run-new'' = Inr ()"
    using example_valid row(4) by simp
  have t: "i64_range 309" "i64_range 310" "i64_range (cq_updated_at (example_row ''run-a'' 10))"
    by (simp_all add: i64_range_def row(3))
  from stale_reservation_is_fenced [OF row(1,2) valid t(1,3)]
    stale_reservation_is_fenced [OF row(1,2) valid t(2,3)]
  show ?thesis by (simp add: row Let_def example_key_def)
qed

end
