(* ===== verification/Turn_Controls.thy ===== *)
theory Turn_Controls
  imports Db
begin

text \<open>
  Steering and stop controls of chat turns (\<open>crates/core/src/turn_controls.rs\<close>): requests with a lifecycle, an append-only
  log of their transitions, idempotent submission, and the single dispatch claim.

  The two tables are the store's state. The fresh UUID of a request and SHA-256 are arguments, the JSON library is a parameter.
\<close>

section \<open>State\<close>

datatype TurnControlKind = QueueNextTurn | Steer | Pause | Resume | Cancel

fun TurnControlKind_as_str :: "TurnControlKind \<Rightarrow> string" where
  "TurnControlKind_as_str QueueNextTurn = ''queue_next_turn''"
| "TurnControlKind_as_str Steer = ''steer''"
| "TurnControlKind_as_str Pause = ''pause''"
| "TurnControlKind_as_str Resume = ''resume''"
| "TurnControlKind_as_str Cancel = ''cancel''"

definition TurnControlKind_parse :: "string \<Rightarrow> TurnControlKind option" where
  "TurnControlKind_parse s =
     (if s = ''queue_next_turn'' then Some QueueNextTurn
      else if s = ''steer'' then Some Steer
      else if s = ''pause'' then Some Pause
      else if s = ''resume'' then Some Resume
      else if s = ''cancel'' then Some Cancel
      else None)"

datatype TurnControlStatus = Accepted | Delivered | Applied | Acknowledged | Cancelled | Failed

fun TurnControlStatus_as_str :: "TurnControlStatus \<Rightarrow> string" where
  "TurnControlStatus_as_str Accepted = ''accepted''"
| "TurnControlStatus_as_str Delivered = ''delivered''"
| "TurnControlStatus_as_str Applied = ''applied''"
| "TurnControlStatus_as_str Acknowledged = ''acknowledged''"
| "TurnControlStatus_as_str Cancelled = ''cancelled''"
| "TurnControlStatus_as_str Failed = ''failed''"

definition parse_status :: "string \<Rightarrow> TurnControlStatus option" where
  "parse_status s =
     (if s = ''accepted'' then Some Accepted
      else if s = ''delivered'' then Some Delivered
      else if s = ''applied'' then Some Applied
      else if s = ''acknowledged'' then Some Acknowledged
      else if s = ''cancelled'' then Some Cancelled
      else if s = ''failed'' then Some Failed
      else None)"

record 'j TurnControlRecord =
  tr_control_id :: string
  tr_conversation_id :: string
  tr_turn_id :: "string option"
  tr_kind :: TurnControlKind
  tr_payload :: 'j
  tr_status :: TurnControlStatus
  tr_acknowledgement :: "'j option"
  tr_created_at :: int
  tr_updated_at :: int
  tr_acknowledged_at :: "int option"

datatype TurnControlError = ControlDb DbError | IdempotencyConflict | Transition string

record control_row =
  tc_control_id :: string
  tc_conversation_id :: string
  tc_turn_id :: "string option"
  tc_kind :: string
  tc_payload_json :: string
  tc_status :: string
  tc_acknowledgement_json :: "string option"
  tc_created_at :: int
  tc_updated_at :: int
  tc_acknowledged_at :: "int option"
  tc_client_request_id :: "string option"
  tc_request_body_sha256 :: "string option"

record transition_row =
  tt_control_id :: string
  tt_ordinal :: int
  tt_status :: string
  tt_detail_json :: "string option"
  tt_occurred_at :: int

record controls =
  control_rows :: "control_row list"
  transition_rows :: "transition_row list"

section \<open>Reading\<close>

definition map_record :: "'j json \<Rightarrow> control_row \<Rightarrow> sql_error + 'j TurnControlRecord" where
  "map_record js r =
     (case TurnControlKind_parse (tc_kind r) of None \<Rightarrow> Inl InvalidQuery | Some k \<Rightarrow>
      (case parse_status (tc_status r) of None \<Rightarrow> Inl InvalidQuery | Some s \<Rightarrow>
       (case json_from_str js (tc_payload_json r) of None \<Rightarrow> Inl InvalidQuery | Some p \<Rightarrow>
          Inr \<lparr>tr_control_id = tc_control_id r, tr_conversation_id = tc_conversation_id r, tr_turn_id = tc_turn_id r,
            tr_kind = k, tr_payload = p, tr_status = s,
            tr_acknowledgement = map_option (\<lambda>v. case json_from_str js v of None \<Rightarrow> json_null js | Some j \<Rightarrow> j)
              (tc_acknowledgement_json r),
            tr_created_at = tc_created_at r, tr_updated_at = tc_updated_at r, tr_acknowledged_at = tc_acknowledged_at r\<rparr>)))"

definition find_control :: "string \<Rightarrow> controls \<Rightarrow> control_row option" where
  "find_control i st = find (\<lambda>r. tc_control_id r = i) (control_rows st)"

definition get_control :: "'j json \<Rightarrow> string \<Rightarrow> controls \<Rightarrow> TurnControlError + 'j TurnControlRecord option" where
  "get_control js i st = (case find_control i st of
      None \<Rightarrow> Inr None
    | Some r \<Rightarrow> (case map_record js r of Inl e \<Rightarrow> Inl (ControlDb (Sqlite e)) | Inr x \<Rightarrow> Inr (Some x)))"

text \<open>\<open>query_map(..).collect::<Result<Vec<_>, _>>()\<close>.\<close>

fun collect_records :: "'j json \<Rightarrow> control_row list \<Rightarrow> TurnControlError + 'j TurnControlRecord list" where
  "collect_records js [] = Inr []"
| "collect_records js (r # rs) = (case map_record js r of
      Inl e \<Rightarrow> Inl (ControlDb (Sqlite e))
    | Inr x \<Rightarrow> (case collect_records js rs of Inl e \<Rightarrow> Inl e | Inr xs \<Rightarrow> Inr (x # xs)))"

definition in_creation_order :: "control_row list \<Rightarrow> control_row list" where
  "in_creation_order rows = sort_key tc_created_at (sort_key tc_control_id rows)"

definition queued_messages :: "'j json \<Rightarrow> string \<Rightarrow> controls \<Rightarrow> TurnControlError + 'j TurnControlRecord list" where
  "queued_messages js c st = collect_records js (in_creation_order (filter (\<lambda>r. tc_conversation_id r = c \<and>
     tc_kind r = ''queue_next_turn'' \<and> tc_status r \<in> {''accepted'', ''delivered''}) (control_rows st)))"

definition reconnectable :: "'j json \<Rightarrow> string \<Rightarrow> nat \<Rightarrow> controls \<Rightarrow> TurnControlError + 'j TurnControlRecord list" where
  "reconnectable js c limit st = collect_records js (take (max 1 (min limit 500)) (in_creation_order (filter (\<lambda>r.
     tc_conversation_id r = c \<and> tc_kind r \<in> {''steer'', ''pause'', ''resume''} \<and>
     tc_status r \<in> {''accepted'', ''delivered'', ''applied''}) (control_rows st))))"

definition pending_queue_controls :: "'j json \<Rightarrow> nat \<Rightarrow> controls \<Rightarrow> TurnControlError + 'j TurnControlRecord list" where
  "pending_queue_controls js limit st = collect_records js (take (max 1 (min limit 500)) (in_creation_order (filter (\<lambda>r.
     tc_kind r = ''queue_next_turn'' \<and> tc_status r \<in> {''accepted'', ''delivered''}) (control_rows st))))"

definition list_controls :: "'j json \<Rightarrow> string \<Rightarrow> int \<Rightarrow> nat \<Rightarrow> controls \<Rightarrow> TurnControlError + 'j TurnControlRecord list" where
  "list_controls js c after_created_at limit st = collect_records js (take (max 1 (min limit 200)) (in_creation_order
     (filter (\<lambda>r. tc_conversation_id r = c \<and> after_created_at \<le> tc_created_at r) (control_rows st))))"

section \<open>Submission\<close>

text \<open>The two inserts of a new request: its row and its first transition.\<close>

definition insert_control :: "control_row \<Rightarrow> int \<Rightarrow> controls \<Rightarrow> DbError + controls" where
  "insert_control r now st =
     (if find_control (tc_control_id r) st \<noteq> None
      then Inl (Sqlite (ConstraintViolation ''UNIQUE constraint failed: state_turn_controls.control_id''))
      else Inr \<lparr>control_rows = control_rows st @ [r],
             transition_rows = transition_rows st @ [\<lparr>tt_control_id = tc_control_id r, tt_ordinal = 0, tt_status = ''accepted'',
               tt_detail_json = None, tt_occurred_at = now\<rparr>]\<rparr>)"

definition accepted_row :: "string \<Rightarrow> string \<Rightarrow> string option \<Rightarrow> TurnControlKind \<Rightarrow> string \<Rightarrow> int \<Rightarrow> (string \<times> string) option \<Rightarrow> control_row" where
  "accepted_row i c turn_id kind payload_json now request =
     \<lparr>tc_control_id = i, tc_conversation_id = c, tc_turn_id = turn_id, tc_kind = TurnControlKind_as_str kind,
      tc_payload_json = payload_json, tc_status = ''accepted'', tc_acknowledgement_json = None, tc_created_at = now,
      tc_updated_at = now, tc_acknowledged_at = None, tc_client_request_id = map_option fst request,
      tc_request_body_sha256 = map_option snd request\<rparr>"

definition invalid_turn_id :: "string option \<Rightarrow> bool" where
  "invalid_turn_id turn_id \<longleftrightarrow> (case turn_id of None \<Rightarrow> False | Some v \<Rightarrow> v = [] \<or> 128 < length v)"

definition saved_control :: "'j json \<Rightarrow> string \<Rightarrow> string \<Rightarrow> controls \<Rightarrow> TurnControlError + 'j TurnControlRecord" where
  "saved_control js i missing st = (case get_control js i st of
      Inl e \<Rightarrow> Inl e | Inr None \<Rightarrow> Inl (Transition missing) | Inr (Some x) \<Rightarrow> Inr x)"

definition enqueue_control :: "'j json \<Rightarrow> string \<Rightarrow> string \<Rightarrow> string option \<Rightarrow> TurnControlKind \<Rightarrow> 'j \<Rightarrow> int \<Rightarrow> controls
   \<Rightarrow> (TurnControlError + 'j TurnControlRecord) \<times> controls" where
  "enqueue_control js uuid c turn_id kind payload now st =
     (let payload_json = json_to_string js payload in
      if c = [] \<or> 128 < length c \<or> 64 * 1024 < int (length payload_json)
      then (Inl (Transition ''conversation or payload exceeds its bounds''), st)
      else if invalid_turn_id turn_id then (Inl (Transition ''turn id is empty or oversized''), st)
      else (case insert_control (accepted_row uuid c turn_id kind payload_json now None) now st of
          Inl e \<Rightarrow> (Inl (ControlDb e), st)
        | Inr st1 \<Rightarrow> (saved_control js uuid ''control disappeared after insertion'' st1, st1)))"

definition conflict_message :: string where
  "conflict_message = ''turn-control idempotency key was reused with a different intent''"

definition request_hash :: "(string \<Rightarrow> string) \<Rightarrow> TurnControlKind \<Rightarrow> string \<Rightarrow> string" where
  "request_hash sha256_hex kind payload_json = sha256_hex (TurnControlKind_as_str kind @ [CHR 0x00] @ payload_json)"

definition enqueue_control_idempotent_tx :: "string \<Rightarrow> string \<Rightarrow> string option \<Rightarrow> TurnControlKind \<Rightarrow> string \<Rightarrow> string \<Rightarrow> string \<Rightarrow> int
   \<Rightarrow> controls \<Rightarrow> DbError + (string \<times> bool) \<times> controls" where
  "enqueue_control_idempotent_tx uuid c turn_id kind payload_json client_request_id hash now st =
     (case find (\<lambda>r. tc_conversation_id r = c \<and> tc_client_request_id r = Some client_request_id) (control_rows st) of
        Some r \<Rightarrow> if tc_request_body_sha256 r \<noteq> Some hash then Inl (Invariant conflict_message)
          else Inr ((tc_control_id r, False), st)
      | None \<Rightarrow> (case insert_control (accepted_row uuid c turn_id kind payload_json now (Some (client_request_id, hash))) now st of
          Inl e \<Rightarrow> Inl e
        | Inr st1 \<Rightarrow> Inr ((uuid, True), st1)))"

definition enqueue_control_idempotent :: "'j json \<Rightarrow> (string \<Rightarrow> string) \<Rightarrow> string \<Rightarrow> string \<Rightarrow> string option \<Rightarrow> TurnControlKind \<Rightarrow> 'j \<Rightarrow> string \<Rightarrow> int
   \<Rightarrow> controls \<Rightarrow> (TurnControlError + 'j TurnControlRecord \<times> bool) \<times> controls" where
  "enqueue_control_idempotent js sha256_hex uuid c turn_id kind payload client_request_id now st =
     (let payload_json = json_to_string js payload in
      if c = [] \<or> 128 < length c \<or> 64 * 1024 < int (length payload_json) \<or> client_request_id = [] \<or> 128 < length client_request_id \<or>
         \<not> list_all (\<lambda>b. 0x21 \<le> (of_char b :: nat) \<and> (of_char b :: nat) \<le> 0x7E) client_request_id
      then (Inl (Transition ''conversation, payload, or idempotency key exceeds its bounds''), st)
      else if invalid_turn_id turn_id then (Inl (Transition ''turn id is empty or oversized''), st)
      else (case transaction (enqueue_control_idempotent_tx uuid c turn_id kind payload_json client_request_id
                    (request_hash sha256_hex kind payload_json) now) st of
          (Inl e, st1) \<Rightarrow> (Inl (if e = Invariant conflict_message then IdempotencyConflict else ControlDb e), st1)
        | (Inr (i, is_new), st1) \<Rightarrow> ((case saved_control js i ''control disappeared after insertion'' st1 of
              Inl e \<Rightarrow> Inl e | Inr x \<Rightarrow> Inr (x, is_new)), st1)))"

section \<open>Transitions\<close>

definition control_log :: "string \<Rightarrow> controls \<Rightarrow> transition_row list" where
  "control_log i st = filter (\<lambda>t. tt_control_id t = i) (transition_rows st)"

text \<open>\<open>SELECT COALESCE(MAX(ordinal), -1) + 1\<close>.\<close>

definition next_ordinal :: "string \<Rightarrow> controls \<Rightarrow> int" where
  "next_ordinal i st = (case map tt_ordinal (control_log i st) of [] \<Rightarrow> - 1 | s # ss \<Rightarrow> fold max ss s) + 1"

definition allowed_transition :: "string \<Rightarrow> TurnControlStatus \<Rightarrow> bool" where
  "allowed_transition current nxt \<longleftrightarrow>
     (current = ''accepted'' \<and> nxt \<in> {Delivered, Applied, Acknowledged, Cancelled, Failed} \<or>
      current = ''delivered'' \<and> nxt \<in> {Applied, Acknowledged, Cancelled, Failed} \<or>
      current = ''applied'' \<and> nxt \<in> {Acknowledged, Cancelled, Failed})"

definition log_transition :: "string \<Rightarrow> string \<Rightarrow> string option \<Rightarrow> int \<Rightarrow> (control_row \<Rightarrow> bool) \<Rightarrow> (control_row \<Rightarrow> control_row) \<Rightarrow> controls \<Rightarrow> controls" where
  "log_transition i status detail now p f st =
     \<lparr>control_rows = update_where p f (control_rows st),
      transition_rows = transition_rows st @ [\<lparr>tt_control_id = i, tt_ordinal = next_ordinal i st, tt_status = status,
        tt_detail_json = detail, tt_occurred_at = now\<rparr>]\<rparr>"

text \<open>\<open>transition_in_transaction\<close> after the acknowledgement is serialised.\<close>

definition transition_json_tx :: "string \<Rightarrow> TurnControlStatus \<Rightarrow> string option \<Rightarrow> int \<Rightarrow> controls \<Rightarrow> DbError + unit \<times> controls" where
  "transition_json_tx i nxt ack_json now st =
     (if (case ack_json of None \<Rightarrow> False | Some v \<Rightarrow> 16 * 1024 < int (length v))
      then Inl (Invariant ''turn-control acknowledgement exceeds 16 KiB'')
      else (case find_control i st of
          None \<Rightarrow> Inl (Invariant ''turn control was not found'')
        | Some r \<Rightarrow>
            if tc_status r = TurnControlStatus_as_str nxt then Inr ((), st)
            else if tc_status r \<in> {''acknowledged'', ''cancelled'', ''failed''}
            then Inl (Invariant (''terminal control state cannot transition: '' @ tc_status r))
            else if \<not> allowed_transition (tc_status r) nxt
            then Inl (Invariant (''invalid control transition '' @ tc_status r @ '' -> '' @ TurnControlStatus_as_str nxt))
            else Inr ((), log_transition i (TurnControlStatus_as_str nxt) ack_json now (\<lambda>r. tc_control_id r = i)
                   (\<lambda>r. r\<lparr>tc_status := TurnControlStatus_as_str nxt,
                          tc_acknowledgement_json := (case ack_json of None \<Rightarrow> tc_acknowledgement_json r | Some v \<Rightarrow> Some v),
                          tc_updated_at := now,
                          tc_acknowledged_at := (if TurnControlStatus_as_str nxt = ''acknowledged'' then Some now
                            else tc_acknowledged_at r)\<rparr>) st)))"

definition transition_in_transaction :: "'j json \<Rightarrow> string \<Rightarrow> TurnControlStatus \<Rightarrow> 'j option \<Rightarrow> int \<Rightarrow> controls
   \<Rightarrow> DbError + unit \<times> controls" where
  "transition_in_transaction js i nxt acknowledgement now = transition_json_tx i nxt (map_option (json_to_string js) acknowledgement) now"

definition transition :: "'j json \<Rightarrow> string \<Rightarrow> TurnControlStatus \<Rightarrow> 'j option \<Rightarrow> int \<Rightarrow> controls
   \<Rightarrow> (TurnControlError + 'j TurnControlRecord) \<times> controls" where
  "transition js i nxt acknowledgement now st = (case transaction (transition_in_transaction js i nxt acknowledgement now) st of
      (Inl e, st1) \<Rightarrow> (Inl (ControlDb e), st1)
    | (Inr _, st1) \<Rightarrow> (saved_control js i ''control disappeared after transition'' st1, st1))"

definition claim_delivery :: "string \<Rightarrow> int \<Rightarrow> controls \<Rightarrow> bool \<times> controls" where
  "claim_delivery i now st =
     (let p = (\<lambda>r. tc_control_id r = i \<and> tc_status r = ''accepted'') in
      if count_where p (control_rows st) = 0 then (False, st)
      else (True, log_transition i ''delivered'' (Some ''{\"dispatch_claimed\":true}'') now p
             (\<lambda>r. r\<lparr>tc_status := ''delivered'', tc_updated_at := now\<rparr>) st))"

definition apply_queued_message_in_transaction :: "string \<Rightarrow> string \<Rightarrow> int \<Rightarrow> int \<Rightarrow> controls \<Rightarrow> DbError + unit \<times> controls" where
  "apply_queued_message_in_transaction i c event_seq now st = (case find_control i st of
      None \<Rightarrow> Inl (Invariant ''queued turn control was not found'')
    | Some r \<Rightarrow>
        if tc_conversation_id r \<noteq> c \<or> tc_kind r \<noteq> TurnControlKind_as_str QueueNextTurn
        then Inl (Invariant ''queued turn control scope mismatch'')
        else if tc_status r \<notin> {''accepted'', ''delivered''} then Inl (Invariant (''queued turn control is already '' @ tc_status r))
        else transition_json_tx i Applied (Some (''{\"event_seq\":'' @ show_int event_seq @ ''}'')) now st)"

end
