(* ===== verification/Turn_Control_Properties.thy ===== *)
theory Turn_Control_Properties
  imports Turn_Controls
begin

text \<open>
  The lifecycle of turn controls: the log of every control is exactly its history along allowed transitions, delivery is claimed at
  most once, and a submission is idempotent.
\<close>

section \<open>The store as a machine\<close>

datatype 'j control_action =
    Enqueue string string "string option" TurnControlKind 'j int
  | EnqueueIdempotent string string "string option" TurnControlKind 'j string int
  | TransitionTo string TurnControlStatus "'j option" int
  | ClaimDelivery string int
  | ApplyQueuedMessage string string int int

fun control_step :: "'j json \<Rightarrow> (string \<Rightarrow> string) \<Rightarrow> controls \<Rightarrow> 'j control_action \<Rightarrow> controls" where
  "control_step js sha st (Enqueue uuid c t k p now) = snd (enqueue_control js uuid c t k p now st)"
| "control_step js sha st (EnqueueIdempotent uuid c t k p q now) = snd (enqueue_control_idempotent js sha uuid c t k p q now st)"
| "control_step js sha st (TransitionTo i s a now) = snd (transition js i s a now st)"
| "control_step js sha st (ClaimDelivery i now) = snd (claim_delivery i now st)"
| "control_step js sha st (ApplyQueuedMessage i c n now) = snd (transaction (apply_queued_message_in_transaction i c n now) st)"

text \<open>One transition of a log follows another.\<close>

definition follows :: "transition_row \<Rightarrow> transition_row \<Rightarrow> bool" where
  "follows t t' \<longleftrightarrow> list_ex (\<lambda>s. tt_status t' = TurnControlStatus_as_str s \<and> allowed_transition (tt_status t) s)
     [Accepted, Delivered, Applied, Acknowledged, Cancelled, Failed]"

definition history_of :: "control_row \<Rightarrow> transition_row list \<Rightarrow> bool" where
  "history_of r ts \<longleftrightarrow> ts \<noteq> [] \<and> map tt_ordinal ts = map int [0..<length ts] \<and> tt_status (hd ts) = ''accepted'' \<and>
     tt_status (last ts) = tc_status r \<and> successively follows ts"

definition request_ids :: "controls \<Rightarrow> (string \<times> string option) list" where
  "request_ids st = map (\<lambda>r. (tc_conversation_id r, tc_client_request_id r)) (filter (\<lambda>r. tc_client_request_id r \<noteq> None) (control_rows st))"

definition controls_ok :: "controls \<Rightarrow> bool" where
  "controls_ok st \<longleftrightarrow> distinct (map tc_control_id (control_rows st)) \<and> distinct (request_ids st) \<and>
     list_all (\<lambda>r. history_of r (control_log (tc_control_id r) st)) (control_rows st) \<and>
     list_all (\<lambda>t. tt_control_id t \<in> set (map tc_control_id (control_rows st))) (transition_rows st)"

lemma find_control_iff:
  "distinct (map tc_control_id (control_rows st)) \<Longrightarrow> find_control i st = Some r \<longleftrightarrow> r \<in> set (control_rows st) \<and> tc_control_id r = i"
  unfolding find_control_def by (rule find_key_iff)

lemma find_control_id: "find_control i st = Some r \<Longrightarrow> tc_control_id r = i \<and> r \<in> set (control_rows st)"
  unfolding find_control_def using find_SomeD by fastforce

lemma find_control_None: "find_control i st = None \<longleftrightarrow> i \<notin> tc_control_id ` set (control_rows st)"
  by (auto simp: find_control_def find_None_iff)

lemma fold_max_ordinals:
  assumes "map tt_ordinal ts = map int [0..<length ts]" "ts \<noteq> []"
  shows "(case map tt_ordinal ts of [] \<Rightarrow> - 1 | s # ss \<Rightarrow> fold max ss s) = int (length ts) - 1"
proof -
  obtain s ss where s: "map tt_ordinal ts = s # ss" using assms(2) by (cases ts) auto
  have "fold max ss s = Max (set (map tt_ordinal ts))" unfolding s by (rule Max.set_eq_fold [symmetric])
  also have "\<dots> = Max (int ` {0..<length ts})" unfolding assms(1) by simp
  also have "\<dots> = int (length ts - 1)"
    using assms(2) by (intro Max_eqI) (auto intro!: image_eqI [of _ _ "length ts - 1"])
  finally show ?thesis using assms(2) s by (cases ts) auto
qed

lemma next_ordinal_history:
  "history_of r (control_log i st) \<Longrightarrow> next_ordinal i st = int (length (control_log i st))"
proof -
  assume "history_of r (control_log i st)"
  then have "map tt_ordinal (control_log i st) = map int [0..<length (control_log i st)]" "control_log i st \<noteq> []"
    by (simp_all add: history_of_def)
  from fold_max_ordinals [OF this] show ?thesis by (simp only: next_ordinal_def)
qed

lemma history_append:
  assumes "history_of r ts" "tt_ordinal t = int (length ts)" "tt_status t = TurnControlStatus_as_str s"
    "allowed_transition (tc_status r) s" "tc_status r' = TurnControlStatus_as_str s"
  shows "history_of r' (ts @ [t])"
proof -
  have "follows (last ts) t"
    using assms by (cases s) (simp_all add: history_of_def follows_def)
  with assms show ?thesis
    by (auto simp: history_of_def successively_append_iff)
qed

text \<open>A logged transition of one control along an allowed edge keeps the store's invariant.\<close>

lemma control_log_transition:
  "control_log j (log_transition i s d now p f st) = control_log j st @ (if j = i then
     [\<lparr>tt_control_id = i, tt_ordinal = next_ordinal i st, tt_status = s, tt_detail_json = d, tt_occurred_at = now\<rparr>] else [])"
  by (simp add: control_log_def log_transition_def)

lemma controls_ok_transition:
  assumes "controls_ok st" "find_control i st = Some r" "allowed_transition (tc_status r) s" "p r" "\<And>x. p x \<Longrightarrow> tc_control_id x = i"
    and f: "\<And>x. tc_control_id (f x) = tc_control_id x \<and> tc_conversation_id (f x) = tc_conversation_id x \<and>
        tc_client_request_id (f x) = tc_client_request_id x \<and> tc_status (f x) = TurnControlStatus_as_str s"
  shows "controls_ok (log_transition i (TurnControlStatus_as_str s) d now p f st)" (is "controls_ok ?st'")
proof -
  have d: "distinct (map tc_control_id (control_rows st))" using assms(1) by (simp add: controls_ok_def)
  have rows: "control_rows ?st' = update_where p f (control_rows st)" by (simp add: log_transition_def)
  have ids: "map tc_control_id (control_rows ?st') = map tc_control_id (control_rows st)"
    unfolding rows using f by (intro map_update_where) simp
  have req: "request_ids ?st' = request_ids st"
    unfolding request_ids_def rows using f by (simp add: filter_update_where map_update_where)
  have r: "tc_control_id r = i" "r \<in> set (control_rows st)" using find_control_id [OF assms(2)] by simp_all
  have unique: "x = r" if "x \<in> set (control_rows st)" "tc_control_id x = i" for x
    using d that r by (auto simp: distinct_map inj_on_def)
  have hist: "history_of x (control_log (tc_control_id x) st)" if "x \<in> set (control_rows st)" for x
    using assms(1) that by (simp add: controls_ok_def list_all_iff)
  have each: "history_of (if p x then f x else x) (control_log (tc_control_id (if p x then f x else x)) ?st')"
    if x: "x \<in> set (control_rows st)" for x
  proof (cases "tc_control_id x = i")
    case True
    with unique x have "x = r" by simp
    moreover have "history_of (f r) (control_log i st @ [\<lparr>tt_control_id = i, tt_ordinal = next_ordinal i st,
        tt_status = TurnControlStatus_as_str s, tt_detail_json = d, tt_occurred_at = now\<rparr>])"
      using hist [OF r(2)] assms(3) f r(1) next_ordinal_history by (intro history_append [of r _ _ s]) auto
    ultimately show ?thesis using assms(4) f r(1) by (simp add: control_log_transition)
  next
    case False
    with assms(5) hist [OF x] show ?thesis by (auto simp: control_log_transition)
  qed
  have "list_all (\<lambda>r. history_of r (control_log (tc_control_id r) ?st')) (control_rows ?st')"
    unfolding rows list_all_iff set_update_where ball_simps using each by blast
  moreover have "list_all (\<lambda>t. tt_control_id t \<in> set (map tc_control_id (control_rows ?st'))) (transition_rows ?st')"
    using assms(1) r unfolding ids by (auto simp: controls_ok_def list_all_iff log_transition_def)
  ultimately show ?thesis using assms(1) ids req by (simp add: controls_ok_def)
qed

lemma transition_json_ok:
  assumes "controls_ok st" "transition_json_tx i s a now st = Inr (u, st')"
  shows "controls_ok st'"
proof (cases "find_control i st")
  case None
  with assms show ?thesis by (auto simp: transition_json_tx_def split: if_splits)
next
  case (Some r)
  show ?thesis
  proof (cases "tc_status r = TurnControlStatus_as_str s")
    case True
    with Some assms show ?thesis by (auto simp: transition_json_tx_def split: if_splits)
  next
    case False
    with Some assms(2) have allowed: "allowed_transition (tc_status r) s" by (auto simp: transition_json_tx_def split: if_splits)
    let ?f = "\<lambda>r. r\<lparr>tc_status := TurnControlStatus_as_str s,
        tc_acknowledgement_json := (case a of None \<Rightarrow> tc_acknowledgement_json r | Some v \<Rightarrow> Some v), tc_updated_at := now,
        tc_acknowledged_at := (if TurnControlStatus_as_str s = ''acknowledged'' then Some now else tc_acknowledged_at r)\<rparr>"
    have "st' = log_transition i (TurnControlStatus_as_str s) a now (\<lambda>r. tc_control_id r = i) ?f st"
      using Some False assms(2) by (auto simp: transition_json_tx_def split: if_splits)
    then show ?thesis
      using find_control_id [OF Some] by (simp add: controls_ok_transition [OF assms(1) Some allowed])
  qed
qed

lemma claim_delivery_rows:
  assumes "controls_ok st"
  shows "claim_delivery i now st = (case find_control i st of
     Some r \<Rightarrow> if tc_status r = ''accepted'' then (True, log_transition i ''delivered'' (Some ''{\"dispatch_claimed\":true}'') now
         (\<lambda>r. tc_control_id r = i \<and> tc_status r = ''accepted'') (\<lambda>r. r\<lparr>tc_status := ''delivered'', tc_updated_at := now\<rparr>) st)
       else (False, st)
   | None \<Rightarrow> (False, st))"
proof -
  have "distinct (map tc_control_id (control_rows st))" using assms by (simp add: controls_ok_def)
  from count_where_key [OF this, of i "\<lambda>r. tc_status r = ''accepted''"] show ?thesis
    by (simp add: claim_delivery_def find_control_def split: option.splits)
qed

lemma claim_delivery_ok: "controls_ok st \<Longrightarrow> controls_ok (snd (claim_delivery i now st))"
  using controls_ok_transition [of st i _ Delivered "\<lambda>r. tc_control_id r = i \<and> tc_status r = ''accepted''"
      "\<lambda>r. r\<lparr>tc_status := ''delivered'', tc_updated_at := now\<rparr>"] find_control_id [of i st]
  by (auto simp: claim_delivery_rows allowed_transition_def split: option.splits)

lemma control_log_absent:
  assumes "controls_ok st" "find_control i st = None"
  shows "control_log i st = []"
  using assms by (auto simp: controls_ok_def control_log_def find_control_None list_all_iff filter_empty_conv)

lemma insert_control_ok:
  assumes "controls_ok st" "insert_control r now st = Inr st'" "tc_status r = ''accepted''"
    "tc_client_request_id r = None \<or> (tc_conversation_id r, tc_client_request_id r) \<notin> set (request_ids st)"
  shows "controls_ok st'"
proof -
  let ?t = "\<lparr>tt_control_id = tc_control_id r, tt_ordinal = 0, tt_status = ''accepted'', tt_detail_json = None, tt_occurred_at = now\<rparr>"
  from assms(2) have none: "find_control (tc_control_id r) st = None"
    and st': "st' = \<lparr>control_rows = control_rows st @ [r], transition_rows = transition_rows st @ [?t]\<rparr>"
    by (auto simp: insert_control_def split: if_splits)
  have log: "control_log j st' = control_log j st @ (if j = tc_control_id r then [?t] else [])" for j
    by (simp add: control_log_def st')
  have new: "history_of r (control_log (tc_control_id r) st')"
    using assms(3) by (simp add: log control_log_absent [OF assms(1) none] history_of_def)
  have "history_of x (control_log (tc_control_id x) st')" if "x \<in> set (control_rows st)" for x
  proof -
    have "tc_control_id x \<noteq> tc_control_id r" using none that by (metis find_control_None imageI)
    with assms(1) that show ?thesis by (simp add: log controls_ok_def list_all_iff)
  qed
  then have "list_all (\<lambda>r. history_of r (control_log (tc_control_id r) st')) (control_rows st')"
    using new by (simp add: st' list_all_iff)
  moreover have "distinct (map tc_control_id (control_rows st'))"
    using assms(1) none by (simp add: st' controls_ok_def find_control_None)
  moreover have "distinct (request_ids st')"
    using assms(1,4) by (auto simp: st' controls_ok_def request_ids_def)
  moreover have "list_all (\<lambda>t. tt_control_id t \<in> set (map tc_control_id (control_rows st'))) (transition_rows st')"
    using assms(1) by (auto simp: st' controls_ok_def list_all_iff)
  ultimately show ?thesis by (simp add: controls_ok_def)
qed

lemma accepted_row_simps [simp]:
  "tc_control_id (accepted_row i c t k p now q) = i" "tc_conversation_id (accepted_row i c t k p now q) = c"
  "tc_status (accepted_row i c t k p now q) = ''accepted''" "tc_kind (accepted_row i c t k p now q) = TurnControlKind_as_str k"
  "tc_client_request_id (accepted_row i c t k p now q) = map_option fst q" "tc_payload_json (accepted_row i c t k p now q) = p"
  "tc_request_body_sha256 (accepted_row i c t k p now q) = map_option snd q"
  by (simp_all add: accepted_row_def)

lemma enqueue_idempotent_tx_ok:
  assumes "controls_ok st" "enqueue_control_idempotent_tx uuid c t k p q h now st = Inr (x, st')"
  shows "controls_ok st'"
proof (cases "find (\<lambda>r. tc_conversation_id r = c \<and> tc_client_request_id r = Some q) (control_rows st)")
  case None
  then have "(c, Some q) \<notin> set (request_ids st)" by (auto simp: request_ids_def find_None_iff)
  moreover have "insert_control (accepted_row uuid c t k p now (Some (q, h))) now st = Inr st'"
    using None assms(2) by (auto simp: enqueue_control_idempotent_tx_def split: sum.splits)
  ultimately show ?thesis using insert_control_ok [OF assms(1)] by fastforce
next
  case (Some r)
  with assms show ?thesis by (auto simp: enqueue_control_idempotent_tx_def split: if_splits)
qed

lemma snd_enqueue_idempotent:
  "snd (enqueue_control_idempotent js sha uuid c t k p q now st) = st \<or>
   (\<exists>x. enqueue_control_idempotent_tx uuid c t k (json_to_string js p) q (request_hash sha k (json_to_string js p)) now st =
      Inr (x, snd (enqueue_control_idempotent js sha uuid c t k p q now st)))"
proof (cases "enqueue_control_idempotent_tx uuid c t k (json_to_string js p) q (request_hash sha k (json_to_string js p)) now st")
  case (Inl e)
  then show ?thesis by (simp add: enqueue_control_idempotent_def Let_def)
next
  case (Inr y)
  then show ?thesis by (cases y) (auto simp: enqueue_control_idempotent_def Let_def)
qed

lemma control_step_ok: "controls_ok st \<Longrightarrow> controls_ok (control_step js sha st a)"
proof (cases a)
  case (Enqueue uuid c t k p now)
  assume ok: "controls_ok st"
  show ?thesis
  proof (cases "insert_control (accepted_row uuid c t k (json_to_string js p) now None) now st")
    case (Inl e)
    with ok Enqueue show ?thesis by (simp add: enqueue_control_def Let_def)
  next
    case (Inr st1)
    then have "controls_ok st1" by (rule insert_control_ok [OF ok]) simp_all
    with Inr ok Enqueue show ?thesis by (simp add: enqueue_control_def Let_def)
  qed
next
  case (EnqueueIdempotent uuid c t k p q now)
  assume ok: "controls_ok st"
  with EnqueueIdempotent snd_enqueue_idempotent [of js sha uuid c t k p q now st] enqueue_idempotent_tx_ok [OF ok] show ?thesis
    by auto
next
  case (TransitionTo i s ack now)
  assume ok: "controls_ok st"
  then have "controls_ok (snd (transaction (transition_in_transaction js i s ack now) st))"
    by (rule transaction_invariant) (auto simp: transition_in_transaction_def intro: transition_json_ok [OF ok])
  with TransitionTo show ?thesis by (simp add: transition_def split_beta split: sum.splits)
next
  case (ClaimDelivery i now)
  assume "controls_ok st"
  with ClaimDelivery show ?thesis by (simp add: claim_delivery_ok)
next
  case (ApplyQueuedMessage i c n now)
  assume ok: "controls_ok st"
  then have "controls_ok (snd (transaction (apply_queued_message_in_transaction i c n now) st))"
    by (rule transaction_invariant)
      (auto simp: apply_queued_message_in_transaction_def split: option.splits if_splits intro: transition_json_ok [OF ok])
  with ApplyQueuedMessage show ?thesis by simp
qed

interpretation controls: invariant_machine "control_step js sha" controls_ok for js sha
  by unfold_locales (rule control_step_ok)

text \<open>
  After any sequence of submissions, transitions, delivery claims and queue applications, the log of every control is its complete history: it is numbered
  from 0 without gaps, starts with \<open>accepted\<close>, takes allowed steps only, and ends in the control's status; identifiers and client request
  keys are unique.
\<close>

theorem control_history_complete: "controls_ok (foldl (control_step js sha) \<lparr>control_rows = [], transition_rows = []\<rparr> actions)"
  by (rule controls.run_inv) (simp add: controls_ok_def request_ids_def)

section \<open>The life of one control\<close>

text \<open>What a submission fixes, and how the rest of a row may move.\<close>

definition submission :: "control_row \<Rightarrow> string \<times> string \<times> string option \<times> string \<times> string \<times> int \<times> string option \<times> string option" where
  "submission r = (tc_control_id r, tc_conversation_id r, tc_turn_id r, tc_kind r, tc_payload_json r, tc_created_at r,
     tc_client_request_id r, tc_request_body_sha256 r)"

definition moves_to :: "control_row \<Rightarrow> control_row \<Rightarrow> bool" where
  "moves_to r r' \<longleftrightarrow> submission r' = submission r \<and>
     (tc_status r' = tc_status r \<or> (\<exists>s. allowed_transition (tc_status r) s \<and> tc_status r' = TurnControlStatus_as_str s))"

lemma moves_to_refl [simp]: "moves_to r r"
  by (simp add: moves_to_def)

lemma find_control_insert:
  "insert_control x now st = Inr st' \<Longrightarrow> find_control i st = Some r \<Longrightarrow> find_control i st' = Some r"
  by (auto simp: insert_control_def find_control_def find_append split: if_splits)

lemma find_control_log_transition:
  assumes "\<And>x. p x \<Longrightarrow> tc_control_id (f x) = tc_control_id x"
  shows "find_control j (log_transition i s d now p f st) = map_option (\<lambda>r. if p r then f r else r) (find_control j st)"
  unfolding find_control_def log_transition_def
  using find_update_where_key [of p tc_control_id f j "control_rows st"] assms by simp

lemma transition_json_moves:
  assumes "transition_json_tx i s a now st = Inr (u, st')" "find_control j st = Some r"
  shows "\<exists>r'. find_control j st' = Some r' \<and> moves_to r r'"
proof (cases "st' = st")
  case True
  with assms(2) show ?thesis by auto
next
  case False
  let ?f = "\<lambda>r. r\<lparr>tc_status := TurnControlStatus_as_str s,
      tc_acknowledgement_json := (case a of None \<Rightarrow> tc_acknowledgement_json r | Some v \<Rightarrow> Some v), tc_updated_at := now,
      tc_acknowledged_at := (if TurnControlStatus_as_str s = ''acknowledged'' then Some now else tc_acknowledged_at r)\<rparr>"
  from assms(1) False obtain r0 where r0: "find_control i st = Some r0" "allowed_transition (tc_status r0) s"
    and st': "st' = log_transition i (TurnControlStatus_as_str s) a now (\<lambda>r. tc_control_id r = i) ?f st"
    by (auto simp: transition_json_tx_def split: if_splits option.splits)
  have "find_control j st' = Some (if tc_control_id r = i then ?f r else r)"
    unfolding st' using assms(2) by (subst find_control_log_transition) simp_all
  moreover have "r = r0" if "tc_control_id r = i"
    using that assms(2) r0(1) find_control_id [OF assms(2)] by simp
  ultimately show ?thesis using r0(2) by (auto simp: moves_to_def submission_def)
qed

lemma transaction_moves:
  assumes "find_control j st = Some r" "\<And>x st'. f st = Inr (x, st') \<Longrightarrow> \<exists>r'. find_control j st' = Some r' \<and> moves_to r r'"
  shows "\<exists>r'. find_control j (snd (transaction f st)) = Some r' \<and> moves_to r r'"
  using assms by (cases rule: transaction_cases [of f st]) auto

lemma control_step_moves:
  assumes "controls_ok st" "find_control j st = Some r"
  shows "\<exists>r'. find_control j (control_step js sha st a) = Some r' \<and> moves_to r r'"
proof (cases a)
  case (Enqueue uuid c t k p now)
  show ?thesis
  proof (cases "insert_control (accepted_row uuid c t k (json_to_string js p) now None) now st")
    case (Inl e)
    with assms Enqueue show ?thesis by (simp add: enqueue_control_def Let_def)
  next
    case (Inr st1)
    with find_control_insert [OF Inr assms(2)] assms(2) Enqueue show ?thesis by (simp add: enqueue_control_def Let_def)
  qed
next
  case (EnqueueIdempotent uuid c t k p q now)
  have "find_control j st' = Some r"
    if "enqueue_control_idempotent_tx uuid c t k (json_to_string js p) q (request_hash sha k (json_to_string js p)) now st = Inr (x, st')" for x st'
    using that assms(2) find_control_insert
    by (auto simp: enqueue_control_idempotent_tx_def split: option.splits sum.splits if_splits)
  with EnqueueIdempotent snd_enqueue_idempotent [of js sha uuid c t k p q now st] assms(2) show ?thesis by fastforce
next
  case (TransitionTo i s ack now)
  have "\<exists>r'. find_control j (snd (transaction (transition_in_transaction js i s ack now) st)) = Some r' \<and> moves_to r r'"
    by (rule transaction_moves [OF assms(2)]) (auto simp: transition_in_transaction_def intro: transition_json_moves [OF _ assms(2)])
  with TransitionTo show ?thesis by (simp add: transition_def split_beta split: sum.splits)
next
  case (ClaimDelivery i now)
  have "moves_to r (r\<lparr>tc_status := ''delivered'', tc_updated_at := now\<rparr>)" if "tc_status r = ''accepted''"
    using that by (auto simp: moves_to_def submission_def allowed_transition_def intro!: exI [of _ Delivered])
  with ClaimDelivery assms show ?thesis
    by (auto simp: claim_delivery_rows find_control_log_transition split: option.splits)
next
  case (ApplyQueuedMessage i c n now)
  have "\<exists>r'. find_control j (snd (transaction (apply_queued_message_in_transaction i c n now) st)) = Some r' \<and> moves_to r r'"
    by (rule transaction_moves [OF assms(2)])
      (auto simp: apply_queued_message_in_transaction_def split: option.splits if_splits intro: transition_json_moves [OF _ assms(2)])
  with ApplyQueuedMessage show ?thesis by simp
qed

lemma control_run_submission:
  assumes "controls_ok st" "find_control j st = Some r"
  shows "\<exists>r'. find_control j (foldl (control_step js sha) st actions) = Some r' \<and> submission r' = submission r"
  using assms
proof (induction actions arbitrary: st r)
  case (Cons a as)
  obtain r1 where "find_control j (control_step js sha st a) = Some r1" "moves_to r r1"
    using control_step_moves [OF Cons.prems] by blast
  with Cons.IH [OF control_step_ok [OF Cons.prems(1)]] show ?case by (force simp: moves_to_def)
qed simp

section \<open>One dispatch attempt\<close>

fun claims :: "string \<Rightarrow> controls \<Rightarrow> 'j control_action \<Rightarrow> bool" where
  "claims i st (ClaimDelivery j now) \<longleftrightarrow> j = i \<and> fst (claim_delivery j now st)"
| "claims i st _ \<longleftrightarrow> False"

definition past_accepted :: "string \<Rightarrow> controls \<Rightarrow> bool" where
  "past_accepted i st \<longleftrightarrow> (case find_control i st of None \<Rightarrow> False | Some r \<Rightarrow> tc_status r \<noteq> ''accepted'')"

lemma past_accepted_step:
  assumes "controls_ok st" "past_accepted i st"
  shows "past_accepted i (control_step js sha st a)"
proof -
  obtain r where r: "find_control i st = Some r" "tc_status r \<noteq> ''accepted''"
    using assms(2) by (auto simp: past_accepted_def split: option.splits)
  obtain r' where "find_control i (control_step js sha st a) = Some r'" "moves_to r r'"
    using control_step_moves [OF assms(1) r(1)] by blast
  then show ?thesis using r(2) by (auto simp: past_accepted_def moves_to_def allowed_transition_def)
qed

lemma claims_step:
  assumes "controls_ok st" "claims i st a"
  shows "\<not> past_accepted i st \<and> past_accepted i (control_step js sha st a)"
proof -
  from assms(2) obtain now where a: "a = ClaimDelivery i now" and c: "fst (claim_delivery i now st)" by (cases a) auto
  from c obtain r where r: "find_control i st = Some r" "tc_status r = ''accepted''"
    by (auto simp: claim_delivery_rows [OF assms(1)] split: option.splits if_splits)
  with a find_control_id [OF r(1)] show ?thesis
    by (simp add: past_accepted_def claim_delivery_rows [OF assms(1)] find_control_log_transition)
qed

text \<open>
  C28: However callers interleave, the delivery of a control is claimed at most once, and never after the control has left \<open>accepted\<close> in any
  other way.
\<close>

theorem delivery_claimed_at_most_once:
  assumes "controls_ok st"
  shows "count_steps (claims i) (control_step js sha) st actions \<le> (if past_accepted i st then 0 else 1)"
  using assms
proof (induction actions arbitrary: st)
  case (Cons a as)
  let ?st' = "control_step js sha st a"
  have IH: "count_steps (claims i) (control_step js sha) ?st' as \<le> (if past_accepted i ?st' then 0 else 1)"
    by (rule Cons.IH [OF control_step_ok [OF Cons.prems]])
  show ?case
    using IH claims_step [OF Cons.prems, of i a js sha] past_accepted_step [OF Cons.prems, of i js sha a]
    by (auto simp: of_bool_def split: if_splits)
qed simp

section \<open>Idempotent submission\<close>

lemma request_row_unique:
  assumes "controls_ok st" "r \<in> set (control_rows st)" "tc_conversation_id r = c" "tc_client_request_id r = Some q"
  shows "find (\<lambda>r. tc_conversation_id r = c \<and> tc_client_request_id r = Some q) (control_rows st) = Some r"
proof -
  let ?rows = "filter (\<lambda>r. tc_client_request_id r \<noteq> None) (control_rows st)"
  let ?k = "\<lambda>r. (tc_conversation_id r, tc_client_request_id r)"
  have d: "distinct (map ?k ?rows)" using assms(1) by (simp add: controls_ok_def request_ids_def)
  obtain x where x: "find (\<lambda>r. tc_conversation_id r = c \<and> tc_client_request_id r = Some q) (control_rows st) = Some x"
    using assms(2-4) by (cases "find (\<lambda>r. tc_conversation_id r = c \<and> tc_client_request_id r = Some q) (control_rows st)")
      (auto simp: find_None_iff)
  then have "x \<in> set ?rows" "?k x = ?k r" using find_SomeD [OF x] assms(3,4) by auto
  moreover have "r \<in> set ?rows" using assms(2,4) by simp
  ultimately have "x = r" using d by (auto simp: distinct_map inj_on_def)
  with x show ?thesis by simp
qed

lemma enqueue_idempotent_tx_stores:
  assumes "controls_ok st" "enqueue_control_idempotent_tx uuid c t k p q h now st = Inr ((i, b), st1)"
  obtains r where "find_control i st1 = Some r" "tc_conversation_id r = c" "tc_client_request_id r = Some q"
    "tc_request_body_sha256 r = Some h"
proof (cases "find (\<lambda>r. tc_conversation_id r = c \<and> tc_client_request_id r = Some q) (control_rows st)")
  case None
  with assms(2) have "i = uuid" and ins: "insert_control (accepted_row uuid c t k p now (Some (q, h))) now st = Inr st1"
    by (auto simp: enqueue_control_idempotent_tx_def split: sum.splits)
  moreover from ins have "find_control uuid st1 = Some (accepted_row uuid c t k p now (Some (q, h)))"
    by (auto simp: insert_control_def find_control_def find_append split: if_splits option.splits)
  ultimately show ?thesis using that by simp
next
  case (Some r)
  with assms(2) have r: "i = tc_control_id r" "st1 = st" "tc_request_body_sha256 r = Some h"
    by (auto simp: enqueue_control_idempotent_tx_def split: if_splits)
  have "find_control i st1 = Some r"
    using assms(1) find_SomeD [OF Some] r by (simp add: find_control_iff controls_ok_def)
  then show ?thesis using that r(3) find_SomeD [OF Some] by simp
qed

lemma history_status: "history_of r ts \<Longrightarrow> parse_status (tc_status r) \<noteq> None"
proof -
  assume h: "history_of r ts"
  obtain us t where ts: "ts = us @ [t]" using h by (cases ts rule: rev_cases) (simp_all add: history_of_def)
  show ?thesis
  proof (cases us rule: rev_cases)
    case Nil
    with h ts have "tc_status r = ''accepted''" by (auto simp: history_of_def)
    then show ?thesis by (simp add: parse_status_def)
  next
    case (snoc vs u)
    with h ts have "follows u t" "tc_status r = tt_status t" by (simp_all add: history_of_def successively_append_iff)
    then show ?thesis by (auto simp: follows_def parse_status_def)
  qed
qed

text \<open>What a reader sees of a row depends on the submission, which never changes, and on the progress.\<close>

lemma map_record_moved:
  assumes "map_record js r = Inr x" "submission r' = submission r" "parse_status (tc_status r') \<noteq> None"
  obtains y where "map_record js r' = Inr y" "tr_control_id y = tr_control_id x" "tr_conversation_id y = tr_conversation_id x"
    "tr_turn_id y = tr_turn_id x" "tr_kind y = tr_kind x" "tr_payload y = tr_payload x" "tr_created_at y = tr_created_at x"
  using assms by (auto simp: map_record_def submission_def split: option.splits)

lemma saved_control_Inr:
  "saved_control js i m st = Inr x \<longleftrightarrow> (\<exists>r. find_control i st = Some r \<and> map_record js r = Inr x)"
  by (auto simp: saved_control_def get_control_def split: option.splits sum.splits)

lemma enqueue_idempotent_Inr:
  assumes "enqueue_control_idempotent js sha uuid c t k p q now st = (Inr (x, b), st1)"
  obtains i where "enqueue_control_idempotent_tx uuid c t k (json_to_string js p) q (request_hash sha k (json_to_string js p)) now st = Inr ((i, b), st1)"
    "saved_control js i ''control disappeared after insertion'' st1 = Inr x"
    "c \<noteq> []" "length c \<le> 128" "int (length (json_to_string js p)) \<le> 64 * 1024" "q \<noteq> []" "length q \<le> 128"
    "list_all (\<lambda>b. 0x21 \<le> (of_char b :: nat) \<and> (of_char b :: nat) \<le> 0x7E) q"
proof (cases "enqueue_control_idempotent_tx uuid c t k (json_to_string js p) q (request_hash sha k (json_to_string js p)) now st")
  case (Inl e)
  with assms show ?thesis by (auto simp: enqueue_control_idempotent_def Let_def split: if_splits)
next
  case (Inr y)
  obtain i b' st' where y: "y = ((i, b'), st')" by (metis prod.collapse)
  from assms Inr y have "b' = b" "st' = st1" "saved_control js i ''control disappeared after insertion'' st1 = Inr x"
    "c \<noteq> []" "length c \<le> 128" "int (length (json_to_string js p)) \<le> 64 * 1024" "q \<noteq> []" "length q \<le> 128"
    "list_all (\<lambda>b. 0x21 \<le> (of_char b :: nat) \<and> (of_char b :: nat) \<le> 0x7E) q"
    by (auto simp: enqueue_control_idempotent_def Let_def split: if_splits sum.splits)
  with Inr y that show ?thesis by blast
qed

lemma enqueue_idempotent_valid:
  assumes "c \<noteq> []" "length c \<le> 128" "int (length (json_to_string js p)) \<le> 64 * 1024" "q \<noteq> []" "length q \<le> 128"
    "list_all (\<lambda>b. 0x21 \<le> (of_char b :: nat) \<and> (of_char b :: nat) \<le> 0x7E) q" "\<not> invalid_turn_id t"
    "find (\<lambda>r. tc_conversation_id r = c \<and> tc_client_request_id r = Some q) (control_rows st) = Some r" "tc_request_body_sha256 r = Some h"
  shows "enqueue_control_idempotent js sha uuid c t k p q now st =
     (if request_hash sha k (json_to_string js p) = h
      then (case saved_control js (tc_control_id r) ''control disappeared after insertion'' st of Inl e \<Rightarrow> Inl e | Inr x \<Rightarrow> Inr (x, False))
      else Inl IdempotencyConflict, st)"
  using assms by (simp add: enqueue_control_idempotent_def Let_def enqueue_control_idempotent_tx_def)

text \<open>
  A retry of a submission, with the same conversation, client key, kind and payload, after any further operations, returns the control that
  the first call created, in its current state, as not new; a submission of another kind or payload under the same key, whose hash differs, is a
  conflict. Neither changes the store. The turn identifier is not part of the intent: the retry may name another turn.
\<close>

theorem control_submission_idempotent:
  assumes "controls_ok st" "enqueue_control_idempotent js sha uuid c t k p q now st = (Inr (x, b), st1)" "\<not> invalid_turn_id t2"
    "int (length (json_to_string js p2)) \<le> 64 * 1024"
  shows "let st2 = foldl (control_step js sha) st1 actions in
    if request_hash sha k2 (json_to_string js p2) = request_hash sha k (json_to_string js p)
    then \<exists>y. enqueue_control_idempotent js sha uuid2 c t2 k2 p2 q now2 st2 = (Inr (y, False), st2) \<and>
      tr_control_id y = tr_control_id x \<and> tr_turn_id y = tr_turn_id x \<and> tr_kind y = tr_kind x \<and> tr_payload y = tr_payload x
    else enqueue_control_idempotent js sha uuid2 c t2 k2 p2 q now2 st2 = (Inl IdempotencyConflict, st2)"
proof -
  let ?st2 = "foldl (control_step js sha) st1 actions" and ?h = "request_hash sha k (json_to_string js p)"
  obtain i where tx: "enqueue_control_idempotent_tx uuid c t k (json_to_string js p) q ?h now st = Inr ((i, b), st1)"
    and saved: "saved_control js i ''control disappeared after insertion'' st1 = Inr x"
    and valid: "c \<noteq> []" "length c \<le> 128" "int (length (json_to_string js p)) \<le> 64 * 1024" "q \<noteq> []" "length q \<le> 128"
      "list_all (\<lambda>b. 0x21 \<le> (of_char b :: nat) \<and> (of_char b :: nat) \<le> 0x7E) q"
    by (rule enqueue_idempotent_Inr [OF assms(2)])
  have ok1: "controls_ok st1" by (rule enqueue_idempotent_tx_ok [OF assms(1) tx])
  obtain r where r: "find_control i st1 = Some r" "tc_conversation_id r = c" "tc_client_request_id r = Some q"
    "tc_request_body_sha256 r = Some ?h"
    by (rule enqueue_idempotent_tx_stores [OF assms(1) tx])
  from saved r(1) have x: "map_record js r = Inr x" by (simp add: saved_control_Inr)
  obtain r2 where r2: "find_control i ?st2 = Some r2" "submission r2 = submission r"
    using control_run_submission [OF ok1 r(1)] by blast
  have ok2: "controls_ok ?st2" by (rule controls.run_inv [OF ok1])
  have in2: "r2 \<in> set (control_rows ?st2)" "tc_control_id r2 = i" using find_control_id [OF r2(1)] by simp_all
  have sub: "tc_conversation_id r2 = c" "tc_client_request_id r2 = Some q" "tc_request_body_sha256 r2 = Some ?h"
    using r2(2) r(2-4) by (simp_all add: submission_def)
  have found: "find (\<lambda>r. tc_conversation_id r = c \<and> tc_client_request_id r = Some q) (control_rows ?st2) = Some r2"
    by (rule request_row_unique [OF ok2 in2(1) sub(1,2)])
  have "parse_status (tc_status r2) \<noteq> None"
    using ok2 in2 by (intro history_status) (auto simp: controls_ok_def list_all_iff)
  then obtain y where y: "map_record js r2 = Inr y" "tr_control_id y = tr_control_id x" "tr_turn_id y = tr_turn_id x"
    "tr_kind y = tr_kind x" "tr_payload y = tr_payload x"
    by (rule map_record_moved [OF x r2(2)])
  have "saved_control js i ''control disappeared after insertion'' ?st2 = Inr y"
    using r2(1) y(1) by (simp add: saved_control_Inr)
  with y enqueue_idempotent_valid [OF valid(1,2) assms(4) valid(4-6) assms(3) found sub(3), of sha uuid2 k2 now2] in2(2) show ?thesis
    by (simp add: Let_def)
qed

text \<open>A submission, its delivery, a retry and a conflicting submission.\<close>

definition control_json :: "string json" where
  "control_json = \<lparr>json_from_str = Some, json_null = ''null'', json_to_string = (\<lambda>v. v), json_array_to_string = concat\<rparr>"

definition no_controls :: controls where
  "no_controls = \<lparr>control_rows = [], transition_rows = []\<rparr>"

definition first_submission :: "(TurnControlError + string TurnControlRecord \<times> bool) \<times> controls" where
  "first_submission = enqueue_control_idempotent control_json (\<lambda>v. v) ''u1'' ''c'' None Steer ''{}'' ''key'' 5 no_controls"

lemma no_controls_ok: "controls_ok no_controls"
  by (simp add: no_controls_def controls_ok_def request_ids_def)

theorem control_submission_idempotent_witness:
  "\<exists>y. enqueue_control_idempotent control_json (\<lambda>v. v) ''u2'' ''c'' (Some ''turn-9'') Steer ''{}'' ''key'' 9
       (foldl (control_step control_json (\<lambda>v. v)) (snd first_submission) [ClaimDelivery ''u1'' 6]) =
     (Inr (y, False), foldl (control_step control_json (\<lambda>v. v)) (snd first_submission) [ClaimDelivery ''u1'' 6]) \<and>
     tr_control_id y = ''u1'' \<and> tr_turn_id y = None"
proof -
  let ?x = "fst (projr (fst first_submission))"
  have first: "enqueue_control_idempotent control_json (\<lambda>v. v) ''u1'' ''c'' None Steer ''{}'' ''key'' 5 no_controls = (Inr (?x, True), snd first_submission)"
    by code_simp
  have x: "tr_control_id ?x = ''u1''" "tr_turn_id ?x = None" by code_simp+
  have "\<not> invalid_turn_id (Some ''turn-9'')" by (simp add: invalid_turn_id_def)
  from control_submission_idempotent [OF no_controls_ok first this, of "''{}''" "[ClaimDelivery ''u1'' 6]" Steer "''u2''" 9] x
  show ?thesis by (auto simp: Let_def control_json_def)
qed

theorem delivery_claimed_at_most_once_witness:
  "count_steps (claims ''u1'') (control_step control_json (\<lambda>v. v)) (snd first_submission)
     [ClaimDelivery ''u1'' 6, ClaimDelivery ''u1'' 7, TransitionTo ''u1'' Applied None 8, ClaimDelivery ''u1'' 9] = 1"
proof -
  let ?as = "[ClaimDelivery ''u1'' 6, ClaimDelivery ''u1'' 7, TransitionTo ''u1'' Applied None 8, ClaimDelivery ''u1'' 9]"
  have ok: "controls_ok (snd first_submission)"
    using control_step_ok [OF no_controls_ok, of control_json "\<lambda>v. v" "EnqueueIdempotent ''u1'' ''c'' None Steer ''{}'' ''key'' 5"]
    by (simp add: first_submission_def)
  have "\<not> past_accepted ''u1'' (snd first_submission)"
    "1 \<le> count_steps (claims ''u1'') (control_step control_json (\<lambda>v. v)) (snd first_submission) ?as" by code_simp+
  with delivery_claimed_at_most_once [OF ok, of "''u1''" control_json "\<lambda>v. v" ?as] show ?thesis by simp
qed

end
