(* ===== verification/Automation_Bus.thy ===== *)
theory Automation_Bus
  imports Db
begin

text \<open>
  The durable inbox of external signals (\<open>crates/core/src/automation_bus.rs\<close>, \<open>bus_event_retention.rs\<close>): publication with
  deduplication, dispatch leases with owner fencing, bounded retries with a dead-letter state, and the retention sweep.
  The table \<open>state_bus_events\<close> is the state. The JSON library is a parameter.
\<close>

section \<open>State\<close>

datatype BusEventKind = WebhookReceived | SocketMessage | PluginEmit | RoutineFired | BusOther

fun BusEventKind_as_str :: "BusEventKind \<Rightarrow> string" where
  "BusEventKind_as_str WebhookReceived = ''webhook.received''"
| "BusEventKind_as_str SocketMessage = ''socket.message''"
| "BusEventKind_as_str PluginEmit = ''plugin.emit''"
| "BusEventKind_as_str RoutineFired = ''routine.fired''"
| "BusEventKind_as_str BusOther = ''other''"

definition BusEventKind_parse :: "string \<Rightarrow> BusEventKind" where
  "BusEventKind_parse s =
     (if s = ''webhook.received'' then WebhookReceived
      else if s = ''socket.message'' then SocketMessage
      else if s = ''plugin.emit'' then PluginEmit
      else if s = ''routine.fired'' then RoutineFired
      else BusOther)"

record 'j bus_event =
  ev_id :: string
  ev_kind :: BusEventKind
  ev_source :: string
  ev_received_at :: int
  ev_payload :: 'j

record bus_row =
  be_id :: string
  be_kind :: string
  be_source :: string
  be_received_at :: int
  be_payload :: string
  be_internal :: bool
  be_dispatched_at :: "int option"
  be_completed_at :: "int option"
  be_lease_owner :: "string option"
  be_lease_expires_at :: "int option"
  be_attempts :: int
  be_error :: "string option"
  be_dead_lettered_at :: "int option"

record 'j BusEventRow =
  bv_id :: string
  bv_kind :: BusEventKind
  bv_source :: string
  bv_received_at :: int
  bv_payload :: 'j
  bv_internal :: bool
  bv_dispatched_at :: "int option"
  bv_completed_at :: "int option"
  bv_dispatch_lease_owner :: "string option"
  bv_dispatch_lease_expires_at :: "int option"

record DeadLetterBusEvent =
  dl_id :: string
  dl_kind :: BusEventKind
  dl_source :: string
  dl_received_at :: int
  dl_attempts :: int
  dl_last_error :: "string option"

datatype DispatchFailureResult = RetryScheduled int | DeadLettered int

datatype PublishOutcome = Inserted | Duplicate

text \<open>The errors that the operations raise; SQLite's own and those of the JSON encoder do not occur.\<close>

datatype BusEventError = BusDb DbError

type_synonym bus = "bus_row list"

section \<open>Operations\<close>

definition publish :: "'j json \<Rightarrow> 'j bus_event \<Rightarrow> bool \<Rightarrow> bus \<Rightarrow> PublishOutcome \<times> bus" where
  "publish js evt internal rows =
     (if find (\<lambda>r. be_id r = ev_id evt) rows = None
      then (Inserted, rows @ [\<lparr>be_id = ev_id evt, be_kind = BusEventKind_as_str (ev_kind evt), be_source = ev_source evt,
             be_received_at = ev_received_at evt, be_payload = json_to_string js (ev_payload evt), be_internal = internal,
             be_dispatched_at = None, be_completed_at = None, be_lease_owner = None, be_lease_expires_at = None,
             be_attempts = 0, be_error = None, be_dead_lettered_at = None\<rparr>])
      else (Duplicate, rows))"

definition unmarked :: "string \<Rightarrow> bus_row \<Rightarrow> bool" where
  "unmarked i r \<longleftrightarrow> be_id r = i \<and> be_dispatched_at r = None \<and> be_dead_lettered_at r = None"

definition mark_dispatched :: "string \<Rightarrow> int \<Rightarrow> bus \<Rightarrow> bool \<times> bus" where
  "mark_dispatched i dispatched_at rows = (0 < count_where (unmarked i) rows,
     update_where (unmarked i) (\<lambda>r. r\<lparr>be_dispatched_at := Some dispatched_at, be_completed_at := Some dispatched_at\<rparr>) rows)"

text \<open>An event that is neither completed nor dead-lettered, and whether its lease or its backoff has run out.\<close>

definition unfinished :: "bus_row \<Rightarrow> bool" where
  "unfinished r \<longleftrightarrow> be_completed_at r = None \<and> be_dead_lettered_at r = None"

definition lease_free :: "int \<Rightarrow> bus_row \<Rightarrow> bool" where
  "lease_free now r \<longleftrightarrow> (case be_lease_expires_at r of None \<Rightarrow> True | Some t \<Rightarrow> t \<le> now)"

definition bus_claimable :: "string \<Rightarrow> int \<Rightarrow> bus_row \<Rightarrow> bool" where
  "bus_claimable i now r \<longleftrightarrow> be_id r = i \<and> unfinished r \<and> lease_free now r"

definition claim_dispatch :: "string \<Rightarrow> string \<Rightarrow> int \<Rightarrow> int \<Rightarrow> bus \<Rightarrow> bool \<times> bus" where
  "claim_dispatch i owner now lease_seconds rows = (count_where (bus_claimable i now) rows = 1,
     update_where (bus_claimable i now)
       (\<lambda>r. r\<lparr>be_dispatched_at := (case be_dispatched_at r of None \<Rightarrow> Some now | Some t \<Rightarrow> Some t),
              be_lease_owner := Some owner,
              be_lease_expires_at := Some (saturating_add_i64 now (max lease_seconds 1))\<rparr>) rows)"

definition leased_to :: "string \<Rightarrow> string \<Rightarrow> bus_row \<Rightarrow> bool" where
  "leased_to i owner r \<longleftrightarrow> be_id r = i \<and> be_lease_owner r = Some owner \<and> unfinished r"

definition complete_dispatch :: "string \<Rightarrow> string \<Rightarrow> int \<Rightarrow> bus \<Rightarrow> bool \<times> bus" where
  "complete_dispatch i owner completed_at rows = (count_where (leased_to i owner) rows = 1,
     update_where (leased_to i owner)
       (\<lambda>r. r\<lparr>be_completed_at := Some completed_at, be_lease_owner := None, be_lease_expires_at := None\<rparr>) rows)"

definition release_dispatch :: "string \<Rightarrow> string \<Rightarrow> bus \<Rightarrow> bool \<times> bus" where
  "release_dispatch i owner rows =
     (let p = (\<lambda>r. be_id r = i \<and> be_lease_owner r = Some owner \<and> be_completed_at r = None) in
      (count_where p rows = 1,
       update_where p (\<lambda>r. r\<lparr>be_lease_owner := None, be_lease_expires_at := None\<rparr>) rows))"

definition retry_at :: "int \<Rightarrow> int \<Rightarrow> int \<Rightarrow> int" where
  "retry_at attempt backoff_base_secs now =
     (let backoff_shift = nat (max 0 (min 10 (saturating_sub_i64 attempt 1))) in
      saturating_add_i64 now (min (saturating_mul_i64 (max backoff_base_secs 1) (2 ^ backoff_shift)) 300))"

definition fail_dispatch_tx :: "string \<Rightarrow> string \<Rightarrow> string \<Rightarrow> nat \<Rightarrow> int \<Rightarrow> int \<Rightarrow> bus
   \<Rightarrow> DbError + DispatchFailureResult \<times> bus" where
  "fail_dispatch_tx i owner err max_attempts backoff_base_secs now rows =
     (case find (leased_to i owner) rows of
        None \<Rightarrow> Inl (Sqlite QueryReturnedNoRows)
      | Some r \<Rightarrow>
          let attempt = saturating_add_i64 (be_attempts r) 1;
              detail = concat (take 1024 (utf8_chars err)) in
          if int max_attempts \<le> attempt
          then Inr (DeadLettered attempt, update_where (leased_to i owner)
                 (\<lambda>r. r\<lparr>be_attempts := attempt, be_error := Some detail, be_dead_lettered_at := Some now,
                        be_lease_owner := None, be_lease_expires_at := None\<rparr>) rows)
          else Inr (RetryScheduled attempt, update_where (leased_to i owner)
                 (\<lambda>r. r\<lparr>be_attempts := attempt, be_error := Some detail, be_lease_owner := None,
                        be_lease_expires_at := Some (retry_at attempt backoff_base_secs now)\<rparr>) rows))"

definition fail_dispatch :: "string \<Rightarrow> string \<Rightarrow> string \<Rightarrow> nat \<Rightarrow> int \<Rightarrow> int \<Rightarrow> bus
   \<Rightarrow> (BusEventError + DispatchFailureResult) \<times> bus" where
  "fail_dispatch i owner err max_attempts backoff_base_secs now rows =
     (if max_attempts = 0 then (Inl (BusDb (Invariant ''dispatch retry budget must be positive'')), rows)
      else (case transaction (fail_dispatch_tx i owner err max_attempts backoff_base_secs now) rows of
          (Inl e, rows') \<Rightarrow> (Inl (BusDb e), rows')
        | (Inr x, rows') \<Rightarrow> (Inr x, rows')))"

definition bus_dead_letters :: "nat \<Rightarrow> bus \<Rightarrow> DeadLetterBusEvent list" where
  "bus_dead_letters limit rows =
     map (\<lambda>r. \<lparr>dl_id = be_id r, dl_kind = BusEventKind_parse (be_kind r), dl_source = be_source r,
                dl_received_at = be_received_at r, dl_attempts = be_attempts r, dl_last_error = be_error r\<rparr>)
       (take (max 1 (min limit 200))
         (sort_key (\<lambda>r. the (be_dead_lettered_at r)) (sort_key be_id (filter (\<lambda>r. be_dead_lettered_at r \<noteq> None) rows))))"

definition bus_view :: "'j json \<Rightarrow> bus_row \<Rightarrow> 'j BusEventRow" where
  "bus_view js r = \<lparr>bv_id = be_id r, bv_kind = BusEventKind_parse (be_kind r), bv_source = be_source r,
     bv_received_at = be_received_at r,
     bv_payload = (case json_from_str js (be_payload r) of Some v \<Rightarrow> v | None \<Rightarrow> json_null js),
     bv_internal = be_internal r, bv_dispatched_at = be_dispatched_at r, bv_completed_at = be_completed_at r,
     bv_dispatch_lease_owner = be_lease_owner r, bv_dispatch_lease_expires_at = be_lease_expires_at r\<rparr>"

definition get_bus_event :: "'j json \<Rightarrow> string \<Rightarrow> bus \<Rightarrow> 'j BusEventRow option" where
  "get_bus_event js i rows = map_option (bus_view js) (find (\<lambda>r. be_id r = i) rows)"

definition list_recent_for_kind :: "'j json \<Rightarrow> BusEventKind \<Rightarrow> int \<Rightarrow> bus \<Rightarrow> 'j BusEventRow list" where
  "list_recent_for_kind js kind limit rows = map (bus_view js) (sql_limit limit
     (sort_key (\<lambda>r. - be_received_at r) (filter (\<lambda>r. be_kind r = BusEventKind_as_str kind) rows)))"

definition fetch_pending :: "bool \<Rightarrow> int \<Rightarrow> int \<Rightarrow> bus \<Rightarrow> string list" where
  "fetch_pending internal_only limit now rows = map be_id (sql_limit limit
     (sort_key be_received_at (filter (\<lambda>r. unfinished r \<and> (internal_only \<longrightarrow> be_internal r) \<and> lease_free now r) rows)))"

definition purge_dispatched_older_than :: "int \<Rightarrow> bus \<Rightarrow> nat \<times> bus" where
  "purge_dispatched_older_than cutoff_unix rows =
     (let p = (\<lambda>r. be_completed_at r \<noteq> None \<and> be_received_at r < cutoff_unix) in
      (count_where p rows, filter (Not \<circ> p) rows))"

definition bus_sweep_once :: "int \<Rightarrow> int \<Rightarrow> bus \<Rightarrow> nat \<times> bus" where
  "bus_sweep_once now_unix retention_secs rows =
     purge_dispatched_older_than (max (saturating_sub_i64 now_unix retention_secs) 0) rows"

end
