(* ===== verification/Automation_Bus_Properties.thy ===== *)
theory Automation_Bus_Properties
  imports Automation_Bus
begin

text \<open>
  What the bus promises: each event's row evolves on its own (a refinement of the table operations to one event), a lease is exclusive
  and fences stale workers, an accepted event is completed at most once, the recovery scan lists exactly the events that can
  be claimed, and failures are bounded.
\<close>

section \<open>One event at a time\<close>

datatype 'j bus_action =
    Publish "'j bus_event" bool
  | MarkDispatched string int
  | ClaimDispatch string string int int
  | CompleteDispatch string string int
  | ReleaseDispatch string string
  | FailDispatch string string string nat int int
  | BusSweep int int

fun bus_step :: "'j json \<Rightarrow> bus \<Rightarrow> 'j bus_action \<Rightarrow> bus" where
  "bus_step js rows (Publish evt internal) = snd (publish js evt internal rows)"
| "bus_step js rows (MarkDispatched i t) = snd (mark_dispatched i t rows)"
| "bus_step js rows (ClaimDispatch i owner now secs) = snd (claim_dispatch i owner now secs rows)"
| "bus_step js rows (CompleteDispatch i owner t) = snd (complete_dispatch i owner t rows)"
| "bus_step js rows (ReleaseDispatch i owner) = snd (release_dispatch i owner rows)"
| "bus_step js rows (FailDispatch i owner err m base now) = snd (fail_dispatch i owner err m base now rows)"
| "bus_step js rows (BusSweep now secs) = snd (bus_sweep_once now secs rows)"

definition bus_row_ok :: "bus_row \<Rightarrow> bool" where
  "bus_row_ok r \<longleftrightarrow> (be_completed_at r = None \<or> be_dispatched_at r \<noteq> None \<and> be_dead_lettered_at r = None) \<and>
     (be_lease_owner r = None \<or> be_dispatched_at r \<noteq> None \<and> be_lease_expires_at r \<noteq> None \<and> unfinished r)"

definition bus_ok :: "bus \<Rightarrow> bool" where
  "bus_ok rows \<longleftrightarrow> distinct (map be_id rows) \<and> list_all bus_row_ok rows"

definition lookup_event :: "string \<Rightarrow> bus \<Rightarrow> bus_row option" where
  "lookup_event i rows = find (\<lambda>r. be_id r = i) rows"

definition failed_row :: "string \<Rightarrow> nat \<Rightarrow> int \<Rightarrow> int \<Rightarrow> bus_row \<Rightarrow> bus_row" where
  "failed_row err m base now r =
     (let attempt = saturating_add_i64 (be_attempts r) 1; detail = concat (take 1024 (utf8_chars err)) in
      if int m \<le> attempt
      then r\<lparr>be_attempts := attempt, be_error := Some detail, be_dead_lettered_at := Some now,
             be_lease_owner := None, be_lease_expires_at := None\<rparr>
      else r\<lparr>be_attempts := attempt, be_error := Some detail, be_lease_owner := None,
             be_lease_expires_at := Some (retry_at attempt base now)\<rparr>)"

text \<open>What an action does to the row of one event; \<open>None\<close> when it deletes the row.\<close>

fun event_step :: "'j bus_action \<Rightarrow> bus_row \<Rightarrow> bus_row option" where
  "event_step (Publish evt internal) r = Some r"
| "event_step (MarkDispatched i t) r = Some (if unmarked i r
     then r\<lparr>be_dispatched_at := Some t, be_completed_at := Some t\<rparr> else r)"
| "event_step (ClaimDispatch i owner now secs) r = Some (if bus_claimable i now r
     then r\<lparr>be_dispatched_at := (case be_dispatched_at r of None \<Rightarrow> Some now | Some t \<Rightarrow> Some t),
            be_lease_owner := Some owner, be_lease_expires_at := Some (saturating_add_i64 now (max secs 1))\<rparr> else r)"
| "event_step (CompleteDispatch i owner t) r = Some (if leased_to i owner r
     then r\<lparr>be_completed_at := Some t, be_lease_owner := None, be_lease_expires_at := None\<rparr> else r)"
| "event_step (ReleaseDispatch i owner) r = Some (if be_id r = i \<and> be_lease_owner r = Some owner \<and> be_completed_at r = None
     then r\<lparr>be_lease_owner := None, be_lease_expires_at := None\<rparr> else r)"
| "event_step (FailDispatch i owner err m base now) r = Some (if m \<noteq> 0 \<and> leased_to i owner r then failed_row err m base now r else r)"
| "event_step (BusSweep now secs) r = (if be_completed_at r \<noteq> None \<and> be_received_at r < max (saturating_sub_i64 now secs) 0
     then None else Some r)"

lemma lookup_update:
  "(\<And>r. p r \<Longrightarrow> be_id (f r) = be_id r) \<Longrightarrow>
   lookup_event i (update_where p f rows) = map_option (\<lambda>r. if p r then f r else r) (lookup_event i rows)"
  unfolding lookup_event_def by (rule find_update_where_key)

lemma lookup_id: "lookup_event i rows = Some r \<Longrightarrow> be_id r = i \<and> r \<in> set rows"
  unfolding lookup_event_def using find_SomeD by fastforce

lemma lookup_iff: "bus_ok rows \<Longrightarrow> lookup_event i rows = Some r \<longleftrightarrow> r \<in> set rows \<and> be_id r = i"
  unfolding lookup_event_def bus_ok_def by (intro find_key_iff) simp

lemma lookup_ok: "bus_ok rows \<Longrightarrow> lookup_event i rows = Some r \<Longrightarrow> bus_row_ok r"
  using lookup_id by (fastforce simp: bus_ok_def list_all_iff)

lemma count_event:
  assumes "bus_ok rows" "\<And>r. p r \<Longrightarrow> be_id r = i"
  shows "count_where p rows = (case lookup_event i rows of None \<Rightarrow> 0 | Some r \<Rightarrow> if p r then 1 else 0)"
proof -
  have "p = (\<lambda>r. be_id r = i \<and> p r)" using assms(2) by (auto simp: fun_eq_iff)
  then have "count_where p rows = count_where (\<lambda>r. be_id r = i \<and> p r) rows" by simp
  also have "\<dots> = (case lookup_event i rows of None \<Rightarrow> 0 | Some r \<Rightarrow> if p r then 1 else 0)"
    using assms(1) unfolding lookup_event_def bus_ok_def by (intro count_where_key) simp
  finally show ?thesis .
qed

lemma failed_row_id [simp]: "be_id (failed_row err m base now r) = be_id r"
  by (simp add: failed_row_def Let_def)

lemma fail_dispatch_rows:
  assumes "bus_ok rows"
  shows "snd (fail_dispatch i owner err m base now rows) =
     (if m = 0 then rows else update_where (leased_to i owner) (failed_row err m base now) rows)"
proof (cases "find (leased_to i owner) rows")
  case None
  then have "update_where (leased_to i owner) (failed_row err m base now) rows = rows"
    by (intro update_where_none) (auto simp: find_None_iff)
  with None show ?thesis by (simp add: fail_dispatch_def fail_dispatch_tx_def)
next
  case (Some r)
  then have r: "r \<in> set rows" "leased_to i owner r" using find_SomeD [OF Some] by simp_all
  have only: "x = r" if "x \<in> set rows" "leased_to i owner x" for x
    using assms r that by (auto simp: bus_ok_def distinct_map inj_on_def leased_to_def)
  have same: "update_where (leased_to i owner) f rows = update_where (leased_to i owner) (failed_row err m base now) rows"
    if "f r = failed_row err m base now r" for f
    using that only by (intro update_where_cong) auto
  let ?attempt = "saturating_add_i64 (be_attempts r) 1" and ?detail = "concat (take 1024 (utf8_chars err))"
  obtain x f where tx: "fail_dispatch_tx i owner err m base now rows = Inr (x, update_where (leased_to i owner) f rows)"
    and f: "f r = failed_row err m base now r"
  proof (cases "int m \<le> saturating_add_i64 (be_attempts r) 1")
    case True
    show ?thesis
      by (rule that [of "DeadLettered ?attempt" "\<lambda>x. x\<lparr>be_attempts := ?attempt, be_error := Some ?detail,
            be_dead_lettered_at := Some now, be_lease_owner := None, be_lease_expires_at := None\<rparr>"])
        (simp_all add: fail_dispatch_tx_def Some Let_def failed_row_def True)
  next
    case False
    show ?thesis
      by (rule that [of "RetryScheduled ?attempt" "\<lambda>x. x\<lparr>be_attempts := ?attempt, be_error := Some ?detail,
            be_lease_owner := None, be_lease_expires_at := Some (retry_at ?attempt base now)\<rparr>"])
        (simp_all add: fail_dispatch_tx_def Some Let_def failed_row_def False)
  qed
  from tx same [of f, OF f] show ?thesis by (simp add: fail_dispatch_def)
qed

lemma lookup_filter:
  assumes "bus_ok rows"
  shows "lookup_event i (filter q rows) = (case lookup_event i rows of None \<Rightarrow> None | Some r \<Rightarrow> if q r then Some r else None)"
proof -
  have "distinct (map be_id (filter q rows))" using assms by (simp add: bus_ok_def distinct_map_filter)
  then have filtered: "lookup_event i (filter q rows) = Some r \<longleftrightarrow> r \<in> set rows \<and> q r \<and> be_id r = i" for r
    by (simp add: lookup_event_def find_key_iff)
  note all = lookup_iff [OF assms]
  show ?thesis
  proof (cases "lookup_event i (filter q rows)")
    case None
    with filtered all show ?thesis by (auto split: option.splits)
  next
    case (Some r)
    with filtered have "lookup_event i rows = Some r" "q r" by (auto simp: all)
    with Some show ?thesis by simp
  qed
qed

text \<open>
  The table operations refine the steps of single events: an event that is in the table moves as \<open>event_step\<close> says, whatever else the
  action does, and only a publication of its own identifier brings an absent event into the table.
\<close>

lemma lookup_step_Some:
  assumes "bus_ok rows" "lookup_event i rows = Some r"
  shows "lookup_event i (bus_step js rows a) = event_step a r"
proof (cases a)
  case (Publish evt internal)
  with assms show ?thesis by (simp add: publish_def lookup_event_def find_append)
next
  case (FailDispatch j owner err m base now)
  with assms show ?thesis by (simp add: fail_dispatch_rows lookup_update)
next
  case (BusSweep now secs)
  with assms show ?thesis
    by (auto simp: bus_sweep_once_def purge_dispatched_older_than_def Let_def lookup_filter)
qed (use assms in \<open>simp_all add: mark_dispatched_def claim_dispatch_def complete_dispatch_def release_dispatch_def
      Let_def lookup_update\<close>)

lemma lookup_step_None:
  assumes "bus_ok rows" "lookup_event i rows = None" "lookup_event i (bus_step js rows a) = Some r"
  obtains evt internal where "a = Publish evt internal" "ev_id evt = i" "be_completed_at r = None" "be_dead_lettered_at r = None"
proof (cases a)
  case (Publish evt internal)
  with assms have "ev_id evt = i" "be_completed_at r = None" "be_dead_lettered_at r = None"
    by (auto simp: publish_def lookup_event_def find_append split: if_splits option.splits)
  with Publish that show ?thesis by blast
next
  case (FailDispatch j owner err m base now)
  with assms show ?thesis by (simp add: fail_dispatch_rows lookup_update split: if_splits)
next
  case (BusSweep now secs)
  with assms show ?thesis
    by (simp add: bus_sweep_once_def purge_dispatched_older_than_def Let_def lookup_filter)
qed (use assms in \<open>simp_all add: mark_dispatched_def claim_dispatch_def complete_dispatch_def release_dispatch_def
      Let_def lookup_update\<close>)

section \<open>The table's invariant\<close>

lemma bus_ok_update:
  assumes "bus_ok rows" "\<And>r. p r \<Longrightarrow> bus_row_ok r \<Longrightarrow> bus_row_ok (f r) \<and> be_id (f r) = be_id r"
  shows "bus_ok (update_where p f rows)"
proof -
  have ok: "bus_row_ok r" if "r \<in> set rows" for r using assms(1) that by (simp add: bus_ok_def list_all_iff)
  have "map be_id (update_where p f rows) = map be_id rows"
    using assms(2) ok by (auto simp: update_where_def)
  then show ?thesis
    using assms ok by (auto simp: bus_ok_def list_all_iff set_update_where)
qed

lemma bus_ok_step: "bus_ok rows \<Longrightarrow> bus_ok (bus_step js rows a)"
proof (cases a)
  case (Publish evt internal)
  assume "bus_ok rows"
  with Publish show ?thesis
    by (auto simp: publish_def bus_ok_def bus_row_ok_def find_None_iff)
next
  case (BusSweep now secs)
  assume "bus_ok rows"
  with BusSweep show ?thesis
    by (auto simp: bus_sweep_once_def purge_dispatched_older_than_def Let_def bus_ok_def distinct_map_filter list_all_iff)
next
  case (FailDispatch i owner err m base now)
  assume ok: "bus_ok rows"
  have "bus_ok (update_where (leased_to i owner) (failed_row err m base now) rows)"
    by (rule bus_ok_update [OF ok])
      (auto simp: bus_row_ok_def failed_row_def Let_def leased_to_def unfinished_def)
  with FailDispatch ok show ?thesis by (simp add: fail_dispatch_rows)
next
  case (MarkDispatched i t)
  assume ok: "bus_ok rows"
  show ?thesis unfolding MarkDispatched bus_step.simps mark_dispatched_def snd_conv
    by (rule bus_ok_update [OF ok]) (auto simp: bus_row_ok_def unmarked_def bus_claimable_def leased_to_def unfinished_def split: option.splits)
next
  case (ClaimDispatch i owner now secs)
  assume ok: "bus_ok rows"
  show ?thesis unfolding ClaimDispatch bus_step.simps claim_dispatch_def snd_conv
    by (rule bus_ok_update [OF ok]) (auto simp: bus_row_ok_def unmarked_def bus_claimable_def leased_to_def unfinished_def split: option.splits)
next
  case (CompleteDispatch i owner t)
  assume ok: "bus_ok rows"
  show ?thesis unfolding CompleteDispatch bus_step.simps complete_dispatch_def snd_conv
    by (rule bus_ok_update [OF ok]) (auto simp: bus_row_ok_def unmarked_def bus_claimable_def leased_to_def unfinished_def split: option.splits)
next
  case (ReleaseDispatch i owner)
  assume ok: "bus_ok rows"
  show ?thesis unfolding ReleaseDispatch bus_step.simps release_dispatch_def Let_def snd_conv
    by (rule bus_ok_update [OF ok]) (auto simp: bus_row_ok_def unmarked_def bus_claimable_def leased_to_def unfinished_def split: option.splits)
qed

interpretation bus: invariant_machine "bus_step js" bus_ok for js
  by unfold_locales (rule bus_ok_step)

section \<open>Leases\<close>

text \<open>Actions that do not come from the holder of the lease, and claims before it runs out.\<close>

fun foreign :: "string \<Rightarrow> string \<Rightarrow> int \<Rightarrow> 'j bus_action \<Rightarrow> bool" where
  "foreign i owner expiry (ClaimDispatch j o' t secs) \<longleftrightarrow> j \<noteq> i \<or> t < expiry"
| "foreign i owner expiry (CompleteDispatch j o' t) \<longleftrightarrow> j \<noteq> i \<or> o' \<noteq> owner"
| "foreign i owner expiry (ReleaseDispatch j o') \<longleftrightarrow> j \<noteq> i \<or> o' \<noteq> owner"
| "foreign i owner expiry (FailDispatch j o' err m base t) \<longleftrightarrow> j \<noteq> i \<or> o' \<noteq> owner"
| "foreign i owner expiry _ \<longleftrightarrow> True"

definition held :: "string \<Rightarrow> string \<Rightarrow> int \<Rightarrow> bus_row \<Rightarrow> bool" where
  "held i owner expiry r \<longleftrightarrow> leased_to i owner r \<and> be_lease_expires_at r = Some expiry \<and> be_dispatched_at r \<noteq> None"

lemma foreign_step_held:
  assumes "held i owner expiry r" "foreign i owner expiry a"
  shows "event_step a r = Some r"
  using assms by (cases a) (auto simp: held_def leased_to_def unfinished_def unmarked_def bus_claimable_def lease_free_def)

lemma foreign_run_held:
  assumes "bus_ok rows" "lookup_event i rows = Some r" "held i owner expiry r" "list_all (foreign i owner expiry) actions"
  shows "lookup_event i (foldl (bus_step js) rows actions) = Some r"
  using assms(1,2,4)
proof (induction actions arbitrary: rows)
  case (Cons a as)
  have "lookup_event i (bus_step js rows a) = Some r"
    using Cons.prems foreign_step_held [OF assms(3), of a] by (simp add: lookup_step_Some)
  with Cons show ?case by (simp add: bus_ok_step)
qed simp

lemma claim_dispatch_result:
  assumes "bus_ok rows"
  shows "fst (claim_dispatch i owner now secs rows) \<longleftrightarrow> (\<exists>r. lookup_event i rows = Some r \<and> bus_claimable i now r)"
  using count_event [OF assms, of "bus_claimable i now" i]
  by (simp add: claim_dispatch_def bus_claimable_def split: option.splits)

lemma complete_dispatch_result:
  assumes "bus_ok rows"
  shows "fst (complete_dispatch i owner t rows) \<longleftrightarrow> (\<exists>r. lookup_event i rows = Some r \<and> leased_to i owner r)"
  using count_event [OF assms, of "leased_to i owner" i]
  by (simp add: complete_dispatch_def leased_to_def split: option.splits)

lemma mark_dispatched_result:
  assumes "bus_ok rows"
  shows "fst (mark_dispatched i t rows) \<longleftrightarrow> (\<exists>r. lookup_event i rows = Some r \<and> unmarked i r)"
  using count_event [OF assms, of "unmarked i" i]
  by (simp add: mark_dispatched_def unmarked_def split: option.splits)

text \<open>
  C25: A dispatch lease is exclusive and fenced: after a successful claim, and however publications, sweeps, actions of other workers and claims
  within the lease time interleave, no claim of the event within the lease time succeeds, no other worker can complete it, and
  the holder can.
\<close>

theorem bus_lease_exclusive:
  assumes "bus_ok rows" "claim_dispatch i owner now secs rows = (True, rows1)"
    "list_all (foreign i owner (saturating_add_i64 now (max secs 1))) actions"
  shows "fst (complete_dispatch i owner t (foldl (bus_step js) rows1 actions)) \<and>
     (t' < saturating_add_i64 now (max secs 1) \<longrightarrow> \<not> fst (claim_dispatch i other t' secs' (foldl (bus_step js) rows1 actions))) \<and>
     (other \<noteq> owner \<longrightarrow> \<not> fst (complete_dispatch i other t (foldl (bus_step js) rows1 actions))) \<and>
     \<not> fst (mark_dispatched i t (foldl (bus_step js) rows1 actions))"
proof -
  let ?expiry = "saturating_add_i64 now (max secs 1)" and ?rows2 = "foldl (bus_step js) rows1 actions"
  have rows1: "rows1 = bus_step js rows (ClaimDispatch i owner now secs)" using assms(2) by simp
  have ok1: "bus_ok rows1" unfolding rows1 by (rule bus_ok_step [OF assms(1)])
  obtain r where r: "lookup_event i rows = Some r" "bus_claimable i now r"
    using claim_dispatch_result [OF assms(1), of i owner now secs] assms(2) by auto
  obtain r1 where r1: "lookup_event i rows1 = Some r1" "held i owner ?expiry r1"
    using lookup_step_Some [OF assms(1) r(1), of js "ClaimDispatch i owner now secs"] r(2)
    by (auto simp: rows1 held_def leased_to_def bus_claimable_def unfinished_def split: option.splits)
  have ok2: "bus_ok ?rows2" by (rule bus.run_inv [OF ok1])
  have r2: "lookup_event i ?rows2 = Some r1" by (rule foreign_run_held [OF ok1 r1 assms(3)])
  from r1(2) r2 show ?thesis
    by (auto simp: complete_dispatch_result [OF ok2] claim_dispatch_result [OF ok2] mark_dispatched_result [OF ok2]
        held_def leased_to_def bus_claimable_def lease_free_def unmarked_def)
qed

text \<open>A published event, claimed by one worker and contested by another.\<close>

definition sample_bus_json :: "string json" where
  "sample_bus_json = \<lparr>json_from_str = Some, json_null = ''null'', json_to_string = (\<lambda>v. v), json_array_to_string = concat\<rparr>"

definition sample_bus_event :: "string bus_event" where
  "sample_bus_event = \<lparr>ev_id = ''e'', ev_kind = WebhookReceived, ev_source = ''hook'', ev_received_at = 1, ev_payload = ''{}''\<rparr>"

definition sample_bus :: bus where
  "sample_bus = snd (publish sample_bus_json sample_bus_event False [])"

lemma sample_bus_ok: "bus_ok sample_bus"
  by (simp add: sample_bus_def publish_def bus_ok_def bus_row_ok_def)

theorem bus_lease_exclusive_witness:
  "fst (complete_dispatch ''e'' ''w1'' 20 (foldl (bus_step sample_bus_json) (snd (claim_dispatch ''e'' ''w1'' 10 30 sample_bus))
     [BusSweep 1000 0, ReleaseDispatch ''e'' ''w2'', ClaimDispatch ''e'' ''w2'' 39 30])) \<and>
   \<not> fst (claim_dispatch ''e'' ''w2'' 39 30 (foldl (bus_step sample_bus_json) (snd (claim_dispatch ''e'' ''w1'' 10 30 sample_bus))
     [BusSweep 1000 0, ReleaseDispatch ''e'' ''w2'', ClaimDispatch ''e'' ''w2'' 39 30]))"
proof -
  let ?as = "[BusSweep 1000 0, ReleaseDispatch ''e'' ''w2'', ClaimDispatch ''e'' ''w2'' 39 30] :: string bus_action list"
  have claim: "claim_dispatch ''e'' ''w1'' 10 30 sample_bus = (True, snd (claim_dispatch ''e'' ''w1'' 10 30 sample_bus))"
    by code_simp
  have expiry: "saturating_add_i64 10 30 = 40" by (simp add: saturating_add_i64_def)
  have "list_all (foreign ''e'' ''w1'' (saturating_add_i64 10 (max 30 1))) ?as" by (simp add: expiry)
  from bus_lease_exclusive [OF sample_bus_ok claim this, of 20 sample_bus_json 39 "''w2''" 30] show ?thesis
    by (simp add: expiry)
qed

section \<open>Completion at most once\<close>

text \<open>The completions that succeeded, and the publications that were accepted, in a run.\<close>

fun completes :: "string \<Rightarrow> bus \<Rightarrow> 'j bus_action \<Rightarrow> bool" where
  "completes i rows (MarkDispatched j t) \<longleftrightarrow> j = i \<and> fst (mark_dispatched j t rows)"
| "completes i rows (CompleteDispatch j owner t) \<longleftrightarrow> j = i \<and> fst (complete_dispatch j owner t rows)"
| "completes i rows _ \<longleftrightarrow> False"

fun accepts :: "'j json \<Rightarrow> string \<Rightarrow> bus \<Rightarrow> 'j bus_action \<Rightarrow> bool" where
  "accepts js i rows (Publish evt internal) \<longleftrightarrow> ev_id evt = i \<and> fst (publish js evt internal rows) = Inserted"
| "accepts js i rows _ \<longleftrightarrow> False"

definition owed :: "string \<Rightarrow> bus \<Rightarrow> bool" where
  "owed i rows \<longleftrightarrow> (\<exists>r. lookup_event i rows = Some r \<and> unfinished r)"

lemma unfinished_event_step:
  assumes "bus_row_ok r" "event_step a r = Some r'" "unfinished r'"
  shows "unfinished r"
  using assms by (cases a) (auto simp: unfinished_def failed_row_def Let_def leased_to_def unmarked_def split: if_splits)

lemma completes_finishes:
  assumes "bus_ok rows" "completes i rows a"
  shows "owed i rows \<and> \<not> owed i (bus_step js rows a)"
proof (cases a)
  case (MarkDispatched j t)
  with assms obtain r where r: "lookup_event i rows = Some r" "unmarked i r" "j = i"
    using mark_dispatched_result [OF assms(1)] by auto
  from lookup_ok [OF assms(1) r(1)] r(2) have "unfinished r" by (auto simp: bus_row_ok_def unmarked_def unfinished_def)
  with r MarkDispatched lookup_step_Some [OF assms(1) r(1), of js a] show ?thesis by (auto simp: owed_def unfinished_def)
next
  case (CompleteDispatch j owner t)
  with assms obtain r where r: "lookup_event i rows = Some r" "leased_to i owner r" "j = i"
    using complete_dispatch_result [OF assms(1)] by auto
  with CompleteDispatch lookup_step_Some [OF assms(1) r(1), of js a] show ?thesis
    by (auto simp: owed_def unfinished_def leased_to_def)
qed (use assms in simp_all)

lemma owed_step:
  assumes "bus_ok rows" "owed i (bus_step js rows a)"
  shows "owed i rows \<or> accepts js i rows a"
proof (cases "lookup_event i rows")
  case None
  obtain r where r: "lookup_event i (bus_step js rows a) = Some r" using assms(2) by (auto simp: owed_def)
  obtain evt internal where "a = Publish evt internal" "ev_id evt = i" by (rule lookup_step_None [OF assms(1) None r])
  with None show ?thesis by (simp add: publish_def lookup_event_def)
next
  case (Some r)
  with assms(2) lookup_step_Some [OF assms(1) Some, of js a] obtain r' where "event_step a r = Some r'" "unfinished r'"
    by (auto simp: owed_def)
  with unfinished_event_step [OF lookup_ok [OF assms(1) Some]] Some show ?thesis by (auto simp: owed_def)
qed

text \<open>
  Whatever workers, retries, sweeps and crashed leases do, an event is completed at most as often as a publication of its identifier was
  accepted, plus once for an event that was owed at the start.
\<close>

theorem bus_completes_at_most_once:
  assumes "bus_ok rows"
  shows "count_steps (completes i) (bus_step js) rows actions \<le>
    count_steps (accepts js i) (bus_step js) rows actions + of_bool (owed i rows)"
  using assms
proof (induction actions arbitrary: rows)
  case (Cons a as)
  have IH: "count_steps (completes i) (bus_step js) (bus_step js rows a) as \<le>
      count_steps (accepts js i) (bus_step js) (bus_step js rows a) as + of_bool (owed i (bus_step js rows a))"
    by (rule Cons.IH [OF bus_ok_step [OF Cons.prems]])
  have "of_bool (completes i rows a) + of_bool (owed i (bus_step js rows a)) \<le> (of_bool (owed i rows) :: nat) + of_bool (accepts js i rows a)"
    using completes_finishes [OF Cons.prems, of i a js] owed_step [OF Cons.prems, of i js a] by (auto simp: of_bool_def)
  with IH show ?case by simp
qed simp

theorem bus_completes_at_most_once_witness:
  "count_steps (completes ''e'') (bus_step sample_bus_json) []
     [Publish sample_bus_event False, MarkDispatched ''e'' 5, Publish sample_bus_event True, CompleteDispatch ''e'' ''w'' 6] = 1"
proof -
  let ?as = "[Publish sample_bus_event False, MarkDispatched ''e'' 5, Publish sample_bus_event True, CompleteDispatch ''e'' ''w'' 6]"
  have "count_steps (accepts sample_bus_json ''e'') (bus_step sample_bus_json) [] ?as = 1" "\<not> owed ''e'' []"
    "1 \<le> count_steps (completes ''e'') (bus_step sample_bus_json) [] ?as"
    by (code_simp, simp add: owed_def lookup_event_def, code_simp)
  with bus_completes_at_most_once [of "[]" "''e''" sample_bus_json ?as] show ?thesis by (simp add: bus_ok_def)
qed

section \<open>Recovery and retries\<close>

text \<open>
  The recovery scan without a limit lists exactly the events that a worker can claim at that time, and a retention sweep does not change
  what it lists.
\<close>

theorem recovery_scan_exact:
  assumes "bus_ok rows" "limit < 0"
  shows "(i \<in> set (fetch_pending False limit now rows) \<longleftrightarrow> fst (claim_dispatch i owner now secs rows)) \<and>
     fetch_pending internal_only limit2 now (snd (bus_sweep_once now2 secs2 rows)) = fetch_pending internal_only limit2 now rows"
proof
  show "i \<in> set (fetch_pending False limit now rows) \<longleftrightarrow> fst (claim_dispatch i owner now secs rows)"
    using assms by (auto simp: fetch_pending_def sql_limit_def claim_dispatch_result lookup_iff bus_claimable_def)
  let ?old = "\<lambda>r. be_completed_at r \<noteq> None \<and> be_received_at r < max (saturating_sub_i64 now2 secs2) 0"
  have "filter (\<lambda>r. unfinished r \<and> (internal_only \<longrightarrow> be_internal r) \<and> lease_free now r) (filter (Not \<circ> ?old) rows) =
      filter (\<lambda>r. unfinished r \<and> (internal_only \<longrightarrow> be_internal r) \<and> lease_free now r) rows"
    unfolding filter_filter by (intro filter_cong) (auto simp: unfinished_def)
  then show "fetch_pending internal_only limit2 now (snd (bus_sweep_once now2 secs2 rows)) = fetch_pending internal_only limit2 now rows"
    by (simp only: fetch_pending_def bus_sweep_once_def purge_dispatched_older_than_def Let_def snd_conv)
qed

theorem recovery_scan_exact_witness:
  "''e'' \<in> set (fetch_pending False (- 1) 40 (snd (claim_dispatch ''e'' ''w1'' 10 30 sample_bus))) \<and>
   ''e'' \<notin> set (fetch_pending False (- 1) 39 (snd (claim_dispatch ''e'' ''w1'' 10 30 sample_bus)))"
proof -
  let ?rows = "snd (claim_dispatch ''e'' ''w1'' 10 30 sample_bus)"
  have ok: "bus_ok ?rows" using bus_ok_step [OF sample_bus_ok, of sample_bus_json "ClaimDispatch ''e'' ''w1'' 10 30"] by simp
  have "fst (claim_dispatch ''e'' ''w2'' 40 30 ?rows)" "\<not> fst (claim_dispatch ''e'' ''w2'' 39 30 ?rows)" by code_simp+
  with recovery_scan_exact [OF ok, of "- 1" "''e''" 40 "''w2''" 30] recovery_scan_exact [OF ok, of "- 1" "''e''" 39 "''w2''" 30]
  show ?thesis by simp
qed

lemma saturating_backoff:
  "0 \<le> now \<Longrightarrow> now + 300 < 2 ^ 63 \<Longrightarrow> 1 \<le> delay \<Longrightarrow> saturating_add_i64 now (min delay 300) = now + min 300 delay"
  by (auto simp: saturating_add_i64_def min_def max_def)

lemma retry_at_eq:
  assumes "1 \<le> attempt" "attempt < 2 ^ 63" "0 \<le> now" "now + 300 < 2 ^ 63" "base < 2 ^ 50"
  shows "retry_at attempt base now = now + min 300 (max base 1 * 2 ^ nat (min 10 (attempt - 1)))"
proof -
  have "(2 :: int) ^ nat (min 10 (attempt - 1)) \<le> 2 ^ 10" by (intro power_increasing) simp_all
  then have mult: "max base 1 * 2 ^ nat (min 10 (attempt - 1)) \<le> 2 ^ 50 * 2 ^ 10"
    using assms(5) by (intro mult_mono) simp_all
  have pos: "1 \<le> max base 1 * 2 ^ nat (min 10 (attempt - 1))"
    using mult_mono [of 1 "max base 1" 1 "(2 :: int) ^ nat (min 10 (attempt - 1))"] by simp
  have "saturating_sub_i64 attempt 1 = attempt - 1" using assms(1,2) by (simp add: saturating_sub_i64_def)
  moreover have "saturating_mul_i64 (max base 1) (2 ^ nat (min 10 (attempt - 1))) = max base 1 * 2 ^ nat (min 10 (attempt - 1))"
    using mult pos by (simp add: saturating_mul_i64_def max_def min_def)
  moreover have "max 0 (min 10 (attempt - 1)) = min 10 (attempt - 1)" using assms(1) by simp
  ultimately show ?thesis
    unfolding retry_at_def Let_def using saturating_backoff [OF assms(3,4) pos] by simp
qed

lemma dead_letter_final:
  assumes "bus_ok rows" "lookup_event i rows = Some r" "be_dead_lettered_at r \<noteq> None"
  shows "lookup_event i (foldl (bus_step js) rows actions) = Some r"
  using assms(1,2)
proof (induction actions arbitrary: rows)
  case (Cons a as)
  have "event_step a r = Some r"
    using lookup_ok [OF Cons.prems] assms(3)
    by (cases a) (auto simp: bus_row_ok_def unmarked_def bus_claimable_def leased_to_def unfinished_def)
  then have "lookup_event i (bus_step js rows a) = Some r" using Cons.prems by (simp add: lookup_step_Some)
  with Cons show ?case by (simp add: bus_ok_step)
qed simp

lemma fail_dispatch_result:
  assumes "bus_ok rows" "lookup_event i rows = Some r" "leased_to i owner r" "0 < m"
  shows "fst (fail_dispatch i owner err m base now rows) = Inr (let attempt = saturating_add_i64 (be_attempts r) 1 in
     if int m \<le> attempt then DeadLettered attempt else RetryScheduled attempt)"
proof -
  have "find (leased_to i owner) rows = Some r"
  proof (cases "find (leased_to i owner) rows")
    case None
    with assms(2,3) lookup_id show ?thesis by (fastforce simp: find_None_iff)
  next
    case (Some x)
    then have "x \<in> set rows" "be_id x = i" using find_SomeD [OF Some] by (simp_all add: leased_to_def)
    with assms(1,2) Some show ?thesis using lookup_iff [OF assms(1), of i x] by simp
  qed
  then show ?thesis using assms(4) by (simp add: fail_dispatch_def fail_dispatch_tx_def Let_def)
qed

text \<open>
  A failure report of the lease holder counts one attempt. When the budget is used up, the event is dead-lettered and no later
  action of any kind changes its row. Otherwise the event can be claimed again exactly from the end of its backoff, which doubles from the base, at
  most ten times, and is at most 300 seconds.
\<close>

theorem bus_failure_outcome:
  assumes "bus_ok rows" "lookup_event i rows = Some r" "leased_to i owner r" "0 < m"
    "0 \<le> be_attempts r" "be_attempts r + 1 < 2 ^ 63" "0 \<le> now" "now + 300 < 2 ^ 63" "base < 2 ^ 50"
  shows "let attempt = be_attempts r + 1; (res, rows1) = fail_dispatch i owner err m base now rows in
     if int m \<le> attempt
     then res = Inr (DeadLettered attempt) \<and>
       lookup_event i (foldl (bus_step js) rows1 actions) = lookup_event i rows1 \<and>
       \<not> fst (claim_dispatch i other t secs (foldl (bus_step js) rows1 actions))
     else res = Inr (RetryScheduled attempt) \<and>
       (fst (claim_dispatch i other t secs rows1) \<longleftrightarrow> now + min 300 (max base 1 * 2 ^ nat (min 10 (attempt - 1))) \<le> t)"
proof -
  let ?rows1 = "snd (fail_dispatch i owner err m base now rows)" and ?attempt = "be_attempts r + 1"
  have ok1: "bus_ok ?rows1" using bus_ok_step [OF assms(1), of js "FailDispatch i owner err m base now"] by simp
  have att: "saturating_add_i64 (be_attempts r) 1 = ?attempt" using assms(5,6) by (simp add: saturating_add_i64_def)
  have res: "fst (fail_dispatch i owner err m base now rows) =
      Inr (if int m \<le> ?attempt then DeadLettered ?attempt else RetryScheduled ?attempt)"
    using fail_dispatch_result [OF assms(1-4)] by (simp add: att)
  have row: "lookup_event i ?rows1 = Some (failed_row err m base now r)"
    using lookup_step_Some [OF assms(1,2), of js "FailDispatch i owner err m base now"] assms(3,4) by simp
  have unf: "unfinished r" "be_id r = i" using assms(3) by (simp_all add: leased_to_def)
  show ?thesis
  proof (cases "int m \<le> ?attempt")
    case True
    then have dead: "be_dead_lettered_at (failed_row err m base now r) \<noteq> None" by (simp add: failed_row_def att)
    note final = dead_letter_final [OF ok1 row dead, of js actions]
    have "\<not> fst (claim_dispatch i other t secs (foldl (bus_step js) ?rows1 actions))"
      using claim_dispatch_result [OF bus.run_inv [OF ok1], of i other t secs js actions] final dead
      by (auto simp: bus_claimable_def unfinished_def)
    with True res final row show ?thesis by (simp add: split_beta)
  next
    case False
    have retry: "retry_at ?attempt base now = now + min 300 (max base 1 * 2 ^ nat (min 10 (?attempt - 1)))"
      by (rule retry_at_eq) (use assms in simp_all)
    have "fst (claim_dispatch i other t secs ?rows1) \<longleftrightarrow> retry_at ?attempt base now \<le> t"
      using claim_dispatch_result [OF ok1, of i other t secs] row False unf
      by (simp add: failed_row_def att Let_def bus_claimable_def unfinished_def lease_free_def)
    with False res retry show ?thesis by (simp add: split_beta)
  qed
qed

theorem bus_failure_outcome_witness:
  "fst (fail_dispatch ''e'' ''w1'' ''boom'' 3 5 20 (snd (claim_dispatch ''e'' ''w1'' 10 30 sample_bus))) = Inr (RetryScheduled 1) \<and>
   \<not> fst (claim_dispatch ''e'' ''w2'' 24 30 (snd (fail_dispatch ''e'' ''w1'' ''boom'' 3 5 20 (snd (claim_dispatch ''e'' ''w1'' 10 30 sample_bus)))))"
proof -
  let ?rows = "snd (claim_dispatch ''e'' ''w1'' 10 30 sample_bus)"
  let ?r = "the (lookup_event ''e'' ?rows)"
  have ok: "bus_ok ?rows" using bus_ok_step [OF sample_bus_ok, of sample_bus_json "ClaimDispatch ''e'' ''w1'' 10 30"] by simp
  have r: "lookup_event ''e'' ?rows = Some ?r" "leased_to ''e'' ''w1'' ?r" "be_attempts ?r = 0" by code_simp+
  from bus_failure_outcome [OF ok r(1,2), of 3 20 5 "''boom''" sample_bus_json "[]" "''w2''" 24 30] r(3) show ?thesis
    by (simp add: split_beta)
qed

end
