(* ===== verification/Tool_Access.thy ===== *)
theory Tool_Access
  imports Db
begin

text \<open>
  Per-tool access policy (\<open>crates/core/src/tool_access.rs\<close>): registration of tools, the operator's policy with its append-only
  revisions, rollback, and removal. The two tables are the store's state; the trigger of the schema that records the policy of a newly
  registered tool is part of the insert. The JSON encoding of a list of trust classes is a parameter.
\<close>

section \<open>State\<close>

datatype ToolSource = Builtin | Plugin | Mcp

fun ToolSource_as_str :: "ToolSource \<Rightarrow> string" where
  "ToolSource_as_str Builtin = ''builtin''"
| "ToolSource_as_str Plugin = ''plugin''"
| "ToolSource_as_str Mcp = ''mcp''"

definition ToolSource_parse :: "string \<Rightarrow> ToolSource option" where
  "ToolSource_parse s = (if s = ''builtin'' then Some Builtin else if s = ''plugin'' then Some Plugin
     else if s = ''mcp'' then Some Mcp else None)"

record classes_json =
  classes_to_string :: "string list \<Rightarrow> string"
  classes_from_str :: "string \<Rightarrow> string list option"

text \<open>What the sources rely on: a list that was written can be read back.\<close>

definition classes_roundtrip :: "classes_json \<Rightarrow> bool" where
  "classes_roundtrip js \<longleftrightarrow> (\<forall>cs. classes_from_str js (classes_to_string js cs) = Some cs)"

record ToolAccessRow =
  ta_tool_name :: string
  ta_source :: ToolSource
  ta_source_id :: "string option"
  ta_enabled :: bool
  ta_allowed_classes :: "string list"
  ta_description :: "string option"
  ta_input_schema :: "string option"
  ta_first_seen_at :: int
  ta_last_seen_at :: int
  ta_removed_at :: "int option"

record ToolAccessPolicyRevision =
  pr_revision_id :: int
  pr_tool_name :: string
  pr_enabled :: bool
  pr_allowed_classes :: "string list"
  pr_revised_by :: string
  pr_revised_at :: int
  pr_rollback_of :: "int option"

record ToolAccessSeed =
  sd_tool_name :: string
  sd_source :: ToolSource
  sd_source_id :: "string option"
  sd_description :: "string option"
  sd_input_schema :: "string option"
  sd_default_allowed_classes :: "string list"

record access_row =
  ax_tool_name :: string
  ax_source :: string
  ax_source_id :: "string option"
  ax_enabled :: bool
  ax_allowed_classes :: string
  ax_description :: "string option"
  ax_input_schema :: "string option"
  ax_first_seen_at :: int
  ax_last_seen_at :: int
  ax_removed_at :: "int option"

record revision_row =
  rv_revision_id :: int
  rv_tool_name :: string
  rv_enabled :: bool
  rv_allowed_classes_json :: string
  rv_revised_by :: string
  rv_revised_at :: int
  rv_rollback_of :: "int option"

text \<open>\<open>revision_seq\<close> is the \<open>AUTOINCREMENT\<close> counter of the revisions.\<close>

record tool_access =
  access_rows :: "access_row list"
  revision_rows :: "revision_row list"
  revision_seq :: int

section \<open>Operations\<close>

text \<open>\<open>COALESCE(MAX(revision_id), 0)\<close>.\<close>

definition latest_policy_revision_id :: "tool_access \<Rightarrow> int" where
  "latest_policy_revision_id st = (case map rv_revision_id (revision_rows st) of [] \<Rightarrow> 0 | s # ss \<Rightarrow> fold max ss s)"

definition row_to_tool_access :: "classes_json \<Rightarrow> access_row \<Rightarrow> sql_error + ToolAccessRow" where
  "row_to_tool_access js r = (case ToolSource_parse (ax_source r) of
      None \<Rightarrow> Inl FromSqlConversionFailure
    | Some source \<Rightarrow> Inr \<lparr>ta_tool_name = ax_tool_name r, ta_source = source, ta_source_id = ax_source_id r,
        ta_enabled = ax_enabled r,
        ta_allowed_classes = (case classes_from_str js (ax_allowed_classes r) of None \<Rightarrow> [] | Some cs \<Rightarrow> cs),
        ta_description = ax_description r, ta_input_schema = ax_input_schema r, ta_first_seen_at = ax_first_seen_at r,
        ta_last_seen_at = ax_last_seen_at r, ta_removed_at = ax_removed_at r\<rparr>)"

definition find_tool :: "string \<Rightarrow> tool_access \<Rightarrow> access_row option" where
  "find_tool name st = find (\<lambda>r. ax_tool_name r = name) (access_rows st)"

text \<open>Every error of the query becomes \<open>None\<close>, through \<open>.ok()\<close>.\<close>

definition get_tool :: "classes_json \<Rightarrow> string \<Rightarrow> tool_access \<Rightarrow> ToolAccessRow option" where
  "get_tool js name st = (case find_tool name st of
      None \<Rightarrow> None
    | Some r \<Rightarrow> (case row_to_tool_access js r of Inl _ \<Rightarrow> None | Inr x \<Rightarrow> Some x))"

fun collect_tools :: "classes_json \<Rightarrow> access_row list \<Rightarrow> DbError + ToolAccessRow list" where
  "collect_tools js [] = Inr []"
| "collect_tools js (r # rs) = (case row_to_tool_access js r of
      Inl e \<Rightarrow> Inl (Sqlite e)
    | Inr x \<Rightarrow> (case collect_tools js rs of Inl e \<Rightarrow> Inl e | Inr xs \<Rightarrow> Inr (x # xs)))"

definition list_all_tools :: "classes_json \<Rightarrow> tool_access \<Rightarrow> DbError + ToolAccessRow list" where
  "list_all_tools js st = collect_tools js (sort_key ax_source (sort_key ax_tool_name (access_rows st)))"

definition insert_revision :: "string \<Rightarrow> bool \<Rightarrow> string \<Rightarrow> string \<Rightarrow> int \<Rightarrow> int option \<Rightarrow> tool_access \<Rightarrow> tool_access" where
  "insert_revision name enabled allowed_json by_whom now rollback_of st =
     st\<lparr>revision_rows := revision_rows st @ [\<lparr>rv_revision_id = revision_seq st + 1, rv_tool_name = name, rv_enabled = enabled,
          rv_allowed_classes_json = allowed_json, rv_revised_by = by_whom, rv_revised_at = now, rv_rollback_of = rollback_of\<rparr>],
        revision_seq := revision_seq st + 1\<rparr>"

text \<open>The upsert; the trigger \<open>tool_access_initial_policy_revision\<close> fires when a row is inserted.\<close>

definition upsert_seen :: "classes_json \<Rightarrow> ToolAccessSeed \<Rightarrow> int \<Rightarrow> tool_access \<Rightarrow> tool_access" where
  "upsert_seen js seed now st =
     (let allowed_json = classes_to_string js (sd_default_allowed_classes seed) in
      if find_tool (sd_tool_name seed) st = None
      then insert_revision (sd_tool_name seed) True allowed_json ''registration'' now None
        (st\<lparr>access_rows := access_rows st @ [\<lparr>ax_tool_name = sd_tool_name seed, ax_source = ToolSource_as_str (sd_source seed),
           ax_source_id = sd_source_id seed, ax_enabled = True, ax_allowed_classes = allowed_json,
           ax_description = sd_description seed, ax_input_schema = sd_input_schema seed, ax_first_seen_at = now,
           ax_last_seen_at = now, ax_removed_at = None\<rparr>]\<rparr>)
      else st\<lparr>access_rows := update_where (\<lambda>r. ax_tool_name r = sd_tool_name seed)
        (\<lambda>r. r\<lparr>ax_source := ToolSource_as_str (sd_source seed), ax_source_id := sd_source_id seed,
               ax_description := sd_description seed, ax_input_schema := sd_input_schema seed, ax_last_seen_at := now,
               ax_removed_at := None\<rparr>) (access_rows st)\<rparr>)"

definition mark_removed :: "string \<Rightarrow> int \<Rightarrow> tool_access \<Rightarrow> bool \<times> tool_access" where
  "mark_removed name now st =
     (let p = (\<lambda>r. ax_tool_name r = name \<and> ax_removed_at r = None) in
      (0 < count_where p (access_rows st),
       st\<lparr>access_rows := update_where p (\<lambda>r. r\<lparr>ax_removed_at := Some now\<rparr>) (access_rows st)\<rparr>))"

definition set_policy_tx :: "string \<Rightarrow> bool \<Rightarrow> string \<Rightarrow> string \<Rightarrow> int \<Rightarrow> int option \<Rightarrow> tool_access \<Rightarrow> DbError + bool \<times> tool_access" where
  "set_policy_tx name enabled allowed_json by_whom now rollback_of st =
     (let p = (\<lambda>r. ax_tool_name r = name);
          st1 = st\<lparr>access_rows := update_where p (\<lambda>r. r\<lparr>ax_enabled := enabled, ax_allowed_classes := allowed_json\<rparr>) (access_rows st)\<rparr> in
      if count_where p (access_rows st) = 0 then Inr (False, st1)
      else (case find_tool name st1 of
          None \<Rightarrow> Inl (Sqlite QueryReturnedNoRows)
        | Some r \<Rightarrow>
            if (case rollback_of of None \<Rightarrow> False | Some i \<Rightarrow> i \<notin> set (map rv_revision_id (revision_rows st)))
            then Inl (Sqlite (ConstraintViolation ''FOREIGN KEY constraint failed''))
            else Inr (True, insert_revision name (ax_enabled r) (ax_allowed_classes r) by_whom now rollback_of st1)))"

definition set_policy_with_actor :: "classes_json \<Rightarrow> string \<Rightarrow> bool \<Rightarrow> string list \<Rightarrow> string \<Rightarrow> int \<Rightarrow> int option \<Rightarrow> tool_access
   \<Rightarrow> (DbError + bool) \<times> tool_access" where
  "set_policy_with_actor js name enabled allowed_classes by_whom now rollback_of st =
     (if rust_trim by_whom = [] \<or> 128 < length by_whom then (Inl (Invariant ''policy revision actor is invalid''), st)
      else transaction (set_policy_tx name enabled (classes_to_string js allowed_classes) by_whom now rollback_of) st)"

text \<open>\<open>set_policy\<close>, with the clock as an argument.\<close>

definition set_policy :: "classes_json \<Rightarrow> string \<Rightarrow> bool \<Rightarrow> string list \<Rightarrow> int \<Rightarrow> tool_access \<Rightarrow> (DbError + bool) \<times> tool_access" where
  "set_policy js name enabled allowed_classes now = set_policy_with_actor js name enabled allowed_classes ''system'' now None"

fun collect_revisions :: "classes_json \<Rightarrow> revision_row list \<Rightarrow> DbError + ToolAccessPolicyRevision list" where
  "collect_revisions js [] = Inr []"
| "collect_revisions js (r # rs) = (case classes_from_str js (rv_allowed_classes_json r) of
      None \<Rightarrow> Inl (Sqlite FromSqlConversionFailure)
    | Some cs \<Rightarrow> (case collect_revisions js rs of
          Inl e \<Rightarrow> Inl e
        | Inr xs \<Rightarrow> Inr (\<lparr>pr_revision_id = rv_revision_id r, pr_tool_name = rv_tool_name r, pr_enabled = rv_enabled r,
            pr_allowed_classes = cs, pr_revised_by = rv_revised_by r, pr_revised_at = rv_revised_at r,
            pr_rollback_of = rv_rollback_of r\<rparr> # xs)))"

definition policy_revisions :: "classes_json \<Rightarrow> string \<Rightarrow> nat \<Rightarrow> tool_access \<Rightarrow> DbError + ToolAccessPolicyRevision list" where
  "policy_revisions js name limit st = collect_revisions js (take (max 1 (min limit 100))
     (sort_key (\<lambda>r. - rv_revision_id r) (filter (\<lambda>r. rv_tool_name r = name) (revision_rows st))))"

definition rollback_policy_revision :: "classes_json \<Rightarrow> string \<Rightarrow> int \<Rightarrow> string \<Rightarrow> int \<Rightarrow> tool_access
   \<Rightarrow> (DbError + bool) \<times> tool_access" where
  "rollback_policy_revision js name revision_id by_whom now st =
     (case find (\<lambda>r. rv_revision_id r = revision_id \<and> rv_tool_name r = name) (revision_rows st) of
        None \<Rightarrow> (Inr False, st)
      | Some r \<Rightarrow> (case classes_from_str js (rv_allowed_classes_json r) of
            None \<Rightarrow> (Inl (Sqlite FromSqlConversionFailure), st)
          | Some cs \<Rightarrow> set_policy_with_actor js name (rv_enabled r) cs by_whom now (Some revision_id) st))"

definition delete_by_source :: "ToolSource \<Rightarrow> string option \<Rightarrow> tool_access \<Rightarrow> nat \<times> tool_access" where
  "delete_by_source source source_id st =
     (let p = (\<lambda>r. ax_source r = ToolSource_as_str source \<and> ax_source_id r = source_id) in
      (count_where p (access_rows st), st\<lparr>access_rows := filter (Not \<circ> p) (access_rows st)\<rparr>))"

section \<open>The policy in force is the newest revision\<close>

datatype tool_action =
    UpsertSeen ToolAccessSeed int
  | MarkRemoved string int
  | SetPolicy string bool "string list" string int "int option"
  | RollbackPolicy string int string int
  | DeleteBySource ToolSource "string option"

fun tool_step :: "classes_json \<Rightarrow> tool_access \<Rightarrow> tool_action \<Rightarrow> tool_access" where
  "tool_step js st (UpsertSeen seed now) = upsert_seen js seed now st"
| "tool_step js st (MarkRemoved name now) = snd (mark_removed name now st)"
| "tool_step js st (SetPolicy name en cs by_whom now rb) = snd (set_policy_with_actor js name en cs by_whom now rb st)"
| "tool_step js st (RollbackPolicy name i by_whom now) = snd (rollback_policy_revision js name i by_whom now st)"
| "tool_step js st (DeleteBySource source sid) = snd (delete_by_source source sid st)"

definition revisions_of :: "string \<Rightarrow> tool_access \<Rightarrow> revision_row list" where
  "revisions_of name st = filter (\<lambda>r. rv_tool_name r = name) (revision_rows st)"

definition policy_current :: "tool_access \<Rightarrow> access_row \<Rightarrow> bool" where
  "policy_current st r \<longleftrightarrow> (let rs = revisions_of (ax_tool_name r) st in
     rs \<noteq> [] \<and> rv_enabled (last rs) = ax_enabled r \<and> rv_allowed_classes_json (last rs) = ax_allowed_classes r)"

definition tools_ok :: "tool_access \<Rightarrow> bool" where
  "tools_ok st \<longleftrightarrow> distinct (map ax_tool_name (access_rows st)) \<and> list_all (policy_current st) (access_rows st) \<and>
     map rv_revision_id (revision_rows st) = map (\<lambda>n. int n + 1) [0..<length (revision_rows st)] \<and>
     revision_seq st = int (length (revision_rows st))"

lemma insert_revision_simps [simp]:
  "access_rows (insert_revision n e a b now rb st) = access_rows st"
  "revision_seq (insert_revision n e a b now rb st) = revision_seq st + 1"
  "length (revision_rows (insert_revision n e a b now rb st)) = Suc (length (revision_rows st))"
  by (simp_all add: insert_revision_def)

lemma revisions_of_insert:
  "revisions_of m (insert_revision n e a b now rb st) = revisions_of m st @ (if m = n then
     [\<lparr>rv_revision_id = revision_seq st + 1, rv_tool_name = n, rv_enabled = e, rv_allowed_classes_json = a, rv_revised_by = b,
       rv_revised_at = now, rv_rollback_of = rb\<rparr>] else [])"
  by (simp add: revisions_of_def insert_revision_def)

lemma find_tool_id: "find_tool name st = Some r \<Longrightarrow> ax_tool_name r = name \<and> r \<in> set (access_rows st)"
  unfolding find_tool_def using find_SomeD by fastforce

lemma find_tool_None: "find_tool name st = None \<longleftrightarrow> name \<notin> ax_tool_name ` set (access_rows st)"
  by (auto simp: find_tool_def find_None_iff)

lemma count_tool: "count_where (\<lambda>r. ax_tool_name r = name) (access_rows st) = 0 \<longleftrightarrow> find_tool name st = None"
  by (auto simp: count_where_def filter_empty_conv find_tool_None)

lemma find_tool_update:
  assumes "\<And>r. p r \<Longrightarrow> ax_tool_name (f r) = ax_tool_name r"
  shows "find_tool name (st\<lparr>access_rows := update_where p f (access_rows st)\<rparr>) = map_option (\<lambda>r. if p r then f r else r) (find_tool name st)"
  unfolding find_tool_def using find_update_where_key [of p ax_tool_name f name "access_rows st"] assms by simp

lemma policy_current_rows: "policy_current (st\<lparr>access_rows := rows\<rparr>) r = policy_current st r"
  by (simp add: policy_current_def revisions_of_def)

text \<open>A change of the rows that touches no policy, and a new revision that becomes the policy of its tool.\<close>

lemma tools_ok_update:
  assumes "tools_ok st" "\<And>r. p r \<Longrightarrow> ax_tool_name (f r) = ax_tool_name r \<and> ax_enabled (f r) = ax_enabled r \<and> ax_allowed_classes (f r) = ax_allowed_classes r"
  shows "tools_ok (st\<lparr>access_rows := update_where p f (access_rows st)\<rparr>)"
proof -
  have "map ax_tool_name (update_where p f (access_rows st)) = map ax_tool_name (access_rows st)"
    using assms(2) by (intro map_update_where) simp
  moreover have "policy_current st (if p r then f r else r)" if "r \<in> set (access_rows st)" for r
    using assms that by (auto simp: tools_ok_def list_all_iff policy_current_def)
  then have "\<forall>r \<in> set (update_where p f (access_rows st)). policy_current st r"
    unfolding set_update_where ball_simps by blast
  ultimately show ?thesis
    using assms(1) by (simp add: tools_ok_def list_all_iff policy_current_rows)
qed

lemma tools_ok_revision:
  assumes "tools_ok st" "distinct (map ax_tool_name rows)"
    "\<And>r. r \<in> set rows \<Longrightarrow> ax_tool_name r = name \<Longrightarrow> ax_enabled r = e \<and> ax_allowed_classes r = a"
    "\<And>r. r \<in> set rows \<Longrightarrow> ax_tool_name r \<noteq> name \<Longrightarrow> r \<in> set (access_rows st)"
  shows "tools_ok (insert_revision name e a b now rb (st\<lparr>access_rows := rows\<rparr>))" (is "tools_ok ?st'")
proof -
  have revs: "revisions_of m (st\<lparr>access_rows := rows\<rparr>) = revisions_of m st" for m by (simp add: revisions_of_def)
  have "policy_current ?st' r" if r: "r \<in> set rows" for r
  proof (cases "ax_tool_name r = name")
    case True
    with assms(3) [OF r] show ?thesis by (simp add: policy_current_def revisions_of_insert)
  next
    case False
    then have "policy_current st r" using assms(1,4) r by (simp add: tools_ok_def list_all_iff)
    with False show ?thesis by (simp add: policy_current_def revisions_of_insert revs)
  qed
  then show ?thesis
    using assms(1,2) by (simp add: tools_ok_def list_all_iff insert_revision_def)
qed

lemma set_policy_tx_cases:
  obtains (absent) "find_tool name st = None" "set_policy_tx name en a b now rb st = Inr (False, st)"
    | (refused) e where "set_policy_tx name en a b now rb st = Inl e"
    | (revised) r where "find_tool name st = Some r"
        "set_policy_tx name en a b now rb st = Inr (True, insert_revision name en a b now rb
           (st\<lparr>access_rows := update_where (\<lambda>r. ax_tool_name r = name) (\<lambda>r. r\<lparr>ax_enabled := en, ax_allowed_classes := a\<rparr>) (access_rows st)\<rparr>))"
proof (cases "find_tool name st")
  case None
  then have "update_where (\<lambda>r. ax_tool_name r = name) f (access_rows st) = access_rows st" for f
    by (intro update_where_none) (auto simp: find_tool_None)
  with None absent show ?thesis by (simp add: set_policy_tx_def count_tool)
next
  case (Some r)
  let ?st1 = "st\<lparr>access_rows := update_where (\<lambda>r. ax_tool_name r = name) (\<lambda>r. r\<lparr>ax_enabled := en, ax_allowed_classes := a\<rparr>) (access_rows st)\<rparr>"
  have "find_tool name ?st1 = Some (r\<lparr>ax_enabled := en, ax_allowed_classes := a\<rparr>)"
    using Some find_tool_id [OF Some] by (simp add: find_tool_update)
  then have "set_policy_tx name en a b now rb st =
      (if (case rb of None \<Rightarrow> False | Some i \<Rightarrow> i \<notin> set (map rv_revision_id (revision_rows st)))
       then Inl (Sqlite (ConstraintViolation ''FOREIGN KEY constraint failed''))
       else Inr (True, insert_revision name en a b now rb ?st1))"
    using Some by (simp add: set_policy_tx_def Let_def count_tool)
  with Some refused revised show ?thesis by (cases "case rb of None \<Rightarrow> False | Some i \<Rightarrow> i \<notin> set (map rv_revision_id (revision_rows st))") simp_all
qed

lemma tools_ok_set_policy:
  assumes "tools_ok st" "set_policy_tx name en a b now rb st = Inr (x, st')"
  shows "tools_ok st'"
proof (cases rule: set_policy_tx_cases [of name st en a b now rb])
  case absent
  with assms show ?thesis by simp
next
  case (refused e)
  with assms show ?thesis by simp
next
  case (revised r)
  let ?f = "\<lambda>r. r\<lparr>ax_enabled := en, ax_allowed_classes := a\<rparr>"
  have st': "st' = insert_revision name en a b now rb (st\<lparr>access_rows := update_where (\<lambda>r. ax_tool_name r = name) ?f (access_rows st)\<rparr>)"
    using revised(2) assms(2) by simp
  let ?rows = "update_where (\<lambda>r. ax_tool_name r = name) ?f (access_rows st)"
  have "map ax_tool_name ?rows = map ax_tool_name (access_rows st)" by (intro map_update_where) simp
  then have d: "distinct (map ax_tool_name ?rows)" using assms(1) by (simp add: tools_ok_def)
  have shape: "\<exists>y \<in> set (access_rows st). x = (if ax_tool_name y = name then ?f y else y)" if "x \<in> set ?rows" for x
    using that unfolding set_update_where by blast
  have policy: "ax_enabled x = en \<and> ax_allowed_classes x = a" if x: "x \<in> set ?rows" "ax_tool_name x = name" for x
  proof -
    from shape [OF x(1)] obtain y where "x = (if ax_tool_name y = name then ?f y else y)" by blast
    with x(2) show ?thesis by (cases "ax_tool_name y = name") simp_all
  qed
  have kept: "x \<in> set (access_rows st)" if x: "x \<in> set ?rows" "ax_tool_name x \<noteq> name" for x
  proof -
    from shape [OF x(1)] obtain y where "y \<in> set (access_rows st)" "x = (if ax_tool_name y = name then ?f y else y)" by blast
    with x(2) show ?thesis by (cases "ax_tool_name y = name") simp_all
  qed
  show ?thesis unfolding st' by (rule tools_ok_revision [OF assms(1) d policy kept])
qed

lemma tools_ok_set_policy_with_actor:
  "tools_ok st \<Longrightarrow> tools_ok (snd (set_policy_with_actor js name en cs b now rb st))"
proof -
  assume ok: "tools_ok st"
  have "tools_ok (snd (transaction (set_policy_tx name en (classes_to_string js cs) b now rb) st))"
    using ok by (rule transaction_invariant) (rule tools_ok_set_policy [OF ok])
  with ok show ?thesis by (simp add: set_policy_with_actor_def)
qed

lemma tools_ok_step: "tools_ok st \<Longrightarrow> tools_ok (tool_step js st a)"
proof (cases a)
  case (UpsertSeen seed now)
  assume ok: "tools_ok st"
  show ?thesis
  proof (cases "find_tool (sd_tool_name seed) st")
    case None
    have "tools_ok (upsert_seen js seed now st)"
      unfolding upsert_seen_def Let_def using None ok
      by (simp, intro tools_ok_revision) (auto simp: tools_ok_def find_tool_None image_iff)
    with UpsertSeen show ?thesis by simp
  next
    case (Some r)
    with UpsertSeen ok show ?thesis by (simp add: upsert_seen_def tools_ok_update)
  qed
next
  case (MarkRemoved name now)
  assume "tools_ok st"
  with MarkRemoved show ?thesis by (simp add: mark_removed_def Let_def tools_ok_update)
next
  case (SetPolicy name en cs b now rb)
  assume "tools_ok st"
  with SetPolicy show ?thesis by (simp add: tools_ok_set_policy_with_actor)
next
  case (RollbackPolicy name i b now)
  assume "tools_ok st"
  with RollbackPolicy show ?thesis
    by (simp add: rollback_policy_revision_def tools_ok_set_policy_with_actor split: option.splits)
next
  case (DeleteBySource source sid)
  assume "tools_ok st"
  with DeleteBySource show ?thesis
    by (auto simp: delete_by_source_def Let_def tools_ok_def distinct_map_filter list_all_iff policy_current_def revisions_of_def)
qed

interpretation tools: invariant_machine "tool_step js" tools_ok for js
  by unfold_locales (rule tools_ok_step)

text \<open>
  C29: After any sequence of registrations, removals, policy changes, rollbacks and deletions, the policy of every tool is the policy of its newest revision, and
  revisions are numbered from 1 without gaps, so every change of a policy in force is on record.
\<close>

theorem tool_policy_is_newest_revision:
  "tools_ok (foldl (tool_step js) \<lparr>access_rows = [], revision_rows = [], revision_seq = 0\<rparr> actions)"
  by (rule tools.run_inv) (simp add: tools_ok_def)

section \<open>Rollback\<close>

lemma latest_revision_length:
  assumes "tools_ok st"
  shows "latest_policy_revision_id st = int (length (revision_rows st))"
proof (cases "revision_rows st = []")
  case True
  then show ?thesis by (simp add: latest_policy_revision_id_def)
next
  case False
  let ?n = "length (revision_rows st)"
  have ids: "map rv_revision_id (revision_rows st) = map (\<lambda>n. int n + 1) [0..<?n]" using assms by (simp add: tools_ok_def)
  obtain s ss where s: "map rv_revision_id (revision_rows st) = s # ss" using False by (cases "revision_rows st") auto
  have "fold max ss s = Max (set (map rv_revision_id (revision_rows st)))" unfolding s by (rule Max.set_eq_fold [symmetric])
  also have "\<dots> = Max ((\<lambda>n. int n + 1) ` {0..<?n})" unfolding ids by simp
  also have "\<dots> = int ?n"
    using False by (intro Max_eqI) (auto intro!: image_eqI [of _ _ "?n - 1"] simp: of_nat_diff Suc_le_eq)
  finally show ?thesis by (simp add: latest_policy_revision_id_def s)
qed

text \<open>
  A rollback that reports success puts exactly the policy of the chosen revision in force, for a tool whose row can be read, as a new revision that is the
  latest of all and names the one it restores; the other tools keep their rows.
\<close>

theorem rollback_restores_revision:
  assumes "tools_ok st" "classes_roundtrip js" "rollback_policy_revision js name i b now st = (Inr True, st1)"
    "get_tool js name st = Some old"
  shows "\<exists>r cs new. r \<in> set (revision_rows st) \<and> rv_revision_id r = i \<and> rv_tool_name r = name \<and>
     classes_from_str js (rv_allowed_classes_json r) = Some cs \<and>
     get_tool js name st1 = Some (old\<lparr>ta_enabled := rv_enabled r, ta_allowed_classes := cs\<rparr>) \<and>
     revision_rows st1 = revision_rows st @ [new] \<and> rv_rollback_of new = Some i \<and>
     rv_revision_id new = latest_policy_revision_id st + 1 \<and> latest_policy_revision_id st1 = latest_policy_revision_id st + 1 \<and>
     (other = name \<or> find_tool other st1 = find_tool other st)"
proof -
  from assms(3) obtain r cs where r: "find (\<lambda>r. rv_revision_id r = i \<and> rv_tool_name r = name) (revision_rows st) = Some r"
    and cs: "classes_from_str js (rv_allowed_classes_json r) = Some cs"
    and set: "set_policy_with_actor js name (rv_enabled r) cs b now (Some i) st = (Inr True, st1)"
    by (auto simp: rollback_policy_revision_def split: option.splits)
  let ?a = "classes_to_string js cs" and ?f = "\<lambda>x. x\<lparr>ax_enabled := rv_enabled r, ax_allowed_classes := classes_to_string js cs\<rparr>"
  let ?st = "st\<lparr>access_rows := update_where (\<lambda>r. ax_tool_name r = name) ?f (access_rows st)\<rparr>"
  from set have tx: "set_policy_tx name (rv_enabled r) ?a b now (Some i) st = Inr (True, st1)"
    by (auto simp: set_policy_with_actor_def transaction_Inr_iff split: if_splits)
  then have st1: "st1 = insert_revision name (rv_enabled r) ?a b now (Some i) ?st"
    by (cases rule: set_policy_tx_cases [of name st "rv_enabled r" ?a b now "Some i"]) simp_all
  have ok1: "tools_ok st1" by (rule tools_ok_set_policy [OF assms(1) tx])
  have find1: "find_tool m st1 = map_option (\<lambda>x. if ax_tool_name x = name then ?f x else x) (find_tool m st)" for m
    using find_tool_update [of "\<lambda>x. ax_tool_name x = name" ?f m st] by (simp add: st1 find_tool_def)
  obtain x where x: "find_tool name st = Some x" "row_to_tool_access js x = Inr old"
    using assms(4) by (auto simp: get_tool_def split: option.splits sum.splits)
  have get: "get_tool js name st1 = Some (old\<lparr>ta_enabled := rv_enabled r, ta_allowed_classes := cs\<rparr>)"
    using find1 [of name] x find_tool_id [OF x(1)] assms(2)
    by (auto simp: get_tool_def row_to_tool_access_def classes_roundtrip_def split: option.splits)
  have others: "other = name \<or> find_tool other st1 = find_tool other st"
    using find1 [of other] find_tool_id [of other st] by (cases "find_tool other st") auto
  let ?new = "\<lparr>rv_revision_id = revision_seq st + 1, rv_tool_name = name, rv_enabled = rv_enabled r, rv_allowed_classes_json = ?a,
     rv_revised_by = b, rv_revised_at = now, rv_rollback_of = Some i\<rparr>"
  have new: "revision_rows st1 = revision_rows st @ [?new]" by (simp add: st1 insert_revision_def)
  have seq: "revision_seq st = latest_policy_revision_id st" using assms(1) latest_revision_length by (simp add: tools_ok_def)
  have latest: "latest_policy_revision_id st1 = latest_policy_revision_id st + 1"
    using latest_revision_length [OF ok1] latest_revision_length [OF assms(1)] new by simp
  have mem: "r \<in> set (revision_rows st) \<and> rv_revision_id r = i \<and> rv_tool_name r = name" using find_SomeD [OF r] by simp
  show ?thesis
    by (rule exI [of _ r], rule exI [of _ cs], rule exI [of _ ?new]) (simp add: mem cs get new seq latest others)
qed

section \<open>Registration\<close>

text \<open>Actions of the registration paths.\<close>

fun registers :: "tool_action \<Rightarrow> bool" where
  "registers (UpsertSeen seed now) \<longleftrightarrow> True"
| "registers (MarkRemoved name now) \<longleftrightarrow> True"
| "registers _ \<longleftrightarrow> False"

lemma registration_step:
  assumes "find_tool name st = Some r" "registers a"
  shows "\<exists>r'. find_tool name (tool_step js st a) = Some r' \<and> ax_enabled r' = ax_enabled r \<and>
     ax_allowed_classes r' = ax_allowed_classes r \<and> ax_first_seen_at r' = ax_first_seen_at r"
proof (cases a)
  case (UpsertSeen seed now)
  show ?thesis
  proof (cases "find_tool (sd_tool_name seed) st")
    case None
    then show ?thesis using UpsertSeen assms(1)
      by (simp add: upsert_seen_def Let_def find_tool_def find_append)
  next
    case (Some x)
    then show ?thesis using UpsertSeen assms(1) by (simp add: upsert_seen_def find_tool_update)
  qed
next
  case (MarkRemoved n now)
  with assms(1) show ?thesis by (simp add: mark_removed_def Let_def find_tool_update)
qed (use assms in simp_all)

text \<open>
  However often a tool is registered again or disappears, and whatever classes its registration proposes, the operator's policy of a tool that is in the table
  does not change.
\<close>

theorem registration_keeps_policy:
  assumes "find_tool name st = Some r" "list_all registers actions"
  shows "\<exists>r'. find_tool name (foldl (tool_step js) st actions) = Some r' \<and> ax_enabled r' = ax_enabled r \<and>
     ax_allowed_classes r' = ax_allowed_classes r \<and> ax_first_seen_at r' = ax_first_seen_at r"
  using assms
proof (induction actions arbitrary: st r)
  case (Cons a as)
  then obtain r1 where r1: "find_tool name (tool_step js st a) = Some r1" "ax_enabled r1 = ax_enabled r"
    "ax_allowed_classes r1 = ax_allowed_classes r" "ax_first_seen_at r1 = ax_first_seen_at r"
    using registration_step [of name st r a js] by auto
  from Cons.IH [OF r1(1)] Cons.prems(2) r1(2-4) show ?case by simp
qed simp

text \<open>An encoding of lists of classes that can be read back, for the examples.\<close>

definition write_classes :: "string list \<Rightarrow> string" where
  "write_classes cs = concat (map (\<lambda>c. concat (map (\<lambda>x. [CHR ''.'', x]) c) @ ''|'') cs)"

fun read_classes :: "string \<Rightarrow> string \<Rightarrow> string list option" where
  "read_classes acc [] = Some []"
| "read_classes acc [c] = (if c = CHR ''|'' then Some [rev acc] else None)"
| "read_classes acc (c # x # xs) = (if c = CHR ''|'' then map_option (Cons (rev acc)) (read_classes [] (x # xs))
     else read_classes (x # acc) xs)"

lemma read_class: "read_classes acc (concat (map (\<lambda>x. [CHR ''.'', x]) c) @ CHR ''|'' # rest) =
   map_option (Cons (rev acc @ c)) (read_classes [] rest)"
  by (induction c arbitrary: acc) (cases rest, simp_all)

lemma read_write_classes: "read_classes [] (write_classes cs) = Some cs"
  by (induction cs) (simp_all add: write_classes_def read_class)

definition sample_classes :: classes_json where
  "sample_classes = \<lparr>classes_to_string = write_classes, classes_from_str = read_classes []\<rparr>"

lemma sample_classes_roundtrip: "classes_roundtrip sample_classes"
  by (simp add: classes_roundtrip_def sample_classes_def read_write_classes)

definition sample_seed :: "string list \<Rightarrow> ToolAccessSeed" where
  "sample_seed cs = \<lparr>sd_tool_name = ''t'', sd_source = Mcp, sd_source_id = Some ''srv'', sd_description = None,
     sd_input_schema = None, sd_default_allowed_classes = cs\<rparr>"

definition revised_tools :: tool_access where
  "revised_tools = foldl (tool_step sample_classes) \<lparr>access_rows = [], revision_rows = [], revision_seq = 0\<rparr>
     [UpsertSeen (sample_seed [''Controller'']) 1, SetPolicy ''t'' False [] ''ops'' 2 None]"

lemma revised_tools_ok: "tools_ok revised_tools"
  unfolding revised_tools_def by (rule tools.run_inv) (simp add: tools_ok_def)

theorem registration_keeps_policy_witness:
  "map_option ax_enabled (find_tool ''t'' (foldl (tool_step sample_classes) revised_tools
     [MarkRemoved ''t'' 5, UpsertSeen (sample_seed [''Blocked'']) 6])) = Some False"
proof -
  let ?r = "the (find_tool ''t'' revised_tools)"
  have r: "find_tool ''t'' revised_tools = Some ?r" "\<not> ax_enabled ?r" by code_simp+
  from registration_keeps_policy [OF r(1), of "[MarkRemoved ''t'' 5, UpsertSeen (sample_seed [''Blocked'']) 6]" sample_classes] r(2)
  show ?thesis by auto
qed

theorem rollback_restores_revision_witness:
  "map_option (\<lambda>t. (ta_enabled t, ta_allowed_classes t))
     (get_tool sample_classes ''t'' (snd (rollback_policy_revision sample_classes ''t'' 1 ''ops'' 9 revised_tools))) =
   Some (True, [''Controller''])"
proof -
  let ?st1 = "snd (rollback_policy_revision sample_classes ''t'' 1 ''ops'' 9 revised_tools)"
  have rb: "rollback_policy_revision sample_classes ''t'' 1 ''ops'' 9 revised_tools = (Inr True, ?st1)" by code_simp
  have old: "get_tool sample_classes ''t'' revised_tools = Some (the (get_tool sample_classes ''t'' revised_tools))" by code_simp
  have "list_all (\<lambda>r. rv_revision_id r = 1 \<longrightarrow> rv_enabled r \<and>
      classes_from_str sample_classes (rv_allowed_classes_json r) = Some [''Controller'']) (revision_rows revised_tools)" by code_simp
  then have first: "rv_enabled r \<and> cs = [''Controller'']" if "r \<in> set (revision_rows revised_tools)" "rv_revision_id r = 1"
      "classes_from_str sample_classes (rv_allowed_classes_json r) = Some cs" for r cs
    using that by (simp add: list_all_iff)
  from rollback_restores_revision [OF revised_tools_ok sample_classes_roundtrip rb old, of "''t''"]
  obtain r cs where r: "r \<in> set (revision_rows revised_tools)" "rv_revision_id r = 1"
    "classes_from_str sample_classes (rv_allowed_classes_json r) = Some cs"
    and got: "get_tool sample_classes ''t'' ?st1 =
      Some ((the (get_tool sample_classes ''t'' revised_tools))\<lparr>ta_enabled := rv_enabled r, ta_allowed_classes := cs\<rparr>)"
    by blast
  with first [OF r] show ?thesis by simp
qed

end
