(* ===== verification/History_Budget.thy ===== *)
theory History_Budget
  imports Prelude
begin

text \<open>
  The sliding window over a chat history (\<open>crates/core/src/history_budget.rs\<close>): the token estimate, the backward walk
  that finds the oldest message to keep, the repair that avoids a leading reply, and the budget's configuration
  value. The row of \<open>config_general\<close> that holds the budget is an argument.
\<close>

section \<open>Definitions\<close>

definition MIN_HISTORY_TOKENS :: nat where "MIN_HISTORY_TOKENS = 1000"

definition DEFAULT_HISTORY_TOKENS :: nat where "DEFAULT_HISTORY_TOKENS = 8000"

definition MIN_KEPT_MESSAGES :: nat where "MIN_KEPT_MESSAGES = 4"

definition CHARS_PER_TOKEN :: nat where "CHARS_PER_TOKEN = 4"

datatype HistoryRole = User | Assistant

record HistoryMessage =
  hm_role :: HistoryRole
  hm_text :: string

record TruncationOutput =
  kept :: "HistoryMessage list"
  dropped_count :: nat
  kept_tokens_estimate :: nat

definition div_ceil :: "nat \<Rightarrow> nat \<Rightarrow> nat" where
  "div_ceil a b = a div b + (if a mod b = 0 then 0 else 1)"

definition estimate_tokens :: "string \<Rightarrow> nat" where
  "estimate_tokens txt = max (div_ceil (length (utf8_chars txt)) CHARS_PER_TOKEN) 1"

text \<open>The loop over \<open>messages.iter().enumerate().rev()\<close>, with \<open>tokens\<close> and \<open>cutoff_index\<close> as its state.\<close>

fun walk_back :: "nat \<Rightarrow> nat \<Rightarrow> (nat \<times> HistoryMessage) list \<Rightarrow> nat \<times> nat \<Rightarrow> nat \<times> nat" where
  "walk_back total_count budget [] (tokens, cutoff_index) = (tokens, cutoff_index)"
| "walk_back total_count budget ((i, msg) # rest) (tokens, cutoff_index) =
     (let msg_tokens = estimate_tokens (hm_text msg); kept_so_far = total_count - i in
      if budget < tokens + msg_tokens \<and> MIN_KEPT_MESSAGES < kept_so_far then (tokens, cutoff_index)
      else walk_back total_count budget rest (tokens + msg_tokens, i))"

definition truncate_to_budget :: "HistoryMessage list \<Rightarrow> nat \<Rightarrow> TruncationOutput" where
  "truncate_to_budget messages max_history_tokens =
     (if messages = [] then \<lparr>kept = [], dropped_count = 0, kept_tokens_estimate = 0\<rparr>
      else
       (let total_count = length messages;
            (tokens, cutoff_index) = walk_back total_count max_history_tokens (rev (enumerate 0 messages)) (0, total_count);
            (tokens, cutoff_index) =
              (if cutoff_index < total_count \<and> hm_role (messages ! cutoff_index) = Assistant
               then (tokens - estimate_tokens (hm_text (messages ! cutoff_index)), cutoff_index + 1)
               else (tokens, cutoff_index)) in
        \<lparr>kept = drop cutoff_index messages, dropped_count = cutoff_index, kept_tokens_estimate = tokens\<rparr>))"

definition load_max_history_tokens :: "int option \<Rightarrow> nat" where
  "load_max_history_tokens raw = (case raw of
      Some n \<Rightarrow> if 0 < n then max (as_u32 n) MIN_HISTORY_TOKENS else DEFAULT_HISTORY_TOKENS
    | None \<Rightarrow> DEFAULT_HISTORY_TOKENS)"

section \<open>The window\<close>

text \<open>The estimate of a window, and the windows that the policy admits.\<close>

definition window_tokens :: "HistoryMessage list \<Rightarrow> nat" where
  "window_tokens ms = sum_list (map (estimate_tokens \<circ> hm_text) ms)"

definition admits :: "nat \<Rightarrow> HistoryMessage list \<Rightarrow> bool" where
  "admits budget ms \<longleftrightarrow> window_tokens ms \<le> budget \<or> length ms \<le> MIN_KEPT_MESSAGES"

lemma window_tokens_drop:
  "i < length ms \<Longrightarrow> window_tokens (drop i ms) = estimate_tokens (hm_text (ms ! i)) + window_tokens (drop (Suc i) ms)"
  by (simp add: window_tokens_def Cons_nth_drop_Suc [symmetric])

lemma window_tokens_antitone: "i \<le> j \<Longrightarrow> window_tokens (drop j ms) \<le> window_tokens (drop i ms)"
proof (induction j)
  case (Suc j)
  have "window_tokens (drop (Suc j) ms) \<le> window_tokens (drop j ms)"
    by (cases "j < length ms") (simp_all add: window_tokens_drop)
  with Suc show ?case by (cases "i = Suc j") auto
qed simp

lemma admits_drop_mono: "admits budget (drop i ms) \<Longrightarrow> i \<le> j \<Longrightarrow> admits budget (drop j ms)"
  using window_tokens_antitone [of i j ms] by (auto simp: admits_def)

text \<open>The longest admitted window starts at this index.\<close>

definition window_start :: "nat \<Rightarrow> HistoryMessage list \<Rightarrow> nat" where
  "window_start budget ms = (LEAST k. admits budget (drop k ms))"

lemma window_start_admits: "admits budget (drop (window_start budget ms) ms)"
  unfolding window_start_def by (rule LeastI [of _ "length ms"]) (simp add: admits_def)

lemma window_start_le: "admits budget (drop k ms) \<Longrightarrow> window_start budget ms \<le> k"
  unfolding window_start_def by (rule Least_le)

lemma window_start_eqI:
  assumes "admits budget (drop k ms)" "k = 0 \<or> \<not> admits budget (drop (k - 1) ms)"
  shows "window_start budget ms = k"
proof (rule antisym [OF window_start_le [OF assms(1)]], rule ccontr)
  assume "\<not> k \<le> window_start budget ms"
  then have "window_start budget ms \<le> k - 1" "k \<noteq> 0" by auto
  with assms(2) admits_drop_mono [OF window_start_admits] show False by blast
qed

lemma rev_enumerate_take:
  "n < length ms \<Longrightarrow> rev (enumerate 0 (take (Suc n) ms)) = (n, ms ! n) # rev (enumerate 0 (take n ms))"
  by (simp add: take_Suc_conv_app_nth enumerate_append_eq)

lemma walk_back_window:
  assumes "n \<le> length ms" "admits budget (drop n ms)"
  shows "walk_back (length ms) budget (rev (enumerate 0 (take n ms))) (window_tokens (drop n ms), n) =
     (window_tokens (drop (window_start budget ms) ms), window_start budget ms)"
  using assms
proof (induction n)
  case 0
  then have "window_start budget ms = 0" by (intro window_start_eqI) simp_all
  then show ?case by simp
next
  case (Suc n)
  have adm: "admits budget (drop n ms) \<longleftrightarrow>
      \<not> (budget < window_tokens (drop (Suc n) ms) + estimate_tokens (hm_text (ms ! n)) \<and> MIN_KEPT_MESSAGES < length ms - n)"
    using Suc.prems(1) by (auto simp: admits_def window_tokens_drop not_less)
  show ?case
  proof (cases "admits budget (drop n ms)")
    case True
    with Suc adm show ?thesis
      by (auto simp: rev_enumerate_take Let_def window_tokens_drop add.commute)
  next
    case False
    with Suc.prems have "window_start budget ms = Suc n" by (intro window_start_eqI) simp_all
    with False Suc.prems adm show ?thesis by (simp add: rev_enumerate_take Let_def)
  qed
qed

text \<open>Where the kept messages start after the repair.\<close>

definition kept_start :: "nat \<Rightarrow> HistoryMessage list \<Rightarrow> nat" where
  "kept_start budget ms = (let k = window_start budget ms in
     if k < length ms \<and> hm_role (ms ! k) = Assistant then Suc k else k)"

lemma truncate_eq:
  "truncate_to_budget ms budget = \<lparr>kept = drop (kept_start budget ms) ms, dropped_count = kept_start budget ms,
     kept_tokens_estimate = window_tokens (drop (kept_start budget ms) ms)\<rparr>"
proof (cases "ms = []")
  case True
  then have "window_start budget ms = 0" by (intro window_start_eqI) (simp_all add: admits_def)
  with True show ?thesis by (simp add: truncate_to_budget_def kept_start_def window_tokens_def)
next
  case False
  have "walk_back (length ms) budget (rev (enumerate 0 ms)) (0, length ms) =
      (window_tokens (drop (window_start budget ms) ms), window_start budget ms)"
    using walk_back_window [of "length ms" ms budget] by (simp add: admits_def window_tokens_def)
  with False show ?thesis
    by (simp add: truncate_to_budget_def kept_start_def Let_def window_tokens_drop)
qed

text \<open>
  C32: The window is the longest suffix of the history that fits the budget or has at most four messages, less its first
  message when that is a reply; the reported numbers are the length of the dropped prefix and the estimate of what is kept.
\<close>

theorem history_window_exact:
  "\<exists>w. (\<exists>old. messages = old @ w) \<and> admits budget w \<and>
     (\<forall>old' w'. messages = old' @ w' \<and> admits budget w' \<longrightarrow> length w' \<le> length w) \<and>
     kept (truncate_to_budget messages budget) = (if w \<noteq> [] \<and> hm_role (hd w) = Assistant then tl w else w) \<and>
     dropped_count (truncate_to_budget messages budget) = length messages - length (kept (truncate_to_budget messages budget)) \<and>
     kept_tokens_estimate (truncate_to_budget messages budget) = window_tokens (kept (truncate_to_budget messages budget))"
proof -
  let ?k = "window_start budget messages"
  let ?w = "drop ?k messages"
  have le: "?k \<le> length messages" by (rule window_start_le) (simp add: admits_def)
  have longest: "length w' \<le> length ?w" if "messages = old' @ w' \<and> admits budget w'" for old' w'
  proof -
    have "?k \<le> length old'" using that by (intro window_start_le) simp
    with that show ?thesis by simp
  qed
  have kept: "kept (truncate_to_budget messages budget) = (if ?w \<noteq> [] \<and> hm_role (hd ?w) = Assistant then tl ?w else ?w)"
    by (auto simp: truncate_eq kept_start_def Let_def hd_drop_conv_nth drop_Suc tl_drop)
  have "kept_start budget messages \<le> length messages"
    using le by (auto simp: kept_start_def Let_def)
  then have "dropped_count (truncate_to_budget messages budget) = length messages - length (kept (truncate_to_budget messages budget))"
      "kept_tokens_estimate (truncate_to_budget messages budget) = window_tokens (kept (truncate_to_budget messages budget))"
    by (simp_all add: truncate_eq)
  with kept longest window_start_admits [of budget messages] show ?thesis
    by (intro exI [of _ ?w] conjI allI impI exI [of _ "take ?k messages"]) simp_all
qed

theorem history_window_exact_witness:
  "\<exists>w. admits 9 w \<and> kept (truncate_to_budget (replicate 6 \<lparr>hm_role = Assistant, hm_text = ''hello''\<rparr>) 9) =
     (if w \<noteq> [] \<and> hm_role (hd w) = Assistant then tl w else w)"
  using history_window_exact [of "replicate 6 \<lparr>hm_role = Assistant, hm_text = ''hello''\<rparr>" 9] by blast

section \<open>The promises of the policy\<close>

lemma admits_budget_mono: "admits b ms \<Longrightarrow> b \<le> b' \<Longrightarrow> admits b' ms"
  by (auto simp: admits_def)

lemma window_start_antitone: "b \<le> b' \<Longrightarrow> window_start b' ms \<le> window_start b ms"
  by (rule window_start_le) (rule admits_budget_mono [OF window_start_admits])

lemma kept_start_antitone:
  assumes "b \<le> b'"
  shows "kept_start b' ms \<le> kept_start b ms"
proof (cases "window_start b' ms = window_start b ms")
  case True
  then show ?thesis by (simp add: kept_start_def)
next
  case False
  with window_start_antitone [OF assms, of ms] have "Suc (window_start b' ms) \<le> window_start b ms" by simp
  then show ?thesis by (auto simp: kept_start_def Let_def)
qed

lemma kept_start_recent: "min MIN_KEPT_MESSAGES (length ms) \<le> Suc (length (drop (kept_start b ms) ms))"
proof -
  have "window_start b ms \<le> length ms - MIN_KEPT_MESSAGES" by (rule window_start_le) (auto simp: admits_def)
  then have "kept_start b ms \<le> Suc (length ms - MIN_KEPT_MESSAGES)" by (auto simp: kept_start_def Let_def)
  then show ?thesis by (simp only: length_drop)
qed

text \<open>
  Monotone in the budget: a larger budget keeps every message that a smaller one keeps, and at every budget all but at most one of the four
  most recent messages survive, and a window of more than four messages fits the budget.
\<close>

theorem larger_budget_keeps_more:
  assumes "b \<le> b'"
  shows "(\<exists>older. kept (truncate_to_budget messages b') = older @ kept (truncate_to_budget messages b)) \<and>
     min MIN_KEPT_MESSAGES (length messages) \<le> Suc (length (kept (truncate_to_budget messages b))) \<and>
     admits b (kept (truncate_to_budget messages b))"
proof -
  let ?i = "kept_start b' messages" and ?j = "kept_start b messages"
  have "drop ?i messages = take (?j - ?i) (drop ?i messages) @ drop ?j messages"
    using kept_start_antitone [OF assms, of messages] append_take_drop_id [of "?j - ?i" "drop ?i messages"] by simp
  moreover have "window_start b messages \<le> ?j" by (simp add: kept_start_def Let_def)
  then have "admits b (drop ?j messages)" by (rule admits_drop_mono [OF window_start_admits])
  ultimately show ?thesis using kept_start_recent by (auto simp: truncate_eq)
qed

theorem larger_budget_keeps_more_witness:
  "\<exists>older. kept (truncate_to_budget (replicate 6 \<lparr>hm_role = User, hm_text = ''hello''\<rparr>) 100) =
     older @ kept (truncate_to_budget (replicate 6 \<lparr>hm_role = User, hm_text = ''hello''\<rparr>) 9)"
  using larger_budget_keeps_more [of 9 100] by simp

text \<open>
  Pair coherence: in a history in which every reply follows a user message, every kept reply has the user message it
  follows kept too.
\<close>

definition replies_paired :: "HistoryMessage list \<Rightarrow> bool" where
  "replies_paired ms \<longleftrightarrow> (\<forall>i < length ms. hm_role (ms ! i) = Assistant \<longrightarrow> 0 < i \<and> hm_role (ms ! (i - 1)) = User)"

theorem paired_history_stays_paired:
  assumes "replies_paired messages"
  shows "replies_paired (kept (truncate_to_budget messages budget))"
proof -
  let ?k = "window_start budget messages" and ?j = "kept_start budget messages"
  have first: "hm_role (messages ! ?j) \<noteq> Assistant" if "?j < length messages"
  proof
    assume a: "hm_role (messages ! ?j) = Assistant"
    with that have j: "?j = Suc ?k" "hm_role (messages ! ?k) = Assistant"
      by (auto simp: kept_start_def Let_def split: if_splits)
    from assms a that have "hm_role (messages ! (?j - 1)) = User" unfolding replies_paired_def by blast
    with j show False by simp
  qed
  have "0 < i \<and> hm_role (drop ?j messages ! (i - 1)) = User"
    if i: "i < length (drop ?j messages)" "hm_role (drop ?j messages ! i) = Assistant" for i
  proof (cases i)
    case 0
    with i first show ?thesis by simp
  next
    case (Suc i')
    with i have "?j + i < length messages" "hm_role (messages ! (?j + i)) = Assistant" by simp_all
    with assms have "hm_role (messages ! (?j + i - 1)) = User" unfolding replies_paired_def by blast
    with i Suc show ?thesis by simp
  qed
  then show ?thesis by (simp add: truncate_eq replies_paired_def)
qed

theorem paired_history_stays_paired_witness:
  "kept (truncate_to_budget (concat (replicate 3 [\<lparr>hm_role = User, hm_text = ''hi''\<rparr>, \<lparr>hm_role = Assistant, hm_text = ''ok''\<rparr>])) 5) =
     concat (replicate 2 [\<lparr>hm_role = User, hm_text = ''hi''\<rparr>, \<lparr>hm_role = Assistant, hm_text = ''ok''\<rparr>]) \<and>
   replies_paired (kept (truncate_to_budget
     (concat (replicate 3 [\<lparr>hm_role = User, hm_text = ''hi''\<rparr>, \<lparr>hm_role = Assistant, hm_text = ''ok''\<rparr>])) 5))"
proof -
  let ?ms = "concat (replicate 3 [\<lparr>hm_role = User, hm_text = ''hi''\<rparr>, \<lparr>hm_role = Assistant, hm_text = ''ok''\<rparr>])"
  have "replies_paired ?ms" by (simp add: replies_paired_def numeral_3_eq_3 less_Suc_eq)
  from paired_history_stays_paired [OF this] show ?thesis
    by (intro conjI) (code_simp, simp)
qed

lemma length_utf8_chars_ascii: "length (utf8_chars (replicate n CHR ''a'')) = n"
proof (induction n)
  case (Suc n)
  have "takeWhile utf8_cont (replicate n CHR ''a'') = []" "dropWhile utf8_cont (replicate n CHR ''a'') = replicate n CHR ''a''"
    by (cases n; simp add: utf8_cont_def)+
  with Suc show ?case by simp
qed simp

lemma estimate_tokens_ascii: "estimate_tokens (replicate (4 * n) CHR ''a'') = max n 1"
  by (simp add: estimate_tokens_def length_utf8_chars_ascii div_ceil_def CHARS_PER_TOKEN_def)

text \<open>
  The repair looks at one message only: at every budget there is a history, with a question first and then several replies in a row, whose
  window starts with a reply although the question before it was dropped.
\<close>

theorem consecutive_replies_leave_orphan:
  "\<exists>messages. hm_role (hd messages) = User \<and> dropped_count (truncate_to_budget messages budget) \<noteq> 0 \<and>
     (\<exists>reply rest. kept (truncate_to_budget messages budget) = reply # rest \<and> hm_role reply = Assistant)"
proof -
  let ?reply = "\<lparr>hm_role = Assistant, hm_text = replicate (4 * Suc budget) CHR ''a''\<rparr>"
  let ?ms = "\<lparr>hm_role = User, hm_text = ''hi''\<rparr> # replicate 4 ?reply"
  have "estimate_tokens (hm_text ?reply) = Suc budget"
    using estimate_tokens_ascii [of "Suc budget"] by (simp del: mult_Suc_right replicate_Suc)
  then have "\<not> admits budget ?ms"
    by (simp add: admits_def MIN_KEPT_MESSAGES_def window_tokens_def sum_list_replicate not_le
        trans_less_add2 del: replicate_Suc)
  then have "window_start budget ?ms = 1"
    by (intro window_start_eqI) (simp_all add: admits_def MIN_KEPT_MESSAGES_def)
  then have "kept_start budget ?ms = 2"
    by (simp add: kept_start_def)
  then have "truncate_to_budget ?ms budget = \<lparr>kept = replicate 3 ?reply, dropped_count = 2,
      kept_tokens_estimate = window_tokens (replicate 3 ?reply)\<rparr>"
    by (simp add: truncate_eq)
  moreover have "replicate 3 ?reply = ?reply # replicate 2 ?reply" by (simp add: numeral_3_eq_3 numeral_2_eq_2)
  ultimately show ?thesis by (intro exI [of _ ?ms]) simp
qed

end
