(* ===== verification/Event_Kind.thy ===== *)
theory Event_Kind
  imports Prelude
begin

text \<open>
  The kinds of event (\<open>EventKind\<close> in \<open>crates/core/src/events.rs\<close>) and their wire form. Parsing is total:
  a kind this version does not know becomes \<open>Other\<close>, so the wire form of a kind reads back as that
  kind, but an unknown kind string does not read back as itself.
\<close>

section \<open>Event kinds\<close>

datatype EventKind =
    UserMsg | ModelTurn | ToolUse | ToolResult | Interrupt | Resume | Approval
    | TransportReviewDecision | EffectCommitted | Wakeup | AlertFired | AlertRenotified
    | AlertAcked | AlertResolved | AlertSnoozed | IncidentOpened | IncidentClosed
    | ColdContactArrived | IdentityResolutionConflict | TrustChanged | VoiceSessionStarted
    | VoiceSessionEnded | AudioInChunk | VadSpeechStarted | VadSpeechEnded | SttPartial | SttFinal
    | TurnUserEnded | LlmToken | LlmResponseFinal | LlmCancelled | TtsFirstAudio | TtsAudioChunk
    | TtsEnded | InterruptStarted | InterruptRescinded | InterruptConfirmed
    | ResearchProgressUpdated | CardOpened | CardProgressed | CardClosed | SubagentStarted
    | SubagentCompleted | SkillCreated | SkillVersionAdded | SkillPromoted | SkillArchived
    | SkillInvoked | SkillWriteRejected | Other

primrec EventKind_as_str :: "EventKind \<Rightarrow> string" where
  "EventKind_as_str UserMsg = ''user_msg''"
| "EventKind_as_str ModelTurn = ''model_turn''"
| "EventKind_as_str ToolUse = ''tool_use''"
| "EventKind_as_str ToolResult = ''tool_result''"
| "EventKind_as_str Interrupt = ''interrupt''"
| "EventKind_as_str Resume = ''resume''"
| "EventKind_as_str Approval = ''approval''"
| "EventKind_as_str TransportReviewDecision = ''transport_review_decision''"
| "EventKind_as_str EffectCommitted = ''effect_committed''"
| "EventKind_as_str Wakeup = ''wakeup''"
| "EventKind_as_str AlertFired = ''alert_fired''"
| "EventKind_as_str AlertRenotified = ''alert_renotified''"
| "EventKind_as_str AlertAcked = ''alert_acked''"
| "EventKind_as_str AlertResolved = ''alert_resolved''"
| "EventKind_as_str AlertSnoozed = ''alert_snoozed''"
| "EventKind_as_str IncidentOpened = ''incident_opened''"
| "EventKind_as_str IncidentClosed = ''incident_closed''"
| "EventKind_as_str ColdContactArrived = ''cold_contact_arrived''"
| "EventKind_as_str IdentityResolutionConflict = ''identity_resolution_conflict''"
| "EventKind_as_str TrustChanged = ''trust_changed''"
| "EventKind_as_str VoiceSessionStarted = ''voice.session_started''"
| "EventKind_as_str VoiceSessionEnded = ''voice.session_ended''"
| "EventKind_as_str AudioInChunk = ''audio.in_chunk''"
| "EventKind_as_str VadSpeechStarted = ''vad.speech_started''"
| "EventKind_as_str VadSpeechEnded = ''vad.speech_ended''"
| "EventKind_as_str SttPartial = ''stt.partial''"
| "EventKind_as_str SttFinal = ''stt.final''"
| "EventKind_as_str TurnUserEnded = ''turn.user_ended''"
| "EventKind_as_str LlmToken = ''llm.token''"
| "EventKind_as_str LlmResponseFinal = ''llm.response_final''"
| "EventKind_as_str LlmCancelled = ''llm.cancelled''"
| "EventKind_as_str TtsFirstAudio = ''tts.first_audio''"
| "EventKind_as_str TtsAudioChunk = ''tts.audio_chunk''"
| "EventKind_as_str TtsEnded = ''tts.ended''"
| "EventKind_as_str InterruptStarted = ''interrupt.started''"
| "EventKind_as_str InterruptRescinded = ''interrupt.rescinded''"
| "EventKind_as_str InterruptConfirmed = ''interrupt.confirmed''"
| "EventKind_as_str ResearchProgressUpdated = ''research_progress_updated''"
| "EventKind_as_str CardOpened = ''card.opened''"
| "EventKind_as_str CardProgressed = ''card.progressed''"
| "EventKind_as_str CardClosed = ''card.closed''"
| "EventKind_as_str SubagentStarted = ''subagent.started''"
| "EventKind_as_str SubagentCompleted = ''subagent.completed''"
| "EventKind_as_str SkillCreated = ''skill.created''"
| "EventKind_as_str SkillVersionAdded = ''skill.version_added''"
| "EventKind_as_str SkillPromoted = ''skill.promoted''"
| "EventKind_as_str SkillArchived = ''skill.archived''"
| "EventKind_as_str SkillInvoked = ''skill.invoked''"
| "EventKind_as_str SkillWriteRejected = ''skill.write_rejected''"
| "EventKind_as_str Other = ''other''"

definition EventKind_parse :: "string \<Rightarrow> EventKind" where
  "EventKind_parse s = (
     if s = ''user_msg'' then UserMsg
     else if s = ''model_turn'' then ModelTurn
     else if s = ''tool_use'' then ToolUse
     else if s = ''tool_result'' then ToolResult
     else if s = ''interrupt'' then Interrupt
     else if s = ''resume'' then Resume
     else if s = ''approval'' then Approval
     else if s = ''transport_review_decision'' then TransportReviewDecision
     else if s = ''effect_committed'' then EffectCommitted
     else if s = ''wakeup'' then Wakeup
     else if s = ''alert_fired'' then AlertFired
     else if s = ''alert_renotified'' then AlertRenotified
     else if s = ''alert_acked'' then AlertAcked
     else if s = ''alert_resolved'' then AlertResolved
     else if s = ''alert_snoozed'' then AlertSnoozed
     else if s = ''incident_opened'' then IncidentOpened
     else if s = ''incident_closed'' then IncidentClosed
     else if s = ''cold_contact_arrived'' then ColdContactArrived
     else if s = ''identity_resolution_conflict'' then IdentityResolutionConflict
     else if s = ''trust_changed'' then TrustChanged
     else if s = ''voice.session_started'' then VoiceSessionStarted
     else if s = ''voice.session_ended'' then VoiceSessionEnded
     else if s = ''audio.in_chunk'' then AudioInChunk
     else if s = ''vad.speech_started'' then VadSpeechStarted
     else if s = ''vad.speech_ended'' then VadSpeechEnded
     else if s = ''stt.partial'' then SttPartial
     else if s = ''stt.final'' then SttFinal
     else if s = ''turn.user_ended'' then TurnUserEnded
     else if s = ''llm.token'' then LlmToken
     else if s = ''llm.response_final'' then LlmResponseFinal
     else if s = ''llm.cancelled'' then LlmCancelled
     else if s = ''tts.first_audio'' then TtsFirstAudio
     else if s = ''tts.audio_chunk'' then TtsAudioChunk
     else if s = ''tts.ended'' then TtsEnded
     else if s = ''interrupt.started'' then InterruptStarted
     else if s = ''interrupt.rescinded'' then InterruptRescinded
     else if s = ''interrupt.confirmed'' then InterruptConfirmed
     else if s = ''research_progress_updated'' then ResearchProgressUpdated
     else if s = ''card.opened'' then CardOpened
     else if s = ''card.progressed'' then CardProgressed
     else if s = ''card.closed'' then CardClosed
     else if s = ''subagent.started'' then SubagentStarted
     else if s = ''subagent.completed'' then SubagentCompleted
     else if s = ''skill.created'' then SkillCreated
     else if s = ''skill.version_added'' then SkillVersionAdded
     else if s = ''skill.promoted'' then SkillPromoted
     else if s = ''skill.archived'' then SkillArchived
     else if s = ''skill.invoked'' then SkillInvoked
     else if s = ''skill.write_rejected'' then SkillWriteRejected
     else Other)"

lemma EventKind_parse_as_str [simp]: "EventKind_parse (EventKind_as_str k) = k"
  by (cases k) (simp_all add: EventKind_parse_def)

lemma EventKind_as_str_inj: "EventKind_as_str k = EventKind_as_str k' \<Longrightarrow> k = k'"
  by (metis EventKind_parse_as_str)

lemma EventKind_as_str_nul_free: "nul_free (EventKind_as_str k)"
  by (cases k) (simp_all add: nul_free_def)

text \<open>A kind string that this version does not know reads back as \<open>other\<close>.\<close>

lemma EventKind_parse_cases: "EventKind_as_str (EventKind_parse s) = s \<or> EventKind_parse s = Other"
proof -
  have step: "(c \<Longrightarrow> P x) \<Longrightarrow> P y \<Longrightarrow> P (if c then x else y)"
    for P :: "EventKind \<Rightarrow> bool" and c x y by simp
  show ?thesis
    unfolding EventKind_parse_def
    by (rule step [where P = "\<lambda>k. EventKind_as_str k = s \<or> k = Other"], simp)+ simp
qed

lemma EventKind_as_str_parse:
  "EventKind_as_str (EventKind_parse s) = (if s \<in> range EventKind_as_str then s else ''other'')"
proof (cases "s \<in> range EventKind_as_str")
  case True
  then show ?thesis by auto
next
  case False
  then have "EventKind_as_str (EventKind_parse s) \<noteq> s" by (metis rangeI)
  with EventKind_parse_cases [of s] False show ?thesis by simp
qed

end
