(* ===== verification/Events.thy ===== *)
theory Events
  imports Db Event_Kind "HOL-Library.Sublist"
begin

text \<open>
  Events and their payloads (\<open>crates/core/src/events.rs\<close>, first part): event
  records and pending events, the versioned payload envelope, the tool payloads, and
  \<open>enforce_tool_pairing\<close>, which gives sequence numbers to a batch and synthesises a cancelled
  \<open>tool_result\<close> for every \<open>tool_use\<close> that has none.

  MessagePack (\<open>rmp_serde\<close>) is third-party code. Where a typed payload is encoded or decoded the
  encoder and decoder are parameters, gathered in the record \<open>msgpack\<close>; what the code relies on is
  \<open>msgpack_roundtrip\<close>: decoding an encoded \<open>tool_result\<close> gives it back.
\<close>

section \<open>Records\<close>

record EventRecord =
  conversation_id :: string
  seq :: int
  kind :: EventKind
  payload :: string
  committed_at :: int
  actor :: "string option"

text \<open>An event before \<open>commit_turn\<close> gives it a sequence number.\<close>

record PendingEvent =
  pe_kind :: EventKind
  pe_payload :: string
  pe_actor :: "string option"

text \<open>A JSON value is carried as its text; nothing in the event log inspects it.\<close>

record ToolUsePayload =
  tu_ordinal :: nat
  tu_tool_name :: string
  tu_args_json :: string

record ToolResultPayload =
  tr_ordinal :: nat
  tr_outcome :: "string + string"

record msgpack =
  from_tool_use :: "string \<Rightarrow> ToolUsePayload option"
  from_tool_result :: "string \<Rightarrow> ToolResultPayload option"
  to_tool_result :: "ToolResultPayload \<Rightarrow> string option"

definition msgpack_roundtrip :: "msgpack \<Rightarrow> bool" where
  "msgpack_roundtrip mp \<longleftrightarrow>
     (\<forall>p. \<exists>b. to_tool_result mp p = Some b \<and> from_tool_result mp b = Some p)"

section \<open>The versioned payload envelope\<close>

definition VERSIONED_PAYLOAD_MAGIC :: string where
  "VERSIONED_PAYLOAD_MAGIC = ''EXECLAW-EVENT'' @ [CHR 0x00]"

definition EventPayloadSchemaId_current :: "EventKind \<Rightarrow> string" where
  "EventPayloadSchemaId_current k = ''execlaw.event_payload.v1''"

definition EventPayloadSchemaId_legacy :: "EventKind \<Rightarrow> string" where
  "EventPayloadSchemaId_legacy k = ''execlaw.event_payload.legacy''"

definition encode_versioned_payload ::
  "('p \<Rightarrow> string option) \<Rightarrow> EventKind \<Rightarrow> 'p \<Rightarrow> DbError + string" where
  "encode_versioned_payload to_vec_named k p = (case to_vec_named p of
      None \<Rightarrow> Inl (Serde ''encoding event payload'')
    | Some body \<Rightarrow>
        (let schema_bytes = EventPayloadSchemaId_current k in
         if length schema_bytes > 65535 then Inl (Serde ''event payload schema id is too long'')
         else Inr (VERSIONED_PAYLOAD_MAGIC @ le_bytes 2 (int (length schema_bytes)) @ schema_bytes @ body)))"

definition decode_versioned_payload :: "EventKind \<Rightarrow> string \<Rightarrow> DbError + string \<times> string" where
  "decode_versioned_payload k p =
     (if \<not> starts_with p VERSIONED_PAYLOAD_MAGIC then Inr (EventPayloadSchemaId_legacy k, p)
      else let header = length VERSIONED_PAYLOAD_MAGIC in
        if length p < header + 2 then Inl (Serde ''truncated event payload schema header'')
        else let schema_len = nat (of_le_bytes (take 2 (drop header p)));
                 body_start = header + 2 + schema_len in
          if body_start > length p then Inl (Serde ''truncated event payload schema id'')
          else let schema = take schema_len (drop (header + 2) p);
                   expected = EventPayloadSchemaId_current k in
            if \<not> utf8_valid schema then Inl (Serde ''event payload schema id is not UTF-8'')
            else if schema \<noteq> expected then Inl (Serde ''unsupported required event payload schema'')
            else Inr (expected, drop body_start p))"

definition decode_payload_bytes ::
  "(string \<Rightarrow> 'p option) \<Rightarrow> EventKind \<Rightarrow> string \<Rightarrow> DbError + 'p" where
  "decode_payload_bytes from_slice k p = (case decode_versioned_payload k p of
      Inl e \<Rightarrow> Inl e
    | Inr (schema, body) \<Rightarrow> (case from_slice body of
          None \<Rightarrow> Inl (Serde ''decoding event payload'')
        | Some v \<Rightarrow> Inr v))"

text \<open>\<open>EventRecord::new\<close>, \<open>EventRecord::payload_schema_id\<close> and \<open>PendingEvent::encode\<close>.\<close>

definition EventRecord_new ::
  "('p \<Rightarrow> string option) \<Rightarrow> int \<Rightarrow> string \<Rightarrow> int \<Rightarrow> EventKind \<Rightarrow> 'p \<Rightarrow> string option \<Rightarrow> DbError + EventRecord" where
  "EventRecord_new to_vec_named now c s k p a = (case encode_versioned_payload to_vec_named k p of
      Inl e \<Rightarrow> Inl e
    | Inr bytes \<Rightarrow> Inr \<lparr>conversation_id = c, seq = s, kind = k, payload = bytes, committed_at = now, actor = a\<rparr>)"

definition payload_schema_id :: "EventRecord \<Rightarrow> DbError + string" where
  "payload_schema_id ev = (case decode_versioned_payload (kind ev) (payload ev) of
      Inl e \<Rightarrow> Inl e | Inr (schema, body) \<Rightarrow> Inr schema)"

definition PendingEvent_encode ::
  "('p \<Rightarrow> string option) \<Rightarrow> EventKind \<Rightarrow> 'p \<Rightarrow> string option \<Rightarrow> DbError + PendingEvent" where
  "PendingEvent_encode to_vec_named k p a = (case encode_versioned_payload to_vec_named k p of
      Inl e \<Rightarrow> Inl e
    | Inr bytes \<Rightarrow> Inr \<lparr>pe_kind = k, pe_payload = bytes, pe_actor = a\<rparr>)"

lemmas envelope_defs = VERSIONED_PAYLOAD_MAGIC_def EventPayloadSchemaId_current_def
  EventPayloadSchemaId_legacy_def encode_versioned_payload_def decode_versioned_payload_def

lemma schema_id_valid:
  "length (EventPayloadSchemaId_current k) = 24" "utf8_valid (EventPayloadSchemaId_current k)"
  by (simp_all add: EventPayloadSchemaId_current_def utf8_valid_ascii byte_in_def)

lemma decode_encoded_envelope:
  "decode_versioned_payload k (VERSIONED_PAYLOAD_MAGIC @
     le_bytes 2 (int (length (EventPayloadSchemaId_current k))) @ EventPayloadSchemaId_current k @ body)
   = Inr (EventPayloadSchemaId_current k, body)"
proof -
  have "of_le_bytes (le_bytes 2 24) = 24" by (simp add: of_le_bytes_le_bytes)
  then show ?thesis
    using schema_id_valid [of k] by (simp add: decode_versioned_payload_def starts_with_iff Let_def)
qed

lemma encode_decode_envelope:
  "encode_versioned_payload to_vec_named k p = Inr bytes \<Longrightarrow>
   \<exists>body. to_vec_named p = Some body \<and>
          decode_versioned_payload k bytes = Inr (EventPayloadSchemaId_current k, body)"
  by (auto simp: encode_versioned_payload_def decode_encoded_envelope Let_def
      split: option.splits if_splits)

lemma encode_total: "to_vec_named p = Some body \<Longrightarrow> \<exists>bytes. encode_versioned_payload to_vec_named k p = Inr bytes"
  by (simp add: encode_versioned_payload_def schema_id_valid)

lemma decode_encode_payload:
  assumes "encode_versioned_payload to_vec_named k p = Inr bytes"
    and "\<And>b. to_vec_named p = Some b \<Longrightarrow> from_slice b = Some p"
  shows "decode_payload_bytes from_slice k bytes = Inr p"
  using encode_decode_envelope [OF assms(1)] assms(2) by (auto simp: decode_payload_bytes_def)

section \<open>Pairing tool calls with their results\<close>

text \<open>The ordinals of the \<open>tool_result\<close> events of a batch.\<close>

fun result_ordinals :: "msgpack \<Rightarrow> PendingEvent list \<Rightarrow> DbError + nat list" where
  "result_ordinals mp [] = Inr []"
| "result_ordinals mp (ev # evs) =
     (if pe_kind ev = ToolResult then
        (case decode_payload_bytes (from_tool_result mp) (pe_kind ev) (pe_payload ev) of
           Inl e \<Rightarrow> Inl (Serde ''decoding tool_result'')
         | Inr decoded \<Rightarrow> (case result_ordinals mp evs of
               Inl e \<Rightarrow> Inl e | Inr os \<Rightarrow> Inr (tr_ordinal decoded # os)))
      else result_ordinals mp evs)"

definition cancelled_result :: "nat \<Rightarrow> ToolResultPayload" where
  "cancelled_result n = \<lparr>tr_ordinal = n,
     tr_outcome = Inl (''cancelled: no tool_result in same commit for ordinal '' @ show_nat n)\<rparr>"

definition materialize :: "string \<Rightarrow> int \<Rightarrow> int \<Rightarrow> PendingEvent \<Rightarrow> EventRecord" where
  "materialize c now s ev = \<lparr>conversation_id = c, seq = s, kind = pe_kind ev, payload = pe_payload ev,
     committed_at = now, actor = pe_actor ev\<rparr>"

text \<open>The loop that writes the batch out, from the next sequence number on.\<close>

fun pair_events ::
  "msgpack \<Rightarrow> string \<Rightarrow> int \<Rightarrow> nat list \<Rightarrow> int \<Rightarrow> PendingEvent list \<Rightarrow> DbError + EventRecord list" where
  "pair_events mp c now results next_seq [] = Inr []"
| "pair_events mp c now results next_seq (ev # evs) =
     (if pe_kind ev = ToolUse then
        (case decode_payload_bytes (from_tool_use mp) (pe_kind ev) (pe_payload ev) of
           Inl e \<Rightarrow> Inl (Serde ''decoding tool_use'')
         | Inr parsed \<Rightarrow>
             let use = materialize c now next_seq ev; next1 = EventSeq_next next_seq in
             if tu_ordinal parsed \<notin> set results then
               (case encode_versioned_payload (to_tool_result mp) ToolResult (cancelled_result (tu_ordinal parsed)) of
                  Inl e \<Rightarrow> Inl (Serde ''encoding synthetic tool_result'')
                | Inr bytes \<Rightarrow>
                    let synthetic = \<lparr>conversation_id = c, seq = next1, kind = ToolResult,
                          payload = bytes, committed_at = now, actor = Some ''system''\<rparr> in
                    (case pair_events mp c now results (EventSeq_next next1) evs of
                       Inl e \<Rightarrow> Inl e | Inr out \<Rightarrow> Inr (use # synthetic # out)))
             else (case pair_events mp c now results next1 evs of
                     Inl e \<Rightarrow> Inl e | Inr out \<Rightarrow> Inr (use # out)))
      else (case pair_events mp c now results (EventSeq_next next_seq) evs of
              Inl e \<Rightarrow> Inl e | Inr out \<Rightarrow> Inr (materialize c now next_seq ev # out)))"

definition enforce_tool_pairing ::
  "msgpack \<Rightarrow> int \<Rightarrow> string \<Rightarrow> int \<Rightarrow> PendingEvent list \<Rightarrow> DbError + EventRecord list" where
  "enforce_tool_pairing mp now c base_seq evs = (case result_ordinals mp evs of
      Inl e \<Rightarrow> Inl e
    | Inr results \<Rightarrow> pair_events mp c now results (EventSeq_next base_seq) evs)"

text \<open>Ordinals as a reader of the log decodes them.\<close>

definition use_ordinal :: "msgpack \<Rightarrow> EventRecord \<Rightarrow> nat option" where
  "use_ordinal mp ev = (if kind ev = ToolUse then
     (case decode_payload_bytes (from_tool_use mp) (kind ev) (payload ev) of
        Inl e \<Rightarrow> None | Inr p \<Rightarrow> Some (tu_ordinal p)) else None)"

definition result_ordinal :: "msgpack \<Rightarrow> EventRecord \<Rightarrow> nat option" where
  "result_ordinal mp ev = (if kind ev = ToolResult then
     (case decode_payload_bytes (from_tool_result mp) (kind ev) (payload ev) of
        Inl e \<Rightarrow> None | Inr p \<Rightarrow> Some (tr_ordinal p)) else None)"

text \<open>One iteration of the loop: which records it writes, and where it goes on.\<close>

lemma pair_events_ConsE:
  assumes "pair_events mp c now results s (ev # evs) = Inr out"
  obtains (other) out' where "pe_kind ev \<noteq> ToolUse" "out = materialize c now s ev # out'"
      "pair_events mp c now results (s + 1) evs = Inr out'"
    | (matched) p out' where "pe_kind ev = ToolUse"
      "decode_payload_bytes (from_tool_use mp) ToolUse (pe_payload ev) = Inr p" "tu_ordinal p \<in> set results"
      "out = materialize c now s ev # out'" "pair_events mp c now results (s + 1) evs = Inr out'"
    | (unmatched) p bytes out' where "pe_kind ev = ToolUse"
      "decode_payload_bytes (from_tool_use mp) ToolUse (pe_payload ev) = Inr p" "tu_ordinal p \<notin> set results"
      "encode_versioned_payload (to_tool_result mp) ToolResult (cancelled_result (tu_ordinal p)) = Inr bytes"
      "out = materialize c now s ev # \<lparr>conversation_id = c, seq = s + 1, kind = ToolResult,
          payload = bytes, committed_at = now, actor = Some ''system''\<rparr> # out'"
      "pair_events mp c now results (s + 2) evs = Inr out'"
  using assms
  by (auto simp: Let_def EventSeq_next_def add.assoc split: if_splits sum.splits)

lemma pair_events_seqs:
  "pair_events mp c now results s evs = Inr out \<Longrightarrow>
   map seq out = map (\<lambda>i. s + int i) [0..<length out]"
proof (induction evs arbitrary: s out)
  case (Cons ev evs)
  from Cons.prems show ?case
    by (cases rule: pair_events_ConsE)
      (simp_all add: Cons.IH map_upt_Suc materialize_def add.commute add.left_commute del: upt_Suc)
qed simp

lemma pair_events_frame:
  "pair_events mp c now results s evs = Inr out \<Longrightarrow> ev \<in> set out \<Longrightarrow>
   conversation_id ev = c \<and> committed_at ev = now"
proof (induction evs arbitrary: s out)
  case (Cons e evs)
  from Cons.prems(1) show ?case
    by (cases rule: pair_events_ConsE) (use Cons in \<open>auto simp: materialize_def\<close>)
qed simp

text \<open>Every pending event is written, in order.\<close>

definition pending_view :: "PendingEvent \<Rightarrow> EventKind \<times> string \<times> string option" where
  "pending_view ev = (pe_kind ev, pe_payload ev, pe_actor ev)"

definition record_view :: "EventRecord \<Rightarrow> EventKind \<times> string \<times> string option" where
  "record_view ev = (kind ev, payload ev, actor ev)"

lemma record_view_materialize [simp]: "record_view (materialize c now s ev) = pending_view ev"
  by (simp add: record_view_def materialize_def pending_view_def)

lemma pair_events_subseq:
  "pair_events mp c now results s evs = Inr out \<Longrightarrow> subseq (map pending_view evs) (map record_view out)"
proof (induction evs arbitrary: s out)
  case (Cons ev evs)
  from Cons.prems show ?case
    by (cases rule: pair_events_ConsE) (use Cons.IH in auto)
qed simp

lemma synthetic_result_ordinal:
  assumes "msgpack_roundtrip mp"
    and "encode_versioned_payload (to_tool_result mp) ToolResult (cancelled_result n) = Inr bytes"
  shows "decode_payload_bytes (from_tool_result mp) ToolResult bytes = Inr (cancelled_result n)"
  using assms(2)
proof (rule decode_encode_payload)
  fix b assume "to_tool_result mp (cancelled_result n) = Some b"
  with assms(1) show "from_tool_result mp b = Some (cancelled_result n)"
    unfolding msgpack_roundtrip_def by (metis option.inject)
qed

lemma pair_events_unmatched:
  assumes "msgpack_roundtrip mp"
  shows "pair_events mp c now results s evs = Inr out \<Longrightarrow> ev \<in> set out \<Longrightarrow>
   use_ordinal mp ev = Some n \<Longrightarrow> n \<notin> set results \<Longrightarrow> \<exists>r \<in> set out. result_ordinal mp r = Some n"
proof (induction evs arbitrary: s out)
  case (Cons e evs)
  from Cons.prems(1) show ?case
  proof (cases rule: pair_events_ConsE)
    case (unmatched p bytes out')
    then show ?thesis
      using Cons.prems Cons.IH [OF unmatched(6)] synthetic_result_ordinal [OF assms unmatched(4)]
      by (auto simp: use_ordinal_def result_ordinal_def materialize_def cancelled_result_def
          split: if_splits)
  qed (use Cons in \<open>auto simp: use_ordinal_def materialize_def split: if_splits\<close>)
qed simp

lemma pair_events_keeps_results:
  "pair_events mp c now results s evs = Inr out \<Longrightarrow> result_ordinals mp evs = Inr os \<Longrightarrow>
   n \<in> set os \<Longrightarrow> \<exists>r \<in> set out. result_ordinal mp r = Some n"
proof (induction evs arbitrary: s out os)
  case (Cons e evs)
  from Cons.prems(1) obtain s' out' where tail: "pair_events mp c now results s' evs = Inr out'"
    "set out' \<subseteq> set out" "materialize c now s e \<in> set out"
    by (cases rule: pair_events_ConsE) auto
  show ?case
  proof (cases "result_ordinal mp (materialize c now s e) = Some n")
    case True
    with tail(3) show ?thesis by blast
  next
    case False
    with Cons.prems(2,3) obtain os' where "result_ordinals mp evs = Inr os'" "n \<in> set os'"
      by (auto simp: result_ordinal_def materialize_def split: if_splits sum.splits)
    with Cons.IH [OF tail(1)] tail(2) show ?thesis by blast
  qed
qed simp

lemma enforce_tool_pairing_paired:
  assumes "msgpack_roundtrip mp" "enforce_tool_pairing mp now c base evs = Inr out"
    and "ev \<in> set out" "use_ordinal mp ev = Some n"
  shows "\<exists>r \<in> set out. result_ordinal mp r = Some n"
proof -
  from assms(2) obtain os where os: "result_ordinals mp evs = Inr os"
    and out: "pair_events mp c now os (EventSeq_next base) evs = Inr out"
    by (auto simp: enforce_tool_pairing_def split: sum.splits)
  show ?thesis
    using pair_events_keeps_results [OF out os] pair_events_unmatched [OF assms(1) out assms(3,4)]
    by blast
qed

lemma enforce_tool_pairing_seqs:
  "enforce_tool_pairing mp now c base evs = Inr out \<Longrightarrow>
   map seq out = map (\<lambda>i. base + 1 + int i) [0..<length out]"
  by (auto simp: enforce_tool_pairing_def EventSeq_next_def split: sum.splits dest: pair_events_seqs)

end
