(* ===== verification/Event_Hmac.thy ===== *)
theory Event_Hmac
  imports Prelude
begin

text \<open>
  Event integrity primitives (\<open>crates/core/src/event_hmac.rs\<close>): the canonical byte strings that
  the event log signs, and signing and verification. HMAC-SHA256 is third-party code: it is the
  parameter \<open>hmac key message\<close> of every definition that signs or verifies.

  The lemmas show that each canonical encoding determines its fields (that of an event, where the
  conversation and the actor hold no NUL byte), and that the encodings of
  chained events, of the genesis anchor and of checkpoints never coincide, so that a tag made for
  one of them is a tag for nothing else unless HMAC itself collides.
\<close>

section \<open>Canonical bytes\<close>

definition canonical_bytes ::
  "string \<Rightarrow> int \<Rightarrow> string \<Rightarrow> int \<Rightarrow> string option \<Rightarrow> string \<Rightarrow> string" where
  "canonical_bytes conversation_id seq kind committed_at actor payload =
     conversation_id @ [CHR 0x00] @ le_bytes 8 seq @ kind @ [CHR 0x00] @ le_bytes 8 committed_at @
     (case actor of None \<Rightarrow> [] | Some a \<Rightarrow> a) @ [CHR 0x00] @ payload"

definition sign_event :: "(string \<Rightarrow> string \<Rightarrow> string) \<Rightarrow> string \<Rightarrow> string \<Rightarrow> string" where
  "sign_event hmac key canonical = hmac key canonical"

definition verify_event :: "(string \<Rightarrow> string \<Rightarrow> string) \<Rightarrow> string \<Rightarrow> string \<Rightarrow> string \<Rightarrow> bool" where
  "verify_event hmac key canonical tag \<longleftrightarrow> hmac key canonical = tag"

definition canonical_chain_event :: "string \<Rightarrow> int \<Rightarrow> string \<Rightarrow> string" where
  "canonical_chain_event v1_canonical key_id prev_tag =
     ''execlaw/event-chain/v2'' @ [CHR 0x00] @ le_bytes 8 key_id @ prev_tag @ v1_canonical"

definition canonical_genesis :: "string \<Rightarrow> int \<Rightarrow> string list \<Rightarrow> string" where
  "canonical_genesis conversation_id chain_start_seq legacy_rows =
     ''execlaw/event-chain-genesis/v2'' @ [CHR 0x00] @ le_bytes 8 (int (length conversation_id)) @
     conversation_id @ le_bytes 8 chain_start_seq @ le_bytes 8 (int (length legacy_rows)) @
     concat (map (\<lambda>row. le_bytes 8 (int (length row)) @ row) legacy_rows)"

definition canonical_checkpoint :: "string \<Rightarrow> int \<Rightarrow> int \<Rightarrow> string \<Rightarrow> int \<Rightarrow> int \<Rightarrow> string" where
  "canonical_checkpoint conversation_id chain_start_seq head_seq head_tag genesis_key_id key_id =
     ''execlaw/event-checkpoint/v2'' @ [CHR 0x00] @ le_bytes 8 (int (length conversation_id)) @
     conversation_id @ le_bytes 8 chain_start_seq @ le_bytes 8 head_seq @ head_tag @
     le_bytes 8 genesis_key_id @ le_bytes 8 key_id"

section \<open>The encodings are unambiguous\<close>

lemma verify_event_sign_event: "verify_event hmac key c (sign_event hmac key c)"
  by (simp add: verify_event_def sign_event_def)

text \<open>The actor as it enters the signature: an absent actor and an empty one are the same bytes.\<close>

definition actor_bytes :: "string option \<Rightarrow> string" where
  "actor_bytes actor = (case actor of None \<Rightarrow> [] | Some a \<Rightarrow> a)"

lemma canonical_bytes_fields:
  "canonical_bytes c s k t a p =
     nul_field c @ le_bytes 8 s @ nul_field k @ le_bytes 8 t @ nul_field (actor_bytes a) @ p"
  by (simp add: canonical_bytes_def nul_field_def actor_bytes_def)

lemma canonical_bytes_inj:
  assumes "nul_free c" "nul_free c'" "nul_free k" "nul_free k'"
    and "nul_free (actor_bytes a)" "nul_free (actor_bytes a')"
    and "i64_range s" "i64_range s'" "i64_range t" "i64_range t'"
    and "canonical_bytes c s k t a p = canonical_bytes c' s' k' t' a' p'"
  shows "c = c' \<and> s = s' \<and> k = k' \<and> t = t' \<and> actor_bytes a = actor_bytes a' \<and> p = p'"
proof -
  note eq = assms(11) [unfolded canonical_bytes_fields]
  from nul_code.unique [OF assms(1,2) eq] have "c = c'" and
    1: "le_bytes 8 s @ nul_field k @ le_bytes 8 t @ nul_field (actor_bytes a) @ p =
        le_bytes 8 s' @ nul_field k' @ le_bytes 8 t' @ nul_field (actor_bytes a') @ p'" by simp_all
  from i64_code.unique [OF assms(7,8) 1] have "s = s'" and
    2: "nul_field k @ le_bytes 8 t @ nul_field (actor_bytes a) @ p =
        nul_field k' @ le_bytes 8 t' @ nul_field (actor_bytes a') @ p'" by simp_all
  from nul_code.unique [OF assms(3,4) 2] have "k = k'" and
    3: "le_bytes 8 t @ nul_field (actor_bytes a) @ p = le_bytes 8 t' @ nul_field (actor_bytes a') @ p'"
    by simp_all
  from i64_code.unique [OF assms(9,10) 3] have "t = t'" and
    4: "nul_field (actor_bytes a) @ p = nul_field (actor_bytes a') @ p'" by simp_all
  from nul_code.unique [OF assms(5,6) 4] show ?thesis
    using \<open>c = c'\<close> \<open>s = s'\<close> \<open>k = k'\<close> \<open>t = t'\<close> by simp
qed

lemma canonical_chain_event_inj:
  assumes "i64_range k" "i64_range k'" "length p = length p'"
    and "canonical_chain_event v k p = canonical_chain_event v' k' p'"
  shows "v = v' \<and> k = k' \<and> p = p'"
proof -
  from assms(4) have "le_bytes 8 k @ p @ v = le_bytes 8 k' @ p' @ v'"
    by (simp add: canonical_chain_event_def)
  from i64_code.unique [OF assms(1,2) this] have "k = k'" "p @ v = p' @ v'" by simp_all
  with assms(3) show ?thesis by simp
qed

lemma canonical_genesis_fields:
  "canonical_genesis c s rows = (''execlaw/event-chain-genesis/v2'' @ [CHR 0x00]) @ len_field c @
     le_bytes 8 s @ le_bytes 8 (int (length rows)) @ concat (map len_field rows) @ []"
  by (simp add: canonical_genesis_def len_field_def [abs_def])

lemma canonical_genesis_inj:
  assumes "u64_length c" "u64_length c'" "i64_range s" "i64_range s'"
    and "u64_length rows" "u64_length rows'" "list_all u64_length rows" "list_all u64_length rows'"
    and "canonical_genesis c s rows = canonical_genesis c' s' rows'"
  shows "c = c' \<and> s = s' \<and> rows = rows'"
proof -
  let ?t = "\<lambda>rows. le_bytes 8 (int (length rows)) @ concat (map len_field rows) @ []"
  from assms(9) have eq: "len_field c @ le_bytes 8 s @ ?t rows = len_field c' @ le_bytes 8 s' @ ?t rows'"
    unfolding canonical_genesis_fields by (simp only: same_append_eq)
  from len_code.unique [OF assms(1,2) eq] have "c = c'" and
    1: "le_bytes 8 s @ ?t rows = le_bytes 8 s' @ ?t rows'" by simp_all
  from i64_code.unique [OF assms(3,4) 1] have "s = s'" and 2: "?t rows = ?t rows'" by simp_all
  from 2 have "le_bytes 8 (int (length rows)) = le_bytes 8 (int (length rows'))" and
    3: "concat (map len_field rows) @ [] = concat (map len_field rows') @ []" by simp_all
  with assms(5,6) have "length rows = length rows'" by (intro u64_length_inj)
  with assms(7,8) 3 len_code.concat_unique have "rows = rows'" by blast
  with \<open>c = c'\<close> \<open>s = s'\<close> show ?thesis by simp
qed

lemma canonical_checkpoint_inj:
  assumes "u64_length c" "u64_length c'" "i64_range s" "i64_range s'" "i64_range h" "i64_range h'"
    and "length t = length t'" "i64_range g" "i64_range g'" "i64_range k" "i64_range k'"
    and "canonical_checkpoint c s h t g k = canonical_checkpoint c' s' h' t' g' k'"
  shows "c = c' \<and> s = s' \<and> h = h' \<and> t = t' \<and> g = g' \<and> k = k'"
proof -
  from assms(12) have eq: "len_field c @ le_bytes 8 s @ le_bytes 8 h @ t @ le_bytes 8 g @ le_bytes 8 k =
      len_field c' @ le_bytes 8 s' @ le_bytes 8 h' @ t' @ le_bytes 8 g' @ le_bytes 8 k'"
    by (simp add: canonical_checkpoint_def len_field_def)
  from len_code.unique [OF assms(1,2) eq] have "c = c'" and
    rest: "le_bytes 8 s @ le_bytes 8 h @ t @ le_bytes 8 g @ le_bytes 8 k =
      le_bytes 8 s' @ le_bytes 8 h' @ t' @ le_bytes 8 g' @ le_bytes 8 k'" by simp_all
  from rest assms(7) have "le_bytes 8 s = le_bytes 8 s'" "le_bytes 8 h = le_bytes 8 h'" "t = t'"
    "le_bytes 8 g = le_bytes 8 g'" "le_bytes 8 k = le_bytes 8 k'" by simp_all
  with assms \<open>c = c'\<close> show ?thesis by (simp add: le_bytes_8_inj)
qed

text \<open>The domain prefixes keep the three kinds of message apart.\<close>

lemma chain_neq_genesis: "canonical_chain_event v k p \<noteq> canonical_genesis c s rows"
  by (simp add: canonical_chain_event_def canonical_genesis_def)

lemma chain_neq_checkpoint: "canonical_chain_event v k p \<noteq> canonical_checkpoint c s h t g k'"
  by (simp add: canonical_chain_event_def canonical_checkpoint_def)

lemma genesis_neq_checkpoint: "canonical_genesis c s rows \<noteq> canonical_checkpoint c' s' h t g k"
  by (simp add: canonical_genesis_def canonical_checkpoint_def)

end
