(* ===== verification/Event_Log.thy ===== *)
theory Event_Log
  imports Events Event_Hmac "HOL-Library.AList"
begin

text \<open>
  The event log (\<open>EventLog\<close> and \<open>KeyRing\<close> in \<open>crates/core/src/events.rs\<close>): the key ring, loading and
  verifying a conversation's integrity chain, the signed checkpoint, \<open>append\<close>, \<open>replay_since\<close>,
  \<open>last_seq\<close> and the atomic commit of a turn with the release of staged transport effects.

  \<open>hmac\<close> is the MAC parameter, \<open>ring\<close> the key ring attached to the log (\<open>None\<close> for a log without
  keys), \<open>now\<close> a reading of the clock. A function that runs inside a transaction returns an error
  or the new database.
\<close>

section \<open>The key ring\<close>

record KeyRing =
  ring_keys :: "(int \<times> string) list"
  ring_current_id :: int

definition KeyRing_single :: "int \<Rightarrow> string \<Rightarrow> KeyRing" where
  "KeyRing_single i key = \<lparr>ring_keys = [(i, key)], ring_current_id = i\<rparr>"

definition KeyRing_add :: "int \<Rightarrow> string \<Rightarrow> KeyRing \<Rightarrow> KeyRing" where
  "KeyRing_add i key ring = ring\<lparr>ring_keys := AList.update i key (ring_keys ring)\<rparr>"

definition KeyRing_set_current :: "int \<Rightarrow> KeyRing \<Rightarrow> DbError + KeyRing" where
  "KeyRing_set_current i ring =
     (if map_of (ring_keys ring) i = None then Inl (Config ''key_ring: key_id is not registered'')
      else Inr (ring\<lparr>ring_current_id := i\<rparr>))"

definition KeyRing_rotate :: "int \<Rightarrow> string \<Rightarrow> KeyRing \<Rightarrow> int \<times> KeyRing" where
  "KeyRing_rotate new_id new_key ring =
     (ring_current_id ring,
      ring\<lparr>ring_keys := AList.update new_id new_key (ring_keys ring), ring_current_id := new_id\<rparr>)"

definition KeyRing_registered_ids :: "KeyRing \<Rightarrow> int list" where
  "KeyRing_registered_ids ring = sort (map fst (ring_keys ring))"

definition key_for :: "KeyRing \<Rightarrow> int \<Rightarrow> string option" where
  "key_for ring i = map_of (ring_keys ring) i"

definition current_key :: "KeyRing \<Rightarrow> string option" where
  "current_key ring = key_for ring (ring_current_id ring)"

lemma key_for_add: "key_for (KeyRing_add i key ring) j = (if j = i then Some key else key_for ring j)"
  by (simp add: key_for_def KeyRing_add_def update_conv')

lemma key_for_rotate:
  "key_for (snd (KeyRing_rotate i key ring)) j = (if j = i then Some key else key_for ring j)"
  by (simp add: key_for_def KeyRing_rotate_def update_conv')

section \<open>Rows and checkpoints\<close>

record IntegrityRow =
  ir_event :: EventRecord
  ir_tag :: "string option"
  ir_key_id :: int
  ir_integrity_version :: int
  ir_prev_tag :: "string option"

record IntegrityHead =
  ih_chain_start_seq :: int
  ih_head_seq :: int
  ih_head_tag :: string
  ih_genesis_key_id :: int
  ih_key_id :: int
  ih_checkpoint_tag :: string

definition fixed_tag :: "string \<Rightarrow> DbError + string" where
  "fixed_tag bytes = (if length bytes = 32 then Inr bytes else Inl (TamperDetected ''malformed tag''))"

definition v1_canonical :: "EventRecord \<Rightarrow> string" where
  "v1_canonical ev = canonical_bytes (conversation_id ev) (seq ev) (EventKind_as_str (kind ev))
     (committed_at ev) (actor ev) (payload ev)"

definition legacy_row_canonical :: "IntegrityRow \<Rightarrow> string" where
  "legacy_row_canonical row = v1_canonical (ir_event row) @ le_bytes 8 (ir_key_id row) @
     (case ir_tag row of Some tag \<Rightarrow> le_bytes 8 (int (length tag)) @ tag | None \<Rightarrow> le_bytes 8 0)"

definition legacy_genesis_canonical :: "string \<Rightarrow> int \<Rightarrow> IntegrityRow list \<Rightarrow> string" where
  "legacy_genesis_canonical c chain_start_seq rows = canonical_genesis c chain_start_seq
     (map legacy_row_canonical (filter (\<lambda>row. ir_integrity_version row = 1) rows))"

definition integrity_row :: "event_row \<Rightarrow> IntegrityRow" where
  "integrity_row r = \<lparr>ir_event = \<lparr>conversation_id = er_conversation_id r, seq = er_seq r,
       kind = EventKind_parse (er_kind r), payload = er_payload r, committed_at = er_committed_at r,
       actor = er_actor r\<rparr>,
     ir_tag = er_tag r, ir_key_id = er_key_id r, ir_integrity_version = er_integrity_version r,
     ir_prev_tag = er_prev_tag r\<rparr>"

definition load_integrity_rows :: "database \<Rightarrow> string \<Rightarrow> IntegrityRow list" where
  "load_integrity_rows db c =
     map integrity_row (sort_key er_seq (filter (\<lambda>r. er_conversation_id r = c) (state_events db)))"

definition load_integrity_head :: "database \<Rightarrow> string \<Rightarrow> IntegrityHead option" where
  "load_integrity_head db c = map_option (\<lambda>h. \<lparr>ih_chain_start_seq = hr_chain_start_seq h,
       ih_head_seq = hr_head_seq h, ih_head_tag = hr_head_tag h, ih_genesis_key_id = hr_genesis_key_id h,
       ih_key_id = hr_key_id h, ih_checkpoint_tag = hr_checkpoint_tag h\<rparr>)
     (find (\<lambda>h. hr_conversation_id h = c) (state_event_integrity_heads db))"

text \<open>\<open>INSERT ... ON CONFLICT(conversation_id) DO UPDATE\<close>.\<close>

definition write_integrity_head :: "int \<Rightarrow> string \<Rightarrow> IntegrityHead \<Rightarrow> database \<Rightarrow> database" where
  "write_integrity_head now c head db =
     (let row = \<lparr>hr_conversation_id = c, hr_chain_start_seq = ih_chain_start_seq head,
            hr_head_seq = ih_head_seq head, hr_head_tag = ih_head_tag head,
            hr_genesis_key_id = ih_genesis_key_id head, hr_key_id = ih_key_id head,
            hr_checkpoint_tag = ih_checkpoint_tag head, hr_updated_at = now\<rparr> in
      db\<lparr>state_event_integrity_heads :=
        (if find (\<lambda>h. hr_conversation_id h = c) (state_event_integrity_heads db) = None
         then state_event_integrity_heads db @ [row]
         else update_where (\<lambda>h. hr_conversation_id h = c) (\<lambda>_. row) (state_event_integrity_heads db))\<rparr>)"

section \<open>Verification\<close>

text \<open>A legacy row: its own tag, when it has one.\<close>

definition verify ::
  "(string \<Rightarrow> string \<Rightarrow> string) \<Rightarrow> KeyRing option \<Rightarrow> EventRecord \<Rightarrow> string option \<Rightarrow> int \<Rightarrow> DbError + unit" where
  "verify hmac ring ev tag key_id = (case ring of
      None \<Rightarrow> Inr ()
    | Some rg \<Rightarrow> (case tag of
        None \<Rightarrow> Inr ()
      | Some tag_bytes \<Rightarrow> (case key_for rg key_id of
          None \<Rightarrow> Inl (TamperDetected ''signed with a key_id that is not in the ring'')
        | Some key \<Rightarrow>
            if length tag_bytes \<noteq> 32 then Inl (TamperDetected ''malformed tag'')
            else if \<not> verify_event hmac key (v1_canonical ev) tag_bytes
            then Inl (TamperDetected ''failed HMAC verification'')
            else Inr ())))"

fun verify_legacy_rows ::
  "(string \<Rightarrow> string \<Rightarrow> string) \<Rightarrow> KeyRing option \<Rightarrow> IntegrityRow list \<Rightarrow> DbError + unit" where
  "verify_legacy_rows hmac ring [] = Inr ()"
| "verify_legacy_rows hmac ring (row # rows) =
     (if ir_integrity_version row = 1 then
        (case verify hmac ring (ir_event row) (ir_tag row) (ir_key_id row) of
           Inl e \<Rightarrow> Inl e | Inr _ \<Rightarrow> verify_legacy_rows hmac ring rows)
      else verify_legacy_rows hmac ring rows)"

text \<open>The loop over the chained rows, from the expected predecessor tag and sequence number.\<close>

fun verify_chain ::
  "(string \<Rightarrow> string \<Rightarrow> string) \<Rightarrow> KeyRing \<Rightarrow> string \<Rightarrow> int \<Rightarrow> IntegrityRow list \<Rightarrow> DbError + string \<times> int" where
  "verify_chain hmac ring expected_prev expected_seq [] = Inr (expected_prev, expected_seq)"
| "verify_chain hmac ring expected_prev expected_seq (row # rows) =
     (if seq (ir_event row) \<noteq> expected_seq then Inl (TamperDetected ''v2 sequence mismatch'')
      else case ir_prev_tag row of
        None \<Rightarrow> Inl (TamperDetected ''v2 event has no prev_tag'')
      | Some prev \<Rightarrow> (case fixed_tag prev of
          Inl e \<Rightarrow> Inl e
        | Inr stored_prev \<Rightarrow>
            if stored_prev \<noteq> expected_prev then Inl (TamperDetected ''event breaks the v2 predecessor chain'')
            else (case ir_tag row of
              None \<Rightarrow> Inl (TamperDetected ''v2 event has no tag'')
            | Some t \<Rightarrow> (case fixed_tag t of
                Inl e \<Rightarrow> Inl e
              | Inr tag \<Rightarrow> (case key_for ring (ir_key_id row) of
                  None \<Rightarrow> Inl (TamperDetected ''event signed with unknown key_id'')
                | Some key \<Rightarrow>
                    if \<not> verify_event hmac key
                         (canonical_chain_event (v1_canonical (ir_event row)) (ir_key_id row) stored_prev) tag
                    then Inl (TamperDetected ''event failed v2 HMAC verification'')
                    else verify_chain hmac ring tag (expected_seq + 1) rows)))))"

definition genesis_tag ::
  "(string \<Rightarrow> string \<Rightarrow> string) \<Rightarrow> string \<Rightarrow> string \<Rightarrow> int \<Rightarrow> IntegrityRow list \<Rightarrow> string" where
  "genesis_tag hmac key c chain_start_seq rows =
     sign_event hmac key (legacy_genesis_canonical c chain_start_seq rows)"

definition verify_integrity ::
  "(string \<Rightarrow> string \<Rightarrow> string) \<Rightarrow> KeyRing option \<Rightarrow> string \<Rightarrow> IntegrityRow list \<Rightarrow> IntegrityHead option
   \<Rightarrow> DbError + unit" where
  "verify_integrity hmac ring c rows head = (case ring of
      None \<Rightarrow> Inr ()
    | Some rg \<Rightarrow> (case verify_legacy_rows hmac ring rows of
        Inl e \<Rightarrow> Inl e
      | Inr _ \<Rightarrow>
          let v2_rows = filter (\<lambda>row. ir_integrity_version row = 2) rows in
          (case head of
             None \<Rightarrow> if v2_rows = [] then Inr ()
                     else Inl (TamperDetected ''v2 events but no integrity checkpoint'')
           | Some h \<Rightarrow>
               if ih_chain_start_seq h < 1 then Inl (TamperDetected ''invalid chain start'')
               else (case key_for rg (ih_genesis_key_id h) of
                 None \<Rightarrow> Inl (TamperDetected ''genesis uses unknown key_id'')
               | Some genesis_key \<Rightarrow>
                   (case verify_chain hmac rg (genesis_tag hmac genesis_key c (ih_chain_start_seq h) rows)
                           (ih_chain_start_seq h) v2_rows of
                      Inl e \<Rightarrow> Inl e
                    | Inr (expected_prev, expected_seq) \<Rightarrow>
                        (case fixed_tag (ih_head_tag h) of
                           Inl e \<Rightarrow> Inl e
                         | Inr stored_head \<Rightarrow>
                             if ih_head_seq h \<noteq> expected_seq - 1 \<or> stored_head \<noteq> expected_prev
                             then Inl (TamperDetected ''terminal checkpoint does not match event tail'')
                             else (case key_for rg (ih_key_id h) of
                               None \<Rightarrow> Inl (TamperDetected ''checkpoint uses unknown key_id'')
                             | Some checkpoint_key \<Rightarrow>
                                 (case fixed_tag (ih_checkpoint_tag h) of
                                    Inl e \<Rightarrow> Inl e
                                  | Inr checkpoint \<Rightarrow>
                                      if \<not> verify_event hmac checkpoint_key
                                           (canonical_checkpoint c (ih_chain_start_seq h) (ih_head_seq h)
                                              stored_head (ih_genesis_key_id h) (ih_key_id h)) checkpoint
                                      then Inl (TamperDetected ''checkpoint signature is invalid'')
                                      else Inr ()))))))))"

section \<open>Checkpoints\<close>

definition initial_integrity_head ::
  "(string \<Rightarrow> string \<Rightarrow> string) \<Rightarrow> KeyRing option \<Rightarrow> string \<Rightarrow> IntegrityRow list \<Rightarrow> DbError + IntegrityHead" where
  "initial_integrity_head hmac ring c rows = (case ring of
      None \<Rightarrow> Inl (Config ''v2 integrity checkpoints require a KeyRing'')
    | Some rg \<Rightarrow> (case current_key rg of
        None \<Rightarrow> Inl (Config ''KeyRing has no current key'')
      | Some key \<Rightarrow>
          if list_ex (\<lambda>row. ir_integrity_version row \<noteq> 1) rows
          then Inl (TamperDetected ''v2 rows without a checkpoint'')
          else let legacy_max = (if rows = [] then 0 else seq (ir_event (last rows)));
                   chain_start_seq = legacy_max + 1;
                   head_tag = genesis_tag hmac key c chain_start_seq rows;
                   checkpoint_tag = sign_event hmac key (canonical_checkpoint c chain_start_seq legacy_max
                     head_tag (ring_current_id rg) (ring_current_id rg)) in
            Inr \<lparr>ih_chain_start_seq = chain_start_seq, ih_head_seq = legacy_max, ih_head_tag = head_tag,
              ih_genesis_key_id = ring_current_id rg, ih_key_id = ring_current_id rg,
              ih_checkpoint_tag = checkpoint_tag\<rparr>))"

definition advance_integrity_head ::
  "(string \<Rightarrow> string \<Rightarrow> string) \<Rightarrow> KeyRing option \<Rightarrow> string \<Rightarrow> int \<Rightarrow> int \<Rightarrow> int \<Rightarrow> string \<Rightarrow> DbError + IntegrityHead" where
  "advance_integrity_head hmac ring c chain_start_seq genesis_key_id head_seq head_tag = (case ring of
      None \<Rightarrow> Inl (Config ''v2 integrity checkpoints require a KeyRing'')
    | Some rg \<Rightarrow> (case current_key rg of
        None \<Rightarrow> Inl (Config ''KeyRing has no current key'')
      | Some key \<Rightarrow>
          Inr \<lparr>ih_chain_start_seq = chain_start_seq, ih_head_seq = head_seq, ih_head_tag = head_tag,
            ih_genesis_key_id = genesis_key_id, ih_key_id = ring_current_id rg,
            ih_checkpoint_tag = sign_event hmac key (canonical_checkpoint c chain_start_seq head_seq
               head_tag genesis_key_id (ring_current_id rg))\<rparr>))"

definition establish_v2_checkpoint ::
  "(string \<Rightarrow> string \<Rightarrow> string) \<Rightarrow> KeyRing option \<Rightarrow> int \<Rightarrow> string \<Rightarrow> database \<Rightarrow> (DbError + bool) \<times> database" where
  "establish_v2_checkpoint hmac ring now c = transaction (\<lambda>db.
     let rows = load_integrity_rows db c in
     (case load_integrity_head db c of
        Some head \<Rightarrow> (case verify_integrity hmac ring c rows (Some head) of
            Inl e \<Rightarrow> Inl e | Inr _ \<Rightarrow> Inr (False, db))
      | None \<Rightarrow> (case initial_integrity_head hmac ring c rows of
            Inl e \<Rightarrow> Inl e
          | Inr head \<Rightarrow> Inr (True, write_integrity_head now c head db))))"

text \<open>\<open>SELECT DISTINCT conversation_id FROM state_events ORDER BY conversation_id\<close>.\<close>

definition event_conversations :: "database \<Rightarrow> string list" where
  "event_conversations db = sort (remdups (map er_conversation_id (state_events db)))"

fun establish_all ::
  "(string \<Rightarrow> string \<Rightarrow> string) \<Rightarrow> KeyRing option \<Rightarrow> int \<Rightarrow> string list \<Rightarrow> nat \<Rightarrow> database \<Rightarrow> (DbError + nat) \<times> database" where
  "establish_all hmac ring now [] established db = (Inr established, db)"
| "establish_all hmac ring now (c # cs) established db =
     (case establish_v2_checkpoint hmac ring now c db of
        (Inl e, db') \<Rightarrow> (Inl e, db')
      | (Inr True, db') \<Rightarrow> establish_all hmac ring now cs (established + 1) db'
      | (Inr False, db') \<Rightarrow> establish_all hmac ring now cs established db')"

definition backfill_v2_checkpoints ::
  "(string \<Rightarrow> string \<Rightarrow> string) \<Rightarrow> KeyRing option \<Rightarrow> int \<Rightarrow> database \<Rightarrow> (DbError + nat) \<times> database" where
  "backfill_v2_checkpoints hmac ring now db = establish_all hmac ring now (event_conversations db) 0 db"

section \<open>Appending and reading\<close>

text \<open>\<open>INSERT INTO state_events\<close>, with the primary key \<open>(conversation_id, seq)\<close>.\<close>

definition insert_event_row :: "event_row \<Rightarrow> database \<Rightarrow> DbError + database" where
  "insert_event_row row db =
     (if list_ex (\<lambda>r. er_conversation_id r = er_conversation_id row \<and> er_seq r = er_seq row) (state_events db)
      then Inl (Sqlite (ConstraintViolation ''UNIQUE constraint failed: state_events''))
      else Inr (db\<lparr>state_events := state_events db @ [row]\<rparr>))"

definition unsigned_row :: "EventRecord \<Rightarrow> event_row" where
  "unsigned_row ev = \<lparr>er_conversation_id = conversation_id ev, er_seq = seq ev,
     er_kind = EventKind_as_str (kind ev), er_payload = payload ev, er_committed_at = committed_at ev,
     er_actor = actor ev, er_tag = None, er_key_id = 0, er_integrity_version = 1, er_prev_tag = None\<rparr>"

definition chained_row :: "EventRecord \<Rightarrow> string \<Rightarrow> int \<Rightarrow> string \<Rightarrow> event_row" where
  "chained_row ev tag key_id prev_tag = \<lparr>er_conversation_id = conversation_id ev, er_seq = seq ev,
     er_kind = EventKind_as_str (kind ev), er_payload = payload ev, er_committed_at = committed_at ev,
     er_actor = actor ev, er_tag = Some tag, er_key_id = key_id, er_integrity_version = 2,
     er_prev_tag = Some prev_tag\<rparr>"

text \<open>
  The head a keyed write starts from: the stored one, after the whole conversation has been
  verified, or a fresh genesis over the legacy rows.
\<close>

definition keyed_head ::
  "(string \<Rightarrow> string \<Rightarrow> string) \<Rightarrow> KeyRing option \<Rightarrow> string \<Rightarrow> database \<Rightarrow> DbError + IntegrityHead" where
  "keyed_head hmac ring c db =
     (let rows = load_integrity_rows db c in
      (case load_integrity_head db c of
         Some head \<Rightarrow> (case verify_integrity hmac ring c rows (Some head) of
             Inl e \<Rightarrow> Inl e | Inr _ \<Rightarrow> Inr head)
       | None \<Rightarrow> initial_integrity_head hmac ring c rows))"

text \<open>
  One keyed write: the sequence check, the chained tag over the head's tag, the insert, and the
  advanced head, which the caller stores.
\<close>

definition chain_event ::
  "(string \<Rightarrow> string \<Rightarrow> string) \<Rightarrow> KeyRing \<Rightarrow> string \<Rightarrow> string \<Rightarrow> EventRecord \<Rightarrow> IntegrityHead \<Rightarrow> database
   \<Rightarrow> DbError + IntegrityHead \<times> database" where
  "chain_event hmac ring key c ev head db =
     (if seq ev \<noteq> ih_head_seq head + 1 then Inl (Invariant ''v2 write expected the next seq'')
      else (case fixed_tag (ih_head_tag head) of
        Inl e \<Rightarrow> Inl e
      | Inr prev_tag \<Rightarrow>
          let tag = sign_event hmac key
                (canonical_chain_event (v1_canonical ev) (ring_current_id ring) prev_tag) in
          (case insert_event_row (chained_row ev tag (ring_current_id ring) prev_tag) db of
             Inl e \<Rightarrow> Inl e
           | Inr db1 \<Rightarrow>
               (case advance_integrity_head hmac (Some ring) c (ih_chain_start_seq head)
                       (ih_genesis_key_id head) (seq ev) tag of
                  Inl e \<Rightarrow> Inl e
                | Inr head' \<Rightarrow> Inr (head', db1)))))"

definition append_tx ::
  "(string \<Rightarrow> string \<Rightarrow> string) \<Rightarrow> KeyRing option \<Rightarrow> int \<Rightarrow> EventRecord \<Rightarrow> unit tx" where
  "append_tx hmac ring now ev db = (case ring of
      None \<Rightarrow>
        if load_integrity_head db (conversation_id ev) \<noteq> None
        then Inl (Config ''a v2 conversation requires an event HMAC key for append'')
        else (case insert_event_row (unsigned_row ev) db of
                Inl e \<Rightarrow> Inl e | Inr db1 \<Rightarrow> Inr ((), db1))
    | Some rg \<Rightarrow> (case keyed_head hmac ring (conversation_id ev) db of
        Inl e \<Rightarrow> Inl e
      | Inr head \<Rightarrow>
          if seq ev \<noteq> ih_head_seq head + 1 then Inl (Invariant ''v2 write expected the next seq'')
          else (case current_key rg of
            None \<Rightarrow> Inl (Config ''KeyRing has no key registered for current_id'')
          | Some key \<Rightarrow>
              (case chain_event hmac rg key (conversation_id ev) ev head db of
                 Inl e \<Rightarrow> Inl e
               | Inr (head', db1) \<Rightarrow> Inr ((), write_integrity_head now (conversation_id ev) head' db1)))))"

definition EventLog_append ::
  "(string \<Rightarrow> string \<Rightarrow> string) \<Rightarrow> KeyRing option \<Rightarrow> int \<Rightarrow> EventRecord \<Rightarrow> database \<Rightarrow> (DbError + unit) \<times> database" where
  "EventLog_append hmac ring now ev = transaction (append_tx hmac ring now ev)"

definition replay_since ::
  "(string \<Rightarrow> string \<Rightarrow> string) \<Rightarrow> KeyRing option \<Rightarrow> database \<Rightarrow> string \<Rightarrow> int \<Rightarrow> DbError + EventRecord list" where
  "replay_since hmac ring db c after_seq =
     (let rows = load_integrity_rows db c; head = load_integrity_head db c in
      (case verify_integrity hmac ring c rows head of
         Inl e \<Rightarrow> Inl e
       | Inr _ \<Rightarrow> Inr (map ir_event (filter (\<lambda>row. seq (ir_event row) > after_seq) rows))))"

text \<open>\<open>SELECT MAX(seq)\<close>, 0 for a conversation without events.\<close>

definition last_seq :: "database \<Rightarrow> string \<Rightarrow> int" where
  "last_seq db c = (case map er_seq (filter (\<lambda>r. er_conversation_id r = c) (state_events db)) of
      [] \<Rightarrow> 0 | s # ss \<Rightarrow> fold max ss s)"

section \<open>Committing a turn\<close>

text \<open>
  Sends that a tool staged with \<open>next_attempt_at = i64::MAX\<close> become due when the batch that holds
  both sides of the tool call commits. Their key is minted from the input event of the active
  run, or from the last user message.
\<close>

definition latest_user_seq :: "database \<Rightarrow> string \<Rightarrow> int option" where
  "latest_user_seq db c =
     (case map er_seq (filter (\<lambda>r. er_conversation_id r = c \<and> er_kind r = ''user_msg'') (state_events db)) of
        [] \<Rightarrow> None | s # ss \<Rightarrow> Some (fold max ss s))"

definition active_run_source :: "database \<Rightarrow> string \<Rightarrow> int option" where
  "active_run_source db c =
     (case sort_key (\<lambda>r. - rn_started_at r) (sort_key rn_run_id
             (filter (\<lambda>r. rn_conversation_id r = c \<and> rn_status r \<in> {''pending'', ''running'', ''waiting''})
               (state_runs db))) of
        [] \<Rightarrow> None | r # _ \<Rightarrow> Some (rn_input_event_seq r))"

definition release_key :: "string \<Rightarrow> database \<Rightarrow> database" where
  "release_key key db = db\<lparr>state_outbox := update_where
     (\<lambda>r. ob_idempotency_key r = key \<and> ob_effect_kind r \<in> {''transport.send'', ''transport.send_attachments''}
        \<and> ob_status r = ''pending'' \<and> ob_next_attempt_at r = Some i64_max)
     (\<lambda>r. r\<lparr>ob_next_attempt_at := None\<rparr>) (state_outbox db)\<rparr>"

definition release_staged_transport_effects ::
  "msgpack \<Rightarrow> string \<Rightarrow> EventRecord list \<Rightarrow> database \<Rightarrow> database" where
  "release_staged_transport_effects mp c committed db =
     (case (case active_run_source db c of Some s \<Rightarrow> Some s | None \<Rightarrow> latest_user_seq db c) of
        None \<Rightarrow> db
      | Some source_seq \<Rightarrow>
          let tool_results = List.map_filter (result_ordinal mp) committed;
              ordinals = filter (\<lambda>n. n \<in> set tool_results) (List.map_filter (use_ordinal mp) committed) in
          fold (\<lambda>n. release_key (c @ '':'' @ show_int source_seq @ '':'' @ show_nat n)) ordinals db)"

fun insert_unsigned :: "EventRecord list \<Rightarrow> database \<Rightarrow> DbError + database" where
  "insert_unsigned [] db = Inr db"
| "insert_unsigned (ev # evs) db = (case insert_event_row (unsigned_row ev) db of
     Inl e \<Rightarrow> Inl e | Inr db1 \<Rightarrow> insert_unsigned evs db1)"

fun chain_events ::
  "(string \<Rightarrow> string \<Rightarrow> string) \<Rightarrow> KeyRing \<Rightarrow> string \<Rightarrow> string \<Rightarrow> EventRecord list \<Rightarrow> IntegrityHead \<Rightarrow> database
   \<Rightarrow> DbError + IntegrityHead \<times> database" where
  "chain_events hmac ring key c [] head db = Inr (head, db)"
| "chain_events hmac ring key c (ev # evs) head db = (case chain_event hmac ring key c ev head db of
     Inl e \<Rightarrow> Inl e | Inr (head', db1) \<Rightarrow> chain_events hmac ring key c evs head' db1)"

text \<open>The batch is moved up when another commit landed after the caller read \<open>base_seq\<close>.\<close>

definition shift_events :: "int \<Rightarrow> int \<Rightarrow> EventRecord list \<Rightarrow> EventRecord list" where
  "shift_events actual_max base_seq evs =
     (let delta = actual_max - base_seq in
      if delta > 0 then map (\<lambda>ev. ev\<lparr>seq := seq ev + delta\<rparr>) evs else evs)"

definition commit_tx ::
  "msgpack \<Rightarrow> (string \<Rightarrow> string \<Rightarrow> string) \<Rightarrow> KeyRing option \<Rightarrow> int \<Rightarrow> string \<Rightarrow> int \<Rightarrow>
   (EventRecord list \<Rightarrow> database \<Rightarrow> DbError + database) \<Rightarrow> EventRecord list \<Rightarrow> EventRecord list tx" where
  "commit_tx mp hmac ring now c base_seq projection materialized0 db =
     (let has_tool_result = list_ex (\<lambda>ev. kind ev = ToolResult) materialized0;
          rows = load_integrity_rows db c;
          actual_max = (if rows = [] then 0 else seq (ir_event (last rows)));
          materialized = shift_events actual_max base_seq materialized0;
          finish = (\<lambda>db1. case projection materialized db1 of
             Inl e \<Rightarrow> Inl e
           | Inr db2 \<Rightarrow> Inr (materialized,
               if has_tool_result then release_staged_transport_effects mp c materialized db2 else db2)) in
      (case ring of
         None \<Rightarrow>
           if load_integrity_head db c \<noteq> None
           then Inl (Config ''a v2 conversation requires an event HMAC key for commit'')
           else (case insert_unsigned materialized db of Inl e \<Rightarrow> Inl e | Inr db1 \<Rightarrow> finish db1)
       | Some rg \<Rightarrow> (case keyed_head hmac ring c db of
           Inl e \<Rightarrow> Inl e
         | Inr head \<Rightarrow> (case current_key rg of
             None \<Rightarrow> Inl (Config ''KeyRing has no key registered for current_id'')
           | Some key \<Rightarrow> (case chain_events hmac rg key c materialized head db of
               Inl e \<Rightarrow> Inl e
             | Inr (head', db1) \<Rightarrow> finish (write_integrity_head now c head' db1))))))"

definition commit_turn_with_projection ::
  "msgpack \<Rightarrow> (string \<Rightarrow> string \<Rightarrow> string) \<Rightarrow> KeyRing option \<Rightarrow> int \<Rightarrow> int \<Rightarrow> string \<Rightarrow> int \<Rightarrow> PendingEvent list \<Rightarrow>
   (EventRecord list \<Rightarrow> database \<Rightarrow> DbError + database) \<Rightarrow> database \<Rightarrow> (DbError + EventRecord list) \<times> database" where
  "commit_turn_with_projection mp hmac ring now now_head c base_seq evs projection db =
     (case enforce_tool_pairing mp now c base_seq evs of
        Inl e \<Rightarrow> (Inl e, db)
      | Inr materialized \<Rightarrow> transaction (commit_tx mp hmac ring now_head c base_seq projection materialized) db)"

definition commit_turn ::
  "msgpack \<Rightarrow> (string \<Rightarrow> string \<Rightarrow> string) \<Rightarrow> KeyRing option \<Rightarrow> int \<Rightarrow> int \<Rightarrow> string \<Rightarrow> int \<Rightarrow> PendingEvent list \<Rightarrow>
   database \<Rightarrow> (DbError + EventRecord list) \<times> database" where
  "commit_turn mp hmac ring now now_head c base_seq evs =
     commit_turn_with_projection mp hmac ring now now_head c base_seq evs (\<lambda>_ db. Inr db)"

end
