(* ===== verification/Event_Chain.thy ===== *)
theory Event_Chain
  imports Event_Log
begin

text \<open>
  The integrity chain of the event log: what \<open>append\<close> and \<open>commit_turn\<close> write verifies, replay returns
  exactly what was written, in order, and two verified histories with the same head are the same
  history.

  \<open>chain_ok\<close> is the invariant of one conversation: it verifies, its rows have one of the two versions
  the table's CHECK admits, sequence numbers start at 1, and the legacy rows precede the chain.
\<close>

section \<open>Verification of a chain, row by row\<close>

definition mac32 :: "(string \<Rightarrow> string \<Rightarrow> string) \<Rightarrow> bool" where
  "mac32 hmac \<longleftrightarrow> (\<forall>k m. length (hmac k m) = 32)"

lemma fixed_tag_hmac [simp]: "mac32 hmac \<Longrightarrow> fixed_tag (sign_event hmac k m) = Inr (sign_event hmac k m)"
  by (simp add: mac32_def fixed_tag_def sign_event_def)

lemma fixed_tag_Inr: "fixed_tag b = Inr t \<longleftrightarrow> t = b \<and> length b = 32"
  by (auto simp: fixed_tag_def)

text \<open>What a successful step of the loop has checked.\<close>

definition chain_link ::
  "(string \<Rightarrow> string \<Rightarrow> string) \<Rightarrow> KeyRing \<Rightarrow> string \<Rightarrow> int \<Rightarrow> IntegrityRow \<Rightarrow> string \<Rightarrow> bool" where
  "chain_link hmac ring prev s row tag \<longleftrightarrow> seq (ir_event row) = s \<and> ir_prev_tag row = Some prev \<and>
     length prev = 32 \<and> ir_tag row = Some tag \<and> length tag = 32 \<and>
     (\<exists>key. key_for ring (ir_key_id row) = Some key \<and>
        tag = hmac key (canonical_chain_event (v1_canonical (ir_event row)) (ir_key_id row) prev))"

lemma verify_chain_Cons:
  "verify_chain hmac ring prev s (row # rows) = Inr r \<longleftrightarrow>
   (\<exists>tag. chain_link hmac ring prev s row tag \<and> verify_chain hmac ring tag (s + 1) rows = Inr r)"
  by (auto simp: chain_link_def verify_event_def fixed_tag_def split: option.splits sum.splits if_splits)

declare verify_chain.simps(2) [simp del]

lemma verify_chain_append:
  "verify_chain hmac ring p s (rows @ rows') = Inr r \<longleftrightarrow>
   (\<exists>p' s'. verify_chain hmac ring p s rows = Inr (p', s') \<and> verify_chain hmac ring p' s' rows' = Inr r)"
  by (induction rows arbitrary: p s) (auto simp: verify_chain_Cons)

lemma verify_chain_seqs:
  "verify_chain hmac ring p s rows = Inr (p', s') \<Longrightarrow>
   s' = s + int (length rows) \<and> (\<forall>row \<in> set rows. s \<le> seq (ir_event row) \<and> seq (ir_event row) < s')"
  by (induction rows arbitrary: p s) (fastforce simp: verify_chain_Cons chain_link_def)+

lemma verify_legacy_append:
  "verify_legacy_rows hmac ring (rows @ rows') = Inr () \<longleftrightarrow>
   verify_legacy_rows hmac ring rows = Inr () \<and> verify_legacy_rows hmac ring rows' = Inr ()"
  by (induction rows) (auto split: sum.splits)

lemma legacy_genesis_append_v2:
  "ir_integrity_version row = 2 \<Longrightarrow>
   legacy_genesis_canonical c s (rows @ [row]) = legacy_genesis_canonical c s rows"
  by (simp add: legacy_genesis_canonical_def)

definition checkpoint_signed ::
  "(string \<Rightarrow> string \<Rightarrow> string) \<Rightarrow> KeyRing \<Rightarrow> string \<Rightarrow> IntegrityHead \<Rightarrow> bool" where
  "checkpoint_signed hmac ring c h \<longleftrightarrow> (\<exists>key. key_for ring (ih_key_id h) = Some key \<and>
     length (ih_checkpoint_tag h) = 32 \<and>
     ih_checkpoint_tag h = hmac key (canonical_checkpoint c (ih_chain_start_seq h) (ih_head_seq h)
        (ih_head_tag h) (ih_genesis_key_id h) (ih_key_id h)))"

text \<open>The conjunction that \<open>verify_integrity\<close> decides, for a conversation with a checkpoint.\<close>

lemma verify_integrity_head:
  "verify_integrity hmac (Some ring) c rows (Some h) = Inr () \<longleftrightarrow>
   verify_legacy_rows hmac (Some ring) rows = Inr () \<and> 1 \<le> ih_chain_start_seq h \<and>
   (\<exists>gkey s. key_for ring (ih_genesis_key_id h) = Some gkey \<and>
      verify_chain hmac ring (genesis_tag hmac gkey c (ih_chain_start_seq h) rows) (ih_chain_start_seq h)
        (filter (\<lambda>row. ir_integrity_version row = 2) rows) = Inr (ih_head_tag h, s) \<and>
      ih_head_seq h = s - 1 \<and> length (ih_head_tag h) = 32) \<and>
   checkpoint_signed hmac ring c h"
  by (auto simp: verify_integrity_def Let_def checkpoint_signed_def verify_event_def fixed_tag_Inr
      fixed_tag_def split: sum.splits option.splits if_splits)

lemma verify_integrity_no_head:
  "verify_integrity hmac (Some ring) c rows None = Inr () \<longleftrightarrow>
   verify_legacy_rows hmac (Some ring) rows = Inr () \<and> filter (\<lambda>row. ir_integrity_version row = 2) rows = []"
  by (auto simp: verify_integrity_def Let_def split: sum.splits)


lemmas verify_integrity_Inr = verify_integrity_head verify_integrity_no_head

section \<open>The invariant of a conversation\<close>

definition tail_seq :: "IntegrityRow list \<Rightarrow> int" where
  "tail_seq rows = (if rows = [] then 0 else seq (ir_event (last rows)))"

definition head_ok ::
  "(string \<Rightarrow> string \<Rightarrow> string) \<Rightarrow> KeyRing \<Rightarrow> string \<Rightarrow> IntegrityRow list \<Rightarrow> IntegrityHead \<Rightarrow> bool" where
  "head_ok hmac ring c rows h \<longleftrightarrow> verify_integrity hmac (Some ring) c rows (Some h) = Inr () \<and>
     list_all (\<lambda>row. ir_integrity_version row = 2 \<or>
       ir_integrity_version row = 1 \<and> 1 \<le> seq (ir_event row) \<and> seq (ir_event row) < ih_chain_start_seq h) rows \<and>
     ih_head_seq h = tail_seq rows"

lemma tail_seq_snoc [simp]: "tail_seq (rows @ [row]) = seq (ir_event row)" "tail_seq [] = 0"
  by (simp_all add: tail_seq_def)

definition chain_ok :: "(string \<Rightarrow> string \<Rightarrow> string) \<Rightarrow> KeyRing \<Rightarrow> string \<Rightarrow> database \<Rightarrow> bool" where
  "chain_ok hmac ring c db \<longleftrightarrow> (let rows = load_integrity_rows db c in
     (case load_integrity_head db c of
        Some h \<Rightarrow> head_ok hmac ring c rows h
      | None \<Rightarrow> verify_integrity hmac (Some ring) c rows None = Inr () \<and>
          list_all (\<lambda>row. ir_integrity_version row = 1 \<and> 1 \<le> seq (ir_event row)) rows))"

lemma seq_integrity_row [simp]:
  "seq (ir_event (integrity_row r)) = er_seq r" "ir_integrity_version (integrity_row r) = er_integrity_version r"
  "ir_tag (integrity_row r) = er_tag r" "ir_key_id (integrity_row r) = er_key_id r"
  "ir_prev_tag (integrity_row r) = er_prev_tag r"
  by (simp_all add: integrity_row_def)

lemma set_load_rows:
  "set (load_integrity_rows db c) = integrity_row ` {r \<in> set (state_events db). er_conversation_id r = c}"
  by (simp add: load_integrity_rows_def)

lemma load_rows_sorted: "sorted (map (\<lambda>row. seq (ir_event row)) (load_integrity_rows db c))"
  by (simp add: load_integrity_rows_def comp_def)

lemma load_rows_last:
  "load_integrity_rows db c \<noteq> [] \<Longrightarrow> row \<in> set (load_integrity_rows db c) \<Longrightarrow>
   seq (ir_event row) \<le> seq (ir_event (last (load_integrity_rows db c)))"
  using load_rows_sorted [of db c]
  by (cases "load_integrity_rows db c" rule: rev_cases) (auto simp: sorted_append)

lemma head_ok_seq_le:
  assumes "head_ok hmac ring c rows h" "row \<in> set rows"
  shows "seq (ir_event row) \<le> ih_head_seq h"
proof -
  obtain gkey s where chain: "verify_chain hmac ring (genesis_tag hmac gkey c (ih_chain_start_seq h) rows)
      (ih_chain_start_seq h) (filter (\<lambda>row. ir_integrity_version row = 2) rows) = Inr (ih_head_tag h, s)"
    and s: "ih_head_seq h = s - 1"
    using assms(1) by (auto simp: head_ok_def verify_integrity_head)
  have le: "ih_chain_start_seq h \<le> s" and
    v2: "ir_integrity_version row = 2 \<Longrightarrow> seq (ir_event row) < s"
    using verify_chain_seqs [OF chain] assms(2) by auto
  moreover have "ir_integrity_version row = 2 \<or> seq (ir_event row) < ih_chain_start_seq h"
    using assms by (auto simp: head_ok_def list_all_iff)
  ultimately show ?thesis using s by auto
qed

lemma head_ok_start: "head_ok hmac ring c rows h \<Longrightarrow> 1 \<le> ih_chain_start_seq h \<and> ih_chain_start_seq h \<le> ih_head_seq h + 1"
  by (auto simp: head_ok_def verify_integrity_head dest: verify_chain_seqs)

text \<open>The key of the ring's current id is registered: what \<open>KeyRing::single\<close> and \<open>rotate\<close> establish.\<close>

lemma current_key_single [simp]: "current_key (KeyRing_single i k) = Some k"
  by (simp add: current_key_def key_for_def KeyRing_single_def)

lemma current_key_rotate [simp]: "current_key (snd (KeyRing_rotate i k ring)) = Some k"
  by (simp add: current_key_def key_for_rotate) (simp add: KeyRing_rotate_def)

lemma list_all_last: "list_all P xs \<Longrightarrow> xs \<noteq> [] \<Longrightarrow> P (last xs)"
  by (simp add: list_all_iff)

lemma initial_head_ok:
  assumes "mac32 hmac" "current_key ring = Some key"
    and ok: "chain_ok hmac ring c db" "load_integrity_head db c = None"
  shows "\<exists>h. initial_integrity_head hmac (Some ring) c (load_integrity_rows db c) = Inr h \<and>
             head_ok hmac ring c (load_integrity_rows db c) h \<and>
             ih_head_seq h = tail_seq (load_integrity_rows db c)"
proof -
  let ?rows = "load_integrity_rows db c"
  let ?m = "tail_seq ?rows"
  from ok have rows: "list_all (\<lambda>row. ir_integrity_version row = 1 \<and> 1 \<le> seq (ir_event row)) ?rows"
    and legacy: "verify_legacy_rows hmac (Some ring) ?rows = Inr ()"
    by (auto simp: chain_ok_def verify_integrity_no_head Let_def)
  have m: "0 \<le> ?m"
    using list_all_last [OF rows] by (auto simp: tail_seq_def)
  have lt: "list_all (\<lambda>row. ir_integrity_version row = 1 \<and> 1 \<le> seq (ir_event row) \<and> seq (ir_event row) < ?m + 1) ?rows"
    using rows load_rows_last [of db c] by (auto simp: list_all_iff tail_seq_def)
  have none: "\<not> list_ex (\<lambda>row. ir_integrity_version row \<noteq> 1) ?rows"
    and v2: "filter (\<lambda>row. ir_integrity_version row = 2) ?rows = []"
    using rows by (auto simp: list_ex_iff list_all_iff filter_empty_conv)
  let ?g = "genesis_tag hmac key c (?m + 1) ?rows"
  let ?h = "\<lparr>ih_chain_start_seq = ?m + 1, ih_head_seq = ?m, ih_head_tag = ?g,
     ih_genesis_key_id = ring_current_id ring, ih_key_id = ring_current_id ring,
     ih_checkpoint_tag = sign_event hmac key (canonical_checkpoint c (?m + 1) ?m ?g
       (ring_current_id ring) (ring_current_id ring))\<rparr>"
  have "initial_integrity_head hmac (Some ring) c ?rows = Inr ?h"
    using assms(2) none by (simp add: initial_integrity_head_def Let_def tail_seq_def)
  moreover have "head_ok hmac ring c ?rows ?h"
    using assms(1,2) legacy m lt v2
    by (auto simp: head_ok_def verify_integrity_head checkpoint_signed_def current_key_def mac32_def
        sign_event_def genesis_tag_def list_all_iff)
  ultimately show ?thesis by (intro exI [of _ ?h]) simp
qed

lemma keyed_head_ok:
  assumes "mac32 hmac" "current_key ring = Some key" "chain_ok hmac ring c db"
  shows "\<exists>h. keyed_head hmac (Some ring) c db = Inr h \<and> head_ok hmac ring c (load_integrity_rows db c) h"
proof (cases "load_integrity_head db c")
  case None
  with initial_head_ok [OF assms None] show ?thesis by (auto simp: keyed_head_def Let_def)
next
  case (Some h)
  with assms(3) have "head_ok hmac ring c (load_integrity_rows db c) h" by (simp add: chain_ok_def)
  with Some show ?thesis by (simp add: keyed_head_def head_ok_def)
qed


section \<open>One keyed write\<close>

lemma load_rows_insert:
  assumes "insert_event_row row db = Inr db1"
    and "\<And>r. r \<in> set (load_integrity_rows db (er_conversation_id row)) \<Longrightarrow> seq (ir_event r) \<le> er_seq row"
  shows "load_integrity_rows db1 (er_conversation_id row) =
         load_integrity_rows db (er_conversation_id row) @ [integrity_row row]"
proof -
  let ?rows = "filter (\<lambda>r. er_conversation_id r = er_conversation_id row) (state_events db)"
  have "er_seq r \<le> er_seq row" if "r \<in> set ?rows" for r
    using that assms(2) [of "integrity_row r"] by (auto simp: set_load_rows)
  then have "sort_key er_seq (?rows @ [row]) = sort_key er_seq ?rows @ [row]"
    by (rule sort_key_snoc)
  with assms(1) show ?thesis
    by (auto simp: insert_event_row_def load_integrity_rows_def split: if_splits)
qed

lemma load_rows_insert_other:
  "insert_event_row row db = Inr db1 \<Longrightarrow> c \<noteq> er_conversation_id row \<Longrightarrow>
   load_integrity_rows db1 c = load_integrity_rows db c"
  by (auto simp: insert_event_row_def load_integrity_rows_def split: if_splits)

lemma insert_event_row_fresh:
  assumes "\<And>r. r \<in> set (load_integrity_rows db (er_conversation_id row)) \<Longrightarrow> seq (ir_event r) < er_seq row"
  shows "insert_event_row row db = Inr (db\<lparr>state_events := state_events db @ [row]\<rparr>)"
proof -
  have "er_seq r \<noteq> er_seq row" if "r \<in> set (state_events db)" "er_conversation_id r = er_conversation_id row" for r
    using that assms [of "integrity_row r"] by (auto simp: set_load_rows)
  then show ?thesis by (auto simp: insert_event_row_def list_ex_iff)
qed

lemma integrity_row_chained [simp]:
  "integrity_row (chained_row ev tag k prev) =
   \<lparr>ir_event = ev, ir_tag = Some tag, ir_key_id = k, ir_integrity_version = 2, ir_prev_tag = Some prev\<rparr>"
  by (cases ev) (simp add: integrity_row_def chained_row_def)

lemma chained_row_simps [simp]:
  "er_conversation_id (chained_row ev tag k prev) = conversation_id ev" "er_seq (chained_row ev tag k prev) = seq ev"
  "er_integrity_version (chained_row ev tag k prev) = 2"
  by (simp_all add: chained_row_def)

text \<open>The row and head that a keyed write produces extend a verified conversation by one event.\<close>

lemma head_ok_extend:
  assumes "mac32 hmac" "key_for ring k = Some key" "head_ok hmac ring c rows h"
    and "seq ev = ih_head_seq h + 1"
    and "tag = hmac key (canonical_chain_event (v1_canonical ev) k (ih_head_tag h))"
  shows "head_ok hmac ring c
      (rows @ [\<lparr>ir_event = ev, ir_tag = Some tag, ir_key_id = k, ir_integrity_version = 2,
                ir_prev_tag = Some (ih_head_tag h)\<rparr>])
      \<lparr>ih_chain_start_seq = ih_chain_start_seq h, ih_head_seq = seq ev, ih_head_tag = tag,
       ih_genesis_key_id = ih_genesis_key_id h, ih_key_id = k,
       ih_checkpoint_tag = hmac key (canonical_checkpoint c (ih_chain_start_seq h) (seq ev) tag
         (ih_genesis_key_id h) k)\<rparr>"
  using assms
  by (auto simp: head_ok_def verify_integrity_head verify_legacy_append genesis_tag_def
      legacy_genesis_append_v2 verify_chain_append verify_chain_Cons chain_link_def
      checkpoint_signed_def mac32_def)

lemma chain_event_ok:
  assumes "mac32 hmac" "current_key ring = Some key"
    and ok: "head_ok hmac ring (conversation_id ev) (load_integrity_rows db (conversation_id ev)) h"
    and "seq ev = ih_head_seq h + 1"
  obtains h' row where
    "chain_event hmac ring key (conversation_id ev) ev h db = Inr (h', db\<lparr>state_events := state_events db @ [row]\<rparr>)"
    "er_conversation_id row = conversation_id ev" "er_seq row = seq ev" "ir_event (integrity_row row) = ev"
    "er_integrity_version row = 2"
    "load_integrity_rows (db\<lparr>state_events := state_events db @ [row]\<rparr>) (conversation_id ev) =
     load_integrity_rows db (conversation_id ev) @ [integrity_row row]"
    "head_ok hmac ring (conversation_id ev) (load_integrity_rows db (conversation_id ev) @ [integrity_row row]) h'"
    "ih_head_seq h' = seq ev"
proof -
  let ?tag = "hmac key (canonical_chain_event (v1_canonical ev) (ring_current_id ring) (ih_head_tag h))"
  let ?row = "chained_row ev ?tag (ring_current_id ring) (ih_head_tag h)"
  have key: "key_for ring (ring_current_id ring) = Some key"
    using assms(2) by (simp add: current_key_def)
  have len: "length (ih_head_tag h) = 32"
    using ok by (auto simp: head_ok_def verify_integrity_head)
  have lt: "seq (ir_event r) < er_seq ?row"
    if "r \<in> set (load_integrity_rows db (er_conversation_id ?row))" for r
    using head_ok_seq_le [OF ok, of r] that assms(4) by simp
  have ins: "insert_event_row ?row db = Inr (db\<lparr>state_events := state_events db @ [?row]\<rparr>)"
    by (rule insert_event_row_fresh) (rule lt)
  have rows: "load_integrity_rows (db\<lparr>state_events := state_events db @ [?row]\<rparr>) (conversation_id ev) =
     load_integrity_rows db (conversation_id ev) @ [integrity_row ?row]"
    using load_rows_insert [OF ins] lt by (simp add: less_imp_le)
  let ?h' = "\<lparr>ih_chain_start_seq = ih_chain_start_seq h, ih_head_seq = seq ev, ih_head_tag = ?tag,
     ih_genesis_key_id = ih_genesis_key_id h, ih_key_id = ring_current_id ring,
     ih_checkpoint_tag = hmac key (canonical_checkpoint (conversation_id ev) (ih_chain_start_seq h) (seq ev)
       ?tag (ih_genesis_key_id h) (ring_current_id ring))\<rparr>"
  have "chain_event hmac ring key (conversation_id ev) ev h db =
      Inr (?h', db\<lparr>state_events := state_events db @ [?row]\<rparr>)"
    using assms(2,4) len ins by (simp add: chain_event_def fixed_tag_def advance_integrity_head_def sign_event_def Let_def)
  moreover have "head_ok hmac ring (conversation_id ev) (load_integrity_rows db (conversation_id ev) @ [integrity_row ?row]) ?h'"
    using head_ok_extend [OF assms(1) key ok assms(4) refl] by simp
  ultimately show ?thesis using rows by (intro that [of ?h' ?row]) simp_all
qed

text \<open>Storing the head.\<close>

lemma load_head_write [simp]:
  "load_integrity_head (write_integrity_head now c h db) c = Some h"
proof (cases "find (\<lambda>h. hr_conversation_id h = c) (state_event_integrity_heads db)")
  case None
  then show ?thesis by (simp add: load_integrity_head_def write_integrity_head_def Let_def find_append)
next
  case (Some y)
  then show ?thesis
    using find_SomeD [OF Some]
    by (simp add: load_integrity_head_def write_integrity_head_def Let_def
        find_update_where_key [where k = hr_conversation_id])
qed

lemma load_head_write_other [simp]:
  "c' \<noteq> c \<Longrightarrow> load_integrity_head (write_integrity_head now c h db) c' = load_integrity_head db c'"
  unfolding load_integrity_head_def write_integrity_head_def Let_def
  by (auto simp: find_append find_update_where_key [where k = hr_conversation_id] option.map_comp comp_def
      split: option.splits dest: find_SomeD)

lemma write_head_frame [simp]:
  "state_events (write_integrity_head now c h db) = state_events db"
  "load_integrity_rows (write_integrity_head now c h db) c' = load_integrity_rows db c'"
  "state_outbox (write_integrity_head now c h db) = state_outbox db"
  "state_runs (write_integrity_head now c h db) = state_runs db"
  "load_integrity_head (db\<lparr>state_events := es\<rparr>) c = load_integrity_head db c"
  by (simp_all add: write_integrity_head_def load_integrity_rows_def load_integrity_head_def Let_def)


section \<open>Reading back\<close>

lemma replay_since_ok:
  "chain_ok hmac ring c db \<Longrightarrow> replay_since hmac (Some ring) db c n =
     Inr (map ir_event (filter (\<lambda>row. seq (ir_event row) > n) (load_integrity_rows db c)))"
  by (auto simp: chain_ok_def head_ok_def replay_since_def Let_def split: option.splits)

lemma chain_ok_seq_pos:
  assumes "chain_ok hmac ring c db" "row \<in> set (load_integrity_rows db c)"
  shows "1 \<le> seq (ir_event row)"
proof (cases "load_integrity_head db c")
  case None
  with assms show ?thesis by (auto simp: chain_ok_def list_all_iff Let_def)
next
  case (Some h)
  with assms(1) have ok: "head_ok hmac ring c (load_integrity_rows db c) h" by (simp add: chain_ok_def)
  then obtain p s where "verify_chain hmac ring p (ih_chain_start_seq h)
      (filter (\<lambda>row. ir_integrity_version row = 2) (load_integrity_rows db c)) = Inr (ih_head_tag h, s)"
    by (auto simp: head_ok_def verify_integrity_head)
  with verify_chain_seqs head_ok_start [OF ok] assms(2)
  have "ir_integrity_version row = 2 \<Longrightarrow> 1 \<le> seq (ir_event row)" by fastforce
  with ok assms(2) show ?thesis by (auto simp: head_ok_def list_all_iff)
qed

lemma replay_all:
  assumes "chain_ok hmac ring c db"
  shows "replay_since hmac (Some ring) db c 0 = Inr (map ir_event (load_integrity_rows db c))"
proof -
  have "filter (\<lambda>row. seq (ir_event row) > 0) (load_integrity_rows db c) = load_integrity_rows db c"
    using chain_ok_seq_pos [OF assms] by (force simp: filter_id_conv)
  with assms show ?thesis by (simp add: replay_since_ok)
qed

lemma sorted_last_Max: "sorted xs \<Longrightarrow> xs \<noteq> [] \<Longrightarrow> last xs = Max (set xs)"
  by (cases xs rule: rev_cases) (auto simp: sorted_append intro!: Max_eqI [symmetric])

lemma last_seq_tail: "last_seq db c = tail_seq (load_integrity_rows db c)"
proof -
  let ?es = "filter (\<lambda>r. er_conversation_id r = c) (state_events db)"
  show ?thesis
  proof (cases "map er_seq ?es")
    case Nil
    then show ?thesis by (simp add: last_seq_def tail_seq_def load_integrity_rows_def)
  next
    case (Cons s ss)
    have ne: "map er_seq (sort_key er_seq ?es) \<noteq> []"
      using Cons by (metis Nil_is_map_conv length_0_conv length_sort list.distinct(1))
    then have "tail_seq (load_integrity_rows db c) = last (map er_seq (sort_key er_seq ?es))"
      by (auto simp: tail_seq_def load_integrity_rows_def last_map)
    also have "\<dots> = Max (set (map er_seq ?es))"
      using sorted_last_Max [OF sorted_sort_key ne] by simp
    also have "\<dots> = last_seq db c"
      unfolding last_seq_def Cons by (simp only: Max.set_eq_fold list.case)
    finally show ?thesis by simp
  qed
qed

lemma keyed_head_seq:
  assumes "mac32 hmac" "current_key ring = Some key" "chain_ok hmac ring c db"
  obtains h where "keyed_head hmac (Some ring) c db = Inr h" "head_ok hmac ring c (load_integrity_rows db c) h"
    "ih_head_seq h = last_seq db c"
  using keyed_head_ok [OF assms] by (auto simp: head_ok_def last_seq_tail)

section \<open>A sequence of keyed writes\<close>

fun contiguous :: "int \<Rightarrow> EventRecord list \<Rightarrow> bool" where
  "contiguous s [] = True"
| "contiguous s (ev # evs) = (seq ev = s \<and> contiguous (s + 1) evs)"

lemma contiguous_iff: "contiguous s evs \<longleftrightarrow> map seq evs = map (\<lambda>i. s + int i) [0..<length evs]"
  by (induction evs arbitrary: s) (auto simp: map_upt_Suc add.assoc simp del: upt_Suc)

lemma contiguous_shift:
  "contiguous s evs \<Longrightarrow> contiguous (s + d) (map (\<lambda>ev. ev\<lparr>seq := seq ev + d\<rparr>) evs)"
proof (induction evs arbitrary: s)
  case (Cons ev evs)
  then have "contiguous (s + 1 + d) (map (\<lambda>ev. ev\<lparr>seq := seq ev + d\<rparr>) evs)" by simp
  with Cons.prems show ?case by (simp add: algebra_simps)
qed simp

lemma chain_events_ok:
  assumes "mac32 hmac" "current_key ring = Some key"
    and "head_ok hmac ring c (load_integrity_rows db c) h"
    and "list_all (\<lambda>ev. conversation_id ev = c) evs" "contiguous (ih_head_seq h + 1) evs"
  shows "\<exists>h' rows. chain_events hmac ring key c evs h db = Inr (h', db\<lparr>state_events := state_events db @ rows\<rparr>)
     \<and> map (\<lambda>r. ir_event (integrity_row r)) rows = evs \<and> list_all (\<lambda>r. er_conversation_id r = c) rows
     \<and> load_integrity_rows (db\<lparr>state_events := state_events db @ rows\<rparr>) c =
         load_integrity_rows db c @ map integrity_row rows
     \<and> head_ok hmac ring c (load_integrity_rows db c @ map integrity_row rows) h'"
  using assms(3,4,5)
proof (induction evs arbitrary: h db)
  case Nil
  then show ?case by (intro exI [of _ h] exI [of _ "[]"]) simp
next
  case (Cons ev evs)
  then have c: "conversation_id ev = c" and s: "seq ev = ih_head_seq h + 1" by simp_all
  obtain h1 row where 1:
    "chain_event hmac ring key c ev h db = Inr (h1, db\<lparr>state_events := state_events db @ [row]\<rparr>)"
    "er_conversation_id row = c" "ir_event (integrity_row row) = ev"
    "load_integrity_rows (db\<lparr>state_events := state_events db @ [row]\<rparr>) c = load_integrity_rows db c @ [integrity_row row]"
    "head_ok hmac ring c (load_integrity_rows db c @ [integrity_row row]) h1" "ih_head_seq h1 = seq ev"
    using chain_event_ok [OF assms(1,2) Cons.prems(1) [folded c] s] unfolding c by blast
  let ?db1 = "db\<lparr>state_events := state_events db @ [row]\<rparr>"
  have "head_ok hmac ring c (load_integrity_rows ?db1 c) h1" "contiguous (ih_head_seq h1 + 1) evs"
    "list_all (\<lambda>ev. conversation_id ev = c) evs"
    using 1(4,5,6) Cons.prems s by simp_all
  from Cons.IH [OF this(1,3,2)] obtain h' rows where 2:
    "chain_events hmac ring key c evs h1 ?db1 = Inr (h', ?db1\<lparr>state_events := state_events ?db1 @ rows\<rparr>)"
    "map (\<lambda>r. ir_event (integrity_row r)) rows = evs" "list_all (\<lambda>r. er_conversation_id r = c) rows"
    "load_integrity_rows (?db1\<lparr>state_events := state_events ?db1 @ rows\<rparr>) c =
       load_integrity_rows ?db1 c @ map integrity_row rows"
    "head_ok hmac ring c (load_integrity_rows ?db1 c @ map integrity_row rows) h'" by blast
  show ?case
    by (intro exI [of _ h'] exI [of _ "row # rows"]) (use 1 2 in simp)
qed


lemma load_rows_append_other:
  "list_all (\<lambda>r. er_conversation_id r = c) rows \<Longrightarrow> c' \<noteq> c \<Longrightarrow>
   load_integrity_rows (db\<lparr>state_events := state_events db @ rows\<rparr>) c' = load_integrity_rows db c'"
proof -
  assume "list_all (\<lambda>r. er_conversation_id r = c) rows" "c' \<noteq> c"
  then have "filter (\<lambda>r. er_conversation_id r = c') rows = []"
    by (auto simp: filter_empty_conv list_all_iff)
  then show ?thesis by (simp add: load_integrity_rows_def)
qed

text \<open>A conversation depends on its own rows and its own head only.\<close>

lemma conversation_frame:
  assumes "load_integrity_rows db' c = load_integrity_rows db c" "load_integrity_head db' c = load_integrity_head db c"
  shows "chain_ok hmac ring c db' = chain_ok hmac ring c db" "replay_since hmac r db' c n = replay_since hmac r db c n"
  using assms by (simp_all add: chain_ok_def replay_since_def)

text \<open>The database after a keyed write of \<open>rows\<close> to conversation \<open>c\<close> that leaves the head \<open>h\<close>.\<close>

definition keyed_write :: "int \<Rightarrow> string \<Rightarrow> event_row list \<Rightarrow> IntegrityHead \<Rightarrow> database \<Rightarrow> database" where
  "keyed_write now c rows h db = write_integrity_head now c h (db\<lparr>state_events := state_events db @ rows\<rparr>)"

lemma keyed_write_other:
  assumes "list_all (\<lambda>r. er_conversation_id r = c) rows" "c' \<noteq> c"
  shows "replay_since hmac r (keyed_write now c rows h db) c' n = replay_since hmac r db c' n"
    and "chain_ok hmac ring c' (keyed_write now c rows h db) = chain_ok hmac ring c' db"
proof -
  have "load_integrity_rows (keyed_write now c rows h db) c' = load_integrity_rows db c'"
    "load_integrity_head (keyed_write now c rows h db) c' = load_integrity_head db c'"
    using assms load_rows_append_other [OF assms]
    by (simp_all add: keyed_write_def)
  from conversation_frame [OF this]
  show "replay_since hmac r (keyed_write now c rows h db) c' n = replay_since hmac r db c' n"
    and "chain_ok hmac ring c' (keyed_write now c rows h db) = chain_ok hmac ring c' db" by simp_all
qed

lemma keyed_write_ok:
  assumes "load_integrity_rows (db\<lparr>state_events := state_events db @ rows\<rparr>) c =
      load_integrity_rows db c @ map integrity_row rows"
    and "head_ok hmac ring c (load_integrity_rows db c @ map integrity_row rows) h"
  shows "chain_ok hmac ring c (keyed_write now c rows h db)"
    and "load_integrity_rows (keyed_write now c rows h db) c = load_integrity_rows db c @ map integrity_row rows"
  using assms by (simp_all add: chain_ok_def keyed_write_def)

section \<open>Append\<close>

lemma append_keyed:
  assumes "mac32 hmac" "current_key ring = Some key" "chain_ok hmac ring (conversation_id ev) db"
    and "seq ev = last_seq db (conversation_id ev) + 1"
  obtains h rows where "EventLog_append hmac (Some ring) now ev db = (Inr (), keyed_write now (conversation_id ev) rows h db)"
    "map (\<lambda>r. ir_event (integrity_row r)) rows = [ev]" "list_all (\<lambda>r. er_conversation_id r = conversation_id ev) rows"
    "chain_ok hmac ring (conversation_id ev) (keyed_write now (conversation_id ev) rows h db)"
    "load_integrity_rows (keyed_write now (conversation_id ev) rows h db) (conversation_id ev) =
     load_integrity_rows db (conversation_id ev) @ map integrity_row rows"
proof -
  let ?c = "conversation_id ev"
  obtain h0 where h0: "keyed_head hmac (Some ring) ?c db = Inr h0" "ih_head_seq h0 = last_seq db ?c"
    and ok: "head_ok hmac ring ?c (load_integrity_rows db ?c) h0"
    using keyed_head_seq [OF assms(1-3)] by blast
  from assms(4) h0(2) have s: "seq ev = ih_head_seq h0 + 1" by simp
  then obtain h rows where w: "chain_events hmac ring key ?c [ev] h0 db = Inr (h, db\<lparr>state_events := state_events db @ rows\<rparr>)"
    "map (\<lambda>r. ir_event (integrity_row r)) rows = [ev]" "list_all (\<lambda>r. er_conversation_id r = ?c) rows"
    and rows: "load_integrity_rows (db\<lparr>state_events := state_events db @ rows\<rparr>) ?c =
         load_integrity_rows db ?c @ map integrity_row rows"
      "head_ok hmac ring ?c (load_integrity_rows db ?c @ map integrity_row rows) h"
    using chain_events_ok [OF assms(1,2) ok, of "[ev]"] by auto
  from w(1) h0(1) s assms(2)
  have "EventLog_append hmac (Some ring) now ev db = (Inr (), keyed_write now ?c rows h db)"
    by (auto simp: EventLog_append_def append_tx_def transaction_def keyed_write_def split: sum.splits)
  then show ?thesis using w(2,3) keyed_write_ok [OF rows] by (rule that)
qed

lemma append_stale:
  assumes "mac32 hmac" "current_key ring = Some key" "chain_ok hmac ring (conversation_id ev) db"
    and "seq ev \<noteq> last_seq db (conversation_id ev) + 1"
  shows "EventLog_append hmac (Some ring) now ev db = (Inl (Invariant ''v2 write expected the next seq''), db)"
proof -
  obtain h where "keyed_head hmac (Some ring) (conversation_id ev) db = Inr h"
    "ih_head_seq h = last_seq db (conversation_id ev)"
    using keyed_head_seq [OF assms(1-3)] by blast
  with assms(4) show ?thesis by (simp add: EventLog_append_def append_tx_def transaction_def)
qed

section \<open>Committing a turn\<close>

lemma shift_events_contiguous:
  assumes "contiguous (base + 1) evs" "base \<le> m"
  shows "contiguous (m + 1) (shift_events m base evs)"
  using contiguous_shift [OF assms(1), of "m - base"] assms
  by (cases "m = base") (simp_all add: shift_events_def Let_def algebra_simps)

lemma shift_events_view [simp]:
  "map record_view (shift_events m base evs) = map record_view evs"
  "list_all (\<lambda>ev. conversation_id ev = c) (shift_events m base evs) = list_all (\<lambda>ev. conversation_id ev = c) evs"
  "map (use_ordinal mp) (shift_events m base evs) = map (use_ordinal mp) evs"
  "map (result_ordinal mp) (shift_events m base evs) = map (result_ordinal mp) evs"
  by (simp_all add: shift_events_def Let_def record_view_def comp_def list_all_length use_ordinal_def
      result_ordinal_def)

lemma commit_tx_tail: "(if load_integrity_rows db c = [] then 0 else seq (ir_event (last (load_integrity_rows db c)))) = last_seq db c"
  by (simp add: last_seq_tail tail_seq_def)


lemma release_frame [simp]:
  "state_events (release_staged_transport_effects mp c evs db) = state_events db"
  "state_event_integrity_heads (release_staged_transport_effects mp c evs db) = state_event_integrity_heads db"
proof -
  have fold: "state_events (fold (\<lambda>n. release_key (f n)) ns db) = state_events db \<and>
      state_event_integrity_heads (fold (\<lambda>n. release_key (f n)) ns db) = state_event_integrity_heads db" for f and ns :: "nat list"
    by (induction ns arbitrary: db) (simp_all add: release_key_def)
  then show "state_events (release_staged_transport_effects mp c evs db) = state_events db"
    "state_event_integrity_heads (release_staged_transport_effects mp c evs db) = state_event_integrity_heads db"
    by (simp_all add: release_staged_transport_effects_def Let_def split: option.splits)
qed

lemma load_frame:
  assumes "state_events db' = state_events db" "state_event_integrity_heads db' = state_event_integrity_heads db"
  shows "load_integrity_rows db' c = load_integrity_rows db c" "load_integrity_head db' c = load_integrity_head db c"
  using assms by (simp_all add: load_integrity_rows_def load_integrity_head_def)

lemma enforce_tool_pairing_conversation:
  "enforce_tool_pairing mp now c base evs = Inr out \<Longrightarrow> list_all (\<lambda>ev. conversation_id ev = c) out"
  by (auto simp: enforce_tool_pairing_def list_all_iff split: sum.splits dest: pair_events_frame)

lemma enforce_tool_pairing_contiguous:
  "enforce_tool_pairing mp now c base evs = Inr out \<Longrightarrow> contiguous (base + 1) out"
  by (simp add: contiguous_iff enforce_tool_pairing_seqs)

lemma enforce_tool_pairing_subseq:
  "enforce_tool_pairing mp now c base evs = Inr out \<Longrightarrow> subseq (map pending_view evs) (map record_view out)"
  by (auto simp: enforce_tool_pairing_def split: sum.splits dest: pair_events_subseq)

lemma commit_turn_keyed:
  assumes "mac32 hmac" "current_key ring = Some key" "chain_ok hmac ring c db"
    and pair: "enforce_tool_pairing mp now c base evs = Inr out" and base: "base \<le> last_seq db c"
  obtains db' h rows where
    "commit_turn mp hmac (Some ring) now now_head c base evs db =
       (Inr (shift_events (last_seq db c) base out), db')"
    "map (\<lambda>r. ir_event (integrity_row r)) rows = shift_events (last_seq db c) base out"
    "chain_ok hmac ring c db'"
    "load_integrity_rows db' c = load_integrity_rows db c @ map integrity_row rows"
    "\<And>c' n. c' \<noteq> c \<Longrightarrow> replay_since hmac (Some ring) db' c' n = replay_since hmac (Some ring) db c' n"
proof -
  let ?out = "shift_events (last_seq db c) base out"
  obtain h0 where h0: "keyed_head hmac (Some ring) c db = Inr h0" "ih_head_seq h0 = last_seq db c"
    and ok: "head_ok hmac ring c (load_integrity_rows db c) h0"
    using keyed_head_seq [OF assms(1-3)] by blast
  have c: "list_all (\<lambda>ev. conversation_id ev = c) ?out"
    using enforce_tool_pairing_conversation [OF pair] by simp
  have cont: "contiguous (ih_head_seq h0 + 1) ?out"
    unfolding h0(2) by (rule shift_events_contiguous [OF enforce_tool_pairing_contiguous [OF pair] base])
  from chain_events_ok [OF assms(1,2) ok c cont] obtain h rows where
    w: "chain_events hmac ring key c ?out h0 db = Inr (h, db\<lparr>state_events := state_events db @ rows\<rparr>)"
      "map (\<lambda>r. ir_event (integrity_row r)) rows = ?out" "list_all (\<lambda>r. er_conversation_id r = c) rows"
    and rows: "load_integrity_rows (db\<lparr>state_events := state_events db @ rows\<rparr>) c =
         load_integrity_rows db c @ map integrity_row rows"
      "head_ok hmac ring c (load_integrity_rows db c @ map integrity_row rows) h" by blast
  let ?w = "keyed_write now_head c rows h db"
  define db' where "db' = (if list_ex (\<lambda>ev. kind ev = ToolResult) out
     then release_staged_transport_effects mp c ?out ?w else ?w)"
  have "commit_turn mp hmac (Some ring) now now_head c base evs db = (Inr ?out, db')"
    using pair h0(1) assms(2) w(1)
    by (simp add: commit_turn_def commit_turn_with_projection_def commit_tx_def Let_def commit_tx_tail
        keyed_write_def db'_def transaction_def)
  moreover have "state_events db' = state_events ?w" "state_event_integrity_heads db' = state_event_integrity_heads ?w"
    by (simp_all add: db'_def)
  note frame = load_frame [OF this]
  note conv = conversation_frame [OF frame]
  have "chain_ok hmac ring c db'" "load_integrity_rows db' c = load_integrity_rows db c @ map integrity_row rows"
    using keyed_write_ok [OF rows] by (simp_all add: conv frame)
  moreover have "replay_since hmac (Some ring) db' c' n = replay_since hmac (Some ring) db c' n" if "c' \<noteq> c" for c' n
    using keyed_write_other(1) [OF w(3) that] by (simp add: conv)
  ultimately show ?thesis using w(2) by (intro that)
qed

section \<open>Key rotation\<close>

text \<open>Registering keys under new ids keeps every verdict that was positive.\<close>

definition ring_extends :: "KeyRing \<Rightarrow> KeyRing \<Rightarrow> bool" where
  "ring_extends ring ring' \<longleftrightarrow> (\<forall>i k. key_for ring i = Some k \<longrightarrow> key_for ring' i = Some k)"

lemma ring_extends_rotate: "key_for ring i = None \<Longrightarrow> ring_extends ring (snd (KeyRing_rotate i key ring))"
  by (auto simp: ring_extends_def key_for_rotate)

lemma verify_chain_extends:
  "ring_extends ring ring' \<Longrightarrow> verify_chain hmac ring p s rows = Inr r \<Longrightarrow> verify_chain hmac ring' p s rows = Inr r"
proof (induction rows arbitrary: p s)
  case (Cons row rows)
  then obtain tag where tag: "chain_link hmac ring p s row tag" "verify_chain hmac ring tag (s + 1) rows = Inr r"
    by (auto simp: verify_chain_Cons)
  with Cons have "chain_link hmac ring' p s row tag" by (auto simp: chain_link_def ring_extends_def)
  with Cons tag(2) show ?case by (auto simp: verify_chain_Cons)
qed simp

lemma verify_legacy_extends:
  "ring_extends ring ring' \<Longrightarrow> verify_legacy_rows hmac (Some ring) rows = Inr () \<Longrightarrow>
   verify_legacy_rows hmac (Some ring') rows = Inr ()"
  by (induction rows) (auto simp: verify_def ring_extends_def split: if_splits sum.splits option.splits)

lemma chain_ok_extends:
  assumes "ring_extends ring ring'" "chain_ok hmac ring c db"
  shows "chain_ok hmac ring' c db"
  using assms verify_chain_extends [OF assms(1)] verify_legacy_extends [OF assms(1)]
  by (auto simp: chain_ok_def head_ok_def verify_integrity_Inr checkpoint_signed_def ring_extends_def Let_def
      split: option.splits; blast)

end
