(* ===== verification/Tamper.thy ===== *)
theory Tamper
  imports Event_Chain
begin

text \<open>
  Tamper evidence of the integrity chain of \<open>crates/core/src/events.rs\<close>: two stores of a
  conversation that both verify and end in the same head tag hold the same signed history, unless
  two of the messages that were signed for these two stores have the same MAC. The assumption on the MAC
  ranges over the finitely many messages of the two stores only.
\<close>

section \<open>What a signature covers\<close>

text \<open>
  The part of an event that its signature fixes: conversation, number, kind and time as fields of
  their own, the actor and the payload only joined by one NUL byte. Where no actor holds a NUL byte
  this fixes the actor and the payload too, but for an absent actor and an empty one.
\<close>

type_synonym signed_view = "string \<times> int \<times> EventKind \<times> int \<times> string"

definition signed_view :: "EventRecord \<Rightarrow> signed_view" where
  "signed_view ev = (conversation_id ev, seq ev, kind ev, committed_at ev,
     actor_bytes (actor ev) @ [CHR 0x00] @ payload ev)"

definition i64_event :: "EventRecord \<Rightarrow> bool" where
  "i64_event ev \<longleftrightarrow> i64_range (seq ev) \<and> i64_range (committed_at ev)"

lemma v1_canonical_signed_view:
  assumes "i64_event a" "i64_event b" "conversation_id a = conversation_id b" "v1_canonical a = v1_canonical b"
  shows "signed_view a = signed_view b"
proof -
  let ?tail = "\<lambda>ev. actor_bytes (actor ev) @ [CHR 0x00] @ payload ev"
  have "le_bytes 8 (seq a) @ nul_field (EventKind_as_str (kind a)) @ le_bytes 8 (committed_at a) @ ?tail a =
      le_bytes 8 (seq b) @ nul_field (EventKind_as_str (kind b)) @ le_bytes 8 (committed_at b) @ ?tail b"
    using assms(3,4) by (simp add: v1_canonical_def canonical_bytes_fields nul_field_def)
  from i64_code.unique [OF _ _ this] assms(1,2) have "seq a = seq b" and
    1: "nul_field (EventKind_as_str (kind a)) @ le_bytes 8 (committed_at a) @ ?tail a =
      nul_field (EventKind_as_str (kind b)) @ le_bytes 8 (committed_at b) @ ?tail b" by (simp_all add: i64_event_def)
  from nul_code.unique [OF EventKind_as_str_nul_free EventKind_as_str_nul_free 1]
  have "kind a = kind b" and 2: "le_bytes 8 (committed_at a) @ ?tail a = le_bytes 8 (committed_at b) @ ?tail b"
    using EventKind_as_str_inj by simp_all
  from i64_code.unique [OF _ _ 2] assms(1,2) have "committed_at a = committed_at b" "?tail a = ?tail b"
    by (simp_all add: i64_event_def)
  with \<open>seq a = seq b\<close> \<open>kind a = kind b\<close> assms(3) show ?thesis by (simp add: signed_view_def)
qed

lemma signed_view_fields:
  assumes "signed_view a = signed_view b" "nul_free (actor_bytes (actor a))" "nul_free (actor_bytes (actor b))"
  shows "actor_bytes (actor a) = actor_bytes (actor b) \<and> payload a = payload b"
proof -
  have "nul_field (actor_bytes (actor a)) @ payload a = nul_field (actor_bytes (actor b)) @ payload b"
    using assms(1) by (simp add: signed_view_def nul_field_def)
  from nul_code.unique [OF assms(2,3) this] show ?thesis by simp
qed

lemma signed_view_iff:
  "signed_view a = signed_view b \<longleftrightarrow> conversation_id a = conversation_id b \<and> seq a = seq b \<and> kind a = kind b \<and>
     committed_at a = committed_at b \<and>
     actor_bytes (actor a) @ [CHR 0x00] @ payload a = actor_bytes (actor b) @ [CHR 0x00] @ payload b"
  unfolding signed_view_def prod.inject by (rule refl)

lemma list_all2_signed_view:
  assumes "list_all2 (\<lambda>a b. signed_view a = signed_view b) xs ys"
    and "\<forall>ev \<in> set xs \<union> set ys. conversation_id ev = c"
  shows "list_all2 (\<lambda>a b. conversation_id a = c \<and> conversation_id b = c \<and> seq a = seq b \<and> kind a = kind b \<and>
      committed_at a = committed_at b \<and>
      actor_bytes (actor a) @ [CHR 0x00] @ payload a = actor_bytes (actor b) @ [CHR 0x00] @ payload b \<and>
      (nul_free (actor_bytes (actor a)) \<and> nul_free (actor_bytes (actor b)) \<longrightarrow>
        actor_bytes (actor a) = actor_bytes (actor b) \<and> payload a = payload b)) xs ys"
  using assms(1)
proof (rule list.rel_mono_strong)
  fix a b
  assume "a \<in> set xs" "b \<in> set ys" "signed_view a = signed_view b"
  with assms(2) signed_view_fields [of a b] signed_view_iff [of a b]
  show "conversation_id a = c \<and> conversation_id b = c \<and> seq a = seq b \<and> kind a = kind b \<and>
      committed_at a = committed_at b \<and>
      actor_bytes (actor a) @ [CHR 0x00] @ payload a = actor_bytes (actor b) @ [CHR 0x00] @ payload b \<and>
      (nul_free (actor_bytes (actor a)) \<and> nul_free (actor_bytes (actor b)) \<longrightarrow>
        actor_bytes (actor a) = actor_bytes (actor b) \<and> payload a = payload b)" by blast
qed

text \<open>The separator after the actor can be moved: bytes of the payload become bytes of the actor.\<close>

lemma actor_payload_shift:
  "v1_canonical (ev\<lparr>actor := Some (a @ [CHR 0x00] @ p), payload := q\<rparr>) =
   v1_canonical (ev\<lparr>actor := Some a, payload := p @ [CHR 0x00] @ q\<rparr>)"
  by (simp add: v1_canonical_def canonical_bytes_def)

text \<open>The keyed messages behind the tags of a list of rows.\<close>

definition row_message :: "KeyRing \<Rightarrow> IntegrityRow \<Rightarrow> string option \<times> string" where
  "row_message ring row = (key_for ring (ir_key_id row),
     canonical_chain_event (v1_canonical (ir_event row)) (ir_key_id row) (the (ir_prev_tag row)))"

definition tag_of :: "(string \<Rightarrow> string \<Rightarrow> string) \<Rightarrow> string option \<times> string \<Rightarrow> string" where
  "tag_of hmac km = hmac (the (fst km)) (snd km)"

lemma chain_link_tag: "chain_link hmac ring p s row tag \<Longrightarrow> tag = tag_of hmac (row_message ring row)"
  by (auto simp: chain_link_def tag_of_def row_message_def)

definition i64_row :: "IntegrityRow \<Rightarrow> bool" where
  "i64_row row \<longleftrightarrow> i64_event (ir_event row) \<and> i64_range (ir_key_id row)"

lemma row_message_eq:
  assumes "row_message ring a = row_message ring b"
    and "i64_row a" "i64_row b" "conversation_id (ir_event a) = conversation_id (ir_event b)"
    and "chain_link hmac ring p s a t" "chain_link hmac ring q s' b t'"
  shows "p = q \<and> signed_view (ir_event a) = signed_view (ir_event b)"
proof -
  have "ir_prev_tag a = Some p" "ir_prev_tag b = Some q" "length p = length q"
    using assms(5,6) by (auto simp: chain_link_def)
  note prev = this
  have eq: "canonical_chain_event (v1_canonical (ir_event a)) (ir_key_id a) p =
      canonical_chain_event (v1_canonical (ir_event b)) (ir_key_id b) q"
    using assms(1) prev(1,2) by (simp add: row_message_def)
  have ranges: "i64_event (ir_event a)" "i64_event (ir_event b)" "i64_range (ir_key_id a)" "i64_range (ir_key_id b)"
    using assms(2,3) by (simp_all add: i64_row_def)
  from canonical_chain_event_inj [OF ranges(3,4) prev(3) eq]
  have "v1_canonical (ir_event a) = v1_canonical (ir_event b)" "p = q" by simp_all
  with v1_canonical_signed_view [OF ranges(1,2) assms(4)] show ?thesis by simp
qed

section \<open>Chains with the same end\<close>

text \<open>A row of a conversation, with its numbers in the 64 bits of their columns.\<close>

definition row_of :: "string \<Rightarrow> IntegrityRow \<Rightarrow> bool" where
  "row_of c row \<longleftrightarrow> conversation_id (ir_event row) = c \<and> i64_row row"

definition chained_rows :: "IntegrityRow list \<Rightarrow> IntegrityRow list" where
  "chained_rows rows = filter (\<lambda>row. ir_integrity_version row = 2) rows"

lemma row_of_load:
  assumes "list_all i64_row (load_integrity_rows db c)"
  shows "list_all (row_of c) (chained_rows (load_integrity_rows db c))"
  using assms
  by (auto simp: chained_rows_def row_of_def list_all_iff set_load_rows integrity_row_def)

lemma verify_chain_snoc:
  "verify_chain hmac ring p s (rows @ [row]) = Inr (t, s') \<longleftrightarrow>
   (\<exists>p' s0. verify_chain hmac ring p s rows = Inr (p', s0) \<and> chain_link hmac ring p' s0 row t \<and> s' = s0 + 1)"
  by (auto simp: verify_chain_append verify_chain_Cons)

lemma chains_agree:
  assumes "verify_chain hmac ring (tag_of hmac ga) sa as = Inr (t, ea)"
    and "verify_chain hmac ring (tag_of hmac gb) sb bs = Inr (t, eb)"
    and "inj_on (tag_of hmac) ({ga, gb} \<union> row_message ring ` (set as \<union> set bs))"
    and "\<And>v k p. snd ga \<noteq> canonical_chain_event v k p" "\<And>v k p. snd gb \<noteq> canonical_chain_event v k p"
    and "list_all (row_of c) as" "list_all (row_of c) bs"
  shows "ga = gb \<and> map (\<lambda>row. signed_view (ir_event row)) as = map (\<lambda>row. signed_view (ir_event row)) bs"
  using assms
proof (induction as arbitrary: bs t ea eb rule: rev_induct)
  case Nil
  then have t: "t = tag_of hmac ga" by simp
  show ?case
  proof (cases bs rule: rev_cases)
    case Nil
    with Nil.prems(2) t have "ga = gb" by (intro inj_onD [OF Nil.prems(3)]) simp_all
    with Nil show ?thesis by simp
  next
    case (snoc bs' b)
    with Nil.prems(2) have "t = tag_of hmac (row_message ring b)"
      by (auto simp: verify_chain_snoc dest: chain_link_tag)
    with t snoc have "ga = row_message ring b" by (intro inj_onD [OF Nil.prems(3)]) simp_all
    with Nil.prems(4) show ?thesis by (auto simp: row_message_def)
  qed
next
  case (snoc a as)
  from snoc.prems(1) obtain pa s1 where a: "verify_chain hmac ring (tag_of hmac ga) sa as = Inr (pa, s1)"
    "chain_link hmac ring pa s1 a t" by (auto simp: verify_chain_snoc)
  then have ta: "t = tag_of hmac (row_message ring a)" by (auto dest: chain_link_tag)
  show ?case
  proof (cases bs rule: rev_cases)
    case Nil
    with snoc.prems(2) have "t = tag_of hmac gb" by simp
    with ta have "gb = row_message ring a" by (intro inj_onD [OF snoc.prems(3)]) simp_all
    with snoc.prems(5) show ?thesis by (auto simp: row_message_def)
  next
    case (snoc bs' b)
    with snoc.prems(2) obtain pb s2 where b: "verify_chain hmac ring (tag_of hmac gb) sb bs' = Inr (pb, s2)"
      "chain_link hmac ring pb s2 b t" by (auto simp: verify_chain_snoc)
    then have "t = tag_of hmac (row_message ring b)" by (auto dest: chain_link_tag)
    with ta snoc have "row_message ring a = row_message ring b" by (intro inj_onD [OF snoc.prems(3)]) simp_all
    moreover have "row_of c a" "row_of c b" using snoc snoc.prems(6,7) by simp_all
    ultimately have same: "pa = pb" "signed_view (ir_event a) = signed_view (ir_event b)"
      using row_message_eq [OF _ _ _ _ a(2) b(2)] by (simp_all add: row_of_def)
    have inj: "inj_on (tag_of hmac) ({ga, gb} \<union> row_message ring ` (set as \<union> set bs'))"
      using snoc.prems(3) by (rule inj_on_subset) (auto simp: snoc)
    have wf: "list_all (row_of c) as" "list_all (row_of c) bs'" using snoc snoc.prems(6,7) by simp_all
    have "ga = gb \<and> map (\<lambda>row. signed_view (ir_event row)) as = map (\<lambda>row. signed_view (ir_event row)) bs'"
      by (rule snoc.IH [OF a(1) b(1) [folded same(1)] inj snoc.prems(4,5) wf])
    with snoc same(2) show ?thesis by simp
  qed
qed

section \<open>Stores with the same head\<close>

text \<open>The keyed genesis message of a store, and all its keyed messages.\<close>

definition genesis_message :: "KeyRing \<Rightarrow> string \<Rightarrow> IntegrityRow list \<Rightarrow> IntegrityHead \<Rightarrow> string option \<times> string" where
  "genesis_message ring c rows h = (key_for ring (ih_genesis_key_id h),
     legacy_genesis_canonical c (ih_chain_start_seq h) rows)"

definition signed_messages :: "KeyRing \<Rightarrow> string \<Rightarrow> IntegrityRow list \<Rightarrow> IntegrityHead \<Rightarrow> (string option \<times> string) set" where
  "signed_messages ring c rows h = insert (genesis_message ring c rows h) (row_message ring ` set (chained_rows rows))"

lemma verified_chain:
  assumes "verify_integrity hmac (Some ring) c rows (Some h) = Inr ()"
  obtains s where "verify_chain hmac ring (tag_of hmac (genesis_message ring c rows h)) (ih_chain_start_seq h)
    (chained_rows rows) = Inr (ih_head_tag h, s)"
  using assms
  by (auto simp: verify_integrity_head tag_of_def genesis_message_def genesis_tag_def sign_event_def chained_rows_def)

lemma stores_agree:
  assumes "verify_integrity hmac (Some ring) c rows (Some h) = Inr ()"
    and "verify_integrity hmac (Some ring) c rows' (Some h') = Inr ()"
    and "ih_head_tag h = ih_head_tag h'"
    and "inj_on (tag_of hmac) (signed_messages ring c rows h \<union> signed_messages ring c rows' h')"
    and "list_all (row_of c) (chained_rows rows)" "list_all (row_of c) (chained_rows rows')"
  shows "genesis_message ring c rows h = genesis_message ring c rows' h' \<and>
    map (\<lambda>row. signed_view (ir_event row)) (chained_rows rows) =
    map (\<lambda>row. signed_view (ir_event row)) (chained_rows rows')"
proof -
  obtain s s' where "verify_chain hmac ring (tag_of hmac (genesis_message ring c rows h)) (ih_chain_start_seq h)
      (chained_rows rows) = Inr (ih_head_tag h, s)"
    "verify_chain hmac ring (tag_of hmac (genesis_message ring c rows' h')) (ih_chain_start_seq h')
      (chained_rows rows') = Inr (ih_head_tag h, s')"
    using verified_chain [OF assms(1)] verified_chain [OF assms(2)] assms(3) by metis
  then show ?thesis
  proof (rule chains_agree)
    show "inj_on (tag_of hmac) ({genesis_message ring c rows h, genesis_message ring c rows' h'} \<union>
        row_message ring ` (set (chained_rows rows) \<union> set (chained_rows rows')))"
      using assms(4) by (rule inj_on_subset) (auto simp: signed_messages_def)
  qed (use assms(5,6) chain_neq_genesis [symmetric] in \<open>auto simp: genesis_message_def legacy_genesis_canonical_def\<close>)
qed

end
