(* ===== verification/Event_Properties.thy ===== *)
theory Event_Properties
  imports Tamper
begin

text \<open>
  The properties of the event log, stated on the operations of \<open>Event_Log\<close>, with concrete
  instances. The instances use \<open>sample_mac\<close>, a 32-byte MAC that keeps the last bytes of the message,
  and \<open>sample_msgpack\<close>, an encoder of the tool payloads that satisfies \<open>msgpack_roundtrip\<close>.
\<close>

section \<open>Sample parameters\<close>

definition sample_mac :: "string \<Rightarrow> string \<Rightarrow> string" where
  "sample_mac key message = take 32 (rev message @ replicate 32 (CHR 0x00))"

definition sample_ring :: KeyRing where
  "sample_ring = KeyRing_single 0 ''k''"

definition sample_event :: "int \<Rightarrow> string \<Rightarrow> EventRecord" where
  "sample_event s p = \<lparr>conversation_id = ''c'', seq = s, kind = UserMsg, payload = p, committed_at = 7,
     actor = Some ''ann''\<rparr>"

text \<open>A store with one event, written by \<open>append\<close>.\<close>

definition sample_store :: "string \<Rightarrow> database" where
  "sample_store p = snd (EventLog_append sample_mac (Some sample_ring) 7 (sample_event 1 p) empty_database)"

fun unary_nat :: "nat \<Rightarrow> string" where
  "unary_nat 0 = ''0''"
| "unary_nat (Suc n) = CHR ''1'' # unary_nat n"

fun of_unary :: "string \<Rightarrow> (nat \<times> string) option" where
  "of_unary [] = None"
| "of_unary (c # s) = (if c = CHR ''1'' then map_option (\<lambda>(n, r). (Suc n, r)) (of_unary s) else Some (0, s))"

definition sample_msgpack :: msgpack where
  "sample_msgpack = \<lparr>
     from_tool_use = (\<lambda>b. map_option (\<lambda>(n, r). \<lparr>tu_ordinal = n, tu_tool_name = r, tu_args_json = []\<rparr>) (of_unary b)),
     from_tool_result = (\<lambda>b. case of_unary b of
        Some (n, c # s) \<Rightarrow> Some \<lparr>tr_ordinal = n, tr_outcome = (if c = CHR ''E'' then Inl s else Inr s)\<rparr>
      | _ \<Rightarrow> None),
     to_tool_result = (\<lambda>p. Some (unary_nat (tr_ordinal p) @
        (case tr_outcome p of Inl s \<Rightarrow> CHR ''E'' # s | Inr s \<Rightarrow> CHR ''O'' # s)))\<rparr>"

lemma mac32_sample [simp]: "mac32 sample_mac"
  by (auto simp: mac32_def sample_mac_def min_def)

lemma current_key_sample [simp]: "current_key sample_ring = Some ''k''"
  by (simp add: sample_ring_def)

lemma of_unary_nat [simp]: "of_unary (unary_nat n @ s) = Some (n, s)"
  by (induction n) simp_all

lemma sample_msgpack_roundtrip: "msgpack_roundtrip sample_msgpack"
  unfolding msgpack_roundtrip_def
proof
  fix p :: ToolResultPayload
  show "\<exists>b. to_tool_result sample_msgpack p = Some b \<and> from_tool_result sample_msgpack b = Some p"
    by (cases p) (simp add: sample_msgpack_def split: sum.splits)
qed

lemma chain_ok_empty: "chain_ok hmac ring c empty_database"
  by (simp add: chain_ok_def load_integrity_rows_def load_integrity_head_def empty_database_def
      verify_integrity_no_head)

lemma last_seq_empty [simp]: "last_seq empty_database c = 0"
  by (simp add: last_seq_def empty_database_def)

lemma sample_event_simps [simp]:
  "conversation_id (sample_event s p) = ''c''" "seq (sample_event s p) = s"
  by (simp_all add: sample_event_def)

section \<open>Append and replay\<close>

text \<open>
  C1: Appending the next event to a verified conversation succeeds; the conversation still verifies,
  a replay returns exactly the earlier events followed by the new one, its sequence number is the
  last one, and every other conversation is untouched.
\<close>

theorem append_replay:
  assumes "mac32 hmac" "current_key ring = Some key" "chain_ok hmac ring (conversation_id ev) db"
    and "seq ev = last_seq db (conversation_id ev) + 1"
  shows "\<exists>db' old. EventLog_append hmac (Some ring) now ev db = (Inr (), db') \<and>
     replay_since hmac (Some ring) db (conversation_id ev) 0 = Inr old \<and>
     replay_since hmac (Some ring) db' (conversation_id ev) 0 = Inr (old @ [ev]) \<and>
     chain_ok hmac ring (conversation_id ev) db' \<and> last_seq db' (conversation_id ev) = seq ev \<and>
     (\<forall>c n. c \<noteq> conversation_id ev \<longrightarrow> replay_since hmac (Some ring) db' c n = replay_since hmac (Some ring) db c n)"
proof -
  obtain h rows where w: "EventLog_append hmac (Some ring) now ev db = (Inr (), keyed_write now (conversation_id ev) rows h db)"
    "map (\<lambda>r. ir_event (integrity_row r)) rows = [ev]" "list_all (\<lambda>r. er_conversation_id r = conversation_id ev) rows"
    "chain_ok hmac ring (conversation_id ev) (keyed_write now (conversation_id ev) rows h db)"
    "load_integrity_rows (keyed_write now (conversation_id ev) rows h db) (conversation_id ev) =
     load_integrity_rows db (conversation_id ev) @ map integrity_row rows"
    by (rule append_keyed [OF assms, of now]) (rule that)
  then obtain r where "rows = [r]" "ir_event (integrity_row r) = ev" by auto
  with w show ?thesis
    using replay_all [OF assms(3)] replay_all [OF w(4)] keyed_write_other(1) [OF w(3)]
    by (simp add: last_seq_tail)
qed

theorem append_replay_witness:
  "\<exists>db' old. EventLog_append sample_mac (Some sample_ring) 7 (sample_event 1 ''hi'') empty_database = (Inr (), db') \<and>
     replay_since sample_mac (Some sample_ring) empty_database ''c'' 0 = Inr old \<and>
     replay_since sample_mac (Some sample_ring) db' ''c'' 0 = Inr (old @ [sample_event 1 ''hi'']) \<and>
     chain_ok sample_mac sample_ring ''c'' db' \<and> last_seq db' ''c'' = 1"
  using append_replay [of sample_mac sample_ring "''k''" "sample_event 1 ''hi''" empty_database 7]
  by (auto simp: chain_ok_empty)


text \<open>
  An append whose sequence number is not the next one, a duplicate, a gap or a lost race, is
  refused with an invariant error and changes nothing.
\<close>

theorem append_stale_refused:
  assumes "mac32 hmac" "current_key ring = Some key" "chain_ok hmac ring (conversation_id ev) db"
    and "seq ev \<noteq> last_seq db (conversation_id ev) + 1"
  shows "EventLog_append hmac (Some ring) now ev db = (Inl (Invariant ''v2 write expected the next seq''), db)"
  using assms by (rule append_stale)

theorem append_stale_refused_witness:
  "EventLog_append sample_mac (Some sample_ring) 7 (sample_event 2 ''hi'') empty_database =
   (Inl (Invariant ''v2 write expected the next seq''), empty_database)"
  by (rule append_stale_refused [of _ _ "''k''"]) (simp_all add: chain_ok_empty)

text \<open>
  C4: A conversation with a checkpoint that fails verification accepts no keyed write: \<open>append\<close> and
  \<open>commit_turn\<close> report the verification error and change nothing, and a replay reports it too.
\<close>

theorem tampered_conversation_is_closed:
  assumes "load_integrity_head db c = Some h" "current_key ring = Some key"
    and "verify_integrity hmac (Some ring) c (load_integrity_rows db c) (Some h) = Inl e"
    and "enforce_tool_pairing mp now c base evs = Inr out" "conversation_id ev = c"
  shows "EventLog_append hmac (Some ring) now ev db = (Inl e, db) \<and>
    commit_turn mp hmac (Some ring) now now_head c base evs db = (Inl e, db) \<and>
    replay_since hmac (Some ring) db c n = Inl e"
  using assms
  by (simp add: EventLog_append_def append_tx_def keyed_head_def transaction_def commit_turn_def
      commit_turn_with_projection_def commit_tx_def replay_since_def Let_def)

definition tampered_store :: database where
  "tampered_store = (sample_store ''hi'')\<lparr>state_events :=
     map (\<lambda>r. r\<lparr>er_payload := ''ho''\<rparr>) (state_events (sample_store ''hi''))\<rparr>"

theorem tampered_conversation_is_closed_witness:
  "\<exists>e. EventLog_append sample_mac (Some sample_ring) 7 (sample_event 2 ''x'') tampered_store = (Inl e, tampered_store) \<and>
     commit_turn sample_msgpack sample_mac (Some sample_ring) 7 7 ''c'' 1 [] tampered_store = (Inl e, tampered_store) \<and>
     replay_since sample_mac (Some sample_ring) tampered_store ''c'' 0 = Inl e"
proof -
  have head: "load_integrity_head tampered_store ''c'' = Some (the (load_integrity_head tampered_store ''c''))"
    by code_simp
  have bad: "verify_integrity sample_mac (Some sample_ring) ''c'' (load_integrity_rows tampered_store ''c'')
      (Some (the (load_integrity_head tampered_store ''c''))) = Inl (TamperDetected ''event failed v2 HMAC verification'')"
    by code_simp
  have pair: "enforce_tool_pairing sample_msgpack 7 ''c'' 1 [] = Inr []" by code_simp
  show ?thesis
    using tampered_conversation_is_closed [OF head current_key_sample bad pair, of "sample_event 2 ''x''"] by simp
qed

section \<open>Tamper evidence\<close>

text \<open>
  C2: Tamper evidence, and its limit. If two stores of a conversation both replay, their checkpoints
  carry the same head tag, and HMAC has no collision among the messages signed in these two stores,
  then both anchor their legacy rows with the same signed bytes and hold equally many chained events, which agree one by one in
  sequence number, kind, time and the bytes of actor, one NUL byte and payload joined. If no actor
  holds a NUL byte, actor and payload agree too, where an absent actor counts as the empty one. Without
  that condition they need not: every event whose payload holds a NUL byte has the same signed
  bytes as the event whose actor has taken the payload up to that byte. Numbers are within the 64 bits
  of their columns.
\<close>

theorem tamper_evidence:
  assumes "replay_since hmac (Some ring) db c n = Inr evs" "replay_since hmac (Some ring) db' c n' = Inr evs'"
    and "load_integrity_head db c = Some h" "load_integrity_head db' c = Some h'"
    and "ih_head_tag h = ih_head_tag h'"
    and "inj_on (tag_of hmac) (signed_messages ring c (load_integrity_rows db c) h \<union>
           signed_messages ring c (load_integrity_rows db' c) h')"
    and "list_all i64_row (load_integrity_rows db c)" "list_all i64_row (load_integrity_rows db' c)"
    and "chain = map ir_event (chained_rows (load_integrity_rows db c))"
    and "chain' = map ir_event (chained_rows (load_integrity_rows db' c))"
  shows "legacy_genesis_canonical c (ih_chain_start_seq h) (load_integrity_rows db c) =
      legacy_genesis_canonical c (ih_chain_start_seq h') (load_integrity_rows db' c) \<and>
    list_all2 (\<lambda>a b. conversation_id a = c \<and> conversation_id b = c \<and> seq a = seq b \<and> kind a = kind b \<and>
      committed_at a = committed_at b \<and>
      actor_bytes (actor a) @ [CHR 0x00] @ payload a = actor_bytes (actor b) @ [CHR 0x00] @ payload b \<and>
      (nul_free (actor_bytes (actor a)) \<and> nul_free (actor_bytes (actor b)) \<longrightarrow>
        actor_bytes (actor a) = actor_bytes (actor b) \<and> payload a = payload b)) chain chain' \<and>
    (\<forall>ev a p q. v1_canonical (ev\<lparr>actor := Some (a @ [CHR 0x00] @ p), payload := q\<rparr>) =
       v1_canonical (ev\<lparr>actor := Some a, payload := p @ [CHR 0x00] @ q\<rparr>))"
    (is "_ \<and> list_all2 ?agrees _ _ \<and> _")
proof -
  let ?rows = "load_integrity_rows db c" and ?rows' = "load_integrity_rows db' c"
  have "verify_integrity hmac (Some ring) c ?rows (Some h) = Inr ()"
    "verify_integrity hmac (Some ring) c ?rows' (Some h') = Inr ()"
    using assms(1-4) by (auto simp: replay_since_def Let_def split: sum.splits)
  note agree = stores_agree [OF this assms(5,6) row_of_load [OF assms(7)] row_of_load [OF assms(8)]]
  then have "map signed_view chain = map signed_view chain'" by (simp add: assms(9,10) comp_def)
  then have "list_all2 (\<lambda>a b. signed_view a = signed_view b) chain chain'"
    by (simp add: list_all2_conv_all_nth list_eq_iff_nth_eq)
  moreover have "\<forall>ev \<in> set chain \<union> set chain'. conversation_id ev = c"
    using row_of_load [OF assms(7)] row_of_load [OF assms(8)] by (auto simp: assms(9,10) list_all_iff row_of_def)
  ultimately have "list_all2 ?agrees chain chain'"
    by (rule list_all2_signed_view)
  with agree actor_payload_shift show ?thesis by (simp only: genesis_message_def prod.inject simp_thms)
qed

text \<open>Two different stores with one head tag: an absent actor and an empty one sign the same bytes.\<close>

definition anonymous_store :: "string option \<Rightarrow> database" where
  "anonymous_store a = (let db = snd (EventLog_append sample_mac (Some sample_ring) 7
       ((sample_event 1 ''hi'')\<lparr>actor := None\<rparr>) empty_database) in
     db\<lparr>state_events := map (\<lambda>r. r\<lparr>er_actor := a\<rparr>) (state_events db)\<rparr>)"

theorem tamper_evidence_witness:
  "anonymous_store None \<noteq> anonymous_store (Some []) \<and>
   list_all2 (\<lambda>a b. seq a = seq b \<and> kind a = kind b \<and> actor_bytes (actor a) = actor_bytes (actor b) \<and> payload a = payload b)
     (map ir_event (chained_rows (load_integrity_rows (anonymous_store None) ''c'')))
     (map ir_event (chained_rows (load_integrity_rows (anonymous_store (Some [])) ''c'')))"
proof -
  let ?a = "anonymous_store None" and ?b = "anonymous_store (Some [])"
  let ?h = "the (load_integrity_head ?a ''c'')" and ?h' = "the (load_integrity_head ?b ''c'')"
  let ?ca = "map ir_event (chained_rows (load_integrity_rows ?a ''c''))"
  let ?cb = "map ir_event (chained_rows (load_integrity_rows ?b ''c''))"
  have r1: "replay_since sample_mac (Some sample_ring) ?a ''c'' 0 = Inr [(sample_event 1 ''hi'')\<lparr>actor := None\<rparr>]"
    by code_simp
  have r2: "replay_since sample_mac (Some sample_ring) ?b ''c'' 0 = Inr [(sample_event 1 ''hi'')\<lparr>actor := Some []\<rparr>]"
    by code_simp
  have h1: "load_integrity_head ?a ''c'' = Some ?h" by code_simp
  have h2: "load_integrity_head ?b ''c'' = Some ?h'" by code_simp
  have tag: "ih_head_tag ?h = ih_head_tag ?h'" by code_simp
  have inj: "inj_on (tag_of sample_mac) (signed_messages sample_ring ''c'' (load_integrity_rows ?a ''c'') ?h \<union>
      signed_messages sample_ring ''c'' (load_integrity_rows ?b ''c'') ?h')" by code_simp
  have wf: "list_all i64_row (load_integrity_rows ?a ''c'')" "list_all i64_row (load_integrity_rows ?b ''c'')"
    by code_simp+
  have "?a \<noteq> ?b" by code_simp
  moreover have free: "list_all (\<lambda>ev. nul_free (actor_bytes (actor ev))) ?ca"
    "list_all (\<lambda>ev. nul_free (actor_bytes (actor ev))) ?cb" by code_simp+
  ultimately show ?thesis
    using tamper_evidence [OF r1 r2 h1 h2 tag inj wf refl refl]
    by (simp add: list_all2_conv_all_nth list_all_length)
qed

text \<open>
  The limit is real: a stored event whose actor and payload are changed together, by moving the separator to
  a NUL byte of the payload, still verifies, and a replay returns the changed event.
\<close>

definition nul_payload_store :: "string \<Rightarrow> string \<Rightarrow> database" where
  "nul_payload_store a p = (let db = snd (EventLog_append sample_mac (Some sample_ring) 7
       ((sample_event 1 ''x'')\<lparr>actor := Some ''u'', payload := ''p'' @ [CHR 0x00] @ ''q''\<rparr>) empty_database) in
     db\<lparr>state_events := map (\<lambda>r. r\<lparr>er_actor := Some a, er_payload := p\<rparr>) (state_events db)\<rparr>)"

theorem moved_separator_replays:
  "map_sum id (map (\<lambda>ev. (actor ev, payload ev))) (replay_since sample_mac (Some sample_ring)
     (nul_payload_store (''u'' @ [CHR 0x00] @ ''p'') ''q'') ''c'' 0) =
   Inr [(Some (''u'' @ [CHR 0x00] @ ''p''), ''q'')]"
  by code_simp

section \<open>Committing a turn\<close>

text \<open>
  C3: A turn committed from any base that is not ahead of the log is written after the last event:
  the result holds every pending event in order with a \<open>tool_result\<close> for every \<open>tool_use\<close>, its
  sequence numbers are the next ones without a gap even when other commits landed first, and a
  replay returns the old events followed by exactly this result.
\<close>

theorem commit_turn_replay:
  assumes "mac32 hmac" "current_key ring = Some key" "chain_ok hmac ring c db" "msgpack_roundtrip mp"
    and "enforce_tool_pairing mp now c base evs = Inr out" "base \<le> last_seq db c"
  shows "\<exists>db' old done. commit_turn mp hmac (Some ring) now now_head c base evs db = (Inr done, db') \<and>
     replay_since hmac (Some ring) db c 0 = Inr old \<and>
     replay_since hmac (Some ring) db' c 0 = Inr (old @ done) \<and> chain_ok hmac ring c db' \<and>
     map seq done = map (\<lambda>i. last_seq db c + 1 + int i) [0..<length done] \<and>
     subseq (map pending_view evs) (map record_view done) \<and>
     (\<forall>n. Some n \<in> set (map (use_ordinal mp) done) \<longrightarrow> Some n \<in> set (map (result_ordinal mp) done)) \<and>
     (\<forall>c' n. c' \<noteq> c \<longrightarrow> replay_since hmac (Some ring) db' c' n = replay_since hmac (Some ring) db c' n)"
proof -
  let ?done = "shift_events (last_seq db c) base out"
  obtain db' h rows where w: "commit_turn mp hmac (Some ring) now now_head c base evs db = (Inr ?done, db')"
    "map (\<lambda>r. ir_event (integrity_row r)) rows = ?done" "chain_ok hmac ring c db'"
    "load_integrity_rows db' c = load_integrity_rows db c @ map integrity_row rows"
    "\<And>c' n. c' \<noteq> c \<Longrightarrow> replay_since hmac (Some ring) db' c' n = replay_since hmac (Some ring) db c' n"
    by (rule commit_turn_keyed [OF assms(1-3,5,6), of now_head]) (rule that)
  have "replay_since hmac (Some ring) db' c 0 = Inr (map ir_event (load_integrity_rows db c) @ ?done)"
    using replay_all [OF w(3)] w(2,4) by (simp add: comp_def)
  moreover have "map seq ?done = map (\<lambda>i. last_seq db c + 1 + int i) [0..<length ?done]"
    using shift_events_contiguous [OF enforce_tool_pairing_contiguous [OF assms(5)] assms(6)]
    by (simp add: contiguous_iff)
  moreover have "Some n \<in> set (map (result_ordinal mp) ?done)" if "Some n \<in> set (map (use_ordinal mp) ?done)" for n
    using that enforce_tool_pairing_paired [OF assms(4,5), of _ n] unfolding shift_events_view
    by (metis (no_types, lifting) imageE image_eqI list.set_map)
  moreover have "subseq (map pending_view evs) (map record_view ?done)"
    using enforce_tool_pairing_subseq [OF assms(5)] by simp
  ultimately show ?thesis
    using w(1,3,5) replay_all [OF assms(3)] by blast
qed

definition tool_turn :: "PendingEvent list" where
  "tool_turn = [\<lparr>pe_kind = ToolUse, pe_payload = ''110search'', pe_actor = None\<rparr>]"

lemma tool_turn_pairs: "\<exists>out. enforce_tool_pairing sample_msgpack now c base tool_turn = Inr out"
  by (simp add: enforce_tool_pairing_def tool_turn_def decode_payload_bytes_def decode_versioned_payload_def
      VERSIONED_PAYLOAD_MAGIC_def sample_msgpack_def encode_versioned_payload_def schema_id_valid Let_def)

theorem commit_turn_replay_witness:
  "\<exists>db' old done. commit_turn sample_msgpack sample_mac (Some sample_ring) 9 9 ''c'' 0 tool_turn (sample_store ''hi'')
       = (Inr done, db') \<and>
     replay_since sample_mac (Some sample_ring) (sample_store ''hi'') ''c'' 0 = Inr old \<and>
     replay_since sample_mac (Some sample_ring) db' ''c'' 0 = Inr (old @ done) \<and>
     map seq done = map (\<lambda>i. 2 + int i) [0..<length done] \<and>
     subseq (map pending_view tool_turn) (map record_view done)"
proof -
  have ok: "chain_ok sample_mac sample_ring ''c'' (sample_store ''hi'')" by code_simp
  obtain out where pair: "enforce_tool_pairing sample_msgpack 9 ''c'' 0 tool_turn = Inr out"
    using tool_turn_pairs by blast
  have seq: "last_seq (sample_store ''hi'') ''c'' = 1" by code_simp
  then have base: "0 \<le> last_seq (sample_store ''hi'') ''c''" by simp
  have two: "last_seq (sample_store ''hi'') ''c'' + 1 = 2" by (simp add: seq)
  from commit_turn_replay [OF mac32_sample current_key_sample ok sample_msgpack_roundtrip pair base, of 9]
  show ?thesis unfolding two by blast
qed

text \<open>
  A turn commits as a whole or not at all: when the pairing, an insert, the chain or the
  caller's projection fails, the database is exactly what it was.
\<close>

theorem commit_turn_atomic:
  assumes "commit_turn_with_projection mp hmac ring now now_head c base evs projection db = (Inl e, db')"
  shows "db' = db"
  using assms by (auto simp: commit_turn_with_projection_def transaction_Inl_iff split: sum.splits)

theorem commit_turn_atomic_witness:
  "commit_turn_with_projection sample_msgpack sample_mac (Some sample_ring) 9 9 ''c'' 0
     [\<lparr>pe_kind = UserMsg, pe_payload = ''x'', pe_actor = None\<rparr>]
     (\<lambda>_ _. Inl (Invariant ''projection'')) (sample_store ''hi'') = (Inl (Invariant ''projection''), sample_store ''hi'')"
  (is "?commit = _")
proof -
  have "fst ?commit = Inl (Invariant ''projection'')" by code_simp
  then have "?commit = (Inl (Invariant ''projection''), snd ?commit)" by (metis prod.collapse)
  with commit_turn_atomic [OF this] show ?thesis by simp
qed


section \<open>Key rotation\<close>

text \<open>
  Rotating to a key under a fresh id keeps history readable and the log writable: every
  conversation that verified replays the same events under the rotated ring, and the next event can be
  appended, signed with the new key, and read back after them.
\<close>

theorem rotation_keeps_history:
  assumes "mac32 hmac" "chain_ok hmac ring (conversation_id ev) db" "key_for ring new_id = None"
    and "KeyRing_rotate new_id new_key ring = (old_id, ring')"
    and "seq ev = last_seq db (conversation_id ev) + 1"
  shows "replay_since hmac (Some ring') db (conversation_id ev) n = replay_since hmac (Some ring) db (conversation_id ev) n \<and>
     (\<exists>db' old. EventLog_append hmac (Some ring') now ev db = (Inr (), db') \<and>
        replay_since hmac (Some ring) db (conversation_id ev) 0 = Inr old \<and>
        replay_since hmac (Some ring') db' (conversation_id ev) 0 = Inr (old @ [ev]))"
proof -
  have ring': "ring' = snd (KeyRing_rotate new_id new_key ring)" using assms(4) by simp
  have ok: "chain_ok hmac ring' (conversation_id ev) db"
    unfolding ring' by (rule chain_ok_extends [OF ring_extends_rotate assms(2)]) (rule assms(3))
  have key: "current_key ring' = Some new_key" by (simp add: ring')
  obtain h rows where w: "EventLog_append hmac (Some ring') now ev db = (Inr (), keyed_write now (conversation_id ev) rows h db)"
    "map (\<lambda>r. ir_event (integrity_row r)) rows = [ev]"
    "chain_ok hmac ring' (conversation_id ev) (keyed_write now (conversation_id ev) rows h db)"
    "load_integrity_rows (keyed_write now (conversation_id ev) rows h db) (conversation_id ev) =
     load_integrity_rows db (conversation_id ev) @ map integrity_row rows"
    by (rule append_keyed [OF assms(1) key ok assms(5), of now]) (rule that)
  then show ?thesis
    using replay_since_ok [OF ok] replay_since_ok [OF assms(2)] replay_all [OF assms(2)] replay_all [OF w(3)]
    by (auto simp: comp_def)
qed

theorem rotation_keeps_history_witness:
  "\<exists>db' old. EventLog_append sample_mac (Some (snd (KeyRing_rotate 1 ''k1'' sample_ring))) 8 (sample_event 2 ''x'')
       (sample_store ''hi'') = (Inr (), db') \<and>
     replay_since sample_mac (Some sample_ring) (sample_store ''hi'') ''c'' 0 = Inr old \<and>
     replay_since sample_mac (Some (snd (KeyRing_rotate 1 ''k1'' sample_ring))) db' ''c'' 0 = Inr (old @ [sample_event 2 ''x''])"
proof -
  have ok: "chain_ok sample_mac sample_ring (conversation_id (sample_event 2 ''x'')) (sample_store ''hi'')" by code_simp
  have fresh: "key_for sample_ring 1 = None" by code_simp
  have seq: "seq (sample_event 2 ''x'') = last_seq (sample_store ''hi'') (conversation_id (sample_event 2 ''x'')) + 1"
    by code_simp
  show ?thesis
    using rotation_keeps_history [OF mac32_sample ok fresh surjective_pairing seq, of "''k1''" 0 8] by simp
qed

section \<open>Encodings\<close>

text \<open>
  The stored text of an event kind determines it: parsing gives every kind back, distinct kinds
  have distinct texts, and a text that no kind has parses as \<open>Other\<close>.
\<close>

theorem event_kind_roundtrip:
  "EventKind_parse (EventKind_as_str k) = k \<and> (EventKind_as_str k = EventKind_as_str k' \<longleftrightarrow> k = k') \<and>
   (s \<notin> range EventKind_as_str \<longrightarrow> EventKind_parse s = Other)"
  using EventKind_parse_cases [of s] EventKind_as_str_inj [of k k'] by (metis EventKind_parse_as_str rangeI)

theorem event_kind_roundtrip_witness: "EventKind_parse ''no_such_kind'' = Other"
proof -
  have "EventKind_as_str k \<noteq> ''no_such_kind''" for k by (cases k) simp_all
  then have "''no_such_kind'' \<notin> range EventKind_as_str" by (metis rangeE)
  then show ?thesis using event_kind_roundtrip by blast
qed

text \<open>
  A payload survives the versioned envelope: whenever the serializer accepts a value that the
  deserializer gives back, \<open>EventRecord::new\<close> succeeds, \<open>decode_payload\<close> of the stored event returns the value,
  and the event reports the current schema.
\<close>

theorem payload_envelope_roundtrip:
  assumes "to_vec_named p = Some body" "from_slice body = Some p"
  shows "\<exists>ev. EventRecord_new to_vec_named now c s k p a = Inr ev \<and>
     decode_payload_bytes from_slice (kind ev) (payload ev) = Inr p \<and>
     payload_schema_id ev = Inr (EventPayloadSchemaId_current k) \<and>
     kind ev = k \<and> conversation_id ev = c \<and> seq ev = s \<and> actor ev = a"
proof -
  obtain bytes where enc: "encode_versioned_payload to_vec_named k p = Inr bytes"
    using encode_total [of to_vec_named p body k] assms(1) by blast
  then have "decode_payload_bytes from_slice k bytes = Inr p"
    by (rule decode_encode_payload) (use assms in simp)
  with enc encode_decode_envelope [OF enc] show ?thesis
    by (auto simp: EventRecord_new_def payload_schema_id_def)
qed

theorem payload_envelope_roundtrip_witness:
  "\<exists>ev. EventRecord_new (to_tool_result sample_msgpack) 1 ''c'' 3 ToolResult (cancelled_result 2) None = Inr ev \<and>
     decode_payload_bytes (from_tool_result sample_msgpack) (kind ev) (payload ev) = Inr (cancelled_result 2)"
proof -
  obtain b where "to_tool_result sample_msgpack (cancelled_result 2) = Some b"
    "from_tool_result sample_msgpack b = Some (cancelled_result 2)"
    using sample_msgpack_roundtrip by (auto simp: msgpack_roundtrip_def)
  then show ?thesis
    using payload_envelope_roundtrip [where to_vec_named = "to_tool_result sample_msgpack"
        and from_slice = "from_tool_result sample_msgpack"] by blast
qed

text \<open>
  Idempotency keys minted for different conversations, turns or call ordinals are different,
  whatever characters the conversation id contains.
\<close>

theorem idempotency_key_injective: "mint c t n = mint c' t' n' \<longleftrightarrow> c = c' \<and> t = t' \<and> n = n'"
  by (rule mint_eq_iff)

end
