(* ===== verification/Retention.thy ===== *)
theory Retention
  imports Event_Properties
begin

text \<open>
  Deletion of old history (\<open>crates/core/src/retention.rs\<close>, \<open>event_retention.rs\<close>, \<open>ephemeral_sweeper.rs\<close>): the retention
  policy, the pass over \<open>state_events\<close> and \<open>state_conversations\<close>, and the purge of expired incognito threads.

  The state is the database, the conversation rows, and the conversations of \<open>state_compaction_receipts\<close>, whose foreign key
  to \<open>state_conversations\<close> has no cascade. The full-text projection of the events is not modelled. \<open>with_conn\<close> is not a transaction: the statements of
  the retention pass commit one by one.
\<close>

section \<open>The policy\<close>

definition ALLOWED_RETENTION_DAYS :: "nat list" where "ALLOWED_RETENTION_DAYS = [30, 60, 90, 120]"

definition INFINITE_RETENTION :: nat where "INFINITE_RETENTION = 0"

definition DEFAULT_RETENTION_DAYS :: nat where "DEFAULT_RETENTION_DAYS = 30"

record RetentionPolicy =
  days :: nat

definition from_days :: "nat \<Rightarrow> RetentionPolicy" where
  "from_days raw = (if raw = INFINITE_RETENTION \<or> raw \<in> set ALLOWED_RETENTION_DAYS then \<lparr>days = raw\<rparr>
     else \<lparr>days = DEFAULT_RETENTION_DAYS\<rparr>)"

text \<open>\<open>raw\<close> is the column \<open>history_retention_days\<close> of the row of \<open>config_general\<close>, when it can be read.\<close>

definition RetentionPolicy_load :: "int option \<Rightarrow> RetentionPolicy" where
  "RetentionPolicy_load raw = (case raw of
      Some n \<Rightarrow> if 0 \<le> n then from_days (as_u32 n) else \<lparr>days = DEFAULT_RETENTION_DAYS\<rparr>
    | None \<Rightarrow> \<lparr>days = DEFAULT_RETENTION_DAYS\<rparr>)"

definition is_infinite :: "RetentionPolicy \<Rightarrow> bool" where
  "is_infinite p \<longleftrightarrow> days p = INFINITE_RETENTION"

definition cutoff_for_now :: "RetentionPolicy \<Rightarrow> int \<Rightarrow> int option" where
  "cutoff_for_now p now_unix = (if days p = INFINITE_RETENTION then None
     else Some (max (saturating_sub_i64 now_unix (int (days p) * 86400)) 0))"

text \<open>Integer division of Rust rounds towards zero.\<close>

definition cutoff_ms_for_now :: "RetentionPolicy \<Rightarrow> int \<Rightarrow> int option" where
  "cutoff_ms_for_now p now_ms =
     map_option (\<lambda>secs. max (- (2 ^ 63)) (min (2 ^ 63 - 1) (secs * 1000)))
       (cutoff_for_now p (if now_ms < 0 then - ((- now_ms) div 1000) else now_ms div 1000))"

section \<open>The passes\<close>

record conversation_row =
  cv_conversation_id :: string
  cv_last_seq :: int
  cv_snapshot_blob :: "string option"
  cv_snapshot_seq :: "int option"
  cv_is_pinned :: bool
  cv_is_ephemeral :: bool
  cv_ephemeral_expires_at :: "int option"
  cv_last_activity_at :: int

record history =
  hy_db :: database
  hy_conversations :: "conversation_row list"
  hy_receipts :: "string list"

record EventSweepReport =
  es_events_deleted :: nat
  es_conversations_deleted :: nat

definition unprotected :: "conversation_row \<Rightarrow> bool" where
  "unprotected v \<longleftrightarrow> \<not> cv_is_pinned v \<and> \<not> cv_is_ephemeral v"

definition swept_event :: "int \<Rightarrow> conversation_row list \<Rightarrow> event_row \<Rightarrow> bool" where
  "swept_event cutoff convs r \<longleftrightarrow> er_committed_at r < cutoff \<and>
     er_conversation_id r \<in> set (map cv_conversation_id (filter unprotected convs))"

definition swept_conversation :: "int \<Rightarrow> database \<Rightarrow> conversation_row \<Rightarrow> bool" where
  "swept_conversation cutoff db v \<longleftrightarrow> unprotected v \<and> cv_last_activity_at v < cutoff \<and>
     cv_conversation_id v \<notin> set (map er_conversation_id (state_events db))"

definition event_sweep_once :: "int \<Rightarrow> int \<Rightarrow> history \<Rightarrow> (DbError + EventSweepReport) \<times> history" where
  "event_sweep_once now_unix retention_secs h =
     (let cutoff = max (saturating_sub_i64 now_unix retention_secs) 0;
          old = swept_event cutoff (hy_conversations h);
          db1 = (hy_db h)\<lparr>state_events := filter (Not \<circ> old) (state_events (hy_db h))\<rparr>;
          gone = swept_conversation cutoff db1 in
      if list_ex (\<lambda>v. gone v \<and> cv_conversation_id v \<in> set (hy_receipts h)) (hy_conversations h)
      then (Inl (Sqlite (ConstraintViolation ''FOREIGN KEY constraint failed'')), h\<lparr>hy_db := db1\<rparr>)
      else (Inr \<lparr>es_events_deleted = count_where old (state_events (hy_db h)),
                es_conversations_deleted = count_where gone (hy_conversations h)\<rparr>,
            h\<lparr>hy_db := db1, hy_conversations := filter (Not \<circ> gone) (hy_conversations h)\<rparr>))"

text \<open>One tick of the sweeper; a static retention, when there is one, overrides the policy.\<close>

definition event_sweep_now :: "int option \<Rightarrow> int option \<Rightarrow> int \<Rightarrow> history \<Rightarrow> (DbError + EventSweepReport) \<times> history" where
  "event_sweep_now static_retention raw now_unix h = (case static_retention of
      Some secs \<Rightarrow> event_sweep_once now_unix secs h
    | None \<Rightarrow> (let policy = RetentionPolicy_load raw in
        if is_infinite policy then (Inr \<lparr>es_events_deleted = 0, es_conversations_deleted = 0\<rparr>, h)
        else event_sweep_once now_unix (int (days policy) * 86400) h))"

definition list_expired_ephemeral :: "int \<Rightarrow> conversation_row list \<Rightarrow> string list" where
  "list_expired_ephemeral now convs = map cv_conversation_id (filter (\<lambda>v. cv_is_ephemeral v \<and>
     (case cv_ephemeral_expires_at v of None \<Rightarrow> False | Some t \<Rightarrow> t \<le> now)) convs)"

definition purge_one :: "string \<Rightarrow> history \<Rightarrow> nat \<times> history" where
  "purge_one c h =
     (count_where (\<lambda>r. er_conversation_id r = c) (state_events (hy_db h)),
      h\<lparr>hy_db := (hy_db h)\<lparr>state_events := filter (\<lambda>r. er_conversation_id r \<noteq> c) (state_events (hy_db h))\<rparr>,
        hy_conversations := update_where (\<lambda>v. cv_conversation_id v = c)
          (\<lambda>v. v\<lparr>cv_last_seq := 0, cv_snapshot_blob := None, cv_snapshot_seq := None, cv_ephemeral_expires_at := None\<rparr>)
          (hy_conversations h)\<rparr>)"

record SweepReport =
  sr_conversations_purged :: nat
  sr_events_deleted :: nat

fun purge_all :: "string list \<Rightarrow> SweepReport \<Rightarrow> history \<Rightarrow> SweepReport \<times> history" where
  "purge_all [] report h = (report, h)"
| "purge_all (c # cs) report h =
     (let (deleted, h1) = purge_one c h in
      purge_all cs \<lparr>sr_conversations_purged = sr_conversations_purged report + 1,
        sr_events_deleted = sr_events_deleted report + deleted\<rparr> h1)"

definition ephemeral_sweep_once :: "int \<Rightarrow> history \<Rightarrow> SweepReport \<times> history" where
  "ephemeral_sweep_once now h = purge_all (list_expired_ephemeral now (hy_conversations h))
     \<lparr>sr_conversations_purged = 0, sr_events_deleted = 0\<rparr> h"

section \<open>Conversations the passes leave alone\<close>

lemma same_conversation_view:
  assumes "filter (\<lambda>r. er_conversation_id r = c) (state_events db') = filter (\<lambda>r. er_conversation_id r = c) (state_events db)"
    "state_event_integrity_heads db' = state_event_integrity_heads db"
  shows "load_integrity_rows db' c = load_integrity_rows db c" "load_integrity_head db' c = load_integrity_head db c"
    "last_seq db' c = last_seq db c" "replay_since hmac ring db' c n = replay_since hmac ring db c n"
  using assms by (simp_all add: load_integrity_rows_def load_integrity_head_def last_seq_def replay_since_def)

lemma event_sweep_heads [simp]:
  "state_event_integrity_heads (hy_db (snd (event_sweep_once now secs h))) = state_event_integrity_heads (hy_db h)"
  by (simp add: event_sweep_once_def Let_def)

lemma event_sweep_events:
  "state_events (hy_db (snd (event_sweep_once now secs h))) =
   filter (Not \<circ> swept_event (max (saturating_sub_i64 now secs) 0) (hy_conversations h)) (state_events (hy_db h))"
  by (simp add: event_sweep_once_def Let_def)

lemma filter_key_empty: "c \<notin> f ` set xs \<Longrightarrow> filter (\<lambda>r. f r = c) xs = []"
  by (auto simp: filter_empty_conv)

lemma filter_keeps_all: "(\<And>x. x \<in> set xs \<Longrightarrow> p x \<Longrightarrow> q x) \<Longrightarrow> filter p (filter q xs) = filter p xs"
  by (induction xs) auto

text \<open>
  The retention pass leaves a conversation exactly as it was, for a keyed and for an unkeyed log, when it is
  pinned or ephemeral, or when none of its events is older than the retention time; its row stays too unless it has
  no event and no activity since then.
\<close>

theorem retention_keeps_protected:
  assumes "v \<in> set (hy_conversations h)" "distinct (map cv_conversation_id (hy_conversations h))"
    and "cv_is_pinned v \<or> cv_is_ephemeral v \<or>
      list_all (\<lambda>r. er_conversation_id r = cv_conversation_id v \<longrightarrow> max (saturating_sub_i64 now secs) 0 \<le> er_committed_at r) (state_events (hy_db h))"
  shows "replay_since hmac ring (hy_db (snd (event_sweep_once now secs h))) (cv_conversation_id v) n =
      replay_since hmac ring (hy_db h) (cv_conversation_id v) n \<and>
    last_seq (hy_db (snd (event_sweep_once now secs h))) (cv_conversation_id v) = last_seq (hy_db h) (cv_conversation_id v) \<and>
    (v \<notin> set (hy_conversations (snd (event_sweep_once now secs h))) \<longrightarrow>
       unprotected v \<and> cv_last_activity_at v < max (saturating_sub_i64 now secs) 0 \<and> last_seq (hy_db h) (cv_conversation_id v) = 0)"
proof -
  let ?c = "cv_conversation_id v" and ?cut = "max (saturating_sub_i64 now secs) 0"
  have unique: "w = v" if "w \<in> set (hy_conversations h)" "cv_conversation_id w = ?c" for w
    using assms(1,2) that by (auto simp: distinct_map inj_on_def)
  have "\<not> swept_event ?cut (hy_conversations h) r" if "r \<in> set (state_events (hy_db h))" "er_conversation_id r = ?c" for r
    using that assms(3) unique by (auto simp: swept_event_def unprotected_def list_all_iff dest: bspec)
  then have same: "filter (\<lambda>r. er_conversation_id r = ?c) (state_events (hy_db (snd (event_sweep_once now secs h)))) =
      filter (\<lambda>r. er_conversation_id r = ?c) (state_events (hy_db h))"
    unfolding event_sweep_events by (intro filter_keeps_all) simp
  have gone: "unprotected v \<and> cv_last_activity_at v < ?cut \<and> last_seq (hy_db h) ?c = 0"
    if "v \<notin> set (hy_conversations (snd (event_sweep_once now secs h)))"
  proof -
    let ?db1 = "(hy_db h)\<lparr>state_events := filter (Not \<circ> swept_event ?cut (hy_conversations h)) (state_events (hy_db h))\<rparr>"
    have sw: "swept_conversation ?cut ?db1 v"
      using that assms(1) by (auto simp: event_sweep_once_def Let_def split: if_splits)
    then have "filter (\<lambda>r. er_conversation_id r = ?c) (state_events ?db1) = []"
      by (intro filter_key_empty) (simp only: swept_conversation_def set_map not_False_eq_True)
    with same have "filter (\<lambda>r. er_conversation_id r = ?c) (state_events (hy_db h)) = []"
      by (simp add: event_sweep_events)
    with sw show ?thesis by (simp add: swept_conversation_def last_seq_def)
  qed
  show ?thesis using same_conversation_view [OF same] gone by simp
qed

section \<open>Chained events that a pass deletes\<close>

text \<open>Verification counts: the chained rows are as many as the checkpoint's range.\<close>

lemma verified_chain_length:
  assumes "verify_integrity hmac (Some ring) c rows (Some ih) = Inr ()"
  shows "int (length (filter (\<lambda>row. ir_integrity_version row = 2) rows)) = ih_head_seq ih - ih_chain_start_seq ih + 1"
proof -
  from assms obtain g s where "verify_chain hmac ring g (ih_chain_start_seq ih)
      (filter (\<lambda>row. ir_integrity_version row = 2) rows) = Inr (ih_head_tag ih, s)" "ih_head_seq ih = s - 1"
    by (auto simp: verify_integrity_head)
  with verify_chain_seqs show ?thesis by fastforce
qed

lemma length_chained_load:
  "length (filter (\<lambda>row. ir_integrity_version row = 2) (load_integrity_rows db c)) =
   length (filter (\<lambda>r. er_integrity_version r = 2 \<and> er_conversation_id r = c) (state_events db))"
proof -
  have "filter (\<lambda>row. ir_integrity_version row = 2) (load_integrity_rows db c) =
      map integrity_row (filter (\<lambda>r. er_integrity_version r = 2) (sort_key er_seq (filter (\<lambda>r. er_conversation_id r = c) (state_events db))))"
    by (simp add: load_integrity_rows_def filter_map comp_def)
  moreover have "length (filter P (sort_key er_seq xs)) = length (filter P xs)" for P and xs :: "event_row list"
    by (metis filter_sort length_sort)
  ultimately show ?thesis by (simp add: conj_commute)
qed

lemma length_filter_less_strict:
  assumes "x \<in> set xs" "p x" "\<not> q x"
  shows "length (filter p (filter q xs)) < length (filter p xs)"
  using assms
proof (induction xs)
  case (Cons y ys)
  have "length (filter p (filter q ys)) \<le> length (filter p ys)"
    by (induction ys) auto
  with Cons show ?case by (cases "x = y") (auto intro: le_imp_less_Suc)
qed simp

lemma missing_chained_event_closes:
  assumes "load_integrity_head db c = Some ih" "verify_integrity hmac (Some ring) c (load_integrity_rows db c) (Some ih) = Inr ()"
    and "state_events db' = filter q (state_events db)" "load_integrity_head db' c = load_integrity_head db c"
    and "r \<in> set (state_events db)" "er_conversation_id r = c" "er_integrity_version r = 2" "\<not> q r"
  obtains e where "verify_integrity hmac (Some ring) c (load_integrity_rows db' c) (Some ih) = Inl e"
proof (cases "verify_integrity hmac (Some ring) c (load_integrity_rows db' c) (Some ih)")
  case (Inr u)
  have "length (filter (\<lambda>r. er_integrity_version r = 2 \<and> er_conversation_id r = c) (state_events db')) <
      length (filter (\<lambda>r. er_integrity_version r = 2 \<and> er_conversation_id r = c) (state_events db))"
    unfolding assms(3) using assms(5-8) by (intro length_filter_less_strict) simp_all
  then have False
    using verified_chain_length [OF assms(2)] verified_chain_length [of hmac ring c "load_integrity_rows db' c" ih] Inr
    by (simp add: length_chained_load)
  then show ?thesis ..
qed (rule that)

lemma closed_conversation:
  assumes "load_integrity_head db c = Some ih" "current_key ring = Some key"
    and "verify_integrity hmac (Some ring) c (load_integrity_rows db c) (Some ih) = Inl e" "conversation_id ev = c"
  shows "replay_since hmac (Some ring) db c n = Inl e" "EventLog_append hmac (Some ring) now ev db = (Inl e, db)"
  using assms by (simp_all add: EventLog_append_def append_tx_def keyed_head_def transaction_def replay_since_def Let_def)

text \<open>
  C38: A retention pass that deletes a chained event of a verified conversation closes it: the checkpoint still covers the deleted
  event, so every later replay and every later append of the conversation fails verification.
\<close>

theorem retention_closes_chained_conversation:
  assumes "load_integrity_head (hy_db h) c = Some ih" "current_key ring = Some key"
    and "verify_integrity hmac (Some ring) c (load_integrity_rows (hy_db h) c) (Some ih) = Inr ()"
    and "r \<in> set (state_events (hy_db h))" "er_conversation_id r = c" "er_integrity_version r = 2"
    and "swept_event (max (saturating_sub_i64 now secs) 0) (hy_conversations h) r" "conversation_id ev = c"
  shows "\<exists>e db'. db' = hy_db (snd (event_sweep_once now secs h)) \<and>
     replay_since hmac (Some ring) db' c n = Inl e \<and> EventLog_append hmac (Some ring) now2 ev db' = (Inl e, db')"
proof -
  let ?db' = "hy_db (snd (event_sweep_once now secs h))"
  have head: "load_integrity_head ?db' c = load_integrity_head (hy_db h) c" by (simp add: load_integrity_head_def)
  obtain e where e: "verify_integrity hmac (Some ring) c (load_integrity_rows ?db' c) (Some ih) = Inl e"
    by (rule missing_chained_event_closes [OF assms(1,3) event_sweep_events head assms(4-6)]) (simp_all add: assms(7))
  from closed_conversation [OF _ assms(2) e assms(8)] head assms(1) show ?thesis by auto
qed

text \<open>A conversation with one message.\<close>

definition sample_conversation :: "bool \<Rightarrow> bool \<Rightarrow> int option \<Rightarrow> conversation_row" where
  "sample_conversation pinned ephemeral expires = \<lparr>cv_conversation_id = ''c'', cv_last_seq = 1, cv_snapshot_blob = None,
     cv_snapshot_seq = None, cv_is_pinned = pinned, cv_is_ephemeral = ephemeral, cv_ephemeral_expires_at = expires,
     cv_last_activity_at = 5000000\<rparr>"

definition sample_history :: "conversation_row \<Rightarrow> history" where
  "sample_history v = \<lparr>hy_db = sample_store ''hi'', hy_conversations = [v], hy_receipts = []\<rparr>"

lemma sample_verified:
  "load_integrity_head (hy_db (sample_history v)) ''c'' = Some (the (load_integrity_head (sample_store ''hi'') ''c''))"
  "verify_integrity sample_mac (Some sample_ring) ''c'' (load_integrity_rows (hy_db (sample_history v)) ''c'')
     (Some (the (load_integrity_head (sample_store ''hi'') ''c''))) = Inr ()"
  unfolding sample_history_def by code_simp+

definition retained_row :: event_row where
  "retained_row = List.hd (state_events (sample_store ''hi''))"

lemma retained_row_facts:
  "retained_row \<in> set (state_events (hy_db (sample_history v)))" "er_conversation_id retained_row = ''c''"
  "er_integrity_version retained_row = 2" "swept_event (max (saturating_sub_i64 5000000 2592000) 0) [sample_conversation False False None] retained_row"
  unfolding sample_history_def by code_simp+

theorem retention_closes_chained_conversation_witness:
  "\<exists>e db'. db' = hy_db (snd (event_sweep_now None (Some 30) 5000000 (sample_history (sample_conversation False False None)))) \<and>
     replay_since sample_mac (Some sample_ring) db' ''c'' 0 = Inl e \<and>
     EventLog_append sample_mac (Some sample_ring) 7 (sample_event 2 ''x'') db' = (Inl e, db')"
proof -
  let ?h = "sample_history (sample_conversation False False None)"
  have tick: "event_sweep_now None (Some 30) 5000000 ?h = event_sweep_once 5000000 2592000 ?h"
    by (simp add: event_sweep_now_def RetentionPolicy_load_def from_days_def is_infinite_def as_u32_small
        INFINITE_RETENTION_def ALLOWED_RETENTION_DAYS_def)
  have old: "swept_event (max (saturating_sub_i64 5000000 2592000) 0) (hy_conversations ?h) retained_row"
    using retained_row_facts(4) by (simp add: sample_history_def)
  from retention_closes_chained_conversation [OF sample_verified(1) current_key_sample sample_verified(2) retained_row_facts(1-3) old,
      of "sample_event 2 ''x''"]
  show ?thesis unfolding tick by simp
qed

theorem retention_keeps_protected_witness:
  "replay_since sample_mac (Some sample_ring) (hy_db (snd (event_sweep_once 5000000 2592000 (sample_history (sample_conversation True False None))))) ''c'' 0 =
   Inr [sample_event 1 ''hi'']"
proof -
  let ?v = "sample_conversation True False None"
  have v: "?v \<in> set (hy_conversations (sample_history ?v))" "distinct (map cv_conversation_id (hy_conversations (sample_history ?v)))"
    "cv_is_pinned ?v" "cv_conversation_id ?v = ''c''"
    by (simp_all add: sample_history_def sample_conversation_def)
  have "replay_since sample_mac (Some sample_ring) (hy_db (sample_history ?v)) ''c'' 0 = Inr [sample_event 1 ''hi'']"
    unfolding sample_history_def by code_simp
  with retention_keeps_protected [OF v(1,2), of 5000000 2592000 sample_mac "Some sample_ring" 0] v(3,4) show ?thesis by simp
qed

text \<open>
  The purge of an expired incognito thread closes it in the same way: the thread's row stays, its chained events go, its
  checkpoint stays, and no further message of the thread is accepted.
\<close>

lemma purge_one_frame:
  "hy_receipts (snd (purge_one c h)) = hy_receipts h"
  "state_event_integrity_heads (hy_db (snd (purge_one c h))) = state_event_integrity_heads (hy_db h)"
  "state_events (hy_db (snd (purge_one c h))) = filter (\<lambda>r. er_conversation_id r \<noteq> c) (state_events (hy_db h))"
  by (simp_all add: purge_one_def)

lemma purge_all_frame:
  "state_event_integrity_heads (hy_db (snd (purge_all cs rep h))) = state_event_integrity_heads (hy_db h) \<and>
   state_events (hy_db (snd (purge_all cs rep h))) = filter (\<lambda>r. er_conversation_id r \<notin> set cs) (state_events (hy_db h))"
proof (induction cs arbitrary: rep h)
  case (Cons c cs)
  show ?case
    using Cons.IH [where h = "snd (purge_one c h)"] purge_one_frame [of c h]
    by (auto simp: Let_def split_beta intro!: filter_cong)
qed simp

theorem ephemeral_purge_closes_thread:
  assumes "load_integrity_head (hy_db h) c = Some ih" "current_key ring = Some key"
    and "verify_integrity hmac (Some ring) c (load_integrity_rows (hy_db h) c) (Some ih) = Inr ()"
    and "r \<in> set (state_events (hy_db h))" "er_conversation_id r = c" "er_integrity_version r = 2"
    and "c \<in> set (list_expired_ephemeral now (hy_conversations h))" "conversation_id ev = c"
  shows "\<exists>e db'. db' = hy_db (snd (ephemeral_sweep_once now h)) \<and>
     replay_since hmac (Some ring) db' c n = Inl e \<and> EventLog_append hmac (Some ring) now2 ev db' = (Inl e, db')"
proof -
  let ?db' = "hy_db (snd (ephemeral_sweep_once now h))"
  let ?q = "\<lambda>r. er_conversation_id r \<notin> set (list_expired_ephemeral now (hy_conversations h))"
  have events: "state_events ?db' = filter ?q (state_events (hy_db h))"
    and head: "load_integrity_head ?db' c = load_integrity_head (hy_db h) c"
    using purge_all_frame by (simp_all add: ephemeral_sweep_once_def load_integrity_head_def)
  obtain e where e: "verify_integrity hmac (Some ring) c (load_integrity_rows ?db' c) (Some ih) = Inl e"
    by (rule missing_chained_event_closes [OF assms(1,3) events head assms(4-6)]) (simp_all add: assms(5,7))
  from closed_conversation [OF _ assms(2) e assms(8)] head assms(1) show ?thesis by auto
qed

theorem ephemeral_purge_closes_thread_witness:
  "\<exists>e db'. db' = hy_db (snd (ephemeral_sweep_once 100 (sample_history (sample_conversation False True (Some 50))))) \<and>
     replay_since sample_mac (Some sample_ring) db' ''c'' 0 = Inl e \<and>
     EventLog_append sample_mac (Some sample_ring) 7 (sample_event 1 ''x'') db' = (Inl e, db')"
proof -
  have due: "''c'' \<in> set (list_expired_ephemeral 100 (hy_conversations (sample_history (sample_conversation False True (Some 50)))))"
    by (simp add: sample_history_def sample_conversation_def list_expired_ephemeral_def)
  from ephemeral_purge_closes_thread [OF sample_verified(1) current_key_sample sample_verified(2) retained_row_facts(1-3) due,
      of "sample_event 1 ''x''"]
  show ?thesis by simp
qed

section \<open>Errors and the policy\<close>

text \<open>
  A conversation that is due for deletion and has a compaction receipt makes the whole pass fail: it deletes the old events, deletes no
  conversation at all, and running it again has the same outcome.
\<close>

theorem receipt_blocks_retention:
  assumes "v \<in> set (hy_conversations h)" "cv_conversation_id v \<in> set (hy_receipts h)" "unprotected v"
    "cv_last_activity_at v < max (saturating_sub_i64 now secs) 0"
    "list_all (\<lambda>r. er_conversation_id r = cv_conversation_id v \<longrightarrow> er_committed_at r < max (saturating_sub_i64 now secs) 0) (state_events (hy_db h))"
  shows "fst (event_sweep_once now secs h) = Inl (Sqlite (ConstraintViolation ''FOREIGN KEY constraint failed'')) \<and>
     hy_conversations (snd (event_sweep_once now secs h)) = hy_conversations h \<and>
     event_sweep_once now secs (snd (event_sweep_once now secs h)) = event_sweep_once now secs h"
proof -
  let ?cut = "max (saturating_sub_i64 now secs) 0"
  let ?old = "swept_event ?cut (hy_conversations h)"
  let ?db1 = "(hy_db h)\<lparr>state_events := filter (Not \<circ> ?old) (state_events (hy_db h))\<rparr>"
  have "?old r" if "r \<in> set (state_events (hy_db h))" "er_conversation_id r = cv_conversation_id v" for r
    using that assms(1,3,5) by (auto simp: swept_event_def list_all_iff)
  then have "cv_conversation_id v \<notin> set (map er_conversation_id (state_events ?db1))" by auto
  with assms(3,4) have gone: "swept_conversation ?cut ?db1 v" by (simp add: swept_conversation_def)
  with assms(1,2) have blocked: "list_ex (\<lambda>v. swept_conversation ?cut ?db1 v \<and> cv_conversation_id v \<in> set (hy_receipts h)) (hy_conversations h)"
    by (auto simp: list_ex_iff)
  then have sweep: "event_sweep_once now secs h =
      (Inl (Sqlite (ConstraintViolation ''FOREIGN KEY constraint failed'')), h\<lparr>hy_db := ?db1\<rparr>)"
    by (simp add: event_sweep_once_def Let_def)
  have "filter (Not \<circ> ?old) (state_events ?db1) = state_events ?db1" by (simp add: comp_def)
  with blocked have "event_sweep_once now secs (h\<lparr>hy_db := ?db1\<rparr>) =
      (Inl (Sqlite (ConstraintViolation ''FOREIGN KEY constraint failed'')), h\<lparr>hy_db := ?db1\<rparr>)"
    by (simp add: event_sweep_once_def Let_def)
  with sweep show ?thesis by simp
qed

theorem receipt_blocks_retention_witness:
  "fst (event_sweep_once 9000000 2592000 ((sample_history (sample_conversation False False None))\<lparr>hy_receipts := [''c'']\<rparr>)) =
     Inl (Sqlite (ConstraintViolation ''FOREIGN KEY constraint failed''))"
proof -
  let ?v = "sample_conversation False False None"
  let ?h = "(sample_history ?v)\<lparr>hy_receipts := [''c'']\<rparr>"
  have v: "?v \<in> set (hy_conversations ?h)" "cv_conversation_id ?v \<in> set (hy_receipts ?h)" "unprotected ?v"
    "cv_last_activity_at ?v < max (saturating_sub_i64 9000000 2592000) 0"
    by (simp_all add: sample_history_def sample_conversation_def unprotected_def saturating_sub_i64_def)
  have old: "list_all (\<lambda>r. er_conversation_id r = cv_conversation_id ?v \<longrightarrow> er_committed_at r < max (saturating_sub_i64 9000000 2592000) 0)
      (state_events (hy_db ?h))"
    unfolding sample_history_def by code_simp
  from receipt_blocks_retention [OF v old] show ?thesis by simp
qed

text \<open>
  The policy a stored number of days yields is one of the five options, but not the nearest one below: 100 days
  become 30, and the number 2 to the power 32 becomes infinite retention.
\<close>

theorem retention_policy_rounding:
  "days (RetentionPolicy_load raw) \<in> {0, 30, 60, 90, 120} \<and> days (RetentionPolicy_load (Some 100)) = 30 \<and>
   is_infinite (RetentionPolicy_load (Some (2 ^ 32)))"
  by (auto simp: RetentionPolicy_load_def from_days_def as_u32_def is_infinite_def INFINITE_RETENTION_def
      ALLOWED_RETENTION_DAYS_def DEFAULT_RETENTION_DAYS_def split: option.splits)

end
