(* ===== verification/Event_Freshness.thy ===== *)
theory Event_Freshness
  imports Tamper
begin

text \<open>
  What \<open>crates/core/src/events.rs\<close> offers around the log: the signed freshness manifest that is kept outside the
  database and the comparison of a database with it, the back-fill and re-signing of legacy tags, and
  conversation snapshots with their hydration.

  The MessagePack codec of snapshots is a parameter.
\<close>

section \<open>Freshness manifests\<close>

record FreshnessHead =
  fh_conversation_id :: string
  fh_sequence :: int
  fh_tag :: string

record FreshnessManifest =
  fm_format_version :: nat
  fm_generated_at :: int
  fm_key_id :: int
  fm_heads :: "FreshnessHead list"
  fm_signature :: string

datatype FreshnessComparison = Matches | DatabaseAdvanced "string list" | RollbackDetected "string list"
  | Diverged "string list"

definition freshness_head_bytes :: "FreshnessHead \<Rightarrow> string" where
  "freshness_head_bytes h = le_bytes 8 (int (length (fh_conversation_id h))) @ fh_conversation_id h @
     le_bytes 8 (fh_sequence h) @ le_bytes 8 (int (length (fh_tag h))) @ fh_tag h"

definition canonical_freshness :: "nat \<Rightarrow> int \<Rightarrow> int \<Rightarrow> FreshnessHead list \<Rightarrow> string" where
  "canonical_freshness format_version generated_at key_id heads =
     ''execlaw/external-freshness/v1'' @ [CHR 0x00] @ le_bytes 4 (int format_version) @ le_bytes 8 generated_at @
     le_bytes 8 key_id @ le_bytes 8 (int (length heads)) @ concat (map freshness_head_bytes heads)"

fun verify_conversations ::
  "(string \<Rightarrow> string \<Rightarrow> string) \<Rightarrow> KeyRing option \<Rightarrow> database \<Rightarrow> string list \<Rightarrow> DbError + unit" where
  "verify_conversations hmac ring db [] = Inr ()"
| "verify_conversations hmac ring db (c # cs) =
     (case verify_integrity hmac ring c (load_integrity_rows db c) (load_integrity_head db c) of
        Inl e \<Rightarrow> Inl e | Inr _ \<Rightarrow> verify_conversations hmac ring db cs)"

definition freshness_heads :: "database \<Rightarrow> FreshnessHead list" where
  "freshness_heads db = map (\<lambda>h. \<lparr>fh_conversation_id = hr_conversation_id h, fh_sequence = hr_head_seq h,
     fh_tag = hr_head_tag h\<rparr>) (sort_key hr_conversation_id (state_event_integrity_heads db))"

definition export_freshness_manifest ::
  "(string \<Rightarrow> string \<Rightarrow> string) \<Rightarrow> KeyRing option \<Rightarrow> database \<Rightarrow> int \<Rightarrow> DbError + FreshnessManifest" where
  "export_freshness_manifest hmac key_ring db generated_at = (case key_ring of
      None \<Rightarrow> Inl (Config ''freshness export requires the event integrity key ring'')
    | Some ring \<Rightarrow> (case verify_conversations hmac key_ring db (event_conversations db) of
        Inl e \<Rightarrow> Inl e
      | Inr _ \<Rightarrow>
          let heads = freshness_heads db in
          if length heads \<noteq> length (event_conversations db)
          then Inl (Invariant ''freshness export refused because one or more event chains lack a signed head'')
          else (case current_key ring of
            None \<Rightarrow> Inl (Config ''freshness export key ring has no current key'')
          | Some key \<Rightarrow> Inr \<lparr>fm_format_version = 1, fm_generated_at = generated_at, fm_key_id = ring_current_id ring,
              fm_heads = heads, fm_signature = sign_event hmac key
                (canonical_freshness 1 generated_at (ring_current_id ring) heads)\<rparr>)))"

text \<open>\<open>windows(2).any(pair[0] >= pair[1])\<close>.\<close>

fun strictly_ascending :: "string list \<Rightarrow> bool" where
  "strictly_ascending (a # b # cs) \<longleftrightarrow> a < b \<and> strictly_ascending (b # cs)"
| "strictly_ascending cs \<longleftrightarrow> True"

definition verify_freshness_manifest ::
  "(string \<Rightarrow> string \<Rightarrow> string) \<Rightarrow> KeyRing option \<Rightarrow> FreshnessManifest \<Rightarrow> DbError + unit" where
  "verify_freshness_manifest hmac key_ring m =
     (if fm_format_version m \<noteq> 1 then Inl (Config ''unsupported freshness manifest version'')
      else if length (fm_signature m) \<noteq> 32 \<or> \<not> strictly_ascending (map fh_conversation_id (fm_heads m)) \<or>
        list_ex (\<lambda>h. fh_sequence h < 0 \<or> length (fh_tag h) \<noteq> 32) (fm_heads m)
      then Inl (TamperDetected ''malformed freshness manifest'')
      else (case key_ring of
        None \<Rightarrow> Inl (Config ''freshness verification requires the event integrity key ring'')
      | Some ring \<Rightarrow> (case key_for ring (fm_key_id m) of
          None \<Rightarrow> Inl (TamperDetected ''freshness manifest uses unknown key_id'')
        | Some key \<Rightarrow>
            if sign_event hmac key (canonical_freshness (fm_format_version m) (fm_generated_at m) (fm_key_id m) (fm_heads m))
                 \<noteq> fm_signature m
            then Inl (TamperDetected ''freshness manifest signature mismatch'') else Inr ())))"

text \<open>
  \<open>collect::<HashMap>\<close> keeps the last head of a conversation; the loop sorts the references into three lists.
\<close>

definition head_by_id :: "FreshnessHead list \<Rightarrow> string \<Rightarrow> FreshnessHead option" where
  "head_by_id heads c = map_of (rev (map (\<lambda>h. (fh_conversation_id h, h)) heads)) c"

fun classify_heads ::
  "(string \<Rightarrow> FreshnessHead option) \<Rightarrow> FreshnessHead list \<Rightarrow> string list \<times> string list \<times> string list \<Rightarrow>
   string list \<times> string list \<times> string list" where
  "classify_heads current [] acc = acc"
| "classify_heads current (ref # refs) (rollback, diverged, advanced) =
     (let c = fh_conversation_id ref in
      classify_heads current refs
        (case current c of
           None \<Rightarrow> (rollback @ [c], diverged, advanced)
         | Some h \<Rightarrow>
             if fh_sequence h < fh_sequence ref then (rollback @ [c], diverged, advanced)
             else if fh_sequence h = fh_sequence ref \<and> fh_tag h \<noteq> fh_tag ref then (rollback, diverged @ [c], advanced)
             else if fh_sequence h > fh_sequence ref then (rollback, diverged, advanced @ [c])
             else (rollback, diverged, advanced)))"

definition compare_freshness_manifest ::
  "(string \<Rightarrow> string \<Rightarrow> string) \<Rightarrow> KeyRing option \<Rightarrow> database \<Rightarrow> FreshnessManifest \<Rightarrow> DbError + FreshnessComparison" where
  "compare_freshness_manifest hmac key_ring db m =
     (case verify_freshness_manifest hmac key_ring m of
        Inl e \<Rightarrow> Inl e
      | Inr _ \<Rightarrow> (case export_freshness_manifest hmac key_ring db (fm_generated_at m) of
          Inl e \<Rightarrow> Inl e
        | Inr current \<Rightarrow>
            let (rollback, diverged, advanced0) =
                  classify_heads (head_by_id (fm_heads current)) (fm_heads m) ([], [], []);
                referenced = set (map fh_conversation_id (fm_heads m));
                advanced = advanced0 @ map fh_conversation_id
                  (filter (\<lambda>h. fh_conversation_id h \<notin> referenced) (fm_heads current)) in
            Inr (if rollback \<noteq> [] then RollbackDetected rollback
                 else if diverged \<noteq> [] then Diverged diverged
                 else if advanced \<noteq> [] then DatabaseAdvanced advanced
                 else Matches)))"

section \<open>Filling in legacy tags\<close>

record BackfillReport =
  bf_signed :: nat
  bf_skipped :: nat
  bf_null_remaining :: nat

text \<open>The tag of a stored row: unlike verification it signs the kind's stored text.\<close>

definition legacy_tag :: "(string \<Rightarrow> string \<Rightarrow> string) \<Rightarrow> string \<Rightarrow> event_row \<Rightarrow> string" where
  "legacy_tag hmac key r = sign_event hmac key (canonical_bytes (er_conversation_id r) (er_seq r) (er_kind r)
     (er_committed_at r) (er_actor r) (er_payload r))"

text \<open>\<open>UPDATE state_events SET tag, key_id WHERE conversation_id AND seq\<close>, once for each listed row.\<close>

definition set_tag :: "(string \<Rightarrow> string \<Rightarrow> string) \<Rightarrow> string \<Rightarrow> int \<Rightarrow> event_row \<Rightarrow> database \<Rightarrow> database" where
  "set_tag hmac key key_id r db = db\<lparr>state_events :=
     update_where (\<lambda>x. er_conversation_id x = er_conversation_id r \<and> er_seq x = er_seq r)
       (\<lambda>x. x\<lparr>er_tag := Some (legacy_tag hmac key r), er_key_id := key_id\<rparr>) (state_events db)\<rparr>"

definition backfill_null_tags ::
  "(string \<Rightarrow> string \<Rightarrow> string) \<Rightarrow> KeyRing option \<Rightarrow> database \<Rightarrow> (DbError + BackfillReport) \<times> database" where
  "backfill_null_tags hmac key_ring db = (case key_ring of
      None \<Rightarrow> (Inl (Config ''backfill_null_tags requires a KeyRing''), db)
    | Some ring \<Rightarrow> (case current_key ring of
        None \<Rightarrow> (Inl (Config ''KeyRing has no key registered for current_id''), db)
      | Some key \<Rightarrow>
          if state_event_integrity_heads db \<noteq> []
          then (Inl (Invariant ''cannot rewrite legacy tags after v2 checkpoints exist''), db)
          else let null_rows = filter (\<lambda>r. er_tag r = None) (state_events db);
                   db1 = fold (set_tag hmac key (ring_current_id ring)) null_rows db;
                   signed = length null_rows;
                   null_remaining = count_where (\<lambda>r. er_tag r = None) (state_events db1);
                   signed_total = count_where (\<lambda>r. er_tag r \<noteq> None) (state_events db1) in
            (Inr \<lparr>bf_signed = signed, bf_skipped = signed_total - signed, bf_null_remaining = null_remaining\<rparr>, db1)))"

definition resign_all_with_current_key ::
  "(string \<Rightarrow> string \<Rightarrow> string) \<Rightarrow> KeyRing option \<Rightarrow> database \<Rightarrow> (DbError + BackfillReport) \<times> database" where
  "resign_all_with_current_key hmac key_ring db = (case key_ring of
      None \<Rightarrow> (Inl (Config ''resign_all_with_current_key requires a KeyRing''), db)
    | Some ring \<Rightarrow> (case current_key ring of
        None \<Rightarrow> (Inl (Config ''KeyRing has no key registered for current_id''), db)
      | Some key \<Rightarrow>
          if state_event_integrity_heads db \<noteq> []
          then (Inl (Invariant ''destructive re-signing is disabled after v2 checkpoints exist; retain old keys''), db)
          else (Inr \<lparr>bf_signed = length (state_events db), bf_skipped = 0, bf_null_remaining = 0\<rparr>,
                fold (set_tag hmac key (ring_current_id ring)) (state_events db) db)))"

section \<open>Snapshots\<close>

record Snapshot =
  sn_conversation_id :: string
  sn_up_to_seq :: int
  sn_events :: "EventRecord list"
  sn_built_at :: int

record snapshot_codec =
  snapshot_encode :: "Snapshot \<Rightarrow> DbError + string"
  snapshot_decode :: "string \<Rightarrow> DbError + Snapshot"

definition SNAPSHOT_INTERVAL :: int where
  "SNAPSHOT_INTERVAL = 50"

definition build_snapshot ::
  "(string \<Rightarrow> string \<Rightarrow> string) \<Rightarrow> KeyRing option \<Rightarrow> int \<Rightarrow> database \<Rightarrow> string \<Rightarrow> int \<Rightarrow> DbError + Snapshot" where
  "build_snapshot hmac ring now db c up_to_seq = (case replay_since hmac ring db c 0 of
      Inl e \<Rightarrow> Inl e
    | Inr events \<Rightarrow> Inr \<lparr>sn_conversation_id = c, sn_up_to_seq = up_to_seq,
        sn_events = filter (\<lambda>ev. seq ev \<le> up_to_seq) events, sn_built_at = now\<rparr>)"

definition should_snapshot :: "int option \<Rightarrow> int \<Rightarrow> bool" where
  "should_snapshot last_snapshot_seq current_last_seq \<longleftrightarrow>
     current_last_seq - (case last_snapshot_seq of None \<Rightarrow> 0 | Some s \<Rightarrow> s) \<ge> SNAPSHOT_INTERVAL"

definition hydrate ::
  "snapshot_codec \<Rightarrow> (string \<Rightarrow> string \<Rightarrow> string) \<Rightarrow> KeyRing option \<Rightarrow> database \<Rightarrow> string \<Rightarrow> string option \<Rightarrow> int option \<Rightarrow>
   DbError + EventRecord list" where
  "hydrate codec hmac ring db c snapshot_blob snapshot_seq =
     (if ring \<noteq> None then replay_since hmac ring db c 0
      else let (events, after) = (case (snapshot_blob, snapshot_seq) of
             (Some blob, Some s) \<Rightarrow> (case snapshot_decode codec blob of
                 Inr snap \<Rightarrow> if sn_conversation_id snap = c \<and> sn_up_to_seq snap = s then (sn_events snap, s) else ([], 0)
               | Inl _ \<Rightarrow> ([], 0))
           | _ \<Rightarrow> ([], 0)) in
        (case replay_since hmac ring db c after of Inl e \<Rightarrow> Inl e | Inr tail \<Rightarrow> Inr (events @ tail)))"

end
