(* ===== verification/Freshness_Properties.thy ===== *)
theory Freshness_Properties
  imports Event_Freshness Event_Properties
begin

text \<open>
  The properties of freshness manifests, of the back-fill and of snapshots: a manifest matches the database it was exported
  from, a match means the same signed history, every rollback is reported, the back-fill signs exactly the
  unsigned rows, and hydration from a snapshot equals a full replay.
\<close>

section \<open>Ordering and lookup of heads\<close>

lemma strictly_ascending_iff: "strictly_ascending cs \<longleftrightarrow> sorted_wrt (<) cs"
  by (induction cs rule: strictly_ascending.induct) (auto intro: less_trans)

text \<open>The primary key of the table of heads.\<close>

definition heads_keyed :: "database \<Rightarrow> bool" where
  "heads_keyed db \<longleftrightarrow> distinct (map hr_conversation_id (state_event_integrity_heads db))"

lemma ids_freshness_heads:
  "map fh_conversation_id (freshness_heads db) = map hr_conversation_id (sort_key hr_conversation_id (state_event_integrity_heads db))"
  by (simp add: freshness_heads_def)

lemma freshness_heads_ascending:
  "heads_keyed db \<Longrightarrow> sorted_wrt (<) (map fh_conversation_id (freshness_heads db))"
  unfolding ids_freshness_heads strict_sorted_iff
  by (simp add: heads_keyed_def distinct_map)

lemma ascending_inj: "sorted_wrt (<) (map f xs) \<Longrightarrow> inj_on f (set xs)" for f :: "'a \<Rightarrow> string"
  by (simp add: strict_sorted_iff distinct_map)

lemma ascending_unique:
  fixes f :: "'a \<Rightarrow> string"
  assumes "sorted_wrt (<) (map f xs)" "sorted_wrt (<) (map f ys)" "set xs = set ys"
  shows "xs = ys"
proof -
  have "map f xs = map f ys"
    using assms by (intro sorted_distinct_set_unique) (auto simp: strict_sorted_iff)
  with ascending_inj [OF assms(1)] assms(3) show ?thesis by (simp add: inj_on_map_eq_map)
qed

lemma head_by_id_iff:
  assumes "sorted_wrt (<) (map fh_conversation_id heads)"
  shows "head_by_id heads c = Some h \<longleftrightarrow> h \<in> set heads \<and> fh_conversation_id h = c"
proof -
  have "distinct (map fst (rev (map (\<lambda>h. (fh_conversation_id h, h)) heads)))"
    using assms by (simp add: strict_sorted_iff comp_def rev_map [symmetric])
  then show ?thesis by (auto simp: head_by_id_def)
qed

lemma head_by_id_None: "head_by_id heads c = None \<longleftrightarrow> c \<notin> fh_conversation_id ` set heads"
  by (auto simp: head_by_id_def map_of_eq_None_iff image_comp)

lemma load_head_freshness:
  assumes "heads_keyed db"
  shows "head_by_id (freshness_heads db) c = map_option (\<lambda>h. \<lparr>fh_conversation_id = c, fh_sequence = ih_head_seq h,
    fh_tag = ih_head_tag h\<rparr>) (load_integrity_head db c)"
proof (cases "find (\<lambda>h. hr_conversation_id h = c) (state_event_integrity_heads db)")
  case None
  then have "head_by_id (freshness_heads db) c = None"
    by (auto simp: head_by_id_None freshness_heads_def find_None_iff)
  with None show ?thesis by (simp add: load_integrity_head_def)
next
  case (Some r)
  then have "r \<in> set (state_event_integrity_heads db)" "hr_conversation_id r = c" by (auto dest: find_SomeD)
  then have "head_by_id (freshness_heads db) c = Some \<lparr>fh_conversation_id = c, fh_sequence = hr_head_seq r, fh_tag = hr_head_tag r\<rparr>"
    unfolding head_by_id_iff [OF freshness_heads_ascending [OF assms]] by (auto simp: freshness_heads_def)
  with Some show ?thesis by (simp add: load_integrity_head_def)
qed

section \<open>What the comparison finds\<close>

definition rolled_back :: "FreshnessHead list \<Rightarrow> FreshnessHead \<Rightarrow> bool" where
  "rolled_back heads ref \<longleftrightarrow> (case head_by_id heads (fh_conversation_id ref) of
     None \<Rightarrow> True | Some h \<Rightarrow> fh_sequence h < fh_sequence ref)"

definition rewritten :: "FreshnessHead list \<Rightarrow> FreshnessHead \<Rightarrow> bool" where
  "rewritten heads ref \<longleftrightarrow> (case head_by_id heads (fh_conversation_id ref) of
     None \<Rightarrow> False | Some h \<Rightarrow> fh_sequence h = fh_sequence ref \<and> fh_tag h \<noteq> fh_tag ref)"

definition moved_on :: "FreshnessHead list \<Rightarrow> FreshnessHead \<Rightarrow> bool" where
  "moved_on heads ref \<longleftrightarrow> (case head_by_id heads (fh_conversation_id ref) of
     None \<Rightarrow> False | Some h \<Rightarrow> fh_sequence h > fh_sequence ref)"

lemmas head_changes = rolled_back_def rewritten_def moved_on_def

lemma classify_heads_eq:
  "classify_heads (head_by_id heads) refs (r, d, a) =
   (r @ map fh_conversation_id (filter (rolled_back heads) refs),
    d @ map fh_conversation_id (filter (rewritten heads) refs),
    a @ map fh_conversation_id (filter (moved_on heads) refs))"
  by (induction refs arbitrary: r d a) (auto simp: head_changes Let_def split: option.splits)

lemma export_Inr:
  assumes "export_freshness_manifest hmac (Some ring) db t = Inr m"
  obtains key where "current_key ring = Some key"
    "verify_conversations hmac (Some ring) db (event_conversations db) = Inr ()"
    "length (freshness_heads db) = length (event_conversations db)"
    "m = \<lparr>fm_format_version = 1, fm_generated_at = t, fm_key_id = ring_current_id ring, fm_heads = freshness_heads db,
       fm_signature = sign_event hmac key (canonical_freshness 1 t (ring_current_id ring) (freshness_heads db))\<rparr>"
  using assms by (auto simp: export_freshness_manifest_def Let_def split: sum.splits if_splits option.splits)

lemma verify_conversations_Inr:
  "verify_conversations hmac ring db cs = Inr () \<longleftrightarrow>
   (\<forall>c \<in> set cs. verify_integrity hmac ring c (load_integrity_rows db c) (load_integrity_head db c) = Inr ())"
  by (induction cs) (auto split: sum.splits)

lemma exported_conversation_verifies:
  assumes "export_freshness_manifest hmac (Some ring) db t = Inr m" "c \<in> er_conversation_id ` set (state_events db)"
  shows "verify_integrity hmac (Some ring) c (load_integrity_rows db c) (load_integrity_head db c) = Inr ()"
  using assms by (auto simp: event_conversations_def verify_conversations_Inr elim!: export_Inr)

lemma compare_Inr:
  assumes "compare_freshness_manifest hmac (Some ring) db m = Inr res"
  obtains cur where "verify_freshness_manifest hmac (Some ring) m = Inr ()"
    "export_freshness_manifest hmac (Some ring) db (fm_generated_at m) = Inr cur" "fm_heads cur = freshness_heads db"
    "res = (let heads = freshness_heads db; rb = filter (rolled_back heads) (fm_heads m);
        dv = filter (rewritten heads) (fm_heads m);
        ad = filter (moved_on heads) (fm_heads m) @
          filter (\<lambda>h. fh_conversation_id h \<notin> fh_conversation_id ` set (fm_heads m)) heads in
      if rb \<noteq> [] then RollbackDetected (map fh_conversation_id rb)
      else if dv \<noteq> [] then Diverged (map fh_conversation_id dv)
      else if ad \<noteq> [] then DatabaseAdvanced (map fh_conversation_id ad) else Matches)"
proof -
  from assms obtain cur where v: "verify_freshness_manifest hmac (Some ring) m = Inr ()"
    and e: "export_freshness_manifest hmac (Some ring) db (fm_generated_at m) = Inr cur"
    by (auto simp: compare_freshness_manifest_def split: sum.splits)
  have h: "fm_heads cur = freshness_heads db" using e by (auto elim!: export_Inr)
  show ?thesis
    by (rule that [OF v e h])
      (use assms in \<open>auto simp: compare_freshness_manifest_def v e h classify_heads_eq Let_def split: if_splits\<close>)
qed

lemma matching_heads:
  assumes "heads_keyed db" "sorted_wrt (<) (map fh_conversation_id refs)"
    and "\<And>ref. ref \<in> set refs \<Longrightarrow> \<not> rolled_back (freshness_heads db) ref \<and> \<not> rewritten (freshness_heads db) ref \<and> \<not> moved_on (freshness_heads db) ref"
    and "\<And>h. h \<in> set (freshness_heads db) \<Longrightarrow> fh_conversation_id h \<in> fh_conversation_id ` set refs"
  shows "refs = freshness_heads db"
proof -
  note asc = freshness_heads_ascending [OF assms(1)]
  have sub: "ref \<in> set (freshness_heads db)" if "ref \<in> set refs" for ref
  proof -
    from assms(3) [OF that] obtain h where h: "head_by_id (freshness_heads db) (fh_conversation_id ref) = Some h"
      "fh_sequence h = fh_sequence ref" "fh_tag h = fh_tag ref"
      by (auto simp: head_changes split: option.splits)
    with head_by_id_iff [OF asc] have "h \<in> set (freshness_heads db)" "fh_conversation_id h = fh_conversation_id ref" by auto
    with h show ?thesis by (metis FreshnessHead.equality old.unit.exhaust)
  qed
  moreover have "h \<in> set refs" if "h \<in> set (freshness_heads db)" for h
    using assms(4) [OF that] sub ascending_inj [OF asc] that by (auto dest: inj_onD)
  ultimately show ?thesis using ascending_unique [OF assms(2) asc] by blast
qed

lemma verify_manifest_ascending:
  "verify_freshness_manifest hmac (Some ring) m = Inr () \<Longrightarrow> sorted_wrt (<) (map fh_conversation_id (fm_heads m))"
  by (simp add: verify_freshness_manifest_def strictly_ascending_iff split: if_splits)


lemma manifest_match_heads:
  assumes "heads_keyed db" "compare_freshness_manifest hmac (Some ring) db m = Inr Matches"
  shows "fm_heads m = freshness_heads db"
proof -
  from assms(2) obtain cur where "verify_freshness_manifest hmac (Some ring) m = Inr ()"
    and res: "Matches = (let heads = freshness_heads db; rb = filter (rolled_back heads) (fm_heads m);
        dv = filter (rewritten heads) (fm_heads m);
        ad = filter (moved_on heads) (fm_heads m) @
          filter (\<lambda>h. fh_conversation_id h \<notin> fh_conversation_id ` set (fm_heads m)) heads in
      if rb \<noteq> [] then RollbackDetected (map fh_conversation_id rb)
      else if dv \<noteq> [] then Diverged (map fh_conversation_id dv)
      else if ad \<noteq> [] then DatabaseAdvanced (map fh_conversation_id ad) else Matches)"
    by (rule compare_Inr)
  then show ?thesis
    by (intro matching_heads [OF assms(1) verify_manifest_ascending])
      (auto simp: Let_def filter_empty_conv split: if_splits)
qed

lemma image_notin: "f ` {x \<in> A. f x \<notin> B} = f ` A - B"
  by blast

text \<open>
  The comparison with a freshness manifest reports exactly what happened to the database since: a rollback lists exactly
  the conversations whose head is gone or behind the manifest, otherwise a divergence lists exactly those with
  another head at the same sequence number, otherwise an advance lists exactly those that are ahead or new, and a
  match means that all signed heads are those of the manifest.
\<close>

theorem freshness_comparison_exact:
  assumes "heads_keyed db" "compare_freshness_manifest hmac (Some ring) db m = Inr res"
  shows "case res of
      RollbackDetected cs \<Rightarrow> cs \<noteq> [] \<and> set cs = fh_conversation_id ` {ref \<in> set (fm_heads m). rolled_back (freshness_heads db) ref}
    | Diverged cs \<Rightarrow> list_all (Not \<circ> rolled_back (freshness_heads db)) (fm_heads m) \<and> cs \<noteq> [] \<and>
        set cs = fh_conversation_id ` {ref \<in> set (fm_heads m). rewritten (freshness_heads db) ref}
    | DatabaseAdvanced cs \<Rightarrow> list_all (Not \<circ> rolled_back (freshness_heads db)) (fm_heads m) \<and>
        list_all (Not \<circ> rewritten (freshness_heads db)) (fm_heads m) \<and> cs \<noteq> [] \<and>
        set cs = fh_conversation_id ` {ref \<in> set (fm_heads m). moved_on (freshness_heads db) ref} \<union>
          (fh_conversation_id ` set (freshness_heads db) - fh_conversation_id ` set (fm_heads m))
    | Matches \<Rightarrow> fm_heads m = freshness_heads db"
proof -
  from assms(2) obtain cur where v: "verify_freshness_manifest hmac (Some ring) m = Inr ()"
    and res: "res = (let heads = freshness_heads db; rb = filter (rolled_back heads) (fm_heads m);
        dv = filter (rewritten heads) (fm_heads m);
        ad = filter (moved_on heads) (fm_heads m) @
          filter (\<lambda>h. fh_conversation_id h \<notin> fh_conversation_id ` set (fm_heads m)) heads in
      if rb \<noteq> [] then RollbackDetected (map fh_conversation_id rb)
      else if dv \<noteq> [] then Diverged (map fh_conversation_id dv)
      else if ad \<noteq> [] then DatabaseAdvanced (map fh_conversation_id ad) else Matches)"
    by (rule compare_Inr)
  define rb dv ad where "rb = filter (rolled_back (freshness_heads db)) (fm_heads m)"
    and "dv = filter (rewritten (freshness_heads db)) (fm_heads m)"
    and "ad = filter (moved_on (freshness_heads db)) (fm_heads m) @
      filter (\<lambda>h. fh_conversation_id h \<notin> fh_conversation_id ` set (fm_heads m)) (freshness_heads db)"
  note lists = rb_def dv_def ad_def
  have res: "res = (if rb \<noteq> [] then RollbackDetected (map fh_conversation_id rb)
      else if dv \<noteq> [] then Diverged (map fh_conversation_id dv)
      else if ad \<noteq> [] then DatabaseAdvanced (map fh_conversation_id ad) else Matches)"
    unfolding res Let_def lists ..
  show ?thesis
  proof (cases res)
    case Matches
    with manifest_match_heads [OF assms(1)] assms(2) show ?thesis by simp
  next
    case (RollbackDetected cs)
    with res have "cs = map fh_conversation_id rb" "cs \<noteq> []" by (simp_all split: if_splits)
    with RollbackDetected show ?thesis by (simp add: lists)
  next
    case (Diverged cs)
    with res have "cs = map fh_conversation_id dv" "cs \<noteq> []" "rb = []" by (simp_all split: if_splits)
    with Diverged show ?thesis by (simp add: lists filter_empty_conv list_all_iff)
  next
    case (DatabaseAdvanced cs)
    with res have cs: "cs = map fh_conversation_id ad" "cs \<noteq> []" "rb = []" "dv = []" by (simp_all split: if_splits)
    have "set cs = fh_conversation_id ` {ref \<in> set (fm_heads m). moved_on (freshness_heads db) ref} \<union>
        (fh_conversation_id ` set (freshness_heads db) - fh_conversation_id ` set (fm_heads m))"
      unfolding cs(1) ad_def set_map set_append set_filter image_Un image_notin ..
    moreover have "list_all (Not \<circ> rolled_back (freshness_heads db)) (fm_heads m)"
      "list_all (Not \<circ> rewritten (freshness_heads db)) (fm_heads m)"
      using cs(3,4) by (simp_all add: rb_def dv_def filter_empty_conv list_all_iff)
    ultimately show ?thesis using cs(2) unfolding DatabaseAdvanced FreshnessComparison.case by blast
  qed
qed

section \<open>A database and its own manifest\<close>

text \<open>A head without events is never verified; \<open>append\<close> and \<open>commit_turn\<close> write none.\<close>

definition heads_have_events :: "database \<Rightarrow> bool" where
  "heads_have_events db \<longleftrightarrow>
     list_all (\<lambda>h. hr_conversation_id h \<in> er_conversation_id ` set (state_events db)) (state_event_integrity_heads db)"

lemma verified_head_bounds:
  assumes "verify_integrity hmac (Some ring) c rows (Some h) = Inr ()"
  shows "0 \<le> ih_head_seq h \<and> length (ih_head_tag h) = 32"
  using assms verify_chain_seqs by (fastforce simp: verify_integrity_head)

lemma exported_head_wf:
  assumes "export_freshness_manifest hmac (Some ring) db t = Inr m" "heads_keyed db" "heads_have_events db"
    and "h \<in> set (freshness_heads db)"
  shows "0 \<le> fh_sequence h \<and> length (fh_tag h) = 32"
proof -
  from assms(4) have "fh_conversation_id h \<in> er_conversation_id ` set (state_events db)"
    using assms(3) by (auto simp: freshness_heads_def heads_have_events_def list_all_iff)
  from exported_conversation_verifies [OF assms(1) this]
  have "verify_integrity hmac (Some ring) (fh_conversation_id h) (load_integrity_rows db (fh_conversation_id h))
      (load_integrity_head db (fh_conversation_id h)) = Inr ()" .
  moreover have "head_by_id (freshness_heads db) (fh_conversation_id h) = Some h"
    using head_by_id_iff [OF freshness_heads_ascending [OF assms(2)]] assms(4) by simp
  then obtain ih where "load_integrity_head db (fh_conversation_id h) = Some ih"
    "\<lparr>fh_conversation_id = fh_conversation_id h, fh_sequence = ih_head_seq ih, fh_tag = ih_head_tag ih\<rparr> = h"
    unfolding load_head_freshness [OF assms(2)] by blast
  then have "load_integrity_head db (fh_conversation_id h) = Some ih" "fh_sequence h = ih_head_seq ih" "fh_tag h = ih_head_tag ih"
    by (metis FreshnessHead.select_convs)+
  ultimately show ?thesis using verified_head_bounds by metis
qed

text \<open>
  A database verifies the manifest that it exported and matches it.
\<close>

theorem own_manifest_matches:
  assumes "mac32 hmac" "heads_keyed db" "heads_have_events db"
    and "export_freshness_manifest hmac (Some ring) db t = Inr m"
  shows "verify_freshness_manifest hmac (Some ring) m = Inr () \<and>
    compare_freshness_manifest hmac (Some ring) db m = Inr Matches"
proof -
  from assms(4) obtain key where key: "current_key ring = Some key" and m: "m = \<lparr>fm_format_version = 1, fm_generated_at = t,
      fm_key_id = ring_current_id ring, fm_heads = freshness_heads db,
      fm_signature = sign_event hmac key (canonical_freshness 1 t (ring_current_id ring) (freshness_heads db))\<rparr>"
    by (rule export_Inr)
  note asc = freshness_heads_ascending [OF assms(2)]
  have "\<not> list_ex (\<lambda>h. fh_sequence h < 0 \<or> length (fh_tag h) \<noteq> 32) (freshness_heads db)"
    using exported_head_wf [OF assms(4,2,3)] by (fastforce simp: list_ex_iff)
  then have v: "verify_freshness_manifest hmac (Some ring) m = Inr ()"
    using assms(1) key asc
    by (simp add: m verify_freshness_manifest_def strictly_ascending_iff mac32_def sign_event_def current_key_def)
  have same: "head_by_id (freshness_heads db) (fh_conversation_id h) = Some h" if "h \<in> set (freshness_heads db)" for h
    using head_by_id_iff [OF asc] that by simp
  have "filter (rolled_back (freshness_heads db)) (freshness_heads db) = []"
    "filter (rewritten (freshness_heads db)) (freshness_heads db) = []"
    "filter (moved_on (freshness_heads db)) (freshness_heads db) = []"
    using same by (simp_all add: filter_empty_conv head_changes)
  then have "compare_freshness_manifest hmac (Some ring) db m = Inr Matches"
    using v assms(4) by (simp add: compare_freshness_manifest_def m classify_heads_eq)
  with v show ?thesis by simp
qed


text \<open>The manifest of a store with one event, and the store after a second one.\<close>

definition sample_manifest :: FreshnessManifest where
  "sample_manifest = (case export_freshness_manifest sample_mac (Some sample_ring) (sample_store ''hi'') 9 of Inr m \<Rightarrow> m)"

definition longer_store :: database where
  "longer_store = snd (EventLog_append sample_mac (Some sample_ring) 8 (sample_event 2 ''more'') (sample_store ''hi''))"

lemma sample_export:
  "export_freshness_manifest sample_mac (Some sample_ring) (sample_store ''hi'') 9 = Inr sample_manifest"
  by code_simp

theorem own_manifest_matches_witness:
  "compare_freshness_manifest sample_mac (Some sample_ring) (sample_store ''hi'') sample_manifest = Inr Matches"
proof -
  have "heads_keyed (sample_store ''hi'')" "heads_have_events (sample_store ''hi'')" by code_simp+
  from own_manifest_matches [OF mac32_sample this sample_export] show ?thesis by simp
qed

text \<open>An old copy of the database against the manifest of the longer store.\<close>

definition longer_manifest :: FreshnessManifest where
  "longer_manifest = (case export_freshness_manifest sample_mac (Some sample_ring) longer_store 9 of Inr m \<Rightarrow> m)"

theorem freshness_comparison_exact_witness:
  "fh_conversation_id ` {ref \<in> set (fm_heads longer_manifest). rolled_back (freshness_heads (sample_store ''hi'')) ref} = {''c''}"
proof -
  have keyed: "heads_keyed (sample_store ''hi'')" by code_simp
  have cmp: "compare_freshness_manifest sample_mac (Some sample_ring) (sample_store ''hi'') longer_manifest =
    Inr (RollbackDetected [''c''])" by code_simp
  from freshness_comparison_exact [OF keyed cmp] show ?thesis by simp
qed

section \<open>A match means the same history\<close>

definition store_messages :: "KeyRing \<Rightarrow> string \<Rightarrow> database \<Rightarrow> (string option \<times> string) set" where
  "store_messages ring c db = signed_messages ring c (load_integrity_rows db c) (the (load_integrity_head db c))"

lemma matching_head:
  assumes "heads_keyed db" "heads_keyed db'" "freshness_heads db = freshness_heads db'" "load_integrity_head db c = Some h"
  obtains h' where "load_integrity_head db' c = Some h'" "ih_head_tag h' = ih_head_tag h" "ih_head_seq h' = ih_head_seq h"
  using load_head_freshness [OF assms(1), of c] load_head_freshness [OF assms(2), of c] assms(3,4)
  by (cases "load_integrity_head db' c") auto

lemma head_has_events:
  assumes "heads_have_events db" "load_integrity_head db c = Some h"
  shows "c \<in> er_conversation_id ` set (state_events db)"
  using assms by (auto simp: heads_have_events_def load_integrity_head_def list_all_iff dest!: find_SomeD)

text \<open>
  A database that matches an authenticated manifest holds the history it was exported from: for every conversation
  with a signed head the chained events of both stores agree in everything their signatures fix (\<open>signed_view\<close>),
  and both anchor the same legacy rows, unless HMAC collides among the messages signed in the two stores.
\<close>

theorem matching_manifest_same_history:
  assumes "heads_keyed db" "heads_have_events db" "heads_keyed db'" "heads_have_events db'"
    and "export_freshness_manifest hmac (Some ring) db t = Inr m"
    and "compare_freshness_manifest hmac (Some ring) db' m = Inr Matches"
    and "load_integrity_head db c = Some h" "inj_on (tag_of hmac) (store_messages ring c db \<union> store_messages ring c db')"
    and "list_all i64_row (load_integrity_rows db c)" "list_all i64_row (load_integrity_rows db' c)"
  shows "\<exists>h'. load_integrity_head db' c = Some h' \<and> ih_head_seq h' = ih_head_seq h \<and>
    map (\<lambda>row. signed_view (ir_event row)) (chained_rows (load_integrity_rows db c)) =
      map (\<lambda>row. signed_view (ir_event row)) (chained_rows (load_integrity_rows db' c)) \<and>
    legacy_genesis_canonical c (ih_chain_start_seq h) (load_integrity_rows db c) =
      legacy_genesis_canonical c (ih_chain_start_seq h') (load_integrity_rows db' c)"
proof -
  from assms(6) obtain cur where v: "verify_freshness_manifest hmac (Some ring) m = Inr ()"
    and ex': "export_freshness_manifest hmac (Some ring) db' (fm_generated_at m) = Inr cur"
    by (rule compare_Inr)
  have "fm_heads m = freshness_heads db" using assms(5) by (auto elim!: export_Inr)
  moreover have "fm_heads m = freshness_heads db'"
    using manifest_match_heads [OF assms(3,6)] .
  ultimately obtain h' where h': "load_integrity_head db' c = Some h'" "ih_head_tag h' = ih_head_tag h" "ih_head_seq h' = ih_head_seq h"
    using matching_head [OF assms(1,3) _ assms(7)] by auto
  have "verify_integrity hmac (Some ring) c (load_integrity_rows db c) (Some h) = Inr ()"
    using exported_conversation_verifies [OF assms(5) head_has_events [OF assms(2,7)]] assms(7) by simp
  moreover have "verify_integrity hmac (Some ring) c (load_integrity_rows db' c) (Some h') = Inr ()"
    using exported_conversation_verifies [OF ex' head_has_events [OF assms(4) h'(1)]] h'(1) by simp
  moreover have "inj_on (tag_of hmac) (signed_messages ring c (load_integrity_rows db c) h \<union>
      signed_messages ring c (load_integrity_rows db' c) h')"
    using assms(7,8) h'(1) by (simp add: store_messages_def)
  ultimately show ?thesis
    using stores_agree [of hmac ring c _ h _ h', OF _ _ _ _ row_of_load [OF assms(9)] row_of_load [OF assms(10)]] h'
    by (simp add: genesis_message_def)
qed

theorem matching_manifest_same_history_witness:
  "anonymous_store None \<noteq> anonymous_store (Some []) \<and>
   map (\<lambda>row. signed_view (ir_event row)) (chained_rows (load_integrity_rows (anonymous_store None) ''c'')) =
   map (\<lambda>row. signed_view (ir_event row)) (chained_rows (load_integrity_rows (anonymous_store (Some [])) ''c''))"
proof -
  let ?a = "anonymous_store None" and ?b = "anonymous_store (Some [])"
  let ?m = "case export_freshness_manifest sample_mac (Some sample_ring) ?a 9 of Inr m \<Rightarrow> m"
  have ex: "export_freshness_manifest sample_mac (Some sample_ring) ?a 9 = Inr ?m" by code_simp
  have cmp: "compare_freshness_manifest sample_mac (Some sample_ring) ?b ?m = Inr Matches" by code_simp
  have keyed: "heads_keyed ?a" "heads_have_events ?a" "heads_keyed ?b" "heads_have_events ?b" by code_simp+
  have h: "load_integrity_head ?a ''c'' = Some (the (load_integrity_head ?a ''c''))" by code_simp
  have inj: "inj_on (tag_of sample_mac) (store_messages sample_ring ''c'' ?a \<union> store_messages sample_ring ''c'' ?b)"
    by code_simp
  have wf: "list_all i64_row (load_integrity_rows ?a ''c'')" "list_all i64_row (load_integrity_rows ?b ''c'')" by code_simp+
  have "?a \<noteq> ?b" by code_simp
  with matching_manifest_same_history [OF keyed ex cmp h inj wf] show ?thesis by blast
qed


section \<open>The back-fill\<close>

text \<open>The primary key of the event table.\<close>

definition event_key :: "event_row \<Rightarrow> string \<times> int" where
  "event_key r = (er_conversation_id r, er_seq r)"

definition tagged :: "(string \<Rightarrow> string \<Rightarrow> string) \<Rightarrow> string \<Rightarrow> int \<Rightarrow> event_row \<Rightarrow> event_row" where
  "tagged hmac key key_id r = r\<lparr>er_tag := Some (legacy_tag hmac key r), er_key_id := key_id\<rparr>"

lemma tagged_simps [simp]:
  "event_key (tagged hmac key k r) = event_key r" "legacy_tag hmac key (tagged hmac key k r) = legacy_tag hmac key r"
  "tagged hmac key k (tagged hmac key k r) = tagged hmac key k r" "er_tag (tagged hmac key k r) = Some (legacy_tag hmac key r)"
  by (simp_all add: tagged_def event_key_def legacy_tag_def)

lemma fold_set_tag:
  assumes "\<And>r x. r \<in> set rs \<Longrightarrow> x \<in> set (state_events db) \<Longrightarrow> event_key x = event_key r \<Longrightarrow> legacy_tag hmac key x = legacy_tag hmac key r"
  shows "state_events (fold (set_tag hmac key k) rs db) =
    map (\<lambda>x. if event_key x \<in> event_key ` set rs then tagged hmac key k x else x) (state_events db)"
  using assms
proof (induction rs arbitrary: db)
  case (Cons r rs)
  have set_tag: "state_events (set_tag hmac key k r db) =
      map (\<lambda>x. if event_key x = event_key r then tagged hmac key k x else x) (state_events db)"
    using Cons.prems [of r] by (auto simp: set_tag_def update_where_def event_key_def tagged_def)
  have same: "legacy_tag hmac key x = legacy_tag hmac key r'"
    if "r' \<in> set rs" "x \<in> set (state_events (set_tag hmac key k r db))" "event_key x = event_key r'" for r' x
    using that Cons.prems [of r'] by (auto simp: set_tag split: if_splits)
  have IH: "state_events (fold (set_tag hmac key k) rs (set_tag hmac key k r db)) =
      map (\<lambda>x. if event_key x \<in> event_key ` set rs then tagged hmac key k x else x) (state_events (set_tag hmac key k r db))"
    by (rule Cons.IH) (rule same)
  show ?case
    unfolding fold_simps IH set_tag map_map by (rule map_cong) simp_all
qed (simp add: map_idI)

lemma fold_set_tag_distinct:
  assumes "distinct (map event_key (state_events db))" "rs = filter p (state_events db)"
  shows "state_events (fold (set_tag hmac key k) rs db) =
    map (\<lambda>x. if p x then tagged hmac key k x else x) (state_events db)"
proof -
  have inj: "x = r" if "r \<in> set (state_events db)" "x \<in> set (state_events db)" "event_key x = event_key r" for r x
    using assms(1) that by (auto simp: distinct_map dest: inj_onD)
  then have "event_key x \<in> event_key ` set rs \<longleftrightarrow> p x" if "x \<in> set (state_events db)" for x
    using that by (auto simp: assms(2))
  moreover have "legacy_tag hmac key x = legacy_tag hmac key r"
    if "r \<in> set rs" "x \<in> set (state_events db)" "event_key x = event_key r" for r x
    using that inj [of r x] by (auto simp: assms(2))
  ultimately show ?thesis by (subst fold_set_tag) auto
qed

text \<open>The kind texts that the log writes are those that verification reproduces.\<close>

definition known_kind :: "event_row \<Rightarrow> bool" where
  "known_kind r \<longleftrightarrow> EventKind_as_str (EventKind_parse (er_kind r)) = er_kind r"

lemma verify_tagged:
  assumes "mac32 hmac" "key_for ring k = Some key" "known_kind r"
  shows "verify hmac (Some ring) (ir_event (integrity_row (tagged hmac key k r)))
    (er_tag (tagged hmac key k r)) (er_key_id (tagged hmac key k r)) = Inr ()"
  using assms
  by (simp add: verify_def tagged_def integrity_row_def v1_canonical_def legacy_tag_def known_kind_def
      verify_event_def sign_event_def mac32_def)

text \<open>
  The back-fill of a store without checkpoints signs exactly the rows that had no tag, with a tag that replay
  accepts, changes nothing else, leaves no unsigned row, reports these numbers, and a second run finds nothing to do.
\<close>

theorem backfill_signs_exactly_unsigned:
  assumes "mac32 hmac" "current_key ring = Some key" "state_event_integrity_heads db = []"
    and "distinct (map event_key (state_events db))" "list_all known_kind (state_events db)"
    and "backfill_null_tags hmac (Some ring) db = (res, db')"
  shows "res = Inr \<lparr>bf_signed = count_where (\<lambda>r. er_tag r = None) (state_events db),
      bf_skipped = count_where (\<lambda>r. er_tag r \<noteq> None) (state_events db), bf_null_remaining = 0\<rparr> \<and>
    state_events db' = map (\<lambda>r. if er_tag r = None then tagged hmac key (ring_current_id ring) r else r) (state_events db) \<and>
    list_all2 (\<lambda>r r'. er_tag r \<noteq> None \<or>
      verify hmac (Some ring) (ir_event (integrity_row r')) (er_tag r') (er_key_id r') = Inr ()) (state_events db) (state_events db') \<and>
    backfill_null_tags hmac (Some ring) db' =
      (Inr \<lparr>bf_signed = 0, bf_skipped = length (state_events db), bf_null_remaining = 0\<rparr>, db')"
proof -
  let ?k = "ring_current_id ring"
  let ?f = "\<lambda>r. if er_tag r = None then tagged hmac key ?k r else r"
  have heads: "state_event_integrity_heads (fold (set_tag hmac key ?k) rs d) = state_event_integrity_heads d" for rs d
    by (induction rs arbitrary: d) (simp_all add: set_tag_def)
  have db': "db' = fold (set_tag hmac key ?k) (filter (\<lambda>r. er_tag r = None) (state_events db)) db"
    using assms(2,3,6) by (simp add: backfill_null_tags_def Let_def split: prod.splits)
  have ev: "state_events db' = map ?f (state_events db)"
    unfolding db' by (rule fold_set_tag_distinct [OF assms(4) refl])
  have none: "filter (\<lambda>r. er_tag r = None) (state_events db') = []"
    by (auto simp: ev filter_empty_conv)
  have all: "filter (\<lambda>r. er_tag r \<noteq> None) (state_events db') = state_events db'"
    by (auto simp: ev filter_id_conv)
  have h': "state_event_integrity_heads db' = []" using heads assms(3) by (simp add: db')
  have len: "length (state_events db') = length (state_events db)" by (simp add: ev)
  have again: "backfill_null_tags hmac (Some ring) db' =
      (Inr \<lparr>bf_signed = 0, bf_skipped = length (state_events db), bf_null_remaining = 0\<rparr>, db')"
    using assms(2) h' by (simp add: backfill_null_tags_def count_where_def none all len del: not_None_eq)
  have sum: "length (state_events db) = count_where (\<lambda>r. er_tag r = None) (state_events db) + count_where (\<lambda>r. er_tag r \<noteq> None) (state_events db)"
    unfolding count_where_def by (rule sum_length_filter_compl [symmetric])
  have "res = Inr \<lparr>bf_signed = count_where (\<lambda>r. er_tag r = None) (state_events db),
      bf_skipped = length (state_events db) - count_where (\<lambda>r. er_tag r = None) (state_events db), bf_null_remaining = 0\<rparr>"
    using assms(6) unfolding backfill_null_tags_def Let_def option.case assms(2,3) db' [symmetric] count_where_def none all len
    by simp
  moreover have "list_all2 (\<lambda>r r'. er_tag r \<noteq> None \<or>
      verify hmac (Some ring) (ir_event (integrity_row r')) (er_tag r') (er_key_id r') = Inr ()) (state_events db) (state_events db')"
    using assms(5) verify_tagged [OF assms(1) assms(2) [unfolded current_key_def]]
    by (auto simp: ev list_all2_conv_all_nth list_all_length)
  ultimately show ?thesis using ev again sum by simp
qed


text \<open>An event written before keys were configured.\<close>

definition unsigned_db :: database where
  "unsigned_db = snd (EventLog_append sample_mac None 7 (sample_event 1 ''hi'') empty_database)"

theorem backfill_signs_exactly_unsigned_witness:
  "\<exists>db'. backfill_null_tags sample_mac (Some sample_ring) unsigned_db =
     (Inr \<lparr>bf_signed = 1, bf_skipped = 0, bf_null_remaining = 0\<rparr>, db') \<and>
   backfill_null_tags sample_mac (Some sample_ring) db' =
     (Inr \<lparr>bf_signed = 0, bf_skipped = 1, bf_null_remaining = 0\<rparr>, db')"
proof -
  obtain res db' where run: "backfill_null_tags sample_mac (Some sample_ring) unsigned_db = (res, db')" by fastforce
  have pre: "state_event_integrity_heads unsigned_db = []" "distinct (map event_key (state_events unsigned_db))"
    "list_all known_kind (state_events unsigned_db)" by code_simp+
  have counts: "count_where (\<lambda>r. er_tag r = None) (state_events unsigned_db) = 1"
    "count_where (\<lambda>r. er_tag r \<noteq> None) (state_events unsigned_db) = 0" "length (state_events unsigned_db) = 1" by code_simp+
  from backfill_signs_exactly_unsigned [OF mac32_sample current_key_sample pre run] run show ?thesis
    unfolding counts by blast
qed

text \<open>A row whose kind a newer version wrote.\<close>

definition newer_kind_db :: database where
  "newer_kind_db = unsigned_db\<lparr>state_events := map (\<lambda>r. r\<lparr>er_kind := ''newer_kind''\<rparr>) (state_events unsigned_db)\<rparr>"

text \<open>
  The back-fill signs the stored text of a kind, verification the text of the parsed kind. A conversation with a kind that this version
  does not know replays before the back-fill and fails verification after it.
\<close>

theorem backfill_breaks_unknown_kinds:
  "replay_since sample_mac (Some sample_ring) newer_kind_db ''c'' 0 =
     Inr [(sample_event 1 ''hi'')\<lparr>kind := EventKind_parse ''newer_kind''\<rparr>] \<and>
   replay_since sample_mac (Some sample_ring) (snd (backfill_null_tags sample_mac (Some sample_ring) newer_kind_db)) ''c'' 0 =
     Inl (TamperDetected ''failed HMAC verification'')"
  by code_simp

section \<open>Snapshots\<close>

lemma sorted_filter_split:
  fixes f :: "'a \<Rightarrow> int"
  assumes "sorted (map f xs)"
  shows "filter (\<lambda>x. f x \<le> n) xs @ filter (\<lambda>x. n < f x) xs = xs"
  using assms
proof (induction xs)
  case (Cons x xs)
  show ?case
  proof (cases "f x \<le> n")
    case False
    with Cons.prems have "filter (\<lambda>x. f x \<le> n) xs = []" "filter (\<lambda>x. n < f x) xs = xs"
      by (auto simp: filter_empty_conv filter_id_conv)
    with False show ?thesis by simp
  qed (use Cons in simp)
qed simp

lemma load_rows_seq_sorted: "sorted (map (\<lambda>row. seq (ir_event row)) (load_integrity_rows db c))"
  by (simp add: load_integrity_rows_def integrity_row_def comp_def)

text \<open>
  Hydration from a snapshot equals a full replay. It returns what a replay of the whole log returns, on the store as it is
  now, whenever the events up to the snapshot are still those it was built from; with keys it does not use the snapshot at all, and
  a snapshot that does not decode, or is of another conversation or sequence number, is ignored.
\<close>

theorem hydrate_equals_replay:
  assumes "build_snapshot hmac ring now db c n = Inr snap" "0 \<le> n" "snapshot_decode codec blob = Inr snap"
    and "filter (\<lambda>row. seq (ir_event row) \<le> n) (load_integrity_rows db' c) =
         filter (\<lambda>row. seq (ir_event row) \<le> n) (load_integrity_rows db c)"
  shows "hydrate codec hmac ring db' c (Some blob) (Some n) = replay_since hmac ring db' c 0 \<and>
    hydrate codec hmac ring db' c None n' = replay_since hmac ring db' c 0 \<and>
    (\<forall>junk m. (case snapshot_decode codec junk of Inl _ \<Rightarrow> True | Inr s \<Rightarrow> sn_conversation_id s \<noteq> c \<or> sn_up_to_seq s \<noteq> m) \<longrightarrow>
      hydrate codec hmac ring db' c (Some junk) (Some m) = replay_since hmac ring db' c 0)"
proof (cases ring)
  case None
  let ?rows = "load_integrity_rows db' c" and ?s = "\<lambda>row. seq (ir_event row)"
  have replay: "replay_since hmac None d c m = Inr (map ir_event (filter (\<lambda>row. m < ?s row) (load_integrity_rows d c)))" for d m
    by (simp add: replay_since_def verify_integrity_def)
  have snap: "snap = \<lparr>sn_conversation_id = c, sn_up_to_seq = n, sn_events = map ir_event (filter (\<lambda>row. ?s row \<le> n)
      (filter (\<lambda>row. 0 < ?s row) (load_integrity_rows db c))), sn_built_at = now\<rparr>"
    using assms(1) None by (simp add: build_snapshot_def replay filter_map comp_def)
  have "filter (\<lambda>row. ?s row \<le> n) (filter (\<lambda>row. 0 < ?s row) (load_integrity_rows db c)) =
      filter (\<lambda>row. 0 < ?s row) (filter (\<lambda>row. ?s row \<le> n) ?rows)"
    unfolding assms(4) by (simp add: conj_commute)
  moreover have "filter (\<lambda>row. n < ?s row) ?rows = filter (\<lambda>row. 0 < ?s row) (filter (\<lambda>row. n < ?s row) ?rows)"
    using assms(2) by (auto intro: filter_cong)
  ultimately have "sn_events snap @ map ir_event (filter (\<lambda>row. n < ?s row) ?rows) = map ir_event (filter (\<lambda>row. 0 < ?s row) ?rows)"
    using sorted_filter_split [OF load_rows_seq_sorted, of n db' c]
    by (metis (no_types, lifting) Snapshot.select_convs(3) filter_append map_append snap)
  then have "hydrate codec hmac ring db' c (Some blob) (Some n) = replay_since hmac ring db' c 0"
    using assms(3) None by (simp add: hydrate_def replay snap)
  with None show ?thesis by (auto simp: hydrate_def replay split: sum.splits)
qed (simp add: hydrate_def)

definition sample_snapshot :: Snapshot where
  "sample_snapshot = \<lparr>sn_conversation_id = ''c'', sn_up_to_seq = 1, sn_events = [sample_event 1 ''hi''], sn_built_at = 8\<rparr>"

definition sample_codec :: snapshot_codec where
  "sample_codec = \<lparr>snapshot_encode = (\<lambda>_. Inr ''snap''),
     snapshot_decode = (\<lambda>b. if b = ''snap'' then Inr sample_snapshot else Inl (Serde ''decoding snapshot''))\<rparr>"

definition unsigned_db2 :: database where
  "unsigned_db2 = snd (EventLog_append sample_mac None 9 (sample_event 2 ''more'') unsigned_db)"

theorem hydrate_equals_replay_witness:
  "hydrate sample_codec sample_mac None unsigned_db2 ''c'' (Some ''snap'') (Some 1) =
     Inr [sample_event 1 ''hi'', sample_event 2 ''more''] \<and>
   hydrate sample_codec sample_mac None unsigned_db2 ''c'' (Some ''snap'') (Some 1) = replay_since sample_mac None unsigned_db2 ''c'' 0"
proof -
  have b: "build_snapshot sample_mac None 8 unsigned_db ''c'' 1 = Inr sample_snapshot" by code_simp
  have d: "snapshot_decode sample_codec ''snap'' = Inr sample_snapshot" by (simp add: sample_codec_def)
  have h: "filter (\<lambda>row. seq (ir_event row) \<le> 1) (load_integrity_rows unsigned_db2 ''c'') =
    filter (\<lambda>row. seq (ir_event row) \<le> 1) (load_integrity_rows unsigned_db ''c'')" by code_simp
  have "replay_since sample_mac None unsigned_db2 ''c'' 0 = Inr [sample_event 1 ''hi'', sample_event 2 ''more'']" by code_simp
  with hydrate_equals_replay [OF b _ d h] show ?thesis by simp
qed

end
