(* ===== verification/Outbox.thy ===== *)
theory Outbox
  imports Db
begin

text \<open>
  The outbox and inbox store (\<open>crates/core/src/outbox.rs\<close>) and the redrive audit
  (\<open>crates/core/src/job_redrive.rs\<close>): enqueueing effects under idempotency keys, leases,
  delivery outcomes, operator resolution of unknown outcomes, dead letters and the append-only
  delivery timeline. Every operation is one transaction; the readings of the clock are arguments.

  The invariant \<open>outbox_ok\<close> (unique ids and keys, ids within the rowid counter, known status texts,
  every delivery event refers to a row, delivery ids increase) is kept by every operation, and no
  operation rewrites the recorded timeline.
\<close>

section \<open>Data\<close>

datatype OutboxStatus = Pending | InFlight | Delivered | Failed | DeadLetter | Unknown

fun OutboxStatus_as_str :: "OutboxStatus \<Rightarrow> string" where
  "OutboxStatus_as_str Pending = ''pending''"
| "OutboxStatus_as_str InFlight = ''in_flight''"
| "OutboxStatus_as_str Delivered = ''delivered''"
| "OutboxStatus_as_str Failed = ''failed''"
| "OutboxStatus_as_str DeadLetter = ''dead_letter''"
| "OutboxStatus_as_str Unknown = ''unknown''"

definition OutboxStatus_parse :: "string \<Rightarrow> OutboxStatus option" where
  "OutboxStatus_parse s =
     (if s = ''pending'' then Some Pending
      else if s = ''in_flight'' then Some InFlight
      else if s = ''delivered'' then Some Delivered
      else if s = ''failed'' then Some Failed
      else if s = ''dead_letter'' then Some DeadLetter
      else if s = ''unknown'' then Some Unknown
      else None)"

record OutboxRow =
  o_id :: "int option"
  o_idempotency_key :: string
  o_conversation_id :: string
  o_effect_kind :: string
  o_payload :: string
  o_status :: OutboxStatus
  o_attempts :: int
  o_next_attempt_at :: "int option"
  o_last_error :: "string option"
  o_enqueued_seq :: int

text \<open>\<open>OutboxDeliveryEvent\<close> has the columns of the table and is read as \<open>delivery_row\<close>.\<close>

record ConversationDeliveryEvent =
  cd_event_seq :: int
  cd_transition :: string
  cd_occurred_at :: int
  cd_attempt :: int
  cd_external_receipt :: "string option"
  cd_actor :: "string option"

record UnknownOutboxEffect =
  ue_id :: int
  ue_conversation_id :: string
  ue_effect_kind :: string
  ue_attempts :: int
  ue_enqueued_seq :: int

record DeadLetterEffect =
  dl_id :: int
  dl_conversation_id :: string
  dl_effect_kind :: string
  dl_idempotency_key :: string
  dl_attempts :: int
  dl_enqueued_seq :: int
  dl_last_error :: "string option"

definition row_to_outbox :: "outbox_row \<Rightarrow> OutboxRow" where
  "row_to_outbox r = \<lparr>o_id = Some (ob_id r), o_idempotency_key = ob_idempotency_key r,
     o_conversation_id = ob_conversation_id r, o_effect_kind = ob_effect_kind r, o_payload = ob_payload r,
     o_status = (case OutboxStatus_parse (ob_status r) of Some s \<Rightarrow> s | None \<Rightarrow> Pending),
     o_attempts = ob_attempts r, o_next_attempt_at = ob_next_attempt_at r,
     o_last_error = ob_last_error r, o_enqueued_seq = ob_enqueued_seq r\<rparr>"

definition bounded_reason :: "string \<Rightarrow> string" where
  "bounded_reason reason = rust_trim (concat (take 1024 (utf8_chars reason)))"

definition validate_resolution_actor :: "string \<Rightarrow> DbError + string" where
  "validate_resolution_actor actor = (let actor = rust_trim actor in
     if actor = [] \<or> length actor > 128
     then Inl (Invariant ''unknown outcome resolution needs a bounded actor id'')
     else Inr actor)"

section \<open>Redrive audit\<close>

datatype RedriveKind = RedriveOutbox | RedriveMemoryExtraction | RedriveAutomation

fun RedriveKind_as_str :: "RedriveKind \<Rightarrow> string" where
  "RedriveKind_as_str RedriveOutbox = ''outbox''"
| "RedriveKind_as_str RedriveMemoryExtraction = ''memory_extraction''"
| "RedriveKind_as_str RedriveAutomation = ''automation''"

definition validate_redrive_request :: "string \<Rightarrow> string \<Rightarrow> DbError + string \<times> string" where
  "validate_redrive_request actor reason = (let actor = rust_trim actor; reason = rust_trim reason in
     if actor = [] \<or> length actor > 128 \<or> list_ex is_control (utf8_chars actor) \<or>
        reason = [] \<or> length reason > 512 \<or> list_ex is_control (utf8_chars reason)
     then Inl (Invariant ''redrive requires a bounded operator identity and reason'')
     else Inr (actor, reason))"

text \<open>
  The table has \<open>CHECK (length(reason) BETWEEN 1 AND 512)\<close>, in characters, and
  \<open>CHECK (prior_attempt >= 0)\<close>; the three kinds satisfy the check on \<open>job_kind\<close>.
\<close>

definition append_redrive_event ::
  "RedriveKind \<Rightarrow> string \<Rightarrow> string \<Rightarrow> string \<Rightarrow> string \<Rightarrow> int \<Rightarrow> int \<Rightarrow> database \<Rightarrow> DbError + database" where
  "append_redrive_event k job_id effect_identity actor reason prior_attempt occurred_at db =
     (let chars = length (utf8_chars reason) in
      if chars < 1 \<or> 512 < chars \<or> prior_attempt < 0
      then Inl (Sqlite (ConstraintViolation ''CHECK constraint failed: state_job_redrive_events''))
      else Inr (db\<lparr>state_job_redrive_events := state_job_redrive_events db @
        [\<lparr>rd_job_kind = RedriveKind_as_str k, rd_job_id = job_id, rd_effect_identity = effect_identity,
          rd_actor = actor, rd_reason = reason, rd_prior_attempt = prior_attempt,
          rd_occurred_at = occurred_at\<rparr>]\<rparr>))"

section \<open>Enqueueing\<close>

definition new_outbox_row :: "int \<Rightarrow> OutboxRow \<Rightarrow> (string \<times> string \<times> nat) option \<Rightarrow> outbox_row" where
  "new_outbox_row i row owner =
     \<lparr>ob_id = i, ob_idempotency_key = o_idempotency_key row, ob_conversation_id = o_conversation_id row,
      ob_effect_kind = o_effect_kind row, ob_payload = o_payload row,
      ob_status = OutboxStatus_as_str (o_status row), ob_attempts = o_attempts row,
      ob_next_attempt_at = o_next_attempt_at row, ob_last_error = o_last_error row,
      ob_enqueued_seq = o_enqueued_seq row, ob_lease_owner = None, ob_lease_expires_at = None,
      ob_ownership_scope_key = map_option fst owner,
      ob_ownership_generation = map_option (int \<circ> snd \<circ> snd) owner\<rparr>"

text \<open>\<open>INSERT INTO state_outbox\<close>: the new rowid, or a violation of \<open>UNIQUE(idempotency_key)\<close>.\<close>

definition insert_outbox ::
  "OutboxRow \<Rightarrow> (string \<times> string \<times> nat) option \<Rightarrow> database \<Rightarrow> DbError + int \<times> database" where
  "insert_outbox row owner db =
     (if list_ex (\<lambda>r. ob_idempotency_key r = o_idempotency_key row) (state_outbox db)
      then Inl (Sqlite (ConstraintViolation ''UNIQUE constraint failed: state_outbox.idempotency_key''))
      else let i = outbox_seq db + 1 in
        Inr (i, db\<lparr>state_outbox := state_outbox db @ [new_outbox_row i row owner], outbox_seq := i\<rparr>))"

definition enqueue :: "int \<Rightarrow> OutboxRow \<Rightarrow> database \<Rightarrow> (DbError + int) \<times> database" where
  "enqueue now row = transaction (\<lambda>db. case insert_outbox row None db of
      Inl e \<Rightarrow> Inl e
    | Inr (i, db1) \<Rightarrow> Inr (i, insert_delivery_event i ''enqueued'' now (o_attempts row) None None None db1))"

definition find_outbox :: "int \<Rightarrow> database \<Rightarrow> outbox_row option" where
  "find_outbox i db = find (\<lambda>r. ob_id r = i) (state_outbox db)"

definition owner_is_current :: "string \<Rightarrow> string \<Rightarrow> nat \<Rightarrow> database \<Rightarrow> bool" where
  "owner_is_current scope_key agent_id generation db =
     (case find (\<lambda>r. ow_scope_key r = scope_key) (state_agent_ownership db) of
        None \<Rightarrow> False
      | Some r \<Rightarrow> ow_owner_kind r = ''agent'' \<and> ow_agent_id r = Some agent_id \<and> ow_generation r = int generation)"

definition enqueue_idempotent_guarded ::
  "int \<Rightarrow> OutboxRow \<Rightarrow> (string \<times> string \<times> nat) option \<Rightarrow> database \<Rightarrow> (DbError + int \<times> bool) \<times> database" where
  "enqueue_idempotent_guarded now row owner = transaction (\<lambda>db.
     if (case owner of None \<Rightarrow> False
         | Some (scope_key, agent_id, generation) \<Rightarrow> \<not> owner_is_current scope_key agent_id generation db)
     then Inl (Invariant ''automatic agent lost transport ownership'')
     else (case find (\<lambda>r. ob_idempotency_key r = o_idempotency_key row) (state_outbox db) of
        Some r \<Rightarrow>
          if ob_conversation_id r = o_conversation_id row \<and> ob_effect_kind r = o_effect_kind row
             \<and> ob_payload r = o_payload row
          then (if ob_status r \<in> {''unknown'', ''dead_letter'', ''failed''}
                then Inl (Invariant ''outbox key requires explicit outcome resolution before replay'')
                else Inr ((ob_id r, False), db))
          else Inl (Invariant ''outbox idempotency key was reused for a different effect'')
      | None \<Rightarrow> (case insert_outbox row owner db of
            Inl e \<Rightarrow> Inl e
          | Inr (i, db1) \<Rightarrow> Inr ((i, True),
              insert_delivery_event i ''enqueued'' now (o_attempts row) None None None db1))))"

definition enqueue_idempotent :: "int \<Rightarrow> OutboxRow \<Rightarrow> database \<Rightarrow> (DbError + int \<times> bool) \<times> database" where
  "enqueue_idempotent now row = enqueue_idempotent_guarded now row None"

definition enqueue_idempotent_for_agent ::
  "int \<Rightarrow> OutboxRow \<Rightarrow> string \<Rightarrow> string \<Rightarrow> nat \<Rightarrow> database \<Rightarrow> (DbError + int \<times> bool) \<times> database" where
  "enqueue_idempotent_for_agent now row scope_key agent_id generation =
     enqueue_idempotent_guarded now row (Some (scope_key, agent_id, generation))"

section \<open>Status changes\<close>

definition update_outbox ::
  "(outbox_row \<Rightarrow> bool) \<Rightarrow> (outbox_row \<Rightarrow> outbox_row) \<Rightarrow> database \<Rightarrow> database" where
  "update_outbox p f db = db\<lparr>state_outbox := update_where p f (state_outbox db)\<rparr>"

definition mark_status ::
  "int \<Rightarrow> OutboxStatus \<Rightarrow> string option \<Rightarrow> int option \<Rightarrow> database \<Rightarrow> (DbError + unit) \<times> database" where
  "mark_status i status last_error next_attempt_at db =
     (Inr (), update_outbox (\<lambda>r. ob_id r = i)
        (\<lambda>r. r\<lparr>ob_status := OutboxStatus_as_str status, ob_last_error := last_error,
               ob_next_attempt_at := next_attempt_at, ob_attempts := ob_attempts r + 1\<rparr>) db)"

text \<open>\<open>INSERT OR IGNORE INTO state_inbox\<close>.\<close>

definition inbox_record_if_new :: "int \<Rightarrow> string \<Rightarrow> database \<Rightarrow> (DbError + bool) \<times> database" where
  "inbox_record_if_new now key db =
     (if list_ex (\<lambda>r. fst r = key) (state_inbox db) then (Inr False, db)
      else (Inr True, db\<lparr>state_inbox := state_inbox db @ [(key, now)]\<rparr>))"

definition is_ready :: "int \<Rightarrow> outbox_row \<Rightarrow> bool" where
  "is_ready now_ts r \<longleftrightarrow>
     (ob_status r = ''pending'' \<and> (case ob_next_attempt_at r of None \<Rightarrow> True | Some t \<Rightarrow> t \<le> now_ts)) \<or>
     (ob_status r = ''in_flight'' \<and> (case ob_lease_expires_at r of None \<Rightarrow> False | Some t \<Rightarrow> t \<le> now_ts))"

definition ready_pending :: "int \<Rightarrow> int \<Rightarrow> database \<Rightarrow> OutboxRow list" where
  "ready_pending now_ts limit db =
     map row_to_outbox (sql_limit limit (sort_key ob_id (filter (is_ready now_ts) (state_outbox db))))"

definition claimable :: "int \<Rightarrow> outbox_row \<Rightarrow> bool" where
  "claimable now_ts r \<longleftrightarrow> ob_status r = ''pending'' \<or>
     (ob_status r = ''in_flight'' \<and> (case ob_lease_expires_at r of None \<Rightarrow> False | Some t \<Rightarrow> t \<le> now_ts))"

definition lease_until :: "int \<Rightarrow> int \<Rightarrow> int" where
  "lease_until now_ts lease_secs = saturating_add_i64 now_ts (max lease_secs 1)"

definition claim_with_lease :: "int \<Rightarrow> string \<Rightarrow> int \<Rightarrow> int \<Rightarrow> database \<Rightarrow> (DbError + bool) \<times> database" where
  "claim_with_lease i owner now_ts lease_secs = transaction (\<lambda>db.
     let previous_status = map_option ob_status (find_outbox i db);
         target = (\<lambda>r. ob_id r = i \<and> claimable now_ts r);
         n = count_where target (state_outbox db);
         db1 = update_outbox target (\<lambda>r. r\<lparr>ob_status := ''in_flight'', ob_lease_owner := Some owner,
                 ob_lease_expires_at := Some (lease_until now_ts lease_secs)\<rparr>) db in
     if n = 1 then
       (case find_outbox i db1 of
          None \<Rightarrow> Inl (Sqlite QueryReturnedNoRows)
        | Some r \<Rightarrow>
            let transition = (if previous_status = Some ''in_flight'' then ''lease_reclaimed'' else ''send_requested'') in
            Inr (True, insert_delivery_event i transition now_ts (ob_attempts r + 1) None None None db1))
     else Inr (False, db1))"

definition claim :: "int \<Rightarrow> int \<Rightarrow> database \<Rightarrow> (DbError + bool) \<times> database" where
  "claim now i = claim_with_lease i ''legacy-relay'' now 120"

definition mark_delivered_with_receipt ::
  "int \<Rightarrow> int \<Rightarrow> string option \<Rightarrow> database \<Rightarrow> (DbError + unit) \<times> database" where
  "mark_delivered_with_receipt now i receipt = transaction (\<lambda>db.
     let db1 = update_outbox (\<lambda>r. ob_id r = i) (\<lambda>r. r\<lparr>ob_status := ''delivered'', ob_last_error := None,
                 ob_lease_owner := None, ob_lease_expires_at := None\<rparr>) db in
     (case find_outbox i db1 of
        None \<Rightarrow> Inl (Sqlite QueryReturnedNoRows)
      | Some r \<Rightarrow> Inr ((), insert_delivery_event i ''delivered'' now (ob_attempts r + 1) None receipt None db1)))"

definition mark_delivered :: "int \<Rightarrow> int \<Rightarrow> database \<Rightarrow> (DbError + unit) \<times> database" where
  "mark_delivered now i = mark_delivered_with_receipt now i None"

definition find_with_status :: "int \<Rightarrow> string \<Rightarrow> database \<Rightarrow> outbox_row option" where
  "find_with_status i status db = find (\<lambda>r. ob_id r = i \<and> ob_status r = status) (state_outbox db)"

definition mark_unknown :: "int \<Rightarrow> int \<Rightarrow> string \<Rightarrow> database \<Rightarrow> (DbError + unit) \<times> database" where
  "mark_unknown now i reason = (let detail = bounded_reason reason in transaction (\<lambda>db.
     (case find_with_status i ''in_flight'' db of
        None \<Rightarrow> Inl (Sqlite QueryReturnedNoRows)
      | Some r \<Rightarrow> let attempt = ob_attempts r + 1 in
          Inr ((), insert_delivery_event i ''outcome_unknown'' now attempt (Some detail) None None
            (update_outbox (\<lambda>r. ob_id r = i \<and> ob_status r = ''in_flight'')
               (\<lambda>r. r\<lparr>ob_status := ''unknown'', ob_last_error := Some detail, ob_attempts := attempt,
                      ob_lease_owner := None, ob_lease_expires_at := None\<rparr>) db)))))"

definition authorize_unknown_retry :: "int \<Rightarrow> int \<Rightarrow> string \<Rightarrow> string \<Rightarrow> database \<Rightarrow> (DbError + unit) \<times> database" where
  "authorize_unknown_retry now i actor reason db = (case validate_resolution_actor actor of
      Inl e \<Rightarrow> (Inl e, db)
    | Inr actor \<Rightarrow>
        let detail = bounded_reason reason in
        if detail = [] then (Inl (Invariant ''unknown outcome retry requires an operator reason''), db)
        else transaction (\<lambda>db. (case find_with_status i ''unknown'' db of
            None \<Rightarrow> Inl (Sqlite QueryReturnedNoRows)
          | Some r \<Rightarrow> Inr ((), insert_delivery_event i ''retry_authorized'' now (ob_attempts r) (Some detail) None (Some actor)
              (update_outbox (\<lambda>r. ob_id r = i \<and> ob_status r = ''unknown'')
                 (\<lambda>r. r\<lparr>ob_status := ''pending'', ob_last_error := Some detail, ob_next_attempt_at := None\<rparr>) db)))) db)"

definition confirm_unknown_delivered :: "int \<Rightarrow> int \<Rightarrow> string \<Rightarrow> string \<Rightarrow> database \<Rightarrow> (DbError + unit) \<times> database" where
  "confirm_unknown_delivered now i actor receipt db = (case validate_resolution_actor actor of
      Inl e \<Rightarrow> (Inl e, db)
    | Inr actor \<Rightarrow>
        let receipt = bounded_reason receipt in
        if receipt = [] then (Inl (Invariant ''unknown outcome confirmation requires a receipt reference''), db)
        else transaction (\<lambda>db. (case find_with_status i ''unknown'' db of
            None \<Rightarrow> Inl (Sqlite QueryReturnedNoRows)
          | Some r \<Rightarrow> Inr ((), insert_delivery_event i ''operator_confirmed_delivered'' now (ob_attempts r)
                (Some receipt) (Some receipt) (Some actor)
              (update_outbox (\<lambda>r. ob_id r = i \<and> ob_status r = ''unknown'')
                 (\<lambda>r. r\<lparr>ob_status := ''delivered'', ob_last_error := None\<rparr>) db)))) db)"

text \<open>\<open>now\<close> is the reading for the next attempt, \<open>now_event\<close> the one for the timeline.\<close>

definition record_failure ::
  "int \<Rightarrow> int \<Rightarrow> int \<Rightarrow> string \<Rightarrow> nat \<Rightarrow> int \<Rightarrow> database \<Rightarrow> (DbError + bool) \<times> database" where
  "record_failure now now_event i error retry_budget_max backoff_secs = transaction (\<lambda>db.
     (case find_outbox i db of
        None \<Rightarrow> Inl (Sqlite QueryReturnedNoRows)
      | Some r \<Rightarrow>
          let new_attempts = ob_attempts r + 1;
              retrying = (as_u32 new_attempts < retry_budget_max);
              db1 = (if \<not> retrying then
                  update_outbox (\<lambda>r. ob_id r = i)
                    (\<lambda>r. r\<lparr>ob_status := ''dead_letter'', ob_last_error := Some error, ob_attempts := new_attempts,
                           ob_lease_owner := None, ob_lease_expires_at := None\<rparr>) db
                else
                  update_outbox (\<lambda>r. ob_id r = i)
                    (\<lambda>r. r\<lparr>ob_status := ''pending'', ob_last_error := Some error, ob_attempts := new_attempts,
                           ob_next_attempt_at := Some (now + backoff_secs),
                           ob_lease_owner := None, ob_lease_expires_at := None\<rparr>) db) in
          Inr (retrying, insert_delivery_event i (if retrying then ''retry_scheduled'' else ''dead_letter'')
                 now_event new_attempts (Some error) None None db1)))"

definition redrive_dead_letter :: "int \<Rightarrow> int \<Rightarrow> string \<Rightarrow> string \<Rightarrow> database \<Rightarrow> (DbError + unit) \<times> database" where
  "redrive_dead_letter now i actor reason db = (case validate_redrive_request actor reason of
      Inl e \<Rightarrow> (Inl e, db)
    | Inr (actor, reason) \<Rightarrow> transaction (\<lambda>db. (case find_with_status i ''dead_letter'' db of
          None \<Rightarrow> Inl (Sqlite QueryReturnedNoRows)
        | Some r \<Rightarrow>
            if rust_trim (ob_idempotency_key r) = []
            then Inl (Invariant ''dead-lettered effect has no stable idempotency identity'')
            else let target = (\<lambda>r. ob_id r = i \<and> ob_status r = ''dead_letter'');
                     changed = count_where target (state_outbox db);
                     db1 = update_outbox target (\<lambda>r. r\<lparr>ob_status := ''pending'', ob_next_attempt_at := None,
                             ob_lease_owner := None, ob_lease_expires_at := None\<rparr>) db in
              if changed \<noteq> 1 then Inl (Invariant ''dead-letter status changed during redrive'')
              else (case append_redrive_event RedriveOutbox (show_int i) (ob_idempotency_key r) actor reason
                       (ob_attempts r) now
                       (insert_delivery_event i ''operator_redrive'' now (ob_attempts r) (Some reason) None (Some actor) db1) of
                  Inl e \<Rightarrow> Inl e | Inr db2 \<Rightarrow> Inr ((), db2)))) db)"

section \<open>Reading\<close>

definition delivery_timeline :: "int \<Rightarrow> database \<Rightarrow> delivery_row list" where
  "delivery_timeline i db =
     sort_key de_id (filter (\<lambda>e. de_outbox_id e = i) (state_outbox_delivery_events db))"

text \<open>\<open>LIKE 'transport.%'\<close>; SQLite's \<open>LIKE\<close> ignores the case of ASCII letters.\<close>

definition is_transport :: "string \<Rightarrow> bool" where
  "is_transport effect_kind \<longleftrightarrow> starts_with (to_ascii_lowercase effect_kind) ''transport.''"

definition conversation_event :: "int \<times> delivery_row \<Rightarrow> ConversationDeliveryEvent" where
  "conversation_event p = \<lparr>cd_event_seq = fst p, cd_transition = de_transition (snd p),
     cd_occurred_at = de_occurred_at (snd p), cd_attempt = de_attempt (snd p),
     cd_external_receipt = de_external_receipt (snd p), cd_actor = de_actor (snd p)\<rparr>"

text \<open>The join of outbox rows with their delivery events, ordered by \<open>(enqueued_seq, id)\<close>.\<close>

definition joined_events :: "(outbox_row \<Rightarrow> bool) \<Rightarrow> database \<Rightarrow> (int \<times> delivery_row) list" where
  "joined_events p db = sort_key fst (sort_key (de_id \<circ> snd)
     (concat (map (\<lambda>r. map (\<lambda>e. (ob_enqueued_seq r, e))
        (filter (\<lambda>e. de_outbox_id e = ob_id r) (state_outbox_delivery_events db)))
      (filter p (state_outbox db)))))"

definition conversation_delivery_timeline :: "string \<Rightarrow> database \<Rightarrow> ConversationDeliveryEvent list" where
  "conversation_delivery_timeline c db =
     map conversation_event (joined_events (\<lambda>r. ob_conversation_id r = c \<and> is_transport (ob_effect_kind r)) db)"

definition next_run_seq :: "run_row \<Rightarrow> database \<Rightarrow> int" where
  "next_run_seq r db = (case map rn_input_event_seq (filter (\<lambda>n. rn_conversation_id n = rn_conversation_id r
        \<and> rn_input_event_seq n > rn_input_event_seq r) (state_runs db)) of
      [] \<Rightarrow> i64_max | s # ss \<Rightarrow> fold min ss s)"

definition clamp :: "nat \<Rightarrow> nat \<Rightarrow> nat \<Rightarrow> nat" where
  "clamp lo hi n = max lo (min hi n)"

definition run_delivery_timeline :: "string \<Rightarrow> nat \<Rightarrow> database \<Rightarrow> ConversationDeliveryEvent list" where
  "run_delivery_timeline run_id limit db =
     map conversation_event (take (clamp 1 500 limit)
       (case find (\<lambda>r. rn_run_id r = run_id) (state_runs db) of
          None \<Rightarrow> []
        | Some run \<Rightarrow> joined_events (\<lambda>r. ob_conversation_id r = rn_conversation_id run
            \<and> ob_enqueued_seq r \<ge> rn_input_event_seq run \<and> ob_enqueued_seq r < next_run_seq run db
            \<and> is_transport (ob_effect_kind r)) db))"

definition dead_letter_count :: "database \<Rightarrow> nat" where
  "dead_letter_count db = count_where (\<lambda>r. ob_status r = ''dead_letter'') (state_outbox db)"

definition dead_letters :: "nat \<Rightarrow> database \<Rightarrow> DeadLetterEffect list" where
  "dead_letters limit db = map (\<lambda>r. \<lparr>dl_id = ob_id r, dl_conversation_id = ob_conversation_id r,
      dl_effect_kind = ob_effect_kind r, dl_idempotency_key = ob_idempotency_key r,
      dl_attempts = ob_attempts r, dl_enqueued_seq = ob_enqueued_seq r, dl_last_error = ob_last_error r\<rparr>)
    (take (clamp 1 200 limit) (sort_key ob_id (filter (\<lambda>r. ob_status r = ''dead_letter'') (state_outbox db))))"

definition unknown_view :: "outbox_row \<Rightarrow> UnknownOutboxEffect" where
  "unknown_view r = \<lparr>ue_id = ob_id r, ue_conversation_id = ob_conversation_id r,
     ue_effect_kind = ob_effect_kind r, ue_attempts = ob_attempts r, ue_enqueued_seq = ob_enqueued_seq r\<rparr>"

definition unknown_effects :: "nat \<Rightarrow> database \<Rightarrow> UnknownOutboxEffect list" where
  "unknown_effects limit db = map unknown_view
    (take (clamp 1 200 limit) (sort_key ob_id (filter (\<lambda>r. ob_status r = ''unknown'') (state_outbox db))))"

definition unknown_effect :: "int \<Rightarrow> database \<Rightarrow> UnknownOutboxEffect option" where
  "unknown_effect i db = map_option unknown_view (find_with_status i ''unknown'' db)"

end
