(* ===== verification/Outbox_Machine.thy ===== *)
theory Outbox_Machine
  imports Outbox "HOL-Library.Sublist"
begin

text \<open>
  The outbox as a state machine: its operations as actions, the invariant that every action
  keeps, and what no action changes (the identity of an effect, the recorded timeline). The
  interpretations give the enum and machine interfaces of \<open>Prelude\<close> on the store's own definitions.
\<close>

interpretation outbox_status: wire_enum OutboxStatus_as_str OutboxStatus_parse
proof
  show "OutboxStatus_parse (OutboxStatus_as_str x) = Some x" for x
    by (cases x) (simp_all add: OutboxStatus_parse_def)
  show "OutboxStatus_parse s = Some x \<Longrightarrow> OutboxStatus_as_str x = s" for s x
    by (auto simp: OutboxStatus_parse_def split: if_splits)
qed

section \<open>Actions\<close>

datatype outbox_action =
    Enqueue int OutboxRow
  | EnqueueGuarded int OutboxRow "(string \<times> string \<times> nat) option"
  | MarkStatus int OutboxStatus "string option" "int option"
  | InboxRecord int string
  | ClaimWithLease int string int int
  | MarkDelivered int int "string option"
  | MarkUnknown int int string
  | AuthorizeRetry int int string string
  | ConfirmDelivered int int string string
  | RecordFailure int int int string nat int
  | RedriveDeadLetter int int string string

fun outbox_step :: "database \<Rightarrow> outbox_action \<Rightarrow> database" where
  "outbox_step db (Enqueue now row) = snd (enqueue now row db)"
| "outbox_step db (EnqueueGuarded now row owner) = snd (enqueue_idempotent_guarded now row owner db)"
| "outbox_step db (MarkStatus i status err next) = snd (mark_status i status err next db)"
| "outbox_step db (InboxRecord now key) = snd (inbox_record_if_new now key db)"
| "outbox_step db (ClaimWithLease i owner now_ts secs) = snd (claim_with_lease i owner now_ts secs db)"
| "outbox_step db (MarkDelivered now i receipt) = snd (mark_delivered_with_receipt now i receipt db)"
| "outbox_step db (MarkUnknown now i reason) = snd (mark_unknown now i reason db)"
| "outbox_step db (AuthorizeRetry now i actor reason) = snd (authorize_unknown_retry now i actor reason db)"
| "outbox_step db (ConfirmDelivered now i actor receipt) = snd (confirm_unknown_delivered now i actor receipt db)"
| "outbox_step db (RecordFailure now now' i err budget backoff) = snd (record_failure now now' i err budget backoff db)"
| "outbox_step db (RedriveDeadLetter now i actor reason) = snd (redrive_dead_letter now i actor reason db)"

section \<open>One change of the store\<close>

text \<open>The identity of an effect: what an operation never changes once the row is there.\<close>

type_synonym effect_identity =
  "int \<times> string \<times> string \<times> string \<times> string \<times> int \<times> string option \<times> int option"

definition ob_ident :: "outbox_row \<Rightarrow> effect_identity" where
  "ob_ident r = (ob_id r, ob_idempotency_key r, ob_conversation_id r, ob_effect_kind r, ob_payload r,
     ob_enqueued_seq r, ob_ownership_scope_key r, ob_ownership_generation r)"

definition known_status :: "outbox_row \<Rightarrow> bool" where
  "known_status r \<longleftrightarrow> OutboxStatus_parse (ob_status r) \<noteq> None"

definition outbox_ok :: "database \<Rightarrow> bool" where
  "outbox_ok db \<longleftrightarrow> distinct (map ob_id (state_outbox db)) \<and>
     distinct (map ob_idempotency_key (state_outbox db)) \<and>
     list_all (\<lambda>r. ob_id r \<le> outbox_seq db \<and> known_status r) (state_outbox db) \<and>
     list_all (\<lambda>e. de_outbox_id e \<in> ob_id ` set (state_outbox db)) (state_outbox_delivery_events db) \<and>
     sorted_wrt (<) (map de_id (state_outbox_delivery_events db)) \<and>
     list_all (\<lambda>e. de_id e \<le> delivery_seq db) (state_outbox_delivery_events db)"

text \<open>Everything the outbox operations do to the outbox tables is one of these two changes.\<close>

inductive outbox_change :: "database \<Rightarrow> database \<Rightarrow> bool" where
  same: "state_outbox db' = state_outbox db \<Longrightarrow> outbox_seq db' = outbox_seq db \<Longrightarrow>
     state_outbox_delivery_events db' = state_outbox_delivery_events db \<Longrightarrow> delivery_seq db' = delivery_seq db \<Longrightarrow>
     outbox_change db db'"
| silent_update: "(\<And>r. p r \<Longrightarrow> ob_ident (f r) = ob_ident r) \<Longrightarrow> (\<And>r. p r \<Longrightarrow> known_status (f r)) \<Longrightarrow>
     outbox_change db (update_outbox p f db)"
| update: "(\<And>r. p r \<Longrightarrow> ob_ident (f r) = ob_ident r) \<Longrightarrow> (\<And>r. p r \<Longrightarrow> known_status (f r)) \<Longrightarrow>
     i \<in> ob_id ` set (state_outbox db) \<Longrightarrow>
     state_outbox db' = update_where p f (state_outbox db) \<Longrightarrow> outbox_seq db' = outbox_seq db \<Longrightarrow>
     state_outbox_delivery_events db' = state_outbox_delivery_events (insert_delivery_event i tr at att d rc ac db) \<Longrightarrow>
     delivery_seq db' = delivery_seq db + 1 \<Longrightarrow>
     outbox_change db db'"
| insert: "insert_outbox row owner db = Inr (i, db1) \<Longrightarrow>
     outbox_change db (insert_delivery_event i tr at att None None None db1)"

lemma find_outbox_mem: "find_outbox i db = Some r \<Longrightarrow> i \<in> ob_id ` set (state_outbox db)"
  by (auto simp: find_outbox_def dest: find_SomeD)

lemma find_with_status_mem: "find_with_status i s db = Some r \<Longrightarrow> i \<in> ob_id ` set (state_outbox db)"
  by (auto simp: find_with_status_def dest: find_SomeD)

lemma update_outbox_simps [simp]:
  "state_outbox (update_outbox p f db) = update_where p f (state_outbox db)"
  "outbox_seq (update_outbox p f db) = outbox_seq db"
  "state_outbox_delivery_events (update_outbox p f db) = state_outbox_delivery_events db"
  "delivery_seq (update_outbox p f db) = delivery_seq db"
  "state_inbox (update_outbox p f db) = state_inbox db"
  "state_job_redrive_events (update_outbox p f db) = state_job_redrive_events db"
  "state_agent_ownership (update_outbox p f db) = state_agent_ownership db"
  by (simp_all add: update_outbox_def)

lemma known_status_as_str [simp]: "ob_status r = OutboxStatus_as_str s \<Longrightarrow> known_status r"
  by (simp add: known_status_def outbox_status.parse_as_str)

lemmas status_texts = OutboxStatus_as_str.simps [symmetric]

text \<open>Updates that set the status to a literal text and leave the identity alone.\<close>

lemma outbox_change_update:
  assumes "\<And>r. p r \<Longrightarrow> ob_ident (f r) = ob_ident r \<and> known_status (f r)" "i \<in> ob_id ` set (state_outbox db)"
  shows "outbox_change db (insert_delivery_event i tr at att d rc ac (update_outbox p f db))"
  by (rule outbox_change.update [of p f i]) (use assms in \<open>auto simp: delivery_events_insert\<close>)

lemma ob_ident_key: "ob_ident r = ob_ident r' \<Longrightarrow> ob_id r = ob_id r' \<and> ob_idempotency_key r = ob_idempotency_key r'"
  by (simp add: ob_ident_def)

lemma map_update_ident:
  assumes "\<And>r. p r \<Longrightarrow> ob_ident (f r) = ob_ident r"
  shows "map ob_ident (update_where p f rows) = map ob_ident rows"
    "map ob_id (update_where p f rows) = map ob_id rows"
    "map ob_idempotency_key (update_where p f rows) = map ob_idempotency_key rows"
    "ob_id ` set (update_where p f rows) = ob_id ` set rows"
proof -
  show "map ob_ident (update_where p f rows) = map ob_ident rows" using assms by (rule map_update_where)
  show ids: "map ob_id (update_where p f rows) = map ob_id rows"
    using assms ob_ident_key by (intro map_update_where) blast
  show "map ob_idempotency_key (update_where p f rows) = map ob_idempotency_key rows"
    using assms ob_ident_key by (intro map_update_where) blast
  show "ob_id ` set (update_where p f rows) = ob_id ` set rows"
    using ids by (metis set_map)
qed

lemma find_outbox_update_mem:
  "(\<And>r. p r \<Longrightarrow> ob_ident (f r) = ob_ident r) \<Longrightarrow> find_outbox i (update_outbox p f db) = Some r \<Longrightarrow>
   i \<in> ob_id ` set (state_outbox db)"
  using find_outbox_mem [of i "update_outbox p f db" r] map_update_ident(4) by simp

text \<open>The shape of the transactions: an error, or a change.\<close>

lemma transaction_change:
  "(\<And>a db'. f db = Inr (a, db') \<Longrightarrow> outbox_change db db') \<Longrightarrow> outbox_change db (snd (transaction f db))"
  by (cases rule: transaction_cases [of f db]) (auto intro: outbox_change.same)

lemma known_status_texts [simp]:
  "ob_status r \<in> {''pending'', ''in_flight'', ''delivered'', ''failed'', ''dead_letter'', ''unknown''} \<Longrightarrow> known_status r"
  by (auto simp: known_status_def OutboxStatus_parse_def)

lemmas change_intros = outbox_change.insert outbox_change_update outbox_change.silent_update outbox_change.same

lemma claim_change: "outbox_change db (snd (claim_with_lease i owner now_ts secs db))"
  unfolding claim_with_lease_def
  by (rule transaction_change)
    (auto simp: Let_def ob_ident_def split: if_splits option.splits
      intro!: outbox_change_update outbox_change.silent_update dest!: find_outbox_update_mem [rotated])

lemma mark_delivered_change: "outbox_change db (snd (mark_delivered_with_receipt now i receipt db))"
  unfolding mark_delivered_with_receipt_def
  by (rule transaction_change)
    (auto simp: Let_def ob_ident_def split: option.splits intro!: outbox_change_update dest!: find_outbox_update_mem [rotated])

lemma mark_unknown_change: "outbox_change db (snd (mark_unknown now i reason db))"
  unfolding mark_unknown_def Let_def
  by (rule transaction_change)
    (auto simp: ob_ident_def split: option.splits intro!: outbox_change_update dest: find_with_status_mem)

lemma authorize_change: "outbox_change db (snd (authorize_unknown_retry now i actor reason db))"
  unfolding authorize_unknown_retry_def Let_def
  by (auto simp: ob_ident_def split: sum.splits option.splits if_splits intro!: transaction_change
      outbox_change_update intro: outbox_change.same dest: find_with_status_mem)

lemma confirm_change: "outbox_change db (snd (confirm_unknown_delivered now i actor receipt db))"
  unfolding confirm_unknown_delivered_def Let_def
  by (auto simp: ob_ident_def split: sum.splits option.splits if_splits intro!: transaction_change
      outbox_change_update intro: outbox_change.same dest: find_with_status_mem)

lemma record_failure_change: "outbox_change db (snd (record_failure now now' i err budget backoff db))"
  unfolding record_failure_def Let_def
  by (rule transaction_change)
    (auto simp: ob_ident_def split: option.splits if_splits intro!: outbox_change_update dest: find_outbox_mem)

lemma enqueue_guarded_change: "outbox_change db (snd (enqueue_idempotent_guarded now row owner db))"
  unfolding enqueue_idempotent_guarded_def
  by (rule transaction_change)
    (auto split: option.splits if_splits sum.splits prod.splits intro: outbox_change.insert outbox_change.same)

lemma enqueue_change: "outbox_change db (snd (enqueue now row db))"
  unfolding enqueue_def
  by (rule transaction_change) (auto split: sum.splits prod.splits intro: outbox_change.insert)


lemma mark_status_change: "outbox_change db (snd (mark_status i status err next db))"
  unfolding mark_status_def by (auto simp: ob_ident_def intro: outbox_change.silent_update)

lemma inbox_change: "outbox_change db (snd (inbox_record_if_new now key db))"
  unfolding inbox_record_if_new_def by (auto intro: outbox_change.same)

lemma append_redrive_simps:
  "append_redrive_event k job ident actor reason prior at db = Inr db' \<Longrightarrow>
   state_outbox db' = state_outbox db \<and> outbox_seq db' = outbox_seq db \<and>
   state_outbox_delivery_events db' = state_outbox_delivery_events db \<and> delivery_seq db' = delivery_seq db"
  by (auto simp: append_redrive_event_def Let_def split: if_splits)

lemma redrive_change: "outbox_change db (snd (redrive_dead_letter now i actor reason db))"
proof (cases "validate_redrive_request actor reason")
  case (Inl e)
  then show ?thesis by (auto simp: redrive_dead_letter_def intro: outbox_change.same)
next
  case (Inr p)
  obtain actor' reason' where p: "p = (actor', reason')" by (cases p)
  show ?thesis
    unfolding redrive_dead_letter_def Inr p sum.case prod.case
  proof (rule transaction_change)
    fix a db'
    assume "(case find_with_status i ''dead_letter'' db of None \<Rightarrow> Inl (Sqlite QueryReturnedNoRows)
      | Some r \<Rightarrow> if rust_trim (ob_idempotency_key r) = []
            then Inl (Invariant ''dead-lettered effect has no stable idempotency identity'')
            else let target = (\<lambda>r. ob_id r = i \<and> ob_status r = ''dead_letter'');
                     changed = count_where target (state_outbox db);
                     db1 = update_outbox target (\<lambda>r. r\<lparr>ob_status := ''pending'', ob_next_attempt_at := None,
                             ob_lease_owner := None, ob_lease_expires_at := None\<rparr>) db in
              if changed \<noteq> 1 then Inl (Invariant ''dead-letter status changed during redrive'')
              else (case append_redrive_event RedriveOutbox (show_int i) (ob_idempotency_key r) actor' reason'
                       (ob_attempts r) now
                       (insert_delivery_event i ''operator_redrive'' now (ob_attempts r) (Some reason') None (Some actor') db1) of
                  Inl e \<Rightarrow> Inl e | Inr db2 \<Rightarrow> Inr ((), db2))) = Inr (a, db')"
    then obtain r where r: "find_with_status i ''dead_letter'' db = Some r"
      and ap: "append_redrive_event RedriveOutbox (show_int i) (ob_idempotency_key r) actor' reason' (ob_attempts r) now
        (insert_delivery_event i ''operator_redrive'' now (ob_attempts r) (Some reason') None (Some actor')
          (update_outbox (\<lambda>r. ob_id r = i \<and> ob_status r = ''dead_letter'') (\<lambda>r. r\<lparr>ob_status := ''pending'',
             ob_next_attempt_at := None, ob_lease_owner := None, ob_lease_expires_at := None\<rparr>) db)) = Inr db'"
      by (auto simp: Let_def split: option.splits if_splits sum.splits)
    show "outbox_change db db'"
      by (rule outbox_change.update [where i = i])
        (use append_redrive_simps [OF ap] find_with_status_mem [OF r] in \<open>auto simp: ob_ident_def delivery_events_insert\<close>)
  qed
qed

lemma step_change: "outbox_change db (outbox_step db a)"
  by (cases a) (simp_all add: enqueue_change enqueue_guarded_change mark_status_change inbox_change
      claim_change mark_delivered_change mark_unknown_change authorize_change confirm_change
      record_failure_change redrive_change)

section \<open>The invariant and the frame\<close>

lemma list_all_update_where:
  "list_all q rows \<Longrightarrow> (\<And>r. p r \<Longrightarrow> q r \<Longrightarrow> q (f r)) \<Longrightarrow> list_all q (update_where p f rows)"
  by (induction rows) auto

lemma outbox_ok_update:
  assumes "outbox_ok db" "\<And>r. p r \<Longrightarrow> ob_ident (f r) = ob_ident r" "\<And>r. p r \<Longrightarrow> known_status (f r)"
    and "state_outbox db' = update_where p f (state_outbox db)" "outbox_seq db' = outbox_seq db"
    and "state_outbox_delivery_events db' = state_outbox_delivery_events db" "delivery_seq db' = delivery_seq db"
  shows "outbox_ok db'"
proof -
  have "ob_id (f r) = ob_id r" if "p r" for r using ob_ident_key [OF assms(2) [OF that]] by simp
  then have "list_all (\<lambda>r. ob_id r \<le> outbox_seq db \<and> known_status r) (state_outbox db')"
    unfolding assms(4) using assms(1,3) by (intro list_all_update_where) (auto simp: outbox_ok_def)
  with assms(1,4-7) show ?thesis
    unfolding outbox_ok_def by (simp add: map_update_ident [OF assms(2)])
qed

lemma outbox_ok_delivery:
  assumes "outbox_ok db" "i \<in> ob_id ` set (state_outbox db)"
  shows "outbox_ok (insert_delivery_event i tr at att d rc ac db)"
proof -
  let ?es = "state_outbox_delivery_events db"
  have "\<forall>e \<in> set ?es. de_id e \<le> delivery_seq db" using assms(1) by (simp add: outbox_ok_def list_all_iff)
  then have "\<forall>e \<in> set ?es. de_id e < delivery_seq db + 1" by fastforce
  with assms show ?thesis
    unfolding outbox_ok_def delivery_events_insert
    by (simp add: sorted_wrt_append list_all_iff) fastforce
qed

lemma insert_outbox_Inr:
  "insert_outbox row owner db = Inr (i, db1) \<longleftrightarrow> i = outbox_seq db + 1 \<and>
   o_idempotency_key row \<notin> ob_idempotency_key ` set (state_outbox db) \<and>
   db1 = db\<lparr>state_outbox := state_outbox db @ [new_outbox_row i row owner], outbox_seq := i\<rparr>"
  by (auto simp: insert_outbox_def Let_def list_ex_iff image_iff) metis

lemma new_outbox_row_simps [simp]:
  "ob_id (new_outbox_row i row owner) = i" "ob_idempotency_key (new_outbox_row i row owner) = o_idempotency_key row"
  "ob_status (new_outbox_row i row owner) = OutboxStatus_as_str (o_status row)"
  "known_status (new_outbox_row i row owner)"
  by (simp_all add: new_outbox_row_def)

lemma insert_outbox_ok:
  assumes "outbox_ok db" "insert_outbox row owner db = Inr (i, db1)"
  shows "outbox_ok db1" "i \<in> ob_id ` set (state_outbox db1)"
proof -
  from assms(1) have le: "\<forall>r \<in> set (state_outbox db). ob_id r \<le> outbox_seq db"
    by (simp add: outbox_ok_def list_all_iff)
  then have fresh: "outbox_seq db + 1 \<notin> ob_id ` set (state_outbox db)" by fastforce
  show "outbox_ok db1"
    using assms le fresh by (fastforce simp: outbox_ok_def list_all_iff insert_outbox_Inr)
  show "i \<in> ob_id ` set (state_outbox db1)" using assms(2) by (simp add: insert_outbox_Inr)
qed

lemma outbox_change_ok: "outbox_change db db' \<Longrightarrow> outbox_ok db \<Longrightarrow> outbox_ok db'"
proof (induction rule: outbox_change.induct)
  case (same db' db)
  then show ?case by (simp add: outbox_ok_def)
next
  case (silent_update p f db)
  show ?case by (rule outbox_ok_update [OF silent_update(3,1,2)]) simp_all
next
  case (update p f i db db' tr at att d rc ac)
  have "outbox_ok (update_outbox p f db)"
    by (rule outbox_ok_update [OF update.prems update.hyps(1,2)]) simp_all
  moreover have "i \<in> ob_id ` set (state_outbox (update_outbox p f db))"
    using update.hyps(3) map_update_ident(4) [OF update.hyps(1)] by simp
  ultimately have "outbox_ok (insert_delivery_event i tr at att d rc ac (update_outbox p f db))"
    by (rule outbox_ok_delivery)
  with update.hyps(4-7) show ?case by (simp add: outbox_ok_def delivery_events_insert)
next
  case (insert row owner db i db1 tr at att)
  then show ?case using insert_outbox_ok [OF insert(2,1)] by (intro outbox_ok_delivery)
qed

interpretation outbox_machine: invariant_machine outbox_step outbox_ok
  by unfold_locales (rule outbox_change_ok [OF step_change])

lemma insert_outbox_frame:
  "insert_outbox row owner db = Inr (i, db1) \<Longrightarrow>
   prefix (map ob_ident (state_outbox db)) (map ob_ident (state_outbox db1)) \<and>
   state_outbox_delivery_events db1 = state_outbox_delivery_events db"
  by (simp add: insert_outbox_Inr)

lemma outbox_change_frame:
  "outbox_change db db' \<Longrightarrow> prefix (map ob_ident (state_outbox db)) (map ob_ident (state_outbox db')) \<and>
   prefix (state_outbox_delivery_events db) (state_outbox_delivery_events db')"
  by (induction rule: outbox_change.induct)
    (auto simp: map_update_ident delivery_events_insert dest: insert_outbox_frame)

lemma run_frame:
  "prefix (map ob_ident (state_outbox db)) (map ob_ident (state_outbox (foldl outbox_step db as))) \<and>
   prefix (state_outbox_delivery_events db) (state_outbox_delivery_events (foldl outbox_step db as))"
proof (induction as arbitrary: db)
  case (Cons a as)
  then show ?case using outbox_change_frame [OF step_change [of db a]] prefix_order.order_trans by fastforce
qed simp

lemma delivery_timeline_ok:
  assumes "outbox_ok db"
  shows "delivery_timeline i db = filter (\<lambda>e. de_outbox_id e = i) (state_outbox_delivery_events db)"
proof -
  have "sorted (map de_id (state_outbox_delivery_events db))"
    using assms by (auto simp: outbox_ok_def strict_sorted_imp_sorted)
  then have "sorted (map de_id (filter (\<lambda>e. de_outbox_id e = i) (state_outbox_delivery_events db)))"
    by (simp add: sorted_filter)
  then show ?thesis by (simp add: delivery_timeline_def sort_key_id_if_sorted)
qed


section \<open>One row\<close>

lemma find_outbox_delivery [simp]: "find_outbox i (insert_delivery_event j tr at att d rc ac db) = find_outbox i db"
  by (simp add: find_outbox_def)

lemma find_outbox_update:
  assumes "\<And>r. p r \<Longrightarrow> ob_id (f r) = ob_id r"
  shows "find_outbox i (update_outbox p f db) = map_option (\<lambda>r. if p r then f r else r) (find_outbox i db)"
  using find_update_where_key [of p ob_id f i] assms by (simp add: find_outbox_def)

lemma find_outbox_id: "find_outbox i db = Some r \<Longrightarrow> ob_id r = i"
  by (auto simp: find_outbox_def dest: find_SomeD)

lemma find_outbox_insert:
  "insert_outbox row owner db = Inr (j, db1) \<Longrightarrow> find_outbox i db = Some r \<Longrightarrow> find_outbox i db1 = Some r"
  by (auto simp: insert_outbox_Inr find_outbox_def find_append)

lemma find_outbox_iff: "outbox_ok db \<Longrightarrow> find_outbox i db = Some r \<longleftrightarrow> r \<in> set (state_outbox db) \<and> ob_id r = i"
  unfolding find_outbox_def by (rule find_key_iff) (simp add: outbox_ok_def)

lemma find_with_status_iff:
  assumes "outbox_ok db"
  shows "find_with_status i s db = (case find_outbox i db of
     Some r \<Rightarrow> if ob_status r = s then Some r else None | None \<Rightarrow> None)"
proof (cases "find_with_status i s db")
  case None
  then show ?thesis
    using find_outbox_iff [OF assms] by (auto simp: find_with_status_def find_None_iff split: option.splits)
next
  case (Some r)
  then have "r \<in> set (state_outbox db)" "ob_id r = i" "ob_status r = s"
    by (auto simp: find_with_status_def dest: find_SomeD)
  then have "find_outbox i db = Some r" by (simp add: find_outbox_iff [OF assms])
  with Some \<open>ob_status r = s\<close> show ?thesis by simp
qed

text \<open>The row an action is about, when it is about an existing row.\<close>

fun action_row :: "outbox_action \<Rightarrow> int option" where
  "action_row (Enqueue now row) = None"
| "action_row (EnqueueGuarded now row owner) = None"
| "action_row (MarkStatus i status err next) = Some i"
| "action_row (InboxRecord now key) = None"
| "action_row (ClaimWithLease i owner now_ts secs) = Some i"
| "action_row (MarkDelivered now i receipt) = Some i"
| "action_row (MarkUnknown now i reason) = Some i"
| "action_row (AuthorizeRetry now i actor reason) = Some i"
| "action_row (ConfirmDelivered now i actor receipt) = Some i"
| "action_row (RecordFailure now now' i err budget backoff) = Some i"
| "action_row (RedriveDeadLetter now i actor reason) = Some i"

lemma transaction_keeps:
  "(\<And>a db'. f db = Inr (a, db') \<Longrightarrow> g db' = g db) \<Longrightarrow> g (snd (transaction f db)) = g db"
  by (cases rule: transaction_cases [of f db]) auto

lemma append_redrive_find:
  "append_redrive_event k job ident actor reason prior at db = Inr db' \<Longrightarrow> find_outbox i db' = find_outbox i db"
  using append_redrive_simps by (simp add: find_outbox_def)

lemma step_other_row:
  assumes "action_row a \<noteq> Some i" "find_outbox i db = Some r"
  shows "find_outbox i (outbox_step db a) = Some r"
proof (cases a)
  case (Enqueue now row)
  then show ?thesis
    using assms(2) by (auto simp: enqueue_def transaction_def split: sum.splits dest: find_outbox_insert)
next
  case (EnqueueGuarded now row owner)
  then show ?thesis
    using assms(2)
    by (auto simp: enqueue_idempotent_guarded_def transaction_def split: sum.splits option.splits if_splits
        dest: find_outbox_insert)
next
  case (InboxRecord now key)
  then show ?thesis using assms(2) by (auto simp: inbox_record_if_new_def find_outbox_def)
next
  case (RedriveDeadLetter now j actor reason)
  then show ?thesis
    using assms
    by (auto simp: redrive_dead_letter_def transaction_def Let_def
        split: sum.splits option.splits if_splits prod.splits dest!: append_redrive_find [of _ _ _ _ _ _ _ _ _ i])
      (use find_outbox_id [OF assms(2)] assms in \<open>auto simp: find_outbox_update\<close>)
qed (use assms find_outbox_id [OF assms(2)] in \<open>auto simp: mark_status_def claim_with_lease_def
    mark_delivered_with_receipt_def mark_unknown_def authorize_unknown_retry_def confirm_unknown_delivered_def
    record_failure_def transaction_def Let_def find_outbox_update split: sum.splits option.splits if_splits\<close>)

lemma run_other_row:
  "list_all (\<lambda>a. action_row a \<noteq> Some i) as \<Longrightarrow> find_outbox i db = Some r \<Longrightarrow>
   find_outbox i (foldl outbox_step db as) = Some r"
  by (induction as arbitrary: db) (auto intro: step_other_row)

section \<open>Claims\<close>

definition leased :: "string \<Rightarrow> int \<Rightarrow> outbox_row \<Rightarrow> outbox_row" where
  "leased owner expires r = r\<lparr>ob_status := ''in_flight'', ob_lease_owner := Some owner,
     ob_lease_expires_at := Some expires\<rparr>"

lemma count_target:
  assumes "outbox_ok db"
  shows "count_where (\<lambda>r. ob_id r = i \<and> q r) (state_outbox db) =
    (case find_outbox i db of Some r \<Rightarrow> if q r then 1 else 0 | None \<Rightarrow> 0)"
  unfolding find_outbox_def by (rule count_where_key) (use assms in \<open>simp add: outbox_ok_def\<close>)

lemma update_outbox_none:
  assumes "outbox_ok db" "\<And>r. find_outbox i db = Some r \<Longrightarrow> \<not> q r"
  shows "update_outbox (\<lambda>r. ob_id r = i \<and> q r) f db = db"
proof -
  have "update_where (\<lambda>r. ob_id r = i \<and> q r) f (state_outbox db) = state_outbox db"
    by (rule update_where_none) (use assms find_outbox_iff in auto)
  then show ?thesis by (simp add: update_outbox_def)
qed

lemma claim_refused:
  assumes "outbox_ok db" "\<And>r. find_outbox i db = Some r \<Longrightarrow> \<not> claimable now_ts r"
  shows "claim_with_lease i owner now_ts secs db = (Inr False, db)"
  using assms update_outbox_none [OF assms]
  by (auto simp: claim_with_lease_def Let_def transaction_def count_target split: option.splits)

lemma claim_granted:
  assumes "outbox_ok db" "find_outbox i db = Some r" "claimable now_ts r"
  shows "\<exists>db'. claim_with_lease i owner now_ts secs db = (Inr True, db') \<and>
     find_outbox i db' = Some (leased owner (lease_until now_ts secs) r) \<and>
     state_outbox_delivery_events db' = state_outbox_delivery_events (insert_delivery_event i
       (if ob_status r = ''in_flight'' then ''lease_reclaimed'' else ''send_requested'') now_ts (ob_attempts r + 1)
       None None None db)"
  using assms find_outbox_id [OF assms(2)]
  by (auto simp: claim_with_lease_def Let_def transaction_def count_target find_outbox_update leased_def
      delivery_events_insert)

lemma claim_iff:
  assumes "outbox_ok db" "claim_with_lease i owner now_ts secs db = (Inr True, db')"
  shows "\<exists>r. find_outbox i db = Some r \<and> claimable now_ts r \<and> find_outbox i db' = Some (leased owner (lease_until now_ts secs) r)"
proof (cases "\<exists>r. find_outbox i db = Some r \<and> claimable now_ts r")
  case True
  then obtain r where r: "find_outbox i db = Some r" "claimable now_ts r" by blast
  with claim_granted [OF assms(1) r, of owner secs] assms(2) show ?thesis by auto
next
  case False
  then have "claim_with_lease i owner now_ts secs db = (Inr False, db)"
    by (intro claim_refused [OF assms(1)]) blast
  with assms(2) show ?thesis by simp
qed

end
