(* ===== verification/Ownership.thy ===== *)
theory Ownership
  imports Outbox_Machine "HOL-Library.Option_ord"
begin

text \<open>
  Ownership of a transport recipient (\<open>crates/core/src/agent_ownership.rs\<close>): which agent may send
  automatically to one recipient of one conversation, the controller's takeover, which fences earlier automatic
  sends in the outbox, and the hand-back with the operator's actions in between.

  SHA-256 in hexadecimal and the JSON library are parameters; \<open>'j\<close> is the type of JSON values.
\<close>

section \<open>State\<close>

record AgentOwnership =
  ao_conversation_id :: string
  ao_owner_kind :: string
  ao_agent_id :: "string option"
  ao_previous_agent_id :: "string option"
  ao_generation :: int
  ao_updated_at :: int

definition scope_key :: "(string \<Rightarrow> string) \<Rightarrow> string \<Rightarrow> string \<Rightarrow> string \<Rightarrow> string" where
  "scope_key sha256_hex conversation_id channel recipient =
     sha256_hex (conversation_id @ [CHR 0x1F] @ channel @ [CHR 0x1F] @ recipient)"

definition find_owner :: "string \<Rightarrow> database \<Rightarrow> ownership_row option" where
  "find_owner key db = find (\<lambda>r. ow_scope_key r = key) (state_agent_ownership db)"

definition owner_view :: "ownership_row \<Rightarrow> AgentOwnership" where
  "owner_view r = \<lparr>ao_conversation_id = ow_conversation_id r, ao_owner_kind = ow_owner_kind r,
     ao_agent_id = ow_agent_id r, ao_previous_agent_id = ow_previous_agent_id r,
     ao_generation = ow_generation r, ao_updated_at = ow_updated_at r\<rparr>"

definition get_owner :: "(string \<Rightarrow> string) \<Rightarrow> string \<Rightarrow> string \<Rightarrow> string \<Rightarrow> database \<Rightarrow> AgentOwnership option" where
  "get_owner sha256_hex c channel recipient db =
     map_option owner_view (find_owner (scope_key sha256_hex c channel recipient) db)"

section \<open>Operations\<close>

text \<open>\<open>INSERT ... ON CONFLICT(scope_key) DO NOTHING\<close>, then a read.\<close>

definition assign_agent ::
  "(string \<Rightarrow> string) \<Rightarrow> string \<Rightarrow> string \<Rightarrow> string \<Rightarrow> string \<Rightarrow> int \<Rightarrow> database \<Rightarrow> (DbError + AgentOwnership) \<times> database" where
  "assign_agent sha256_hex c channel recipient agent_id now db =
     (let key = scope_key sha256_hex c channel recipient;
          db1 = (if find_owner key db = None
            then db\<lparr>state_agent_ownership := state_agent_ownership db @
              [\<lparr>ow_scope_key = key, ow_conversation_id = c, ow_owner_kind = ''agent'', ow_agent_id = Some agent_id,
                ow_previous_agent_id = None, ow_generation = 1, ow_updated_at = now\<rparr>]\<rparr>
            else db) in
      (case get_owner sha256_hex c channel recipient db1 of
         None \<Rightarrow> (Inl (Invariant ''owner disappeared''), db1)
       | Some owner \<Rightarrow> (Inr owner, db1)))"

text \<open>\<open>INSERT INTO state_agent_handoff_events\<close>, with the primary key \<open>(scope_key, generation, event_id)\<close>.\<close>

definition handoff_exists :: "string \<Rightarrow> int \<Rightarrow> string \<Rightarrow> database \<Rightarrow> bool" where
  "handoff_exists key generation event_id db = list_ex (\<lambda>e. ho_scope_key e = key \<and> ho_generation e = generation
     \<and> ho_event_id e = event_id) (state_agent_handoff_events db)"

definition insert_handoff ::
  "string \<Rightarrow> int \<Rightarrow> string \<Rightarrow> string \<Rightarrow> int option \<Rightarrow> string \<Rightarrow> int \<Rightarrow> database \<Rightarrow> DbError + database" where
  "insert_handoff key generation event_kind event_id conversation_seq payload_json now db =
     (if handoff_exists key generation event_id db
      then Inl (Sqlite (ConstraintViolation ''UNIQUE constraint failed: state_agent_handoff_events''))
      else Inr (db\<lparr>state_agent_handoff_events := state_agent_handoff_events db @
        [\<lparr>ho_scope_key = key, ho_generation = generation, ho_event_kind = event_kind, ho_event_id = event_id,
          ho_conversation_seq = conversation_seq, ho_payload_json = payload_json, ho_occurred_at = now\<rparr>]\<rparr>))"

text \<open>The generation a takeover gets: \<open>COALESCE(MAX(generation), 0) + 1\<close> over the scope's only row.\<close>

definition next_generation :: "string \<Rightarrow> database \<Rightarrow> int" where
  "next_generation key db = (case find_owner key db of None \<Rightarrow> 0 | Some r \<Rightarrow> ow_generation r) + 1"

definition controller_row :: "string \<Rightarrow> string \<Rightarrow> int \<Rightarrow> int \<Rightarrow> ownership_row" where
  "controller_row key c generation now = \<lparr>ow_scope_key = key, ow_conversation_id = c, ow_owner_kind = ''controller'',
     ow_agent_id = None, ow_previous_agent_id = None, ow_generation = generation, ow_updated_at = now\<rparr>"

definition upsert_controller :: "string \<Rightarrow> string \<Rightarrow> int \<Rightarrow> int \<Rightarrow> database \<Rightarrow> database" where
  "upsert_controller key c generation now db =
     db\<lparr>state_agent_ownership :=
       (if find_owner key db = None then state_agent_ownership db @ [controller_row key c generation now]
        else update_where (\<lambda>r. ow_scope_key r = key)
          (\<lambda>r. r\<lparr>ow_owner_kind := ''controller'',
                 ow_previous_agent_id := (case ow_agent_id r of None \<Rightarrow> ow_previous_agent_id r | Some a \<Rightarrow> Some a),
                 ow_agent_id := None, ow_generation := generation, ow_updated_at := now\<rparr>)
          (state_agent_ownership db))\<rparr>"

text \<open>The automatic sends that a takeover fences, and what it does to each of them.\<close>

definition fenced_by :: "string \<Rightarrow> int \<Rightarrow> outbox_row \<Rightarrow> bool" where
  "fenced_by key generation r \<longleftrightarrow> ob_ownership_scope_key r = Some key \<and>
     (case ob_ownership_generation r of None \<Rightarrow> False | Some g \<Rightarrow> g < generation) \<and>
     ob_status r \<in> {''pending'', ''in_flight''}"

definition takeover_reason :: string where
  "takeover_reason = ''operator takeover requires delivery reconciliation''"

definition fence_row :: "int \<Rightarrow> outbox_row \<Rightarrow> database \<Rightarrow> database" where
  "fence_row now r db =
     (let (next_status, transition) = (if ob_status r = ''pending'' then (''failed'', ''cancelled_by_takeover'')
            else (''unknown'', ''takeover_outcome_unknown'')) in
      insert_delivery_event (ob_id r) transition now (ob_attempts r) (Some ''ownership_generation_changed'') None None
        (update_outbox (\<lambda>x. ob_id x = ob_id r)
          (\<lambda>x. x\<lparr>ob_status := next_status, ob_last_error := Some takeover_reason,
                 ob_lease_owner := None, ob_lease_expires_at := None\<rparr>) db))"

definition takeover_tx :: "string \<Rightarrow> string \<Rightarrow> int \<Rightarrow> unit tx" where
  "takeover_tx key c now db =
     (let generation = next_generation key db in
      (case insert_handoff key generation ''takeover'' (''takeover:'' @ show_int generation) None ''{}'' now
              (upsert_controller key c generation now db) of
         Inl e \<Rightarrow> Inl e
       | Inr db1 \<Rightarrow> Inr ((), fold (fence_row now) (filter (fenced_by key generation) (state_outbox db1)) db1)))"

definition takeover ::
  "(string \<Rightarrow> string) \<Rightarrow> string \<Rightarrow> string \<Rightarrow> string \<Rightarrow> int \<Rightarrow> database \<Rightarrow> (DbError + AgentOwnership) \<times> database" where
  "takeover sha256_hex c channel recipient now db =
     (case transaction (takeover_tx (scope_key sha256_hex c channel recipient) c now) db of
        (Inl e, db1) \<Rightarrow> (Inl e, db1)
      | (Inr _, db1) \<Rightarrow> (case get_owner sha256_hex c channel recipient db1 of
            None \<Rightarrow> (Inl (Invariant ''takeover disappeared''), db1)
          | Some owner \<Rightarrow> (Inr owner, db1)))"

definition operator_actions :: "'j json \<Rightarrow> string \<Rightarrow> int \<Rightarrow> database \<Rightarrow> 'j list" where
  "operator_actions js key generation db =
     map (\<lambda>e. case json_from_str js (ho_payload_json e) of None \<Rightarrow> json_null js | Some v \<Rightarrow> v)
       (sort_key ho_conversation_seq (sort_key ho_event_id
         (filter (\<lambda>e. ho_scope_key e = key \<and> ho_generation e = generation \<and> ho_event_kind e = ''operator_action'')
           (state_agent_handoff_events db))))"

definition held_by_controller :: "string \<Rightarrow> nat \<Rightarrow> ownership_row \<Rightarrow> bool" where
  "held_by_controller key generation r \<longleftrightarrow>
     ow_scope_key r = key \<and> ow_owner_kind r = ''controller'' \<and> ow_generation r = int generation"

text \<open>The \<open>UPDATE\<close> that restores the interrupted agent, or the \<open>DELETE\<close> when there was none.\<close>

definition release_owner :: "string \<Rightarrow> nat \<Rightarrow> int \<Rightarrow> string option \<Rightarrow> database \<Rightarrow> database" where
  "release_owner key generation now previous_agent db = (case previous_agent of
      Some agent_id \<Rightarrow> db\<lparr>state_agent_ownership := update_where (held_by_controller key generation)
        (\<lambda>r. r\<lparr>ow_owner_kind := ''agent'', ow_agent_id := Some agent_id, ow_previous_agent_id := None,
               ow_generation := ow_generation r + 1, ow_updated_at := now\<rparr>) (state_agent_ownership db)\<rparr>
    | None \<Rightarrow> db\<lparr>state_agent_ownership := filter (Not \<circ> held_by_controller key generation) (state_agent_ownership db)\<rparr>)"

definition handback_tx :: "'j json \<Rightarrow> string \<Rightarrow> nat \<Rightarrow> int \<Rightarrow> (string option \<times> 'j list) tx" where
  "handback_tx js key generation now db =
     (let previous_agent = Option.bind (find (held_by_controller key generation) (state_agent_ownership db)) ow_previous_agent_id;
          actions = operator_actions js key (int generation) db;
          changed = count_where (held_by_controller key generation) (state_agent_ownership db) in
      if changed \<noteq> 1 then Inl (Invariant ''ownership changed before handback'')
      else (case insert_handoff key (int generation) ''handback'' (''handback:'' @ show_nat generation) None
                   (json_array_to_string js actions) now (release_owner key generation now previous_agent db) of
              Inl e \<Rightarrow> Inl e
            | Inr db2 \<Rightarrow> Inr ((previous_agent, actions), db2)))"

definition handback_with_context ::
  "'j json \<Rightarrow> (string \<Rightarrow> string) \<Rightarrow> string \<Rightarrow> string \<Rightarrow> string \<Rightarrow> nat \<Rightarrow> int \<Rightarrow> database
   \<Rightarrow> (DbError + string option \<times> 'j list) \<times> database" where
  "handback_with_context js sha256_hex c channel recipient generation now =
     transaction (handback_tx js (scope_key sha256_hex c channel recipient) generation now)"

definition handback ::
  "'j json \<Rightarrow> (string \<Rightarrow> string) \<Rightarrow> string \<Rightarrow> string \<Rightarrow> string \<Rightarrow> nat \<Rightarrow> int \<Rightarrow> database
   \<Rightarrow> (DbError + unit) \<times> database" where
  "handback js sha256_hex c channel recipient generation now db =
     (case handback_with_context js sha256_hex c channel recipient generation now db of
        (Inl e, db') \<Rightarrow> (Inl e, db') | (Inr _, db') \<Rightarrow> (Inr (), db'))"

text \<open>\<open>INSERT OR IGNORE ... SELECT ... WHERE owner_kind = 'controller'\<close>.\<close>

definition record_operator_action ::
  "'j json \<Rightarrow> (string \<Rightarrow> string) \<Rightarrow> string \<Rightarrow> string \<Rightarrow> string \<Rightarrow> string \<Rightarrow> int \<Rightarrow> 'j \<Rightarrow> int \<Rightarrow> database
   \<Rightarrow> (DbError + bool) \<times> database" where
  "record_operator_action js sha256_hex c channel recipient event_id conversation_seq value_json now db =
     (let key = scope_key sha256_hex c channel recipient in
      (case find (\<lambda>r. ow_scope_key r = key \<and> ow_owner_kind r = ''controller'') (state_agent_ownership db) of
         None \<Rightarrow> (Inr False, db)
       | Some r \<Rightarrow> (case insert_handoff key (ow_generation r) ''operator_action'' event_id (Some conversation_seq)
                          (json_to_string js value_json) now db of
             Inl _ \<Rightarrow> (Inr False, db)
           | Inr db1 \<Rightarrow> (Inr True, db1))))"


section \<open>The ownership table\<close>

text \<open>What the table's primary key and CHECK constraint say.\<close>

definition ownership_ok :: "database \<Rightarrow> bool" where
  "ownership_ok db \<longleftrightarrow> distinct (map ow_scope_key (state_agent_ownership db)) \<and>
     list_all (\<lambda>r. ow_owner_kind r = ''controller'' \<and> ow_agent_id r = None \<or>
       ow_owner_kind r = ''agent'' \<and> ow_agent_id r \<noteq> None) (state_agent_ownership db)"

lemma find_owner_key: "find_owner key db = Some r \<Longrightarrow> ow_scope_key r = key"
  by (auto simp: find_owner_def dest: find_SomeD)

lemma find_owner_upsert:
  "find_owner key (upsert_controller key c g now db) = Some (case find_owner key db of
     None \<Rightarrow> controller_row key c g now
   | Some r \<Rightarrow> r\<lparr>ow_owner_kind := ''controller'',
       ow_previous_agent_id := (case ow_agent_id r of None \<Rightarrow> ow_previous_agent_id r | Some a \<Rightarrow> Some a),
       ow_agent_id := None, ow_generation := g, ow_updated_at := now\<rparr>)"
proof (cases "find_owner key db")
  case None
  then show ?thesis by (simp add: find_owner_def upsert_controller_def controller_row_def find_append)
next
  case (Some r)
  with find_owner_key [OF Some] show ?thesis
    by (simp add: find_owner_def upsert_controller_def find_update_where_key [where k = ow_scope_key])
qed

lemma find_owner_upsert_other:
  assumes "key' \<noteq> key"
  shows "find_owner key' (upsert_controller key c g now db) = find_owner key' db"
proof (cases "find_owner key' db")
  case (Some r)
  with assms find_owner_key [OF Some] show ?thesis
    by (auto simp: find_owner_def upsert_controller_def controller_row_def find_append
        find_update_where_key [where k = ow_scope_key])
qed (use assms in \<open>auto simp: find_owner_def upsert_controller_def controller_row_def find_append
        find_update_where_key [where k = ow_scope_key]\<close>)

lemma ownership_ok_upsert:
  assumes "ownership_ok db"
  shows "ownership_ok (upsert_controller key c g now db)"
proof (cases "find_owner key db")
  case None
  then have "key \<notin> ow_scope_key ` set (state_agent_ownership db)"
    by (auto simp: find_owner_def find_None_iff)
  with None assms show ?thesis by (simp add: ownership_ok_def upsert_controller_def controller_row_def)
next
  case (Some r)
  let ?f = "\<lambda>r. r\<lparr>ow_owner_kind := ''controller'',
     ow_previous_agent_id := (case ow_agent_id r of None \<Rightarrow> ow_previous_agent_id r | Some a \<Rightarrow> Some a),
     ow_agent_id := None, ow_generation := g, ow_updated_at := now\<rparr>"
  have "map ow_scope_key (update_where (\<lambda>r. ow_scope_key r = key) ?f (state_agent_ownership db)) =
      map ow_scope_key (state_agent_ownership db)"
    by (rule map_update_where) simp
  moreover have "list_all (\<lambda>r. ow_owner_kind r = ''controller'' \<and> ow_agent_id r = None \<or>
       ow_owner_kind r = ''agent'' \<and> ow_agent_id r \<noteq> None)
      (update_where (\<lambda>r. ow_scope_key r = key) ?f (state_agent_ownership db))"
    by (rule list_all_update_where) (use assms in \<open>simp_all add: ownership_ok_def\<close>)
  ultimately show ?thesis using assms Some by (simp add: ownership_ok_def upsert_controller_def)
qed

lemma insert_handoff_frame:
  "insert_handoff key g k eid cs p now db = Inr db1 \<Longrightarrow> state_agent_ownership db1 = state_agent_ownership db \<and>
   state_outbox db1 = state_outbox db \<and> outbox_seq db1 = outbox_seq db \<and>
   state_outbox_delivery_events db1 = state_outbox_delivery_events db \<and> delivery_seq db1 = delivery_seq db"
  by (auto simp: insert_handoff_def split: if_splits)

section \<open>Fencing\<close>

definition fenced_row :: "outbox_row \<Rightarrow> outbox_row" where
  "fenced_row r = r\<lparr>ob_status := (if ob_status r = ''pending'' then ''failed'' else ''unknown''),
     ob_last_error := Some takeover_reason, ob_lease_owner := None, ob_lease_expires_at := None\<rparr>"

lemma fence_row_frame [simp]: "state_agent_ownership (fence_row now r db) = state_agent_ownership db"
  by (simp add: fence_row_def)

lemma fold_fence_frame [simp]: "state_agent_ownership (fold (fence_row now) rs db) = state_agent_ownership db"
  by (induction rs arbitrary: db) simp_all

lemma fence_row_ids [simp]: "map ob_id (state_outbox (fence_row now r db)) = map ob_id (state_outbox db)"
  by (simp add: fence_row_def Let_def split_def map_update_where)

lemma fold_fence_ids [simp]: "map ob_id (state_outbox (fold (fence_row now) rs db)) = map ob_id (state_outbox db)"
  by (induction rs arbitrary: db) simp_all

lemma fence_row_change: "find_outbox (ob_id r) db = Some r \<Longrightarrow> outbox_change db (fence_row now r db)"
  unfolding fence_row_def
  by (auto simp: ob_ident_def intro!: outbox_change_update dest: find_outbox_mem)

lemma find_outbox_fence:
  assumes "find_outbox (ob_id r) db = Some r"
  shows "find_outbox i (fence_row now r db) = (if i = ob_id r then Some (fenced_row r) else find_outbox i db)"
proof (cases "find_outbox i db")
  case (Some x)
  with assms find_outbox_id [OF Some] show ?thesis
    by (auto simp: fence_row_def fenced_row_def find_outbox_update)
qed (use assms in \<open>auto simp: fence_row_def find_outbox_update\<close>)

lemma fold_fence:
  assumes "outbox_ok db" "distinct (map ob_id rs)" "\<And>r. r \<in> set rs \<Longrightarrow> find_outbox (ob_id r) db = Some r"
  shows "outbox_ok (fold (fence_row now) rs db) \<and>
    (\<forall>i r. find_outbox i db = Some r \<longrightarrow>
       find_outbox i (fold (fence_row now) rs db) = Some (if r \<in> set rs then fenced_row r else r))"
  using assms
proof (induction rs arbitrary: db)
  case (Cons x rs)
  let ?db = "fence_row now x db"
  have x: "find_outbox (ob_id x) db = Some x" using Cons.prems(3) by simp
  have ok: "outbox_ok ?db" by (rule outbox_change_ok [OF fence_row_change [OF x] Cons.prems(1)])
  have keep: "find_outbox i ?db = Some r" if "find_outbox i db = Some r" "i \<noteq> ob_id x" for i r
    using that by (simp add: find_outbox_fence [OF x])
  have rs: "find_outbox (ob_id r) ?db = Some r" if "r \<in> set rs" for r
    using that Cons.prems(2,3) keep by (metis (no_types, lifting) distinct.simps(2) image_eqI list.set_map list.simps(9) list.set_intros(2))
  note IH = Cons.IH [OF ok _ rs] 
  have "find_outbox i (fold (fence_row now) rs ?db) = Some (if r \<in> set (x # rs) then fenced_row r else r)"
    if r: "find_outbox i db = Some r" for i r
  proof (cases "i = ob_id x")
    case True
    then have "r = x" using r x by simp
    have "fenced_row x \<notin> set rs"
      using Cons.prems(2) by (auto simp: image_iff fenced_row_def)
    with IH True \<open>r = x\<close> Cons.prems(2) show ?thesis by (simp add: find_outbox_fence [OF x])
  next
    case False
    then have "r \<noteq> x" using find_outbox_id [OF r] by auto
    with IH keep [OF r False] Cons.prems(2) show ?thesis by simp
  qed
  with IH Cons.prems(2) show ?case by simp
qed simp

end
