(* ===== verification/Ownership_Properties.thy ===== *)
theory Ownership_Properties
  imports Ownership
begin

text \<open>
  The properties of transport ownership: a takeover fences every earlier automatic send, a
  hand-back restores the agent and returns the operator's actions, stale generations are refused.
\<close>

lemma takeover_result:
  assumes "takeover sha256_hex c channel recipient now db = (Inr owner, db')"
    and key: "key = scope_key sha256_hex c channel recipient"
  obtains db1 r where "insert_handoff key (next_generation key db) ''takeover'' (''takeover:'' @ show_int (next_generation key db))
      None ''{}'' now (upsert_controller key c (next_generation key db) now db) = Inr db1"
    "db' = fold (fence_row now) (filter (fenced_by key (next_generation key db)) (state_outbox db1)) db1"
    "find_owner key db' = Some r" "owner = owner_view r"
  using assms
  by (auto simp: takeover_def takeover_tx_def transaction_def get_owner_def Let_def split: sum.splits option.splits prod.splits)

lemma not_fenced_fenced_row: "\<not> fenced_by key g (fenced_row r)"
  by (simp add: fenced_by_def fenced_row_def)

text \<open>
  C27: A takeover makes the controller the owner with a new generation and fences the agent: every
  automatic send of an earlier generation that was pending is cancelled and every one in flight becomes
  unknown, no other outbox row changes, and from then on no agent can enqueue an automatic send for
  the scope under any generation.
\<close>

theorem takeover_fences_automatic_sends:
  assumes "outbox_ok db" "takeover sha256_hex c channel recipient now db = (Inr owner, db')"
    and "key = scope_key sha256_hex c channel recipient" "g = next_generation key db"
  shows "ao_owner_kind owner = ''controller'' \<and> ao_agent_id owner = None \<and> ao_generation owner = g \<and> outbox_ok db' \<and>
    (\<forall>i r. find_outbox i db = Some r \<longrightarrow> find_outbox i db' = Some (if fenced_by key g r then fenced_row r else r)) \<and>
    (\<forall>r \<in> set (state_outbox db'). \<not> fenced_by key g r) \<and>
    (\<forall>now' row agent_id generation. enqueue_idempotent_for_agent now' row key agent_id generation db' =
       (Inl (Invariant ''automatic agent lost transport ownership''), db'))"
proof -
  obtain db1 r where ins: "insert_handoff key g ''takeover'' (''takeover:'' @ show_int g) None ''{}'' now
      (upsert_controller key c g now db) = Inr db1"
    and db': "db' = fold (fence_row now) (filter (fenced_by key g) (state_outbox db1)) db1"
    and r: "find_owner key db' = Some r" "owner = owner_view r"
    using takeover_result [OF assms(2,3)] assms(4) by metis
  have tables: "state_outbox db1 = state_outbox db" "outbox_seq db1 = outbox_seq db"
    "state_outbox_delivery_events db1 = state_outbox_delivery_events db" "delivery_seq db1 = delivery_seq db"
    and owners: "state_agent_ownership db1 = state_agent_ownership (upsert_controller key c g now db)"
    using insert_handoff_frame [OF ins] by (simp_all add: upsert_controller_def)
  let ?rs = "filter (fenced_by key g) (state_outbox db)"
  have ok1: "outbox_ok db1" using assms(1) tables by (simp add: outbox_ok_def)
  have same: "find_outbox i db1 = find_outbox i db" for i using tables(1) by (simp add: find_outbox_def)
  have "distinct (map ob_id ?rs)" using assms(1) by (simp add: outbox_ok_def distinct_map_filter)
  moreover have "find_outbox (ob_id x) db1 = Some x" if "x \<in> set ?rs" for x
    using that find_outbox_iff [OF assms(1)] same by auto
  ultimately have fold: "outbox_ok db'" "\<And>i x. find_outbox i db = Some x \<Longrightarrow>
      find_outbox i db' = Some (if x \<in> set ?rs then fenced_row x else x)"
    using fold_fence [OF ok1, of ?rs now] unfolding db' tables(1) same by blast+
  have row: "find_outbox i db' = Some (if fenced_by key g x then fenced_row x else x)" if "find_outbox i db = Some x" for i x
    using fold(2) [OF that] that find_outbox_iff [OF assms(1)] by auto
  have owner: "ow_owner_kind r = ''controller''" "ow_agent_id r = None" "ow_generation r = g"
    using r(1) find_owner_upsert [of key c g now db] owners
    by (auto simp: find_owner_def db' controller_row_def split: option.splits)
  have ids: "ob_id ` set (state_outbox db') = ob_id ` set (state_outbox db)"
    using fold_fence_ids [of now _ db1] unfolding db' tables(1) by (metis set_map)
  have "\<not> fenced_by key g x" if x: "x \<in> set (state_outbox db')" for x
  proof -
    from ids x obtain y where "y \<in> set (state_outbox db)" "ob_id y = ob_id x" by (metis imageE image_eqI)
    then have "find_outbox (ob_id x) db' = Some (if fenced_by key g y then fenced_row y else y)"
      using row find_outbox_iff [OF assms(1)] by blast
    moreover have "find_outbox (ob_id x) db' = Some x" using x find_outbox_iff [OF fold(1)] by simp
    ultimately show ?thesis using not_fenced_fenced_row by (auto split: if_splits)
  qed
  moreover have "\<not> owner_is_current key agent_id generation db'" for agent_id generation
    using r(1) owner by (simp add: owner_is_current_def find_owner_def)
  ultimately show ?thesis
    using r(2) owner row fold(1)
    by (auto simp: owner_view_def enqueue_idempotent_for_agent_def enqueue_idempotent_guarded_def transaction_def)
qed


definition sample_hash :: "string \<Rightarrow> string" where
  "sample_hash b = b"

definition sample_scope :: string where
  "sample_scope = scope_key sample_hash ''c'' ''signal'' ''peer''"

text \<open>An agent owns the scope and has one automatic send waiting.\<close>

definition sample_send :: OutboxRow where
  "sample_send = \<lparr>o_id = None, o_idempotency_key = ''k1'', o_conversation_id = ''c'',
     o_effect_kind = ''transport.send'', o_payload = ''hi'', o_status = Pending, o_attempts = 0,
     o_next_attempt_at = None, o_last_error = None, o_enqueued_seq = 1\<rparr>"

definition owned_db :: database where
  "owned_db = snd (enqueue_idempotent_for_agent 2 sample_send sample_scope ''watcher'' 1
     (snd (assign_agent sample_hash ''c'' ''signal'' ''peer'' ''watcher'' 1 empty_database)))"

definition taken_db :: database where
  "taken_db = snd (takeover sample_hash ''c'' ''signal'' ''peer'' 3 owned_db)"

lemma sample_takeover:
  "takeover sample_hash ''c'' ''signal'' ''peer'' 3 owned_db =
   (Inr \<lparr>ao_conversation_id = ''c'', ao_owner_kind = ''controller'', ao_agent_id = None,
      ao_previous_agent_id = Some ''watcher'', ao_generation = 2, ao_updated_at = 3\<rparr>, taken_db)"
  by code_simp

theorem takeover_fences_automatic_sends_witness:
  "map_option ob_status (find_outbox 1 owned_db) = Some ''pending'' \<and>
   map_option ob_status (find_outbox 1 taken_db) = Some ''failed''"
proof -
  have ok: "outbox_ok owned_db" by code_simp
  have g: "2 = next_generation sample_scope owned_db" by code_simp
  have r: "find_outbox 1 owned_db = Some (the (find_outbox 1 owned_db))" by code_simp
  have f: "fenced_by sample_scope 2 (the (find_outbox 1 owned_db))" by code_simp
  have p: "ob_status (the (find_outbox 1 owned_db)) = ''pending''" by code_simp
  show ?thesis
    using takeover_fences_automatic_sends [OF ok sample_takeover sample_scope_def g] r f p
    by (auto simp: fenced_row_def)
qed

section \<open>Hand-back\<close>

lemma find_held:
  assumes "ownership_ok db"
  shows "find (held_by_controller key g) (state_agent_ownership db) =
    (case find_owner key db of None \<Rightarrow> None | Some r \<Rightarrow> if held_by_controller key g r then Some r else None)"
proof -
  have d: "distinct (map ow_scope_key (state_agent_ownership db))" using assms by (simp add: ownership_ok_def)
  show ?thesis
  proof (cases "find (held_by_controller key g) (state_agent_ownership db)")
    case None
    then show ?thesis
      by (auto simp: find_None_iff find_owner_def held_by_controller_def dest: find_SomeD split: option.splits)
  next
    case (Some r)
    then have "r \<in> set (state_agent_ownership db)" "held_by_controller key g r" by (auto dest: find_SomeD)
    with find_distinct_key [OF d this(1)] Some show ?thesis by (simp add: find_owner_def held_by_controller_def)
  qed
qed

lemma count_held:
  assumes "ownership_ok db"
  shows "count_where (held_by_controller key g) (state_agent_ownership db) = 1 \<longleftrightarrow>
    (\<exists>r. find_owner key db = Some r \<and> held_by_controller key g r)"
proof -
  have d: "distinct (map ow_scope_key (state_agent_ownership db))" using assms by (simp add: ownership_ok_def)
  have "held_by_controller key g = (\<lambda>r. ow_scope_key r = key \<and> ow_owner_kind r = ''controller'' \<and> ow_generation r = int g)"
    by (simp add: fun_eq_iff held_by_controller_def)
  then show ?thesis
    using count_where_key [OF d, of key "\<lambda>r. ow_owner_kind r = ''controller'' \<and> ow_generation r = int g"]
    by (cases "find_owner key db") (auto simp: find_owner_def dest: find_SomeD)
qed

lemma find_owner_release:
  assumes "ownership_ok db" "find_owner key db = Some r" "held_by_controller key g r"
  shows "find_owner key (release_owner key g now previous db) = (case previous of None \<Rightarrow> None
    | Some agent_id \<Rightarrow> Some (r\<lparr>ow_owner_kind := ''agent'', ow_agent_id := Some agent_id,
        ow_previous_agent_id := None, ow_generation := int g + 1, ow_updated_at := now\<rparr>))"
proof (cases previous)
  case None
  have "x = r" if "x \<in> set (state_agent_ownership db)" "ow_scope_key x = key" for x
    using that assms(1,2) find_distinct_key [of ow_scope_key "state_agent_ownership db" x]
    by (simp add: find_owner_def ownership_ok_def)
  with None assms(3) show ?thesis
    by (auto simp: find_owner_def find_None_iff release_owner_def)
next
  case (Some a)
  with assms(2,3) find_owner_key [OF assms(2)] show ?thesis
    by (simp add: find_owner_def release_owner_def find_update_where_key [where k = ow_scope_key]
        held_by_controller_def)
qed

text \<open>
  A hand-back is accepted only from the controller at the generation it observed, and then
  restores the agent that was interrupted under a generation that no earlier send carries, or frees
  the scope when there was none. It returns exactly the operator's actions recorded under this generation, in
  conversation order. Any other hand-back is refused and changes nothing.
\<close>

theorem handback_restores_owner:
  assumes "ownership_ok db" "key = scope_key sha256_hex c channel recipient"
    and "handback_with_context js sha256_hex c channel recipient generation now db = (res, db')"
  shows "case res of
      Inl e \<Rightarrow> db' = db
    | Inr (previous, actions) \<Rightarrow> \<exists>r. find_owner key db = Some r \<and> ow_owner_kind r = ''controller'' \<and>
        ow_generation r = int generation \<and> previous = ow_previous_agent_id r \<and>
        actions = operator_actions js key (int generation) db \<and>
        find_owner key db' = (case previous of None \<Rightarrow> None
          | Some agent_id \<Rightarrow> Some (r\<lparr>ow_owner_kind := ''agent'', ow_agent_id := Some agent_id,
              ow_previous_agent_id := None, ow_generation := int generation + 1, ow_updated_at := now\<rparr>))"
proof (cases res)
  case (Inl e)
  with assms(3) show ?thesis by (simp add: handback_with_context_def transaction_Inl_iff)
next
  case (Inr p)
  obtain previous actions where p: "p = (previous, actions)" by (cases p)
  from assms(2,3) Inr p have tx: "handback_tx js key generation now db = Inr ((previous, actions), db')"
    by (simp add: handback_with_context_def transaction_Inr_iff)
  then have one: "count_where (held_by_controller key generation) (state_agent_ownership db) = 1"
    by (auto simp: handback_tx_def Let_def split: if_splits)
  then obtain r where r: "find_owner key db = Some r" "held_by_controller key generation r"
    using count_held [OF assms(1)] by blast
  then have held: "find (held_by_controller key generation) (state_agent_ownership db) = Some r"
    by (simp add: find_held [OF assms(1)])
  from tx obtain ins: "insert_handoff key (int generation) ''handback'' (''handback:'' @ show_nat generation) None
      (json_array_to_string js actions) now (release_owner key generation now previous db) = Inr db'"
    and res: "previous = ow_previous_agent_id r" "actions = operator_actions js key (int generation) db"
    unfolding handback_tx_def Let_def one held by (simp split: sum.splits)
  have "find_owner key db' = find_owner key (release_owner key generation now previous db)"
    using insert_handoff_frame [OF ins] by (simp add: find_owner_def)
  with find_owner_release [OF assms(1) r] Inr p r res show ?thesis
    by (simp add: held_by_controller_def)
qed

text \<open>JSON values as their own text, and the store after the operator acted in the controller's place.\<close>

definition sample_json :: "string json" where
  "sample_json = \<lparr>json_from_str = Some, json_null = ''null'', json_to_string = (\<lambda>v. v), json_array_to_string = concat\<rparr>"

definition acted_db :: database where
  "acted_db = snd (record_operator_action sample_json sample_hash ''c'' ''signal'' ''peer'' ''e1'' 7 ''replied'' 4 taken_db)"

lemma sample_handback:
  "handback_with_context sample_json sample_hash ''c'' ''signal'' ''peer'' 2 5 acted_db =
   (Inr (Some ''watcher'', [''replied'']),
    snd (handback_with_context sample_json sample_hash ''c'' ''signal'' ''peer'' 2 5 acted_db))"
  by code_simp

theorem handback_restores_owner_witness:
  "map_option ow_owner_kind (find_owner sample_scope
     (snd (handback_with_context sample_json sample_hash ''c'' ''signal'' ''peer'' 2 5 acted_db))) = Some ''agent'' \<and>
   operator_actions sample_json sample_scope 2 acted_db = [''replied'']"
proof -
  have ok: "ownership_ok acted_db" by code_simp
  show ?thesis
    using handback_restores_owner [OF ok sample_scope_def sample_handback] by auto
qed

section \<open>A second takeover of a scope that had no agent\<close>

text \<open>A scope without an agent, taken over and handed back.\<close>

definition free_db :: database where
  "free_db = snd (handback sample_json sample_hash ''c'' ''signal'' ''peer'' 1 2
     (snd (takeover sample_hash ''c'' ''signal'' ''peer'' 1 empty_database)))"

text \<open>
  After a takeover of an unowned scope and its hand-back nobody owns the scope, and a second takeover is refused:
  the hand-back deletes the row and with it the generation, the handoff events stay, and the second takeover
  meets the primary key of the first one's event.
\<close>

theorem second_takeover_is_refused:
  "get_owner sample_hash ''c'' ''signal'' ''peer'' free_db = None \<and>
   takeover sample_hash ''c'' ''signal'' ''peer'' 3 free_db =
     (Inl (Sqlite (ConstraintViolation ''UNIQUE constraint failed: state_agent_handoff_events'')), free_db)"
  by code_simp


section \<open>The tables stay well-formed\<close>

definition handoff_key :: "handoff_row \<Rightarrow> string \<times> int \<times> string" where
  "handoff_key e = (ho_scope_key e, ho_generation e, ho_event_id e)"

definition ownership_tables_ok :: "database \<Rightarrow> bool" where
  "ownership_tables_ok db \<longleftrightarrow> ownership_ok db \<and> distinct (map handoff_key (state_agent_handoff_events db))"

datatype 'j ownership_action =
    AssignAgent string string string string int
  | Takeover string string string int
  | Handback string string string nat int
  | RecordOperatorAction string string string string int 'j int

fun ownership_step :: "'j json \<Rightarrow> (string \<Rightarrow> string) \<Rightarrow> database \<Rightarrow> 'j ownership_action \<Rightarrow> database" where
  "ownership_step js sha256_hex db (AssignAgent c channel recipient agent_id now) =
     snd (assign_agent sha256_hex c channel recipient agent_id now db)"
| "ownership_step js sha256_hex db (Takeover c channel recipient now) = snd (takeover sha256_hex c channel recipient now db)"
| "ownership_step js sha256_hex db (Handback c channel recipient generation now) =
     snd (handback_with_context js sha256_hex c channel recipient generation now db)"
| "ownership_step js sha256_hex db (RecordOperatorAction c channel recipient event_id s v now) =
     snd (record_operator_action js sha256_hex c channel recipient event_id s v now db)"

lemma insert_handoff_tables_ok:
  assumes "ownership_tables_ok db" "insert_handoff key g k e s p now db = Inr db'"
  shows "ownership_tables_ok db'"
proof -
  have "(key, g, e) \<notin> handoff_key ` set (state_agent_handoff_events db)"
    using assms(2) by (auto simp: insert_handoff_def handoff_exists_def handoff_key_def list_ex_iff split: if_splits)
  with assms show ?thesis
    by (auto simp: ownership_tables_ok_def ownership_ok_def insert_handoff_def handoff_key_def split: if_splits)
qed

lemma tables_ok_cong:
  "state_agent_ownership db' = state_agent_ownership db \<Longrightarrow> state_agent_handoff_events db' = state_agent_handoff_events db \<Longrightarrow>
   ownership_tables_ok db' = ownership_tables_ok db"
  by (simp add: ownership_tables_ok_def ownership_ok_def)

lemma fold_fence_handoffs: "state_agent_handoff_events (fold (fence_row now) rs db) = state_agent_handoff_events db"
  by (induction rs arbitrary: db) (simp_all add: fence_row_def update_outbox_def Let_def split: prod.split if_splits)

lemma upsert_tables_ok: "ownership_tables_ok db \<Longrightarrow> ownership_tables_ok (upsert_controller key c g now db)"
  using ownership_ok_upsert by (auto simp: ownership_tables_ok_def upsert_controller_def)

lemma takeover_tables_ok:
  assumes "ownership_tables_ok db" "takeover_tx key c now db = Inr (u, db')"
  shows "ownership_tables_ok db'"
proof -
  from assms(2) obtain db1 where ins: "insert_handoff key (next_generation key db) ''takeover''
      (''takeover:'' @ show_int (next_generation key db)) None ''{}'' now (upsert_controller key c (next_generation key db) now db) = Inr db1"
    and db': "db' = fold (fence_row now) (filter (fenced_by key (next_generation key db)) (state_outbox db1)) db1"
    by (auto simp: takeover_tx_def Let_def split: sum.splits)
  have "ownership_tables_ok db1" using insert_handoff_tables_ok [OF upsert_tables_ok [OF assms(1)] ins] .
  then show ?thesis
    unfolding db' by (subst tables_ok_cong [of _ db1]) (simp_all add: fold_fence_frame fold_fence_handoffs)
qed

lemma release_tables_ok: "ownership_tables_ok db \<Longrightarrow> ownership_tables_ok (release_owner key g now p db)"
proof (cases p)
  case None
  assume "ownership_tables_ok db"
  with None show ?thesis
    by (auto simp: ownership_tables_ok_def ownership_ok_def release_owner_def distinct_map_filter list_all_iff)
next
  case (Some a)
  assume ok: "ownership_tables_ok db"
  let ?f = "\<lambda>r. r\<lparr>ow_owner_kind := ''agent'', ow_agent_id := Some a, ow_previous_agent_id := None,
      ow_generation := ow_generation r + 1, ow_updated_at := now\<rparr>"
  have "map ow_scope_key (update_where (held_by_controller key g) ?f (state_agent_ownership db)) =
      map ow_scope_key (state_agent_ownership db)" by (rule map_update_where) simp
  with ok Some show ?thesis
    by (auto simp: ownership_tables_ok_def ownership_ok_def release_owner_def list_all_iff set_update_where)
qed

lemma handback_tables_ok:
  assumes "ownership_tables_ok db" "handback_tx js key g now db = Inr (x, db')"
  shows "ownership_tables_ok db'"
proof -
  from assms(2) obtain p k e s pl where "insert_handoff key (int g) k e s pl now (release_owner key g now p db) = Inr db'"
    by (auto simp: handback_tx_def Let_def split: if_splits sum.splits)
  with insert_handoff_tables_ok [OF release_tables_ok [OF assms(1)]] show ?thesis .
qed

lemma assign_tables_ok: "ownership_tables_ok db \<Longrightarrow> ownership_tables_ok (snd (assign_agent sha256_hex c ch r a now db))"
proof -
  assume ok: "ownership_tables_ok db"
  let ?key = "scope_key sha256_hex c ch r"
  have "?key \<notin> ow_scope_key ` set (state_agent_ownership db)" if "find_owner ?key db = None"
    using that by (auto simp: find_owner_def find_None_iff)
  with ok show ?thesis
    by (auto simp: assign_agent_def Let_def ownership_tables_ok_def ownership_ok_def split: option.splits)
qed

interpretation ownership: invariant_machine "ownership_step js sha256_hex" ownership_tables_ok for js sha256_hex
proof
  fix db and a :: "'a ownership_action"
  assume ok: "ownership_tables_ok db"
  show "ownership_tables_ok (ownership_step js sha256_hex db a)"
  proof (cases a)
    case (AssignAgent c ch r ag now)
    with ok assign_tables_ok show ?thesis by simp
  next
    case (Takeover c ch r now)
    with ok takeover_tables_ok [OF ok] show ?thesis
      by (auto simp: takeover_def transaction_def split: sum.splits prod.splits option.splits)
  next
    case (Handback c ch r g now)
    with ok handback_tables_ok [OF ok] show ?thesis
      by (auto simp: handback_with_context_def transaction_def split: sum.splits prod.splits)
  next
    case (RecordOperatorAction c ch r e s v now)
    with ok insert_handoff_tables_ok [OF ok] show ?thesis
      by (auto simp: record_operator_action_def Let_def split: sum.splits option.splits)
  qed
qed

text \<open>
  The ownership tables stay well-formed under every sequence of assignments, takeovers, hand-backs and recorded operator
  actions: one row per scope, a controller row names no agent and an agent row names one, and the
  handoff events have unique keys.
\<close>

theorem ownership_tables_wellformed:
  "ownership_tables_ok (foldl (ownership_step js sha256_hex) empty_database actions)"
proof -
  have "ownership_tables_ok empty_database"
    by (simp add: ownership_tables_ok_def ownership_ok_def empty_database_def)
  then show ?thesis by (rule ownership.run_inv)
qed

end
