(* ===== verification/Relay.thy ===== *)
theory Relay
  imports Outbox_Machine Event_Log
begin

text \<open>
  The effect relay (\<open>crates/outbox/src/lib.rs\<close>): backoff and retry budget, the dispatcher trait
  and its outcomes, the wakeup dispatcher, the registry and one pass of the drain loop.

  A dispatcher is third-party or plugin code behind the trait \<open>Dispatcher\<close>; it is a record of
  functions that read and change the database and an arbitrary outside world \<open>'w\<close> (the sink, the
  other tasks, the passing of time). \<open>clock\<close> reads the time from the world. A pass reports an
  error with the operation that failed, as the source's \<open>format!\<close> does. The endless loop around a
  pass (\<open>run_drain_loop\<close>) only sleeps and repeats.
\<close>

section \<open>Backoff and budget\<close>

text \<open>\<open>1u64.checked_shl(n)\<close> for \<open>n < 64\<close> is \<open>2 ^ n\<close>; \<open>saturating_mul\<close> caps at \<open>u64::MAX\<close>. In milliseconds.\<close>

definition exp_backoff :: "nat \<Rightarrow> int" where
  "exp_backoff attempt =
     (let shift = min attempt 15;
          factor = (if shift < 64 then 2 ^ shift mod 2 ^ 64 else 1);
          ms = min (2 ^ 64 - 1) (1000 * factor) in
      min ms (10 * 60 * 1000))"

text \<open>\<open>Duration::as_secs\<close>.\<close>

definition backoff_secs :: "nat \<Rightarrow> int" where
  "backoff_secs attempt = exp_backoff attempt div 1000"

record RetryBudget =
  max_attempts :: nat

definition RetryBudget_default :: RetryBudget where
  "RetryBudget_default = \<lparr>max_attempts = 5\<rparr>"

definition should_dead_letter :: "RetryBudget \<Rightarrow> nat \<Rightarrow> bool" where
  "should_dead_letter budget attempts \<longleftrightarrow> attempts \<ge> max_attempts budget"

section \<open>Dispatchers\<close>

datatype DeliverySafety = IdempotencyKey | StatusLookup | NoGuarantee

datatype DispatchError = NotAccepted string | OutcomeUnknown string

record DispatchReceipt =
  external_receipt :: "string option"

datatype ReconciliationResult = ReconciledDelivered DispatchReceipt | NotDelivered | ReconcileUnknown string

record 'w Dispatcher =
  effect_kind :: string
  delivery_safety :: DeliverySafety
  dispatch :: "OutboxRow \<Rightarrow> database \<times> 'w \<Rightarrow> (DispatchError + DispatchReceipt) \<times> database \<times> 'w"
  reconcile :: "OutboxRow \<Rightarrow> database \<times> 'w \<Rightarrow> (string + ReconciliationResult) \<times> database \<times> 'w"

text \<open>The defaults of the trait.\<close>

definition default_delivery_safety :: DeliverySafety where
  "default_delivery_safety = NoGuarantee"

definition default_reconcile ::
  "OutboxRow \<Rightarrow> database \<times> 'w \<Rightarrow> (string + ReconciliationResult) \<times> database \<times> 'w" where
  "default_reconcile row s = (Inr (ReconcileUnknown ''dispatcher does not implement status lookup''), s)"

text \<open>
  The wakeup dispatcher appends a \<open>Wakeup\<close> event. \<open>decode_wakeup\<close> is the MessagePack decoder of
  \<open>WakeupPayload\<close>, \<open>ring\<close> the key ring that \<open>EventLog::new\<close> takes from the database handle.
\<close>

definition wakeup_dispatch ::
  "(string \<Rightarrow> string option) \<Rightarrow> (string \<Rightarrow> string \<Rightarrow> string) \<Rightarrow> KeyRing option \<Rightarrow> ('w \<Rightarrow> int \<times> 'w) \<Rightarrow>
   OutboxRow \<Rightarrow> database \<times> 'w \<Rightarrow> (DispatchError + DispatchReceipt) \<times> database \<times> 'w" where
  "wakeup_dispatch decode_wakeup hmac ring clock row s = (case s of (db, w) \<Rightarrow>
     let next_seq = EventSeq_next (last_seq db (o_conversation_id row)) in
     (case decode_wakeup (o_payload row) of
        None \<Rightarrow> (Inl (NotAccepted ''decode wakeup''), db, w)
      | Some note \<Rightarrow>
          let (now, w1) = clock w; (now_head, w2) = clock w1;
              ev = \<lparr>conversation_id = o_conversation_id row, seq = next_seq, kind = Wakeup,
                    payload = o_payload row, committed_at = now, actor = Some ''system''\<rparr> in
          (case EventLog_append hmac ring now_head ev db of
             (Inl e, db') \<Rightarrow> (Inl (OutcomeUnknown ''append wakeup''), db', w2)
           | (Inr _, db') \<Rightarrow> (Inr \<lparr>external_receipt = None\<rparr>, db', w2))))"

definition WakeupDispatcher ::
  "(string \<Rightarrow> string option) \<Rightarrow> (string \<Rightarrow> string \<Rightarrow> string) \<Rightarrow> KeyRing option \<Rightarrow> ('w \<Rightarrow> int \<times> 'w) \<Rightarrow> 'w Dispatcher" where
  "WakeupDispatcher decode_wakeup hmac ring clock =
     \<lparr>effect_kind = ''schedule.wakeup'', delivery_safety = default_delivery_safety,
      dispatch = wakeup_dispatch decode_wakeup hmac ring clock, reconcile = default_reconcile\<rparr>"

section \<open>The registry\<close>

type_synonym 'w DispatcherRegistry = "string \<rightharpoonup> 'w Dispatcher"

definition register :: "'w Dispatcher \<Rightarrow> 'w DispatcherRegistry \<Rightarrow> 'w DispatcherRegistry" where
  "register disp registry = registry(effect_kind disp \<mapsto> disp)"

record DrainConfig =
  batch_size :: int
  poll_interval_ms :: nat
  retry_budget :: RetryBudget

definition DrainConfig_default :: DrainConfig where
  "DrainConfig_default = \<lparr>batch_size = 32, poll_interval_ms = 500, retry_budget = RetryBudget_default\<rparr>"

section \<open>A pass of the drain loop\<close>

type_synonym drain_error = "string \<times> DbError"

text \<open>A store call inside a pass: the clock is read, the call runs, an error aborts the pass.\<close>

definition store_call ::
  "string \<Rightarrow> ('w \<Rightarrow> int \<times> 'w) \<Rightarrow> (int \<Rightarrow> database \<Rightarrow> (DbError + 'a) \<times> database) \<Rightarrow> database \<times> 'w
   \<Rightarrow> (drain_error + bool) \<times> database \<times> 'w" where
  "store_call ctx clock f s = (case s of (db, w) \<Rightarrow>
     let (now, w1) = clock w in
     (case f now db of
        (Inl e, db') \<Rightarrow> (Inl (ctx, e), db', w1)
      | (Inr _, db') \<Rightarrow> (Inr True, db', w1)))"

text \<open>
  \<open>record_failure\<close> with the budget and backoff of a pass. The reading for the next attempt comes
  first; when the row becomes a dead letter it is not used.
\<close>

definition fail_call ::
  "('w \<Rightarrow> int \<times> 'w) \<Rightarrow> DrainConfig \<Rightarrow> int \<Rightarrow> OutboxRow \<Rightarrow> string \<Rightarrow> database \<times> 'w
   \<Rightarrow> (drain_error + bool) \<times> database \<times> 'w" where
  "fail_call clock cfg i row err s = (case s of (db, w) \<Rightarrow>
     let attempt = as_u32 (o_attempts row + 1);
         (now, w1) = clock w in
     store_call ''record_failure'' clock
       (\<lambda>now_event. record_failure now now_event i err (max_attempts (retry_budget cfg)) (backoff_secs attempt)) (db, w1))"

definition expired_reason :: string where
  "expired_reason = ''relay restarted with an in-flight effect and the sink has no deduplication or status lookup''"

text \<open>The attempt of a claimed row, after the recovery of an expired lease.\<close>

definition attempt_dispatch ::
  "('w \<Rightarrow> int \<times> 'w) \<Rightarrow> DrainConfig \<Rightarrow> 'w Dispatcher \<Rightarrow> int \<Rightarrow> OutboxRow \<Rightarrow> database \<times> 'w
   \<Rightarrow> (drain_error + bool) \<times> database \<times> 'w" where
  "attempt_dispatch clock cfg disp i row s = (case dispatch disp row s of
      (Inr receipt, s1) \<Rightarrow> store_call ''mark_delivered'' clock
         (\<lambda>now. mark_delivered_with_receipt now i (external_receipt receipt)) s1
    | (Inl (NotAccepted err), s1) \<Rightarrow> fail_call clock cfg i row err s1
    | (Inl (OutcomeUnknown err), s1) \<Rightarrow> (case delivery_safety disp of
          IdempotencyKey \<Rightarrow> fail_call clock cfg i row err s1
        | StatusLookup \<Rightarrow> (case reconcile disp row s1 of
              (Inr (ReconciledDelivered receipt), s2) \<Rightarrow> store_call ''mark_delivered'' clock
                 (\<lambda>now. mark_delivered_with_receipt now i (external_receipt receipt)) s2
            | (Inr NotDelivered, s2) \<Rightarrow> fail_call clock cfg i row err s2
            | (Inr (ReconcileUnknown reason), s2) \<Rightarrow> store_call ''mark_unknown'' clock
                 (\<lambda>now. mark_unknown now i (err @ ''; reconciliation: '' @ reason)) s2
            | (Inl reason, s2) \<Rightarrow> store_call ''mark_unknown'' clock
                 (\<lambda>now. mark_unknown now i (err @ ''; reconciliation failed: '' @ reason)) s2)
        | NoGuarantee \<Rightarrow> store_call ''mark_unknown'' clock (\<lambda>now. mark_unknown now i err) s1))"

text \<open>What happens to a claimed row for which a dispatcher is registered.\<close>

definition deliver_row ::
  "('w \<Rightarrow> int \<times> 'w) \<Rightarrow> DrainConfig \<Rightarrow> 'w Dispatcher \<Rightarrow> int \<Rightarrow> OutboxRow \<Rightarrow> database \<times> 'w
   \<Rightarrow> (drain_error + bool) \<times> database \<times> 'w" where
  "deliver_row clock cfg disp i row s =
     (if o_status row = InFlight then
        (case delivery_safety disp of
           IdempotencyKey \<Rightarrow> attempt_dispatch clock cfg disp i row s
         | NoGuarantee \<Rightarrow> store_call ''mark expired no-guarantee effect unknown'' clock
             (\<lambda>now. mark_unknown now i expired_reason) s
         | StatusLookup \<Rightarrow> (case reconcile disp row s of
               (Inr (ReconciledDelivered receipt), s1) \<Rightarrow> store_call ''record reconciled delivery'' clock
                  (\<lambda>now. mark_delivered_with_receipt now i (external_receipt receipt)) s1
             | (Inr NotDelivered, s1) \<Rightarrow> attempt_dispatch clock cfg disp i row s1
             | (Inr (ReconcileUnknown reason), s1) \<Rightarrow> store_call ''mark unresolved expired effect unknown'' clock
                  (\<lambda>now. mark_unknown now i (''expired in-flight effect reconciliation: '' @ reason)) s1
             | (Inl reason, s1) \<Rightarrow> store_call ''mark unresolved expired effect unknown'' clock
                  (\<lambda>now. mark_unknown now i (''expired in-flight effect reconciliation: '' @ reason)) s1))
      else attempt_dispatch clock cfg disp i row s)"

text \<open>
  One iteration of the loop, from the listed row: \<open>Inr True\<close> counts as processed, \<open>Inr False\<close> is a
  \<open>continue\<close>. Without a dispatcher the row is given up, and the result of that call is ignored.
\<close>

definition drain_row ::
  "('w \<Rightarrow> int \<times> 'w) \<Rightarrow> 'w DispatcherRegistry \<Rightarrow> DrainConfig \<Rightarrow> nat \<Rightarrow> int \<Rightarrow> OutboxRow \<Rightarrow> database \<times> 'w
   \<Rightarrow> (drain_error + bool) \<times> database \<times> 'w" where
  "drain_row clock registry cfg pid now_ts row s = (case o_id row of
      None \<Rightarrow> (Inr False, s)
    | Some i \<Rightarrow> (case s of (db, w) \<Rightarrow>
        let owner = ''relay:'' @ show_nat pid @ '':'' @ show_int now_ts in
        (case claim_with_lease i owner now_ts 120 db of
           (Inl e, db1) \<Rightarrow> (Inl (''claim'', e), db1, w)
         | (Inr False, db1) \<Rightarrow> (Inr False, db1, w)
         | (Inr True, db1) \<Rightarrow> (case registry (o_effect_kind row) of
               None \<Rightarrow>
                 let (now, w1) = clock w; (now_event, w2) = clock w1 in
                 (Inr False, snd (record_failure now now_event i (''no dispatcher for '' @ [CHR 0x27] @ o_effect_kind row @ [CHR 0x27]) 1 0 db1), w2)
             | Some disp \<Rightarrow> deliver_row clock cfg disp i row (db1, w)))))"

fun drain_rows ::
  "('w \<Rightarrow> int \<times> 'w) \<Rightarrow> 'w DispatcherRegistry \<Rightarrow> DrainConfig \<Rightarrow> nat \<Rightarrow> int \<Rightarrow> OutboxRow list \<Rightarrow> nat \<Rightarrow> database \<times> 'w
   \<Rightarrow> (drain_error + nat) \<times> database \<times> 'w" where
  "drain_rows clock registry cfg pid now_ts [] processed s = (Inr processed, s)"
| "drain_rows clock registry cfg pid now_ts (row # rows) processed s =
     (case drain_row clock registry cfg pid now_ts row s of
        (Inl e, s1) \<Rightarrow> (Inl e, s1)
      | (Inr counted, s1) \<Rightarrow>
          drain_rows clock registry cfg pid now_ts rows (if counted then processed + 1 else processed) s1)"

definition drain_once ::
  "('w \<Rightarrow> int \<times> 'w) \<Rightarrow> 'w DispatcherRegistry \<Rightarrow> DrainConfig \<Rightarrow> nat \<Rightarrow> database \<times> 'w
   \<Rightarrow> (drain_error + nat) \<times> database \<times> 'w" where
  "drain_once clock registry cfg pid s = (case s of (db, w) \<Rightarrow>
     let (now_ts, w1) = clock w in
     drain_rows clock registry cfg pid now_ts (ready_pending now_ts (batch_size cfg) db) 0 (db, w1))"


section \<open>What the relay expects of a sink\<close>

text \<open>
  The interface between the relay and whatever runs during a dispatch or a reconciliation: it may
  enqueue effects and change everything else, but leaves the existing outbox rows alone.
\<close>

locale sink =
  fixes act :: "database \<times> 'w \<Rightarrow> 'o \<times> database \<times> 'w"
  assumes act_ok: "outbox_ok db \<Longrightarrow> act (db, w) = (out, db', w') \<Longrightarrow> outbox_ok db'"
    and act_keeps: "outbox_ok db \<Longrightarrow> act (db, w) = (out, db', w') \<Longrightarrow> find_outbox i db = Some r \<Longrightarrow> find_outbox i db' = Some r"
begin

lemma after_act:
  assumes "outbox_ok (fst s)" "find_outbox i (fst s) = Some r"
  shows "outbox_ok (fst (snd (act s)))" "find_outbox i (fst (snd (act s))) = Some r"
  using act_ok act_keeps assms by (metis prod.collapse)+

end

definition well_behaved :: "'w Dispatcher \<Rightarrow> bool" where
  "well_behaved disp \<longleftrightarrow> (\<forall>row. sink (dispatch disp row) \<and> sink (reconcile disp row))"

lemma find_outbox_cong: "state_outbox db' = state_outbox db \<Longrightarrow> find_outbox i db' = find_outbox i db"
  by (simp add: find_outbox_def)

lemma outbox_ok_cong:
  "state_outbox db' = state_outbox db \<Longrightarrow> outbox_seq db' = outbox_seq db \<Longrightarrow>
   state_outbox_delivery_events db' = state_outbox_delivery_events db \<Longrightarrow> delivery_seq db' = delivery_seq db \<Longrightarrow>
   outbox_ok db' = outbox_ok db"
  by (simp add: outbox_ok_def)

lemma append_keeps_outbox:
  assumes "EventLog_append hmac ring now ev db = (res, db')"
  shows "state_outbox db' = state_outbox db" "outbox_seq db' = outbox_seq db"
    "state_outbox_delivery_events db' = state_outbox_delivery_events db" "delivery_seq db' = delivery_seq db"
proof -
  have "f (snd (EventLog_append hmac ring now ev db)) = f db" if "f \<in> {(\<lambda>db. (state_outbox db, outbox_seq db,
      state_outbox_delivery_events db, delivery_seq db))}" for f
    unfolding EventLog_append_def
  proof (rule transaction_keeps)
    fix a db' assume "append_tx hmac ring now ev db = Inr (a, db')"
    then show "f db' = f db"
      using that
      by (auto simp: append_tx_def chain_event_def insert_event_row_def write_integrity_head_def Let_def
          split: option.splits sum.splits if_splits)
  qed
  then show "state_outbox db' = state_outbox db" "outbox_seq db' = outbox_seq db"
    "state_outbox_delivery_events db' = state_outbox_delivery_events db" "delivery_seq db' = delivery_seq db"
    using assms by simp_all
qed

interpretation wakeup_sink: sink "wakeup_dispatch decode_wakeup hmac ring clock row"
proof
  fix db db' :: database and w w' :: 'a and out i r
  assume step: "wakeup_dispatch decode_wakeup hmac ring clock row (db, w) = (out, db', w')"
  have keeps: "state_outbox db' = state_outbox db" "outbox_seq db' = outbox_seq db"
    "state_outbox_delivery_events db' = state_outbox_delivery_events db" "delivery_seq db' = delivery_seq db"
    using step
    by (auto simp: wakeup_dispatch_def Let_def split: option.splits prod.splits sum.splits dest: append_keeps_outbox)
  show "outbox_ok db \<Longrightarrow> outbox_ok db'" using outbox_ok_cong [OF keeps] by simp
  show "find_outbox i db = Some r \<Longrightarrow> find_outbox i db' = Some r" using find_outbox_cong [OF keeps(1)] by simp
qed

interpretation default_sink: sink "default_reconcile row"
  by unfold_locales (auto simp: default_reconcile_def)

lemma wakeup_well_behaved: "well_behaved (WakeupDispatcher decode_wakeup hmac ring clock)"
  by (simp add: well_behaved_def WakeupDispatcher_def wakeup_sink.sink_axioms default_sink.sink_axioms)

end
