(* ===== verification/Scheduler.thy ===== *)
theory Scheduler
  imports Relay "HOL-Library.Multiset"
begin

text \<open>
  The wakeup scheduler (\<open>crates/outbox/src/scheduler.rs\<close>): the heap of deadlines in front of the drain loop, its hydration from
  the outbox, the firing of due entries, and the scheduler task as a step relation that interleaves with callers of
  \<open>schedule\<close>, the clock and the shutdown signal.

  A \<open>BinaryHeap\<close> is the list of its entries; \<open>peek\<close> and \<open>pop\<close> take one with the earliest deadline.
\<close>

section \<open>The heap\<close>

record HeapEntry =
  he_fire_at_ts :: int
  he_conversation_id :: string

definition heap_peek :: "HeapEntry list \<Rightarrow> HeapEntry option" where
  "heap_peek heap = (if heap = [] then None else Some (arg_min_list he_fire_at_ts heap))"

definition heap_pop :: "HeapEntry list \<Rightarrow> HeapEntry list" where
  "heap_pop heap = (case heap_peek heap of None \<Rightarrow> [] | Some e \<Rightarrow> remove1 e heap)"

definition peek_next :: "HeapEntry list \<Rightarrow> int option" where
  "peek_next heap = map_option he_fire_at_ts (heap_peek heap)"

lemma heap_peek_Some: "heap_peek heap = Some e \<Longrightarrow> e \<in> set heap \<and> (\<forall>x \<in> set heap. he_fire_at_ts e \<le> he_fire_at_ts x)"
  by (auto simp: heap_peek_def arg_min_list_in f_arg_min_list_f split: if_splits)

lemma length_heap_pop: "heap_peek heap = Some e \<Longrightarrow> length (heap_pop heap) < length heap"
  using heap_peek_Some [of heap e] length_pos_if_in_set [of e heap] by (simp add: heap_pop_def length_remove1)

text \<open>The loop of \<open>fire_due\<close>: pop while the earliest deadline has passed.\<close>

function pop_due :: "int \<Rightarrow> HeapEntry list \<Rightarrow> nat \<times> HeapEntry list" where
  "pop_due now_ts heap = (case heap_peek heap of
      None \<Rightarrow> (0, heap)
    | Some e \<Rightarrow> if he_fire_at_ts e > now_ts then (0, heap)
                else let (popped, rest) = pop_due now_ts (heap_pop heap) in (popped + 1, rest))"
  by pat_completeness auto
termination
  by (relation "measure (\<lambda>(now_ts, heap). length heap)") (auto dest: length_heap_pop)

declare pop_due.simps [simp del]

section \<open>Operations\<close>

text \<open>\<open>sc_permit\<close> is the stored permit of \<open>Notify\<close>: \<open>notify_one\<close> wakes a waiter or leaves one.\<close>

record WakeupScheduler =
  sc_heap :: "HeapEntry list"
  sc_permit :: bool

definition WakeupScheduler_new :: WakeupScheduler where
  "WakeupScheduler_new = \<lparr>sc_heap = [], sc_permit = False\<rparr>"

definition schedule :: "int \<Rightarrow> string \<Rightarrow> WakeupScheduler \<Rightarrow> WakeupScheduler" where
  "schedule fire_at_ts c s = s\<lparr>sc_heap := sc_heap s @
     [\<lparr>he_fire_at_ts = fire_at_ts, he_conversation_id = c\<rparr>], sc_permit := True\<rparr>"

text \<open>\<open>try_lock\<close> fails while another task holds the heap.\<close>

definition hydrate_from_outbox ::
  "int \<Rightarrow> bool \<Rightarrow> database \<Rightarrow> WakeupScheduler \<Rightarrow> (string + nat) \<times> WakeupScheduler" where
  "hydrate_from_outbox now locked db s =
     (let ready_or_future = ready_pending (now + 365 * 24 * 3600) 10000 db in
      if locked then (Inl ''heap is locked during hydrate'', s)
      else let wakeups = filter (\<lambda>row. o_effect_kind row = ''schedule.wakeup'') ready_or_future;
               entries = map (\<lambda>row. \<lparr>he_fire_at_ts = (case o_next_attempt_at row of None \<Rightarrow> now | Some t \<Rightarrow> t),
                 he_conversation_id = o_conversation_id row\<rparr>) wakeups;
               count = length wakeups in
        (Inr count, s\<lparr>sc_heap := sc_heap s @ entries, sc_permit := sc_permit s \<or> 0 < count\<rparr>))"

text \<open>The result of the pass is only logged.\<close>

definition fire_due ::
  "('w \<Rightarrow> int \<times> 'w) \<Rightarrow> 'w DispatcherRegistry \<Rightarrow> DrainConfig \<Rightarrow> nat \<Rightarrow> int \<Rightarrow> WakeupScheduler \<Rightarrow> database \<times> 'w
   \<Rightarrow> WakeupScheduler \<times> database \<times> 'w" where
  "fire_due clock registry cfg pid now_ts s world =
     (let (popped, rest) = pop_due now_ts (sc_heap s); s' = s\<lparr>sc_heap := rest\<rparr> in
      if popped = 0 then (s', world) else (s', snd (drain_once clock registry cfg pid world)))"

section \<open>The scheduler task\<close>

text \<open>
  \<open>run\<close> reads the earliest deadline under the lock (\<open>Peeked\<close>) and then, without the lock, fires or waits (\<open>Sleeping\<close>).
  Between any two of its steps callers may schedule, the clock may advance and the shutdown may be signalled.
\<close>

datatype run_mode = Running | Peeked "int option" | Sleeping "int option" | Stopped

record 'w run_state =
  rs_mode :: run_mode
  rs_sched :: WakeupScheduler
  rs_now :: int
  rs_shutdown :: bool
  rs_world :: "database \<times> 'w"

inductive run_step :: "('w \<Rightarrow> int \<times> 'w) \<Rightarrow> 'w DispatcherRegistry \<Rightarrow> DrainConfig \<Rightarrow> nat \<Rightarrow> 'w run_state \<Rightarrow> 'w run_state \<Rightarrow> bool"
  for clock registry cfg pid where
  stop: "rs_mode s = Running \<Longrightarrow> rs_shutdown s \<Longrightarrow> run_step clock registry cfg pid s (s\<lparr>rs_mode := Stopped\<rparr>)"
| peek: "rs_mode s = Running \<Longrightarrow> \<not> rs_shutdown s \<Longrightarrow>
    run_step clock registry cfg pid s (s\<lparr>rs_mode := Peeked (peek_next (sc_heap (rs_sched s)))\<rparr>)"
| fire: "rs_mode s = Peeked (Some fire_at) \<Longrightarrow> fire_at \<le> rs_now s \<Longrightarrow>
    fire_due clock registry cfg pid (rs_now s) (rs_sched s) (rs_world s) = (sched', world') \<Longrightarrow>
    run_step clock registry cfg pid s (s\<lparr>rs_mode := Running, rs_sched := sched', rs_world := world'\<rparr>)"
| sleep: "rs_mode s = Peeked (Some fire_at) \<Longrightarrow> rs_now s < fire_at \<Longrightarrow>
    run_step clock registry cfg pid s (s\<lparr>rs_mode := Sleeping (Some fire_at)\<rparr>)"
| wait: "rs_mode s = Peeked None \<Longrightarrow> run_step clock registry cfg pid s (s\<lparr>rs_mode := Sleeping None\<rparr>)"
| timer: "rs_mode s = Sleeping (Some fire_at) \<Longrightarrow> fire_at \<le> rs_now s \<Longrightarrow>
    run_step clock registry cfg pid s (s\<lparr>rs_mode := Running\<rparr>)"
| kicked: "rs_mode s = Sleeping d \<Longrightarrow> sc_permit (rs_sched s) \<Longrightarrow>
    run_step clock registry cfg pid s (s\<lparr>rs_mode := Running, rs_sched := (rs_sched s)\<lparr>sc_permit := False\<rparr>\<rparr>)"
| closed: "rs_mode s = Sleeping d \<Longrightarrow> rs_shutdown s \<Longrightarrow> run_step clock registry cfg pid s (s\<lparr>rs_mode := Stopped\<rparr>)"
| scheduled: "run_step clock registry cfg pid s (s\<lparr>rs_sched := schedule fire_at c (rs_sched s)\<rparr>)"
| advance: "rs_now s \<le> now \<Longrightarrow> run_step clock registry cfg pid s (s\<lparr>rs_now := now\<rparr>)"
| shutdown: "run_step clock registry cfg pid s (s\<lparr>rs_shutdown := True\<rparr>)"

inductive_cases run_stepE: "run_step clock registry cfg pid s s'"


section \<open>Popping due entries\<close>

lemma mset_pop_due: "mset (snd (pop_due now heap)) = filter_mset (\<lambda>e. now < he_fire_at_ts e) (mset heap) \<and>
   fst (pop_due now heap) = length (filter (\<lambda>e. he_fire_at_ts e \<le> now) heap)"
proof (induction "length heap" arbitrary: heap rule: less_induct)
  case less
  show ?case
  proof (cases "heap_peek heap")
    case None
    then have "heap = []" by (simp add: heap_peek_def split: if_splits)
    with None show ?thesis by (simp add: pop_due.simps [of now "[]"])
  next
    case (Some e)
    note e = heap_peek_Some [OF Some]
    show ?thesis
    proof (cases "he_fire_at_ts e > now")
      case True
      with e have late: "\<forall>x \<in> set heap. now < he_fire_at_ts x" by force
      then have "filter (\<lambda>e. he_fire_at_ts e \<le> now) heap = []" by (auto simp: filter_empty_conv)
      moreover from late have "filter_mset (\<lambda>e. now < he_fire_at_ts e) (mset heap) = mset heap"
        by (simp add: filter_mset_eq_conv)
      ultimately show ?thesis using Some True by (simp add: pop_due.simps [of now heap])
    next
      case False
      have pop: "heap_pop heap = remove1 e heap" using Some by (simp add: heap_pop_def)
      have "mset heap = add_mset e (mset (remove1 e heap))" using e by simp
      moreover have "length (filter (\<lambda>x. he_fire_at_ts x \<le> now) heap) = Suc (length (filter (\<lambda>x. he_fire_at_ts x \<le> now) (remove1 e heap)))"
        using False calculation by (metis (no_types, lifting) add_mset_add_single filter_mset_add_mset mset_filter not_less size_add_mset size_mset)
      ultimately show ?thesis
        using less [of "heap_pop heap"] length_heap_pop [OF Some] Some False
        by (simp add: pop_due.simps [of now heap] pop split_beta)
    qed
  qed
qed

lemma set_pop_due: "set (snd (pop_due now heap)) = {e \<in> set heap. now < he_fire_at_ts e}"
  using mset_pop_due [of now heap] by (metis set_mset_filter set_mset_mset)

section \<open>No wakeup is slept through\<close>

text \<open>While the task waits with no permit stored, every entry of the heap is at or after its deadline.\<close>

definition deadline_covers :: "int option \<Rightarrow> HeapEntry list \<Rightarrow> bool" where
  "deadline_covers d heap \<longleftrightarrow> (case d of None \<Rightarrow> heap = [] | Some t \<Rightarrow> list_all (\<lambda>e. t \<le> he_fire_at_ts e) heap)"

definition run_ok :: "'w run_state \<Rightarrow> bool" where
  "run_ok s \<longleftrightarrow> (case rs_mode s of
      Peeked d \<Rightarrow> sc_permit (rs_sched s) \<or> deadline_covers d (sc_heap (rs_sched s))
    | Sleeping d \<Rightarrow> sc_permit (rs_sched s) \<or> deadline_covers d (sc_heap (rs_sched s))
    | _ \<Rightarrow> True)"

lemma peek_next_covers: "deadline_covers (peek_next heap) heap"
proof (cases "heap_peek heap")
  case None
  then show ?thesis by (simp add: deadline_covers_def peek_next_def heap_peek_def split: if_splits)
next
  case (Some e)
  with heap_peek_Some [OF Some] show ?thesis by (simp add: deadline_covers_def peek_next_def list_all_iff)
qed

lemma run_step_ok: "run_step clock registry cfg pid s s' \<Longrightarrow> run_ok s \<Longrightarrow> run_ok s'"
  by (induction rule: run_step.induct)
    (auto simp: run_ok_def peek_next_covers schedule_def split: run_mode.splits)

lemma reachable_run_ok:
  "(run_step clock registry cfg pid)\<^sup>*\<^sup>* s s' \<Longrightarrow> run_ok s \<Longrightarrow> run_ok s'"
  by (induction rule: rtranclp_induct) (auto intro: run_step_ok)


definition run_start :: "int \<Rightarrow> database \<times> 'w \<Rightarrow> WakeupScheduler \<Rightarrow> 'w run_state" where
  "run_start now world sched = \<lparr>rs_mode = Running, rs_sched = sched, rs_now = now, rs_shutdown = False, rs_world = world\<rparr>"

text \<open>
  No wakeup is slept through. However the calls of \<open>schedule\<close>, the clock and the scheduler task interleave, a task
  that waits while some entry is due can always be woken: the timer of its deadline has run out or a permit is
  stored. And when it fires, exactly the due entries leave the heap, and a pass of the drain loop runs if there was one.
\<close>

theorem scheduler_wakes_for_due:
  assumes "(run_step clock registry cfg pid)\<^sup>*\<^sup>* (run_start now world sched) s"
    and "rs_mode s = Sleeping d" "e \<in> set (sc_heap (rs_sched s))" "he_fire_at_ts e \<le> rs_now s"
  shows "\<exists>s'. run_step clock registry cfg pid s s' \<and> rs_mode s' = Running \<and> sc_heap (rs_sched s') = sc_heap (rs_sched s) \<and>
    (let (sched', world') = fire_due clock registry cfg pid (rs_now s) (rs_sched s) (rs_world s) in
       set (sc_heap sched') = {x \<in> set (sc_heap (rs_sched s)). rs_now s < he_fire_at_ts x} \<and>
       world' = snd (drain_once clock registry cfg pid (rs_world s)))"
proof -
  have "run_ok (run_start now world sched)" by (simp add: run_ok_def run_start_def)
  then have "run_ok s" by (rule reachable_run_ok [OF assms(1)])
  then have "sc_permit (rs_sched s) \<or> (\<exists>t. d = Some t \<and> t \<le> rs_now s)"
    using assms(2-4) by (cases d) (auto simp: run_ok_def deadline_covers_def list_all_iff)
  then have wake: "\<exists>s'. run_step clock registry cfg pid s s' \<and> rs_mode s' = Running \<and> sc_heap (rs_sched s') = sc_heap (rs_sched s)"
  proof
    assume "sc_permit (rs_sched s)"
    from run_step.kicked [OF assms(2) this, of clock registry cfg pid] show ?thesis
      by (intro exI [of _ "s\<lparr>rs_mode := Running, rs_sched := (rs_sched s)\<lparr>sc_permit := False\<rparr>\<rparr>"]) simp
  next
    assume "\<exists>t. d = Some t \<and> t \<le> rs_now s"
    then obtain t where "rs_mode s = Sleeping (Some t)" "t \<le> rs_now s" using assms(2) by auto
    from run_step.timer [OF this, of clock registry cfg pid] show ?thesis
      by (intro exI [of _ "s\<lparr>rs_mode := Running\<rparr>"]) simp
  qed
  obtain n rest where pop: "pop_due (rs_now s) (sc_heap (rs_sched s)) = (n, rest)" by fastforce
  have "n \<noteq> 0" using assms(3,4) mset_pop_due [of "rs_now s" "sc_heap (rs_sched s)"] pop by (auto simp: filter_empty_conv)
  moreover have "set rest = {x \<in> set (sc_heap (rs_sched s)). rs_now s < he_fire_at_ts x}"
    using set_pop_due [of "rs_now s" "sc_heap (rs_sched s)"] pop by simp
  ultimately have "let (sched', world') = fire_due clock registry cfg pid (rs_now s) (rs_sched s) (rs_world s) in
       set (sc_heap sched') = {x \<in> set (sc_heap (rs_sched s)). rs_now s < he_fire_at_ts x} \<and>
       world' = snd (drain_once clock registry cfg pid (rs_world s))"
    by (simp add: fire_due_def pop)
  with wake show ?thesis by blast
qed

text \<open>A task that went to sleep on an empty heap, and a wakeup that was scheduled and came due meanwhile.\<close>

definition started :: "unit run_state" where
  "started = run_start 0 (empty_database, ()) WakeupScheduler_new"

definition slept :: "unit run_state" where
  "slept = started\<lparr>rs_mode := Sleeping None, rs_sched := schedule 5 ''c'' WakeupScheduler_new, rs_now := 5\<rparr>"

lemma slept_reachable: "(run_step clock registry cfg pid)\<^sup>*\<^sup>* started slept"
proof -
  let ?R = "run_step clock registry cfg pid"
  have "?R started (started\<lparr>rs_mode := Peeked None\<rparr>)"
    using run_step.peek [of started] by (simp add: started_def run_start_def WakeupScheduler_new_def peek_next_def heap_peek_def)
  moreover have "?R (started\<lparr>rs_mode := Peeked None\<rparr>) (started\<lparr>rs_mode := Sleeping None\<rparr>)"
    using run_step.wait [of "started\<lparr>rs_mode := Peeked None\<rparr>"] by simp
  moreover have "?R (started\<lparr>rs_mode := Sleeping None\<rparr>)
      (started\<lparr>rs_mode := Sleeping None, rs_sched := schedule 5 ''c'' WakeupScheduler_new\<rparr>)"
    using run_step.scheduled [where s = "started\<lparr>rs_mode := Sleeping None\<rparr>" and fire_at = 5 and c = "''c''"]
    by (simp add: started_def run_start_def)
  moreover have "?R (started\<lparr>rs_mode := Sleeping None, rs_sched := schedule 5 ''c'' WakeupScheduler_new\<rparr>) slept"
    using run_step.advance [of "started\<lparr>rs_mode := Sleeping None, rs_sched := schedule 5 ''c'' WakeupScheduler_new\<rparr>" 5]
    by (simp add: started_def run_start_def slept_def)
  ultimately show ?thesis by (meson converse_rtranclp_into_rtranclp rtranclp.rtrancl_refl)
qed

theorem scheduler_wakes_for_due_witness:
  "\<exists>s'. run_step (\<lambda>w. (5, w)) (\<lambda>_. None) DrainConfig_default 1 slept s' \<and> rs_mode s' = Running \<and> length (sc_heap (rs_sched s')) = 1"
proof -
  have e: "\<lparr>he_fire_at_ts = 5, he_conversation_id = ''c''\<rparr> \<in> set (sc_heap (rs_sched slept))"
    by (simp add: slept_def schedule_def)
  have m: "rs_mode slept = Sleeping None" "length (sc_heap (rs_sched slept)) = 1"
    by (simp_all add: slept_def schedule_def WakeupScheduler_new_def)
  have "he_fire_at_ts \<lparr>he_fire_at_ts = 5, he_conversation_id = ''c''\<rparr> \<le> rs_now slept" by (simp add: slept_def)
  from scheduler_wakes_for_due [OF slept_reachable [unfolded started_def] m(1) e this] m(2) show ?thesis by metis
qed

section \<open>Hydration\<close>

definition far_wakeup :: "int \<Rightarrow> database" where
  "far_wakeup t = snd (enqueue 1 \<lparr>o_id = None, o_idempotency_key = ''k'', o_conversation_id = ''c'', o_effect_kind = ''schedule.wakeup'',
     o_payload = [], o_status = Pending, o_attempts = 0, o_next_attempt_at = Some t, o_last_error = None, o_enqueued_seq = 1\<rparr> empty_database)"

text \<open>
  A wakeup that is due in more than a year is not put on the heap at startup, although it is pending in the outbox.
\<close>

theorem hydrate_misses_far_wakeups:
  "fst (hydrate_from_outbox 0 False (far_wakeup (365 * 24 * 3600)) WakeupScheduler_new) = Inr 1 \<and>
   hydrate_from_outbox 0 False (far_wakeup (365 * 24 * 3600 + 1)) WakeupScheduler_new = (Inr 0, WakeupScheduler_new)"
  by (simp add: hydrate_from_outbox_def far_wakeup_def enqueue_def transaction_def insert_outbox_def new_outbox_row_def
      empty_database_def ready_pending_def is_ready_def sql_limit_def row_to_outbox_def WakeupScheduler_new_def
      insert_delivery_event_def)

end
