(* ===== verification/Transition_Model.thy ===== *)
theory Transition_Model
  imports Prelude
begin

text \<open>
  The bounded model of run, approval, lease and outbox ownership
  (\<open>crates/core/src/transition_model.rs\<close>): its states and actions, the step function, the safety
  predicate and the breadth-first exploration that checks it.
\<close>

section \<open>States and actions\<close>

datatype Action = ClaimA | ClaimB | ExpireLease | Restart | Approve | Deny | Enqueue | Deliver | Cancel
  | Finish | CompleteA | CompleteB

datatype Work = WPending | ClaimedA | ClaimedB | Completed | WCancelled

datatype Approval = APending | Approved | Denied

datatype Effect = Absent | EPending | EDelivered

record State =
  work :: Work
  lease_live :: bool
  approval :: Approval
  effect :: Effect
  terminal :: bool
  cancelled :: bool

definition State_initial :: State where
  "State_initial = \<lparr>work = WPending, lease_live = False, approval = APending, effect = Absent,
     terminal = False, cancelled = False\<rparr>"

definition complete_by :: "State \<Rightarrow> Work \<Rightarrow> State option" where
  "complete_by s worker =
     (if terminal s \<or> cancelled s \<or> \<not> lease_live s \<or> work s \<noteq> worker then None
      else Some (s\<lparr>work := Completed, lease_live := False\<rparr>))"

fun State_step :: "State \<Rightarrow> Action \<Rightarrow> State" where
  "State_step s CompleteA = (case complete_by s ClaimedA of None \<Rightarrow> s | Some s' \<Rightarrow> s')"
| "State_step s CompleteB = (case complete_by s ClaimedB of None \<Rightarrow> s | Some s' \<Rightarrow> s')"
| "State_step s ClaimA = (if \<not> terminal s \<and> \<not> cancelled s \<and> \<not> lease_live s
     then s\<lparr>work := ClaimedA, lease_live := True\<rparr> else s)"
| "State_step s ClaimB = (if \<not> terminal s \<and> \<not> cancelled s \<and> \<not> lease_live s
     then s\<lparr>work := ClaimedB, lease_live := True\<rparr> else s)"
| "State_step s ExpireLease = (if lease_live s then s\<lparr>lease_live := False\<rparr> else s)"
| "State_step s Restart = s"
| "State_step s Approve = (if approval s = APending then s\<lparr>approval := Approved\<rparr> else s)"
| "State_step s Deny = (if approval s = APending then s\<lparr>approval := Denied\<rparr> else s)"
| "State_step s Enqueue = (if \<not> terminal s \<and> \<not> cancelled s \<and> approval s = Approved \<and> work s = Completed
     \<and> effect s = Absent then s\<lparr>effect := EPending\<rparr> else s)"
| "State_step s Deliver = (if effect s = EPending then s\<lparr>effect := EDelivered\<rparr> else s)"
| "State_step s Cancel = (if \<not> terminal s
     then s\<lparr>cancelled := True, lease_live := False, work := (if work s = Completed then work s else WCancelled)\<rparr>
     else s)"
| "State_step s Finish = (if \<not> cancelled s \<and> work s = Completed \<and> approval s = Approved
     \<and> effect s \<in> {Absent, EDelivered} then s\<lparr>terminal := True\<rparr> else s)"

definition is_safe :: "State \<Rightarrow> bool" where
  "is_safe s \<longleftrightarrow> (let unresolved = work s \<noteq> Completed \<or> approval s \<noteq> Approved \<or> effect s = EPending in
     \<not> terminal s \<or> \<not> unresolved)"

section \<open>The exploration\<close>

record TransitionModelReport =
  explored_states :: nat
  explored_transitions :: nat
  max_depth :: nat

text \<open>The two error messages, with the trace and the state that they print.\<close>

datatype violation = UnsafeTrace "Action list" State | Counterexample "Action list" State

definition all_actions :: "Action list" where
  "all_actions = [ClaimA, ClaimB, ExpireLease, Restart, Approve, Deny, Enqueue, Deliver, Cancel, Finish,
     CompleteA, CompleteB]"

type_synonym frontier = "(State \<times> Action list) list"

text \<open>The body of the loop over the actions: it extends the set of seen states, the queue and the count.\<close>

fun explore_actions ::
  "State \<Rightarrow> Action list \<Rightarrow> Action list \<Rightarrow> State list \<times> frontier \<times> nat \<Rightarrow> violation + State list \<times> frontier \<times> nat" where
  "explore_actions s trace [] acc = Inr acc"
| "explore_actions s trace (a # as) (seen, queue, transitions) =
     (let s' = State_step s a in
      if \<not> is_safe s' then Inl (Counterexample (trace @ [a]) s')
      else if s' \<in> set seen then explore_actions s trace as (seen, queue, transitions + 1)
      else explore_actions s trace as (s' # seen, queue @ [(s', trace @ [a])], transitions + 1))"

definition unseen :: "State list \<Rightarrow> State set" where
  "unseen seen = - set seen"

lemma finite_unseen [simp]: "finite (unseen seen)"
proof -
  let ?f = "\<lambda>(w, l, a, e, t, c). \<lparr>work = w, lease_live = l, approval = a, effect = e, terminal = t, cancelled = c\<rparr>"
  let ?W = "{WPending, ClaimedA, ClaimedB, Completed, WCancelled}"
  have "s \<in> ?f ` (?W \<times> UNIV \<times> {APending, Approved, Denied} \<times> {Absent, EPending, EDelivered} \<times> UNIV \<times> UNIV)" for s :: State
  proof -
    have "s = ?f (work s, lease_live s, approval s, effect s, terminal s, cancelled s)" by simp
    moreover have "work s \<in> ?W" "approval s \<in> {APending, Approved, Denied}" "effect s \<in> {Absent, EPending, EDelivered}"
      using Work.exhaust Approval.exhaust Effect.exhaust by auto
    ultimately show ?thesis by blast
  qed
  then have "finite (UNIV :: State set)"
    by (intro finite_subset [of UNIV "?f ` (?W \<times> UNIV \<times> {APending, Approved, Denied} \<times> {Absent, EPending, EDelivered} \<times> UNIV \<times> UNIV)"])
      auto
  then show ?thesis by (rule finite_subset [rotated]) simp
qed

text \<open>Every new entry of the queue is paid for by a state that was not seen before.\<close>

lemma explore_actions_measure:
  "explore_actions s trace as (seen, queue, n) = Inr (seen', queue', n') \<Longrightarrow>
   card (unseen seen') + length queue' = card (unseen seen) + length queue"
proof (induction as arbitrary: seen queue n)
  case (Cons a as)
  show ?case
  proof (cases "is_safe (State_step s a) \<and> State_step s a \<notin> set seen")
    case True
    then have "State_step s a \<in> unseen seen" by (simp add: unseen_def)
    moreover have "unseen (State_step s a # seen) = unseen seen - {State_step s a}" by (auto simp: unseen_def)
    ultimately have "Suc (card (unseen (State_step s a # seen))) = card (unseen seen)"
      by (metis card_Suc_Diff1 finite_unseen)
    with Cons.IH [of "State_step s a # seen"] Cons.prems True show ?thesis by (simp add: Let_def)
  next
    case False
    with Cons show ?thesis by (auto simp: Let_def split: if_splits)
  qed
qed simp

function explore :: "nat \<Rightarrow> State list \<times> frontier \<times> nat \<Rightarrow> violation + State list \<times> nat" where
  "explore depth_limit (seen, [], transitions) = Inr (seen, transitions)"
| "explore depth_limit (seen, (s, trace) # queue, transitions) =
     (if \<not> is_safe s then Inl (UnsafeTrace trace s)
      else if depth_limit \<le> length trace then explore depth_limit (seen, queue, transitions)
      else (case explore_actions s trace all_actions (seen, queue, transitions) of
              Inl v \<Rightarrow> Inl v
            | Inr acc \<Rightarrow> explore depth_limit acc))"
  by pat_completeness auto
termination
proof (relation "measure (\<lambda>(d, seen, queue, n). card (unseen seen) + length queue)"; clarsimp)
  fix s trace seen queue n seen' queue' n'
  assume "explore_actions s trace all_actions (seen, queue, n) = Inr (seen', queue', n')"
  from explore_actions_measure [OF this]
  show "card (unseen seen') + length queue' < Suc (card (unseen seen) + length queue)" by simp
qed

definition check_critical_transitions :: "nat \<Rightarrow> violation + TransitionModelReport" where
  "check_critical_transitions d =
     (case explore d ([State_initial], [(State_initial, [])], 0) of
        Inl v \<Rightarrow> Inl v
      | Inr (seen, transitions) \<Rightarrow> Inr \<lparr>explored_states = length seen, explored_transitions = transitions, max_depth = d\<rparr>)"


section \<open>Safety of every trace\<close>

text \<open>
  Together with the predicate the checker evaluates: an effect exists only after an approval, cancelled work
  is neither leased nor finished, and a live lease belongs to exactly one worker.
\<close>

definition protocol_ok :: "State \<Rightarrow> bool" where
  "protocol_ok s \<longleftrightarrow> is_safe s \<and> (effect s = Absent \<or> approval s = Approved) \<and>
     (if cancelled s then \<not> lease_live s \<and> \<not> terminal s \<and> work s \<in> {Completed, WCancelled}
      else work s \<noteq> WCancelled) \<and>
     (if lease_live s then work s \<in> {ClaimedA, ClaimedB} else True)"

interpretation protocol: invariant_machine State_step protocol_ok
proof
  show "protocol_ok s \<Longrightarrow> protocol_ok (State_step s a)" for s a
    by (cases a) (auto simp: protocol_ok_def is_safe_def complete_by_def)
qed

lemma protocol_ok_initial: "protocol_ok State_initial"
  by (simp add: protocol_ok_def is_safe_def State_initial_def)

lemma protocol_ok_safe: "protocol_ok s \<Longrightarrow> is_safe s"
  by (simp add: protocol_ok_def)

text \<open>
  On every interleaving of the model's actions, of any length, a finished run has its work completed, its approval
  given and no effect pending; an effect exists only after an approval; a cancelled run is neither leased
  nor finished; a live lease has exactly one owner; and a finished run never changes again.
\<close>

theorem all_traces_safe:
  "protocol_ok (foldl State_step State_initial trace) \<and>
   (terminal (foldl State_step State_initial trace) \<longrightarrow>
      foldl State_step State_initial (trace @ rest) = foldl State_step State_initial trace)"
proof -
  have "terminal s \<Longrightarrow> protocol_ok s \<Longrightarrow> foldl State_step s rest = s" for s
  proof (induction rest)
    case (Cons a rest)
    then have "\<not> lease_live s" by (auto simp: protocol_ok_def is_safe_def)
    with Cons have "State_step s a = s"
      by (cases a) (auto simp: protocol_ok_def is_safe_def complete_by_def)
    with Cons show ?case by simp
  qed simp
  with protocol.run_inv [OF protocol_ok_initial, of trace] show ?thesis by simp
qed

theorem all_traces_safe_witness:
  "terminal (foldl State_step State_initial [ClaimA, Approve, CompleteA, Enqueue, Deliver, Finish]) \<and>
   foldl State_step State_initial ([ClaimA, Approve, CompleteA, Enqueue, Deliver, Finish] @ [ClaimB, Cancel]) =
   foldl State_step State_initial [ClaimA, Approve, CompleteA, Enqueue, Deliver, Finish]"
  using all_traces_safe [of "[ClaimA, Approve, CompleteA, Enqueue, Deliver, Finish]" "[ClaimB, Cancel]"]
  by (simp add: State_initial_def complete_by_def)


section \<open>The exploration finds exactly the reachable states\<close>

definition reach :: "nat \<Rightarrow> State set" where
  "reach n = {s. \<exists>trace. length trace \<le> n \<and> s = foldl State_step State_initial trace}"

lemma reach_0 [simp]: "reach 0 = {State_initial}"
  by (auto simp: reach_def)

lemma reach_stepI: "s \<in> reach n \<Longrightarrow> State_step s a \<in> reach (Suc n)"
proof -
  assume "s \<in> reach n"
  then obtain trace where "length trace \<le> n" "s = foldl State_step State_initial trace" by (auto simp: reach_def)
  then show ?thesis unfolding reach_def by (intro CollectI exI [of _ "trace @ [a]"]) simp
qed

lemma reach_mono: "m \<le> n \<Longrightarrow> reach m \<subseteq> reach n"
  by (force simp: reach_def)

lemma reach_Suc: "reach (Suc n) = reach n \<union> {State_step s a | s a. s \<in> reach n}"
proof
  show "reach (Suc n) \<subseteq> reach n \<union> {State_step s a | s a. s \<in> reach n}"
  proof
    fix s assume "s \<in> reach (Suc n)"
    then obtain tr where tr: "length tr \<le> Suc n" "s = foldl State_step State_initial tr" by (auto simp: reach_def)
    show "s \<in> reach n \<union> {State_step s a | s a. s \<in> reach n}"
    proof (cases tr rule: rev_cases)
      case Nil
      with tr show ?thesis by (auto simp: reach_def intro: exI [of _ "[]"])
    next
      case (snoc ys a)
      with tr have "foldl State_step State_initial ys \<in> reach n" by (auto simp: reach_def)
      with tr snoc show ?thesis by auto
    qed
  qed
  show "reach n \<union> {State_step s a | s a. s \<in> reach n} \<subseteq> reach (Suc n)"
    using reach_mono [of n "Suc n"] reach_stepI by auto
qed

lemma reach_closed:
  assumes "\<And>s a. s \<in> reach k \<Longrightarrow> State_step s a \<in> reach k" "k \<le> n"
  shows "reach n = reach k"
  using assms(2)
proof (induction n rule: dec_induct)
  case (step n)
  then show ?case using assms(1) by (auto simp: reach_Suc)
qed simp

lemma reach_safe: "s \<in> reach n \<Longrightarrow> protocol_ok s"
  using protocol.run_inv [OF protocol_ok_initial] by (auto simp: reach_def)

lemma all_actions_complete: "a \<in> set all_actions"
  by (cases a) (simp_all add: all_actions_def)

lemma explore_actions_ok:
  assumes "protocol_ok s" "distinct seen"
  shows "\<exists>seen' new. explore_actions s trace as (seen, queue, n) = Inr (seen', queue @ new, n + length as) \<and>
    distinct seen' \<and> set seen' = set seen \<union> State_step s ` set as \<and> fst ` set new = set seen' - set seen \<and>
    (\<forall>p \<in> set new. length (snd p) = Suc (length trace))"
  using assms(2)
proof (induction as arbitrary: seen queue n)
  case (Cons a as)
  have safe: "is_safe (State_step s a)" using protocol.step_inv [OF assms(1)] by (rule protocol_ok_safe)
  show ?case
  proof (cases "State_step s a \<in> set seen")
    case True
    with Cons.IH [OF Cons.prems, of queue "n + 1"] safe show ?thesis by (auto simp: insert_absorb)
  next
    case False
    with Cons.prems have d: "distinct (State_step s a # seen)" by simp
    obtain seen' new where IH: "explore_actions s trace as (State_step s a # seen, queue @ [(State_step s a, trace @ [a])], n + 1) =
        Inr (seen', (queue @ [(State_step s a, trace @ [a])]) @ new, n + 1 + length as)"
      "distinct seen'" "set seen' = set (State_step s a # seen) \<union> State_step s ` set as"
      "fst ` set new = set seen' - set (State_step s a # seen)" "\<forall>p \<in> set new. length (snd p) = Suc (length trace)"
      using Cons.IH [OF d, of "queue @ [(State_step s a, trace @ [a])]" "n + 1"] by blast
    show ?thesis
      using IH False safe
      by (intro exI [of _ seen'] exI [of _ "(State_step s a, trace @ [a]) # new"]) (auto simp: Let_def)
  qed
qed simp

text \<open>
  The queue holds a level and the beginning of the next: \<open>k\<close> is the length of the traces of the first part.
\<close>

definition bfs_level :: "nat \<Rightarrow> State list \<Rightarrow> nat \<Rightarrow> frontier \<Rightarrow> frontier \<Rightarrow> bool" where
  "bfs_level d seen k q1 q2 \<longleftrightarrow> k \<le> d \<and> distinct seen \<and>
     (\<forall>p \<in> set q1. length (snd p) = k \<and> fst p \<in> reach k) \<and> (\<forall>p \<in> set q2. length (snd p) = Suc k \<and> k < d) \<and>
     reach k \<subseteq> set seen \<and> set seen \<subseteq> reach (Suc k) \<and> set seen \<subseteq> reach d \<and>
     (k < d \<longrightarrow> (\<forall>s \<in> reach k. s \<in> fst ` set q1 \<or> (\<forall>a. State_step s a \<in> set seen))) \<and>
     set seen - reach k \<subseteq> fst ` set q2 \<and> fst ` set q2 \<subseteq> set seen"

lemma bfs_level_next:
  assumes "bfs_level d seen k [] q2" "q2 \<noteq> []"
  shows "bfs_level d seen (Suc k) q2 []"
proof -
  have "k < d" using assms by (cases q2) (auto simp: bfs_level_def)
  moreover from this assms(1) have seen: "set seen = reach (Suc k)"
    by (auto simp: bfs_level_def reach_Suc)
  ultimately show ?thesis
    using assms(1) reach_mono [of "Suc k" d] reach_mono [of "Suc k" "Suc (Suc k)"]
    unfolding bfs_level_def by auto
qed

lemma bfs_level_end:
  assumes "bfs_level d seen k [] []"
  shows "set seen = reach d \<and> distinct seen"
proof (cases "k < d")
  case True
  with assms have "set seen = reach k" "\<And>s a. s \<in> reach k \<Longrightarrow> State_step s a \<in> reach k"
    by (auto simp: bfs_level_def)
  with reach_closed [of k d] True assms show ?thesis by (simp add: bfs_level_def)
next
  case False
  with assms show ?thesis by (auto simp: bfs_level_def)
qed

lemma bfs_level_skip: "bfs_level d seen d (p # q1) q2 \<Longrightarrow> bfs_level d seen d q1 q2"
  by (simp add: bfs_level_def)

lemma bfs_level_expand:
  assumes "bfs_level d seen k ((s, tr) # q1) q2" "k < d" "distinct seen'"
    "set seen' = set seen \<union> State_step s ` set all_actions" "fst ` set new = set seen' - set seen"
    "\<forall>p \<in> set new. length (snd p) = Suc k"
  shows "bfs_level d seen' k q1 (q2 @ new)"
proof -
  have s: "s \<in> reach k" using assms(1) by (simp add: bfs_level_def)
  have seen': "set seen' = set seen \<union> range (State_step s)" using assms(4) all_actions_complete by auto
  then have "set seen' \<subseteq> reach (Suc k)" using assms(1) reach_stepI [OF s] by (auto simp: bfs_level_def)
  moreover have "reach (Suc k) \<subseteq> reach d" using assms(2) by (intro reach_mono) simp
  ultimately have sub: "set seen' \<subseteq> reach (Suc k)" "set seen' \<subseteq> reach d" by auto
  have "\<forall>x \<in> reach k. x \<in> fst ` set q1 \<or> (\<forall>a. State_step x a \<in> set seen')"
    using assms(1,2) seen' by (auto simp: bfs_level_def)
  moreover have "set seen' - reach k \<subseteq> fst ` set (q2 @ new)" "fst ` set (q2 @ new) \<subseteq> set seen'"
    using assms(1) unfolding bfs_level_def set_append image_Un assms(5) assms(4) by blast+
  moreover have "\<forall>p \<in> set (q2 @ new). length (snd p) = Suc k \<and> k < d" "\<forall>p \<in> set q1. length (snd p) = k \<and> fst p \<in> reach k"
    "reach k \<subseteq> set seen'"
    using assms(1,2,6) seen' by (auto simp: bfs_level_def)
  ultimately show ?thesis using sub assms(2,3) unfolding bfs_level_def by simp
qed

definition finds_reachable :: "nat \<Rightarrow> State list \<Rightarrow> frontier \<Rightarrow> bool" where
  "finds_reachable d seen queue \<longleftrightarrow>
     (\<forall>n. \<exists>seen' n'. explore d (seen, queue, n) = Inr (seen', n') \<and> set seen' = reach d \<and> distinct seen')"

text \<open>One turn of the loop: what the smaller configuration finds, this one finds.\<close>

lemma explore_turn:
  assumes level: "bfs_level d seen k ((s, tr) # q1) q2"
    and smaller: "\<And>seen' k q1' q2'. card (unseen seen') + length (q1' @ q2') < Suc (card (unseen seen) + length (q1 @ q2)) \<Longrightarrow>
      bfs_level d seen' k q1' q2' \<Longrightarrow> finds_reachable d seen' (q1' @ q2')"
  shows "finds_reachable d seen ((s, tr) # q1 @ q2)"
  unfolding finds_reachable_def
proof
  fix n
  have s: "s \<in> reach k" "length tr = k" "k \<le> d" "distinct seen" using level by (auto simp: bfs_level_def)
  note ok = reach_safe [OF s(1)]
  show "\<exists>seen' n'. explore d (seen, (s, tr) # q1 @ q2, n) = Inr (seen', n') \<and> set seen' = reach d \<and> distinct seen'"
  proof (cases "k < d")
    case False
    with s have k: "k = d" by simp
    with level have "finds_reachable d seen (q1 @ q2)" by (intro smaller) (auto dest: bfs_level_skip)
    with protocol_ok_safe [OF ok] s k show ?thesis by (simp add: finds_reachable_def)
  next
    case True
    obtain seen' new where ex: "explore_actions s tr all_actions (seen, q1 @ q2, n) = Inr (seen', (q1 @ q2) @ new, n + length all_actions)"
      and new: "distinct seen'" "set seen' = set seen \<union> State_step s ` set all_actions" "fst ` set new = set seen' - set seen"
        "\<forall>p \<in> set new. length (snd p) = Suc k"
      using explore_actions_ok [OF ok s(4), of tr all_actions "q1 @ q2" n] s(2) by blast
    have "finds_reachable d seen' (q1 @ (q2 @ new))"
      using explore_actions_measure [OF ex] by (intro smaller [OF _ bfs_level_expand [OF level True new]]) simp
    with ex protocol_ok_safe [OF ok] s True show ?thesis by (simp add: finds_reachable_def)
  qed
qed

lemma explore_reach: "bfs_level d seen k q1 q2 \<Longrightarrow> finds_reachable d seen (q1 @ q2)"
proof (induction "card (unseen seen) + length (q1 @ q2)" arbitrary: seen k q1 q2 rule: less_induct)
  case less
  consider "q1 = []" "q2 = []" | s tr q where "q1 = []" "q2 = (s, tr) # q" | s tr q where "q1 = (s, tr) # q"
    by (cases q1; cases q2) auto
  then show ?case
  proof cases
    case 1
    with bfs_level_end less.prems show ?thesis by (simp add: finds_reachable_def)
  next
    case 2
    with bfs_level_next less.prems have "bfs_level d seen (Suc k) ((s, tr) # q) []" by blast
    from explore_turn [OF this] less.hyps 2 show ?thesis by simp
  next
    case 3
    with explore_turn [of d seen k s tr q q2] less show ?thesis by simp
  qed
qed

text \<open>
  C30: The checker terminates with a report for every depth, never with a violation, and the number of states it reports is
  exactly the number of distinct states that traces of at most that many actions reach: the breadth-first search
  with a queue and a set of seen states misses none and counts none twice.
\<close>

theorem check_explores_exactly_reachable:
  "\<exists>report. check_critical_transitions d = Inr report \<and> max_depth report = d \<and> explored_states report = card (reach d)"
proof -
  have "bfs_level d [State_initial] 0 [(State_initial, [])] []"
    using reach_mono [of 0 d] reach_mono [of 0 1] by (simp add: bfs_level_def)
  from explore_reach [OF this] obtain seen n where
    "explore d ([State_initial], [(State_initial, [])], 0) = Inr (seen, n)" "set seen = reach d" "distinct seen"
    unfolding finds_reachable_def append_Nil2 by blast
  then show ?thesis by (simp add: check_critical_transitions_def distinct_card [symmetric])
qed

end
