(* ===== verification/Policy.thy ===== *)
theory Policy
  imports Prelude
begin

text \<open>
  The per-turn policy of the policy crate: the trust ladder, the capabilities a turn is given and the check of a built-in tool's
  capability (\<open>crates/policy/src/trust.rs\<close>), the rule of two (\<open>rule_of_two.rs\<close>), capability tokens (\<open>token.rs\<close>) and the choice of
  a sideband transport for approvals (\<open>sideband.rs\<close>).
\<close>

section \<open>Trust\<close>

datatype TrustLevel = Controller | Delegated | KnownTrusted | KnownLimited | UnknownPending | Blocked

fun TrustLevel_as_str :: "TrustLevel \<Rightarrow> string" where
  "TrustLevel_as_str Controller = ''Controller''"
| "TrustLevel_as_str Delegated = ''Delegated''"
| "TrustLevel_as_str KnownTrusted = ''KnownTrusted''"
| "TrustLevel_as_str KnownLimited = ''KnownLimited''"
| "TrustLevel_as_str UnknownPending = ''UnknownPending''"
| "TrustLevel_as_str Blocked = ''Blocked''"

definition TrustLevel_parse :: "string \<Rightarrow> TrustLevel option" where
  "TrustLevel_parse s =
     (if s = ''Controller'' then Some Controller else if s = ''Delegated'' then Some Delegated
      else if s = ''KnownTrusted'' then Some KnownTrusted else if s = ''KnownLimited'' then Some KnownLimited
      else if s = ''UnknownPending'' then Some UnknownPending else if s = ''Blocked'' then Some Blocked
      else None)"

interpretation trust_level: wire_enum TrustLevel_as_str TrustLevel_parse
proof
  show "TrustLevel_parse (TrustLevel_as_str x) = Some x" for x
    by (cases x) (simp_all add: TrustLevel_parse_def)
  show "TrustLevel_parse s = Some x \<Longrightarrow> TrustLevel_as_str x = s" for s x
    by (auto simp: TrustLevel_parse_def split: if_splits)
qed

fun rank :: "TrustLevel \<Rightarrow> nat" where
  "rank Controller = 5"
| "rank Delegated = 4"
| "rank KnownTrusted = 3"
| "rank KnownLimited = 2"
| "rank UnknownPending = 1"
| "rank Blocked = 0"

datatype LatencyBand = Any | LowOnly

record TurnPolicyInput =
  effective_trust :: TrustLevel
  sender_trust :: TrustLevel
  voice :: bool
  accesses_sensitive_data :: bool
  produces_external_effect :: bool

record TurnPolicyDecision =
  drop_turn :: bool
  require_approval :: bool
  planner_executor :: bool
  spotlighting :: bool
  latency_band :: LatencyBand
  capability_set :: "string list"

section \<open>Capabilities\<close>

datatype Capability = ConversationRead | ConversationWrite | MemoryRead | MemoryWrite | TaskRead | TaskWrite
  | ScheduleRead | ScheduleWrite | WebFetch | Search | Notify | SubagentSpawn | ResearchSpawn | ResearchRead
  | AttachmentSend | Transport | McpAdmin

definition CAPS_KNOWN_LIMITED :: "string list" where
  "CAPS_KNOWN_LIMITED = [''messaging.reply_current_transport'']"

definition CAPS_KNOWN_TRUSTED :: "string list" where
  "CAPS_KNOWN_TRUSTED = [''messaging.reply_current_transport'', ''memory.read'', ''memory.write'', ''tools.safe'']"

definition CAPS_DELEGATED :: "string list" where
  "CAPS_DELEGATED = [''messaging.reply_current_transport'', ''memory.read'', ''memory.write'', ''tools.safe'',
     ''tools.medium'', ''controller.ask'']"

fun required_policy_caps :: "Capability \<Rightarrow> string list" where
  "required_policy_caps MemoryRead = [''memory.read'']"
| "required_policy_caps MemoryWrite = [''memory.write'']"
| "required_policy_caps ResearchSpawn = [''tools.medium'']"
| "required_policy_caps SubagentSpawn = [''tools.medium'']"
| "required_policy_caps McpAdmin = [''*'']"
| "required_policy_caps _ = [''tools.safe'']"

fun first_missing :: "string list \<Rightarrow> string list \<Rightarrow> string + unit" where
  "first_missing caller_caps [] = Inr ()"
| "first_missing caller_caps (required # rest) =
     (if required = ''*'' then Inl required
      else if required \<notin> set caller_caps then Inl required
      else first_missing caller_caps rest)"

definition check_builtin_capability :: "Capability \<Rightarrow> string list \<Rightarrow> string + unit" where
  "check_builtin_capability capability caller_caps =
     (if ''*'' \<in> set caller_caps then Inr () else first_missing caller_caps (required_policy_caps capability))"

section \<open>Evaluation of a turn\<close>

definition as_u8 :: "bool \<Rightarrow> nat" where
  "as_u8 b = (if b then 1 else 0)"

fun sender_capabilities :: "TrustLevel \<Rightarrow> string list" where
  "sender_capabilities Controller = [''*'']"
| "sender_capabilities Delegated = CAPS_DELEGATED"
| "sender_capabilities KnownTrusted = CAPS_KNOWN_TRUSTED"
| "sender_capabilities KnownLimited = CAPS_KNOWN_LIMITED"
| "sender_capabilities _ = []"

definition evaluate_turn :: "TurnPolicyInput \<Rightarrow> TurnPolicyDecision" where
  "evaluate_turn input =
     (if sender_trust input = Blocked
      then \<lparr>drop_turn = True, require_approval = False, planner_executor = False, spotlighting = False,
        latency_band = LowOnly, capability_set = []\<rparr>
      else if sender_trust input = UnknownPending
      then \<lparr>drop_turn = False, require_approval = True, planner_executor = True, spotlighting = True,
        latency_band = LowOnly, capability_set = []\<rparr>
      else let untrusted = rank (effective_trust input) < rank KnownTrusted;
               count = as_u8 untrusted + as_u8 (accesses_sensitive_data input) + as_u8 (produces_external_effect input) in
        \<lparr>drop_turn = False, require_approval = 3 \<le> count, planner_executor = untrusted, spotlighting = untrusted,
         latency_band = (if voice input \<or> rank (effective_trust input) \<le> rank KnownLimited then LowOnly else Any),
         capability_set = sender_capabilities (sender_trust input)\<rparr>)"

section \<open>The rule of two\<close>

record RuleOfTwoInput =
  r2_untrusted_input_in_turn :: bool
  r2_accesses_sensitive_data :: bool
  r2_produces_external_effect :: bool

datatype RuleOfTwoVerdict = Allow | RequireApproval

definition rule_of_two_verdict :: "RuleOfTwoInput \<Rightarrow> RuleOfTwoVerdict" where
  "rule_of_two_verdict i =
     (let count = as_u8 (r2_untrusted_input_in_turn i) + as_u8 (r2_accesses_sensitive_data i)
        + as_u8 (r2_produces_external_effect i) in
      if 3 \<le> count then RequireApproval else Allow)"

section \<open>Capability tokens\<close>

record CapabilityTokenClaims =
  ct_conversation_id :: string
  ct_turn_seq :: int
  ct_principal_id :: string
  ct_capability_set :: "string list"
  ct_exp :: int
  ct_nonce :: string

definition claims_has :: "CapabilityTokenClaims \<Rightarrow> string \<Rightarrow> bool" where
  "claims_has claims cap = list_ex (\<lambda>c. c = cap) (ct_capability_set claims)"

section \<open>Sideband transports\<close>

fun pick_by_priority :: "string list \<Rightarrow> string list \<Rightarrow> string option" where
  "pick_by_priority eligible [] = Some (hd eligible)"
| "pick_by_priority eligible (wanted # priority) =
     (if wanted \<in> set eligible then find (\<lambda>t. t = wanted) eligible else pick_by_priority eligible priority)"

definition pick_sideband_transport :: "string list \<Rightarrow> string \<Rightarrow> string list \<Rightarrow> string option" where
  "pick_sideband_transport enabled origin priority =
     (let eligible = filter (\<lambda>t. t \<noteq> origin) enabled in
      if eligible = [] then None else pick_by_priority eligible priority)"

definition default_sideband_priority :: "string list" where
  "default_sideband_priority = [''signal'', ''email'', ''webui'']"

section \<open>Least privilege\<close>

text \<open>The trust a capability takes: medium tools a delegation, the administration of MCP servers the controller.\<close>

definition required_rank :: "Capability \<Rightarrow> nat" where
  "required_rank c = (case c of McpAdmin \<Rightarrow> rank Controller | SubagentSpawn \<Rightarrow> rank Delegated
     | ResearchSpawn \<Rightarrow> rank Delegated | _ \<Rightarrow> rank KnownTrusted)"

lemmas caps_defs = CAPS_KNOWN_LIMITED_def CAPS_KNOWN_TRUSTED_def CAPS_DELEGATED_def

text \<open>
  The capabilities of a turn are a threshold on the sender's trust: a built-in tool is admitted exactly if the sender has at
  least the trust its capability takes, so no lower trust is ever given more, whatever the other properties of the turn,
  and senders below known-trusted can use no built-in tool at all.
\<close>

theorem capabilities_follow_trust:
  "check_builtin_capability c (capability_set (evaluate_turn i)) = Inr () \<longleftrightarrow> required_rank c \<le> rank (sender_trust i)"
proof -
  have "capability_set (evaluate_turn i) = sender_capabilities (sender_trust i)"
    by (cases "sender_trust i") (simp_all add: evaluate_turn_def Let_def)
  then show ?thesis
    by (cases "sender_trust i"; cases c) (simp_all add: check_builtin_capability_def required_rank_def caps_defs)
qed

text \<open>
  A turn is dropped exactly if its sender is blocked; it is held for approval exactly if the sender is unknown or the rule of two
  forbids it; content is spotlighted and the planner separated for every turn that a less than known-trusted principal can read or that an
  unknown one sent; and only a turn of known-trusted readers that is no voice turn sees slow tools.
\<close>

theorem evaluate_turn_exact:
  "drop_turn (evaluate_turn i) = (sender_trust i = Blocked) \<and>
   require_approval (evaluate_turn i) = (if sender_trust i = Blocked then False
     else sender_trust i = UnknownPending \<or>
       rule_of_two_verdict \<lparr>r2_untrusted_input_in_turn = rank (effective_trust i) < rank KnownTrusted,
         r2_accesses_sensitive_data = accesses_sensitive_data i,
         r2_produces_external_effect = produces_external_effect i\<rparr> = RequireApproval) \<and>
   spotlighting (evaluate_turn i) = (if sender_trust i = Blocked then False
     else sender_trust i = UnknownPending \<or> rank (effective_trust i) < rank KnownTrusted) \<and>
   planner_executor (evaluate_turn i) = spotlighting (evaluate_turn i) \<and>
   (latency_band (evaluate_turn i) = Any) = (rank KnownLimited \<le> rank (sender_trust i) \<and> \<not> voice i \<and> rank KnownTrusted \<le> rank (effective_trust i))"
  by (cases "sender_trust i"; cases "effective_trust i")
    (simp_all add: evaluate_turn_def rule_of_two_verdict_def Let_def)

lemma pick_by_priority_exact:
  assumes "eligible \<noteq> []"
  shows "pick_by_priority eligible priority = Some (case find (\<lambda>t. t \<in> set eligible) priority of Some t \<Rightarrow> t | None \<Rightarrow> hd eligible)"
proof (induction priority)
  case (Cons w priority)
  have "find (\<lambda>t. t = w) eligible = Some w" if "w \<in> set eligible"
    using that by (induction eligible) auto
  with Cons show ?case by simp
qed simp

text \<open>
  An approval request never goes back over the transport that caused it: the chosen transport is enabled and not the
  origin, it is the first of the priority list that qualifies, else the first enabled one, and none is chosen only if the origin is
  the only enabled transport.
\<close>

theorem sideband_avoids_origin:
  "case pick_sideband_transport enabled origin priority of
     None \<Rightarrow> set enabled \<subseteq> {origin}
   | Some t \<Rightarrow> t \<in> set enabled \<and> t \<noteq> origin \<and>
       t = (case find (\<lambda>t. t \<in> set enabled \<and> t \<noteq> origin) priority of Some w \<Rightarrow> w | None \<Rightarrow> hd (filter (\<lambda>t. t \<noteq> origin) enabled))"
proof (cases "filter (\<lambda>t. t \<noteq> origin) enabled = []")
  case True
  then show ?thesis by (auto simp: pick_sideband_transport_def filter_empty_conv)
next
  case False
  let ?w = "find (\<lambda>t. t \<in> set enabled \<and> t \<noteq> origin) priority"
  from False have "pick_sideband_transport enabled origin priority = Some (case ?w of Some w \<Rightarrow> w | None \<Rightarrow> hd (filter (\<lambda>t. t \<noteq> origin) enabled))"
    by (simp add: pick_sideband_transport_def pick_by_priority_exact)
  moreover have "hd (filter (\<lambda>t. t \<noteq> origin) enabled) \<in> set (filter (\<lambda>t. t \<noteq> origin) enabled)"
    using False by (rule hd_in_set)
  ultimately show ?thesis by (auto split: option.split dest: find_SomeD)
qed

end
