(* ===== verification/Information.thy ===== *)
theory Information
  imports Prelude
begin

text \<open>
  Information labels (\<open>crates/core/src/information.rs\<close>): the confidentiality, provenance and permitted
  destinations that travel beside data, their conservative join, and the check of a destination.
\<close>

section \<open>Labels\<close>

datatype Sensitivity = Public | Internal | Sensitive | Secret

text \<open>The derived order of the source.\<close>

fun sensitivity_rank :: "Sensitivity \<Rightarrow> nat" where
  "sensitivity_rank Public = 0"
| "sensitivity_rank Internal = 1"
| "sensitivity_rank Sensitive = 2"
| "sensitivity_rank Secret = 3"

lemma sensitivity_rank_inj [simp]: "sensitivity_rank a = sensitivity_rank b \<longleftrightarrow> a = b"
  by (cases a; cases b) simp_all

instantiation Sensitivity :: linorder
begin

definition less_eq_Sensitivity :: "Sensitivity \<Rightarrow> Sensitivity \<Rightarrow> bool" where
  "less_eq_Sensitivity a b \<longleftrightarrow> sensitivity_rank a \<le> sensitivity_rank b"

definition less_Sensitivity :: "Sensitivity \<Rightarrow> Sensitivity \<Rightarrow> bool" where
  "less_Sensitivity a b \<longleftrightarrow> sensitivity_rank a < sensitivity_rank b"

instance
  by standard (auto simp: less_eq_Sensitivity_def less_Sensitivity_def simp flip: sensitivity_rank_inj)

end

record ProvenanceEntry =
  pe_source_kind :: string
  pe_source_id :: string
  pe_owner_id :: "string option"
  pe_trust_class :: string
  pe_transformation :: "string option"

record DeclassificationRecord =
  dr_actor_id :: string
  dr_destination :: string
  dr_scope :: string
  dr_authorized_at :: int

record InformationLabel =
  sensitivity :: Sensitivity
  owner_id :: "string option"
  source_trust_class :: string
  allowed_destinations :: "string set"
  provenance :: "ProvenanceEntry list"
  declassification :: "DeclassificationRecord option"
  authority_principal_id :: "string option"
  authority_fingerprint :: "string option"
  authority_policy_revision :: "int option"

definition observed ::
  "Sensitivity \<Rightarrow> string option \<Rightarrow> string \<Rightarrow> string \<Rightarrow> string \<Rightarrow> string list \<Rightarrow> InformationLabel" where
  "observed s owner trust_class source_kind source_id destinations =
     \<lparr>sensitivity = s, owner_id = owner, source_trust_class = trust_class, allowed_destinations = set destinations,
      provenance = [\<lparr>pe_source_kind = source_kind, pe_source_id = source_id, pe_owner_id = owner,
        pe_trust_class = trust_class, pe_transformation = None\<rparr>],
      declassification = None, authority_principal_id = None, authority_fingerprint = None,
      authority_policy_revision = None\<rparr>"

definition with_authority :: "string \<Rightarrow> string \<Rightarrow> InformationLabel \<Rightarrow> InformationLabel" where
  "with_authority principal_id fingerprint l =
     l\<lparr>authority_principal_id := Some principal_id, authority_fingerprint := Some fingerprint\<rparr>"

definition with_policy_revision :: "int \<Rightarrow> InformationLabel \<Rightarrow> InformationLabel" where
  "with_policy_revision revision l = l\<lparr>authority_policy_revision := Some revision\<rparr>"

definition mark_transformation :: "string \<Rightarrow> ProvenanceEntry list \<Rightarrow> ProvenanceEntry list" where
  "mark_transformation operation es = map (\<lambda>e. e\<lparr>pe_transformation := Some operation\<rparr>) es"

definition transformed :: "string \<Rightarrow> InformationLabel \<Rightarrow> InformationLabel" where
  "transformed operation l = l\<lparr>provenance := mark_transformation operation (provenance l), declassification := None\<rparr>"

section \<open>Destinations\<close>

text \<open>\<open>strip_suffix('*')\<close>.\<close>

definition strip_star :: "string \<Rightarrow> string option" where
  "strip_star p = (if p \<noteq> [] \<and> last p = CHR ''*'' then Some (butlast p) else None)"

definition destination_matches :: "string \<Rightarrow> string \<Rightarrow> bool" where
  "destination_matches d allowed \<longleftrightarrow> allowed = d \<or>
     (case strip_star allowed of None \<Rightarrow> False | Some prefix \<Rightarrow> starts_with d prefix)"

definition declassified_for :: "InformationLabel \<Rightarrow> string \<Rightarrow> bool" where
  "declassified_for l d \<longleftrightarrow> (case declassification l of None \<Rightarrow> False | Some r \<Rightarrow> dr_destination r = d)"

definition permits_destination :: "InformationLabel \<Rightarrow> string \<Rightarrow> bool" where
  "permits_destination l d \<longleftrightarrow> (\<exists>allowed \<in> allowed_destinations l. destination_matches d allowed) \<or> declassified_for l d"

definition declassify ::
  "string \<Rightarrow> string \<Rightarrow> string \<Rightarrow> int \<Rightarrow> InformationLabel \<Rightarrow> string + InformationLabel" where
  "declassify actor_id destination scope authorized_at l =
     (if actor_id = [] \<or> destination = [] \<or> scope = []
      then Inl ''declassification requires actor, destination, and scope''
      else Inr (l\<lparr>declassification := Some \<lparr>dr_actor_id = actor_id, dr_destination = destination, dr_scope = scope,
        dr_authorized_at = authorized_at\<rparr>\<rparr>))"

text \<open>The body of the two loops of \<open>destination_intersection\<close>.\<close>

definition destination_meet :: "string \<Rightarrow> string \<Rightarrow> string set" where
  "destination_meet first second =
     (if first = second then {first}
      else if (case strip_star first of None \<Rightarrow> False | Some prefix \<Rightarrow> starts_with second prefix) then {second}
      else if (case strip_star second of None \<Rightarrow> False | Some prefix \<Rightarrow> starts_with first prefix) then {first}
      else {})"

definition destination_intersection :: "string set \<Rightarrow> string set \<Rightarrow> string set" where
  "destination_intersection left right = (\<Union>first \<in> left. \<Union>second \<in> right. destination_meet first second)"

section \<open>The join\<close>

definition trust_rank :: "string \<Rightarrow> nat" where
  "trust_rank cls =
     (if cls = ''Controller'' then 5 else if cls = ''Delegated'' then 4 else if cls = ''KnownTrusted'' then 3
      else if cls = ''KnownLimited'' then 2 else if cls = ''UnknownPending'' then 1 else 0)"

fun add_provenance :: "ProvenanceEntry list \<Rightarrow> ProvenanceEntry list \<Rightarrow> ProvenanceEntry list" where
  "add_provenance acc [] = acc"
| "add_provenance acc (e # es) = add_provenance (if e \<in> set acc then acc else acc @ [e]) es"

definition join_label :: "InformationLabel \<Rightarrow> InformationLabel \<Rightarrow> InformationLabel" where
  "join_label label combined = combined\<lparr>sensitivity := max (sensitivity combined) (sensitivity label),
     owner_id := (if owner_id combined \<noteq> owner_id label then None else owner_id combined),
     source_trust_class := (if trust_rank (source_trust_class label) < trust_rank (source_trust_class combined)
       then source_trust_class label else source_trust_class combined),
     allowed_destinations := destination_intersection (allowed_destinations combined) (allowed_destinations label),
     provenance := add_provenance (provenance combined) (provenance label)\<rparr>"

definition combine :: "InformationLabel list \<Rightarrow> string \<Rightarrow> InformationLabel option" where
  "combine labels operation = (case labels of
      [] \<Rightarrow> None
    | label # rest \<Rightarrow>
        let combined = fold join_label rest label in
        Some (combined\<lparr>provenance := mark_transformation operation (provenance combined), declassification := None,
          authority_policy_revision := fold (\<lambda>l revision. if revision = authority_policy_revision l then revision else None)
            rest (authority_policy_revision label)\<rparr>))"

section \<open>Joining restrictions\<close>

text \<open>
  What a client of a join of restrictions relies on: the join of two well-formed restrictions is
  well-formed and denotes the intersection of what they denote.
\<close>

locale restriction_join =
  fixes join :: "'r \<Rightarrow> 'r \<Rightarrow> 'r"
    and wf :: "'r \<Rightarrow> bool"
    and denotes :: "'r \<Rightarrow> 'd set"
  assumes join_wf: "wf a \<Longrightarrow> wf b \<Longrightarrow> wf (join a b)"
    and join_denotes: "wf a \<Longrightarrow> wf b \<Longrightarrow> denotes (join a b) = denotes a \<inter> denotes b"
begin

lemma fold_wf: "wf a \<Longrightarrow> list_all wf bs \<Longrightarrow> wf (fold (\<lambda>b a. join a b) bs a)"
  by (induction bs arbitrary: a) (auto intro: join_wf)

lemma fold_denotes: "wf a \<Longrightarrow> list_all wf bs \<Longrightarrow> denotes (fold (\<lambda>b a. join a b) bs a) = denotes a \<inter> (\<Inter>b \<in> set bs. denotes b)"
proof (induction bs arbitrary: a)
  case (Cons b bs)
  then show ?case using Cons.IH [of "join a b"] by (auto simp: join_wf join_denotes)
qed simp

end

text \<open>A pattern whose star, if any, is its last character; the destinations that a set of patterns permits.\<close>

definition star_last :: "string \<Rightarrow> bool" where
  "star_last p \<longleftrightarrow> CHR ''*'' \<notin> set (butlast p)"

definition patterns_ok :: "string set \<Rightarrow> bool" where
  "patterns_ok ps \<longleftrightarrow> (\<forall>p \<in> ps. star_last p)"

definition permitted :: "string set \<Rightarrow> string set" where
  "permitted ps = {d. \<exists>p \<in> ps. destination_matches d p}"

lemma strip_star_Some: "strip_star p = Some q \<longleftrightarrow> p = q @ ''*''"
  by (cases p rule: rev_cases) (auto simp: strip_star_def)

lemma destination_matches_iff: "destination_matches d p \<longleftrightarrow> d = p \<or> (\<exists>q t. p = q @ ''*'' \<and> d = q @ t)"
  by (auto simp: destination_matches_def strip_star_Some starts_with_iff split: option.splits)
    (metis option.distinct(1) strip_star_Some)

lemma destination_meet_sub: "x \<in> destination_meet a b \<Longrightarrow> x = a \<or> x = b"
  by (auto simp: destination_meet_def split: if_splits)

lemma prefix_of_pattern:
  assumes "star_last b" "b = p @ t" "star_last (p @ ''*'')" "destination_matches d b"
  shows "destination_matches d (p @ ''*'')"
proof (cases "b = d")
  case True
  with assms(2) show ?thesis by (auto simp: destination_matches_iff)
next
  case False
  with assms(4) obtain q u where q: "b = q @ ''*''" "d = q @ u" by (auto simp: destination_matches_iff)
  have "length p \<le> length q"
  proof (rule ccontr)
    assume "\<not> length p \<le> length q"
    moreover have "length p + length t = length q + 1" using q(1) assms(2) by (metis length_append length_Cons list.size(3) One_nat_def)
    ultimately have "length t = 0" by linarith
    with q assms(2) have "p = q @ ''*''" by simp
    with assms(3) show False by (simp add: star_last_def butlast_append)
  qed
  then obtain v where "q = p @ v" using q(1) assms(2) by (auto simp: append_eq_append_conv2)
  with q show ?thesis by (auto simp: destination_matches_iff)
qed

lemma destination_meet_cases:
  assumes "x \<in> destination_meet a b"
  obtains "x = a" "a = b" | p t where "a = p @ ''*''" "b = p @ t" "x = b" | p t where "b = p @ ''*''" "a = p @ t" "x = a"
  using assms by (auto simp: destination_meet_def strip_star_Some starts_with_iff split: if_splits option.splits)

lemma destination_meet_sound:
  assumes "star_last a" "star_last b" "x \<in> destination_meet a b" "destination_matches d x"
  shows "destination_matches d a \<and> destination_matches d b"
  using assms(3)
proof (cases rule: destination_meet_cases)
  case (2 p t)
  with assms prefix_of_pattern [of b p t d] show ?thesis by auto
next
  case (3 p t)
  with assms prefix_of_pattern [of a p t d] show ?thesis by auto
qed (use assms(4) in simp)

text \<open>The converse needs no restriction: the intersection loses no destination.\<close>

lemma destination_meet_complete:
  assumes "destination_matches d a" "destination_matches d b"
  shows "\<exists>x \<in> destination_meet a b. destination_matches d x"
proof (rule ccontr)
  assume none: "\<not> ?thesis"
  then have "a \<noteq> b" using assms by (auto simp: destination_meet_def)
  moreover have "\<not> (case strip_star a of None \<Rightarrow> False | Some p \<Rightarrow> starts_with b p)"
    using none assms \<open>a \<noteq> b\<close> by (auto simp: destination_meet_def)
  moreover have "\<not> (case strip_star b of None \<Rightarrow> False | Some p \<Rightarrow> starts_with a p)"
    using none assms \<open>a \<noteq> b\<close> calculation(2) by (auto simp: destination_meet_def)
  ultimately have apart: "\<And>p t. a = p @ ''*'' \<Longrightarrow> b \<noteq> p @ t" "\<And>p t. b = p @ ''*'' \<Longrightarrow> a \<noteq> p @ t"
    by (auto simp: strip_star_Some starts_with_iff split: option.splits)
      (metis option.distinct(1) strip_star_Some)+
  from assms obtain p t q u where "d = a \<or> a = p @ ''*'' \<and> d = p @ t" "d = b \<or> b = q @ ''*'' \<and> d = q @ u"
    by (auto simp: destination_matches_iff)
  moreover have "(\<exists>v. p = q @ v) \<or> (\<exists>v. q = p @ v)" if "p @ t = q @ u"
    using that by (auto simp: append_eq_append_conv2)
  ultimately show False using apart [of p] apart [of q] \<open>a \<noteq> b\<close> by (metis append.assoc)
qed

interpretation destinations: restriction_join destination_intersection patterns_ok permitted
proof
  fix a b :: "string set"
  assume ok: "patterns_ok a" "patterns_ok b"
  show "patterns_ok (destination_intersection a b)"
    using ok by (auto simp: patterns_ok_def destination_intersection_def dest!: destination_meet_sub)
  show "permitted (destination_intersection a b) = permitted a \<inter> permitted b"
  proof
    show "permitted (destination_intersection a b) \<subseteq> permitted a \<inter> permitted b"
    proof
      fix d assume "d \<in> permitted (destination_intersection a b)"
      then obtain x first second where x: "first \<in> a" "second \<in> b" "x \<in> destination_meet first second" "destination_matches d x"
        by (auto simp: permitted_def destination_intersection_def)
      with ok destination_meet_sound [of first second x d] show "d \<in> permitted a \<inter> permitted b"
        by (auto simp: permitted_def patterns_ok_def)
    qed
    show "permitted a \<inter> permitted b \<subseteq> permitted (destination_intersection a b)"
    proof
      fix d assume "d \<in> permitted a \<inter> permitted b"
      then obtain p q where "p \<in> a" "q \<in> b" "destination_matches d p" "destination_matches d q" by (auto simp: permitted_def)
      with destination_meet_complete [of d p q] show "d \<in> permitted (destination_intersection a b)"
        by (auto simp: permitted_def destination_intersection_def)
    qed
  qed
qed

section \<open>Joining labels\<close>

lemma join_label_simps [simp]:
  "sensitivity (join_label l c) = max (sensitivity c) (sensitivity l)"
  "allowed_destinations (join_label l c) = destination_intersection (allowed_destinations c) (allowed_destinations l)"
  "trust_rank (source_trust_class (join_label l c)) = min (trust_rank (source_trust_class c)) (trust_rank (source_trust_class l))"
  by (simp_all add: join_label_def)

lemma fold_join_destinations:
  "allowed_destinations (fold join_label ls l) =
   fold (\<lambda>b a. destination_intersection a b) (map allowed_destinations ls) (allowed_destinations l)"
  by (induction ls arbitrary: l) simp_all

lemma fold_join_bounds:
  "sensitivity (fold join_label ls l) = fold max (map sensitivity ls) (sensitivity l) \<and>
   trust_rank (source_trust_class (fold join_label ls l)) = fold min (map (trust_rank \<circ> source_trust_class) ls) (trust_rank (source_trust_class l))"
  by (induction ls arbitrary: l) (simp_all add: max.commute min.commute)

lemma set_add_provenance: "set (add_provenance acc es) = set acc \<union> set es"
  by (induction acc es rule: add_provenance.induct) auto

lemma fold_join_provenance: "set (provenance (fold join_label ls l)) = set (provenance l) \<union> (\<Union>l \<in> set ls. set (provenance l))"
  by (induction ls arbitrary: l) (auto simp: join_label_def set_add_provenance)

lemma combine_Some:
  assumes "combine labels operation = Some r"
  obtains l ls where "labels = l # ls" "sensitivity r = sensitivity (fold join_label ls l)"
    "source_trust_class r = source_trust_class (fold join_label ls l)"
    "allowed_destinations r = allowed_destinations (fold join_label ls l)" "declassification r = None"
    "provenance r = mark_transformation operation (provenance (fold join_label ls l))"
  using assms by (cases labels) (auto simp: combine_def Let_def)

lemma combine_bounds:
  assumes "combine labels operation = Some r"
  shows "sensitivity r = Max (sensitivity ` set labels)"
    "trust_rank (source_trust_class r) = Min ((trust_rank \<circ> source_trust_class) ` set labels)"
    "set (provenance r) = (\<Union>l \<in> set labels. (\<lambda>e. e\<lparr>pe_transformation := Some operation\<rparr>) ` set (provenance l))"
proof -
  from assms(1) obtain l ls where r: "labels = l # ls" "sensitivity r = sensitivity (fold join_label ls l)"
    "source_trust_class r = source_trust_class (fold join_label ls l)"
    "provenance r = mark_transformation operation (provenance (fold join_label ls l))"
    by (rule combine_Some)
  show "sensitivity r = Max (sensitivity ` set labels)"
    unfolding r(1,2) using fold_join_bounds [of ls l] Max.set_eq_fold [of "sensitivity l" "map sensitivity ls"] by simp
  show "trust_rank (source_trust_class r) = Min ((trust_rank \<circ> source_trust_class) ` set labels)"
    unfolding r(1,3) using fold_join_bounds [of ls l]
      Min.set_eq_fold [of "trust_rank (source_trust_class l)" "map (trust_rank \<circ> source_trust_class) ls"] by simp
  show "set (provenance r) = (\<Union>l \<in> set labels. (\<lambda>e. e\<lparr>pe_transformation := Some operation\<rparr>) ` set (provenance l))"
    unfolding r(4) mark_transformation_def set_map fold_join_provenance r(1) by auto
qed

lemma combine_intersection:
  assumes "combine labels operation = Some r" "list_all (\<lambda>l. patterns_ok (allowed_destinations l)) labels"
  shows "{d. permits_destination r d} = (\<Inter>l \<in> set labels. permitted (allowed_destinations l))"
proof -
  from assms(1) obtain l ls where r: "labels = l # ls"
    "allowed_destinations r = allowed_destinations (fold join_label ls l)" "declassification r = None"
    by (rule combine_Some)
  have ok: "patterns_ok (allowed_destinations l)" "list_all patterns_ok (map allowed_destinations ls)"
    using assms(2) r(1) by (simp_all add: list_all_iff)
  have "{d. permits_destination r d} = permitted (allowed_destinations r)"
    using r(3) by (simp add: permits_destination_def permitted_def declassified_for_def)
  also have "\<dots> = permitted (allowed_destinations l) \<inter> (\<Inter>a \<in> set (map allowed_destinations ls). permitted a)"
    unfolding r(2) fold_join_destinations by (rule destinations.fold_denotes [OF ok])
  finally show ?thesis using r(1) by simp
qed

lemma fold_join_complete:
  "permitted (allowed_destinations l) \<inter> (\<Inter>k \<in> set ls. permitted (allowed_destinations k))
     \<subseteq> permitted (allowed_destinations (fold join_label ls l))"
proof (induction ls arbitrary: l)
  case (Cons k ls)
  have "permitted (allowed_destinations l) \<inter> permitted (allowed_destinations k) \<subseteq> permitted (allowed_destinations (join_label k l))"
  proof
    fix d assume "d \<in> permitted (allowed_destinations l) \<inter> permitted (allowed_destinations k)"
    then obtain p q where "p \<in> allowed_destinations l" "q \<in> allowed_destinations k" "destination_matches d p" "destination_matches d q"
      by (auto simp: permitted_def)
    with destination_meet_complete [of d p q] show "d \<in> permitted (allowed_destinations (join_label k l))"
      by (auto simp: permitted_def destination_intersection_def)
  qed
  with Cons.IH [of "join_label k l"] show ?case by auto
qed simp

lemma fold_join_patterns:
  "allowed_destinations (fold join_label ls l) \<subseteq> allowed_destinations l \<union> (\<Union>k \<in> set ls. allowed_destinations k)"
proof (induction ls arbitrary: l)
  case (Cons k ls)
  have "allowed_destinations (join_label k l) \<subseteq> allowed_destinations l \<union> allowed_destinations k"
    by (auto simp: destination_intersection_def dest!: destination_meet_sub)
  with Cons.IH [of "join_label k l"] show ?case by auto
qed simp

text \<open>
  C33: The join of labels and its patterns. A join loses no destination that every input permits by its patterns, brings no pattern
  that no input has, and drops every declassification, also one that all inputs share. If the star of every input pattern is its last character, the
  join permits exactly the destinations that every input permits by its patterns; without that condition it may permit more
  (\<open>combine_widens_double_star\<close>). It is as sensitive as the most sensitive input and as little trusted as the least trusted
  one, and keeps the sources of all inputs, each with the operation recorded.
\<close>

theorem combine_refines_intersection:
  assumes "combine labels operation = Some r"
  shows "(\<Inter>l \<in> set labels. {d. \<exists>p \<in> allowed_destinations l. destination_matches d p}) \<subseteq> {d. permits_destination r d} \<and>
    allowed_destinations r \<subseteq> (\<Union>l \<in> set labels. allowed_destinations l) \<and> declassification r = None \<and>
    ((\<forall>l \<in> set labels. \<forall>p \<in> allowed_destinations l. CHR ''*'' \<notin> set (butlast p)) \<longrightarrow>
      {d. permits_destination r d} = (\<Inter>l \<in> set labels. {d. \<exists>p \<in> allowed_destinations l. destination_matches d p})) \<and>
    sensitivity r = Max (sensitivity ` set labels) \<and>
    trust_rank (source_trust_class r) = Min ((trust_rank \<circ> source_trust_class) ` set labels) \<and>
    set (provenance r) = (\<Union>l \<in> set labels. (\<lambda>e. e\<lparr>pe_transformation := Some operation\<rparr>) ` set (provenance l))"
proof -
  from assms(1) obtain l ls where r: "labels = l # ls"
    "allowed_destinations r = allowed_destinations (fold join_label ls l)" "declassification r = None"
    by (rule combine_Some)
  have "{d. permits_destination r d} = permitted (allowed_destinations r)"
    using r(3) by (simp add: permits_destination_def permitted_def declassified_for_def)
  then have "(\<Inter>l \<in> set labels. permitted (allowed_destinations l)) \<subseteq> {d. permits_destination r d}"
    using fold_join_complete [of l ls] by (simp add: r(1,2))
  moreover have "allowed_destinations r \<subseteq> (\<Union>l \<in> set labels. allowed_destinations l)"
    using fold_join_patterns [of ls l] by (simp add: r(1,2))
  ultimately show ?thesis
    using combine_intersection [OF assms] combine_bounds [OF assms] r(3)
    by (simp add: permitted_def list_all_iff patterns_ok_def star_last_def)
qed

definition mail_label :: InformationLabel where
  "mail_label = observed Internal (Some ''ann'') ''KnownTrusted'' ''message'' ''m1'' [''email:*'', ''signal:ann'']"

definition web_label :: InformationLabel where
  "web_label = observed Sensitive None ''KnownLimited'' ''web'' ''w1'' [''email:ann'', ''signal:*'']"

theorem combine_refines_intersection_witness:
  "\<exists>r. combine [mail_label, web_label] ''summary'' = Some r \<and>
     {d. permits_destination r d} = {''email:ann'', ''signal:ann''} \<and> sensitivity r = Sensitive"
proof -
  let ?r = "the (combine [mail_label, web_label] ''summary'')"
  have c: "combine [mail_label, web_label] ''summary'' = Some ?r" by code_simp
  have stars: "\<forall>l \<in> set [mail_label, web_label]. \<forall>p \<in> allowed_destinations l. CHR ''*'' \<notin> set (butlast p)" by code_simp
  have "permitted (allowed_destinations mail_label) \<inter> permitted (allowed_destinations web_label) = {''email:ann'', ''signal:ann''}"
    (is "?L = ?R")
  proof
    show "?R \<subseteq> ?L" by (simp add: permitted_def mail_label_def web_label_def observed_def destination_matches_def strip_star_def)
    show "?L \<subseteq> ?R"
      by (simp add: permitted_def mail_label_def web_label_def observed_def destination_matches_def strip_star_def, rule subsetI, simp)
        (auto simp: starts_with_iff)
  qed
  then have meet: "(\<Inter>l \<in> set [mail_label, web_label]. {d. \<exists>p \<in> allowed_destinations l. destination_matches d p}) =
      {''email:ann'', ''signal:ann''}" by (simp add: permitted_def)
  note x = combine_refines_intersection [OF c]
  have "{d. permits_destination ?r d} = {''email:ann'', ''signal:ann''}" using x stars unfolding meet by blast
  with x c show ?thesis
    by (auto simp: mail_label_def web_label_def observed_def max_def less_eq_Sensitivity_def)
qed

text \<open>
  A pattern with a star before its last character widens under the join: the join of \<open>a**\<close> and \<open>a*\<close>
  permits the destination \<open>ab\<close>, which the first input does not permit.
\<close>

theorem combine_widens_double_star:
  "map_option (\<lambda>r. permits_destination r ''ab'')
     (combine [observed Public None ''Controller'' ''m'' ''1'' [''a**''], observed Public None ''Controller'' ''m'' ''2'' [''a*'']] ''op'') = Some True \<and>
   \<not> permits_destination (observed Public None ''Controller'' ''m'' ''1'' [''a**'']) ''ab''"
  by code_simp

end
