(* ===== verification/Guards.thy ===== *)
theory Guards
  imports Information
begin

text \<open>
  The content guards of the policy crate: the input filters (\<open>crates/policy/src/input_guard.rs\<close>), the delimiters around
  untrusted content (\<open>spotlighting.rs\<close>) and the inspection of outbound content (\<open>outbound.rs\<close>).

  A Rust \<open>str\<close> is its UTF-8 bytes, except in the input filters, which work on its scalar values. The random
  delimiter tag is an argument.
\<close>

section \<open>Input filters\<close>

definition is_invisible_bidi :: "nat \<Rightarrow> bool" where
  "is_invisible_bidi c \<longleftrightarrow> c \<in> {0x200B, 0x200C, 0x200D, 0xFEFF} \<or> 0x202A \<le> c \<and> c \<le> 0x202E \<or>
     0x2066 \<le> c \<and> c \<le> 0x2069 \<or> 0x2061 \<le> c \<and> c \<le> 0x2064"

definition strip_invisible :: "nat list \<Rightarrow> nat list" where
  "strip_invisible input = filter (\<lambda>c. \<not> is_invisible_bidi c) input"

definition homoglyphs :: "(nat \<times> char) list" where
  "homoglyphs =
     [(0x0430, CHR ''a''), (0x0435, CHR ''e''), (0x043E, CHR ''o''), (0x0440, CHR ''p''), (0x0441, CHR ''c''),
      (0x0443, CHR ''y''), (0x0445, CHR ''x''), (0x0410, CHR ''A''), (0x0415, CHR ''E''), (0x041E, CHR ''O''),
      (0x0420, CHR ''P''), (0x0421, CHR ''C''), (0x0423, CHR ''Y''), (0x0425, CHR ''X''), (0x03B1, CHR ''a''),
      (0x03B5, CHR ''e''), (0x03BF, CHR ''o''), (0x03C1, CHR ''p''), (0x03C4, CHR ''t''), (0x03C5, CHR ''u''),
      (0x03BD, CHR ''v''), (0x0391, CHR ''A''), (0x0392, CHR ''B''), (0x0395, CHR ''E''), (0x0396, CHR ''Z''),
      (0x0397, CHR ''H''), (0x0399, CHR ''I''), (0x039A, CHR ''K''), (0x039C, CHR ''M''), (0x039D, CHR ''N''),
      (0x039F, CHR ''O''), (0x03A1, CHR ''P''), (0x03A4, CHR ''T''), (0x03A5, CHR ''Y''), (0x03A7, CHR ''X''),
      (0x0570, CHR ''h''), (0x0578, CHR ''n'')]"

definition fold_common_homoglyphs :: "nat list \<Rightarrow> nat list" where
  "fold_common_homoglyphs input = map (\<lambda>c. case map_of homoglyphs c of Some a \<Rightarrow> of_char a | None \<Rightarrow> c) input"

section \<open>Spotlighting\<close>

record Spotlight =
  sp_open :: string
  sp_close :: string

text \<open>\<open>generate_with\<close>, from the hexadecimal tag of the eight random bytes.\<close>

definition Spotlight_generate :: "string \<Rightarrow> Spotlight" where
  "Spotlight_generate tag = \<lparr>sp_open = ''<<<UNTRUSTED:'' @ tag @ ''>>>'', sp_close = ''<<</UNTRUSTED:'' @ tag @ ''>>>''\<rparr>"

lemma str_find_split: "str_find s pat = Some i \<Longrightarrow> \<exists>t. s = take i s @ pat @ t \<and> length (take i s) = i"
  using str_find_Some [of s pat i] by (metis append_take_drop_id length_take min.absorb2 starts_with_iff)

lemma str_find_drop_less:
  assumes "str_find s pat = Some i" "pat \<noteq> []"
  shows "length (drop (i + length pat) s) < length s"
proof -
  obtain t where "s = take i s @ pat @ t" "length (take i s) = i" using str_find_split [OF assms(1)] by blast
  then have "length s = i + length pat + length t" by (metis add.assoc length_append)
  with assms(2) show ?thesis by simp
qed

text \<open>\<open>str::replace\<close> by the empty string: one pass from left to right over what is not yet consumed.\<close>

function str_remove :: "string \<Rightarrow> string \<Rightarrow> string" where
  "str_remove pat s =
     (if pat = [] then s
      else case str_find s pat of None \<Rightarrow> s
         | Some i \<Rightarrow> take i s @ str_remove pat (drop (i + length pat) s))"
  by pat_completeness auto
termination
  by (relation "measure (\<lambda>(pat, s). length s)") (auto dest: str_find_drop_less)

declare str_remove.simps [simp del]

definition wrap :: "Spotlight \<Rightarrow> string \<Rightarrow> string" where
  "wrap sp content =
     (let needs_strip = str_contains content (sp_open sp) \<or> str_contains content (sp_close sp) in
      sp_open sp @ [CHR 0x0A] @
      (if needs_strip then str_remove (sp_close sp) (str_remove (sp_open sp) content) else content) @
      [CHR 0x0A] @ sp_close sp)"

definition should_spotlight :: "bool \<Rightarrow> bool" where
  "should_spotlight decision_flag = decision_flag"

section \<open>Lossy decoding\<close>

text \<open>
  \<open>String::from_utf8_lossy\<close>: every maximal prefix of an ill-formed sequence becomes U+FFFD. A lead byte gives the
  number of continuation bytes and the range of the first of them.
\<close>

definition utf8_lead :: "char \<Rightarrow> (nat \<times> nat \<times> nat) option" where
  "utf8_lead a =
     (if byte_in 0x00 0x7F a then Some (0, 0, 0)
      else if byte_in 0xC2 0xDF a then Some (1, 0x80, 0xBF)
      else if a = CHR 0xE0 then Some (2, 0xA0, 0xBF)
      else if a = CHR 0xED then Some (2, 0x80, 0x9F)
      else if byte_in 0xE1 0xEF a then Some (2, 0x80, 0xBF)
      else if a = CHR 0xF0 then Some (3, 0x90, 0xBF)
      else if a = CHR 0xF4 then Some (3, 0x80, 0x8F)
      else if byte_in 0xF1 0xF3 a then Some (3, 0x80, 0xBF)
      else None)"

definition utf8_taken :: "nat \<Rightarrow> nat \<Rightarrow> nat \<Rightarrow> string \<Rightarrow> nat" where
  "utf8_taken n lo hi s = (case s of
      b # t \<Rightarrow> if 0 < n \<and> byte_in lo hi b then Suc (length (takeWhile utf8_cont (take (n - 1) t))) else 0
    | [] \<Rightarrow> 0)"

definition replacement :: string where
  "replacement = [CHR 0xEF, CHR 0xBF, CHR 0xBD]"

function from_utf8_lossy :: "string \<Rightarrow> string" where
  "from_utf8_lossy [] = []"
| "from_utf8_lossy (a # s) = (case utf8_lead a of
      None \<Rightarrow> replacement @ from_utf8_lossy s
    | Some (n, lo, hi) \<Rightarrow>
        let k = utf8_taken n lo hi s in
        if k = n then a # take n s @ from_utf8_lossy (drop n s) else replacement @ from_utf8_lossy (drop k s))"
  by pat_completeness auto
termination
  by (relation "measure length") auto

section \<open>Credential detectors\<close>

definition is_ascii_whitespace :: "char \<Rightarrow> bool" where
  "is_ascii_whitespace c \<longleftrightarrow> c \<in> {CHR 0x20, CHR 0x09, CHR 0x0A, CHR 0x0C, CHR 0x0D}"

definition is_ascii_alphanumeric :: "char \<Rightarrow> bool" where
  "is_ascii_alphanumeric c \<longleftrightarrow> byte_in 48 57 c \<or> byte_in 65 90 c \<or> byte_in 97 122 c"

text \<open>
  The loop \<open>while let Some(index) = rest.find(key)\<close> that continues behind each occurrence of a (non-empty) key, and the one that
  continues behind its first character.
\<close>

function scan_after :: "string \<Rightarrow> (string \<Rightarrow> bool) \<Rightarrow> string \<Rightarrow> bool" where
  "scan_after key p rest =
     (if key = [] then False
      else case str_find rest key of None \<Rightarrow> False
         | Some i \<Rightarrow> let rest' = drop (i + length key) rest in if p rest' then True else scan_after key p rest')"
  by pat_completeness auto
termination
  by (relation "measure (\<lambda>(key, p, rest). length rest)") (auto dest: str_find_drop_less)

lemma str_find_skip_less:
  assumes "str_find s pat = Some i" "pat \<noteq> []"
  shows "length (drop (i + (case utf8_chars (drop i s) of [] \<Rightarrow> length s | ch # _ \<Rightarrow> length ch)) s) < length s"
proof -
  from assms obtain c cs where "drop i s = c # cs"
    by (metis append_is_Nil_conv neq_Nil_conv starts_with_iff str_find_Some)
  moreover from this have "i < length s" by (metis drop_all leI list.distinct(1))
  ultimately show ?thesis by simp
qed

function scan_each :: "string \<Rightarrow> (string \<Rightarrow> bool) \<Rightarrow> string \<Rightarrow> bool" where
  "scan_each prefix p rest =
     (if prefix = [] then False
      else case str_find rest prefix of None \<Rightarrow> False
         | Some i \<Rightarrow>
             if p (drop (i + length prefix) rest) then True
             else let skip = (case utf8_chars (drop i rest) of [] \<Rightarrow> length rest | ch # _ \<Rightarrow> length ch) in
               scan_each prefix p (drop (i + skip) rest))"
  by pat_completeness auto
termination
  by (relation "measure (\<lambda>(prefix, p, rest). length rest)") (use str_find_skip_less in auto)

declare scan_after.simps [simp del] scan_each.simps [simp del]

definition assignment_keys :: "string list" where
  "assignment_keys = [''api_key'', ''api-key'', ''secret'', ''password'', ''credential'', ''access_token'']"

definition assigned_value :: "string \<Rightarrow> bool" where
  "assigned_value rest =
     (let value_text = dropWhile (\<lambda>c. is_ascii_whitespace c \<or> c \<in> set ''=:'' \<or> c \<in> {CHR 0x27, CHR 0x22}) rest in
      8 \<le> length (takeWhile (\<lambda>g. \<not> (case g of [c] \<Rightarrow> is_ascii_whitespace c \<or> c \<in> set '',;}'' \<or> c \<in> {CHR 0x22, CHR 0x27}
            | _ \<Rightarrow> False)) (utf8_chars value_text)))"

definition contains_assignment_secret :: "string \<Rightarrow> bool" where
  "contains_assignment_secret lower = list_ex (\<lambda>key. scan_after key assigned_value lower) assignment_keys"

definition bearer_value :: "string \<Rightarrow> bool" where
  "bearer_value rest \<longleftrightarrow> 16 \<le> length (takeWhile (\<lambda>c. is_ascii_alphanumeric c \<or> c \<in> set ''._-~'') rest)"

definition contains_bearer_token :: "string \<Rightarrow> bool" where
  "contains_bearer_token text = scan_after ''bearer '' bearer_value (to_ascii_lowercase text)"

definition key_suffix :: "nat \<Rightarrow> string \<Rightarrow> bool" where
  "key_suffix n suffix \<longleftrightarrow> n \<le> length (takeWhile (\<lambda>c. is_ascii_alphanumeric c \<or> c \<in> set ''_-'') suffix)"

definition contains_prefixed_key :: "string \<Rightarrow> string \<Rightarrow> nat \<Rightarrow> bool" where
  "contains_prefixed_key text prefix suffix_len = scan_each prefix (key_suffix suffix_len) (to_ascii_lowercase text)"

definition private_key_markers :: "string list" where
  "private_key_markers = [''-----begin private key-----'', ''-----begin rsa private key-----'',
     ''-----begin openssh private key-----'']"

definition secret_indicators :: "string \<Rightarrow> string list" where
  "secret_indicators text =
     (let lower = to_ascii_lowercase text in
      (if list_ex (str_contains lower) private_key_markers then [''private_key_block''] else []) @
      (if contains_assignment_secret lower then [''credential_assignment''] else []) @
      (if contains_bearer_token text then [''bearer_token''] else []) @
      (if contains_prefixed_key text ''sk-'' 20 then [''sk_key''] else []) @
      (if contains_prefixed_key text ''akia'' 16 then [''aws_access_key''] else []))"

record OutboundDecision =
  od_allowed :: bool
  od_findings :: "string list"

text \<open>\<open>sort_unstable\<close> and \<open>dedup\<close>, which removes consecutive duplicates.\<close>

definition inspect_outbound :: "string \<Rightarrow> InformationLabel option \<Rightarrow> string \<Rightarrow> OutboundDecision" where
  "inspect_outbound content label destination =
     (let text = from_utf8_lossy content;
          operator_authorized_export = (case label of None \<Rightarrow> False | Some l \<Rightarrow> declassified_for l destination);
          findings0 = (if operator_authorized_export then [] else secret_indicators text);
          findings1 = (case label of None \<Rightarrow> findings0
            | Some l \<Rightarrow> findings0 @
                (if \<not> permits_destination l destination then [''destination_not_authorized_by_label''] else []) @
                (if sensitivity l = Secret \<and> \<not> declassified_for l destination
                 then [''secret_data_requires_explicit_export''] else []));
          findings = remdups_adj (sort findings1) in
      \<lparr>od_allowed = (findings = []), od_findings = findings\<rparr>)"

end
