(* ===== verification/Outbox_Properties.thy ===== *)
theory Outbox_Properties
  imports Outbox_Machine
begin

text \<open>
  The properties of the outbox store, for every sequence of its operations, with concrete
  instances.
\<close>

section \<open>Rows along a run\<close>

lemma run_ok: "outbox_ok db \<Longrightarrow> outbox_ok (foldl outbox_step db as)"
  by (rule outbox_machine.run_inv)

lemma outbox_ok_empty: "outbox_ok empty_database"
  by (simp add: outbox_ok_def empty_database_def)

lemma run_row:
  assumes "outbox_ok db" "r \<in> set (state_outbox db)"
  obtains r' where "r' \<in> set (state_outbox (foldl outbox_step db as))" "ob_ident r' = ob_ident r"
proof -
  have "ob_ident r \<in> set (map ob_ident (state_outbox (foldl outbox_step db as)))"
    using set_mono_prefix [OF run_frame [THEN conjunct1, of db as]] assms(2) by auto
  then show ?thesis using that by auto
qed

lemma run_find:
  assumes "outbox_ok db" "find_outbox i db = Some r"
  shows "\<exists>r'. find_outbox i (foldl outbox_step db as) = Some r' \<and> ob_ident r' = ob_ident r"
proof -
  have r: "r \<in> set (state_outbox db)" "ob_id r = i"
    using assms by (simp_all add: find_outbox_iff)
  obtain r' where "r' \<in> set (state_outbox (foldl outbox_step db as))" "ob_ident r' = ob_ident r"
    using run_row [OF assms(1) r(1)] by blast
  with r(2) ob_ident_key show ?thesis
    by (metis assms(1) find_outbox_iff run_ok)
qed

lemma find_key_of:
  assumes "outbox_ok db" "r \<in> set (state_outbox db)"
  shows "find (\<lambda>x. ob_idempotency_key x = ob_idempotency_key r) (state_outbox db) = Some r"
  by (rule find_distinct_key) (use assms in \<open>simp_all add: outbox_ok_def\<close>)

lemma inbox_run: "prefix (state_inbox db) (state_inbox (foldl outbox_step db as))"
proof (induction as arbitrary: db)
  case (Cons a as)
  have "state_inbox (snd (transaction f db)) = state_inbox db"
    if "\<And>x db'. f db = Inr (x, db') \<Longrightarrow> state_inbox db' = state_inbox db" for f :: "'x tx" and db
    using that by (rule transaction_keeps)
  then have "prefix (state_inbox db) (state_inbox (outbox_step db a))"
    by (cases a)
      (auto simp: enqueue_def enqueue_idempotent_guarded_def mark_status_def inbox_record_if_new_def
        claim_with_lease_def mark_delivered_with_receipt_def mark_unknown_def authorize_unknown_retry_def
        confirm_unknown_delivered_def record_failure_def redrive_dead_letter_def append_redrive_event_def
        transaction_def Let_def insert_outbox_def split: sum.splits option.splits prod.splits if_splits)
  with Cons.IH [of "outbox_step db a"] show ?case using prefix_order.order_trans by fastforce
qed simp

section \<open>Properties\<close>

definition sample_row :: "string \<Rightarrow> string \<Rightarrow> OutboxRow" where
  "sample_row key p = \<lparr>o_id = None, o_idempotency_key = key, o_conversation_id = ''c'',
     o_effect_kind = ''transport.send'', o_payload = p, o_status = Pending, o_attempts = 0,
     o_next_attempt_at = None, o_last_error = None, o_enqueued_seq = 1\<rparr>"

definition sample_outbox :: database where
  "sample_outbox = snd (enqueue 5 (sample_row ''c:1:0'' ''hello'') empty_database)"

text \<open>
  Whatever sequence of store operations ran, outbox ids and idempotency keys are unique, no id
  exceeds the rowid counter, every stored status is one of the six, every delivery event belongs to a row,
  and delivery ids increase.
\<close>

theorem outbox_store_invariant: "outbox_ok (foldl outbox_step empty_database actions)"
  by (rule run_ok [OF outbox_ok_empty])

text \<open>
  The delivery timeline of an effect is append-only and its identity is permanent: after any
  operations the earlier timeline is a prefix of the later one, and the row is still there with its
  key, conversation, kind, payload, sequence number and ownership fence.
\<close>

theorem timeline_append_only:
  assumes "outbox_ok db" "find_outbox i db = Some r"
  shows "prefix (delivery_timeline i db) (delivery_timeline i (foldl outbox_step db actions)) \<and>
    (\<exists>r'. find_outbox i (foldl outbox_step db actions) = Some r' \<and> ob_ident r' = ob_ident r)"
proof -
  have "prefix (filter (\<lambda>e. de_outbox_id e = i) (state_outbox_delivery_events db))
      (filter (\<lambda>e. de_outbox_id e = i) (state_outbox_delivery_events (foldl outbox_step db actions)))"
    using run_frame [of db actions] by (auto simp: prefix_def)
  with run_find [OF assms] show ?thesis
    by (simp add: delivery_timeline_ok assms(1) run_ok)
qed

theorem timeline_append_only_witness:
  "prefix (delivery_timeline 1 sample_outbox)
     (delivery_timeline 1 (foldl outbox_step sample_outbox [ClaimWithLease 1 ''w'' 6 30, MarkDelivered 7 1 None])) \<and>
   length (delivery_timeline 1 (foldl outbox_step sample_outbox [ClaimWithLease 1 ''w'' 6 30, MarkDelivered 7 1 None])) = 3"
proof -
  have ok: "outbox_ok sample_outbox" by code_simp
  have r: "find_outbox 1 sample_outbox = Some (new_outbox_row 1 (sample_row ''c:1:0'' ''hello'') None)" by code_simp
  have "length (delivery_timeline 1 (foldl outbox_step sample_outbox [ClaimWithLease 1 ''w'' 6 30, MarkDelivered 7 1 None])) = 3"
    by code_simp
  with timeline_append_only [OF ok r] show ?thesis by blast
qed

text \<open>
  C5: An effect is enqueued at most once per key. After a first enqueue gave id \<open>i\<close>, and after any
  operations since, a replay of the same effect returns the same id without inserting anything, or is
  refused because the outcome needs an operator; a different effect under the key is always refused.
  Neither changes the store.
\<close>

theorem enqueue_at_most_once:
  assumes "outbox_ok db" "enqueue_idempotent_guarded now row owner db = (Inr (i, True), db1)"
    and db2_def: "db2 = foldl outbox_step db1 actions"
  shows "enqueue_idempotent now' row db2 \<in> {(Inr (i, False), db2),
      (Inl (Invariant ''outbox key requires explicit outcome resolution before replay''), db2)} \<and>
    (\<forall>row'. o_idempotency_key row' = o_idempotency_key row \<and>
        (o_conversation_id row', o_effect_kind row', o_payload row') \<noteq> (o_conversation_id row, o_effect_kind row, o_payload row)
      \<longrightarrow> enqueue_idempotent now' row' db2 =
          (Inl (Invariant ''outbox idempotency key was reused for a different effect''), db2))"
proof -
  from assms(2) obtain db0 where ins: "insert_outbox row owner db = Inr (i, db0)"
    and db1: "db1 = insert_delivery_event i ''enqueued'' now (o_attempts row) None None None db0"
    by (auto simp: enqueue_idempotent_guarded_def transaction_Inr_iff split: if_splits option.splits sum.splits)
  have ok1: "outbox_ok db1"
    using insert_outbox_ok [OF assms(1) ins] by (simp add: db1 outbox_ok_delivery)
  have "new_outbox_row i row owner \<in> set (state_outbox db1)" using ins by (simp add: db1 insert_outbox_Inr)
  then obtain r where r: "r \<in> set (state_outbox db2)" "ob_ident r = ob_ident (new_outbox_row i row owner)"
    unfolding db2_def by (rule run_row [OF ok1])
  have f: "find (\<lambda>x. ob_idempotency_key x = ob_idempotency_key r) (state_outbox db2) = Some r"
    by (rule find_key_of [OF _ r(1)]) (simp add: db2_def run_ok ok1)
  from r(2) have "ob_id r = i" "ob_idempotency_key r = o_idempotency_key row" "ob_conversation_id r = o_conversation_id row"
    "ob_effect_kind r = o_effect_kind row" "ob_payload r = o_payload row"
    by (simp_all add: ob_ident_def new_outbox_row_def)
  with f show ?thesis
    by (auto simp: enqueue_idempotent_def enqueue_idempotent_guarded_def transaction_def)
qed

theorem enqueue_at_most_once_witness:
  "enqueue_idempotent 9 (sample_row ''c:1:0'' ''hello'') (foldl outbox_step sample_outbox [ClaimWithLease 1 ''w'' 6 30]) =
   (Inr (1, False), foldl outbox_step sample_outbox [ClaimWithLease 1 ''w'' 6 30])"
proof -
  have first: "enqueue_idempotent_guarded 5 (sample_row ''c:1:0'' ''hello'') None empty_database = (Inr (1, True), sample_outbox)"
    by code_simp
  have "fst (enqueue_idempotent 9 (sample_row ''c:1:0'' ''hello'') (foldl outbox_step sample_outbox [ClaimWithLease 1 ''w'' 6 30]))
      = Inr (1, False)" by code_simp
  with enqueue_at_most_once [OF outbox_ok_empty first refl, of 9 "[ClaimWithLease 1 ''w'' 6 30]"] show ?thesis by auto
qed


text \<open>
  What ends a lease on row \<open>i\<close> that runs until \<open>expires\<close>: a claim at or after that time, or one of the calls
  that settle an attempt. These calls carry no owner, so the store cannot tell who makes them.
\<close>

fun ends_lease :: "int \<Rightarrow> int \<Rightarrow> outbox_action \<Rightarrow> bool" where
  "ends_lease i expires (ClaimWithLease j owner now_ts secs) \<longleftrightarrow> j = i \<and> expires \<le> now_ts"
| "ends_lease i expires (MarkStatus j status err next) \<longleftrightarrow> j = i \<and> status \<noteq> InFlight"
| "ends_lease i expires (MarkDelivered now j receipt) \<longleftrightarrow> j = i"
| "ends_lease i expires (MarkUnknown now j reason) \<longleftrightarrow> j = i"
| "ends_lease i expires (RecordFailure now now' j err budget backoff) \<longleftrightarrow> j = i"
| "ends_lease i expires (Enqueue now row) \<longleftrightarrow> False"
| "ends_lease i expires (EnqueueGuarded now row owner) \<longleftrightarrow> False"
| "ends_lease i expires (InboxRecord now key) \<longleftrightarrow> False"
| "ends_lease i expires (AuthorizeRetry now j actor reason) \<longleftrightarrow> False"
| "ends_lease i expires (ConfirmDelivered now j actor receipt) \<longleftrightarrow> False"
| "ends_lease i expires (RedriveDeadLetter now j actor reason) \<longleftrightarrow> False"

definition holds_lease :: "int \<Rightarrow> string \<Rightarrow> int \<Rightarrow> database \<Rightarrow> bool" where
  "holds_lease i owner expires db \<longleftrightarrow> map_option (\<lambda>r. (ob_status r, ob_lease_owner r, ob_lease_expires_at r)) (find_outbox i db) =
     Some (''in_flight'', Some owner, Some expires)"

lemma holds_lease_row:
  "holds_lease i owner expires db \<longleftrightarrow> (\<exists>r. find_outbox i db = Some r \<and> ob_status r = ''in_flight'' \<and>
     ob_lease_owner r = Some owner \<and> ob_lease_expires_at r = Some expires)"
  by (auto simp: holds_lease_def)

lemma holds_lease_find:
  "find_outbox i db' = find_outbox i db \<Longrightarrow> holds_lease i owner expires db \<Longrightarrow> holds_lease i owner expires db'"
  by (simp add: holds_lease_def)

lemma lease_claim_refused:
  assumes "outbox_ok db" "holds_lease i owner expires db" "now' < expires"
  shows "claim_with_lease i owner' now' secs' db = (Inr False, db)"
  using assms by (intro claim_refused) (auto simp: claimable_def holds_lease_row)

lemma leased_not_found:
  assumes "outbox_ok db" "holds_lease i owner expires db" "s \<noteq> ''in_flight''"
  shows "find_with_status i s db = None"
  using assms by (auto simp: find_with_status_iff holds_lease_row)

lemma lease_step:
  assumes "outbox_ok db" "holds_lease i owner expires db" "\<not> ends_lease i expires a"
  shows "holds_lease i owner expires (outbox_step db a)"
proof (cases "action_row a = Some i")
  case False
  then show ?thesis using assms(2) step_other_row [of a i db] by (auto simp: holds_lease_row)
next
  case True
  note gone = leased_not_found [OF assms(1,2)]
  show ?thesis
  proof (cases a)
    case (MarkStatus j status err nxt)
    moreover from assms(2) obtain r where r: "find_outbox i db = Some r" by (auto simp: holds_lease_row)
    ultimately show ?thesis
      using True assms(2,3) find_outbox_id [OF r] by (auto simp: holds_lease_def mark_status_def find_outbox_update)
  next
    case (ClaimWithLease j owner' now_ts secs)
    with True assms lease_claim_refused [OF assms(1,2)] show ?thesis by simp
  next
    case (AuthorizeRetry now j actor reason)
    with True assms(2) gone show ?thesis
      by (auto simp: authorize_unknown_retry_def transaction_def Let_def split: sum.splits)
  next
    case (ConfirmDelivered now j actor receipt)
    with True assms(2) gone show ?thesis
      by (auto simp: confirm_unknown_delivered_def transaction_def Let_def split: sum.splits)
  next
    case (RedriveDeadLetter now j actor reason)
    with True assms(2) gone show ?thesis
      by (auto simp: redrive_dead_letter_def transaction_def split: sum.splits)
  qed (use True assms(3) in simp_all)
qed

lemma lease_run:
  "outbox_ok db \<Longrightarrow> holds_lease i owner expires db \<Longrightarrow> \<not> list_ex (ends_lease i expires) as \<Longrightarrow>
   holds_lease i owner expires (foldl outbox_step db as)"
proof (induction as arbitrary: db)
  case (Cons a as)
  then show ?case using lease_step [of db] outbox_change_ok [OF step_change] by simp
qed simp

lemma lease_ended:
  assumes "outbox_ok db" "holds_lease i owner expires db" "ends_lease i expires a"
  shows "\<exists>r. find_outbox i (outbox_step db a) = Some r \<and> (case a of
     ClaimWithLease j owner' now_ts secs \<Rightarrow> ob_status r = ''in_flight'' \<and> ob_lease_owner r = Some owner'
   | _ \<Rightarrow> ob_status r \<noteq> ''in_flight'')"
proof -
  from assms(2) obtain r where r: "find_outbox i db = Some r" "ob_status r = ''in_flight''"
    "ob_lease_expires_at r = Some expires" by (auto simp: holds_lease_row)
  have unk: "find_with_status i ''in_flight'' db = Some r" using r by (simp add: find_with_status_iff assms(1))
  note id = find_outbox_id [OF r(1)]
  show ?thesis
  proof (cases a)
    case (ClaimWithLease j owner' now_ts secs)
    with assms(3) r have j: "j = i" "claimable now_ts r" by (simp_all add: claimable_def)
    with claim_granted [OF assms(1) r(1) j(2), of owner' secs] ClaimWithLease show ?thesis by (auto simp: leased_def)
  next
    case (MarkStatus j status err nxt)
    with assms(3) r id show ?thesis
      by (cases status) (auto simp: mark_status_def find_outbox_update)
  next
    case (MarkDelivered now j receipt)
    with assms(3) r id show ?thesis
      by (auto simp: mark_delivered_with_receipt_def transaction_def Let_def find_outbox_update)
  next
    case (MarkUnknown now j reason)
    with assms(3) r id unk show ?thesis
      by (auto simp: mark_unknown_def transaction_def Let_def find_outbox_update)
  next
    case (RecordFailure now now' j err budget backoff)
    with assms(3) r id show ?thesis
      by (auto simp: record_failure_def transaction_def Let_def find_outbox_update)
  qed (use assms(3) in simp_all)
qed

text \<open>
  C6: A lease lasts until it expires or the attempt is settled. After a granted claim the row stays in flight
  with its owner, and every claim before the expiry, by anybody, is refused without a trace, through every
  sequence of operations of the store on this row and on others, unless one of the operations is a claim at or after the expiry
  or one of the four calls that settle an attempt of the row (\<open>mark_status\<close> to another status, \<open>mark_delivered\<close>,
  \<open>mark_unknown\<close>, \<open>record_failure\<close>). These are not fenced by the owner: whoever makes one of the four calls
  before the expiry, the row is in flight no longer; and a claim at the expiry hands the row to the new claimant. (The
  takeover of agent ownership, which works on the same table, ends leases too.)
\<close>

theorem lease_exclusive:
  assumes "outbox_ok db" "claim_with_lease i owner now_ts secs db = (Inr True, db1)"
    and "db2 = foldl outbox_step db1 actions" "expires = lease_until now_ts secs"
  shows "(\<not> list_ex (ends_lease i expires) actions \<longrightarrow> holds_lease i owner expires db2 \<and>
      (\<forall>owner' now' secs'. now' < expires \<longrightarrow> claim_with_lease i owner' now' secs' db2 = (Inr False, db2))) \<and>
    (\<forall>a. holds_lease i owner expires db2 \<and> ends_lease i expires a \<longrightarrow>
      (\<exists>r. find_outbox i (outbox_step db2 a) = Some r \<and> (case a of
         ClaimWithLease j owner' now' secs' \<Rightarrow> ob_status r = ''in_flight'' \<and> ob_lease_owner r = Some owner'
       | _ \<Rightarrow> ob_status r \<noteq> ''in_flight'')))"
proof -
  have ok: "outbox_ok db1"
    using outbox_change_ok [OF claim_change assms(1)] by (metis assms(2) snd_conv)
  have ok2: "outbox_ok db2" unfolding assms(3) by (rule run_ok [OF ok])
  have "holds_lease i owner expires db1"
    using claim_iff [OF assms(1,2)] by (auto simp: holds_lease_row leased_def assms(4))
  with lease_run [OF ok] have "holds_lease i owner expires db2" if "\<not> list_ex (ends_lease i expires) actions"
    using that by (simp add: assms(3))
  with lease_claim_refused [OF ok2] lease_ended [OF ok2] show ?thesis by blast
qed

theorem lease_exclusive_witness:
  "claim_with_lease 1 ''b'' 20 30 (foldl outbox_step (snd (claim_with_lease 1 ''a'' 6 30 sample_outbox))
     [Enqueue 8 (sample_row ''k2'' ''x''), ClaimWithLease 1 ''c'' 10 30, AuthorizeRetry 11 1 ''op'' ''again'']) =
   (Inr False, foldl outbox_step (snd (claim_with_lease 1 ''a'' 6 30 sample_outbox))
     [Enqueue 8 (sample_row ''k2'' ''x''), ClaimWithLease 1 ''c'' 10 30, AuthorizeRetry 11 1 ''op'' ''again''])"
proof -
  have ok: "outbox_ok sample_outbox" by code_simp
  have "fst (claim_with_lease 1 ''a'' 6 30 sample_outbox) = Inr True" by code_simp
  then have first: "claim_with_lease 1 ''a'' 6 30 sample_outbox = (Inr True, snd (claim_with_lease 1 ''a'' 6 30 sample_outbox))"
    by (metis prod.collapse)
  have until: "36 = lease_until 6 30" by code_simp
  show ?thesis
    using lease_exclusive [OF ok first refl until,
      of "[Enqueue 8 (sample_row ''k2'' ''x''), ClaimWithLease 1 ''c'' 10 30, AuthorizeRetry 11 1 ''op'' ''again'']"]
    by simp
qed

text \<open>A failure reported by a call that never held the lease puts a leased row back for the next claimant.\<close>

theorem settlement_is_not_fenced:
  "fst (claim_with_lease 1 ''b'' 8 30 (foldl outbox_step sample_outbox
     [ClaimWithLease 1 ''a'' 6 30, RecordFailure 7 7 1 ''not mine'' 3 0])) = Inr True"
  by code_simp

text \<open>
  A failed attempt is counted and then either rescheduled or given up, exactly by the retry
  budget: below the budget the row returns to pending, due after the backoff; at or above it
  the row becomes a dead letter. Either way the lease is gone, the error is kept and the timeline gets
  one event.
\<close>

theorem record_failure_outcome:
  assumes "outbox_ok db" "find_outbox i db = Some r" "0 \<le> ob_attempts r" "ob_attempts r + 1 < 2 ^ 32"
    and retrying_def: "retrying \<longleftrightarrow> ob_attempts r + 1 < int budget"
  shows "\<exists>db'. record_failure now now' i err budget backoff db = (Inr retrying, db') \<and>
    find_outbox i db' = Some (r\<lparr>ob_status := (if retrying then ''pending'' else ''dead_letter''),
      ob_last_error := Some err, ob_attempts := ob_attempts r + 1,
      ob_next_attempt_at := (if retrying then Some (now + backoff) else ob_next_attempt_at r),
      ob_lease_owner := None, ob_lease_expires_at := None\<rparr>) \<and>
    (\<exists>e. delivery_timeline i db' = delivery_timeline i db @ [e] \<and>
       de_transition e = (if retrying then ''retry_scheduled'' else ''dead_letter'') \<and> de_attempt e = ob_attempts r + 1)"
proof -
  have budget: "as_u32 (ob_attempts r + 1) < budget \<longleftrightarrow> retrying"
    using assms(3,4) by (auto simp: as_u32_small retrying_def)
  let ?db' = "snd (record_failure now now' i err budget backoff db)"
  have ok: "outbox_ok ?db'" using outbox_change_ok [OF record_failure_change assms(1)] .
  have res: "record_failure now now' i err budget backoff db = (Inr retrying, ?db')"
    using assms(2) by (simp add: record_failure_def transaction_def Let_def budget)
  moreover have "find_outbox i ?db' = Some (r\<lparr>ob_status := (if retrying then ''pending'' else ''dead_letter''),
      ob_last_error := Some err, ob_attempts := ob_attempts r + 1,
      ob_next_attempt_at := (if retrying then Some (now + backoff) else ob_next_attempt_at r),
      ob_lease_owner := None, ob_lease_expires_at := None\<rparr>)"
    using assms(2) find_outbox_id [OF assms(2)]
    by (cases retrying) (simp_all add: record_failure_def transaction_def Let_def budget find_outbox_update)
  moreover have "\<exists>e. delivery_timeline i ?db' = delivery_timeline i db @ [e] \<and>
      de_transition e = (if retrying then ''retry_scheduled'' else ''dead_letter'') \<and> de_attempt e = ob_attempts r + 1"
    using assms(2) delivery_timeline_ok [OF ok] delivery_timeline_ok [OF assms(1)]
    by (simp add: record_failure_def transaction_def Let_def budget delivery_events_insert)
  ultimately show ?thesis by blast
qed

theorem record_failure_outcome_witness:
  "\<exists>db'. record_failure 9 9 1 ''timeout'' 1 60 sample_outbox = (Inr False, db') \<and> dead_letter_count db' = 1"
proof -
  have ok: "outbox_ok sample_outbox" by code_simp
  have r: "find_outbox 1 sample_outbox = Some (new_outbox_row 1 (sample_row ''c:1:0'' ''hello'') None)" by code_simp
  have a: "ob_attempts (new_outbox_row 1 (sample_row ''c:1:0'' ''hello'') None) = 0" by code_simp
  have "dead_letter_count (snd (record_failure 9 9 1 ''timeout'' 1 60 sample_outbox)) = 1" by code_simp
  with record_failure_outcome [OF ok r _ _ refl, of 9 9 "''timeout''" 1 60] show ?thesis by (auto simp: a)
qed


definition resolves :: "int \<Rightarrow> outbox_action \<Rightarrow> bool" where
  "resolves i a \<longleftrightarrow> (case a of
      MarkStatus j _ _ _ \<Rightarrow> j = i
    | MarkDelivered _ j _ \<Rightarrow> j = i
    | AuthorizeRetry _ j _ _ \<Rightarrow> j = i
    | ConfirmDelivered _ j _ _ \<Rightarrow> j = i
    | RecordFailure _ _ j _ _ _ \<Rightarrow> j = i
    | _ \<Rightarrow> False)"

lemma unknown_step:
  assumes "outbox_ok db" "find_outbox i db = Some r" "ob_status r = ''unknown''" "\<not> resolves i a"
  shows "find_outbox i (outbox_step db a) = Some r"
proof (cases "action_row a = Some i")
  case True
  with assms(4) show ?thesis
    using assms(1-3) claim_refused [OF assms(1), of i]
    by (cases a) (auto simp: resolves_def claimable_def mark_unknown_def redrive_dead_letter_def transaction_def
        find_with_status_iff [OF assms(1)] Let_def split: sum.splits)
qed (use assms step_other_row in blast)

lemma unknown_run:
  assumes "outbox_ok db" "find_outbox i db = Some r" "ob_status r = ''unknown''" "list_all (\<lambda>a. \<not> resolves i a) as"
  shows "find_outbox i (foldl outbox_step db as) = Some r"
  using assms
proof (induction as arbitrary: db)
  case (Cons a as)
  with unknown_step [of db i r a] outbox_change_ok [OF step_change, of db] show ?case by simp
qed simp

lemma ready_ids:
  "j \<in> set (map o_id (ready_pending now_ts limit db)) \<Longrightarrow>
   \<exists>r \<in> set (state_outbox db). j = Some (ob_id r) \<and> is_ready now_ts r"
  by (auto simp: ready_pending_def sql_limit_def row_to_outbox_def split: if_splits dest!: in_set_takeD)

text \<open>
  An effect whose outcome is unknown is left alone until it is resolved. As long as nobody
  authorizes a retry, confirms it or reports an attempt of it, no operation on the store changes the row, no claim
  of it succeeds and no listing of work shows it.
\<close>

theorem unknown_needs_resolution:
  assumes "outbox_ok db" "find_outbox i db = Some r" "ob_status r = ''unknown''"
    and "list_all (\<lambda>a. \<not> resolves i a) actions" and run: "db' = foldl outbox_step db actions"
  shows "find_outbox i db' = Some r \<and> claim_with_lease i owner now_ts secs db' = (Inr False, db') \<and>
    Some i \<notin> set (map o_id (ready_pending now_ts limit db'))"
proof -
  have ok: "outbox_ok db'" and row: "find_outbox i db' = Some r"
    unfolding run using assms by (simp_all add: run_ok unknown_run)
  moreover have "claim_with_lease i owner now_ts secs db' = (Inr False, db')"
    by (rule claim_refused [OF ok]) (use row assms(3) in \<open>simp add: claimable_def\<close>)
  moreover have "Some i \<notin> set (map o_id (ready_pending now_ts limit db'))"
  proof
    assume "Some i \<in> set (map o_id (ready_pending now_ts limit db'))"
    then obtain r' where "r' \<in> set (state_outbox db')" "i = ob_id r'" "is_ready now_ts r'"
      using ready_ids [of "Some i"] by blast
    with row find_outbox_iff [OF ok, of i r'] have "is_ready now_ts r" by simp
    with assms(3) show False by (simp add: is_ready_def)
  qed
  ultimately show ?thesis by blast
qed

definition unknown_outbox :: database where
  "unknown_outbox = foldl outbox_step sample_outbox [ClaimWithLease 1 ''w'' 6 30, MarkUnknown 8 1 ''no ack'']"

theorem unknown_needs_resolution_witness:
  "claim_with_lease 1 ''w'' 99 30 (foldl outbox_step unknown_outbox [RedriveDeadLetter 9 1 ''ann'' ''again'']) =
     (Inr False, foldl outbox_step unknown_outbox [RedriveDeadLetter 9 1 ''ann'' ''again''])"
proof -
  have ok: "outbox_ok unknown_outbox" by code_simp
  have r: "find_outbox 1 unknown_outbox = Some (the (find_outbox 1 unknown_outbox))" by code_simp
  have st: "ob_status (the (find_outbox 1 unknown_outbox)) = ''unknown''" by code_simp
  show ?thesis
    using unknown_needs_resolution [OF ok r st _ refl, of "[RedriveDeadLetter 9 1 ''ann'' ''again'']" "''w''" 99 30 1]
    by (simp add: resolves_def)
qed

lemma sorted_ids_take:
  assumes "sorted_wrt (<) (map f xs)" "x \<in> set xs" "x \<notin> set (take n xs)"
  shows "length (take n xs) = n \<and> (\<forall>y \<in> set (take n xs). f y < (f x :: int))"
proof -
  have x: "x \<in> set (drop n xs)" using assms(2,3) by (metis UnE append_take_drop_id set_append)
  then have "n < length xs" by (metis drop_all empty_iff list.set(1) not_le)
  moreover have "sorted_wrt (<) (map f (take n xs) @ map f (drop n xs))"
    using assms(1) by (metis append_take_drop_id map_append)
  ultimately show ?thesis using x by (auto simp: sorted_wrt_append)
qed

text \<open>
  \<open>ready_pending\<close> lists exactly the due work in order: every listed row is stored and ready, ids increase,
  and when a ready row is missing from the list then the list is full and all its ids are smaller.
\<close>

theorem ready_pending_exact:
  assumes "outbox_ok db" "0 \<le> limit"
  shows "sorted_wrt (<) (map (the \<circ> o_id) (ready_pending now_ts limit db)) \<and>
    (\<forall>w \<in> set (ready_pending now_ts limit db). \<exists>r \<in> set (state_outbox db). w = row_to_outbox r \<and> is_ready now_ts r) \<and>
    (\<forall>r \<in> set (state_outbox db). is_ready now_ts r \<longrightarrow> row_to_outbox r \<in> set (ready_pending now_ts limit db) \<or>
       int (length (ready_pending now_ts limit db)) = limit \<and>
       (\<forall>w \<in> set (ready_pending now_ts limit db). the (o_id w) < ob_id r))"
proof -
  let ?rs = "sort_key ob_id (filter (is_ready now_ts) (state_outbox db))"
  have eq: "ready_pending now_ts limit db = map row_to_outbox (take (nat limit) ?rs)"
    using assms(2) by (simp add: ready_pending_def sql_limit_def)
  have "distinct (map ob_id (filter (is_ready now_ts) (state_outbox db)))"
    using assms(1) by (simp add: outbox_ok_def distinct_map_filter)
  then have "distinct (map ob_id ?rs)" by (simp add: distinct_map)
  then have sorted: "sorted_wrt (<) (map ob_id ?rs)" by (simp add: strict_sorted_iff)
  then have "sorted_wrt (<) (map ob_id (take (nat limit) ?rs))" by (metis sorted_wrt_take take_map)
  moreover have "map (the \<circ> o_id) (ready_pending now_ts limit db) = map ob_id (take (nat limit) ?rs)"
    by (simp add: eq row_to_outbox_def)
  moreover have "\<exists>r \<in> set (state_outbox db). w = row_to_outbox r \<and> is_ready now_ts r"
    if "w \<in> set (ready_pending now_ts limit db)" for w
    using that by (auto simp: eq dest!: in_set_takeD)
  moreover have "row_to_outbox r \<in> set (ready_pending now_ts limit db) \<or>
      int (length (ready_pending now_ts limit db)) = limit \<and>
      (\<forall>w \<in> set (ready_pending now_ts limit db). the (o_id w) < ob_id r)"
    if "r \<in> set (state_outbox db)" "is_ready now_ts r" for r
  proof (cases "r \<in> set (take (nat limit) ?rs)")
    case False
    from sorted_ids_take [OF sorted _ this] that assms(2) show ?thesis
      by (auto simp: eq row_to_outbox_def simp del: length_take)
  qed (simp add: eq)
  ultimately show ?thesis by simp
qed

theorem ready_pending_exact_witness:
  "is_ready 6 (hd (state_outbox sample_outbox)) \<and>
   row_to_outbox (hd (state_outbox sample_outbox)) \<in> set (ready_pending 6 5 sample_outbox)"
proof -
  have ok: "outbox_ok sample_outbox" by code_simp
  have "length (ready_pending 6 5 sample_outbox) = 1" by code_simp
  moreover have "hd (state_outbox sample_outbox) \<in> set (state_outbox sample_outbox)"
    "is_ready 6 (hd (state_outbox sample_outbox))" by code_simp+
  ultimately show ?thesis using ready_pending_exact [OF ok, of 5 6] by auto
qed


text \<open>
  A redrive brings a dead letter back as the same effect: it becomes pending and due at once
  with its identity and its attempt count, and the operator, the reason and the effect's key are recorded
  in the timeline and in the redrive audit. Anything else than a dead letter is refused and unchanged.
\<close>

theorem redrive_outcome:
  assumes "outbox_ok db" "redrive_dead_letter now i actor reason db = (res, db')"
  shows "(case res of
      Inl e \<Rightarrow> db' = db
    | Inr _ \<Rightarrow> \<exists>r e. find_outbox i db = Some r \<and> ob_status r = ''dead_letter'' \<and>
        find_outbox i db' = Some (r\<lparr>ob_status := ''pending'', ob_next_attempt_at := None,
          ob_lease_owner := None, ob_lease_expires_at := None\<rparr>) \<and>
        delivery_timeline i db' = delivery_timeline i db @ [e] \<and> de_transition e = ''operator_redrive'' \<and>
        de_actor e = Some (rust_trim actor) \<and> de_detail e = Some (rust_trim reason) \<and>
        state_job_redrive_events db' = state_job_redrive_events db @
          [\<lparr>rd_job_kind = ''outbox'', rd_job_id = show_int i, rd_effect_identity = ob_idempotency_key r,
            rd_actor = rust_trim actor, rd_reason = rust_trim reason, rd_prior_attempt = ob_attempts r,
            rd_occurred_at = now\<rparr>])"
proof (cases res)
  case (Inl e)
  with assms(2) show ?thesis
    by (auto simp: redrive_dead_letter_def transaction_Inl_iff split: sum.splits prod.splits)
next
  case (Inr u)
  have valid: "validate_redrive_request actor reason = Inr (rust_trim actor, rust_trim reason)"
    using assms(2) Inr by (auto simp: redrive_dead_letter_def validate_redrive_request_def Let_def split: if_splits)
  obtain r db2 where r: "find_with_status i ''dead_letter'' db = Some r"
    and db2: "db2 = insert_delivery_event i ''operator_redrive'' now (ob_attempts r) (Some (rust_trim reason)) None
        (Some (rust_trim actor)) (update_outbox (\<lambda>r. ob_id r = i \<and> ob_status r = ''dead_letter'')
          (\<lambda>r. r\<lparr>ob_status := ''pending'', ob_next_attempt_at := None, ob_lease_owner := None, ob_lease_expires_at := None\<rparr>) db)"
    and ap: "append_redrive_event RedriveOutbox (show_int i) (ob_idempotency_key r) (rust_trim actor) (rust_trim reason)
        (ob_attempts r) now db2 = Inr db'"
    using assms(2) Inr
    by (auto simp: redrive_dead_letter_def valid transaction_Inr_iff Let_def split: option.splits if_splits sum.splits)
  from r have row: "find_outbox i db = Some r" "ob_status r = ''dead_letter''"
    by (auto simp: find_with_status_iff [OF assms(1)] split: option.splits if_splits)
  have ok': "outbox_ok db'"
    using outbox_change_ok [OF redrive_change assms(1)] by (metis assms(2) snd_conv)
  have audit: "state_job_redrive_events db' = state_job_redrive_events db2 @
      [\<lparr>rd_job_kind = ''outbox'', rd_job_id = show_int i, rd_effect_identity = ob_idempotency_key r,
        rd_actor = rust_trim actor, rd_reason = rust_trim reason, rd_prior_attempt = ob_attempts r, rd_occurred_at = now\<rparr>]"
    using ap by (auto simp: append_redrive_event_def Let_def split: if_splits)
  show ?thesis
    using Inr row audit append_redrive_simps [OF ap] append_redrive_find [OF ap, of i] find_outbox_id [OF row(1)]
      delivery_timeline_ok [OF ok'] delivery_timeline_ok [OF assms(1)]
    by (simp add: db2 find_outbox_update delivery_events_insert)
qed

definition dead_outbox :: database where
  "dead_outbox = outbox_step sample_outbox (RecordFailure 9 9 1 ''timeout'' 1 60)"

theorem redrive_outcome_witness:
  "\<exists>db' r. redrive_dead_letter 10 1 ''ann'' ''again'' dead_outbox = (Inr (), db') \<and>
     find_outbox 1 dead_outbox = Some r \<and> ob_status r = ''dead_letter''"
proof -
  have ok: "outbox_ok dead_outbox" by code_simp
  have "fst (redrive_dead_letter 10 1 ''ann'' ''again'' dead_outbox) = Inr ()" by code_simp
  then have "redrive_dead_letter 10 1 ''ann'' ''again'' dead_outbox =
      (Inr (), snd (redrive_dead_letter 10 1 ''ann'' ''again'' dead_outbox))" by (metis prod.collapse)
  with redrive_outcome [OF ok this] show ?thesis by auto
qed

text \<open>
  The inbox admits each key once: a key is admitted exactly when it has not been recorded, and
  after that no sequence of operations makes it admissible again.
\<close>

theorem inbox_exactly_once:
  "fst (inbox_record_if_new now key db) = Inr (key \<notin> fst ` set (state_inbox db)) \<and>
   fst (inbox_record_if_new now' key (foldl outbox_step (snd (inbox_record_if_new now key db)) actions)) = Inr False"
proof -
  let ?db1 = "snd (inbox_record_if_new now key db)"
  have mem: "list_ex (\<lambda>r. fst r = key) rows \<longleftrightarrow> key \<in> fst ` set rows" for rows :: "(string \<times> int) list"
    by (auto simp: list_ex_iff)
  have "key \<in> fst ` set (state_inbox ?db1)"
    by (simp add: inbox_record_if_new_def mem)
  then have "key \<in> fst ` set (state_inbox (foldl outbox_step ?db1 actions))"
    using set_mono_prefix [OF inbox_run [of ?db1 actions]] by blast
  then show ?thesis by (simp add: inbox_record_if_new_def mem)
qed

end
