(* ===== verification/Relay_Properties.thy ===== *)
theory Relay_Properties
  imports Relay Outbox_Properties
begin

text \<open>
  The properties of the relay: a pass of the drain loop settles every row it lists, retries only
  when that is safe for the sink, and touches nothing else; bounds of the backoff; and the overlap of
  two slow passes.
\<close>

section \<open>Settling one row\<close>

text \<open>
  The outcome of a step for row \<open>i\<close>: no error, the invariant holds, the row has one of the given
  statuses, and the other rows are as they were.
\<close>

definition settled ::
  "database \<Rightarrow> int \<Rightarrow> string set \<Rightarrow> (drain_error + bool) \<times> database \<times> 'w \<Rightarrow> bool" where
  "settled db i statuses res \<longleftrightarrow> (\<exists>b db' w' r'. res = (Inr b, db', w') \<and> outbox_ok db' \<and>
     find_outbox i db' = Some r' \<and> ob_status r' \<in> statuses \<and>
     (\<forall>j r. j \<noteq> i \<longrightarrow> find_outbox j db = Some r \<longrightarrow> find_outbox j db' = Some r))"

lemma settled_mono: "settled db i A res \<Longrightarrow> A \<subseteq> B \<Longrightarrow> settled db i B res"
  unfolding settled_def by blast

lemma settled_step:
  assumes "outbox_ok db" "action_row a = Some i" "f now db = (Inr x, outbox_step db a)"
    and "clock w = (now, w1)" "\<exists>r'. find_outbox i (outbox_step db a) = Some r' \<and> ob_status r' \<in> statuses"
  shows "settled db i statuses (store_call ctx clock f (db, w))"
  using assms step_other_row [of a] outbox_change_ok [OF step_change assms(1)]
  by (auto simp: settled_def store_call_def)

lemma settled_delivered:
  assumes "outbox_ok db" "find_outbox i db = Some r"
  shows "settled db i {''delivered''} (store_call ctx clock (\<lambda>now. mark_delivered_with_receipt now i rc) (db, w))"
proof (cases "clock w")
  case (Pair now w1)
  show ?thesis
    by (rule settled_step [OF assms(1), where a = "MarkDelivered now i rc"])
      (use Pair assms(2) find_outbox_id [OF assms(2)] in
        \<open>auto simp: mark_delivered_with_receipt_def transaction_def Let_def find_outbox_update\<close>)
qed

lemma settled_unknown:
  assumes "outbox_ok db" "find_outbox i db = Some r" "ob_status r = ''in_flight''"
  shows "settled db i {''unknown''} (store_call ctx clock (\<lambda>now. mark_unknown now i reason) (db, w))"
proof (cases "clock w")
  case (Pair now w1)
  show ?thesis
    by (rule settled_step [OF assms(1), where a = "MarkUnknown now i reason"])
      (use Pair assms find_outbox_id [OF assms(2)] in
        \<open>auto simp: mark_unknown_def transaction_def Let_def find_outbox_update find_with_status_iff [OF assms(1)]\<close>)
qed

lemma settled_fail:
  assumes "outbox_ok db" "find_outbox i db = Some r"
  shows "settled db i {''pending'', ''dead_letter''} (fail_call clock cfg i row err (db, w))"
proof -
  obtain now w1 where 1: "clock w = (now, w1)" by (cases "clock w")
  obtain now' w2 where 2: "clock w1 = (now', w2)" by (cases "clock w1")
  let ?a = "RecordFailure now now' i err (max_attempts (retry_budget cfg)) (backoff_secs (as_u32 (o_attempts row + 1)))"
  have "settled db i {''pending'', ''dead_letter''} (store_call ''record_failure'' clock (\<lambda>now_event.
      record_failure now now_event i err (max_attempts (retry_budget cfg)) (backoff_secs (as_u32 (o_attempts row + 1)))) (db, w1))"
    by (rule settled_step [OF assms(1), where a = ?a])
      (use 2 assms(2) find_outbox_id [OF assms(2)] in
        \<open>auto simp: record_failure_def transaction_def Let_def find_outbox_update\<close>)
  then show ?thesis by (simp add: fail_call_def 1)
qed

lemma settled_after_sink:
  assumes "sink act" "outbox_ok db" "find_outbox i db = Some r" "act (db, w) = (out, s1)"
    and "\<And>db1 w1. s1 = (db1, w1) \<Longrightarrow> outbox_ok db1 \<Longrightarrow> find_outbox i db1 = Some r \<Longrightarrow> settled db1 i statuses res"
  shows "settled db i statuses res"
proof -
  obtain db1 w1 where s1: "s1 = (db1, w1)" by (cases s1)
  have "outbox_ok db1" and keep: "find_outbox j db = Some x \<Longrightarrow> find_outbox j db1 = Some x" for j x
    using sink.act_ok [OF assms(1,2)] sink.act_keeps [OF assms(1,2)] assms(4) s1 by blast+
  with assms(3,5) s1 have "settled db1 i statuses res" by blast
  with keep show ?thesis unfolding settled_def by blast
qed

definition settled_statuses :: "string set" where
  "settled_statuses = {''delivered'', ''pending'', ''dead_letter'', ''unknown''}"

lemma settled_any:
  "settled db i {''delivered''} res \<Longrightarrow> settled db i settled_statuses res"
  "settled db i {''unknown''} res \<Longrightarrow> settled db i settled_statuses res"
  "settled db i {''pending'', ''dead_letter''} res \<Longrightarrow> settled db i settled_statuses res"
  by (auto elim!: settled_mono simp: settled_statuses_def)

lemmas settled_calls = settled_any(1) [OF settled_delivered] settled_any(2) [OF settled_unknown]
  settled_any(3) [OF settled_fail]

lemma reconcile_settled:
  assumes "sink (reconcile disp row)" "outbox_ok db" "find_outbox i db = Some r"
    and "\<And>out db1 w1. reconcile disp row (db, w) = (out, db1, w1) \<Longrightarrow> outbox_ok db1 \<Longrightarrow> find_outbox i db1 = Some r \<Longrightarrow>
      settled db1 i statuses (k out (db1, w1))"
  shows "settled db i statuses (case reconcile disp row (db, w) of (out, s1) \<Rightarrow> k out s1)"
proof -
  obtain out s1 where "reconcile disp row (db, w) = (out, s1)" by (cases "reconcile disp row (db, w)")
  then show ?thesis
    using assms(4) by (auto intro!: settled_after_sink [OF assms(1,2,3)])
qed


lemma attempt_settled:
  assumes "well_behaved disp" "outbox_ok db" "find_outbox i db = Some r" "ob_status r = ''in_flight''"
  shows "settled db i settled_statuses (attempt_dispatch clock cfg disp i row (db, w))"
proof -
  have sinks: "sink (dispatch disp row)" "sink (reconcile disp row)" using assms(1) by (simp_all add: well_behaved_def)
  obtain out s1 where out: "dispatch disp row (db, w) = (out, s1)" by (cases "dispatch disp row (db, w)")
  show ?thesis
  proof (rule settled_after_sink [OF sinks(1) assms(2,3) out])
    fix db1 w1
    assume s1: "s1 = (db1, w1)" and ok1: "outbox_ok db1" and r1: "find_outbox i db1 = Some r"
    have rec: "settled db1 i settled_statuses (case reconcile disp row (db1, w1) of (out, s2) \<Rightarrow> k out s2)"
      if "\<And>out db2 w2. outbox_ok db2 \<Longrightarrow> find_outbox i db2 = Some r \<Longrightarrow> settled db2 i settled_statuses (k out (db2, w2))"
      for k :: "string + ReconciliationResult \<Rightarrow> database \<times> 'a \<Rightarrow> (drain_error + bool) \<times> database \<times> 'a"
      by (rule reconcile_settled [OF sinks(2) ok1 r1]) (rule that)
    show "settled db1 i settled_statuses (attempt_dispatch clock cfg disp i row (db, w))"
      using ok1 r1 assms(4)
      by (auto simp: attempt_dispatch_def out s1 split: sum.splits DispatchError.splits DeliverySafety.splits
          intro!: rec settled_calls split: ReconciliationResult.splits)
  qed
qed

lemma deliver_settled:
  assumes "well_behaved disp" "outbox_ok db" "find_outbox i db = Some r" "ob_status r = ''in_flight''"
  shows "settled db i settled_statuses (deliver_row clock cfg disp i row (db, w))"
proof -
  have "sink (reconcile disp row)" using assms(1) by (simp add: well_behaved_def)
  note rec = reconcile_settled [OF this assms(2,3)]
  show ?thesis
    using assms
    by (auto simp: deliver_row_def intro!: rec settled_calls attempt_settled
        split: DeliverySafety.splits sum.splits ReconciliationResult.splits)
qed

lemma drain_row_settled:
  assumes "\<And>k disp. registry k = Some disp \<Longrightarrow> well_behaved disp"
    and "outbox_ok db" "find_outbox i db = Some r" "claimable now_ts r" "o_id row = Some i"
  shows "settled db i settled_statuses (drain_row clock registry cfg pid now_ts row (db, w))"
proof -
  let ?owner = "''relay:'' @ show_nat pid @ '':'' @ show_int now_ts"
  obtain db1 where claim: "claim_with_lease i ?owner now_ts 120 db = (Inr True, db1)"
    and r1: "find_outbox i db1 = Some (leased ?owner (lease_until now_ts 120) r)"
    using claim_granted [OF assms(2-4)] by blast
  then have db1: "db1 = outbox_step db (ClaimWithLease i ?owner now_ts 120)" by simp
  have ok1: "outbox_ok db1" unfolding db1 by (rule outbox_change_ok [OF step_change assms(2)])
  have st: "ob_status (leased ?owner (lease_until now_ts 120) r) = ''in_flight''" by (simp add: leased_def)
  have "settled db1 i settled_statuses (drain_row clock registry cfg pid now_ts row (db, w))"
  proof (cases "registry (o_effect_kind row)")
    case None
    obtain now w1 where 1: "clock w = (now, w1)" by (cases "clock w")
    obtain now' w2 where 2: "clock w1 = (now', w2)" by (cases "clock w1")
    let ?a = "RecordFailure now now' i (''no dispatcher for '' @ [CHR 0x27] @ o_effect_kind row @ [CHR 0x27]) 1 0"
    have "\<exists>r'. find_outbox i (outbox_step db1 ?a) = Some r' \<and> ob_status r' \<in> settled_statuses"
      using r1 find_outbox_id [OF r1]
      by (auto simp: record_failure_def transaction_def Let_def find_outbox_update settled_statuses_def)
    then show ?thesis
      using None claim assms(5) 1 2 step_other_row [of ?a] outbox_change_ok [OF step_change ok1, of ?a]
      by (auto simp: drain_row_def settled_def)
  next
    case (Some disp)
    then have "drain_row clock registry cfg pid now_ts row (db, w) = deliver_row clock cfg disp i row (db1, w)"
      using claim assms(5) by (simp add: drain_row_def)
    with deliver_settled [OF assms(1) [OF Some] ok1 r1 st] show ?thesis by simp
  qed
  moreover have "find_outbox j db1 = Some x" if "j \<noteq> i" "find_outbox j db = Some x" for j x
    unfolding db1 by (rule step_other_row) (use that in simp_all)
  ultimately show ?thesis unfolding settled_def by blast
qed


section \<open>A whole pass\<close>

lemma drain_rows_settled:
  assumes "\<And>k disp. registry k = Some disp \<Longrightarrow> well_behaved disp"
    and "outbox_ok db" "distinct (map ob_id rs)"
    and "\<And>r. r \<in> set rs \<Longrightarrow> find_outbox (ob_id r) db = Some r \<and> claimable now_ts r"
  shows "\<exists>n db' w'. drain_rows clock registry cfg pid now_ts (map row_to_outbox rs) m (db, w) = (Inr n, db', w') \<and>
    outbox_ok db' \<and> (\<forall>r \<in> set rs. \<exists>r'. find_outbox (ob_id r) db' = Some r' \<and> ob_status r' \<in> settled_statuses) \<and>
    (\<forall>j r. j \<notin> ob_id ` set rs \<longrightarrow> find_outbox j db = Some r \<longrightarrow> find_outbox j db' = Some r)"
  using assms(2-4)
proof (induction rs arbitrary: db w m)
  case Nil
  then show ?case by simp
next
  case (Cons r rs)
  have id: "o_id (row_to_outbox r) = Some (ob_id r)" by (simp add: row_to_outbox_def)
  have "settled db (ob_id r) settled_statuses (drain_row clock registry cfg pid now_ts (row_to_outbox r) (db, w))"
    using Cons.prems by (intro drain_row_settled [OF assms(1) _ _ _ id, where r = r]) simp_all
  then obtain b db1 w1 r1 where 1: "drain_row clock registry cfg pid now_ts (row_to_outbox r) (db, w) = (Inr b, db1, w1)"
    "outbox_ok db1" "find_outbox (ob_id r) db1 = Some r1" "ob_status r1 \<in> settled_statuses"
    and keep: "\<And>j x. j \<noteq> ob_id r \<Longrightarrow> find_outbox j db = Some x \<Longrightarrow> find_outbox j db1 = Some x"
    unfolding settled_def by blast
  have "find_outbox (ob_id x) db1 = Some x \<and> claimable now_ts x" if "x \<in> set rs" for x
    using that Cons.prems(2) Cons.prems(3) [of x] keep [of "ob_id x" x] by (auto simp: image_iff)
  with Cons.IH [OF 1(2), of "if b then m + 1 else m" w1] Cons.prems(2) obtain n db' w' where 2:
    "drain_rows clock registry cfg pid now_ts (map row_to_outbox rs) (if b then m + 1 else m) (db1, w1) = (Inr n, db', w')"
    "outbox_ok db'" "\<forall>r \<in> set rs. \<exists>r'. find_outbox (ob_id r) db' = Some r' \<and> ob_status r' \<in> settled_statuses"
    "\<forall>j r. j \<notin> ob_id ` set rs \<longrightarrow> find_outbox j db1 = Some r \<longrightarrow> find_outbox j db' = Some r"
    by auto
  have "find_outbox (ob_id r) db' = Some r1" using 1(3) 2(4) Cons.prems(2) by auto
  with 1 2 keep show ?case by auto
qed

lemma listed_rows:
  assumes "outbox_ok db"
  obtains rs where "ready_pending now_ts limit db = map row_to_outbox rs" "distinct (map ob_id rs)"
    "\<And>r. r \<in> set rs \<Longrightarrow> find_outbox (ob_id r) db = Some r \<and> is_ready now_ts r"
proof -
  let ?rs = "sql_limit limit (sort_key ob_id (filter (is_ready now_ts) (state_outbox db)))"
  have sub: "set ?rs \<subseteq> set (filter (is_ready now_ts) (state_outbox db))"
    by (auto simp: sql_limit_def dest: in_set_takeD)
  have d: "distinct (map ob_id (state_outbox db))" using assms by (simp add: outbox_ok_def)
  then have "distinct (map ob_id (sort_key ob_id (filter (is_ready now_ts) (state_outbox db))))"
    by (auto simp: distinct_map intro: inj_on_subset)
  then have dist: "distinct (map ob_id ?rs)"
    by (auto simp: sql_limit_def take_map [symmetric])
  show ?thesis
  proof (rule that [of ?rs])
    show "ready_pending now_ts limit db = map row_to_outbox ?rs" by (simp add: ready_pending_def)
    show "find_outbox (ob_id r) db = Some r \<and> is_ready now_ts r" if "r \<in> set ?rs" for r
      using that sub find_outbox_iff [OF assms] by auto
  qed (rule dist)
qed

text \<open>
  C7: A pass of the drain loop runs to the end and settles what it lists. With dispatchers that leave
  existing outbox rows alone, it reports no error, keeps the store's invariant, leaves every row it listed
  delivered, pending, dead-lettered or unknown, never in flight, and leaves every other row as it was.
\<close>

theorem drain_once_settles:
  assumes "outbox_ok db" "\<forall>disp \<in> ran registry. well_behaved disp" "clock w = (now_ts, w1)"
  shows "\<exists>n db' w'. drain_once clock registry cfg pid (db, w) = (Inr n, db', w') \<and> outbox_ok db' \<and>
    (\<forall>row \<in> set (ready_pending now_ts (batch_size cfg) db).
       \<exists>r'. find_outbox (the (o_id row)) db' = Some r' \<and> ob_status r' \<in> {''delivered'', ''pending'', ''dead_letter'', ''unknown''}) \<and>
    (\<forall>j r. Some j \<notin> o_id ` set (ready_pending now_ts (batch_size cfg) db) \<longrightarrow>
       find_outbox j db = Some r \<longrightarrow> find_outbox j db' = Some r)"
proof -
  obtain rs where rs: "ready_pending now_ts (batch_size cfg) db = map row_to_outbox rs" "distinct (map ob_id rs)"
    "\<And>r. r \<in> set rs \<Longrightarrow> find_outbox (ob_id r) db = Some r \<and> is_ready now_ts r"
    by (rule listed_rows [OF assms(1), of now_ts "batch_size cfg"]) (rule that)
  have "find_outbox (ob_id r) db = Some r \<and> claimable now_ts r" if "r \<in> set rs" for r
    using rs(3) [OF that] by (auto simp: is_ready_def claimable_def)
  moreover have "well_behaved disp" if "registry k = Some disp" for k disp using assms(2) that by (meson ranI)
  ultimately have "\<exists>n db' w'. drain_rows clock registry cfg pid now_ts (map row_to_outbox rs) 0 (db, w1) = (Inr n, db', w') \<and>
    outbox_ok db' \<and> (\<forall>r \<in> set rs. \<exists>r'. find_outbox (ob_id r) db' = Some r' \<and> ob_status r' \<in> settled_statuses) \<and>
    (\<forall>j r. j \<notin> ob_id ` set rs \<longrightarrow> find_outbox j db = Some r \<longrightarrow> find_outbox j db' = Some r)"
    using assms(1) rs(2) by (intro drain_rows_settled)
  then show ?thesis
    using assms(3) by (auto simp: drain_once_def rs(1) row_to_outbox_def settled_statuses_def image_iff)
qed

definition tick :: "int \<Rightarrow> int \<times> int" where
  "tick w = (w, w + 1)"

definition ok_sink :: "int Dispatcher" where
  "ok_sink = \<lparr>effect_kind = ''transport.send'', delivery_safety = NoGuarantee,
     dispatch = (\<lambda>row (db, w). (Inr \<lparr>external_receipt = Some ''ack''\<rparr>, db, w + 7)), reconcile = default_reconcile\<rparr>"

lemma ok_sink_well_behaved: "well_behaved ok_sink"
  by (auto simp: well_behaved_def ok_sink_def default_sink.sink_axioms intro: sink.intro)

theorem drain_once_settles_witness:
  "\<exists>n db' w'. drain_once tick (register ok_sink (\<lambda>_. None)) DrainConfig_default 42 (sample_outbox, 6) = (Inr n, db', w') \<and>
     (\<exists>r'. find_outbox 1 db' = Some r' \<and> ob_status r' \<in> {''delivered'', ''pending'', ''dead_letter'', ''unknown''})"
proof -
  have ok: "outbox_ok sample_outbox" by code_simp
  have reg: "\<forall>disp \<in> ran (register ok_sink (\<lambda>_. None)). well_behaved disp"
    by (simp add: register_def ok_sink_well_behaved)
  have clock: "tick 6 = (6, 7)" by (simp add: tick_def)
  have "\<exists>row \<in> set (ready_pending 6 (batch_size DrainConfig_default) sample_outbox). o_id row = Some 1" by code_simp
  with drain_once_settles [where clock = tick, OF ok reg clock, of DrainConfig_default 42] show ?thesis by force
qed


section \<open>Retries\<close>

text \<open>
  What this attempt of the row has shown, from the state \<open>s\<close> in which it starts: the sink refused the effect; or the outcome
  is open and the sink either deduplicates by the idempotency key, or was asked, after this dispatch, and
  denied the delivery.
\<close>

definition repeat_is_safe :: "'w Dispatcher \<Rightarrow> OutboxRow \<Rightarrow> database \<times> 'w \<Rightarrow> bool" where
  "repeat_is_safe disp row s \<longleftrightarrow> (case dispatch disp row s of
     (Inr receipt, s1) \<Rightarrow> False
   | (Inl (NotAccepted err), s1) \<Rightarrow> True
   | (Inl (OutcomeUnknown err), s1) \<Rightarrow> delivery_safety disp = IdempotencyKey \<or>
       (delivery_safety disp = StatusLookup \<and> fst (reconcile disp row s1) = Inr NotDelivered))"

text \<open>
  The state in which a claimed row is dispatched, when it is: a row whose earlier attempt is still open
  only when the sink deduplicates, or after the sink has denied that earlier delivery.
\<close>

definition dispatch_state :: "'w Dispatcher \<Rightarrow> OutboxRow \<Rightarrow> database \<times> 'w \<Rightarrow> (database \<times> 'w) option" where
  "dispatch_state disp row s =
     (if o_status row \<noteq> InFlight \<or> delivery_safety disp = IdempotencyKey then Some s
      else if delivery_safety disp = StatusLookup \<and> fst (reconcile disp row s) = Inr NotDelivered
      then Some (snd (reconcile disp row s))
      else None)"

definition final_statuses :: "string set" where
  "final_statuses = {''delivered'', ''unknown''}"

definition retry_statuses :: "bool \<Rightarrow> string set" where
  "retry_statuses safe = (if safe then {''pending'', ''dead_letter''} else final_statuses)"

lemma no_retry: "retry_statuses False = final_statuses"
  by (simp add: retry_statuses_def)

lemma settled_final:
  "settled db i {''delivered''} res \<Longrightarrow> settled db i final_statuses res"
  "settled db i {''unknown''} res \<Longrightarrow> settled db i final_statuses res"
  by (auto elim!: settled_mono simp: final_statuses_def)

lemmas settled_final_calls = settled_final(1) [OF settled_delivered] settled_final(2) [OF settled_unknown]

lemma attempt_outcome:
  assumes "well_behaved disp" "outbox_ok db" "find_outbox i db = Some r" "ob_status r = ''in_flight''"
  shows "settled db i (retry_statuses (repeat_is_safe disp row (db, w))) (attempt_dispatch clock cfg disp i row (db, w))"
proof -
  have sinks: "sink (dispatch disp row)" "sink (reconcile disp row)" using assms(1) by (simp_all add: well_behaved_def)
  obtain out s1 where out: "dispatch disp row (db, w) = (out, s1)" by (cases "dispatch disp row (db, w)")
  show ?thesis
  proof (rule settled_after_sink [OF sinks(1) assms(2,3) out])
    fix db1 w1
    assume s1: "s1 = (db1, w1)" and ok1: "outbox_ok db1" and r1: "find_outbox i db1 = Some r"
    note step = attempt_dispatch_def repeat_is_safe_def retry_statuses_def out s1
    show "settled db1 i (retry_statuses (repeat_is_safe disp row (db, w))) (attempt_dispatch clock cfg disp i row (db, w))"
    proof (cases "\<exists>err. out = Inl (OutcomeUnknown err) \<and> delivery_safety disp = StatusLookup")
      case True
      obtain found s2 where rec: "reconcile disp row (db1, w1) = (found, s2)"
        by (cases "reconcile disp row (db1, w1)")
      show ?thesis
      proof (rule settled_after_sink [OF sinks(2) ok1 r1 rec])
        fix db2 w2
        assume "s2 = (db2, w2)" "outbox_ok db2" "find_outbox i db2 = Some r"
        with True assms(4)
        show "settled db2 i (retry_statuses (repeat_is_safe disp row (db, w))) (attempt_dispatch clock cfg disp i row (db, w))"
          by (auto simp: step rec split: sum.split ReconciliationResult.split intro!: settled_final_calls settled_fail)
      qed
    next
      case False
      with assms(4) ok1 r1 show ?thesis
        by (auto simp: step split: sum.split DispatchError.split DeliverySafety.split intro!: settled_final_calls settled_fail)
    qed
  qed
qed

lemma deliver_outcome:
  assumes "well_behaved disp" "outbox_ok db" "find_outbox i db = Some r" "ob_status r = ''in_flight''"
  shows "settled db i (retry_statuses (case dispatch_state disp row (db, w) of
      Some s \<Rightarrow> repeat_is_safe disp row s | None \<Rightarrow> False)) (deliver_row clock cfg disp i row (db, w))"
proof (cases "o_status row = InFlight \<and> delivery_safety disp = StatusLookup")
  case True
  have sink: "sink (reconcile disp row)" using assms(1) by (simp add: well_behaved_def)
  obtain found s2 where rec: "reconcile disp row (db, w) = (found, s2)"
    by (cases "reconcile disp row (db, w)")
  show ?thesis
  proof (rule settled_after_sink [OF sink assms(2,3) rec])
    fix db2 w2
    assume "s2 = (db2, w2)" "outbox_ok db2" "find_outbox i db2 = Some r"
    with True assms(1,4) show "settled db2 i (retry_statuses (case dispatch_state disp row (db, w) of
        Some s \<Rightarrow> repeat_is_safe disp row s | None \<Rightarrow> False)) (deliver_row clock cfg disp i row (db, w))"
      by (auto simp: deliver_row_def dispatch_state_def no_retry rec split: sum.split ReconciliationResult.split
          intro!: settled_final_calls attempt_outcome)
  qed
next
  case False
  with assms show ?thesis
    by (auto simp: deliver_row_def dispatch_state_def no_retry split: DeliverySafety.split
        intro!: settled_final_calls attempt_outcome)
qed

text \<open>
  C8: The relay puts a claimed effect back for another attempt, or gives it up as a dead letter, exactly when this
  very attempt has shown that to be safe: in the state in which the effect was dispatched the sink refused it, or left the outcome
  open and deduplicates by the idempotency key, or left it open and its status lookup right after
  said that nothing was delivered. An effect found in flight after an expired lease is dispatched at all only to a sink that
  deduplicates, or once the status lookup has denied the earlier delivery. In all other cases the row ends delivered or unknown.
  An effect of a kind without a dispatcher is never sent: no sink runs, the clock is read twice, and the
  row becomes a dead letter (pending, if the count of attempts wraps to 0 in 32 bits). The dispatchers leave existing outbox rows alone.
\<close>

theorem retry_only_when_safe:
  assumes "outbox_ok db" "\<forall>disp \<in> ran registry. well_behaved disp"
    and "find_outbox i db = Some r" "claimable now_ts r" "o_id row = Some i"
    and "db1 = snd (claim_with_lease i (''relay:'' @ show_nat pid @ '':'' @ show_int now_ts) now_ts 120 db)"
    and "drain_row clock registry cfg pid now_ts row (db, w) = (res, db', w')"
  shows "\<exists>r'. find_outbox i db' = Some r' \<and> (case registry (o_effect_kind row) of
      Some disp \<Rightarrow>
        if (case dispatch_state disp row (db1, w) of Some s \<Rightarrow> repeat_is_safe disp row s | None \<Rightarrow> False)
        then ob_status r' \<in> {''pending'', ''dead_letter''} else ob_status r' \<in> {''delivered'', ''unknown''}
    | None \<Rightarrow> w' = snd (clock (snd (clock w))) \<and>
        ob_status r' = (if as_u32 (ob_attempts r + 1) = 0 then ''pending'' else ''dead_letter''))"
proof -
  let ?owner = "''relay:'' @ show_nat pid @ '':'' @ show_int now_ts"
  have claim: "claim_with_lease i ?owner now_ts 120 db = (Inr True, db1)"
    and r1: "find_outbox i db1 = Some (leased ?owner (lease_until now_ts 120) r)"
    using claim_granted [OF assms(1,3,4), of ?owner 120] unfolding assms(6) by auto
  have ok1: "outbox_ok db1" unfolding assms(6) by (rule outbox_change_ok [OF claim_change assms(1)])
  have st: "ob_status (leased ?owner (lease_until now_ts 120) r) = ''in_flight''" by (simp add: leased_def)
  show ?thesis
  proof (cases "registry (o_effect_kind row)")
    case None
    obtain now w1 where 1: "clock w = (now, w1)" by (cases "clock w")
    obtain now' w2 where 2: "clock w1 = (now', w2)" by (cases "clock w1")
    from assms(7) have "db' = snd (record_failure now now' i (''no dispatcher for '' @ [CHR 0x27] @ o_effect_kind row @ [CHR 0x27]) 1 0 db1)"
      and "w' = w2" using None claim assms(5) by (simp_all add: drain_row_def 1 2)
    with None r1 find_outbox_id [OF r1] 1 2 show ?thesis
      by (simp add: record_failure_def transaction_def Let_def find_outbox_update leased_def)
  next
    case (Some disp)
    have wb: "well_behaved disp" using assms(2) Some by (meson ranI)
    have "deliver_row clock cfg disp i row (db1, w) = (res, db', w')"
      using claim assms(5,7) Some by (simp add: drain_row_def)
    with deliver_outcome [OF wb ok1 r1 st, of row w clock cfg] Some show ?thesis
      by (auto simp: settled_def retry_statuses_def final_statuses_def)
  qed
qed

definition busy_sink :: "int Dispatcher" where
  "busy_sink = ok_sink\<lparr>dispatch := (\<lambda>row (db, w). (Inl (NotAccepted ''busy''), db, w + 7))\<rparr>"

lemma busy_sink_well_behaved: "well_behaved busy_sink"
  by (auto simp: well_behaved_def busy_sink_def ok_sink_def default_sink.sink_axioms intro: sink.intro)

theorem retry_only_when_safe_witness:
  "\<exists>res db' w' r'. drain_row tick (register busy_sink (\<lambda>_. None)) DrainConfig_default 42 6 (hd (ready_pending 6 5 sample_outbox))
      (sample_outbox, 6) = (res, db', w') \<and> find_outbox 1 db' = Some r' \<and> ob_status r' \<in> {''pending'', ''dead_letter''}"
proof -
  let ?row = "hd (ready_pending 6 5 sample_outbox)" and ?reg = "register busy_sink (\<lambda>_. None)"
  let ?res = "drain_row tick ?reg DrainConfig_default 42 6 ?row (sample_outbox, 6)"
  have ok: "outbox_ok sample_outbox" by code_simp
  have reg: "\<forall>disp \<in> ran ?reg. well_behaved disp" by (simp add: register_def busy_sink_well_behaved)
  have r: "find_outbox 1 sample_outbox = Some (the (find_outbox 1 sample_outbox))" by code_simp
  have c: "claimable 6 (the (find_outbox 1 sample_outbox))" by code_simp
  have i: "o_id ?row = Some 1" by code_simp
  have st: "o_status ?row = Pending" by code_simp
  have "o_effect_kind ?row = ''transport.send''" by code_simp
  then have k: "?reg (o_effect_kind ?row) = Some busy_sink" by (simp add: register_def busy_sink_def ok_sink_def)
  have split: "?res = (fst ?res, fst (snd ?res), snd (snd ?res))" by simp
  have safe: "repeat_is_safe busy_sink ?row s" for s
    by (cases s) (simp add: repeat_is_safe_def busy_sink_def)
  have "\<exists>r'. find_outbox 1 (fst (snd ?res)) = Some r' \<and> ob_status r' \<in> {''pending'', ''dead_letter''}"
    using retry_only_when_safe [OF ok reg r c i refl split] by (simp add: k safe dispatch_state_def st)
  with split show ?thesis by blast
qed


text \<open>
  An effect that was in flight when its lease expired is never sent again to a sink that
  offers no guarantee: the pass behaves the same whatever the sink's \<open>dispatch\<close> would do, and the row becomes
  unknown, for an operator to resolve.
\<close>

theorem expired_no_guarantee_is_not_resent:
  assumes "outbox_ok db" "find_outbox i db = Some r" "ob_status r = ''in_flight''" "claimable now_ts r"
    and "registry (ob_effect_kind r) = Some disp" "delivery_safety disp = NoGuarantee"
  shows "drain_row clock (registry(ob_effect_kind r \<mapsto> disp\<lparr>dispatch := any_dispatch\<rparr>)) cfg pid now_ts (row_to_outbox r) (db, w) =
      drain_row clock registry cfg pid now_ts (row_to_outbox r) (db, w) \<and>
    settled db i {''unknown''} (drain_row clock registry cfg pid now_ts (row_to_outbox r) (db, w))"
proof -
  let ?owner = "''relay:'' @ show_nat pid @ '':'' @ show_int now_ts"
  have row: "o_id (row_to_outbox r) = Some i" "o_effect_kind (row_to_outbox r) = ob_effect_kind r"
    "o_status (row_to_outbox r) = InFlight"
    using find_outbox_id [OF assms(2)] assms(3) by (simp_all add: row_to_outbox_def OutboxStatus_parse_def)
  obtain db1 where claim: "claim_with_lease i ?owner now_ts 120 db = (Inr True, db1)"
    and r1: "find_outbox i db1 = Some (leased ?owner (lease_until now_ts 120) r)"
    using claim_granted [OF assms(1,2,4)] by blast
  then have db1: "db1 = outbox_step db (ClaimWithLease i ?owner now_ts 120)" by simp
  have ok1: "outbox_ok db1" unfolding db1 by (rule outbox_change_ok [OF step_change assms(1)])
  have eq: "drain_row clock reg cfg pid now_ts (row_to_outbox r) (db, w) =
      store_call ''mark expired no-guarantee effect unknown'' clock (\<lambda>now. mark_unknown now i expired_reason) (db1, w)"
    if "reg (ob_effect_kind r) = Some d" "delivery_safety d = NoGuarantee" for reg and d :: "'a Dispatcher"
    using claim row that by (simp add: drain_row_def deliver_row_def)
  have "settled db1 i {''unknown''} (drain_row clock registry cfg pid now_ts (row_to_outbox r) (db, w))"
    unfolding eq [of registry, OF assms(5,6)] by (rule settled_unknown [OF ok1 r1]) (simp add: leased_def)
  moreover have "find_outbox j db1 = Some x" if "j \<noteq> i" "find_outbox j db = Some x" for j x
    unfolding db1 by (rule step_other_row) (use that in simp_all)
  ultimately have "settled db i {''unknown''} (drain_row clock registry cfg pid now_ts (row_to_outbox r) (db, w))"
    unfolding settled_def by blast
  moreover have "drain_row clock (registry(ob_effect_kind r \<mapsto> disp\<lparr>dispatch := any_dispatch\<rparr>)) cfg pid now_ts (row_to_outbox r) (db, w) =
      drain_row clock registry cfg pid now_ts (row_to_outbox r) (db, w)"
    using eq [of registry, OF assms(5,6)] eq [of "registry(ob_effect_kind r \<mapsto> disp\<lparr>dispatch := any_dispatch\<rparr>)" "disp\<lparr>dispatch := any_dispatch\<rparr>"]
      assms(6) by simp
  ultimately show ?thesis by simp
qed

definition crashed_outbox :: database where
  "crashed_outbox = outbox_step sample_outbox (ClaimWithLease 1 ''gone'' 6 30)"

theorem expired_no_guarantee_is_not_resent_witness:
  "settled crashed_outbox 1 {''unknown''} (drain_row tick (register ok_sink (\<lambda>_. None)) DrainConfig_default 42 99
     (row_to_outbox (the (find_outbox 1 crashed_outbox))) (crashed_outbox, 99))"
proof -
  let ?r = "the (find_outbox 1 crashed_outbox)"
  have ok: "outbox_ok crashed_outbox" by code_simp
  have r: "find_outbox 1 crashed_outbox = Some ?r" by code_simp
  have st: "ob_status ?r = ''in_flight''" by code_simp
  have c: "claimable 99 ?r" by code_simp
  have "ob_effect_kind ?r = ''transport.send''" by code_simp
  then have k: "register ok_sink (\<lambda>_. None) (ob_effect_kind ?r) = Some ok_sink" by (simp add: register_def ok_sink_def)
  have safety: "delivery_safety ok_sink = NoGuarantee" by (simp add: ok_sink_def)
  show ?thesis
    using expired_no_guarantee_is_not_resent [where registry = "register ok_sink (\<lambda>_. None)", OF ok r st c k safety] by blast
qed

section \<open>Backoff\<close>

text \<open>
  The backoff is one second doubled per attempt and capped at ten minutes: no 64-bit operation
  overflows, it never decreases with the attempt, it lies between one second and ten minutes, and
  it is exactly the doubled value until the cap.
\<close>

theorem exp_backoff_schedule:
  "exp_backoff n = min (1000 * 2 ^ n) 600000 \<and> 1000 \<le> exp_backoff n \<and> exp_backoff n \<le> 600000 \<and>
   (m \<le> n \<longrightarrow> exp_backoff m \<le> exp_backoff n)"
proof -
  have pow: "(2::int) ^ k \<le> 2 ^ 15" if "k \<le> 15" for k :: nat using that by (intro power_increasing) simp_all
  have eq: "exp_backoff k = min (1000 * 2 ^ k) 600000" for k :: nat
  proof (cases "k \<le> 15")
    case True
    with pow [OF True] show ?thesis by (simp add: exp_backoff_def Let_def min_def)
  next
    case False
    then have "(2::int) ^ 15 \<le> 2 ^ k" by (intro power_increasing) simp_all
    then show ?thesis using False by (simp add: exp_backoff_def Let_def min_def)
  qed
  have "(1::int) \<le> 2 ^ n" by simp
  moreover have "m \<le> n \<Longrightarrow> (2::int) ^ m \<le> 2 ^ n" by (intro power_increasing) simp_all
  ultimately show ?thesis unfolding eq by (auto simp: min_le_iff_disj)
qed

theorem exp_backoff_schedule_witness: "exp_backoff 3 \<le> exp_backoff 5 \<and> exp_backoff 5 = 32000"
  using exp_backoff_schedule [of 5 3] by simp

section \<open>Overlapping passes\<close>

text \<open>
  A pass leases every row from the time at which it started. Here one pass lists two effects at
  time 0 and is held up for 160 seconds by the first; a second pass lists the second effect as pending at time
  150. When the first pass now claims the second effect, its lease ends at 120, before the second
  pass started, so the claim of the second pass succeeds as well. It holds the row as pending, and sends it
  without the check for expired leases: both passes dispatch the effect (the sink moves the world by 7).
\<close>

definition two_effects :: database where
  "two_effects = outbox_step sample_outbox (Enqueue 5 (sample_row ''c:1:1'' ''second''))"

definition first_pass_claims :: database where
  "first_pass_claims = snd (claim_with_lease 2 ''relay:1:0'' 0 120 (snd (claim_with_lease 1 ''relay:1:0'' 0 120 two_effects)))"

text \<open>
  Two overlapping passes of the drain loop can both dispatch one effect: a pass claims every row with a lease counted
  from the start of the pass, so a row it reaches late gets a lease that has already ended, and a second pass that
  listed the row while it was pending claims it as well and sends it again.
\<close>

theorem overlapping_passes_both_dispatch:
  "map o_id (ready_pending 0 32 two_effects) = [Some 1, Some 2] \<and>
   map (\<lambda>row. (o_id row, o_status row)) (ready_pending 150 32 (snd (claim_with_lease 1 ''relay:1:0'' 0 120 two_effects))) =
     [(Some 1, InFlight), (Some 2, Pending)] \<and>
   fst (claim_with_lease 2 ''relay:1:0'' 0 120 (snd (claim_with_lease 1 ''relay:1:0'' 0 120 two_effects))) = Inr True \<and>
   fst (claim_with_lease 2 ''relay:2:150'' 150 120 first_pass_claims) = Inr True \<and>
   snd (snd (drain_row tick (register ok_sink (\<lambda>_. None)) DrainConfig_default 2 150
     (ready_pending 150 32 (snd (claim_with_lease 1 ''relay:1:0'' 0 120 two_effects)) ! 1) (first_pass_claims, 170))) = 170 + 7 + 1"
  by code_simp

end
