(* ===== verification/Information_Store.thy ===== *)
theory Information_Store
  imports Db Information
begin

text \<open>
  The store of information labels (\<open>crates/core/src/information_store.rs\<close>): an append-only history of labels per subject, the
  first label of an observed value, the conservative label of a transformed one, and operator declassification.

  The table is the store's state. The fresh event id is an argument; the JSON encoding of a label is a parameter.
\<close>

section \<open>State\<close>

record InformationSubject =
  subject_kind :: string
  subject_id :: string
  subject_sha256 :: string

record label_row =
  le_event_id :: string
  le_subject_kind :: string
  le_subject_id :: string
  le_content_sha256 :: string
  le_operation :: string
  le_label_json :: string
  le_actor_id :: string
  le_scope :: "string option"
  le_created_at :: int

record label_json =
  label_to_string :: "InformationLabel \<Rightarrow> string"
  label_from_str :: "string \<Rightarrow> InformationLabel option"

text \<open>\<open>collect::<Result<Vec<_>, _>>()\<close> and \<open>collect::<Option<Vec<_>>>()\<close>.\<close>

fun collect_results :: "('e + 'a) list \<Rightarrow> 'e + 'a list" where
  "collect_results [] = Inr []"
| "collect_results (Inl e # rs) = Inl e"
| "collect_results (Inr x # rs) = (case collect_results rs of Inl e \<Rightarrow> Inl e | Inr xs \<Rightarrow> Inr (x # xs))"

fun collect_options :: "'a option list \<Rightarrow> 'a list option" where
  "collect_options [] = Some []"
| "collect_options (None # rs) = None"
| "collect_options (Some x # rs) = map_option ((#) x) (collect_options rs)"

lemma collect_results_map_Inr [simp]: "collect_results (map Inr xs) = Inr xs"
  by (induction xs) simp_all

lemma collect_results_Inr: "collect_results rs = Inr xs \<longleftrightarrow> rs = map Inr xs"
proof
  show "collect_results rs = Inr xs \<Longrightarrow> rs = map Inr xs"
    by (induction rs arbitrary: xs rule: collect_results.induct) (auto split: sum.splits)
qed simp

lemma collect_options_Some: "collect_options rs = Some xs \<longleftrightarrow> rs = map Some xs"
  by (induction rs arbitrary: xs rule: collect_options.induct) auto

section \<open>Operations\<close>

definition is_ascii_hexdigit :: "char \<Rightarrow> bool" where
  "is_ascii_hexdigit c \<longleftrightarrow> byte_in 0x30 0x39 c \<or> byte_in 0x41 0x46 c \<or> byte_in 0x61 0x66 c"

definition validate_subject :: "InformationSubject \<Rightarrow> DbError + unit" where
  "validate_subject sub =
     (if rust_trim (subject_kind sub) = [] \<or> 64 < length (subject_kind sub) \<or> rust_trim (subject_id sub) = [] \<or>
         256 < length (subject_id sub) \<or> length (subject_sha256 sub) \<noteq> 64 \<or> \<not> list_all is_ascii_hexdigit (subject_sha256 sub)
      then Inl (Invariant ''information subject is invalid'') else Inr ())"

definition validate_label_actor :: "string \<Rightarrow> DbError + unit" where
  "validate_label_actor actor_id =
     (if rust_trim actor_id = [] \<or> 128 < length actor_id then Inl (Invariant ''information label actor is invalid'') else Inr ())"

definition of_subject :: "InformationSubject \<Rightarrow> label_row \<Rightarrow> bool" where
  "of_subject sub r \<longleftrightarrow> le_subject_kind r = subject_kind sub \<and> le_subject_id r = subject_id sub \<and>
     le_content_sha256 r = subject_sha256 sub"

text \<open>\<open>append_event\<close>: the validated subject satisfies the checks of the table; only the key of the event can clash.\<close>

definition append_label_event :: "label_json \<Rightarrow> string \<Rightarrow> InformationSubject \<Rightarrow> string \<Rightarrow> InformationLabel \<Rightarrow> string \<Rightarrow> string option \<Rightarrow> int
   \<Rightarrow> label_row list \<Rightarrow> DbError + unit \<times> label_row list" where
  "append_label_event lj uuid sub operation l actor_id scope at rows =
     (if uuid \<in> le_event_id ` set rows
      then Inl (Sqlite (ConstraintViolation ''UNIQUE constraint failed: state_information_label_events.event_id''))
      else Inr ((), rows @ [\<lparr>le_event_id = uuid, le_subject_kind = subject_kind sub, le_subject_id = subject_id sub,
        le_content_sha256 = subject_sha256 sub, le_operation = operation, le_label_json = label_to_string lj l,
        le_actor_id = actor_id, le_scope = scope, le_created_at = at\<rparr>]))"

definition observe_label :: "label_json \<Rightarrow> string \<Rightarrow> InformationSubject \<Rightarrow> InformationLabel \<Rightarrow> string \<Rightarrow> int
   \<Rightarrow> label_row list \<Rightarrow> (DbError + unit) \<times> label_row list" where
  "observe_label lj uuid sub l actor_id at rows = (case validate_subject sub of Inl e \<Rightarrow> (Inl e, rows) | Inr _ \<Rightarrow>
     (case validate_label_actor actor_id of Inl e \<Rightarrow> (Inl e, rows) | Inr _ \<Rightarrow>
        if sensitivity l < Internal
        then (Inl (Invariant ''observed runtime information cannot be labelled below Internal''), rows)
        else transaction (\<lambda>rows.
          if list_ex (of_subject sub) rows then Inl (Invariant ''information subject already has a label history'')
          else append_label_event lj uuid sub ''observed'' l actor_id None at rows) rows))"

text \<open>The last row of a filter of the table in rowid order.\<close>

definition find_last :: "('r \<Rightarrow> bool) \<Rightarrow> 'r list \<Rightarrow> 'r option" where
  "find_last p rows = find p (rev rows)"

definition decode_label :: "label_json \<Rightarrow> label_row \<Rightarrow> DbError + InformationLabel" where
  "decode_label lj r = (case label_from_str lj (le_label_json r) of
      None \<Rightarrow> Inl (Serde ''decode information label'') | Some l \<Rightarrow> Inr l)"

definition get_label :: "label_json \<Rightarrow> InformationSubject \<Rightarrow> label_row list \<Rightarrow> DbError + InformationLabel option" where
  "get_label lj sub rows = (case validate_subject sub of Inl e \<Rightarrow> Inl e | Inr _ \<Rightarrow>
     (case find_last (of_subject sub) rows of
        None \<Rightarrow> Inr None
      | Some r \<Rightarrow> map_sum id Some (decode_label lj r)))"

definition latest_for_identity :: "label_json \<Rightarrow> string \<Rightarrow> string \<Rightarrow> label_row list
   \<Rightarrow> DbError + (InformationSubject \<times> InformationLabel) option" where
  "latest_for_identity lj k i rows =
     (if rust_trim k = [] \<or> 64 < length k \<or> rust_trim i = [] \<or> 256 < length i
      then Inl (Invariant ''information identity is invalid'')
      else (case find_last (\<lambda>r. le_subject_kind r = k \<and> le_subject_id r = i) rows of
          None \<Rightarrow> Inr None
        | Some r \<Rightarrow> map_sum id (\<lambda>l. Some (\<lparr>subject_kind = k, subject_id = i, subject_sha256 = le_content_sha256 r\<rparr>, l))
            (decode_label lj r)))"

definition transform_label :: "label_json \<Rightarrow> string \<Rightarrow> InformationSubject \<Rightarrow> InformationSubject list \<Rightarrow> string \<Rightarrow> string \<Rightarrow> int
   \<Rightarrow> label_row list \<Rightarrow> (DbError + InformationLabel) \<times> label_row list" where
  "transform_label lj uuid output sources operation actor_id at rows =
     (case validate_subject output of Inl e \<Rightarrow> (Inl e, rows) | Inr _ \<Rightarrow>
     (case validate_label_actor actor_id of Inl e \<Rightarrow> (Inl e, rows) | Inr _ \<Rightarrow>
       if rust_trim operation = [] \<or> 128 < length operation \<or> sources = []
       then (Inl (Invariant ''information transformation needs a bounded operation and source''), rows)
       else (case collect_results (map (\<lambda>src. get_label lj src rows) sources) of Inl e \<Rightarrow> (Inl e, rows) | Inr source_labels \<Rightarrow>
         (case collect_options source_labels of
            None \<Rightarrow> (Inl (Invariant ''information transformation source label is missing''), rows)
          | Some labels \<Rightarrow> (case combine labels operation of
              None \<Rightarrow> (Inl (Invariant ''information transformation has no sources''), rows)
            | Some l \<Rightarrow>
                (case transaction (\<lambda>rows.
                    if list_ex (of_subject output) rows
                    then Inl (Invariant ''transformed information subject already has a label history'')
                    else append_label_event lj uuid output ''transformed'' l actor_id (Some operation) at rows) rows of
                   (Inl e, rows1) \<Rightarrow> (Inl e, rows1)
                 | (Inr _, rows1) \<Rightarrow> (Inr l, rows1)))))))"

definition declassify_label :: "label_json \<Rightarrow> string \<Rightarrow> InformationSubject \<Rightarrow> string \<Rightarrow> string \<Rightarrow> string \<Rightarrow> int
   \<Rightarrow> label_row list \<Rightarrow> (DbError + InformationLabel) \<times> label_row list" where
  "declassify_label lj uuid sub actor_id destination scope at rows =
     (case validate_subject sub of Inl e \<Rightarrow> (Inl e, rows) | Inr _ \<Rightarrow>
     (case validate_label_actor actor_id of Inl e \<Rightarrow> (Inl e, rows) | Inr _ \<Rightarrow>
     (case get_label lj sub rows of
        Inl e \<Rightarrow> (Inl e, rows)
      | Inr None \<Rightarrow> (Inl (Invariant ''information label does not exist''), rows)
      | Inr (Some l) \<Rightarrow> (case declassify actor_id destination scope at l of
          Inl e \<Rightarrow> (Inl (Invariant e), rows)
        | Inr l1 \<Rightarrow> (case transaction (append_label_event lj uuid sub ''declassified'' l1 actor_id (Some scope) at) rows of
            (Inl e, rows1) \<Rightarrow> (Inl e, rows1)
          | (Inr _, rows1) \<Rightarrow> (Inr l1, rows1))))))"

section \<open>The history of a subject\<close>

lemma append_label_event_Inr:
  "append_label_event lj uuid sub operation l actor_id scope at rows = Inr (u, rows') \<Longrightarrow>
   \<exists>r. rows' = rows @ [r] \<and> of_subject sub r \<and> (\<forall>sub'. of_subject sub' r \<longrightarrow> sub' = sub) \<and> le_label_json r = label_to_string lj l"
  by (auto simp: append_label_event_def of_subject_def split: if_splits)

lemma find_last_snoc: "find_last p (rows @ [r]) = (if p r then Some r else find_last p rows)"
  by (simp add: find_last_def)

lemma get_label_snoc:
  assumes "of_subject sub r" "\<forall>sub'. of_subject sub' r \<longrightarrow> sub' = sub" "le_label_json r = label_to_string lj l"
    "label_from_str lj (label_to_string lj l) = Some l" "validate_subject sub = Inr ()"
  shows "get_label lj sub (rows @ [r]) = Inr (Some l)" "sub' \<noteq> sub \<Longrightarrow> get_label lj sub' (rows @ [r]) = get_label lj sub' rows"
proof -
  show "get_label lj sub (rows @ [r]) = Inr (Some l)"
    using assms(1,3,4,5) by (simp add: get_label_def find_last_snoc decode_label_def)
  assume "sub' \<noteq> sub"
  with assms(2) have "\<not> of_subject sub' r" by blast
  then show "get_label lj sub' (rows @ [r]) = get_label lj sub' rows"
    by (simp add: get_label_def find_last_snoc split: sum.splits)
qed

lemma transform_label_Inr:
  assumes "transform_label lj uuid output sources operation actor_id at rows = (Inr l, rows')"
  obtains labels r where "map (\<lambda>src. get_label lj src rows) sources = map (Inr \<circ> Some) labels"
    "combine labels operation = Some l" "validate_subject output = Inr ()" "rows' = rows @ [r]" "of_subject output r"
    "\<forall>sub'. of_subject sub' r \<longrightarrow> sub' = output" "le_label_json r = label_to_string lj l" "\<not> list_ex (of_subject output) rows"
proof -
  from assms obtain source_labels labels where
    l: "validate_subject output = Inr ()" "collect_results (map (\<lambda>src. get_label lj src rows) sources) = Inr source_labels"
      "collect_options source_labels = Some labels" "combine labels operation = Some l" "\<not> list_ex (of_subject output) rows" and
    a: "append_label_event lj uuid output ''transformed'' l actor_id (Some operation) at rows = Inr ((), rows')"
    by (auto simp: transform_label_def transaction_def split: sum.splits option.splits if_splits prod.splits)
  from l(2,3) have "map (\<lambda>src. get_label lj src rows) sources = map (Inr \<circ> Some) labels"
    by (simp add: collect_results_Inr collect_options_Some)
  with l append_label_event_Inr [OF a] that show thesis by blast
qed

text \<open>
  A transformed value is labelled at least as restrictively as every source: the output had no label, its label is now the
  result, which is as sensitive as the most sensitive source, as little trusted as the least trusted one, and permits no
  destination that the patterns of a source do not permit; the label of every other subject is unchanged.
\<close>

theorem transform_label_conservative:
  assumes "transform_label lj uuid output sources operation actor_id at rows = (Inr l, rows')"
    "label_from_str lj (label_to_string lj l) = Some l"
    "\<forall>src \<in> set sources. \<forall>m. get_label lj src rows = Inr (Some m) \<longrightarrow> patterns_ok (allowed_destinations m)"
  shows "get_label lj output rows = Inr None \<and> get_label lj output rows' = Inr (Some l) \<and>
    (\<forall>src \<in> set sources. \<exists>m. get_label lj src rows = Inr (Some m) \<and> sensitivity m \<le> sensitivity l \<and>
       trust_rank (source_trust_class l) \<le> trust_rank (source_trust_class m) \<and>
       {d. permits_destination l d} \<subseteq> permitted (allowed_destinations m)) \<and>
    (\<forall>sub. sub \<noteq> output \<longrightarrow> get_label lj sub rows' = get_label lj sub rows)"
proof -
  from assms(1) obtain labels r where t: "map (\<lambda>src. get_label lj src rows) sources = map (Inr \<circ> Some) labels"
    "combine labels operation = Some l" "validate_subject output = Inr ()" "rows' = rows @ [r]" "of_subject output r"
    "\<forall>sub'. of_subject sub' r \<longrightarrow> sub' = output" "le_label_json r = label_to_string lj l" "\<not> list_ex (of_subject output) rows"
    by (rule transform_label_Inr)
  have src: "\<exists>m \<in> set labels. get_label lj src rows = Inr (Some m)" if "src \<in> set sources" for src
  proof -
    from that have "get_label lj src rows \<in> set (map (\<lambda>src. get_label lj src rows) sources)" by simp
    then show ?thesis unfolding t(1) by auto
  qed
  have "m \<in> set labels \<Longrightarrow> \<exists>src \<in> set sources. get_label lj src rows = Inr (Some m)" for m
  proof -
    assume "m \<in> set labels"
    then have "Inr (Some m) \<in> set (map (\<lambda>src. get_label lj src rows) sources)" unfolding t(1) by simp
    then show ?thesis by (metis (mono_tags, lifting) imageE list.set_map)
  qed
  with assms(3) have "list_all (\<lambda>m. patterns_ok (allowed_destinations m)) labels" unfolding list_all_iff by blast
  note bounds = combine_intersection [OF t(2) this] combine_bounds [OF t(2)]
  have "find_last (of_subject output) rows = None"
    using t(8) by (auto simp: find_last_def find_None_iff list_ex_iff)
  then have "get_label lj output rows = Inr None" using t(3) by (simp add: get_label_def)
  moreover have "\<exists>m. get_label lj src rows = Inr (Some m) \<and> sensitivity m \<le> sensitivity l \<and>
       trust_rank (source_trust_class l) \<le> trust_rank (source_trust_class m) \<and>
       {d. permits_destination l d} \<subseteq> permitted (allowed_destinations m)" if "src \<in> set sources" for src
    using src [OF that] bounds by auto
  ultimately show ?thesis
    using get_label_snoc [OF t(5,6,7) assms(2) t(3)] unfolding t(4) by blast
qed

definition sample_label_json :: label_json where
  "sample_label_json = \<lparr>label_to_string = (\<lambda>l. if sensitivity l = Internal then ''mail'' else if provenance l = provenance web_label then ''web'' else ''both''),
     label_from_str = (\<lambda>t. if t = ''mail'' then Some mail_label else if t = ''web'' then Some web_label
       else combine [mail_label, web_label] ''join'')\<rparr>"

definition sample_subject :: "string \<Rightarrow> char \<Rightarrow> InformationSubject" where
  "sample_subject i c = \<lparr>subject_kind = ''run'', subject_id = i, subject_sha256 = replicate 64 c\<rparr>"

definition sample_label_row :: "string \<Rightarrow> string \<Rightarrow> char \<Rightarrow> label_row" where
  "sample_label_row e i c = \<lparr>le_event_id = e, le_subject_kind = ''run'', le_subject_id = i, le_content_sha256 = replicate 64 c,
     le_operation = ''observed'', le_label_json = i, le_actor_id = ''store'', le_scope = None, le_created_at = 1\<rparr>"

abbreviation sample_labels :: "label_row list" where
  "sample_labels \<equiv> [sample_label_row ''e1'' ''mail'' CHR ''a'', sample_label_row ''e2'' ''web'' CHR ''b'']"

lemma sample_of_subject: "of_subject (sample_subject i c) (sample_label_row e j d) \<longleftrightarrow> i = j \<and> c = d"
  by (auto simp: of_subject_def sample_subject_def sample_label_row_def replicate_eq_replicate)

lemma sample_validate: "validate_subject (sample_subject ''mail'' CHR ''a'') = Inr ()"
    "validate_subject (sample_subject ''web'' CHR ''b'') = Inr ()" "validate_subject (sample_subject ''both'' CHR ''c'') = Inr ()"
proof -
  have "rust_trim ''run'' = ''run''" "rust_trim ''mail'' = ''mail''" "rust_trim ''web'' = ''web''" "rust_trim ''both'' = ''both''"
    "is_ascii_hexdigit CHR ''a''" "is_ascii_hexdigit CHR ''b''" "is_ascii_hexdigit CHR ''c''"
    by code_simp+
  then show "validate_subject (sample_subject ''mail'' CHR ''a'') = Inr ()"
    "validate_subject (sample_subject ''web'' CHR ''b'') = Inr ()" "validate_subject (sample_subject ''both'' CHR ''c'') = Inr ()"
    by (simp_all add: validate_subject_def sample_subject_def list_all_iff)
qed

theorem transform_label_conservative_witness:
  "\<exists>l rows'. transform_label sample_label_json ''e3'' (sample_subject ''both'' CHR ''c'')
      [sample_subject ''mail'' CHR ''a'', sample_subject ''web'' CHR ''b''] ''join'' ''runner'' 3 sample_labels = (Inr l, rows') \<and>
     get_label sample_label_json (sample_subject ''both'' CHR ''c'') rows' = Inr (Some l) \<and> sensitivity l = Sensitive"
proof -
  let ?t = "transform_label sample_label_json ''e3'' (sample_subject ''both'' CHR ''c'')
      [sample_subject ''mail'' CHR ''a'', sample_subject ''web'' CHR ''b''] ''join'' ''runner'' 3 sample_labels"
  have g: "get_label sample_label_json (sample_subject ''mail'' CHR ''a'') sample_labels = Inr (Some mail_label)"
    "get_label sample_label_json (sample_subject ''web'' CHR ''b'') sample_labels = Inr (Some web_label)"
    by (simp_all add: get_label_def sample_validate find_last_def sample_of_subject decode_label_def sample_label_json_def)
      (simp_all add: sample_label_row_def)
  have v: "validate_label_actor ''runner'' = Inr ()" "rust_trim ''join'' = ''join''" by code_simp+
  have "map_option (\<lambda>l. (label_to_string sample_label_json l, sensitivity l)) (combine [mail_label, web_label] ''join'') = Some (''both'', Sensitive)"
    by code_simp
  then obtain l where l: "combine [mail_label, web_label] ''join'' = Some l" "label_to_string sample_label_json l = ''both''"
      "sensitivity l = Sensitive"
    by auto
  have t: "?t = (Inr l, snd ?t)"
    by (simp add: transform_label_def v g l(1) transaction_def append_label_event_def sample_validate sample_of_subject)
      (simp add: sample_label_row_def)
  have c: "label_from_str sample_label_json (label_to_string sample_label_json l) = Some l"
    using l by (simp add: sample_label_json_def)
  have "patterns_ok (allowed_destinations mail_label)" "patterns_ok (allowed_destinations web_label)" by code_simp+
  with g have ok: "\<forall>src \<in> set [sample_subject ''mail'' CHR ''a'', sample_subject ''web'' CHR ''b'']. \<forall>m.
      get_label sample_label_json src sample_labels = Inr (Some m) \<longrightarrow> patterns_ok (allowed_destinations m)"
    by auto
  from l(3) t transform_label_conservative [OF t c ok] show ?thesis by blast
qed

end
