(* ===== verification/Run_State.thy ===== *)
theory Run_State
  imports Outbox Information_Store
begin

text \<open>
  The state of durable runs (\<open>crates/core/src/runs.rs\<close>): the status and kind texts, the rows of the run tables, the records
  the store returns, and its errors.

  The state is the database of the event log and the outbox together with the tables that only the run store writes. The
  table constraints of the migrations are part of the operations: an \<open>INSERT OR IGNORE\<close> skips a row that violates a key or a
  \<open>CHECK\<close>, any other statement that violates one fails.
\<close>

section \<open>Status texts\<close>

datatype RunStatus = RunPending | RunRunning | RunWaiting | RunCompleted | RunFailed | RunCancelled

fun RunStatus_as_str :: "RunStatus \<Rightarrow> string" where
  "RunStatus_as_str RunPending = ''pending''"
| "RunStatus_as_str RunRunning = ''running''"
| "RunStatus_as_str RunWaiting = ''waiting''"
| "RunStatus_as_str RunCompleted = ''completed''"
| "RunStatus_as_str RunFailed = ''failed''"
| "RunStatus_as_str RunCancelled = ''cancelled''"

definition RunStatus_parse :: "string \<Rightarrow> RunStatus option" where
  "RunStatus_parse s =
     (if s = ''pending'' then Some RunPending
      else if s = ''running'' then Some RunRunning
      else if s = ''waiting'' then Some RunWaiting
      else if s = ''completed'' then Some RunCompleted
      else if s = ''failed'' then Some RunFailed
      else if s = ''cancelled'' then Some RunCancelled
      else None)"

interpretation run_status: wire_enum RunStatus_as_str RunStatus_parse
proof
  show "RunStatus_parse (RunStatus_as_str x) = Some x" for x
    by (cases x) (simp_all add: RunStatus_parse_def)
  show "RunStatus_parse s = Some x \<Longrightarrow> RunStatus_as_str x = s" for s x
    by (auto simp: RunStatus_parse_def split: if_splits)
qed

datatype RunStepKind = ModelRequest | DeterministicCompute | ToolDispatch | ApprovalWait | OutboxEnqueue | ChildRunSpawn
  | ChildRunJoin | ArtifactPublish

fun RunStepKind_as_str :: "RunStepKind \<Rightarrow> string" where
  "RunStepKind_as_str ModelRequest = ''model_request''"
| "RunStepKind_as_str DeterministicCompute = ''deterministic_compute''"
| "RunStepKind_as_str ToolDispatch = ''tool_dispatch''"
| "RunStepKind_as_str ApprovalWait = ''approval_wait''"
| "RunStepKind_as_str OutboxEnqueue = ''outbox_enqueue''"
| "RunStepKind_as_str ChildRunSpawn = ''child_run_spawn''"
| "RunStepKind_as_str ChildRunJoin = ''child_run_join''"
| "RunStepKind_as_str ArtifactPublish = ''artifact_publish''"

definition RunStepKind_parse :: "string \<Rightarrow> RunStepKind option" where
  "RunStepKind_parse s =
     (if s = ''model_request'' then Some ModelRequest
      else if s = ''deterministic_compute'' then Some DeterministicCompute
      else if s = ''tool_dispatch'' then Some ToolDispatch
      else if s = ''approval_wait'' then Some ApprovalWait
      else if s = ''outbox_enqueue'' then Some OutboxEnqueue
      else if s = ''child_run_spawn'' then Some ChildRunSpawn
      else if s = ''child_run_join'' then Some ChildRunJoin
      else if s = ''artifact_publish'' then Some ArtifactPublish
      else None)"

interpretation run_step_kind: wire_enum RunStepKind_as_str RunStepKind_parse
proof
  show "RunStepKind_parse (RunStepKind_as_str x) = Some x" for x
    by (cases x) (simp_all add: RunStepKind_parse_def)
  show "RunStepKind_parse s = Some x \<Longrightarrow> RunStepKind_as_str x = s" for s x
    by (auto simp: RunStepKind_parse_def split: if_splits)
qed

datatype RunStepStatus = StepPending | StepRunning | StepWaiting | StepCompleted | StepFailed

fun RunStepStatus_as_str :: "RunStepStatus \<Rightarrow> string" where
  "RunStepStatus_as_str StepPending = ''pending''"
| "RunStepStatus_as_str StepRunning = ''running''"
| "RunStepStatus_as_str StepWaiting = ''waiting''"
| "RunStepStatus_as_str StepCompleted = ''completed''"
| "RunStepStatus_as_str StepFailed = ''failed''"

definition RunStepStatus_parse :: "string \<Rightarrow> RunStepStatus option" where
  "RunStepStatus_parse s =
     (if s = ''pending'' then Some StepPending
      else if s = ''running'' then Some StepRunning
      else if s = ''waiting'' then Some StepWaiting
      else if s = ''completed'' then Some StepCompleted
      else if s = ''failed'' then Some StepFailed
      else None)"

interpretation run_step_status: wire_enum RunStepStatus_as_str RunStepStatus_parse
proof
  show "RunStepStatus_parse (RunStepStatus_as_str x) = Some x" for x
    by (cases x) (simp_all add: RunStepStatus_parse_def)
  show "RunStepStatus_parse s = Some x \<Longrightarrow> RunStepStatus_as_str x = s" for s x
    by (auto simp: RunStepStatus_parse_def split: if_splits)
qed

text \<open>\<open>status IN ('pending', 'running', 'waiting')\<close>, of a run and of a step.\<close>

definition active :: "string \<Rightarrow> bool" where
  "active s \<longleftrightarrow> s \<in> {''pending'', ''running'', ''waiting''}"

lemma active_simps [simp]:
  "active ''pending''" "active ''running''" "active ''waiting''"
  "\<not> active ''completed''" "\<not> active ''failed''" "\<not> active ''cancelled''"
  by (simp_all add: active_def)

section \<open>Rows\<close>

record step_row =
  sr_run_id :: string
  sr_step_id :: string
  sr_ordinal :: int
  sr_kind :: string
  sr_status :: string
  sr_attempt :: int
  sr_input_hash :: string
  sr_output_ref :: "string option"
  sr_approval_id :: "string option"
  sr_outbox_idempotency_key :: "string option"
  sr_lease_owner :: "string option"
  sr_lease_expires_at :: "int option"
  sr_started_at :: "int option"
  sr_completed_at :: "int option"

record exec_budget_row =
  eb_run_id :: string
  eb_time_limit_ms :: int
  eb_deadline_at_ms :: int
  eb_retry_limit :: int
  eb_retries_used :: int
  eb_effect_limit :: int
  eb_effects_used :: int
  eb_updated_at_ms :: int

record child_budget_row =
  cb_parent_run_id :: string
  cb_token_limit :: int
  cb_tokens_reserved :: int
  cb_updated_at :: int
  cb_time_limit_ms :: int
  cb_time_reserved_ms :: int
  cb_retry_limit :: int
  cb_retries_reserved :: int
  cb_effect_limit :: int
  cb_effects_reserved :: int

record child_task_row =
  ct_child_run_id :: string
  ct_parent_run_id :: string
  ct_task_json :: string
  ct_task_hash :: string
  ct_trust_ceiling_json :: string
  ct_budget_tokens :: int
  ct_tokens_used :: "int option"
  ct_dependencies_json :: string
  ct_result_artifact_id :: "string option"
  ct_budget_settled :: bool
  ct_created_at :: int
  ct_updated_at :: int
  ct_budget_time_ms :: int
  ct_time_used_ms :: "int option"
  ct_budget_retries :: int
  ct_retries_used :: "int option"
  ct_budget_effects :: int
  ct_effects_used :: "int option"

record attempt_row =
  ia_run_id :: string
  ia_step_id :: string
  ia_attempt_no :: int
  ia_status :: string
  ia_error_class :: "string option"
  ia_started_at :: int
  ia_finished_at :: "int option"

text \<open>\<open>conversation_trust\<close> is the column \<open>trust_class\<close> of \<open>state_conversations\<close>.\<close>

record run_db =
  core :: database
  run_steps :: "step_row list"
  exec_budgets :: "exec_budget_row list"
  effect_claims :: "(string \<times> string \<times> int) list"
  child_budgets :: "child_budget_row list"
  child_tasks :: "child_task_row list"
  inference_attempts :: "attempt_row list"
  conversation_trust :: "(string \<times> string) list"
  label_events :: "label_row list"

abbreviation run_rows :: "run_db \<Rightarrow> run_row list" where
  "run_rows s \<equiv> state_runs (core s)"

definition empty_run_db :: run_db where
  "empty_run_db = \<lparr>core = empty_database, run_steps = [], exec_budgets = [], effect_claims = [], child_budgets = [],
     child_tasks = [], inference_attempts = [], conversation_trust = [], label_events = []\<rparr>"

section \<open>Records\<close>

record RunRecord =
  run_id :: string
  run_conversation_id :: string
  run_parent_run_id :: "string option"
  run_status :: RunStatus
  run_cursor :: int
  run_input_event_seq :: int
  run_started_at :: int
  run_updated_at :: int
  run_deadline_at :: "int option"

record NewRun =
  nr_conversation_id :: string
  nr_parent_run_id :: "string option"
  nr_input_event_seq :: int
  nr_started_at :: int
  nr_deadline_at :: "int option"

record NewRunStep =
  ns_step_id :: string
  ns_ordinal :: int
  ns_kind :: RunStepKind
  ns_input_hash :: string
  ns_approval_id :: "string option"
  ns_outbox_idempotency_key :: "string option"

record RunStepRecord =
  step_run_id :: string
  step_id :: string
  step_ordinal :: int
  step_kind :: RunStepKind
  step_status :: RunStepStatus
  step_attempt :: int
  step_input_hash :: string
  step_output_ref :: "string option"
  step_approval_id :: "string option"
  step_outbox_idempotency_key :: "string option"
  step_lease_owner :: "string option"
  step_lease_expires_at :: "int option"
  step_started_at :: "int option"
  step_completed_at :: "int option"

datatype NextSafeAction =
    ClaimStep RunStepRecord
  | ReclaimExpired RunStepRecord
  | WaitForLease RunStepRecord
  | WaitForApproval RunStepRecord
  | WaitStep RunStepRecord
  | AdvanceCursor RunStepRecord
  | CompleteRun int
  | NextRunCompleted
  | NextRunFailed
  | NextRunCancelled

record RunRecoveryTransition =
  rt_run_id :: string
  rt_action :: string
  rt_from_cursor :: int
  rt_to_cursor :: int
  rt_resulting_status :: RunStatus

datatype RunStoreError =
    RunDb DbError
  | NotFound string string
  | InvalidTransition string string string string
  | Conflict string
  | InvalidLease int int
  | Corrupt string

section \<open>Reading rows\<close>

text \<open>\<open>row_to_run\<close>, \<open>row_to_step\<close>: a text that is no status or kind is a conversion failure.\<close>

definition row_to_run :: "run_row \<Rightarrow> RunStoreError + RunRecord" where
  "row_to_run r = (case RunStatus_parse (rn_status r) of
      None \<Rightarrow> Inl (RunDb (Sqlite FromSqlConversionFailure))
    | Some st \<Rightarrow> Inr \<lparr>run_id = rn_run_id r, run_conversation_id = rn_conversation_id r, run_parent_run_id = rn_parent_run_id r,
        run_status = st, run_cursor = rn_cursor r, run_input_event_seq = rn_input_event_seq r, run_started_at = rn_started_at r,
        run_updated_at = rn_updated_at r, run_deadline_at = rn_deadline_at r\<rparr>)"

definition row_to_step :: "step_row \<Rightarrow> RunStoreError + RunStepRecord" where
  "row_to_step r = (case RunStepKind_parse (sr_kind r) of
      None \<Rightarrow> Inl (RunDb (Sqlite FromSqlConversionFailure))
    | Some k \<Rightarrow> (case RunStepStatus_parse (sr_status r) of
        None \<Rightarrow> Inl (RunDb (Sqlite FromSqlConversionFailure))
      | Some st \<Rightarrow> Inr \<lparr>step_run_id = sr_run_id r, step_id = sr_step_id r, step_ordinal = sr_ordinal r, step_kind = k,
          step_status = st, step_attempt = sr_attempt r, step_input_hash = sr_input_hash r, step_output_ref = sr_output_ref r,
          step_approval_id = sr_approval_id r, step_outbox_idempotency_key = sr_outbox_idempotency_key r,
          step_lease_owner = sr_lease_owner r, step_lease_expires_at = sr_lease_expires_at r,
          step_started_at = sr_started_at r, step_completed_at = sr_completed_at r\<rparr>))"

definition get_run :: "string \<Rightarrow> run_db \<Rightarrow> RunStoreError + RunRecord option" where
  "get_run rid s = (case find (\<lambda>r. rn_run_id r = rid) (run_rows s) of
      None \<Rightarrow> Inr None
    | Some r \<Rightarrow> map_sum id Some (row_to_run r))"

definition required_run :: "string \<Rightarrow> run_db \<Rightarrow> RunStoreError + RunRecord" where
  "required_run rid s = (case get_run rid s of
      Inl e \<Rightarrow> Inl e | Inr None \<Rightarrow> Inl (NotFound ''run'' rid) | Inr (Some r) \<Rightarrow> Inr r)"

abbreviation step_key :: "string \<Rightarrow> string \<Rightarrow> step_row \<Rightarrow> bool" where
  "step_key rid sid r \<equiv> sr_run_id r = rid \<and> sr_step_id r = sid"

definition find_step :: "string \<Rightarrow> string \<Rightarrow> run_db \<Rightarrow> step_row option" where
  "find_step rid sid s = find (step_key rid sid) (run_steps s)"

definition get_step :: "string \<Rightarrow> string \<Rightarrow> run_db \<Rightarrow> RunStoreError + RunStepRecord option" where
  "get_step rid sid s = (case find_step rid sid s of
      None \<Rightarrow> Inr None
    | Some r \<Rightarrow> map_sum id Some (row_to_step r))"

definition required_step :: "string \<Rightarrow> string \<Rightarrow> run_db \<Rightarrow> RunStoreError + RunStepRecord" where
  "required_step rid sid s = (case get_step rid sid s of
      Inl e \<Rightarrow> Inl e | Inr None \<Rightarrow> Inl (NotFound ''step'' (rid @ ''/'' @ sid)) | Inr (Some r) \<Rightarrow> Inr r)"

text \<open>\<open>transition_error\<close>: the error that explains a refused step transition.\<close>

definition transition_error :: "string \<Rightarrow> string \<Rightarrow> string \<Rightarrow> run_db \<Rightarrow> RunStoreError" where
  "transition_error rid sid operation s = (case required_step rid sid s of
      Inl e \<Rightarrow> e
    | Inr st \<Rightarrow> InvalidTransition ''step'' (rid @ ''/'' @ sid) (RunStepStatus_as_str (step_status st)) operation)"

section \<open>Writing tables\<close>

definition update_runs :: "(run_row \<Rightarrow> bool) \<Rightarrow> (run_row \<Rightarrow> run_row) \<Rightarrow> run_db \<Rightarrow> run_db" where
  "update_runs p f s = s\<lparr>core := (core s)\<lparr>state_runs := update_where p f (run_rows s)\<rparr>\<rparr>"

definition update_steps :: "(step_row \<Rightarrow> bool) \<Rightarrow> (step_row \<Rightarrow> step_row) \<Rightarrow> run_db \<Rightarrow> run_db" where
  "update_steps p f s = s\<lparr>run_steps := update_where p f (run_steps s)\<rparr>"

definition set_run_status :: "string \<Rightarrow> string \<Rightarrow> int \<Rightarrow> run_db \<Rightarrow> run_db" where
  "set_run_status rid st now = update_runs (\<lambda>r. rn_run_id r = rid) (\<lambda>r. r\<lparr>rn_status := st, rn_updated_at := now\<rparr>)"

lemma update_runs_simps [simp]:
  "run_rows (update_runs p f s) = update_where p f (run_rows s)"
  "run_steps (update_runs p f s) = run_steps s"
  "exec_budgets (update_runs p f s) = exec_budgets s"
  "effect_claims (update_runs p f s) = effect_claims s"
  "child_budgets (update_runs p f s) = child_budgets s"
  "child_tasks (update_runs p f s) = child_tasks s"
  "inference_attempts (update_runs p f s) = inference_attempts s"
  "conversation_trust (update_runs p f s) = conversation_trust s"
  "label_events (update_runs p f s) = label_events s"
  "state_events (core (update_runs p f s)) = state_events (core s)"
  "state_outbox (core (update_runs p f s)) = state_outbox (core s)"
  by (simp_all add: update_runs_def)

lemma update_steps_simps [simp]:
  "core (update_steps p f s) = core s"
  "run_steps (update_steps p f s) = update_where p f (run_steps s)"
  "exec_budgets (update_steps p f s) = exec_budgets s"
  "effect_claims (update_steps p f s) = effect_claims s"
  "child_budgets (update_steps p f s) = child_budgets s"
  "child_tasks (update_steps p f s) = child_tasks s"
  "inference_attempts (update_steps p f s) = inference_attempts s"
  "conversation_trust (update_steps p f s) = conversation_trust s"
  "label_events (update_steps p f s) = label_events s"
  by (simp_all add: update_steps_def)

end
