(* ===== verification/Run_Budgets.thy ===== *)
theory Run_Budgets
  imports Run_State
begin

text \<open>
  The execution budget of a durable run (\<open>crates/core/src/runs.rs\<close>, \<open>crates/core/src/tool_execution.rs\<close>): the durable
  observation of the wall clock, the deadline, and the quotas of retries and effects.
\<close>

section \<open>The wall clock\<close>

datatype RunClockError = Rollback int int

definition validate_run_clock :: "int \<Rightarrow> int \<Rightarrow> RunClockError + unit" where
  "validate_run_clock last_observed_ms now_ms =
     (if now_ms < last_observed_ms then Inl (Rollback last_observed_ms now_ms) else Inr ())"

text \<open>\<open>RunClockError::to_string\<close>.\<close>

definition RunClockError_display :: "RunClockError \<Rightarrow> string" where
  "RunClockError_display e = (case e of Rollback last_observed_ms now_ms \<Rightarrow>
     ''wall clock moved backward from '' @ show_int last_observed_ms @ '' to '' @ show_int now_ms @
     ''; timer validity is unverifiable'')"

section \<open>Operations\<close>

record RunExecutionBudget =
  xb_time_limit_ms :: int
  xb_deadline_at_ms :: int
  xb_retry_limit :: int
  xb_retries_used :: int
  xb_effect_limit :: int
  xb_effects_used :: int

definition find_budget :: "string \<Rightarrow> run_db \<Rightarrow> exec_budget_row option" where
  "find_budget rid s = find (\<lambda>b. eb_run_id b = rid) (exec_budgets s)"

definition update_budgets :: "(exec_budget_row \<Rightarrow> bool) \<Rightarrow> (exec_budget_row \<Rightarrow> exec_budget_row) \<Rightarrow> run_db \<Rightarrow> run_db" where
  "update_budgets p f s = s\<lparr>exec_budgets := update_where p f (exec_budgets s)\<rparr>"

definition budget_record :: "exec_budget_row \<Rightarrow> RunExecutionBudget" where
  "budget_record b = \<lparr>xb_time_limit_ms = max 0 (eb_time_limit_ms b), xb_deadline_at_ms = eb_deadline_at_ms b,
     xb_retry_limit = eb_retry_limit b, xb_retries_used = eb_retries_used b, xb_effect_limit = eb_effect_limit b,
     xb_effects_used = eb_effects_used b\<rparr>"

definition run_exists :: "string \<Rightarrow> run_db \<Rightarrow> bool" where
  "run_exists rid s \<longleftrightarrow> rid \<in> rn_run_id ` set (run_rows s)"

definition fresh_budget :: "string \<Rightarrow> int \<Rightarrow> int \<Rightarrow> int \<Rightarrow> int \<Rightarrow> int \<Rightarrow> exec_budget_row" where
  "fresh_budget rid time_limit deadline retry_limit effect_limit now_ms =
     \<lparr>eb_run_id = rid, eb_time_limit_ms = time_limit, eb_deadline_at_ms = deadline, eb_retry_limit = retry_limit,
      eb_retries_used = 0, eb_effect_limit = effect_limit, eb_effects_used = 0, eb_updated_at_ms = now_ms\<rparr>"

text \<open>
  \<open>INSERT OR IGNORE INTO state_run_execution_budgets\<close>: the limits are unsigned and satisfy the checks; a run that is not
  there violates the foreign key.
\<close>

definition insert_budget :: "exec_budget_row \<Rightarrow> run_db \<Rightarrow> DbError + run_db" where
  "insert_budget b s =
     (if find_budget (eb_run_id b) s \<noteq> None then Inr s
      else if \<not> run_exists (eb_run_id b) s then Inl (Sqlite (ConstraintViolation ''FOREIGN KEY constraint failed''))
      else Inr (s\<lparr>exec_budgets := exec_budgets s @ [b]\<rparr>))"

text \<open>
  \<open>ensure_execution_budget\<close> runs outside a transaction: its insert stays when the limits of an existing budget differ.
  \<open>div_euclid(1_000)\<close> rounds down, as \<^const>\<open>divide\<close> on \<^typ>\<open>int\<close> does.
\<close>

definition ensure_execution_budget :: "string \<Rightarrow> nat \<Rightarrow> nat \<Rightarrow> nat \<Rightarrow> int \<Rightarrow> run_db \<Rightarrow> (RunStoreError + RunExecutionBudget) \<times> run_db" where
  "ensure_execution_budget rid time_limit_ms retry_limit effect_limit now_ms s =
     (if time_limit_ms = 0 then (Inl (Conflict ''run time budget must be positive''), s)
      else if i64_max < int time_limit_ms then (Inl (Conflict ''run time budget is too large''), s)
      else let deadline = saturating_add_i64 now_ms (int time_limit_ms) in
        (case insert_budget (fresh_budget rid (int time_limit_ms) deadline (int retry_limit) (int effect_limit) now_ms) s of
           Inl e \<Rightarrow> (Inl (RunDb e), s)
         | Inr s1 \<Rightarrow> (case find_budget rid s1 of
             None \<Rightarrow> (Inl (RunDb (Sqlite QueryReturnedNoRows)), s1)
           | Some b \<Rightarrow>
               if eb_time_limit_ms b \<noteq> int time_limit_ms \<or> eb_retry_limit b \<noteq> int retry_limit \<or>
                  eb_effect_limit b \<noteq> int effect_limit
               then (Inl (RunDb (Invariant ''run execution budget changed during a durable run'')), s1)
               else (Inr (budget_record b),
                 update_runs (\<lambda>r. rn_run_id r = rid)
                   (\<lambda>r. r\<lparr>rn_deadline_at := (case rn_deadline_at r of None \<Rightarrow> Some (eb_deadline_at_ms b div 1000) | d \<Rightarrow> d)\<rparr>) s1))))"

definition execution_budget :: "string \<Rightarrow> run_db \<Rightarrow> RunExecutionBudget option" where
  "execution_budget rid s = map_option budget_record (find_budget rid s)"

definition execution_budget_at_tx :: "string \<Rightarrow> int \<Rightarrow> run_db \<Rightarrow> DbError + RunExecutionBudget option \<times> run_db" where
  "execution_budget_at_tx rid now_ms s =
     (let p = (\<lambda>b. eb_run_id b = rid \<and> eb_updated_at_ms b \<le> now_ms) in
      if count_where p (exec_budgets s) = 0
      then (case find_budget rid s of
          None \<Rightarrow> Inr (None, s)
        | Some b \<Rightarrow> (case validate_run_clock (eb_updated_at_ms b) now_ms of
            Inl e \<Rightarrow> Inl (Invariant (RunClockError_display e)) | Inr _ \<Rightarrow> Inr (None, s)))
      else let s1 = update_budgets p (\<lambda>b. b\<lparr>eb_updated_at_ms := now_ms\<rparr>) s in Inr (execution_budget rid s1, s1))"

definition execution_budget_at :: "string \<Rightarrow> int \<Rightarrow> run_db \<Rightarrow> (DbError + RunExecutionBudget option) \<times> run_db" where
  "execution_budget_at rid now_ms = transaction (execution_budget_at_tx rid now_ms)"

definition observe_execution_budget_at_second :: "string \<Rightarrow> int \<Rightarrow> run_db \<Rightarrow> (DbError + unit) \<times> run_db" where
  "observe_execution_budget_at_second rid now = transaction (\<lambda>s. case find_budget rid s of
      None \<Rightarrow> Inr ((), s)
    | Some b \<Rightarrow>
        if now < eb_updated_at_ms b div 1000
        then Inl (Invariant (RunClockError_display (Rollback (eb_updated_at_ms b) (saturating_mul_i64 now 1000))))
        else Inr ((), update_budgets (\<lambda>b. eb_run_id b = rid)
               (\<lambda>b. b\<lparr>eb_updated_at_ms := max (eb_updated_at_ms b) (saturating_mul_i64 now 1000)\<rparr>) s))"

definition consume_execution_retry :: "string \<Rightarrow> int \<Rightarrow> run_db \<Rightarrow> bool \<times> run_db" where
  "consume_execution_retry rid now_ms s =
     (let p = (\<lambda>b. eb_run_id b = rid \<and> eb_updated_at_ms b \<le> now_ms \<and> eb_retries_used b < eb_retry_limit b \<and>
                   now_ms < eb_deadline_at_ms b) in
      (count_where p (exec_budgets s) = 1,
       update_budgets p (\<lambda>b. b\<lparr>eb_retries_used := eb_retries_used b + 1, eb_updated_at_ms := now_ms\<rparr>) s))"

definition effect_claimed :: "string \<Rightarrow> string \<Rightarrow> run_db \<Rightarrow> bool" where
  "effect_claimed rid sid s \<longleftrightarrow> (\<exists>c \<in> set (effect_claims s). fst c = rid \<and> fst (snd c) = sid)"

text \<open>The guarded charge and the claim it pays for; \<open>p\<close> is the condition of the \<open>UPDATE\<close>.\<close>

definition charge_effect :: "(exec_budget_row \<Rightarrow> bool) \<Rightarrow> string \<Rightarrow> string \<Rightarrow> int \<Rightarrow> run_db \<Rightarrow> bool \<times> run_db" where
  "charge_effect p rid sid now_ms s =
     (let s1 = update_budgets p (\<lambda>b. b\<lparr>eb_effects_used := eb_effects_used b + 1, eb_updated_at_ms := now_ms\<rparr>) s in
      if count_where p (exec_budgets s) \<noteq> 1 then (False, s1)
      else (True, s1\<lparr>effect_claims := effect_claims s1 @ [(rid, sid, now_ms)]\<rparr>))"

definition claim_execution_effect_tx :: "string \<Rightarrow> string \<Rightarrow> int \<Rightarrow> run_db \<Rightarrow> DbError + bool \<times> run_db" where
  "claim_execution_effect_tx rid sid now_ms s =
     (case (case find_budget rid s of None \<Rightarrow> Inr () | Some b \<Rightarrow> validate_run_clock (eb_updated_at_ms b) now_ms) of
        Inl e \<Rightarrow> Inl (Invariant (RunClockError_display e))
      | Inr _ \<Rightarrow>
          if effect_claimed rid sid s
          then Inr (True, update_budgets (\<lambda>b. eb_run_id b = rid \<and> eb_updated_at_ms b \<le> now_ms)
                 (\<lambda>b. b\<lparr>eb_updated_at_ms := now_ms\<rparr>) s)
          else Inr (charge_effect (\<lambda>b. eb_run_id b = rid \<and> eb_updated_at_ms b \<le> now_ms \<and>
                 eb_effects_used b < eb_effect_limit b \<and> now_ms < eb_deadline_at_ms b) rid sid now_ms s))"

definition claim_execution_effect :: "string \<Rightarrow> string \<Rightarrow> int \<Rightarrow> run_db \<Rightarrow> (DbError + bool) \<times> run_db" where
  "claim_execution_effect rid sid now_ms = transaction (claim_execution_effect_tx rid sid now_ms)"

text \<open>\<open>ToolExecutionStore::claim_run_effect\<close>: the same claim without the reading of the last observation.\<close>

definition claim_run_effect :: "string \<Rightarrow> string \<Rightarrow> int \<Rightarrow> run_db \<Rightarrow> bool \<times> run_db" where
  "claim_run_effect rid sid now_ms s =
     (if effect_claimed rid sid s then (True, s)
      else charge_effect (\<lambda>b. eb_run_id b = rid \<and> eb_effects_used b < eb_effect_limit b \<and> now_ms < eb_deadline_at_ms b)
             rid sid now_ms s)"

end
