(* ===== verification/Runs.thy ===== *)
theory Runs
  imports Run_Budgets
begin

text \<open>
  Durable runs and their steps (\<open>crates/core/src/runs.rs\<close>): creation, step definitions, leases, waits, the cursor, completion,
  cancellation of a subtree, failure, and the recovery decision at the cursor.
\<close>

section \<open>Creation\<close>

definition fresh_run :: "string \<Rightarrow> NewRun \<Rightarrow> run_row" where
  "fresh_run rid n = \<lparr>rn_run_id = rid, rn_conversation_id = nr_conversation_id n, rn_parent_run_id = nr_parent_run_id n,
     rn_status = ''pending'', rn_cursor = 0, rn_input_event_seq = nr_input_event_seq n, rn_started_at = nr_started_at n,
     rn_updated_at = nr_started_at n, rn_deadline_at = nr_deadline_at n\<rparr>"

text \<open>The foreign key \<open>(conversation_id, input_event_seq)\<close> into \<open>state_events\<close>.\<close>

definition input_event_exists :: "string \<Rightarrow> int \<Rightarrow> run_db \<Rightarrow> bool" where
  "input_event_exists c q s \<longleftrightarrow> (\<exists>e \<in> set (state_events (core s)). er_conversation_id e = c \<and> er_seq e = q)"

definition append_run :: "run_row \<Rightarrow> run_db \<Rightarrow> run_db" where
  "append_run r s = s\<lparr>core := (core s)\<lparr>state_runs := run_rows s @ [r]\<rparr>\<rparr>"

text \<open>\<open>INSERT OR IGNORE INTO state_runs\<close>: a known id or \<open>input_event_seq <= 0\<close> is skipped.\<close>

definition insert_run_or_ignore :: "run_row \<Rightarrow> run_db \<Rightarrow> DbError + run_db" where
  "insert_run_or_ignore r s =
     (if run_exists (rn_run_id r) s \<or> rn_input_event_seq r \<le> 0 then Inr s
      else if \<not> input_event_exists (rn_conversation_id r) (rn_input_event_seq r) s
      then Inl (Sqlite (ConstraintViolation ''FOREIGN KEY constraint failed''))
      else Inr (append_run r s))"

definition create_run_tx :: "string \<Rightarrow> NewRun \<Rightarrow> run_db \<Rightarrow> DbError + unit \<times> run_db" where
  "create_run_tx rid n s =
     (case (case nr_parent_run_id n of
          None \<Rightarrow> Inr ()
        | Some p \<Rightarrow> (case find (\<lambda>r. rn_run_id r = p) (run_rows s) of
            None \<Rightarrow> Inl (Invariant (''parent run '' @ p @ '' was not found''))
          | Some r \<Rightarrow> if rn_conversation_id r \<noteq> nr_conversation_id n
              then Inl (Invariant ''parent and child runs must share a conversation'') else Inr ())) of
        Inl e \<Rightarrow> Inl e
      | Inr _ \<Rightarrow> (case insert_run_or_ignore (fresh_run rid n) s of Inl e \<Rightarrow> Inl e | Inr s1 \<Rightarrow> Inr ((), s1)))"

text \<open>
  The label of the run's input: the payload of the input event, or the run id, and the trust class of the conversation.
\<close>

definition run_subject :: "(string \<Rightarrow> string) \<Rightarrow> string \<Rightarrow> NewRun \<Rightarrow> run_db \<Rightarrow> InformationSubject \<times> string" where
  "run_subject sha256_hex rid n s =
     (let (payload, trust_class) = (case map_of (conversation_trust s) (nr_conversation_id n) of
          None \<Rightarrow> (None, ''UnknownPending'')
        | Some t \<Rightarrow> (map_option er_payload (find (\<lambda>e. er_conversation_id e = nr_conversation_id n \<and> er_seq e = nr_input_event_seq n)
              (state_events (core s))), t))
      in (\<lparr>subject_kind = ''run'', subject_id = rid, subject_sha256 = sha256_hex (case payload of None \<Rightarrow> rid | Some b \<Rightarrow> b)\<rparr>, trust_class))"

definition run_label :: "NewRun \<Rightarrow> string \<Rightarrow> InformationLabel" where
  "run_label n trust_class = observed Sensitive (Some (nr_conversation_id n)) trust_class ''run_input''
     (nr_conversation_id n @ '':'' @ show_int (nr_input_event_seq n))
     (if trust_class \<in> {''Controller'', ''Delegated'', ''KnownTrusted''} then [''transport:*''] else [])"

definition observe_run_label :: "label_json \<Rightarrow> (string \<Rightarrow> string) \<Rightarrow> string \<Rightarrow> string \<Rightarrow> NewRun \<Rightarrow> run_db \<Rightarrow> (DbError + unit) \<times> run_db" where
  "observe_run_label lj sha256_hex uuid rid n s =
     (let (sub, trust_class) = run_subject sha256_hex rid n s in
      case get_label lj sub (label_events s) of
        Inl e \<Rightarrow> (Inl e, s)
      | Inr (Some _) \<Rightarrow> (Inr (), s)
      | Inr None \<Rightarrow> (case observe_label lj uuid sub (run_label n trust_class) ''runs:store'' (nr_started_at n) (label_events s) of
          (res, rows) \<Rightarrow> (res, s\<lparr>label_events := rows\<rparr>)))"

definition create_run_with_id :: "label_json \<Rightarrow> (string \<Rightarrow> string) \<Rightarrow> string \<Rightarrow> string \<Rightarrow> NewRun \<Rightarrow> run_db
   \<Rightarrow> (RunStoreError + RunRecord) \<times> run_db" where
  "create_run_with_id lj sha256_hex uuid rid n s = (case transaction (create_run_tx rid n) s of
      (Inl e, s1) \<Rightarrow> (Inl (RunDb e), s1)
    | (Inr _, s1) \<Rightarrow> (case required_run rid s1 of
        Inl e \<Rightarrow> (Inl e, s1)
      | Inr existing \<Rightarrow>
          if run_conversation_id existing \<noteq> nr_conversation_id n \<or> run_parent_run_id existing \<noteq> nr_parent_run_id n \<or>
             run_input_event_seq existing \<noteq> nr_input_event_seq n \<or> run_deadline_at existing \<noteq> nr_deadline_at n
          then (Inl (Conflict (''run '' @ rid @ '' was retried with a different definition'')), s1)
          else (case observe_run_label lj sha256_hex uuid rid n s1 of
              (Inl e, s2) \<Rightarrow> (Inl (RunDb e), s2)
            | (Inr _, s2) \<Rightarrow> (Inr existing, s2))))"

definition create_run :: "label_json \<Rightarrow> (string \<Rightarrow> string) \<Rightarrow> string \<Rightarrow> string \<Rightarrow> NewRun \<Rightarrow> run_db \<Rightarrow> (RunStoreError + string) \<times> run_db" where
  "create_run lj sha256_hex uuid rid n s = (case create_run_with_id lj sha256_hex uuid rid n s of
      (Inl e, s1) \<Rightarrow> (Inl e, s1) | (Inr _, s1) \<Rightarrow> (Inr rid, s1))"

section \<open>Listing\<close>

text \<open>\<open>ORDER BY started_at, run_id\<close>; the descending order is its reverse, run ids being unique.\<close>

definition in_start_order :: "run_row list \<Rightarrow> run_row list" where
  "in_start_order rows = sort_key rn_started_at (sort_key rn_run_id rows)"

definition first_run :: "run_row list \<Rightarrow> RunStoreError + RunRecord option" where
  "first_run rows = (case rows of [] \<Rightarrow> Inr None | r # _ \<Rightarrow> map_sum id Some (row_to_run r))"

definition for_input_event :: "string \<Rightarrow> int \<Rightarrow> run_db \<Rightarrow> RunStoreError + RunRecord option" where
  "for_input_event c q s = first_run (rev (in_start_order (filter (\<lambda>r. rn_conversation_id r = c \<and> rn_input_event_seq r = q) (run_rows s))))"

definition find_run_for_input :: "string \<Rightarrow> int \<Rightarrow> run_db \<Rightarrow> RunStoreError + RunRecord option" where
  "find_run_for_input c q s = first_run (in_start_order (filter (\<lambda>r. rn_conversation_id r = c \<and> rn_input_event_seq r = q) (run_rows s)))"

definition collect_runs :: "run_row list \<Rightarrow> RunStoreError + RunRecord list" where
  "collect_runs rows = collect_results (map row_to_run rows)"

definition list_recoverable :: "run_db \<Rightarrow> RunStoreError + RunRecord list" where
  "list_recoverable s = collect_runs (in_start_order (filter (\<lambda>r. active (rn_status r)) (run_rows s)))"

text \<open>\<open>run_id<?2\<close> is not true when \<open>?2\<close> is null.\<close>

definition list_recent :: "int option \<Rightarrow> string option \<Rightarrow> nat \<Rightarrow> run_db \<Rightarrow> RunStoreError + RunRecord list" where
  "list_recent before_started_at before_run_id limit s = collect_runs (take (clamp 1 200 limit) (rev (in_start_order (filter (\<lambda>r.
     case before_started_at of None \<Rightarrow> True | Some b \<Rightarrow> rn_started_at r < b \<or>
       rn_started_at r = b \<and> (case before_run_id of None \<Rightarrow> False | Some i \<Rightarrow> rn_run_id r < i)) (run_rows s)))))"

definition list_children :: "string \<Rightarrow> run_db \<Rightarrow> RunStoreError + RunRecord list" where
  "list_children parent s = collect_runs (in_start_order (filter (\<lambda>r. rn_parent_run_id r = Some parent) (run_rows s)))"

definition list_steps :: "string \<Rightarrow> run_db \<Rightarrow> RunStoreError + RunStepRecord list" where
  "list_steps rid s = collect_results (map row_to_step (sort_key sr_ordinal (filter (\<lambda>r. sr_run_id r = rid) (run_steps s))))"

section \<open>Step definitions\<close>

definition fresh_step :: "string \<Rightarrow> NewRunStep \<Rightarrow> step_row" where
  "fresh_step rid n = \<lparr>sr_run_id = rid, sr_step_id = ns_step_id n, sr_ordinal = ns_ordinal n, sr_kind = RunStepKind_as_str (ns_kind n),
     sr_status = ''pending'', sr_attempt = 0, sr_input_hash = ns_input_hash n, sr_output_ref = None, sr_approval_id = ns_approval_id n,
     sr_outbox_idempotency_key = ns_outbox_idempotency_key n, sr_lease_owner = None, sr_lease_expires_at = None,
     sr_started_at = None, sr_completed_at = None\<rparr>"

text \<open>The primary key, \<open>UNIQUE(run_id, ordinal)\<close> and the two unique indexes of \<open>state_run_steps\<close>.\<close>

definition step_collides :: "step_row \<Rightarrow> step_row \<Rightarrow> bool" where
  "step_collides r q \<longleftrightarrow> (sr_run_id r = sr_run_id q \<and> (sr_step_id r = sr_step_id q \<or> sr_ordinal r = sr_ordinal q)) \<or>
     (sr_approval_id r \<noteq> None \<and> sr_approval_id r = sr_approval_id q) \<or>
     (sr_outbox_idempotency_key r \<noteq> None \<and> sr_outbox_idempotency_key r = sr_outbox_idempotency_key q)"

definition insert_step_or_ignore :: "step_row \<Rightarrow> run_db \<Rightarrow> run_db" where
  "insert_step_or_ignore r s =
     (if sr_ordinal r < 0 \<or> list_ex (step_collides r) (run_steps s) then s else s\<lparr>run_steps := run_steps s @ [r]\<rparr>)"

definition add_step_tx :: "string \<Rightarrow> NewRunStep \<Rightarrow> run_db \<Rightarrow> RunStoreError + RunStepRecord option \<times> run_db" where
  "add_step_tx rid n s = (case find (\<lambda>r. rn_run_id r = rid) (run_rows s) of
      None \<Rightarrow> Inl (RunDb (Invariant (''run '' @ rid @ '' was not found'')))
    | Some r \<Rightarrow>
        if rn_status r \<in> {''completed'', ''failed'', ''cancelled''}
        then Inl (RunDb (Invariant (''cannot add step to run '' @ rid @ '' while it is '' @ rn_status r)))
        else let s1 = insert_step_or_ignore (fresh_step rid n) s in
          (case get_step rid (ns_step_id n) s1 of Inl e \<Rightarrow> Inl e | Inr st \<Rightarrow> Inr (st, s1)))"

definition add_step :: "string \<Rightarrow> NewRunStep \<Rightarrow> run_db \<Rightarrow> (RunStoreError + RunStepRecord) \<times> run_db" where
  "add_step rid n s = (case add_step_tx rid n s of
      Inl e \<Rightarrow> (Inl e, s)
    | Inr (None, s1) \<Rightarrow> (Inl (Conflict (''step '' @ ns_step_id n @ '' collides with an existing ordinal, approval id, or outbox key'')), s1)
    | Inr (Some existing, s1) \<Rightarrow>
        if step_ordinal existing \<noteq> ns_ordinal n \<or> step_kind existing \<noteq> ns_kind n \<or> step_input_hash existing \<noteq> ns_input_hash n \<or>
           step_approval_id existing \<noteq> ns_approval_id n \<or> step_outbox_idempotency_key existing \<noteq> ns_outbox_idempotency_key n
        then (Inl (Conflict (''step '' @ ns_step_id n @ '' was retried with a different definition'')), s1)
        else (Inr existing, s1))"

section \<open>Leases\<close>

text \<open>The condition of the claim: pending or expired, at the cursor of an active run.\<close>

definition at_cursor :: "run_db \<Rightarrow> step_row \<Rightarrow> bool" where
  "at_cursor s r \<longleftrightarrow> (case find (\<lambda>n. rn_run_id n = sr_run_id r \<and> active (rn_status n)) (run_rows s) of
     None \<Rightarrow> False | Some n \<Rightarrow> sr_ordinal r = rn_cursor n)"

definition lease_expired :: "int \<Rightarrow> step_row \<Rightarrow> bool" where
  "lease_expired now r \<longleftrightarrow> (case sr_lease_expires_at r of None \<Rightarrow> False | Some e \<Rightarrow> e \<le> now)"

definition claimable_step :: "string \<Rightarrow> string \<Rightarrow> int \<Rightarrow> run_db \<Rightarrow> step_row \<Rightarrow> bool" where
  "claimable_step rid sid now s r \<longleftrightarrow> step_key rid sid r \<and>
     (sr_status r = ''pending'' \<or> sr_status r = ''running'' \<and> lease_expired now r) \<and> at_cursor s r"

definition leased_step :: "string \<Rightarrow> string \<Rightarrow> string \<Rightarrow> step_row \<Rightarrow> bool" where
  "leased_step rid sid owner r \<longleftrightarrow> step_key rid sid r \<and> sr_status r = ''running'' \<and> sr_lease_owner r = Some owner"

text \<open>
  The shape of the step transitions: one conditional \<open>UPDATE\<close> of a step and, when it changed one row, the status of the run;
  then the refused transition or the step as stored.
\<close>

definition step_transition :: "string \<Rightarrow> string \<Rightarrow> string \<Rightarrow> (step_row \<Rightarrow> bool) \<Rightarrow> (step_row \<Rightarrow> step_row) \<Rightarrow> string \<Rightarrow> int \<Rightarrow> run_db
   \<Rightarrow> (RunStoreError + RunStepRecord) \<times> run_db" where
  "step_transition rid sid operation p f status now s =
     (if count_where p (run_steps s) = 1
      then let s1 = set_run_status rid status now (update_steps p f s) in (required_step rid sid s1, s1)
      else let s1 = update_steps p f s in (Inl (transition_error rid sid operation s1), s1))"

definition claim_step :: "string \<Rightarrow> string \<Rightarrow> string \<Rightarrow> int \<Rightarrow> int \<Rightarrow> run_db \<Rightarrow> (RunStoreError + RunStepRecord) \<times> run_db" where
  "claim_step rid sid owner now expires s = (case observe_execution_budget_at_second rid now s of
      (Inl e, s1) \<Rightarrow> (Inl (RunDb e), s1)
    | (Inr _, s1) \<Rightarrow>
        if expires \<le> now then (Inl (InvalidLease now expires), s1)
        else step_transition rid sid ''claim'' (claimable_step rid sid now s1)
          (\<lambda>r. r\<lparr>sr_status := ''running'', sr_attempt := sr_attempt r + 1, sr_lease_owner := Some owner,
                 sr_lease_expires_at := Some expires,
                 sr_started_at := (case sr_started_at r of None \<Rightarrow> Some now | t \<Rightarrow> t)\<rparr>) ''running'' now s1)"

definition finish_step :: "string \<Rightarrow> string \<Rightarrow> string \<Rightarrow> RunStepStatus \<Rightarrow> string option \<Rightarrow> int \<Rightarrow> run_db
   \<Rightarrow> (RunStoreError + RunStepRecord) \<times> run_db" where
  "finish_step rid sid owner st output_ref at s =
     step_transition rid sid (RunStepStatus_as_str st) (leased_step rid sid owner)
       (\<lambda>r. r\<lparr>sr_status := RunStepStatus_as_str st, sr_output_ref := output_ref, sr_lease_owner := None,
              sr_lease_expires_at := None, sr_completed_at := Some at\<rparr>)
       (if st = StepFailed then ''failed'' else ''running'') at s"

definition complete_step :: "string \<Rightarrow> string \<Rightarrow> string \<Rightarrow> string option \<Rightarrow> int \<Rightarrow> run_db \<Rightarrow> (RunStoreError + RunStepRecord) \<times> run_db" where
  "complete_step rid sid owner output_ref at = finish_step rid sid owner StepCompleted output_ref at"

definition fail_step :: "string \<Rightarrow> string \<Rightarrow> string \<Rightarrow> string option \<Rightarrow> int \<Rightarrow> run_db \<Rightarrow> (RunStoreError + RunStepRecord) \<times> run_db" where
  "fail_step rid sid owner output_ref at = finish_step rid sid owner StepFailed output_ref at"

text \<open>\<open>COALESCE\<close>.\<close>

abbreviation coalesce :: "'a option \<Rightarrow> 'a option \<Rightarrow> 'a option" where
  "coalesce a b \<equiv> (case a of None \<Rightarrow> b | Some _ \<Rightarrow> a)"

text \<open>A step waits; a new approval id that another step holds violates the unique index and rolls back.\<close>

definition wait_step :: "string \<Rightarrow> string \<Rightarrow> string \<Rightarrow> string option \<Rightarrow> int \<Rightarrow> run_db \<Rightarrow> (RunStoreError + RunStepRecord) \<times> run_db" where
  "wait_step rid sid owner approval_id now s = (case required_step rid sid s of
      Inl e \<Rightarrow> (Inl e, s)
    | Inr st \<Rightarrow>
        if step_kind st = ApprovalWait \<and> coalesce approval_id (step_approval_id st) = None
        then (Inl (Conflict ''approval_wait steps require an approval_id''), s)
        else if approval_id \<noteq> None \<and> list_ex (leased_step rid sid owner) (run_steps s) \<and>
            list_ex (\<lambda>q. \<not> step_key rid sid q \<and> sr_approval_id q = approval_id) (run_steps s)
        then (Inl (RunDb (Sqlite (ConstraintViolation ''UNIQUE constraint failed: state_run_steps.approval_id''))), s)
        else step_transition rid sid ''wait'' (leased_step rid sid owner)
          (\<lambda>r. r\<lparr>sr_status := ''waiting'', sr_approval_id := coalesce approval_id (sr_approval_id r), sr_lease_owner := None,
                 sr_lease_expires_at := None\<rparr>) ''waiting'' now s)"

definition resume_waiting_step :: "string \<Rightarrow> string \<Rightarrow> string option \<Rightarrow> int \<Rightarrow> run_db \<Rightarrow> (RunStoreError + RunStepRecord) \<times> run_db" where
  "resume_waiting_step rid sid approval_id now s =
     step_transition rid sid ''resume''
       (\<lambda>r. step_key rid sid r \<and> sr_status r = ''waiting'' \<and>
            (case sr_approval_id r of None \<Rightarrow> True | Some a \<Rightarrow> approval_id = Some a))
       (\<lambda>r. r\<lparr>sr_status := ''pending''\<rparr>) ''pending'' now s"

section \<open>Effects\<close>

text \<open>\<open>INSERT OR IGNORE INTO state_outbox\<close>; the row of the key afterwards.\<close>

definition insert_outbox_or_ignore :: "OutboxRow \<Rightarrow> database \<Rightarrow> database" where
  "insert_outbox_or_ignore row db = (case insert_outbox row None db of Inl _ \<Rightarrow> db | Inr (_, db1) \<Rightarrow> db1)"

definition enqueue_tx :: "string \<Rightarrow> string \<Rightarrow> string \<Rightarrow> OutboxRow \<Rightarrow> string option \<Rightarrow> int \<Rightarrow> run_db \<Rightarrow> DbError + unit \<times> run_db" where
  "enqueue_tx rid sid owner row output_ref at s =
     (let s1 = s\<lparr>core := insert_outbox_or_ignore row (core s)\<rparr> in
      case find (\<lambda>r. ob_idempotency_key r = o_idempotency_key row) (state_outbox (core s1)) of
        None \<Rightarrow> Inl (Sqlite QueryReturnedNoRows)
      | Some ob \<Rightarrow>
          if ob_conversation_id ob \<noteq> o_conversation_id row \<or> ob_effect_kind ob \<noteq> o_effect_kind row \<or>
             ob_payload ob \<noteq> o_payload row \<or> ob_enqueued_seq ob \<noteq> o_enqueued_seq row
          then Inl (Invariant (''outbox key '' @ o_idempotency_key row @ '' was already used for a different effect''))
          else if count_where (leased_step rid sid owner) (run_steps s1) = 1
          then Inr ((), set_run_status rid ''running'' at (update_steps (leased_step rid sid owner)
            (\<lambda>r. r\<lparr>sr_status := ''completed'', sr_output_ref := output_ref, sr_lease_owner := None, sr_lease_expires_at := None,
                   sr_completed_at := Some at\<rparr>) s1))
          else (case find_step rid sid s1 of
              Some r \<Rightarrow> if sr_status r = ''completed'' then Inr ((), s1)
                else Inl (Invariant (''step '' @ rid @ ''/'' @ sid @ '' cannot complete from '' @ sr_status r))
            | None \<Rightarrow> Inl (Invariant (''step '' @ rid @ ''/'' @ sid @ '' cannot complete from missing''))))"

definition enqueue_outbox_and_complete_step :: "string \<Rightarrow> string \<Rightarrow> string \<Rightarrow> OutboxRow \<Rightarrow> string option \<Rightarrow> int \<Rightarrow> run_db
   \<Rightarrow> (RunStoreError + RunStepRecord) \<times> run_db" where
  "enqueue_outbox_and_complete_step rid sid owner row output_ref at s = (case required_step rid sid s of
      Inl e \<Rightarrow> (Inl e, s)
    | Inr st \<Rightarrow>
        if step_kind st \<notin> {OutboxEnqueue, ToolDispatch}
        then (Inl (Conflict (''step '' @ sid @ '' is not an effect-enqueue step'')), s)
        else if step_outbox_idempotency_key st \<noteq> Some (o_idempotency_key row)
        then (Inl (Conflict (''step '' @ sid @ '' does not reserve outbox key '' @ o_idempotency_key row)), s)
        else (case required_run rid s of
            Inl e \<Rightarrow> (Inl e, s)
          | Inr run \<Rightarrow>
              if run_conversation_id run \<noteq> o_conversation_id row
              then (Inl (Conflict ''run and outbox row must share a conversation''), s)
              else (case transaction (enqueue_tx rid sid owner row output_ref at) s of
                  (Inl e, s1) \<Rightarrow> (Inl (RunDb e), s1)
                | (Inr _, s1) \<Rightarrow> (required_step rid sid s1, s1))))"

section \<open>The cursor\<close>

definition refused_run :: "string \<Rightarrow> string \<Rightarrow> run_db \<Rightarrow> RunStoreError" where
  "refused_run rid operation s = (case required_run rid s of
      Inl e \<Rightarrow> e
    | Inr r \<Rightarrow> InvalidTransition ''run'' rid (RunStatus_as_str (run_status r)) operation)"

definition step_at :: "string \<Rightarrow> int \<Rightarrow> run_db \<Rightarrow> step_row option" where
  "step_at rid ordinal s = find (\<lambda>r. sr_run_id r = rid \<and> sr_ordinal r = ordinal) (run_steps s)"

definition run_at :: "string \<Rightarrow> int \<Rightarrow> run_row \<Rightarrow> bool" where
  "run_at rid cursor r \<longleftrightarrow> rn_run_id r = rid \<and> rn_cursor r = cursor \<and> active (rn_status r)"

definition advance_cursor :: "string \<Rightarrow> int \<Rightarrow> int \<Rightarrow> run_db \<Rightarrow> (RunStoreError + RunRecord) \<times> run_db" where
  "advance_cursor rid expected now s =
     (if map_option sr_status (step_at rid expected s) \<noteq> Some ''completed'' then (Inl (refused_run rid ''advance cursor'' s), s)
      else let s1 = update_runs (run_at rid expected)
                 (\<lambda>r. r\<lparr>rn_cursor := rn_cursor r + 1, rn_updated_at := now, rn_status := ''pending''\<rparr>) s in
        if count_where (run_at rid expected) (run_rows s) = 1 then (required_run rid s1, s1)
        else (Inl (refused_run rid ''advance cursor'' s1), s1))"

definition complete_run :: "string \<Rightarrow> int \<Rightarrow> int \<Rightarrow> run_db \<Rightarrow> (RunStoreError + RunRecord) \<times> run_db" where
  "complete_run rid expected at s =
     (let p = (\<lambda>r. run_at rid expected r \<and> step_at rid expected s = None);
          s1 = update_runs p (\<lambda>r. r\<lparr>rn_status := ''completed'', rn_updated_at := at\<rparr>) s in
      if count_where p (run_rows s) = 1 then (required_run rid s1, s1) else (Inl (refused_run rid ''complete'' s1), s1))"

section \<open>Termination of a run\<close>

text \<open>
  \<open>WITH RECURSIVE ... UNION\<close>: the queue algorithm of SQLite. A row leaves the queue, its children that were never
  seen enter it.
\<close>

definition children_of :: "run_row list \<Rightarrow> string \<Rightarrow> string list" where
  "children_of rows p = map rn_run_id (filter (\<lambda>r. rn_parent_run_id r = Some p) rows)"

function recurse_children :: "run_row list \<Rightarrow> string list \<Rightarrow> string list \<Rightarrow> string list" where
  "recurse_children rows [] seen = seen"
| "recurse_children rows (x # queue) seen =
     (let new = filter (\<lambda>c. c \<notin> set seen) (remdups (children_of rows x)) in
      recurse_children rows (queue @ new) (seen @ new))"
  by pat_completeness auto
termination
proof (relation "(\<lambda>(rows, queue, seen). card (rn_run_id ` set rows - set seen)) <*mlex*> measure (\<lambda>(rows, queue, seen). length queue)")
  show "wf ((\<lambda>(rows, queue, seen). card (rn_run_id ` set rows - set seen)) <*mlex*> measure (\<lambda>(rows, queue, seen). length queue))"
    by (intro wf_mlex wf_measure)
next
  fix rows :: "run_row list" and x queue seen and new :: "string list"
  assume new: "new = filter (\<lambda>c. c \<notin> set seen) (remdups (children_of rows x))"
  have sub: "set new \<subseteq> rn_run_id ` set rows - set seen" unfolding new by (auto simp: children_of_def)
  show "((rows, queue @ new, seen @ new), (rows, x # queue, seen))
    \<in> (\<lambda>(rows, queue, seen). card (rn_run_id ` set rows - set seen)) <*mlex*> measure (\<lambda>(rows, queue, seen). length queue)"
  proof (cases "new = []")
    case True
    then show ?thesis by (simp add: mlex_prod_def)
  next
    case False
    then have "rn_run_id ` set rows - set (seen @ new) \<subset> rn_run_id ` set rows - set seen" using sub by (cases new) auto
    then have "card (rn_run_id ` set rows - set (seen @ new)) < card (rn_run_id ` set rows - set seen)"
      by (rule psubset_card_mono [rotated]) simp
    then show ?thesis by (simp add: mlex_prod_def)
  qed
qed

definition descendants :: "run_row list \<Rightarrow> string \<Rightarrow> string list" where
  "descendants rows rid = recurse_children rows (remdups (children_of rows rid)) (remdups (children_of rows rid))"

definition cancelled_runs :: "run_row list \<Rightarrow> string \<Rightarrow> string list" where
  "cancelled_runs rows rid = recurse_children rows [rid] [rid]"

text \<open>The closing of unfinished steps that cancellation and failure share.\<close>

definition close_steps :: "(string \<Rightarrow> bool) \<Rightarrow> (string option \<Rightarrow> string option) \<Rightarrow> int \<Rightarrow> run_db \<Rightarrow> run_db" where
  "close_steps of_run output at = update_steps (\<lambda>r. of_run (sr_run_id r) \<and> active (sr_status r))
     (\<lambda>r. r\<lparr>sr_status := ''failed'', sr_output_ref := output (sr_output_ref r), sr_lease_owner := None, sr_lease_expires_at := None,
            sr_completed_at := Some at\<rparr>)"

definition cancel_run :: "string \<Rightarrow> int \<Rightarrow> run_db \<Rightarrow> bool \<times> run_db" where
  "cancel_run rid at s = (case find (\<lambda>r. rn_run_id r = rid) (run_rows s) of
      None \<Rightarrow> (False, s)
    | Some prior \<Rightarrow>
        let p = (\<lambda>r. rn_run_id r = rid \<and> active (rn_status r));
            changed = count_where p (run_rows s);
            cancel = (\<lambda>r. r\<lparr>rn_status := ''cancelled'', rn_updated_at := at\<rparr>);
            s1 = update_runs p cancel s in
        if changed = 0 \<and> rn_status prior \<noteq> ''cancelled'' then (False, s1)
        else let s2 = update_runs (\<lambda>r. rn_run_id r \<in> set (descendants (run_rows s1) rid) \<and> active (rn_status r)) cancel s1;
                 s3 = close_steps (\<lambda>i. i \<in> set (cancelled_runs (run_rows s2) rid)) (\<lambda>_. Some ''error:cancelled'') at s2 in
          (changed = 1, s3))"

definition fail_run :: "string \<Rightarrow> int \<Rightarrow> run_db \<Rightarrow> bool \<times> run_db" where
  "fail_run rid at s =
     (let p = (\<lambda>r. rn_run_id r = rid \<and> active (rn_status r));
          s1 = update_runs p (\<lambda>r. r\<lparr>rn_status := ''failed'', rn_updated_at := at\<rparr>) s in
      if count_where p (run_rows s) = 0 then (False, s1)
      else (True, close_steps (\<lambda>i. i = rid) (\<lambda>out. coalesce out (Some ''error:run_failed'')) at s1))"

definition fail_run_if_budget_expired :: "string \<Rightarrow> int \<Rightarrow> run_db \<Rightarrow> (RunStoreError + bool) \<times> run_db" where
  "fail_run_if_budget_expired rid now_ms s = (case execution_budget_at rid now_ms s of
      (Inl e, s1) \<Rightarrow> (Inl (RunDb e), s1)
    | (Inr _, s1) \<Rightarrow>
        let p = (\<lambda>r. rn_run_id r = rid \<and> active (rn_status r) \<and>
                   list_ex (\<lambda>b. eb_run_id b = rid \<and> eb_deadline_at_ms b \<le> now_ms) (exec_budgets s1));
            s2 = update_runs p (\<lambda>r. r\<lparr>rn_status := ''failed'', rn_updated_at := now_ms div 1000\<rparr>) s1 in
        if count_where p (run_rows s1) = 0 then (Inr False, s2)
        else (Inr True, close_steps (\<lambda>i. i = rid) (\<lambda>out. coalesce out (Some ''error:run_budget_expired'')) (now_ms div 1000) s2))"

section \<open>Recovery\<close>

definition next_safe_action :: "string \<Rightarrow> int \<Rightarrow> run_db \<Rightarrow> RunStoreError + NextSafeAction" where
  "next_safe_action rid now s = (case required_run rid s of
      Inl e \<Rightarrow> Inl e
    | Inr run \<Rightarrow> (case run_status run of
        RunCompleted \<Rightarrow> Inr NextRunCompleted
      | RunFailed \<Rightarrow> Inr NextRunFailed
      | RunCancelled \<Rightarrow> Inr NextRunCancelled
      | _ \<Rightarrow> (case step_at rid (run_cursor run) s of
          None \<Rightarrow> Inr (CompleteRun (run_cursor run))
        | Some r \<Rightarrow> (case row_to_step r of
            Inl e \<Rightarrow> Inl e
          | Inr st \<Rightarrow> Inr (case step_status st of
              StepPending \<Rightarrow> ClaimStep st
            | StepRunning \<Rightarrow>
                if (case step_lease_expires_at st of None \<Rightarrow> False | Some e \<Rightarrow> e \<le> now) then ReclaimExpired st else WaitForLease st
            | StepWaiting \<Rightarrow> if step_approval_id st \<noteq> None then WaitForApproval st else WaitStep st
            | StepCompleted \<Rightarrow> AdvanceCursor st
            | StepFailed \<Rightarrow> NextRunFailed)))))"

definition recovery_candidates :: "int \<Rightarrow> nat \<Rightarrow> run_db \<Rightarrow> RunStoreError + (RunRecord \<times> NextSafeAction) list" where
  "recovery_candidates now limit s =
     (case collect_runs (take (clamp 1 500 limit) (in_start_order (filter (\<lambda>r. active (rn_status r)) (run_rows s)))) of
        Inl e \<Rightarrow> Inl e
      | Inr runs \<Rightarrow> collect_results (map (\<lambda>run. map_sum id (Pair run) (next_safe_action (run_id run) now s)) runs))"

text \<open>
  The inner loop of \<open>recover_completed_transitions\<close>, for one run: it ends when no completed checkpoint is left at the cursor, or
  at the limit on transitions, which \<open>budget\<close> counts down; the flag tells that the limit ended it.
\<close>

fun recover_run :: "int \<Rightarrow> nat \<Rightarrow> RunRecord \<Rightarrow> NextSafeAction \<Rightarrow> run_db
   \<Rightarrow> (RunStoreError + RunRecoveryTransition list \<times> bool) \<times> run_db" where
  "recover_run now 0 run action s = (Inr ([], True), s)"
| "recover_run now (Suc budget) run action s = (case action of
      AdvanceCursor _ \<Rightarrow> (case advance_cursor (run_id run) (run_cursor run) now s of
          (Inl e, s1) \<Rightarrow> (Inl e, s1)
        | (Inr run1, s1) \<Rightarrow>
            let t = \<lparr>rt_run_id = run_id run1, rt_action = ''advance_completed_checkpoint'', rt_from_cursor = run_cursor run,
                     rt_to_cursor = run_cursor run1, rt_resulting_status = run_status run1\<rparr> in
            (case next_safe_action (run_id run1) now s1 of
               Inl e \<Rightarrow> (Inl e, s1)
             | Inr action1 \<Rightarrow> (case recover_run now budget run1 action1 s1 of
                 (Inl e, s2) \<Rightarrow> (Inl e, s2)
               | (Inr (ts, stop), s2) \<Rightarrow> (Inr (t # ts, stop), s2))))
    | CompleteRun cursor \<Rightarrow> (case complete_run (run_id run) cursor now s of
          (Inl e, s1) \<Rightarrow> (Inl e, s1)
        | (Inr run1, s1) \<Rightarrow>
            (Inr ([\<lparr>rt_run_id = run_id run1, rt_action = ''complete_empty_cursor'', rt_from_cursor = cursor, rt_to_cursor = cursor,
                    rt_resulting_status = run_status run1\<rparr>], False), s1))
    | _ \<Rightarrow> (Inr ([], False), s))"

fun recover_runs :: "int \<Rightarrow> nat \<Rightarrow> (RunRecord \<times> NextSafeAction) list \<Rightarrow> run_db
   \<Rightarrow> (RunStoreError + RunRecoveryTransition list) \<times> run_db" where
  "recover_runs now budget [] s = (Inr [], s)"
| "recover_runs now budget ((run, action) # rest) s = (case recover_run now budget run action s of
      (Inl e, s1) \<Rightarrow> (Inl e, s1)
    | (Inr (ts, True), s1) \<Rightarrow> (Inr ts, s1)
    | (Inr (ts, False), s1) \<Rightarrow> (case recover_runs now (budget - length ts) rest s1 of
        (Inl e, s2) \<Rightarrow> (Inl e, s2)
      | (Inr us, s2) \<Rightarrow> (Inr (ts @ us), s2)))"

definition recover_completed_transitions :: "int \<Rightarrow> nat \<Rightarrow> nat \<Rightarrow> run_db \<Rightarrow> (RunStoreError + RunRecoveryTransition list) \<times> run_db" where
  "recover_completed_transitions now candidate_limit transition_limit s = (case recovery_candidates now candidate_limit s of
      Inl e \<Rightarrow> (Inl e, s)
    | Inr candidates \<Rightarrow> recover_runs now (clamp 1 2000 transition_limit) candidates s)"

section \<open>Inference attempts\<close>

definition attempt_key :: "string \<Rightarrow> string \<Rightarrow> attempt_row \<Rightarrow> bool" where
  "attempt_key rid sid a \<longleftrightarrow> ia_run_id a = rid \<and> ia_step_id a = sid"

text \<open>\<open>SELECT COALESCE(MAX(attempt_no), 0) + 1\<close>.\<close>

definition next_attempt :: "string \<Rightarrow> string \<Rightarrow> run_db \<Rightarrow> int" where
  "next_attempt rid sid s = (case map ia_attempt_no (filter (attempt_key rid sid) (inference_attempts s)) of
     [] \<Rightarrow> 0 | n # ns \<Rightarrow> fold max ns n) + 1"

definition start_inference_attempt :: "string \<Rightarrow> string \<Rightarrow> string \<Rightarrow> int \<Rightarrow> run_db \<Rightarrow> (DbError + int) \<times> run_db" where
  "start_inference_attempt rid sid owner started_at = transaction (\<lambda>s.
     if \<not> list_ex (\<lambda>r. leased_step rid sid owner r \<and> sr_kind r = ''model_request'') (run_steps s)
     then Inl (Invariant (''worker does not own inference step '' @ rid @ ''/'' @ sid))
     else let s1 = s\<lparr>inference_attempts := update_where (\<lambda>a. attempt_key rid sid a \<and> ia_status a = ''started'')
                (\<lambda>a. a\<lparr>ia_status := ''retrying'', ia_finished_at := Some started_at, ia_error_class := Some ''interrupted''\<rparr>)
                (inference_attempts s)\<rparr>;
              n = next_attempt rid sid s1 in
       if 2 ^ 32 \<le> n then Inl (Invariant ''inference attempt counter overflow'')
       else Inr (n, s1\<lparr>inference_attempts := inference_attempts s1 @
         [\<lparr>ia_run_id = rid, ia_step_id = sid, ia_attempt_no = n, ia_status = ''started'', ia_error_class = None,
           ia_started_at = started_at, ia_finished_at = None\<rparr>]\<rparr>))"

definition update_attempt :: "(attempt_row \<Rightarrow> bool) \<Rightarrow> (attempt_row \<Rightarrow> attempt_row) \<Rightarrow> string \<Rightarrow> string \<Rightarrow> nat \<Rightarrow> run_db
   \<Rightarrow> (RunStoreError + unit) \<times> run_db" where
  "update_attempt p f rid sid attempt_no s =
     (let s1 = s\<lparr>inference_attempts := update_where p f (inference_attempts s)\<rparr> in
      if count_where p (inference_attempts s) \<noteq> 1
      then (Inl (Conflict (''inference attempt '' @ rid @ ''/'' @ sid @ ''/'' @ show_nat attempt_no @ '' is not active'')), s1)
      else (Inr (), s1))"

definition finish_inference_attempt :: "string \<Rightarrow> string \<Rightarrow> nat \<Rightarrow> bool \<Rightarrow> string option \<Rightarrow> int \<Rightarrow> run_db
   \<Rightarrow> (RunStoreError + unit) \<times> run_db" where
  "finish_inference_attempt rid sid attempt_no succeeded error_class at =
     update_attempt (\<lambda>a. attempt_key rid sid a \<and> ia_attempt_no a = int attempt_no \<and> ia_status a \<in> {''started'', ''retrying''})
       (\<lambda>a. a\<lparr>ia_status := (if succeeded then ''succeeded'' else ''failed''), ia_error_class := error_class,
              ia_finished_at := Some at\<rparr>) rid sid attempt_no"

definition mark_inference_attempt_retrying :: "string \<Rightarrow> string \<Rightarrow> nat \<Rightarrow> string \<Rightarrow> int \<Rightarrow> run_db \<Rightarrow> (RunStoreError + unit) \<times> run_db" where
  "mark_inference_attempt_retrying rid sid attempt_no error_class at =
     update_attempt (\<lambda>a. attempt_key rid sid a \<and> ia_attempt_no a = int attempt_no \<and> ia_status a = ''started'')
       (\<lambda>a. a\<lparr>ia_status := ''retrying'', ia_error_class := Some error_class, ia_finished_at := Some at\<rparr>) rid sid attempt_no"

end
