(* ===== verification/Run_Machine.thy ===== *)
theory Run_Machine
  imports Runs
begin

text \<open>
  The durable run store as a state machine: the invariant that the run and step tables keep, its preservation by every
  operation, and the reachability that the recursive queries of cancellation compute.
\<close>

section \<open>Rows of an updated table\<close>

lemma update_where_keeps: "r \<in> set rows \<Longrightarrow> \<not> p r \<Longrightarrow> r \<in> set (update_where p f rows)"
  by (induction rows) auto

lemma update_where_changes: "r \<in> set rows \<Longrightarrow> p r \<Longrightarrow> f r \<in> set (update_where p f rows)"
  by (induction rows) auto

lemma update_where_cases:
  assumes "x \<in> set (update_where p f rows)"
  obtains (kept) "x \<in> set rows" "\<not> p x" | (changed) r where "r \<in> set rows" "p r" "x = f r"
  using assms by (auto simp: update_where_def split: if_splits)

lemma status_texts [simp]:
  "RunStatus_parse ''pending'' = Some RunPending" "RunStatus_parse ''running'' = Some RunRunning"
  "RunStatus_parse ''waiting'' = Some RunWaiting" "RunStatus_parse ''completed'' = Some RunCompleted"
  "RunStatus_parse ''failed'' = Some RunFailed" "RunStatus_parse ''cancelled'' = Some RunCancelled"
  "RunStepStatus_parse ''pending'' = Some StepPending" "RunStepStatus_parse ''running'' = Some StepRunning"
  "RunStepStatus_parse ''waiting'' = Some StepWaiting" "RunStepStatus_parse ''completed'' = Some StepCompleted"
  "RunStepStatus_parse ''failed'' = Some StepFailed"
  by (simp_all add: RunStatus_parse_def RunStepStatus_parse_def)

section \<open>The subtree of a run\<close>

definition child_rel :: "run_row list \<Rightarrow> (string \<times> string) set" where
  "child_rel rows = {(p, c). \<exists>r \<in> set rows. rn_parent_run_id r = Some p \<and> rn_run_id r = c}"

lemma set_children_of [simp]: "set (children_of rows p) = child_rel rows `` {p}"
  by (auto simp: children_of_def child_rel_def)

lemma recurse_children_reach:
  assumes "set queue \<subseteq> set seen" "child_rel rows `` (set seen - set queue) \<subseteq> set seen"
  shows "set (recurse_children rows queue seen) = (child_rel rows)\<^sup>* `` set seen"
  using assms
proof (induction rows queue seen rule: recurse_children.induct)
  case (1 rows seen)
  then have "child_rel rows `` set seen \<subseteq> set seen" by simp
  then have "(child_rel rows)\<^sup>* `` set seen = set seen" by (rule Image_closed_trancl)
  then show ?case by simp
next
  case (2 rows x queue seen)
  define new where "new = filter (\<lambda>c. c \<notin> set seen) (remdups (children_of rows x))"
  have new: "set new = child_rel rows `` {x} - set seen" by (auto simp: new_def)
  have "child_rel rows `` (set (seen @ new) - set (queue @ new)) \<subseteq> set (seen @ new)"
  proof
    fix c assume "c \<in> child_rel rows `` (set (seen @ new) - set (queue @ new))"
    then obtain p where p: "p \<in> set seen" "p \<notin> set queue" "(p, c) \<in> child_rel rows" by auto
    show "c \<in> set (seen @ new)"
    proof (cases "p = x")
      case True
      with p show ?thesis by (auto simp: new)
    next
      case False
      with p "2.prems"(2) show ?thesis by auto
    qed
  qed
  moreover have "set (queue @ new) \<subseteq> set (seen @ new)" using "2.prems"(1) by auto
  ultimately have "set (recurse_children rows (queue @ new) (seen @ new)) = (child_rel rows)\<^sup>* `` set (seen @ new)"
    using "2.IH" [of new] by (simp add: new_def)
  also have "\<dots> = (child_rel rows)\<^sup>* `` set seen"
    using "2.prems"(1) by (auto simp: new intro: converse_rtrancl_into_rtrancl)
  finally show ?case by (simp add: new_def Let_def)
qed

lemma cancelled_runs_reach: "set (cancelled_runs rows rid) = (child_rel rows)\<^sup>* `` {rid}"
  unfolding cancelled_runs_def by (subst recurse_children_reach) auto

lemma descendants_reach: "set (descendants rows rid) = (child_rel rows)\<^sup>+ `` {rid}"
proof -
  have "set (descendants rows rid) = (child_rel rows)\<^sup>* `` (child_rel rows `` {rid})"
    unfolding descendants_def by (subst recurse_children_reach) auto
  also have "\<dots> = (child_rel rows)\<^sup>+ `` {rid}" unfolding trancl_unfold_left by blast
  finally show ?thesis .
qed

lemma child_rel_update [simp]:
  assumes "\<And>r. rn_run_id (f r) = rn_run_id r" "\<And>r. rn_parent_run_id (f r) = rn_parent_run_id r"
  shows "child_rel (update_where p f rows) = child_rel rows"
proof -
  have "rn_parent_run_id (if p r then f r else r) = rn_parent_run_id r" "rn_run_id (if p r then f r else r) = rn_run_id r" for r
    using assms by simp_all
  then show ?thesis unfolding child_rel_def set_update_where bex_simps by simp
qed

section \<open>The invariant\<close>

text \<open>The checks of a step row: a lease exactly while running, a completion time exactly when terminal.\<close>

definition step_row_ok :: "step_row \<Rightarrow> bool" where
  "step_row_ok r \<longleftrightarrow> RunStepKind_parse (sr_kind r) \<noteq> None \<and> RunStepStatus_parse (sr_status r) \<noteq> None \<and> 0 \<le> sr_ordinal r \<and>
     (sr_lease_owner r = None \<longleftrightarrow> sr_lease_expires_at r = None) \<and> (sr_status r = ''running'' \<longleftrightarrow> sr_lease_owner r \<noteq> None) \<and>
     (sr_status r \<in> {''completed'', ''failed''} \<longleftrightarrow> sr_completed_at r \<noteq> None)"

definition step_ids :: "step_row \<Rightarrow> string \<times> string" where
  "step_ids r = (sr_run_id r, sr_step_id r)"

definition step_slot :: "step_row \<Rightarrow> string \<times> int" where
  "step_slot r = (sr_run_id r, sr_ordinal r)"

text \<open>A step under way is at the cursor of an active run.\<close>

definition live_at_cursor :: "run_row list \<Rightarrow> step_row \<Rightarrow> bool" where
  "live_at_cursor rows r \<longleftrightarrow> sr_status r \<in> {''running'', ''waiting''} \<longrightarrow>
     (\<exists>n \<in> set rows. rn_run_id n = sr_run_id r \<and> active (rn_status n) \<and> rn_cursor n = sr_ordinal r)"

text \<open>The cursor has passed completed steps only.\<close>

definition passed :: "step_row list \<Rightarrow> run_row \<Rightarrow> bool" where
  "passed steps n \<longleftrightarrow> 0 \<le> rn_cursor n \<and> (\<forall>k. 0 \<le> k \<and> k < rn_cursor n \<longrightarrow>
     (\<exists>r \<in> set steps. sr_run_id r = rn_run_id n \<and> sr_ordinal r = k \<and> sr_status r = ''completed''))"

definition runs_ok :: "run_row list \<Rightarrow> bool" where
  "runs_ok rows \<longleftrightarrow> distinct (map rn_run_id rows) \<and> (\<forall>n \<in> set rows. RunStatus_parse (rn_status n) \<noteq> None)"

definition steps_ok :: "step_row list \<Rightarrow> bool" where
  "steps_ok steps \<longleftrightarrow> distinct (map step_ids steps) \<and> distinct (map step_slot steps) \<and> (\<forall>r \<in> set steps. step_row_ok r)"

definition run_store_ok :: "run_db \<Rightarrow> bool" where
  "run_store_ok s \<longleftrightarrow> runs_ok (run_rows s) \<and> steps_ok (run_steps s) \<and>
     (\<forall>r \<in> set (run_steps s). live_at_cursor (run_rows s) r) \<and> (\<forall>n \<in> set (run_rows s). passed (run_steps s) n)"

lemma run_store_okI:
  "runs_ok (run_rows s) \<Longrightarrow> steps_ok (run_steps s) \<Longrightarrow> (\<And>r. r \<in> set (run_steps s) \<Longrightarrow> live_at_cursor (run_rows s) r) \<Longrightarrow>
   (\<And>n. n \<in> set (run_rows s) \<Longrightarrow> passed (run_steps s) n) \<Longrightarrow> run_store_ok s"
  by (simp add: run_store_ok_def)

lemma run_store_okD:
  assumes "run_store_ok s"
  shows "runs_ok (run_rows s)" "steps_ok (run_steps s)" "r \<in> set (run_steps s) \<Longrightarrow> live_at_cursor (run_rows s) r"
    "n \<in> set (run_rows s) \<Longrightarrow> passed (run_steps s) n"
  using assms by (simp_all add: run_store_ok_def)

lemma run_store_ok_cong: "run_rows s' = run_rows s \<Longrightarrow> run_steps s' = run_steps s \<Longrightarrow> run_store_ok s' = run_store_ok s"
  by (simp add: run_store_ok_def)

lemma empty_run_db_ok: "run_store_ok empty_run_db"
  by (simp add: run_store_ok_def empty_run_db_def empty_database_def runs_ok_def steps_ok_def)

section \<open>Unique rows\<close>

lemma runs_unique: "runs_ok rows \<Longrightarrow> m \<in> set rows \<Longrightarrow> n \<in> set rows \<Longrightarrow> rn_run_id m = rn_run_id n \<Longrightarrow> m = n"
  by (auto simp: runs_ok_def distinct_map inj_on_def)

lemma steps_unique:
  "steps_ok steps \<Longrightarrow> q \<in> set steps \<Longrightarrow> r \<in> set steps \<Longrightarrow> step_key (sr_run_id q) (sr_step_id q) r \<Longrightarrow> q = r"
  "steps_ok steps \<Longrightarrow> q \<in> set steps \<Longrightarrow> r \<in> set steps \<Longrightarrow> step_slot q = step_slot r \<Longrightarrow> q = r"
  by (auto simp: steps_ok_def step_ids_def distinct_map inj_on_def)

lemma count_where_pos: "count_where p xs \<noteq> 0 \<Longrightarrow> \<exists>x \<in> set xs. p x"
  by (auto simp: count_where_def filter_empty_conv)

lemma count_where_distinct:
  assumes "distinct (map k xs)" "\<And>x y. p x \<Longrightarrow> p y \<Longrightarrow> k x = k y"
  shows "count_where p xs = of_bool (\<exists>x \<in> set xs. p x)"
proof -
  have "distinct (map k (filter p xs))" using assms(1) by (rule distinct_map_filter)
  have "length (filter p xs) \<le> 1"
  proof (cases "filter p xs")
    case (Cons a as)
    have "as = []"
    proof (rule ccontr)
      assume "as \<noteq> []"
      then obtain b bs where "as = b # bs" by (cases as) auto
      with Cons have ab: "filter p xs = a # b # bs" by simp
      then have "a \<in> set (filter p xs)" "b \<in> set (filter p xs)" by simp_all
      then have "k a = k b" using assms(2) by simp
      with \<open>distinct (map k (filter p xs))\<close> ab show False by simp
    qed
    with Cons show ?thesis by simp
  qed simp
  moreover have "filter p xs = [] \<longleftrightarrow> \<not> (\<exists>x \<in> set xs. p x)" by (auto simp: filter_empty_conv)
  ultimately show ?thesis by (cases "filter p xs") (auto simp: count_where_def)
qed

lemma count_steps_where:
  "steps_ok steps \<Longrightarrow> (\<And>r. p r \<Longrightarrow> step_key rid sid r) \<Longrightarrow> count_where p steps = of_bool (\<exists>r \<in> set steps. p r)"
  by (rule count_where_distinct [where k = step_ids]) (auto simp: steps_ok_def step_ids_def)

lemma count_runs_where:
  "runs_ok rows \<Longrightarrow> (\<And>n. p n \<Longrightarrow> rn_run_id n = rid) \<Longrightarrow> count_where p rows = of_bool (\<exists>n \<in> set rows. p n)"
  by (rule count_where_distinct [where k = rn_run_id]) (auto simp: runs_ok_def)

lemma find_run: "runs_ok rows \<Longrightarrow> n \<in> set rows \<Longrightarrow> find (\<lambda>r. rn_run_id r = rn_run_id n) rows = Some n"
  by (rule find_distinct_key) (auto simp: runs_ok_def)

lemma at_cursor_iff:
  assumes "runs_ok (run_rows s)"
  shows "at_cursor s r \<longleftrightarrow> (\<exists>n \<in> set (run_rows s). rn_run_id n = sr_run_id r \<and> active (rn_status n) \<and> rn_cursor n = sr_ordinal r)"
proof (cases "find (\<lambda>n. rn_run_id n = sr_run_id r \<and> active (rn_status n)) (run_rows s)")
  case None
  then have "\<not> (\<exists>n \<in> set (run_rows s). rn_run_id n = sr_run_id r \<and> active (rn_status n))" by (auto simp: find_None_iff)
  with None show ?thesis by (auto simp: at_cursor_def)
next
  case (Some n)
  then have n: "n \<in> set (run_rows s)" "rn_run_id n = sr_run_id r" "active (rn_status n)" by (auto dest: find_SomeD)
  have "m = n" if "m \<in> set (run_rows s)" "rn_run_id m = sr_run_id r" for m
    using runs_unique [OF assms that(1) n(1)] that(2) n(2) by simp
  with n have "(\<exists>m \<in> set (run_rows s). rn_run_id m = sr_run_id r \<and> active (rn_status m) \<and> rn_cursor m = sr_ordinal r)
      \<longleftrightarrow> rn_cursor n = sr_ordinal r"
    by blast
  moreover have "at_cursor s r \<longleftrightarrow> sr_ordinal r = rn_cursor n" by (simp add: at_cursor_def Some)
  ultimately show ?thesis by (simp add: eq_commute)
qed

section \<open>Updates that keep the invariant\<close>

text \<open>An update of runs that keeps ids and cursors, and keeps active a run that has a step under way.\<close>

lemma update_runs_ok:
  assumes ok: "run_store_ok s"
    and f: "\<And>n. n \<in> set (run_rows s) \<Longrightarrow> p n \<Longrightarrow> rn_run_id (f n) = rn_run_id n \<and> rn_cursor (f n) = rn_cursor n \<and> RunStatus_parse (rn_status (f n)) \<noteq> None"
    and live: "\<And>n r. n \<in> set (run_rows s) \<Longrightarrow> p n \<Longrightarrow> r \<in> set (run_steps s) \<Longrightarrow> sr_run_id r = rn_run_id n \<Longrightarrow>
        sr_status r \<in> {''running'', ''waiting''} \<Longrightarrow> active (rn_status n) \<Longrightarrow> active (rn_status (f n))"
  shows "run_store_ok (update_runs p f s)"
proof (rule run_store_okI)
  let ?g = "\<lambda>n. if p n then f n else n"
  have ids: "map rn_run_id (update_where p f (run_rows s)) = map rn_run_id (run_rows s)" using f by (simp add: update_where_def)
  show "runs_ok (run_rows (update_runs p f s))"
    using run_store_okD(1) [OF ok] f unfolding runs_ok_def by (simp add: ids) (auto simp: set_update_where)
  show "steps_ok (run_steps (update_runs p f s))" using run_store_okD(2) [OF ok] by simp
  show "passed (run_steps (update_runs p f s)) n" if "n \<in> set (run_rows (update_runs p f s))" for n
  proof -
    from that obtain m where m: "m \<in> set (run_rows s)" "n = ?g m" by (auto simp: set_update_where)
    have "rn_run_id n = rn_run_id m \<and> rn_cursor n = rn_cursor m" using f [OF m(1)] m(2) by (cases "p m") auto
    with run_store_okD(4) [OF ok m(1)] show ?thesis by (simp add: passed_def)
  qed
  show "live_at_cursor (run_rows (update_runs p f s)) r" if "r \<in> set (run_steps (update_runs p f s))" for r
    unfolding live_at_cursor_def
  proof
    assume lv: "sr_status r \<in> {''running'', ''waiting''}"
    from that have r: "r \<in> set (run_steps s)" by simp
    with run_store_okD(3) [OF ok r] lv obtain n where n: "n \<in> set (run_rows s)" "rn_run_id n = sr_run_id r" "active (rn_status n)"
        "rn_cursor n = sr_ordinal r"
      unfolding live_at_cursor_def by blast
    then have "rn_run_id (?g n) = sr_run_id r \<and> active (rn_status (?g n)) \<and> rn_cursor (?g n) = sr_ordinal r"
      using f [OF n(1)] live [OF n(1) _ r] lv by (cases "p n") auto
    moreover have "?g n \<in> set (run_rows (update_runs p f s))" using n(1) by (simp add: set_update_where)
    ultimately show "\<exists>n \<in> set (run_rows (update_runs p f s)). rn_run_id n = sr_run_id r \<and> active (rn_status n) \<and> rn_cursor n = sr_ordinal r"
      by blast
  qed
qed

text \<open>An update of steps that are not completed, that keeps keys and the row checks, and starts steps at the cursor only.\<close>

lemma update_steps_ok:
  assumes ok: "run_store_ok s"
    and f: "\<And>r. r \<in> set (run_steps s) \<Longrightarrow> p r \<Longrightarrow> step_ids (f r) = step_ids r \<and> step_slot (f r) = step_slot r \<and>
        step_row_ok (f r) \<and> sr_status r \<noteq> ''completed''"
    and live: "\<And>r. r \<in> set (run_steps s) \<Longrightarrow> p r \<Longrightarrow> sr_status (f r) \<in> {''running'', ''waiting''} \<Longrightarrow> at_cursor s r"
  shows "run_store_ok (update_steps p f s)"
proof (rule run_store_okI)
  let ?g = "\<lambda>r. if p r then f r else r"
  let ?steps = "update_where p f (run_steps s)"
  have keys: "map step_ids ?steps = map step_ids (run_steps s)" "map step_slot ?steps = map step_slot (run_steps s)"
    using f by (simp_all add: update_where_def)
  show "steps_ok (run_steps (update_steps p f s))"
    unfolding steps_ok_def update_steps_simps keys
  proof (intro conjI ballI)
    show "distinct (map step_ids (run_steps s))" "distinct (map step_slot (run_steps s))"
      using run_store_okD(2) [OF ok] by (simp_all add: steps_ok_def)
    fix r' assume "r' \<in> set ?steps"
    then obtain r where "r \<in> set (run_steps s)" "r' = ?g r" by (auto simp: set_update_where)
    with f run_store_okD(2) [OF ok] show "step_row_ok r'" by (auto simp: steps_ok_def)
  qed
  show "runs_ok (run_rows (update_steps p f s))" using run_store_okD(1) [OF ok] by simp
  show "passed (run_steps (update_steps p f s)) n" if "n \<in> set (run_rows (update_steps p f s))" for n
  proof -
    have n: "passed (run_steps s) n" using that run_store_okD(4) [OF ok] by simp
    have "\<exists>r \<in> set ?steps. sr_run_id r = rn_run_id n \<and> sr_ordinal r = k \<and> sr_status r = ''completed''" if "0 \<le> k" "k < rn_cursor n" for k
    proof -
      from n that obtain r where r: "r \<in> set (run_steps s)" "sr_run_id r = rn_run_id n" "sr_ordinal r = k" "sr_status r = ''completed''"
        unfolding passed_def by blast
      with f have "\<not> p r" by blast
      with r(1) have "r \<in> set ?steps" by (rule update_where_keeps)
      with r show ?thesis by blast
    qed
    with n show ?thesis by (simp add: passed_def)
  qed
  show "live_at_cursor (run_rows (update_steps p f s)) r'" if "r' \<in> set (run_steps (update_steps p f s))" for r'
  proof -
    from that obtain r where r: "r \<in> set (run_steps s)" "r' = ?g r" by (auto simp: set_update_where)
    show ?thesis
    proof (cases "p r")
      case True
      with r f have "step_slot r' = step_slot r" "r' = f r" by auto
      with True r live show ?thesis
        by (auto simp: live_at_cursor_def at_cursor_iff [OF run_store_okD(1) [OF ok]] step_slot_def)
    next
      case False
      with r run_store_okD(3) [OF ok r(1)] show ?thesis by simp
    qed
  qed
qed

section \<open>Steps\<close>

lemma live_step_at_cursor:
  assumes "run_store_ok s" "r \<in> set (run_steps s)" "sr_status r \<in> {''running'', ''waiting''}"
  shows "at_cursor s r"
  using run_store_okD(3) [OF assms(1,2)] assms(3) at_cursor_iff [OF run_store_okD(1) [OF assms(1)]]
  by (auto simp: live_at_cursor_def)

text \<open>One step leaves the cursor slot: no other step of the run is under way.\<close>

lemma only_step_at_cursor:
  assumes "run_store_ok s" "q \<in> set (run_steps s)" "at_cursor s q" "r \<in> set (run_steps s)" "sr_run_id r = sr_run_id q"
    "sr_status r \<in> {''running'', ''waiting''}"
  shows "r = q"
proof -
  note runs = run_store_okD(1) [OF assms(1)]
  from live_step_at_cursor [OF assms(1,4,6)] assms(3,5) have "sr_ordinal r = sr_ordinal q"
    unfolding at_cursor_iff [OF runs] by (metis runs_unique [OF runs])
  with steps_unique(2) [OF run_store_okD(2) [OF assms(1)] assms(4,2)] assms(5) show ?thesis by (simp add: step_slot_def)
qed

lemma step_transition_ok:
  assumes ok: "run_store_ok s" and key: "\<And>r. p r \<Longrightarrow> step_key rid sid r"
    and f: "\<And>r. r \<in> set (run_steps s) \<Longrightarrow> p r \<Longrightarrow> step_ids (f r) = step_ids r \<and> step_slot (f r) = step_slot r \<and>
        step_row_ok (f r) \<and> sr_status r \<noteq> ''completed'' \<and> at_cursor s r"
    and status: "RunStatus_parse status \<noteq> None"
    and ending: "\<And>r. r \<in> set (run_steps s) \<Longrightarrow> p r \<Longrightarrow> active status \<or> sr_status (f r) \<notin> {''running'', ''waiting''}"
  shows "run_store_ok (snd (step_transition rid sid operation p f status now s))"
proof -
  have ok1: "run_store_ok (update_steps p f s)" using f by (intro update_steps_ok [OF ok]) blast+
  have "run_store_ok (set_run_status rid status now (update_steps p f s))" if "count_where p (run_steps s) = 1"
    unfolding set_run_status_def
  proof (rule update_runs_ok [OF ok1])
    fix n r assume nr: "rn_run_id n = rid" "r \<in> set (run_steps (update_steps p f s))" "sr_run_id r = rn_run_id n"
      "sr_status r \<in> {''running'', ''waiting''}"
    from that have "\<exists>q \<in> set (run_steps s). p q" by (intro count_where_pos) simp
    then obtain q where q: "q \<in> set (run_steps s)" "p q" by blast
    then have "f q \<in> set (run_steps (update_steps p f s))" by (simp add: update_where_changes)
    moreover have "at_cursor (update_steps p f s) (f q)" "sr_run_id (f q) = rid"
      using f [OF q] key [OF q(2)] by (auto simp: at_cursor_def step_slot_def step_ids_def split: option.splits)
    ultimately have "r = f q" using only_step_at_cursor [OF ok1] nr by auto
    with ending [OF q] nr(4) show "active (rn_status (n\<lparr>rn_status := status, rn_updated_at := now\<rparr>))" by auto
  qed (use status in simp_all)
  with ok1 show ?thesis by (simp add: step_transition_def Let_def)
qed

lemma step_fields:
  assumes "run_store_ok s" "r \<in> set (run_steps s)"
  shows "step_row_ok r"
  using run_store_okD(2) [OF assms(1)] assms(2) by (simp add: steps_ok_def)

lemmas step_update_simps = step_row_ok_def step_ids_def step_slot_def claimable_step_def leased_step_def

lemma claim_transition_ok:
  assumes "run_store_ok s"
  shows "run_store_ok (snd (step_transition rid sid ''claim'' (claimable_step rid sid now s)
    (\<lambda>r. r\<lparr>sr_status := ''running'', sr_attempt := sr_attempt r + 1, sr_lease_owner := Some owner, sr_lease_expires_at := Some expires,
           sr_started_at := (case sr_started_at r of None \<Rightarrow> Some now | t \<Rightarrow> t)\<rparr>) ''running'' now s))"
  by (rule step_transition_ok [OF assms])
    (auto simp: step_update_simps dest!: step_fields [OF assms])

lemma finish_step_ok:
  assumes "run_store_ok s" "st \<in> {StepCompleted, StepFailed}"
  shows "run_store_ok (snd (finish_step rid sid owner st output_ref at s))"
  unfolding finish_step_def using assms(2)
  by (intro step_transition_ok [OF assms(1)])
    (auto simp: step_update_simps dest: step_fields [OF assms(1)] intro: live_step_at_cursor [OF assms(1)])

lemma wait_step_ok: "run_store_ok s \<Longrightarrow> run_store_ok (snd (wait_step rid sid owner approval_id now s))"
  unfolding wait_step_def
  by (auto split: sum.split intro!: step_transition_ok)
    (auto simp: step_update_simps dest: step_fields intro: live_step_at_cursor)

lemma resume_waiting_step_ok: "run_store_ok s \<Longrightarrow> run_store_ok (snd (resume_waiting_step rid sid approval_id now s))"
  unfolding resume_waiting_step_def
  by (rule step_transition_ok)
    (auto simp: step_update_simps dest: step_fields intro: live_step_at_cursor)

lemma set_run_status_of_transition:
  "count_where p (run_steps s) = 1 \<Longrightarrow>
   set_run_status rid status now (update_steps p f s) = snd (step_transition rid sid operation p f status now s)"
  by (simp add: step_transition_def Let_def)

lemma insert_outbox_or_ignore_runs [simp]: "state_runs (insert_outbox_or_ignore row db) = state_runs db"
  by (simp add: insert_outbox_or_ignore_def insert_outbox_def Let_def)

lemma enqueue_tx_ok:
  assumes "run_store_ok s" "enqueue_tx rid sid owner row output_ref at s = Inr (u, s')"
  shows "run_store_ok s'"
proof -
  let ?s1 = "s\<lparr>core := insert_outbox_or_ignore row (core s)\<rparr>"
  let ?f = "\<lambda>r. r\<lparr>sr_status := ''completed'', sr_output_ref := output_ref, sr_lease_owner := None, sr_lease_expires_at := None,
                   sr_completed_at := Some at\<rparr>"
  have ok1: "run_store_ok ?s1" using assms(1) by (simp add: run_store_ok_def)
  have "run_store_ok (snd (finish_step rid sid owner StepCompleted output_ref at ?s1))" by (rule finish_step_ok [OF ok1]) simp
  then have "run_store_ok (set_run_status rid ''running'' at (update_steps (leased_step rid sid owner) ?f ?s1))"
    if "count_where (leased_step rid sid owner) (run_steps ?s1) = 1"
    using that by (simp add: finish_step_def step_transition_def Let_def)
  with ok1 assms(2) show ?thesis by (auto simp: enqueue_tx_def Let_def split: option.splits if_splits)
qed

lemma enqueue_outbox_ok:
  assumes "run_store_ok s"
  shows "run_store_ok (snd (enqueue_outbox_and_complete_step rid sid owner row output_ref at s))"
proof -
  have "run_store_ok (snd (transaction (enqueue_tx rid sid owner row output_ref at) s))"
    by (rule transaction_invariant [where P = run_store_ok, OF assms]) (rule enqueue_tx_ok [OF assms])
  then show ?thesis using assms by (auto simp: enqueue_outbox_and_complete_step_def split: sum.splits prod.splits)
qed

section \<open>Runs\<close>

lemma append_run_ok:
  assumes ok: "run_store_ok s" and new: "\<not> run_exists (rn_run_id r) s" "rn_cursor r = 0" "RunStatus_parse (rn_status r) \<noteq> None"
  shows "run_store_ok (append_run r s)"
proof (rule run_store_okI)
  show "runs_ok (run_rows (append_run r s))"
    using run_store_okD(1) [OF ok] new by (auto simp: runs_ok_def append_run_def run_exists_def)
  show "steps_ok (run_steps (append_run r s))" using run_store_okD(2) [OF ok] by (simp add: append_run_def)
  show "live_at_cursor (run_rows (append_run r s)) q" if "q \<in> set (run_steps (append_run r s))" for q
    using run_store_okD(3) [OF ok, of q] that by (auto simp: append_run_def live_at_cursor_def)
  show "passed (run_steps (append_run r s)) n" if "n \<in> set (run_rows (append_run r s))" for n
    using run_store_okD(4) [OF ok, of n] that new(2) by (auto simp: append_run_def passed_def)
qed

lemma create_run_tx_ok: "run_store_ok s \<Longrightarrow> create_run_tx rid n s = Inr (u, s') \<Longrightarrow> run_store_ok s'"
  by (auto simp: create_run_tx_def insert_run_or_ignore_def fresh_run_def intro!: append_run_ok
      split: option.splits if_splits sum.splits)

lemma observe_run_label_tables:
  "run_rows (snd (observe_run_label lj sha uuid rid n s)) = run_rows s"
  "run_steps (snd (observe_run_label lj sha uuid rid n s)) = run_steps s"
  by (simp_all add: observe_run_label_def split: prod.split sum.split option.split)

lemma create_run_with_id_ok:
  assumes "run_store_ok s"
  shows "run_store_ok (snd (create_run_with_id lj sha uuid rid n s))"
proof -
  have 1: "run_store_ok (snd (transaction (create_run_tx rid n) s))"
    by (rule transaction_invariant [where P = run_store_ok, OF assms]) (rule create_run_tx_ok [OF assms])
  have 2: "run_store_ok (snd (observe_run_label lj sha uuid rid n s1))" if "run_store_ok s1" for s1
    using that run_store_ok_cong [OF observe_run_label_tables] by simp
  show ?thesis
  proof (cases "transaction (create_run_tx rid n) s")
    case (Pair res s1)
    with 1 have ok1: "run_store_ok s1" by simp
    with 2 [OF ok1] Pair show ?thesis
      by (auto simp: create_run_with_id_def split: sum.splits prod.splits)
  qed
qed

lemma insert_step_ok:
  assumes ok: "run_store_ok s" and new: "sr_status r = ''pending''" "step_row_ok r"
  shows "run_store_ok (insert_step_or_ignore r s)"
proof (cases "sr_ordinal r < 0 \<or> list_ex (step_collides r) (run_steps s)")
  case True
  then show ?thesis using ok by (auto simp: insert_step_or_ignore_def)
next
  case False
  let ?s = "s\<lparr>run_steps := run_steps s @ [r]\<rparr>"
  from False have free: "\<not> step_collides r q" if "q \<in> set (run_steps s)" for q using that by (auto simp: list_ex_iff)
  have "run_store_ok ?s"
  proof (rule run_store_okI)
    show "runs_ok (run_rows ?s)" using run_store_okD(1) [OF ok] by simp
    show "steps_ok (run_steps ?s)"
      using run_store_okD(2) [OF ok] free new(2) by (auto simp: steps_ok_def step_ids_def step_slot_def step_collides_def)
    show "live_at_cursor (run_rows ?s) q" if "q \<in> set (run_steps ?s)" for q
      using run_store_okD(3) [OF ok, of q] that new(1) by (auto simp: live_at_cursor_def)
    show "passed (run_steps ?s) n" if "n \<in> set (run_rows ?s)" for n
      using run_store_okD(4) [OF ok, of n] that by (auto simp: passed_def)
  qed
  with False show ?thesis by (auto simp: insert_step_or_ignore_def)
qed

lemma add_step_ok: "run_store_ok s \<Longrightarrow> run_store_ok (snd (add_step rid n s))"
proof -
  assume ok: "run_store_ok s"
  have "run_store_ok (insert_step_or_ignore (fresh_step rid n) s)"
  proof (cases "ns_ordinal n < 0")
    case True
    with ok show ?thesis by (simp add: insert_step_or_ignore_def fresh_step_def)
  next
    case False
    then show ?thesis
      by (intro insert_step_ok [OF ok]) (simp_all add: fresh_step_def step_row_ok_def run_step_kind.parse_as_str)
  qed
  then have "run_store_ok s'" if "add_step_tx rid n s = Inr (x, s')" for x s'
    using that by (auto simp: add_step_tx_def Let_def split: option.splits if_splits sum.splits)
  with ok show ?thesis by (auto simp: add_step_def split: sum.splits prod.splits option.splits)
qed

lemma close_steps_ok: "run_store_ok s \<Longrightarrow> run_store_ok (close_steps C out at s)"
  unfolding close_steps_def
  by (rule update_steps_ok) (auto simp: step_update_simps dest: step_fields)

lemma close_steps_closes: "r \<in> set (run_steps (close_steps C out at s)) \<Longrightarrow> C (sr_run_id r) \<Longrightarrow> \<not> active (sr_status r)"
  unfolding close_steps_def update_steps_simps by (erule update_where_cases) auto

lemma close_steps_update_runs: "close_steps C out at (update_runs p f s) = update_runs p f (close_steps C out at s)"
  by (simp add: close_steps_def update_runs_def update_steps_def)

text \<open>Runs end together with their unfinished steps.\<close>

lemma end_runs_ok:
  assumes "run_store_ok s" "\<And>n. p n \<Longrightarrow> C (rn_run_id n)" "\<And>r. r \<in> set (run_steps s) \<Longrightarrow> C (sr_run_id r) \<Longrightarrow> \<not> active (sr_status r)"
    "RunStatus_parse status \<noteq> None"
  shows "run_store_ok (update_runs p (\<lambda>r. r\<lparr>rn_status := status, rn_updated_at := at\<rparr>) s)"
proof (rule update_runs_ok [OF assms(1)])
  fix n r assume "p n" "r \<in> set (run_steps s)" "sr_run_id r = rn_run_id n" "sr_status r \<in> {''running'', ''waiting''}"
  moreover from this have "C (sr_run_id r)" using assms(2) by simp
  ultimately have False using assms(3) [of r] by (auto simp: active_def)
  then show "active (rn_status (n\<lparr>rn_status := status, rn_updated_at := at\<rparr>))" ..
qed (use assms(4) in simp_all)

lemma cancel_run_ok:
  assumes ok: "run_store_ok s"
  shows "run_store_ok (snd (cancel_run rid at s))"
proof (cases "find (\<lambda>r. rn_run_id r = rid) (run_rows s)")
  case None
  with ok show ?thesis by (simp add: cancel_run_def)
next
  case (Some prior)
  let ?p = "\<lambda>r. rn_run_id r = rid \<and> active (rn_status r)"
  let ?cancel = "\<lambda>r. r\<lparr>rn_status := ''cancelled'', rn_updated_at := at\<rparr>"
  let ?s1 = "update_runs ?p ?cancel s"
  let ?q = "\<lambda>r. rn_run_id r \<in> set (descendants (run_rows ?s1) rid) \<and> active (rn_status r)"
  let ?s2 = "update_runs ?q ?cancel ?s1"
  let ?C = "\<lambda>i. i \<in> set (cancelled_runs (run_rows ?s2) rid)"
  have root: "?C rid" by (simp add: cancelled_runs_reach)
  have q: "?q n \<Longrightarrow> ?C (rn_run_id n)" for n
    by (auto simp: cancelled_runs_reach descendants_reach intro: trancl_into_rtrancl)
  let ?c = "close_steps ?C (\<lambda>_. Some ''error:cancelled'') at s"
  have okc: "run_store_ok ?c" by (rule close_steps_ok [OF ok])
  have ok1: "run_store_ok (update_runs ?p ?cancel ?c)"
    by (rule end_runs_ok [where C = ?C, OF okc]) (use root in \<open>auto dest: close_steps_closes\<close>)
  have "run_store_ok (update_runs ?q ?cancel (update_runs ?p ?cancel ?c))"
    by (rule end_runs_ok [where C = ?C, OF ok1 q]) (auto dest: close_steps_closes)
  then have "run_store_ok (close_steps ?C (\<lambda>_. Some ''error:cancelled'') at ?s2)" unfolding close_steps_update_runs .
  moreover have "run_store_ok ?s1" if "count_where ?p (run_rows s) = 0"
  proof -
    from that have "update_where ?p ?cancel (run_rows s) = run_rows s"
      by (intro update_where_none) (auto simp: count_where_def filter_empty_conv)
    with ok show ?thesis by (simp add: run_store_ok_def)
  qed
  ultimately show ?thesis using Some by (simp add: cancel_run_def Let_def)
qed

lemma fail_runs_ok:
  assumes ok: "run_store_ok s" "\<And>n. p n \<Longrightarrow> rn_run_id n = rid"
  shows "run_store_ok (close_steps (\<lambda>i. i = rid) out at (update_runs p (\<lambda>r. r\<lparr>rn_status := ''failed'', rn_updated_at := at'\<rparr>) s))"
    "count_where p (run_rows s) = 0 \<Longrightarrow> run_store_ok (update_runs p (\<lambda>r. r\<lparr>rn_status := ''failed'', rn_updated_at := at'\<rparr>) s)"
proof -
  show "run_store_ok (close_steps (\<lambda>i. i = rid) out at (update_runs p (\<lambda>r. r\<lparr>rn_status := ''failed'', rn_updated_at := at'\<rparr>) s))"
    unfolding close_steps_update_runs
    by (rule end_runs_ok [where C = "\<lambda>i. i = rid", OF close_steps_ok [OF ok(1)] ok(2)])
      (auto dest: close_steps_closes)
  assume "count_where p (run_rows s) = 0"
  then have "update_where p f (run_rows s) = run_rows s" for f
    by (intro update_where_none) (auto simp: count_where_def filter_empty_conv)
  with ok(1) show "run_store_ok (update_runs p (\<lambda>r. r\<lparr>rn_status := ''failed'', rn_updated_at := at'\<rparr>) s)"
    by (simp add: run_store_ok_def)
qed

lemma fail_run_ok: "run_store_ok s \<Longrightarrow> run_store_ok (snd (fail_run rid at s))"
  by (auto simp: fail_run_def Let_def intro!: fail_runs_ok [where rid = rid])

lemma execution_budget_at_tables:
  "core (snd (execution_budget_at rid now s)) = core s" "run_steps (snd (execution_budget_at rid now s)) = run_steps s"
  by (cases rule: transaction_cases [of "execution_budget_at_tx rid now" s];
      auto simp: execution_budget_at_def execution_budget_at_tx_def Let_def update_budgets_def split: if_splits option.splits sum.splits)+

lemma fail_run_if_budget_expired_ok:
  assumes "run_store_ok s"
  shows "run_store_ok (snd (fail_run_if_budget_expired rid now_ms s))"
proof (cases "execution_budget_at rid now_ms s")
  case (Pair res s1)
  with execution_budget_at_tables [of rid now_ms s] assms have ok1: "run_store_ok s1" by (simp add: run_store_ok_def)
  with Pair show ?thesis
    by (auto simp: fail_run_if_budget_expired_def Let_def split: sum.splits intro!: fail_runs_ok [OF ok1, where rid = rid])
qed

lemma step_at_Some:
  assumes "step_at rid k s = Some r"
  shows "r \<in> set (run_steps s)" "sr_run_id r = rid" "sr_ordinal r = k"
  using find_SomeD [OF assms [unfolded step_at_def]] by simp_all

lemma advance_cursor_ok:
  assumes ok: "run_store_ok s"
  shows "run_store_ok (snd (advance_cursor rid expected now s))"
proof (cases "map_option sr_status (step_at rid expected s) = Some ''completed''")
  case False
  with ok show ?thesis by (simp add: advance_cursor_def)
next
  case True
  then obtain c where c: "step_at rid expected s = Some c" "sr_status c = ''completed''" by auto
  note c = c step_at_Some [OF c(1)]
  let ?f = "\<lambda>r. r\<lparr>rn_cursor := rn_cursor r + 1, rn_updated_at := now, rn_status := ''pending''\<rparr>"
  let ?s = "update_runs (run_at rid expected) ?f s"
  have ids: "map rn_run_id (update_where (run_at rid expected) ?f (run_rows s)) = map rn_run_id (run_rows s)"
    by (intro map_update_where) simp
  have "run_store_ok ?s"
  proof (rule run_store_okI)
    show "runs_ok (run_rows ?s)"
      using run_store_okD(1) [OF ok] unfolding runs_ok_def update_runs_simps ids
      by (auto elim!: update_where_cases)
    show "steps_ok (run_steps ?s)" using run_store_okD(2) [OF ok] by simp
    show "live_at_cursor (run_rows ?s) r" if "r \<in> set (run_steps ?s)" for r
      unfolding live_at_cursor_def
    proof
      assume lv: "sr_status r \<in> {''running'', ''waiting''}"
      from that have r: "r \<in> set (run_steps s)" by simp
      from run_store_okD(3) [OF ok r] lv obtain n where n: "n \<in> set (run_rows s)" "rn_run_id n = sr_run_id r" "active (rn_status n)"
          "rn_cursor n = sr_ordinal r"
        unfolding live_at_cursor_def by blast
      have "\<not> run_at rid expected n"
      proof
        assume "run_at rid expected n"
        with n c have "step_slot r = step_slot c" by (simp add: run_at_def step_slot_def)
        with steps_unique(2) [OF run_store_okD(2) [OF ok] r c(3)] have "r = c" by simp
        with lv c(2) show False by simp
      qed
      with n(1) have "n \<in> set (run_rows ?s)" by (simp add: update_where_keeps)
      with n show "\<exists>n \<in> set (run_rows ?s). rn_run_id n = sr_run_id r \<and> active (rn_status n) \<and> rn_cursor n = sr_ordinal r" by blast
    qed
    show "passed (run_steps ?s) n" if "n \<in> set (run_rows ?s)" for n
    proof -
      from that have "n \<in> set (update_where (run_at rid expected) ?f (run_rows s))" by simp
      then show ?thesis
      proof (cases rule: update_where_cases)
        case kept
        then show ?thesis using run_store_okD(4) [OF ok] by simp
      next
        case (changed m)
        then have m: "rn_run_id n = rid" "rn_cursor n = expected + 1" "rn_run_id m = rid" "rn_cursor m = expected"
          by (simp_all add: run_at_def)
        have "\<exists>r \<in> set (run_steps s). sr_run_id r = rid \<and> sr_ordinal r = k \<and> sr_status r = ''completed''" if "0 \<le> k" "k < expected + 1" for k
          using run_store_okD(4) [OF ok changed(1)] c that m(3,4) by (cases "k = expected") (auto simp: passed_def)
        moreover have "0 \<le> expected" using run_store_okD(4) [OF ok changed(1)] m(4) by (simp add: passed_def)
        ultimately show ?thesis using m by (simp add: passed_def)
      qed
    qed
  qed
  with c(1,2) show ?thesis by (simp add: advance_cursor_def Let_def)
qed

lemma complete_run_ok:
  assumes ok: "run_store_ok s"
  shows "run_store_ok (snd (complete_run rid expected at s))"
proof -
  let ?p = "\<lambda>r. run_at rid expected r \<and> step_at rid expected s = None"
  have "run_store_ok (update_runs ?p (\<lambda>r. r\<lparr>rn_status := ''completed'', rn_updated_at := at\<rparr>) s)"
  proof (rule update_runs_ok [OF ok])
    fix n r assume nr: "n \<in> set (run_rows s)" "?p n" "r \<in> set (run_steps s)" "sr_run_id r = rn_run_id n" "sr_status r \<in> {''running'', ''waiting''}"
    from run_store_okD(3) [OF ok nr(3)] nr(5) obtain m where m: "m \<in> set (run_rows s)" "rn_run_id m = sr_run_id r" "rn_cursor m = sr_ordinal r"
      unfolding live_at_cursor_def by blast
    with runs_unique [OF run_store_okD(1) [OF ok] m(1) nr(1)] nr have "sr_run_id r = rid \<and> sr_ordinal r = expected"
      by (simp add: run_at_def)
    with nr(2,3) have False by (auto simp: step_at_def find_None_iff)
    then show "active (rn_status (n\<lparr>rn_status := ''completed'', rn_updated_at := at\<rparr>))" ..
  qed auto
  then show ?thesis by (simp add: complete_run_def Let_def)
qed

lemma recover_run_ok: "run_store_ok s \<Longrightarrow> run_store_ok (snd (recover_run now budget run action s))"
proof (induction now budget run action s rule: recover_run.induct)
  case (2 now budget run action s)
  note advance = advance_cursor_ok [OF "2.prems", of "run_id run" "run_cursor run" now]
  note complete = complete_run_ok [OF "2.prems", of "run_id run" _ now]
  show ?case
  proof (cases action)
    case (AdvanceCursor st)
    then show ?thesis
      using advance "2.IH" [OF AdvanceCursor] "2.prems"
      by (auto simp: Let_def split: prod.splits sum.splits) (metis prod.sel(2))+
  next
    case (CompleteRun cursor)
    then show ?thesis using complete [of cursor] by (auto split: prod.splits sum.splits)
  qed (use "2.prems" in simp_all)
qed simp

lemma recover_runs_ok: "run_store_ok s \<Longrightarrow> run_store_ok (snd (recover_runs now budget candidates s))"
proof (induction candidates arbitrary: budget s)
  case (Cons c rest)
  obtain run action where c: "c = (run, action)" by (cases c)
  obtain res s1 where r: "recover_run now budget run action s = (res, s1)" by (cases "recover_run now budget run action s")
  have ok1: "run_store_ok s1" using recover_run_ok [OF Cons.prems, of now budget run action] r by simp
  show ?case
  proof (cases res)
    case (Inl e)
    with r ok1 show ?thesis by (simp add: c)
  next
    case (Inr x)
    obtain ts stop where x: "x = (ts, stop)" by (cases x)
    have "run_store_ok (snd (recover_runs now (budget - length ts) rest s1))" by (rule Cons.IH [OF ok1])
    with r Inr x ok1 show ?thesis by (cases stop) (auto simp: c split: prod.splits sum.splits)
  qed
qed simp

lemma recover_completed_transitions_ok: "run_store_ok s \<Longrightarrow> run_store_ok (snd (recover_completed_transitions now n m s))"
  by (auto simp: recover_completed_transitions_def recover_runs_ok split: sum.splits)

section \<open>Budgets and attempts\<close>

text \<open>The other operations leave the tables of the invariant alone.\<close>

definition same_tables :: "run_db \<Rightarrow> run_db \<Rightarrow> bool" where
  "same_tables s' s \<longleftrightarrow> run_rows s' = run_rows s \<and> run_steps s' = run_steps s"

lemma same_tables_refl [simp]: "same_tables s s"
  by (simp add: same_tables_def)

lemma same_tables_ok: "same_tables s' s \<Longrightarrow> run_store_ok s \<Longrightarrow> run_store_ok s'"
  by (simp add: same_tables_def run_store_ok_def)

lemma same_tables_transaction: "(\<And>a s'. f s = Inr (a, s') \<Longrightarrow> same_tables s' s) \<Longrightarrow> same_tables (snd (transaction f s)) s"
  by (rule transaction_invariant [where P = "\<lambda>s'. same_tables s' s"]) auto

lemma same_tables_budgets [simp]: "same_tables (update_budgets p f s) s"
  by (simp add: same_tables_def update_budgets_def)

lemma observe_second_tables: "same_tables (snd (observe_execution_budget_at_second rid now s)) s"
  unfolding observe_execution_budget_at_second_def by (rule same_tables_transaction) (auto split: option.splits if_splits)

lemma charge_effect_tables [simp]: "same_tables (snd (charge_effect p rid sid now s)) s"
  by (simp add: charge_effect_def Let_def same_tables_def update_budgets_def)

lemma claim_execution_effect_tables: "same_tables (snd (claim_execution_effect rid sid now s)) s"
proof -
  have "same_tables s' s" if "claim_execution_effect_tx rid sid now s = Inr (a, s')" for a s'
  proof -
    have charge: "same_tables t s" if "charge_effect p rid sid now s = (b, t)" for p b t
      using charge_effect_tables [of p rid sid now s] that by simp
    from that show ?thesis unfolding claim_execution_effect_tx_def by (auto split: sum.splits if_splits dest: charge)
  qed
  then show ?thesis unfolding claim_execution_effect_def by (rule same_tables_transaction)
qed

lemma budget_tables:
  "same_tables (snd (claim_run_effect rid sid now s)) s"
  "same_tables (snd (consume_execution_retry rid now s)) s"
  "same_tables (snd (execution_budget_at rid now s)) s"
  by (simp add: claim_run_effect_def) (simp_all add: consume_execution_retry_def Let_def same_tables_def update_budgets_def execution_budget_at_tables)

lemma ensure_execution_budget_ok:
  assumes "run_store_ok s"
  shows "run_store_ok (snd (ensure_execution_budget rid t r e now s))"
proof -
  have "run_store_ok s1" if "insert_budget b s = Inr s1" for b s1
    using that assms by (auto simp: insert_budget_def run_store_ok_def split: if_splits)
  moreover have "run_store_ok (update_runs (\<lambda>r. rn_run_id r = rid) (\<lambda>r. r\<lparr>rn_deadline_at := d r\<rparr>) s1)" if ok1: "run_store_ok s1" for d s1
  proof (rule update_runs_ok [OF ok1])
    fix n assume "n \<in> set (run_rows s1)"
    with run_store_okD(1) [OF ok1] show "rn_run_id (n\<lparr>rn_deadline_at := d n\<rparr>) = rn_run_id n \<and>
        rn_cursor (n\<lparr>rn_deadline_at := d n\<rparr>) = rn_cursor n \<and> RunStatus_parse (rn_status (n\<lparr>rn_deadline_at := d n\<rparr>)) \<noteq> None"
      by (simp add: runs_ok_def)
  qed simp
  ultimately show ?thesis using assms unfolding ensure_execution_budget_def Let_def by (auto split: sum.split option.split)
qed

lemma attempt_tables:
  "same_tables (snd (start_inference_attempt rid sid owner at s)) s"
  "same_tables (snd (finish_inference_attempt rid sid k ok err at s)) s"
  "same_tables (snd (mark_inference_attempt_retrying rid sid k cls at s)) s"
proof -
  show "same_tables (snd (start_inference_attempt rid sid owner at s)) s"
    unfolding start_inference_attempt_def
    by (rule same_tables_transaction) (auto simp: Let_def same_tables_def split: if_splits)
qed (simp_all add: finish_inference_attempt_def mark_inference_attempt_retrying_def update_attempt_def Let_def same_tables_def)

lemma claim_step_ok:
  assumes "run_store_ok s"
  shows "run_store_ok (snd (claim_step rid sid owner now expires s))"
proof (cases "observe_execution_budget_at_second rid now s")
  case (Pair res s1)
  with observe_second_tables [of rid now s] assms have "run_store_ok s1" by (auto intro: same_tables_ok)
  with Pair show ?thesis by (auto simp: claim_step_def claim_transition_ok split: sum.splits)
qed

section \<open>The machine\<close>

datatype run_action =
    Create label_json "string \<Rightarrow> string" string string NewRun
  | DefineStep string NewRunStep
  | Claim string string string int int
  | CompleteStep string string string "string option" int
  | FailStep string string string "string option" int
  | Wait string string string "string option" int
  | ResumeStep string string "string option" int
  | EnqueueEffect string string string OutboxRow "string option" int
  | Advance string int int
  | CompleteAt string int int
  | CancelRun string int
  | FailRun string int
  | FailExpired string int
  | Recover int nat nat
  | EnsureBudget string nat nat nat int
  | ObserveBudget string int
  | ConsumeRetry string int
  | ClaimEffect string string int
  | ClaimToolEffect string string int
  | StartAttempt string string string int
  | FinishAttempt string string nat bool "string option" int
  | RetryAttempt string string nat string int

fun store_step :: "run_db \<Rightarrow> run_action \<Rightarrow> run_db" where
  "store_step s (Create lj sha uuid rid n) = snd (create_run_with_id lj sha uuid rid n s)"
| "store_step s (DefineStep rid n) = snd (add_step rid n s)"
| "store_step s (Claim rid sid owner now expires) = snd (claim_step rid sid owner now expires s)"
| "store_step s (CompleteStep rid sid owner out at) = snd (complete_step rid sid owner out at s)"
| "store_step s (FailStep rid sid owner out at) = snd (fail_step rid sid owner out at s)"
| "store_step s (Wait rid sid owner approval at) = snd (wait_step rid sid owner approval at s)"
| "store_step s (ResumeStep rid sid approval at) = snd (resume_waiting_step rid sid approval at s)"
| "store_step s (EnqueueEffect rid sid owner row out at) = snd (enqueue_outbox_and_complete_step rid sid owner row out at s)"
| "store_step s (Advance rid expected at) = snd (advance_cursor rid expected at s)"
| "store_step s (CompleteAt rid expected at) = snd (complete_run rid expected at s)"
| "store_step s (CancelRun rid at) = snd (cancel_run rid at s)"
| "store_step s (FailRun rid at) = snd (fail_run rid at s)"
| "store_step s (FailExpired rid now_ms) = snd (fail_run_if_budget_expired rid now_ms s)"
| "store_step s (Recover now candidates transitions) = snd (recover_completed_transitions now candidates transitions s)"
| "store_step s (EnsureBudget rid t r e now_ms) = snd (ensure_execution_budget rid t r e now_ms s)"
| "store_step s (ObserveBudget rid now_ms) = snd (execution_budget_at rid now_ms s)"
| "store_step s (ConsumeRetry rid now_ms) = snd (consume_execution_retry rid now_ms s)"
| "store_step s (ClaimEffect rid sid now_ms) = snd (claim_execution_effect rid sid now_ms s)"
| "store_step s (ClaimToolEffect rid sid now_ms) = snd (claim_run_effect rid sid now_ms s)"
| "store_step s (StartAttempt rid sid owner at) = snd (start_inference_attempt rid sid owner at s)"
| "store_step s (FinishAttempt rid sid k ok err at) = snd (finish_inference_attempt rid sid k ok err at s)"
| "store_step s (RetryAttempt rid sid k cls at) = snd (mark_inference_attempt_retrying rid sid k cls at s)"

interpretation run_machine: invariant_machine store_step run_store_ok
proof
  fix s a assume ok: "run_store_ok s"
  show "run_store_ok (store_step s a)"
    by (cases a) (simp_all add: ok create_run_with_id_ok add_step_ok claim_step_ok complete_step_def fail_step_def finish_step_ok
        wait_step_ok resume_waiting_step_ok enqueue_outbox_ok advance_cursor_ok complete_run_ok cancel_run_ok fail_run_ok
        fail_run_if_budget_expired_ok recover_completed_transitions_ok ensure_execution_budget_ok
        same_tables_ok [OF budget_tables(1) ok] same_tables_ok [OF budget_tables(2) ok] same_tables_ok [OF budget_tables(3) ok]
        same_tables_ok [OF claim_execution_effect_tables ok] same_tables_ok [OF attempt_tables(1) ok]
        same_tables_ok [OF attempt_tables(2) ok] same_tables_ok [OF attempt_tables(3) ok])
qed

end
