(* ===== verification/Run_Properties.thy ===== *)
theory Run_Properties
  imports Run_Machine
begin

text \<open>
  What durable runs promise: the invariant of every history, exclusive leases, final states, cancellation of a subtree, effects
  enqueued once, and recovery that moves the cursor without repeating work.
\<close>

section \<open>Histories\<close>

text \<open>
  C9: Every history of the run store, from a database without runs, keeps the invariant: unique runs and steps, known status texts, a
  lease exactly while a step runs, a step under way only at the cursor of an active run, and a cursor that has
  passed completed steps only.
\<close>

theorem run_store_invariant:
  assumes "run_rows s = []" "run_steps s = []"
  shows "run_store_ok (foldl store_step s actions)"
proof (rule run_machine.run_inv)
  show "run_store_ok s" using assms by (simp add: run_store_ok_def runs_ok_def steps_ok_def)
qed

section \<open>Final states\<close>

text \<open>A terminal step keeps its row, a terminal run its status and cursor.\<close>

definition final_kept :: "run_db \<Rightarrow> run_db \<Rightarrow> bool" where
  "final_kept s s' \<longleftrightarrow> (\<forall>r \<in> set (run_steps s). \<not> active (sr_status r) \<longrightarrow> r \<in> set (run_steps s')) \<and>
     (\<forall>n \<in> set (run_rows s). \<not> active (rn_status n) \<longrightarrow>
        (\<exists>m \<in> set (run_rows s'). rn_run_id m = rn_run_id n \<and> rn_status m = rn_status n \<and> rn_cursor m = rn_cursor n))"

lemma final_kept_refl [simp]: "final_kept s s"
  by (auto simp: final_kept_def)

lemma final_kept_trans: "final_kept s t \<Longrightarrow> final_kept t u \<Longrightarrow> final_kept s u"
  unfolding final_kept_def by (metis (no_types, lifting))

lemma final_kept_tables: "same_tables s' s \<Longrightarrow> final_kept s s'"
  by (auto simp: final_kept_def same_tables_def)

lemma final_kept_steps:
  assumes "\<And>r. r \<in> set (run_steps s) \<Longrightarrow> p r \<Longrightarrow> active (sr_status r)"
  shows "final_kept s (update_steps p f s)"
  using assms by (auto simp: final_kept_def intro: update_where_keeps)

lemma final_kept_runs:
  assumes "\<And>n. n \<in> set (run_rows s) \<Longrightarrow> p n \<Longrightarrow>
      active (rn_status n) \<or> rn_run_id (f n) = rn_run_id n \<and> rn_status (f n) = rn_status n \<and> rn_cursor (f n) = rn_cursor n"
  shows "final_kept s (update_runs p f s)"
  unfolding final_kept_def update_runs_simps
proof (intro conjI ballI impI)
  fix n assume n: "n \<in> set (run_rows s)" "\<not> active (rn_status n)"
  show "\<exists>m \<in> set (update_where p f (run_rows s)). rn_run_id m = rn_run_id n \<and> rn_status m = rn_status n \<and> rn_cursor m = rn_cursor n"
  proof (cases "p n")
    case True
    with n assms [OF n(1)] update_where_changes [of n "run_rows s" p f] show ?thesis by blast
  next
    case False
    with n update_where_keeps [of n "run_rows s" p f] show ?thesis by blast
  qed
qed

lemma final_kept_transition:
  assumes ok: "run_store_ok s" and p: "\<And>r. r \<in> set (run_steps s) \<Longrightarrow> p r \<Longrightarrow> sr_run_id r = rid \<and> active (sr_status r) \<and> at_cursor s r"
  shows "final_kept s (snd (step_transition rid sid operation p f status now s))"
proof -
  have steps: "final_kept s (update_steps p f s)" using p by (intro final_kept_steps) blast
  have "final_kept (update_steps p f s) (set_run_status rid status now (update_steps p f s))" if "count_where p (run_steps s) = 1"
    unfolding set_run_status_def
  proof (rule final_kept_runs)
    fix n assume n: "n \<in> set (run_rows (update_steps p f s))" "rn_run_id n = rid"
    from that have "\<exists>q \<in> set (run_steps s). p q" by (intro count_where_pos) simp
    then obtain q where "q \<in> set (run_steps s)" "p q" by blast
    with p have "at_cursor s q" "sr_run_id q = rid" by auto
    then obtain m where "m \<in> set (run_rows s)" "rn_run_id m = rid" "active (rn_status m)"
      unfolding at_cursor_iff [OF run_store_okD(1) [OF ok]] by auto
    with runs_unique [OF run_store_okD(1) [OF ok], of m n] n show "active (rn_status n) \<or>
        rn_run_id (n\<lparr>rn_status := status, rn_updated_at := now\<rparr>) = rn_run_id n \<and>
        rn_status (n\<lparr>rn_status := status, rn_updated_at := now\<rparr>) = rn_status n \<and>
        rn_cursor (n\<lparr>rn_status := status, rn_updated_at := now\<rparr>) = rn_cursor n"
      by simp
  qed
  with steps show ?thesis by (auto simp: step_transition_def Let_def intro: final_kept_trans)
qed

lemma leased_step_live: "run_store_ok s \<Longrightarrow> r \<in> set (run_steps s) \<Longrightarrow> leased_step rid sid owner r \<Longrightarrow>
   sr_run_id r = rid \<and> active (sr_status r) \<and> at_cursor s r"
  by (auto simp: leased_step_def active_def intro: live_step_at_cursor)

lemma final_kept_finish: "run_store_ok s \<Longrightarrow> final_kept s (snd (finish_step rid sid owner st out at s))"
  unfolding finish_step_def by (rule final_kept_transition) (auto dest: leased_step_live)

lemma final_kept_claim:
  assumes "run_store_ok s"
  shows "final_kept s (snd (claim_step rid sid owner now expires s))"
proof (cases "observe_execution_budget_at_second rid now s")
  case (Pair res s1)
  with observe_second_tables [of rid now s] have t: "same_tables s1 s" by simp
  have "run_store_ok s1" by (rule same_tables_ok [OF t assms])
  then have "final_kept s1 (snd (step_transition rid sid ''claim'' (claimable_step rid sid now s1) f ''running'' now s1))" for f
    by (rule final_kept_transition) (auto simp: claimable_step_def active_def)
  with Pair final_kept_tables [OF t] show ?thesis
    by (auto simp: claim_step_def split: sum.splits intro: final_kept_trans)
qed

lemma final_kept_wait: "run_store_ok s \<Longrightarrow> final_kept s (snd (wait_step rid sid owner approval now s))"
  unfolding wait_step_def
  by (auto split: sum.split intro!: final_kept_transition) (auto dest: leased_step_live)

lemma final_kept_resume: "run_store_ok s \<Longrightarrow> final_kept s (snd (resume_waiting_step rid sid approval now s))"
  unfolding resume_waiting_step_def
  by (rule final_kept_transition) (auto simp: active_def intro: live_step_at_cursor)

lemma final_kept_enqueue:
  assumes ok: "run_store_ok s"
  shows "final_kept s (snd (enqueue_outbox_and_complete_step rid sid owner row out at s))"
proof -
  have "final_kept s s'" if "enqueue_tx rid sid owner row out at s = Inr (u, s')" for u s'
  proof -
    let ?s1 = "s\<lparr>core := insert_outbox_or_ignore row (core s)\<rparr>"
    have t: "same_tables ?s1 s" by (simp add: same_tables_def)
    have "final_kept ?s1 (snd (finish_step rid sid owner StepCompleted out at ?s1))"
      by (rule final_kept_finish [OF same_tables_ok [OF t ok]])
    then have "final_kept s (snd (finish_step rid sid owner StepCompleted out at ?s1))"
      by (rule final_kept_trans [OF final_kept_tables [OF t]])
    with that final_kept_tables [OF t] show ?thesis
      by (auto simp: enqueue_tx_def finish_step_def step_transition_def Let_def split: option.splits if_splits)
  qed
  then have "final_kept s (snd (transaction (enqueue_tx rid sid owner row out at) s))"
    by (intro transaction_invariant [where P = "final_kept s"]) auto
  then show ?thesis by (auto simp: enqueue_outbox_and_complete_step_def split: sum.splits prod.splits)
qed

lemma final_kept_advance: "final_kept s (snd (advance_cursor rid expected now s))"
  by (auto simp: advance_cursor_def Let_def run_at_def intro!: final_kept_runs)

lemma final_kept_complete: "final_kept s (snd (complete_run rid expected now s))"
  by (auto simp: complete_run_def Let_def run_at_def intro!: final_kept_runs)

lemma final_kept_close: "final_kept s (close_steps C out at s)"
  unfolding close_steps_def by (rule final_kept_steps) simp

lemma final_kept_cancel: "final_kept s (snd (cancel_run rid at s))"
proof -
  have step: "final_kept s (update_runs (\<lambda>r. P r \<and> active (rn_status r)) f s)" for P f s by (rule final_kept_runs) simp
  show ?thesis
    by (auto simp: cancel_run_def Let_def split: option.split
        intro!: step final_kept_trans [OF final_kept_trans [OF step step] final_kept_close])
qed

lemma final_kept_fail:
  "final_kept s (snd (fail_run rid at s))" "final_kept s (snd (fail_run_if_budget_expired rid now_ms s))"
proof -
  have step: "final_kept s (update_runs (\<lambda>r. rn_run_id r = rid \<and> active (rn_status r)) f s)" for f s by (rule final_kept_runs) simp
  have step': "final_kept s (update_runs (\<lambda>r. rn_run_id r = rid \<and> active (rn_status r) \<and> b) f s)" for f s b by (rule final_kept_runs) simp
  show "final_kept s (snd (fail_run rid at s))"
    by (auto simp: fail_run_def Let_def intro!: step final_kept_trans [OF step final_kept_close])
  obtain res s1 where e: "execution_budget_at rid now_ms s = (res, s1)" by (cases "execution_budget_at rid now_ms s")
  with budget_tables(3) [of rid now_ms s] have "final_kept s s1" by (auto intro: final_kept_tables)
  with e show "final_kept s (snd (fail_run_if_budget_expired rid now_ms s))"
    by (auto simp: fail_run_if_budget_expired_def Let_def split: sum.splits
        intro: final_kept_trans step' final_kept_trans [OF final_kept_trans [OF _ step'] final_kept_close])
qed

section \<open>Recovery touches the cursor only\<close>

text \<open>Every table except \<open>state_runs\<close> is unchanged.\<close>

definition runs_only :: "run_db \<Rightarrow> run_db \<Rightarrow> bool" where
  "runs_only s s' \<longleftrightarrow> s' = s\<lparr>core := (core s)\<lparr>state_runs := run_rows s'\<rparr>\<rparr>"

lemma runs_only_refl [simp]: "runs_only s s"
  by (simp add: runs_only_def)

lemma runs_only_trans: "runs_only s t \<Longrightarrow> runs_only t u \<Longrightarrow> runs_only s u"
proof -
  assume st: "runs_only s t" and tu: "runs_only t u"
  from st obtain xs where t: "t = s\<lparr>core := (core s)\<lparr>state_runs := xs\<rparr>\<rparr>" unfolding runs_only_def by blast
  from tu obtain ys where u: "u = t\<lparr>core := (core t)\<lparr>state_runs := ys\<rparr>\<rparr>" unfolding runs_only_def by blast
  show ?thesis unfolding runs_only_def u t by simp
qed

lemma runs_only_update [simp]: "runs_only s (update_runs p f s)"
  by (simp add: runs_only_def update_runs_def)

lemma runs_only_steps: "runs_only s s' \<Longrightarrow> run_steps s' = run_steps s"
  unfolding runs_only_def by (metis run_db.select_convs(2) run_db.surjective run_db.update_convs(1))

lemma runs_only_advance: "runs_only s (snd (advance_cursor rid expected now s))"
  by (simp add: advance_cursor_def Let_def)

lemma runs_only_complete: "runs_only s (snd (complete_run rid expected now s))"
  by (simp add: complete_run_def Let_def)

text \<open>What holds of every cursor move along a recovery holds of the recovery.\<close>

lemma recover_run_rel:
  assumes R: "\<And>s. R s s" "\<And>s t u. R s t \<Longrightarrow> R t u \<Longrightarrow> R s u" "\<And>s rid k. R s (snd (advance_cursor rid k now s))"
    "\<And>s rid k. R s (snd (complete_run rid k now s))"
  shows "R s (snd (recover_run now budget run action s))"
proof (induction budget arbitrary: run action s)
  case 0
  show ?case using R(1) by simp
next
  case (Suc budget)
  show ?case
  proof (cases action)
    case (AdvanceCursor st)
    obtain res s1 where a: "advance_cursor (run_id run) (run_cursor run) now s = (res, s1)"
      by (cases "advance_cursor (run_id run) (run_cursor run) now s")
    then have "R s s1" using R(3) [of s "run_id run" "run_cursor run"] by simp
    moreover have "R s1 (snd (recover_run now budget run1 action1 s1))" for run1 action1 by (rule Suc.IH)
    ultimately have "R s (snd (recover_run now budget run1 action1 s1))" for run1 action1 using R(2) by blast
    with \<open>R s s1\<close> a AdvanceCursor show ?thesis
      by (auto simp: Let_def split: sum.split prod.split) (metis snd_conv)+
  next
    case (CompleteRun cursor)
    then show ?thesis using R(4) [of s "run_id run" cursor] by (auto split: prod.split sum.split) 
  qed (use R(1) in simp_all)
qed

lemma recover_rel:
  assumes R: "\<And>s. R s s" "\<And>s t u. R s t \<Longrightarrow> R t u \<Longrightarrow> R s u" "\<And>s rid k. R s (snd (advance_cursor rid k now s))"
    "\<And>s rid k. R s (snd (complete_run rid k now s))"
  shows "R s (snd (recover_runs now budget candidates s))"
proof (induction candidates arbitrary: budget s)
  case Nil
  show ?case using R(1) by simp
next
  case (Cons c rest)
  obtain run action where c: "c = (run, action)" by (cases c)
  obtain res s1 where r: "recover_run now budget run action s = (res, s1)" by (cases "recover_run now budget run action s")
  have 1: "R s s1" using recover_run_rel [of R now s budget run action, OF R] r by simp
  have 2: "R s (snd (recover_runs now b rest s1))" for b using R(2) [OF 1 Cons.IH] .
  show ?case
  proof (cases res)
    case (Inl e)
    with r 1 show ?thesis by (simp add: c)
  next
    case (Inr x)
    obtain ts stop where x: "x = (ts, stop)" by (cases x)
    with r Inr 1 2 [of "budget - length ts"] show ?thesis by (cases stop) (auto simp: c split: prod.splits sum.splits)
  qed
qed

lemma final_kept_recover: "final_kept s (snd (recover_completed_transitions now n m s))"
  using recover_rel [of final_kept now, OF final_kept_refl final_kept_trans final_kept_advance final_kept_complete]
  by (auto simp: recover_completed_transitions_def split: sum.split)

lemma runs_only_recover: "runs_only s (snd (recover_completed_transitions now n m s))"
  using recover_rel [of runs_only now, OF runs_only_refl runs_only_trans runs_only_advance runs_only_complete]
  by (auto simp: recover_completed_transitions_def split: sum.split)

section \<open>No step leaves a final state\<close>

lemma final_kept_create: "final_kept s (snd (create_run_with_id lj sha uuid rid n s))"
proof -
  have "final_kept s (snd (transaction (create_run_tx rid n) s))"
    by (rule transaction_invariant [where P = "final_kept s"])
      (auto simp: create_run_tx_def insert_run_or_ignore_def append_run_def final_kept_def split: sum.splits if_splits)
  moreover have "final_kept t (snd (observe_run_label lj sha uuid rid n t))" for t
    by (rule final_kept_tables) (simp add: same_tables_def observe_run_label_tables)
  ultimately show ?thesis
    by (auto simp: create_run_with_id_def split: prod.splits sum.splits) (metis final_kept_trans snd_conv)+
qed

lemma final_kept_add: "final_kept s (snd (add_step rid n s))"
proof -
  have "final_kept s (insert_step_or_ignore r s)" for r by (auto simp: insert_step_or_ignore_def final_kept_def)
  then have "final_kept s s'" if "add_step_tx rid n s = Inr (x, s')" for x s'
    using that by (auto simp: add_step_tx_def Let_def split: option.splits if_splits sum.splits)
  then show ?thesis by (auto simp: add_step_def split: sum.splits prod.splits option.splits)
qed

lemma final_kept_ensure: "final_kept s (snd (ensure_execution_budget rid t r e now s))"
proof -
  have ins: "final_kept s s1" if "insert_budget b s = Inr s1" for b s1
    using that by (auto simp: insert_budget_def final_kept_def split: if_splits)
  have "final_kept s1 (update_runs (\<lambda>r. rn_run_id r = rid) (\<lambda>r. r\<lparr>rn_deadline_at := d r\<rparr>) s1)" for d s1
    by (rule final_kept_runs) simp
  then have "final_kept s (update_runs (\<lambda>r. rn_run_id r = rid) (\<lambda>r. r\<lparr>rn_deadline_at := d r\<rparr>) s1)" if "insert_budget b s = Inr s1" for b d s1
    using final_kept_trans [OF ins [OF that]] by blast
  with ins show ?thesis unfolding ensure_execution_budget_def Let_def by (auto split: sum.split option.split)
qed

lemma final_kept_step:
  assumes "run_store_ok s"
  shows "final_kept s (store_step s a)"
proof -
  note tables = budget_tables claim_execution_effect_tables attempt_tables
  show ?thesis
    by (cases a) (simp_all add: assms complete_step_def fail_step_def final_kept_create final_kept_add final_kept_claim final_kept_finish
        final_kept_wait final_kept_resume final_kept_enqueue final_kept_advance final_kept_complete final_kept_cancel final_kept_fail
        final_kept_recover final_kept_ensure tables [THEN final_kept_tables])
qed

text \<open>
  C11: Final states are final: along every history, a completed or failed step keeps its row, with its output, and a
  completed, failed or cancelled run keeps its status and its cursor.
\<close>

theorem final_states_are_final:
  assumes "run_store_ok s"
  shows "final_kept s (foldl store_step s actions)"
  using assms
proof (induction actions arbitrary: s)
  case (Cons a actions)
  have "final_kept (store_step s a) (foldl store_step (store_step s a) actions)"
    by (rule Cons.IH) (rule run_machine.step_inv [OF Cons.prems])
  then show ?case using final_kept_trans [OF final_kept_step [OF Cons.prems]] by simp
qed simp

section \<open>Leases\<close>

text \<open>
  The actions that may change a running step: the calls that its holder makes for it and a claim after the lease has expired; and
  the end of its run, by itself or with a run above it.
\<close>

fun holders_call :: "step_row \<Rightarrow> run_action \<Rightarrow> bool" where
  "holders_call r (Claim rid sid owner now expires) \<longleftrightarrow> step_key rid sid r \<and> lease_expired now r"
| "holders_call r (CompleteStep rid sid owner out at) \<longleftrightarrow> leased_step rid sid owner r"
| "holders_call r (FailStep rid sid owner out at) \<longleftrightarrow> leased_step rid sid owner r"
| "holders_call r (Wait rid sid owner approval at) \<longleftrightarrow> leased_step rid sid owner r"
| "holders_call r (EnqueueEffect rid sid owner row out at) \<longleftrightarrow> leased_step rid sid owner r"
| "holders_call r _ \<longleftrightarrow> False"

fun ends_run :: "run_row list \<Rightarrow> string \<Rightarrow> run_action \<Rightarrow> bool" where
  "ends_run rows i (CancelRun rid at) \<longleftrightarrow> (rid, i) \<in> (child_rel rows)\<^sup>*"
| "ends_run rows i (FailRun rid at) \<longleftrightarrow> rid = i"
| "ends_run rows i (FailExpired rid now_ms) \<longleftrightarrow> rid = i"
| "ends_run rows i _ \<longleftrightarrow> False"

lemma step_transition_steps: "run_steps (snd (step_transition rid sid operation p f status now s)) = update_where p f (run_steps s)"
  by (simp add: step_transition_def Let_def set_run_status_def)

lemma close_steps_keeps: "r \<in> set (run_steps s) \<Longrightarrow> \<not> C (sr_run_id r) \<Longrightarrow> r \<in> set (run_steps (close_steps C out at s))"
  by (auto simp: close_steps_def intro: update_where_keeps)

lemma create_run_steps: "run_steps (snd (create_run_with_id lj sha uuid rid n s)) = run_steps s"
proof -
  have "run_steps (snd (transaction (create_run_tx rid n) s)) = run_steps s"
    by (rule transaction_invariant [where P = "\<lambda>t. run_steps t = run_steps s"])
      (auto simp: create_run_tx_def insert_run_or_ignore_def append_run_def split: sum.splits if_splits)
  then show ?thesis
    using observe_run_label_tables(2)
    by (auto simp: create_run_with_id_def split: prod.splits sum.splits) (metis snd_conv)+
qed

lemma claim_step_steps: "run_steps (snd (claim_step rid sid owner now expires s)) = run_steps s \<or>
   (\<exists>f. run_steps (snd (claim_step rid sid owner now expires s)) = update_where (claimable_step rid sid now s) f (run_steps s))"
proof (cases "observe_execution_budget_at_second rid now s")
  case (Pair res s1)
  with observe_second_tables [of rid now s] have t: "run_rows s1 = run_rows s" "run_steps s1 = run_steps s" by (simp_all add: same_tables_def)
  then have "claimable_step rid sid now s1 = claimable_step rid sid now s" by (intro ext) (simp add: claimable_step_def at_cursor_def)
  with Pair t show ?thesis by (auto simp: claim_step_def step_transition_steps split: sum.splits)
qed

lemma enqueue_steps: "run_steps (snd (enqueue_outbox_and_complete_step rid sid owner row out at s)) = run_steps s \<or>
   (\<exists>f. run_steps (snd (enqueue_outbox_and_complete_step rid sid owner row out at s)) = update_where (leased_step rid sid owner) f (run_steps s))"
proof -
  have "run_steps s' = run_steps s \<or> (\<exists>f. run_steps s' = update_where (leased_step rid sid owner) f (run_steps s))"
    if "enqueue_tx rid sid owner row out at s = Inr (u, s')" for u s'
    using that by (auto simp: enqueue_tx_def Let_def set_run_status_def split: option.splits if_splits)
  then have "run_steps (snd (transaction (enqueue_tx rid sid owner row out at) s)) = run_steps s \<or>
     (\<exists>f. run_steps (snd (transaction (enqueue_tx rid sid owner row out at) s)) = update_where (leased_step rid sid owner) f (run_steps s))"
    by (cases rule: transaction_cases [of "enqueue_tx rid sid owner row out at" s]) auto
  then show ?thesis by (auto simp: enqueue_outbox_and_complete_step_def split: sum.splits prod.splits)
qed

lemma fail_run_keeps:
  assumes "r \<in> set (run_steps s)" "sr_run_id r \<noteq> rid"
  shows "r \<in> set (run_steps (snd (fail_run rid at s)))" "r \<in> set (run_steps (snd (fail_run_if_budget_expired rid now_ms s)))"
proof -
  show "r \<in> set (run_steps (snd (fail_run rid at s)))"
    using assms by (auto simp: fail_run_def Let_def intro!: close_steps_keeps)
  obtain res s1 where e: "execution_budget_at rid now_ms s = (res, s1)" by (cases "execution_budget_at rid now_ms s")
  with execution_budget_at_tables(2) [of rid now_ms s] assms(1) have "r \<in> set (run_steps s1)" by simp
  with e assms(2) show "r \<in> set (run_steps (snd (fail_run_if_budget_expired rid now_ms s)))"
    by (auto simp: fail_run_if_budget_expired_def Let_def split: sum.splits intro!: close_steps_keeps)
qed

text \<open>The result of a cancellation: the runs of the subtree that had not ended, and their unfinished steps, are closed.\<close>

definition cancel_tree :: "string set \<Rightarrow> int \<Rightarrow> run_db \<Rightarrow> run_db" where
  "cancel_tree T at s = close_steps (\<lambda>i. i \<in> T) (\<lambda>_. Some ''error:cancelled'') at
     (update_runs (\<lambda>n. rn_run_id n \<in> T \<and> active (rn_status n)) (\<lambda>n. n\<lparr>rn_status := ''cancelled'', rn_updated_at := at\<rparr>) s)"

lemma update_runs_twice:
  "update_runs (\<lambda>n. (rid, rn_run_id n) \<in> R\<^sup>+ \<and> active (rn_status n)) (\<lambda>n. n\<lparr>rn_status := ''cancelled'', rn_updated_at := at\<rparr>)
     (update_runs (\<lambda>n. rn_run_id n = rid \<and> active (rn_status n)) (\<lambda>n. n\<lparr>rn_status := ''cancelled'', rn_updated_at := at\<rparr>) s) =
   update_runs (\<lambda>n. rn_run_id n \<in> R\<^sup>* `` {rid} \<and> active (rn_status n)) (\<lambda>n. n\<lparr>rn_status := ''cancelled'', rn_updated_at := at\<rparr>) s"
proof -
  let ?c = "\<lambda>n. n\<lparr>rn_status := ''cancelled'', rn_updated_at := at\<rparr>"
  have "update_where (\<lambda>n. (rid, rn_run_id n) \<in> R\<^sup>+ \<and> active (rn_status n)) ?c
      (update_where (\<lambda>n. rn_run_id n = rid \<and> active (rn_status n)) ?c rows) =
    update_where (\<lambda>n. rn_run_id n \<in> R\<^sup>* `` {rid} \<and> active (rn_status n)) ?c rows" for rows
    by (induction rows) (auto simp: rtrancl_eq_or_trancl)
  from this [of "run_rows s"] show ?thesis by (simp add: update_runs_def)
qed

lemma update_runs_none: "count_where p (run_rows s) = 0 \<Longrightarrow> update_runs p f s = s"
  by (simp add: update_runs_def update_where_none count_where_def filter_empty_conv)

lemma cancel_run_tree:
  "snd (cancel_run rid at s) = s \<or> snd (cancel_run rid at s) = cancel_tree ((child_rel (run_rows s))\<^sup>* `` {rid}) at s"
  "fst (cancel_run rid at s) \<Longrightarrow> snd (cancel_run rid at s) = cancel_tree ((child_rel (run_rows s))\<^sup>* `` {rid}) at s"
proof -
  have "(child_rel (run_rows s))\<^sup>+ `` {rid} = {i. (rid, i) \<in> (child_rel (run_rows s))\<^sup>+}" by auto
  note simps = cancel_run_def Let_def descendants_reach cancelled_runs_reach update_runs_none cancel_tree_def
  show "snd (cancel_run rid at s) = s \<or> snd (cancel_run rid at s) = cancel_tree ((child_rel (run_rows s))\<^sup>* `` {rid}) at s"
    using update_runs_twice [of rid "child_rel (run_rows s)" at s] by (auto simp: simps split: option.splits)
  show "snd (cancel_run rid at s) = cancel_tree ((child_rel (run_rows s))\<^sup>* `` {rid}) at s" if "fst (cancel_run rid at s)"
    using that update_runs_twice [of rid "child_rel (run_rows s)" at s] by (auto simp: simps split: option.splits if_splits)
qed

lemma cancel_tree_rows:
  "run_rows (cancel_tree T at s) = map (\<lambda>n. if rn_run_id n \<in> T \<and> active (rn_status n)
     then n\<lparr>rn_status := ''cancelled'', rn_updated_at := at\<rparr> else n) (run_rows s)"
  "run_steps (cancel_tree T at s) = map (\<lambda>r. if sr_run_id r \<in> T \<and> active (sr_status r)
     then r\<lparr>sr_status := ''failed'', sr_output_ref := Some ''error:cancelled'', sr_lease_owner := None, sr_lease_expires_at := None,
       sr_completed_at := Some at\<rparr> else r) (run_steps s)"
  by (simp_all add: cancel_tree_def close_steps_def update_where_def)

text \<open>A step closed with its run.\<close>

definition closed_with_run :: "run_db \<Rightarrow> string \<Rightarrow> string \<Rightarrow> bool" where
  "closed_with_run s rid sid \<longleftrightarrow>
     (\<exists>r \<in> set (run_steps s). step_key rid sid r \<and> sr_status r = ''failed'' \<and> sr_lease_owner r = None \<and> sr_lease_expires_at r = None) \<and>
     (\<forall>n \<in> set (run_rows s). rn_run_id n = rid \<longrightarrow> \<not> active (rn_status n))"

lemma closed_with_runI:
  assumes "r \<in> set (run_steps s)" "step_key rid sid r" "active (sr_status r)" "C rid"
    and "\<And>n. n \<in> set (run_rows s) \<Longrightarrow> rn_run_id n = rid \<Longrightarrow> \<not> active (rn_status n)"
  shows "closed_with_run (close_steps C out at s) rid sid"
proof -
  let ?f = "\<lambda>r. r\<lparr>sr_status := ''failed'', sr_output_ref := out (sr_output_ref r), sr_lease_owner := None, sr_lease_expires_at := None,
    sr_completed_at := Some at\<rparr>"
  have "?f r \<in> set (run_steps (close_steps C out at s))"
    using assms(1-4) by (force simp: close_steps_def set_update_where)
  moreover have "run_rows (close_steps C out at s) = run_rows s" by (simp add: close_steps_def)
  ultimately show ?thesis
    unfolding closed_with_run_def using assms(2,5) by (intro conjI bexI [of _ "?f r"]) auto
qed

lemma fail_run_closes:
  assumes r: "r \<in> set (run_steps s)" "step_key rid sid r" "active (sr_status r)"
  shows "r \<in> set (run_steps (snd (fail_run rid at s))) \<or> closed_with_run (snd (fail_run rid at s)) rid sid"
    "r \<in> set (run_steps (snd (fail_run_if_budget_expired rid now_ms s))) \<or>
       closed_with_run (snd (fail_run_if_budget_expired rid now_ms s)) rid sid"
proof -
  show "r \<in> set (run_steps (snd (fail_run rid at s))) \<or> closed_with_run (snd (fail_run rid at s)) rid sid"
    using r by (auto simp: fail_run_def Let_def update_where_def intro!: closed_with_runI [where r = r])
  obtain res s1 where e: "execution_budget_at rid now_ms s = (res, s1)" by (cases "execution_budget_at rid now_ms s")
  with execution_budget_at_tables(2) [of rid now_ms s] r(1) have r1: "r \<in> set (run_steps s1)" by simp
  show "r \<in> set (run_steps (snd (fail_run_if_budget_expired rid now_ms s))) \<or>
      closed_with_run (snd (fail_run_if_budget_expired rid now_ms s)) rid sid"
  proof (cases "list_ex (\<lambda>b. eb_run_id b = rid \<and> eb_deadline_at_ms b \<le> now_ms) (exec_budgets s1)")
    case True
    with r1 r(2,3) e show ?thesis
      by (cases res) (auto simp: fail_run_if_budget_expired_def Let_def update_where_def intro!: closed_with_runI [where r = r])
  next
    case False
    with r1 e show ?thesis
      by (cases res) (auto simp: fail_run_if_budget_expired_def Let_def count_where_def)
  qed
qed

lemma cancel_run_closes:
  assumes r: "r \<in> set (run_steps s)" "step_key rid sid r" "active (sr_status r)"
  shows "r \<in> set (run_steps (snd (cancel_run i at s))) \<or> closed_with_run (snd (cancel_run i at s)) rid sid"
proof (cases "(i, rid) \<in> (child_rel (run_rows s))\<^sup>* \<and> snd (cancel_run i at s) \<noteq> s")
  case True
  with cancel_run_tree(1) [of i at s] have "snd (cancel_run i at s) = cancel_tree ((child_rel (run_rows s))\<^sup>* `` {i}) at s" by simp
  moreover have "closed_with_run (cancel_tree ((child_rel (run_rows s))\<^sup>* `` {i}) at s) rid sid"
    unfolding cancel_tree_def using r True by (intro closed_with_runI [where r = r]) (auto simp: update_where_def)
  ultimately show ?thesis by simp
next
  case False
  with cancel_run_tree(1) [of i at s] r(1,2) show ?thesis
    by (auto simp: cancel_tree_def intro!: close_steps_keeps)
qed

lemma untouched_step_kept:
  assumes r: "r \<in> set (run_steps s)" "sr_status r = ''running''"
    and a: "\<not> holders_call r a" "\<not> ends_run (run_rows s) (sr_run_id r) a"
  shows "r \<in> set (run_steps (store_step s a))"
proof -
  note tables = budget_tables claim_execution_effect_tables attempt_tables
  have keep: "r \<in> set (run_steps t)" if "run_steps t = run_steps s \<or> (\<exists>f. run_steps t = update_where p f (run_steps s))" "\<not> p r" for t p
    using that r(1) by (auto intro: update_where_keeps)
  have same: "same_tables t s \<Longrightarrow> r \<in> set (run_steps t)" for t using r(1) by (simp add: same_tables_def)
  show ?thesis
  proof (cases a)
    case (Claim rid sid owner now expires)
    with a r(2) have "\<not> claimable_step rid sid now s r" by (auto simp: claimable_step_def)
    with keep [OF claim_step_steps] Claim show ?thesis by simp
  next
    case (EnqueueEffect rid sid owner row out at)
    with a keep [OF enqueue_steps] show ?thesis by simp
  next
    case (Wait rid sid owner approval at)
    with a r show ?thesis by (auto simp: wait_step_def step_transition_steps split: sum.split intro: update_where_keeps)
  next
    case (DefineStep rid n)
    have "r \<in> set (run_steps s')" if "add_step_tx rid n s = Inr (x, s')" for x s'
      using that r(1) by (auto simp: add_step_tx_def insert_step_or_ignore_def Let_def split: option.splits if_splits sum.splits)
    with DefineStep r(1) show ?thesis by (auto simp: add_step_def split: sum.splits prod.splits option.splits)
  next
    case (CancelRun rid at)
    with a(2) show ?thesis using cancel_run_tree [of rid at s] r(1) by (auto simp: cancel_tree_def intro!: close_steps_keeps)
  next
    case (Recover now n m)
    with runs_only_steps [OF runs_only_recover] r(1) show ?thesis by simp
  next
    case (EnsureBudget rid t q e now)
    with r(1) show ?thesis
      by (auto simp: ensure_execution_budget_def insert_budget_def Let_def split: sum.splits option.splits if_splits)
  qed (use a r in \<open>auto simp: complete_step_def fail_step_def finish_step_def resume_waiting_step_def step_transition_steps create_run_steps
      advance_cursor_def complete_run_def Let_def fail_run_keeps intro: update_where_keeps same tables\<close>)
qed

text \<open>
  C10: A step lease is exclusive. While it has not expired, no other worker can claim the step. Over all actions of the store, those of
  other workers and operators included, the leased row can change in two ways only: by a call that its holder makes for the step (or a claim
  at a time when the lease has expired), or because its run ends, by a cancellation of this run or of a run above it, a failure of
  this run or an expired budget of it; then the run is over and the step is closed as failed without a lease.
\<close>

theorem step_lease_exclusive:
  assumes "run_store_ok s" "r \<in> set (run_steps s)" "leased_step rid sid holder r" "sr_lease_expires_at r = Some e"
  shows "(\<forall>owner now expires. now < e \<longrightarrow> (\<exists>err. fst (claim_step rid sid owner now expires s) = Inl err)) \<and>
    (\<forall>a. r \<in> set (run_steps (store_step s a)) \<or> holders_call r a \<or>
       ends_run (run_rows s) rid a \<and> closed_with_run (store_step s a) rid sid)"
proof (intro conjI allI impI)
  fix a
  have r: "step_key rid sid r" "sr_status r = ''running''" "sr_run_id r = rid" using assms(3) by (auto simp: leased_step_def)
  show "r \<in> set (run_steps (store_step s a)) \<or> holders_call r a \<or> ends_run (run_rows s) rid a \<and> closed_with_run (store_step s a) rid sid"
  proof (cases "ends_run (run_rows s) rid a")
    case True
    then show ?thesis
      using fail_run_closes [OF assms(2) r(1)] cancel_run_closes [OF assms(2) r(1)] r(2) by (cases a) auto
  qed (use untouched_step_kept [OF assms(2) r(2)] r(3) in blast)
next
  fix owner now expires assume "now < e"
  obtain res s1 where o: "observe_execution_budget_at_second rid now s = (res, s1)"
    by (cases "observe_execution_budget_at_second rid now s")
  with observe_second_tables [of rid now s] have t: "run_steps s1 = run_steps s" by (simp add: same_tables_def)
  have "\<not> claimable_step rid sid now s1 q" if "q \<in> set (run_steps s)" for q
  proof
    assume q: "claimable_step rid sid now s1 q"
    with assms(3) have "step_key (sr_run_id q) (sr_step_id q) r" by (auto simp: claimable_step_def leased_step_def)
    with steps_unique(1) [OF run_store_okD(2) [OF assms(1)] that assms(2)] have "q = r" by simp
    with q assms(3,4) \<open>now < e\<close> show False by (auto simp: claimable_step_def leased_step_def lease_expired_def)
  qed
  then have "count_where (claimable_step rid sid now s1) (run_steps s1) = 0" by (simp add: t count_where_def)
  with o show "\<exists>err. fst (claim_step rid sid owner now expires s) = Inl err"
    by (auto simp: claim_step_def step_transition_def Let_def split: sum.split)
qed

section \<open>Cancellation\<close>

text \<open>
  C13: Cancelling a run closes exactly its subtree. The runs at or below it, at any depth, that had not ended become cancelled, and the
  unfinished steps of the runs of the subtree become failed, with their leases gone and the cancellation as output. Every other run
  and step is as it was, those of the subtree that had already ended included, and so are the other tables.
\<close>

theorem cancel_closes_subtree:
  assumes "cancel_run rid at s = (True, s')" and "T = {i. (rid, i) \<in> (child_rel (run_rows s))\<^sup>*}"
  shows "run_rows s' = map (\<lambda>n. if rn_run_id n \<in> T \<and> rn_status n \<in> {''pending'', ''running'', ''waiting''}
      then n\<lparr>rn_status := ''cancelled'', rn_updated_at := at\<rparr> else n) (run_rows s) \<and>
    run_steps s' = map (\<lambda>r. if sr_run_id r \<in> T \<and> sr_status r \<in> {''pending'', ''running'', ''waiting''}
      then r\<lparr>sr_status := ''failed'', sr_output_ref := Some ''error:cancelled'', sr_lease_owner := None, sr_lease_expires_at := None,
        sr_completed_at := Some at\<rparr> else r) (run_steps s) \<and>
    s'\<lparr>core := core s, run_steps := run_steps s\<rparr> = s \<and> (core s')\<lparr>state_runs := run_rows s\<rparr> = core s"
proof -
  have "T = (child_rel (run_rows s))\<^sup>* `` {rid}" using assms(2) by auto
  with assms(1) cancel_run_tree(2) [of rid at s] have s': "s' = cancel_tree T at s" by simp
  have "s'\<lparr>core := core s, run_steps := run_steps s\<rparr> = s \<and> (core s')\<lparr>state_runs := run_rows s\<rparr> = core s"
    by (simp add: s' cancel_tree_def close_steps_def update_runs_def update_steps_def)
  then show ?thesis unfolding s' cancel_tree_rows active_def by blast
qed

section \<open>Effects\<close>

lemma insert_outbox_or_ignore_key:
  assumes "distinct (map ob_idempotency_key (state_outbox db))"
  shows "distinct (map ob_idempotency_key (state_outbox (insert_outbox_or_ignore row db)))"
    "insert_outbox_or_ignore row (insert_outbox_or_ignore row db) = insert_outbox_or_ignore row db"
  using assms by (auto simp: insert_outbox_or_ignore_def insert_outbox_def new_outbox_row_def Let_def list_ex_iff)

lemma enqueue_tx_Inr:
  assumes "enqueue_tx rid sid owner row out at s = Inr (u, s')"
  obtains ob where "find (\<lambda>r. ob_idempotency_key r = o_idempotency_key row) (state_outbox (core s')) = Some ob"
    "ob_conversation_id ob = o_conversation_id row" "ob_effect_kind ob = o_effect_kind row" "ob_payload ob = o_payload row"
    "ob_enqueued_seq ob = o_enqueued_seq row" "state_outbox (core s') = state_outbox (insert_outbox_or_ignore row (core s))"
  using assms by (auto simp: enqueue_tx_def Let_def set_run_status_def split: option.splits if_splits)

lemma enqueue_tx_completed:
  assumes ok: "run_store_ok s" and e: "enqueue_tx rid sid owner row out at s = Inr (u, s')"
  shows "\<exists>r \<in> set (run_steps s'). step_key rid sid r \<and> sr_status r = ''completed''"
proof -
  have "\<exists>r \<in> set (run_steps s'). step_key rid sid r \<and> sr_status r = ''completed''"
    if "count_where (leased_step rid sid owner) (run_steps s) = 1"
      "run_steps s' = update_where (leased_step rid sid owner) (\<lambda>r. r\<lparr>sr_status := ''completed'', sr_output_ref := out,
         sr_lease_owner := None, sr_lease_expires_at := None, sr_completed_at := Some at\<rparr>) (run_steps s)"
  proof -
    from that(1) have "\<exists>r \<in> set (run_steps s). leased_step rid sid owner r" by (intro count_where_pos) simp
    then obtain r where r: "r \<in> set (run_steps s)" "leased_step rid sid owner r" by blast
    show ?thesis unfolding that(2)
      by (rule bexI [OF _ update_where_changes [of r "run_steps s" "leased_step rid sid owner", OF r]])
        (use r(2) in \<open>simp add: leased_step_def\<close>)
  qed
  moreover have "\<exists>r \<in> set (run_steps s). step_key rid sid r \<and> sr_status r = ''completed''"
    if "find (step_key rid sid) (run_steps s) = Some q" "sr_status q = ''completed''" for q
    using find_SomeD [OF that(1)] that(2) by blast
  ultimately show ?thesis using e
    by (auto simp: enqueue_tx_def Let_def set_run_status_def find_step_def split: option.splits if_splits)
qed

lemma required_step_Inr:
  assumes "run_store_ok s" "r \<in> set (run_steps s)" "step_key rid sid r"
  shows "find_step rid sid s = Some r" "\<exists>st. required_step rid sid s = Inr st \<and> row_to_step r = Inr st"
proof -
  show f: "find_step rid sid s = Some r"
  proof (cases "find_step rid sid s")
    case None
    with assms show ?thesis by (auto simp: find_step_def find_None_iff)
  next
    case (Some q)
    then have "q \<in> set (run_steps s)" "step_key rid sid q" by (auto simp: find_step_def dest: find_SomeD)
    with Some assms steps_unique(1) [OF run_store_okD(2) [OF assms(1)], of q r] show ?thesis by simp
  qed
  from step_fields [OF assms(1,2)] have "\<exists>st. row_to_step r = Inr st" by (auto simp: step_row_ok_def row_to_step_def)
  with f show "\<exists>st. required_step rid sid s = Inr st \<and> row_to_step r = Inr st" by (auto simp: required_step_def get_step_def)
qed

lemma enqueue_tx_fields:
  assumes "enqueue_tx rid sid owner row out at s = Inr (u, s')" "r \<in> set (run_steps s')"
  shows "\<exists>q \<in> set (run_steps s). step_ids q = step_ids r \<and> sr_kind q = sr_kind r \<and>
    sr_outbox_idempotency_key q = sr_outbox_idempotency_key r"
  using assms
  by (auto simp: enqueue_tx_def Let_def set_run_status_def step_ids_def split: option.splits if_splits elim!: update_where_cases) blast+

lemma enqueue_tx_run:
  assumes "enqueue_tx rid sid owner row out at s = Inr (u, s')" "required_run rid s = Inr run"
  shows "\<exists>run'. required_run rid s' = Inr run' \<and> run_conversation_id run' = run_conversation_id run"
proof -
  have "run_rows s' = run_rows s \<or> run_rows s' = update_where (\<lambda>r. rn_run_id r = rid) (\<lambda>r. r\<lparr>rn_status := ''running'', rn_updated_at := at\<rparr>) (run_rows s)"
    using assms(1) by (auto simp: enqueue_tx_def Let_def set_run_status_def split: option.splits if_splits)
  then show ?thesis
  proof
    assume "run_rows s' = run_rows s"
    with assms(2) show ?thesis by (simp add: required_run_def get_run_def)
  next
    assume rows: "run_rows s' = update_where (\<lambda>r. rn_run_id r = rid) (\<lambda>r. r\<lparr>rn_status := ''running'', rn_updated_at := at\<rparr>) (run_rows s)"
    from assms(2) obtain n where n: "find (\<lambda>r. rn_run_id r = rid) (run_rows s) = Some n" "row_to_run n = Inr run"
      by (auto simp: required_run_def get_run_def split: option.splits sum.splits) (metis map_sum.simps sum.exhaust sum.simps(4) Inr_not_Inl old.sum.inject(2) option.inject)
    then have "find (\<lambda>r. rn_run_id r = rid) (run_rows s') = Some (n\<lparr>rn_status := ''running'', rn_updated_at := at\<rparr>)"
      unfolding rows by (subst find_update_where_key) (auto dest: find_SomeD)
    with n(2) show ?thesis by (auto simp: required_run_def get_run_def row_to_run_def split: option.splits)
  qed
qed

text \<open>
  C12: An effect step enqueues its effect once: when the call succeeds, the step is completed and exactly one outbox row carries the
  step's idempotency key, with the effect asked for; a retry of the same call by any worker succeeds and changes nothing.
\<close>

theorem effect_enqueued_once:
  assumes ok: "run_store_ok s" and keys: "distinct (map ob_idempotency_key (state_outbox (core s)))"
    and call: "enqueue_outbox_and_complete_step rid sid owner row out at s = (Inr st, s')"
  shows "step_status st = StepCompleted \<and> count_where (\<lambda>r. ob_idempotency_key r = o_idempotency_key row) (state_outbox (core s')) = 1 \<and>
    (\<exists>ob \<in> set (state_outbox (core s')). ob_idempotency_key ob = o_idempotency_key row \<and>
       ob_conversation_id ob = o_conversation_id row \<and> ob_effect_kind ob = o_effect_kind row \<and> ob_payload ob = o_payload row) \<and>
    (\<forall>owner' at'. enqueue_outbox_and_complete_step rid sid owner' row out at' s' = (Inr st, s'))"
proof -
  from call obtain st0 run0 u where c: "required_step rid sid s = Inr st0" "step_kind st0 \<in> {OutboxEnqueue, ToolDispatch}"
      "step_outbox_idempotency_key st0 = Some (o_idempotency_key row)" "required_run rid s = Inr run0"
      "run_conversation_id run0 = o_conversation_id row" "enqueue_tx rid sid owner row out at s = Inr (u, s')"
      "required_step rid sid s' = Inr st"
    by (auto simp: enqueue_outbox_and_complete_step_def transaction_def split: sum.splits prod.splits if_splits)
  from c(6) obtain ob where ob: "find (\<lambda>r. ob_idempotency_key r = o_idempotency_key row) (state_outbox (core s')) = Some ob"
    "ob_conversation_id ob = o_conversation_id row" "ob_effect_kind ob = o_effect_kind row" "ob_payload ob = o_payload row"
    "ob_enqueued_seq ob = o_enqueued_seq row" "state_outbox (core s') = state_outbox (insert_outbox_or_ignore row (core s))"
    by (rule enqueue_tx_Inr)
  have ok': "run_store_ok s'" by (rule enqueue_tx_ok [OF ok c(6)])
  from enqueue_tx_completed [OF ok c(6)] obtain r where r: "r \<in> set (run_steps s')" "step_key rid sid r" "sr_status r = ''completed''"
    by blast
  from required_step_Inr [OF ok' r(1,2)] c(7) have st: "row_to_step r = Inr st" "find_step rid sid s' = Some r" by auto
  then have status: "step_status st = StepCompleted" using r(3) by (auto simp: row_to_step_def split: option.splits)
  have "count_where (\<lambda>r. ob_idempotency_key r = o_idempotency_key row) (state_outbox (core s')) =
      of_bool (\<exists>q \<in> set (state_outbox (core s')). ob_idempotency_key q = o_idempotency_key row)"
    using insert_outbox_or_ignore_key(1) [OF keys, of row] ob(6) by (intro count_where_distinct [where k = ob_idempotency_key]) auto
  with ob(1) have one: "count_where (\<lambda>r. ob_idempotency_key r = o_idempotency_key row) (state_outbox (core s')) = 1"
    by (auto dest: find_SomeD)
  have replay: "enqueue_tx rid sid owner' row out at' s' = Inr ((), s')" for owner' at'
  proof -
    have "\<not> leased_step rid sid owner' q" if "q \<in> set (run_steps s')" for q
    proof
      assume q: "leased_step rid sid owner' q"
      with r(2) have "r = q" by (intro steps_unique(1) [OF run_store_okD(2) [OF ok'] r(1) that]) (simp add: leased_step_def)
      with q r(3) show False by (simp add: leased_step_def)
    qed
    then have "count_where (leased_step rid sid owner') (run_steps s') = 0" by (simp add: count_where_def)
    moreover have "insert_outbox_or_ignore row (core s') = core s'"
      using ob(1) by (auto simp: insert_outbox_or_ignore_def insert_outbox_def list_ex_iff dest: find_SomeD)
    ultimately show ?thesis using ob st(2) r(3) by (simp add: enqueue_tx_def Let_def)
  qed
  from enqueue_tx_fields [OF c(6) r(1)] obtain q where q: "q \<in> set (run_steps s)" "step_key rid sid q" "sr_kind q = sr_kind r"
      "sr_outbox_idempotency_key q = sr_outbox_idempotency_key r"
    using r(2) by (auto simp: step_ids_def)
  from required_step_Inr(2) [OF ok q(1,2)] c(1) have "row_to_step q = Inr st0" by auto
  with st(1) q(3,4) have "step_kind st = step_kind st0" "step_outbox_idempotency_key st = step_outbox_idempotency_key st0"
    by (auto simp: row_to_step_def split: option.splits)
  with c enqueue_tx_run [OF c(6,4)] replay
  have "enqueue_outbox_and_complete_step rid sid owner' row out at' s' = (Inr st, s')" for owner' at'
    by (auto simp: enqueue_outbox_and_complete_step_def)
  moreover have "\<exists>ob \<in> set (state_outbox (core s')). ob_idempotency_key ob = o_idempotency_key row \<and>
       ob_conversation_id ob = o_conversation_id row \<and> ob_effect_kind ob = o_effect_kind row \<and> ob_payload ob = o_payload row"
    using find_SomeD [OF ob(1)] ob(2-4) by (intro bexI [of _ ob]) simp_all
  ultimately show ?thesis using status one by simp
qed

section \<open>Recovery settles\<close>

definition steps_ahead :: "string \<Rightarrow> int \<Rightarrow> run_db \<Rightarrow> nat" where
  "steps_ahead rid k s = count_where (\<lambda>r. sr_run_id r = rid \<and> k \<le> sr_ordinal r) (run_steps s)"

definition cursor_move :: "NextSafeAction \<Rightarrow> bool" where
  "cursor_move a \<longleftrightarrow> (case a of AdvanceCursor _ \<Rightarrow> True | CompleteRun _ \<Rightarrow> True | _ \<Rightarrow> False)"

lemma required_run_iff:
  "required_run rid s = Inr run \<longleftrightarrow> (\<exists>n. find (\<lambda>r. rn_run_id r = rid) (run_rows s) = Some n \<and> row_to_run n = Inr run)"
proof (cases "find (\<lambda>r. rn_run_id r = rid) (run_rows s)")
  case (Some n)
  then show ?thesis by (cases "row_to_run n") (simp_all add: required_run_def get_run_def)
qed (simp add: required_run_def get_run_def)

lemma row_to_run_fields:
  assumes "row_to_run n = Inr run"
  shows "run_id run = rn_run_id n" "run_cursor run = rn_cursor n" "RunStatus_parse (rn_status n) = Some (run_status run)"
  using assms by (auto simp: row_to_run_def split: option.splits)

lemma required_run_fields:
  assumes "required_run rid s = Inr run"
  obtains n where "find (\<lambda>r. rn_run_id r = rid) (run_rows s) = Some n" "n \<in> set (run_rows s)" "rn_run_id n = rid" "run_id run = rid"
    "row_to_run n = Inr run" "run_cursor run = rn_cursor n" "RunStatus_parse (rn_status n) = Some (run_status run)"
proof -
  from assms obtain n where n: "find (\<lambda>r. rn_run_id r = rid) (run_rows s) = Some n" "row_to_run n = Inr run"
    by (auto simp: required_run_iff)
  with find_SomeD [OF n(1)] row_to_run_fields [OF n(2)] that [of n] show thesis by simp
qed

lemma next_safe_action_total:
  assumes "run_store_ok s" "required_run rid s = Inr run"
  shows "\<exists>a. next_safe_action rid now s = Inr a"
proof -
  show ?thesis
  proof (cases "step_at rid (run_cursor run) s")
    case None
    with assms(2) show ?thesis by (cases "run_status run") (simp_all add: next_safe_action_def)
  next
    case (Some r)
    with step_fields [OF assms(1) step_at_Some(1) [OF Some]] obtain st where "row_to_step r = Inr st"
      by (auto simp: step_row_ok_def row_to_step_def)
    with Some assms(2) show ?thesis by (cases "run_status run") (simp_all add: next_safe_action_def)
  qed
qed

lemma next_safe_action_move:
  assumes "required_run rid s = Inr run" "next_safe_action rid now s = Inr a"
  shows "a = AdvanceCursor st \<Longrightarrow> run_status run \<in> {RunPending, RunRunning, RunWaiting} \<and>
      (\<exists>r. step_at rid (run_cursor run) s = Some r \<and> sr_status r = ''completed'')"
    "a = CompleteRun k \<Longrightarrow> run_status run \<in> {RunPending, RunRunning, RunWaiting} \<and> k = run_cursor run \<and> step_at rid k s = None"
proof -
  have "step_status st = StepCompleted \<Longrightarrow> row_to_step r = Inr st \<Longrightarrow> sr_status r = ''completed''" for r st
    using run_step_status.parse_sound by (fastforce simp: row_to_step_def split: option.splits)
  with assms show "a = AdvanceCursor st \<Longrightarrow> run_status run \<in> {RunPending, RunRunning, RunWaiting} \<and>
      (\<exists>r. step_at rid (run_cursor run) s = Some r \<and> sr_status r = ''completed'')"
    by (auto simp: next_safe_action_def split: RunStatus.splits option.splits sum.splits RunStepStatus.splits if_splits)
  from assms show "a = CompleteRun k \<Longrightarrow> run_status run \<in> {RunPending, RunRunning, RunWaiting} \<and> k = run_cursor run \<and> step_at rid k s = None"
    by (auto simp: next_safe_action_def split: RunStatus.splits option.splits sum.splits RunStepStatus.splits if_splits)
qed

lemma active_run_status: "RunStatus_parse t = Some st \<Longrightarrow> st \<in> {RunPending, RunRunning, RunWaiting} \<Longrightarrow> active t"
  using run_status.parse_sound by (fastforce simp: active_def)

lemma run_at_row:
  assumes "runs_ok rows" "n \<in> set rows" "rn_run_id n = rid" "rn_cursor n = k" "active (rn_status n)"
  shows "count_where (run_at rid k) rows = 1"
proof -
  have "count_where (run_at rid k) rows = of_bool (\<exists>n \<in> set rows. run_at rid k n)"
    by (rule count_runs_where [OF assms(1)]) (simp add: run_at_def)
  moreover have "\<exists>n \<in> set rows. run_at rid k n" using assms by (auto simp: run_at_def)
  ultimately show ?thesis by simp
qed

lemma advance_succeeds:
  assumes ok: "run_store_ok s" and run: "required_run rid s = Inr run" and a: "next_safe_action rid now s = Inr (AdvanceCursor st)"
  obtains run1 s1 where "advance_cursor rid (run_cursor run) now s = (Inr run1, s1)" "required_run rid s1 = Inr run1"
    "run_cursor run1 = run_cursor run + 1" "run_store_ok s1" "runs_only s s1"
    "steps_ahead rid (run_cursor run1) s1 < steps_ahead rid (run_cursor run) s"
proof -
  let ?k = "run_cursor run"
  from run obtain n where n: "find (\<lambda>r. rn_run_id r = rid) (run_rows s) = Some n" "n \<in> set (run_rows s)" "rn_run_id n = rid" "run_id run = rid"
    "row_to_run n = Inr run" "run_cursor run = rn_cursor n" "RunStatus_parse (rn_status n) = Some (run_status run)"
    by (rule required_run_fields)
  from next_safe_action_move(1) [OF run a] obtain r where r: "step_at rid ?k s = Some r" "sr_status r = ''completed''"
      and act: "run_status run \<in> {RunPending, RunRunning, RunWaiting}" by auto
  have active: "active (rn_status n)" by (rule active_run_status [OF n(7) act])
  let ?f = "\<lambda>r. r\<lparr>rn_cursor := rn_cursor r + 1, rn_updated_at := now, rn_status := ''pending''\<rparr>"
  let ?s1 = "update_runs (run_at rid ?k) ?f s"
  have one: "count_where (run_at rid ?k) (run_rows s) = 1"
    by (rule run_at_row [OF run_store_okD(1) [OF ok] n(2,3) n(6) [symmetric] active])
  have "find (\<lambda>r. rn_run_id r = rid) (run_rows ?s1) = Some (?f n)"
    unfolding update_runs_simps using n(1,3,6) active by (subst find_update_where_key) (auto simp: run_at_def)
  then obtain run1 where run1: "required_run rid ?s1 = Inr run1" "run_cursor run1 = ?k + 1"
    using n(6) by (auto simp: required_run_iff row_to_run_def)
  have adv: "advance_cursor rid ?k now s = (Inr run1, ?s1)" using r one run1(1) by (simp add: advance_cursor_def Let_def)
  have "steps_ahead rid (?k + 1) ?s1 < steps_ahead rid ?k s"
  proof -
    let ?P = "\<lambda>q. sr_run_id q = rid \<and> ?k + 1 \<le> sr_ordinal q" and ?Q = "\<lambda>q. sr_run_id q = rid \<and> ?k \<le> sr_ordinal q"
    have "r \<in> set (run_steps s)" "?Q r" "\<not> ?P r" using step_at_Some [OF r(1)] by auto
    moreover have "filter ?P (filter ?Q (run_steps s)) = filter ?P (run_steps s)" by (simp, rule filter_cong) auto
    ultimately have "length (filter ?P (filter ?Q (run_steps s))) < length (filter ?Q (run_steps s))"
      by (intro length_filter_less [of r]) auto
    then show ?thesis unfolding steps_ahead_def count_where_def \<open>filter ?P (filter ?Q (run_steps s)) = _\<close> by simp
  qed
  with adv run1 advance_cursor_ok [OF ok, of rid ?k now] that show thesis by (simp add: run1(2))
qed

lemma complete_succeeds:
  assumes ok: "run_store_ok s" and run: "required_run rid s = Inr run" and a: "next_safe_action rid now s = Inr (CompleteRun k)"
  obtains run1 s1 where "complete_run rid k now s = (Inr run1, s1)" "next_safe_action rid now s1 = Inr NextRunCompleted" "runs_only s s1"
proof -
  from run obtain n where n: "find (\<lambda>r. rn_run_id r = rid) (run_rows s) = Some n" "n \<in> set (run_rows s)" "rn_run_id n = rid" "run_id run = rid"
    "row_to_run n = Inr run" "run_cursor run = rn_cursor n" "RunStatus_parse (rn_status n) = Some (run_status run)"
    by (rule required_run_fields)
  from next_safe_action_move(2) [OF run a] have k: "k = rn_cursor n" "step_at rid k s = None"
      and act: "run_status run \<in> {RunPending, RunRunning, RunWaiting}" using n(6) by auto
  have active: "active (rn_status n)" by (rule active_run_status [OF n(7) act])
  let ?f = "\<lambda>r. r\<lparr>rn_status := ''completed'', rn_updated_at := now\<rparr>"
  let ?s1 = "update_runs (run_at rid k) ?f s"
  have one: "count_where (run_at rid k) (run_rows s) = 1"
    by (rule run_at_row [OF run_store_okD(1) [OF ok] n(2,3) k(1) [symmetric] active])
  have "find (\<lambda>r. rn_run_id r = rid) (run_rows ?s1) = Some (?f n)"
    unfolding update_runs_simps using n(1,3) k(1) active by (subst find_update_where_key) (auto simp: run_at_def)
  then obtain run1 where "required_run rid ?s1 = Inr run1" "run_status run1 = RunCompleted"
    by (auto simp: required_run_iff row_to_run_def)
  with one k(2) that show thesis by (simp add: complete_run_def next_safe_action_def Let_def)
qed

text \<open>
  C14: Recovery settles a run: with more transitions allowed than the run has steps at or after its cursor, the loop ends by itself, with
  no completed checkpoint left at the cursor and no empty cursor left open; only the run table has changed, so no
  step is dispatched and no effect enqueued.
\<close>

theorem recovery_settles_run:
  assumes "run_store_ok s" "required_run rid s = Inr run" "next_safe_action rid now s = Inr action"
    "steps_ahead rid (run_cursor run) s < budget"
  shows "\<exists>ts s' a. recover_run now budget run action s = (Inr (ts, False), s') \<and> runs_only s s' \<and>
    next_safe_action rid now s' = Inr a \<and> \<not> cursor_move a"
  using assms
proof (induction budget arbitrary: s run action)
  case (Suc budget)
  have rid: "run_id run = rid" using required_run_fields [OF Suc.prems(2)] by metis
  show ?case
  proof (cases action)
    case (AdvanceCursor st)
    from Suc.prems(3) have a: "next_safe_action rid now s = Inr (AdvanceCursor st)" by (simp add: AdvanceCursor)
    from advance_succeeds [OF Suc.prems(1,2) a] obtain run1 s1 where s1: "advance_cursor rid (run_cursor run) now s = (Inr run1, s1)"
      "required_run rid s1 = Inr run1" "run_cursor run1 = run_cursor run + 1" "run_store_ok s1" "runs_only s s1"
      "steps_ahead rid (run_cursor run1) s1 < steps_ahead rid (run_cursor run) s" by blast
    from next_safe_action_total [OF s1(4,2)] obtain a1 where a1: "next_safe_action rid now s1 = Inr a1" by blast
    have "steps_ahead rid (run_cursor run1) s1 < budget" using s1(6) Suc.prems(4) by simp
    from Suc.IH [OF s1(4,2) a1 this] obtain ts s' b where "recover_run now budget run1 a1 s1 = (Inr (ts, False), s')" "runs_only s1 s'"
      "next_safe_action rid now s' = Inr b" "\<not> cursor_move b" by blast
    moreover have "run_id run1 = rid" using required_run_fields [OF s1(2)] by metis
    ultimately show ?thesis using runs_only_trans [OF s1(5)] s1(1) a1 by (auto simp: AdvanceCursor rid Let_def)
  next
    case (CompleteRun k)
    with complete_succeeds [OF Suc.prems(1,2)] Suc.prems(3) obtain run1 s1 where
      "complete_run rid k now s = (Inr run1, s1)" "next_safe_action rid now s1 = Inr NextRunCompleted" "runs_only s s1" by metis
    then show ?thesis by (auto simp: CompleteRun rid cursor_move_def)
  qed (use Suc.prems(3) in \<open>auto simp: cursor_move_def\<close>)
qed simp

section \<open>Witnesses\<close>

definition sample_run_row :: "string \<Rightarrow> string option \<Rightarrow> string \<Rightarrow> int \<Rightarrow> run_row" where
  "sample_run_row rid parent status cursor = \<lparr>rn_run_id = rid, rn_conversation_id = ''c'', rn_parent_run_id = parent, rn_status = status,
     rn_cursor = cursor, rn_input_event_seq = 1, rn_started_at = 1, rn_updated_at = 1, rn_deadline_at = None\<rparr>"

definition sample_step_row :: "string \<Rightarrow> string \<Rightarrow> int \<Rightarrow> string \<Rightarrow> step_row" where
  "sample_step_row rid sid ordinal status = \<lparr>sr_run_id = rid, sr_step_id = sid, sr_ordinal = ordinal, sr_kind = ''outbox_enqueue'',
     sr_status = status, sr_attempt = 1, sr_input_hash = ''h'', sr_output_ref = None, sr_approval_id = None,
     sr_outbox_idempotency_key = Some (rid @ ''/'' @ sid),
     sr_lease_owner = (if status = ''running'' then Some ''w'' else None),
     sr_lease_expires_at = (if status = ''running'' then Some 100 else None), sr_started_at = None,
     sr_completed_at = (if status = ''completed'' then Some 5 else None)\<rparr>"

text \<open>A parent with a completed step behind its cursor and a leased one at it, and a child with two completed steps.\<close>

definition sample_run_db :: run_db where
  "sample_run_db = empty_run_db\<lparr>
     core := empty_database\<lparr>state_runs := [sample_run_row ''p'' None ''running'' 1, sample_run_row ''k'' (Some ''p'') ''pending'' 0]\<rparr>,
     run_steps := [sample_step_row ''p'' ''a'' 0 ''completed'', sample_step_row ''p'' ''b'' 1 ''running'',
       sample_step_row ''k'' ''a'' 0 ''completed'', sample_step_row ''k'' ''b'' 1 ''completed'']\<rparr>"

lemma sample_run_db_ok: "run_store_ok sample_run_db"
proof (rule run_store_okI)
  have kind: "RunStepKind_parse ''outbox_enqueue'' = Some OutboxEnqueue" by (simp add: RunStepKind_parse_def)
  show "runs_ok (run_rows sample_run_db)" by (simp add: sample_run_db_def sample_run_row_def runs_ok_def)
  show "steps_ok (run_steps sample_run_db)"
    by (simp add: sample_run_db_def sample_step_row_def steps_ok_def step_row_ok_def step_ids_def step_slot_def kind)
  show "live_at_cursor (run_rows sample_run_db) r" if "r \<in> set (run_steps sample_run_db)" for r
    using that by (auto simp: sample_run_db_def sample_run_row_def sample_step_row_def live_at_cursor_def)
  show "passed (run_steps sample_run_db) n" if "n \<in> set (run_rows sample_run_db)" for n
    using that by (auto simp: sample_run_db_def sample_run_row_def sample_step_row_def passed_def)
qed

definition run_sample_event :: event_row where
  "run_sample_event = \<lparr>er_conversation_id = ''c'', er_seq = 1, er_kind = ''user_msg'', er_payload = ''hi'', er_committed_at = 1, er_actor = None,
     er_tag = None, er_key_id = 0, er_integrity_version = 0, er_prev_tag = None\<rparr>"

definition sample_new_run :: NewRun where
  "sample_new_run = \<lparr>nr_conversation_id = ''c'', nr_parent_run_id = None, nr_input_event_seq = 1, nr_started_at = 1, nr_deadline_at = None\<rparr>"

definition sample_new_step :: NewRunStep where
  "sample_new_step = \<lparr>ns_step_id = ''a'', ns_ordinal = 0, ns_kind = ModelRequest, ns_input_hash = ''h'', ns_approval_id = None,
     ns_outbox_idempotency_key = None\<rparr>"

definition run_sample_history :: "run_action list" where
  "run_sample_history = [Create sample_label_json (\<lambda>_. replicate 64 CHR ''a'') ''u'' ''r'' sample_new_run, DefineStep ''r'' sample_new_step,
     Claim ''r'' ''a'' ''w'' 2 9, CompleteStep ''r'' ''a'' ''w'' (Some ''out'') 3, Advance ''r'' 0 4, CompleteAt ''r'' 1 5]"

theorem run_store_invariant_witness:
  "run_store_ok (foldl store_step (empty_run_db\<lparr>core := empty_database\<lparr>state_events := [run_sample_event]\<rparr>\<rparr>) run_sample_history) \<and>
   map rn_status (run_rows (foldl store_step (empty_run_db\<lparr>core := empty_database\<lparr>state_events := [run_sample_event]\<rparr>\<rparr>) run_sample_history)) = [''completed'']"
proof
  show "run_store_ok (foldl store_step (empty_run_db\<lparr>core := empty_database\<lparr>state_events := [run_sample_event]\<rparr>\<rparr>) run_sample_history)"
    by (rule run_store_invariant) (simp_all add: empty_run_db_def empty_database_def)
  show "map rn_status (run_rows (foldl store_step (empty_run_db\<lparr>core := empty_database\<lparr>state_events := [run_sample_event]\<rparr>\<rparr>) run_sample_history)) = [''completed'']"
    by code_simp
qed

theorem final_states_are_final_witness:
  "final_kept sample_run_db (foldl store_step sample_run_db [CancelRun ''p'' 7, Claim ''p'' ''a'' ''v'' 8 9]) \<and>
   map sr_status (run_steps (foldl store_step sample_run_db [CancelRun ''p'' 7, Claim ''p'' ''a'' ''v'' 8 9])) = [''completed'', ''failed'', ''completed'', ''completed'']"
  using final_states_are_final [OF sample_run_db_ok] by code_simp

theorem step_lease_exclusive_witness:
  "leased_step ''p'' ''b'' ''w'' (sample_step_row ''p'' ''b'' 1 ''running'') \<and>
   (\<exists>err. fst (claim_step ''p'' ''b'' ''v'' 50 200 sample_run_db) = Inl err) \<and>
   sample_step_row ''p'' ''b'' 1 ''running'' \<in> set (run_steps (store_step sample_run_db (CompleteStep ''p'' ''b'' ''v'' None 50)))"
proof -
  have l: "leased_step ''p'' ''b'' ''w'' (sample_step_row ''p'' ''b'' 1 ''running'')" by code_simp
  have m: "sample_step_row ''p'' ''b'' 1 ''running'' \<in> set (run_steps sample_run_db)" by (simp add: sample_run_db_def)
  have e: "sr_lease_expires_at (sample_step_row ''p'' ''b'' 1 ''running'') = Some 100" by code_simp
  have t: "\<not> holders_call (sample_step_row ''p'' ''b'' 1 ''running'') (CompleteStep ''p'' ''b'' ''v'' None 50)" by code_simp
  note x = step_lease_exclusive [OF sample_run_db_ok m l e]
  have "\<exists>err. fst (claim_step ''p'' ''b'' ''v'' 50 200 sample_run_db) = Inl err" using conjunct1 [OF x] by simp
  then show ?thesis using l conjunct2 [OF x, THEN spec, of "CompleteStep ''p'' ''b'' ''v'' None 50"] t by auto
qed

lemma filter_map_kept:
  assumes "\<And>r. p r \<Longrightarrow> \<not> q r \<and> \<not> q (f r)"
  shows "filter q (map (\<lambda>r. if p r then f r else r) rows) = filter q rows"
  using assms by (induction rows) auto

theorem cancel_closes_subtree_witness:
  "\<exists>s'. cancel_run ''p'' 7 sample_run_db = (True, s') \<and> map rn_status (run_rows s') = [''cancelled'', ''cancelled''] \<and>
     map sr_status (run_steps sample_run_db) \<noteq> map sr_status (run_steps s') \<and>
     map sr_status (filter (\<lambda>r. sr_status r = ''completed'') (run_steps s')) =
       map sr_status (filter (\<lambda>r. sr_status r = ''completed'') (run_steps sample_run_db))"
proof -
  let ?s' = "snd (cancel_run ''p'' 7 sample_run_db)"
  have c: "cancel_run ''p'' 7 sample_run_db = (True, ?s')" by code_simp
  note x = cancel_closes_subtree [OF c refl]
  have "filter (\<lambda>r. sr_status r = ''completed'') (run_steps ?s') = filter (\<lambda>r. sr_status r = ''completed'') (run_steps sample_run_db)"
    unfolding x [THEN conjunct2, THEN conjunct1] by (rule filter_map_kept) auto
  moreover have "map rn_status (run_rows ?s') = [''cancelled'', ''cancelled'']"
    "map sr_status (run_steps sample_run_db) \<noteq> map sr_status (run_steps ?s')" by code_simp+
  ultimately show ?thesis using c by auto
qed

definition sample_effect :: OutboxRow where
  "sample_effect = \<lparr>o_id = None, o_idempotency_key = ''p/b'', o_conversation_id = ''c'', o_effect_kind = ''transport.send'', o_payload = ''x'',
     o_status = Pending, o_attempts = 0, o_next_attempt_at = None, o_last_error = None, o_enqueued_seq = 1\<rparr>"

theorem effect_enqueued_once_witness:
  "\<exists>st s'. enqueue_outbox_and_complete_step ''p'' ''b'' ''w'' sample_effect None 9 sample_run_db = (Inr st, s') \<and>
     step_status st = StepCompleted \<and> count_where (\<lambda>r. ob_idempotency_key r = ''p/b'') (state_outbox (core s')) = 1 \<and>
     enqueue_outbox_and_complete_step ''p'' ''b'' ''v'' sample_effect None 10 s' = (Inr st, s')"
proof -
  have "(case fst (enqueue_outbox_and_complete_step ''p'' ''b'' ''w'' sample_effect None 9 sample_run_db) of Inl _ \<Rightarrow> False | Inr _ \<Rightarrow> True)" by code_simp
  then obtain st s' where c: "enqueue_outbox_and_complete_step ''p'' ''b'' ''w'' sample_effect None 9 sample_run_db = (Inr st, s')"
    by (cases "enqueue_outbox_and_complete_step ''p'' ''b'' ''w'' sample_effect None 9 sample_run_db") (auto split: sum.splits)
  have d: "distinct (map ob_idempotency_key (state_outbox (core sample_run_db)))" by code_simp
  have k: "o_idempotency_key sample_effect = ''p/b''" by (simp add: sample_effect_def)
  from effect_enqueued_once [OF sample_run_db_ok d c] c show ?thesis unfolding k by blast
qed

theorem recovery_settles_run_witness:
  "\<exists>run action ts s' a. required_run ''k'' sample_run_db = Inr run \<and> recover_run 9 3 run action sample_run_db = (Inr (ts, False), s') \<and>
     next_safe_action ''k'' 9 s' = Inr a \<and> \<not> cursor_move a"
proof -
  have "(case required_run ''k'' sample_run_db of Inl _ \<Rightarrow> False | Inr run \<Rightarrow> run_cursor run = 0)" "steps_ahead ''k'' 0 sample_run_db < 3"
    by code_simp+
  then obtain run where run: "required_run ''k'' sample_run_db = Inr run" "steps_ahead ''k'' (run_cursor run) sample_run_db < 3"
    by (auto split: sum.splits)
  from next_safe_action_total [OF sample_run_db_ok run(1)] obtain action where a: "next_safe_action ''k'' 9 sample_run_db = Inr action" by blast
  from recovery_settles_run [OF sample_run_db_ok run(1) a run(2)] run(1) show ?thesis by blast
qed

end
