(* ===== verification/Tool_Execution.thy ===== *)
theory Tool_Execution
  imports Run_Budgets
begin

text \<open>
  Tool dispatch state (\<open>crates/core/src/tool_execution.rs\<close>, the failure type of \<open>crates/core/src/tool.rs\<close>): retry budgets of a run,
  invocations with their attempts and failures, and the circuit breaker of an integration.
\<close>

section \<open>Failures\<close>

datatype ToolFailureKind = Validation | PolicyDenied | ApprovalDenied | Transient | Timeout | FailureCancelled | Permanent

fun ToolFailureKind_as_str :: "ToolFailureKind \<Rightarrow> string" where
  "ToolFailureKind_as_str Validation = ''validation''"
| "ToolFailureKind_as_str PolicyDenied = ''policy_denied''"
| "ToolFailureKind_as_str ApprovalDenied = ''approval_denied''"
| "ToolFailureKind_as_str Transient = ''transient''"
| "ToolFailureKind_as_str Timeout = ''timeout''"
| "ToolFailureKind_as_str FailureCancelled = ''cancelled''"
| "ToolFailureKind_as_str Permanent = ''permanent''"

definition ToolFailureKind_parse :: "string \<Rightarrow> ToolFailureKind option" where
  "ToolFailureKind_parse s =
     (if s = ''validation'' then Some Validation
      else if s = ''policy_denied'' then Some PolicyDenied
      else if s = ''approval_denied'' then Some ApprovalDenied
      else if s = ''transient'' then Some Transient
      else if s = ''timeout'' then Some Timeout
      else if s = ''cancelled'' then Some FailureCancelled
      else if s = ''permanent'' then Some Permanent
      else None)"

interpretation tool_failure_kind: wire_enum ToolFailureKind_as_str ToolFailureKind_parse
proof
  show "ToolFailureKind_parse (ToolFailureKind_as_str x) = Some x" for x
    by (cases x) (simp_all add: ToolFailureKind_parse_def)
  show "ToolFailureKind_parse s = Some x \<Longrightarrow> ToolFailureKind_as_str x = s" for s x
    by (auto simp: ToolFailureKind_parse_def split: if_splits)
qed

definition may_retry :: "ToolFailureKind \<Rightarrow> bool" where
  "may_retry k \<longleftrightarrow> k \<in> {Transient, Timeout}"

record ToolFailure =
  tf_kind :: ToolFailureKind
  tf_code :: string
  tf_message :: string
  tf_retryable :: bool
  tf_retry_after_ms :: "nat option"
  tf_attempt :: nat
  tf_guidance :: "string option"

text \<open>\<open>ToolFailure::new\<close> and \<open>normalized\<close>.\<close>

definition ToolFailure_new :: "ToolFailureKind \<Rightarrow> string \<Rightarrow> string \<Rightarrow> ToolFailure" where
  "ToolFailure_new k code message = \<lparr>tf_kind = k, tf_code = code, tf_message = message, tf_retryable = may_retry k, tf_retry_after_ms = None,
     tf_attempt = 0, tf_guidance = None\<rparr>"

definition normalized :: "ToolFailure \<Rightarrow> ToolFailure" where
  "normalized f = (if may_retry (tf_kind f) then f else f\<lparr>tf_retryable := False, tf_retry_after_ms := None\<rparr>)"

section \<open>State\<close>

record retry_budget_row =
  rb_run_id :: string
  rb_total_budget :: int
  rb_consumed_retries :: int
  rb_updated_at_ms :: int

record invocation_row =
  iv_run_id :: string
  iv_step_id :: string
  iv_tool_name :: string
  iv_integration_id :: string
  iv_call_fingerprint :: string
  iv_repeated_call_count :: int
  iv_input_schema_hash :: "string option"
  iv_result_schema_hash :: "string option"
  iv_retry_budget_total :: int
  iv_attempts_used :: int
  iv_next_retry_at_ms :: "int option"
  iv_backoff_ms :: "int option"
  iv_status :: string
  iv_failure_kind :: "string option"
  iv_failure_code :: "string option"
  iv_failure_message :: "string option"
  iv_failure_retryable :: "bool option"
  iv_failure_retry_after_ms :: "int option"
  iv_failure_guidance :: "string option"
  iv_created_at_ms :: int
  iv_updated_at_ms :: int

record circuit_row =
  ci_integration_id :: string
  ci_state :: string
  ci_consecutive_failures :: int
  ci_open_until_ms :: "int option"
  ci_probe_run_id :: "string option"
  ci_probe_step_id :: "string option"
  ci_updated_at_ms :: int

record tool_db =
  run_state :: run_db
  retry_budgets :: "retry_budget_row list"
  invocations :: "invocation_row list"
  circuits :: "circuit_row list"

record ToolInvocationDefinition =
  def_run_id :: string
  def_step_id :: string
  def_tool_name :: string
  def_integration_id :: string
  def_call_fingerprint :: string
  def_input_schema_hash :: "string option"
  def_result_schema_hash :: "string option"
  def_retry_budget_total :: nat
  def_now_ms :: int

record ToolInvocationRecord =
  inv_run_id :: string
  inv_step_id :: string
  inv_tool_name :: string
  inv_integration_id :: string
  inv_call_fingerprint :: string
  inv_repeated_call_count :: nat
  inv_input_schema_hash :: "string option"
  inv_result_schema_hash :: "string option"
  inv_retry_budget_total :: nat
  inv_attempts_used :: nat
  inv_next_retry_at_ms :: "int option"
  inv_backoff_ms :: "nat option"
  inv_status :: string
  inv_failure :: "ToolFailure option"

datatype CircuitPermit = PermitClosed | PermitHalfOpen | PermitOpen nat | PermitHalfOpenBusy

section \<open>Retry budgets\<close>

definition find_retry_budget :: "string \<Rightarrow> tool_db \<Rightarrow> retry_budget_row option" where
  "find_retry_budget rid t = find (\<lambda>b. rb_run_id b = rid) (retry_budgets t)"

text \<open>Outside a transaction: the inserts stay when the recorded budget differs.\<close>

definition ensure_run_retry_budget :: "string \<Rightarrow> nat \<Rightarrow> int \<Rightarrow> tool_db \<Rightarrow> (DbError + unit) \<times> tool_db" where
  "ensure_run_retry_budget rid total_budget now_ms t =
     (case insert_budget (fresh_budget rid 3600000 (now_ms + 3600000) (int total_budget) 64 now_ms) (run_state t) of
        Inl e \<Rightarrow> (Inl e, t)
      | Inr s1 \<Rightarrow>
          let t1 = t\<lparr>run_state := s1\<rparr>;
              t2 = (if find_retry_budget rid t1 \<noteq> None then t1
                    else t1\<lparr>retry_budgets := retry_budgets t1 @
                      [\<lparr>rb_run_id = rid, rb_total_budget = int total_budget, rb_consumed_retries = 0, rb_updated_at_ms = now_ms\<rparr>]\<rparr>) in
          (case find_retry_budget rid t2 of
             None \<Rightarrow> (Inl (Sqlite QueryReturnedNoRows), t2)
           | Some b \<Rightarrow> if rb_total_budget b \<noteq> int total_budget
               then (Inl (Invariant (''run '' @ rid @ '' retry budget changed from '' @ show_int (rb_total_budget b) @ '' to '' @
                  show_nat total_budget)), t2)
               else (Inr (), t2)))"

definition consume_run_retry :: "string \<Rightarrow> int \<Rightarrow> tool_db \<Rightarrow> bool \<times> tool_db" where
  "consume_run_retry rid now_ms t =
     (let p = (\<lambda>b. eb_run_id b = rid \<and> eb_retries_used b < eb_retry_limit b \<and> now_ms < eb_deadline_at_ms b);
          s1 = update_budgets p (\<lambda>b. b\<lparr>eb_retries_used := eb_retries_used b + 1, eb_updated_at_ms := now_ms\<rparr>) (run_state t) in
      if count_where p (exec_budgets (run_state t)) \<noteq> 1 then (False, t\<lparr>run_state := s1\<rparr>)
      else let q = (\<lambda>b. rb_run_id b = rid \<and> rb_consumed_retries b < rb_total_budget b);
               consumed = count_where q (retry_budgets t) = 1;
               rows = update_where q (\<lambda>b. b\<lparr>rb_consumed_retries := rb_consumed_retries b + 1, rb_updated_at_ms := now_ms\<rparr>) (retry_budgets t);
               s2 = (if consumed then s1
                     else update_budgets (\<lambda>b. eb_run_id b = rid)
                       (\<lambda>b. b\<lparr>eb_retries_used := max 0 (eb_retries_used b - 1), eb_updated_at_ms := now_ms\<rparr>) s1) in
        (consumed, t\<lparr>run_state := s2, retry_budgets := rows\<rparr>))"

section \<open>Invocations\<close>

abbreviation invocation_key :: "string \<Rightarrow> string \<Rightarrow> invocation_row \<Rightarrow> bool" where
  "invocation_key rid sid r \<equiv> iv_run_id r = rid \<and> iv_step_id r = sid"

text \<open>\<open>try_into().unwrap_or(u32::MAX)\<close> and \<open>u64::try_from(..).ok()\<close> of a stored integer.\<close>

definition u32_or_max :: "int \<Rightarrow> nat" where
  "u32_or_max x = (if 0 \<le> x \<and> x < 2 ^ 32 then nat x else 2 ^ 32 - 1)"

definition u64_ok :: "int \<Rightarrow> nat option" where
  "u64_ok x = (if 0 \<le> x then Some (nat x) else None)"

definition i64_ok :: "nat \<Rightarrow> int option" where
  "i64_ok n = (if int n \<le> i64_max then Some (int n) else None)"

text \<open>A null code, message or flag beside a failure kind is a conversion failure.\<close>

definition row_to_invocation :: "invocation_row \<Rightarrow> DbError + ToolInvocationRecord" where
  "row_to_invocation r =
     (let rec = (\<lambda>f. \<lparr>inv_run_id = iv_run_id r, inv_step_id = iv_step_id r, inv_tool_name = iv_tool_name r,
            inv_integration_id = iv_integration_id r, inv_call_fingerprint = iv_call_fingerprint r,
            inv_repeated_call_count = u32_or_max (iv_repeated_call_count r), inv_input_schema_hash = iv_input_schema_hash r,
            inv_result_schema_hash = iv_result_schema_hash r, inv_retry_budget_total = u32_or_max (iv_retry_budget_total r),
            inv_attempts_used = u32_or_max (iv_attempts_used r), inv_next_retry_at_ms = iv_next_retry_at_ms r,
            inv_backoff_ms = Option.bind (iv_backoff_ms r) u64_ok, inv_status = iv_status r, inv_failure = f\<rparr>) in
      case iv_failure_kind r of
        None \<Rightarrow> Inr (rec None)
      | Some kind \<Rightarrow> (case (ToolFailureKind_parse kind, iv_failure_code r, iv_failure_message r, iv_failure_retryable r) of
          (Some k, Some code, Some message, Some retryable) \<Rightarrow>
            Inr (rec (Some \<lparr>tf_kind = k, tf_code = code, tf_message = message, tf_retryable = retryable,
              tf_retry_after_ms = Option.bind (iv_failure_retry_after_ms r) u64_ok, tf_attempt = u32_or_max (iv_attempts_used r),
              tf_guidance = iv_failure_guidance r\<rparr>))
        | _ \<Rightarrow> Inl (Sqlite FromSqlConversionFailure)))"

definition get_invocation :: "string \<Rightarrow> string \<Rightarrow> tool_db \<Rightarrow> DbError + ToolInvocationRecord option" where
  "get_invocation rid sid t = (case find (invocation_key rid sid) (invocations t) of
      None \<Rightarrow> Inr None | Some r \<Rightarrow> map_sum id Some (row_to_invocation r))"

definition list_run_invocations :: "string \<Rightarrow> tool_db \<Rightarrow> DbError + ToolInvocationRecord list" where
  "list_run_invocations rid t = collect_results (map row_to_invocation (sort_key iv_step_id (filter (\<lambda>r. iv_run_id r = rid) (invocations t))))"

definition fresh_invocation :: "ToolInvocationDefinition \<Rightarrow> int \<Rightarrow> invocation_row" where
  "fresh_invocation d repeated = \<lparr>iv_run_id = def_run_id d, iv_step_id = def_step_id d, iv_tool_name = def_tool_name d,
     iv_integration_id = def_integration_id d, iv_call_fingerprint = def_call_fingerprint d, iv_repeated_call_count = repeated,
     iv_input_schema_hash = def_input_schema_hash d, iv_result_schema_hash = def_result_schema_hash d,
     iv_retry_budget_total = int (def_retry_budget_total d), iv_attempts_used = 0, iv_next_retry_at_ms = None, iv_backoff_ms = None,
     iv_status = ''pending'', iv_failure_kind = None, iv_failure_code = None, iv_failure_message = None, iv_failure_retryable = None,
     iv_failure_retry_after_ms = None, iv_failure_guidance = None, iv_created_at_ms = def_now_ms d, iv_updated_at_ms = def_now_ms d\<rparr>"

text \<open>The checks of \<open>state_tool_invocations\<close> count characters; its foreign key is the step.\<close>

definition text_length :: "string \<Rightarrow> nat" where
  "text_length t = length (utf8_chars t)"

definition insert_invocation :: "invocation_row \<Rightarrow> tool_db \<Rightarrow> DbError + tool_db" where
  "insert_invocation r t =
     (if text_length (iv_call_fingerprint r) \<noteq> 64 \<or> \<not> pred_option (\<lambda>h. text_length h = 64) (iv_input_schema_hash r) \<or>
         \<not> pred_option (\<lambda>h. text_length h = 64) (iv_result_schema_hash r) \<or> iv_retry_budget_total r \<le> 0
      then Inl (Sqlite (ConstraintViolation ''CHECK constraint failed: state_tool_invocations''))
      else if find_step (iv_run_id r) (iv_step_id r) (run_state t) = None
      then Inl (Sqlite (ConstraintViolation ''FOREIGN KEY constraint failed''))
      else Inr (t\<lparr>invocations := invocations t @ [r]\<rparr>))"

definition define_invocation :: "ToolInvocationDefinition \<Rightarrow> tool_db \<Rightarrow> (DbError + ToolInvocationRecord) \<times> tool_db" where
  "define_invocation d = transaction (\<lambda>t. case get_invocation (def_run_id d) (def_step_id d) t of
      Inl e \<Rightarrow> Inl e
    | Inr (Some existing) \<Rightarrow>
        if inv_tool_name existing \<noteq> def_tool_name d \<or> inv_integration_id existing \<noteq> def_integration_id d \<or>
           inv_call_fingerprint existing \<noteq> def_call_fingerprint d \<or> inv_input_schema_hash existing \<noteq> def_input_schema_hash d \<or>
           inv_result_schema_hash existing \<noteq> def_result_schema_hash d \<or> inv_retry_budget_total existing \<noteq> def_retry_budget_total d
        then Inl (Invariant (''tool invocation '' @ def_run_id d @ '':'' @ def_step_id d @ '' was redefined with a different contract''))
        else Inr (existing, t)
    | Inr None \<Rightarrow>
        let repeated = int (count_where (\<lambda>r. iv_run_id r = def_run_id d \<and> iv_call_fingerprint r = def_call_fingerprint d) (invocations t)) + 1 in
        (case insert_invocation (fresh_invocation d repeated) t of
           Inl e \<Rightarrow> Inl e
         | Inr t1 \<Rightarrow> (case get_invocation (def_run_id d) (def_step_id d) t1 of
             Inl e \<Rightarrow> Inl e | Inr None \<Rightarrow> Inl (Sqlite QueryReturnedNoRows) | Inr (Some r) \<Rightarrow> Inr (r, t1))))"

definition attempt_eligible :: "string \<Rightarrow> string \<Rightarrow> int \<Rightarrow> invocation_row \<Rightarrow> bool" where
  "attempt_eligible rid sid now_ms r \<longleftrightarrow> invocation_key rid sid r \<and> iv_attempts_used r < iv_retry_budget_total r \<and>
     (case iv_next_retry_at_ms r of None \<Rightarrow> True | Some at \<Rightarrow> at \<le> now_ms)"

definition begin_attempt :: "string \<Rightarrow> string \<Rightarrow> int \<Rightarrow> tool_db \<Rightarrow> (DbError + ToolInvocationRecord) \<times> tool_db" where
  "begin_attempt rid sid now_ms t =
     (let t1 = t\<lparr>invocations := update_where (attempt_eligible rid sid now_ms)
            (\<lambda>r. r\<lparr>iv_attempts_used := iv_attempts_used r + 1, iv_status := ''running'', iv_next_retry_at_ms := None,
                   iv_backoff_ms := None, iv_updated_at_ms := now_ms\<rparr>) (invocations t)\<rparr> in
      if count_where (attempt_eligible rid sid now_ms) (invocations t) \<noteq> 1
      then (Inl (Invariant (''tool invocation '' @ rid @ '':'' @ sid @ '' is not eligible for an attempt'')), t1)
      else (case get_invocation rid sid t1 of
          Inl e \<Rightarrow> (Inl e, t1) | Inr None \<Rightarrow> (Inl (Sqlite QueryReturnedNoRows), t1) | Inr (Some r) \<Rightarrow> (Inr r, t1)))"

definition write_failure :: "string \<Rightarrow> string \<Rightarrow> string \<Rightarrow> ToolFailure \<Rightarrow> int option \<Rightarrow> nat option \<Rightarrow> int \<Rightarrow> tool_db \<Rightarrow> (DbError + unit) \<times> tool_db" where
  "write_failure rid sid status f next_retry_at_ms backoff_ms now_ms t =
     (let t1 = t\<lparr>invocations := update_where (invocation_key rid sid)
            (\<lambda>r. r\<lparr>iv_status := status, iv_next_retry_at_ms := next_retry_at_ms, iv_backoff_ms := Option.bind backoff_ms i64_ok,
                   iv_failure_kind := Some (ToolFailureKind_as_str (tf_kind f)), iv_failure_code := Some (tf_code f),
                   iv_failure_message := Some (tf_message f), iv_failure_retryable := Some (tf_retryable f),
                   iv_failure_retry_after_ms := Option.bind (tf_retry_after_ms f) i64_ok, iv_failure_guidance := tf_guidance f,
                   iv_updated_at_ms := now_ms\<rparr>) (invocations t)\<rparr> in
      if count_where (invocation_key rid sid) (invocations t) \<noteq> 1
      then (Inl (Invariant (''tool invocation '' @ rid @ '':'' @ sid @ '' was not found'')), t1) else (Inr (), t1))"

definition schedule_retry :: "string \<Rightarrow> string \<Rightarrow> ToolFailure \<Rightarrow> int \<Rightarrow> nat \<Rightarrow> int \<Rightarrow> tool_db \<Rightarrow> (DbError + unit) \<times> tool_db" where
  "schedule_retry rid sid failure next_retry_at_ms backoff_ms now_ms t =
     (let f = normalized failure in
      if \<not> tf_retryable f then (Inl (Invariant ''terminal tool failure cannot be scheduled for retry''), t)
      else write_failure rid sid ''pending'' f (Some next_retry_at_ms) (Some backoff_ms) now_ms t)"

definition complete_success :: "string \<Rightarrow> string \<Rightarrow> int \<Rightarrow> tool_db \<Rightarrow> tool_db" where
  "complete_success rid sid now_ms t = t\<lparr>invocations := update_where (invocation_key rid sid)
     (\<lambda>r. r\<lparr>iv_status := ''succeeded'', iv_next_retry_at_ms := None, iv_backoff_ms := None, iv_failure_kind := None, iv_failure_code := None,
            iv_failure_message := None, iv_failure_retryable := None, iv_failure_retry_after_ms := None, iv_failure_guidance := None,
            iv_updated_at_ms := now_ms\<rparr>) (invocations t)\<rparr>"

definition complete_failure :: "string \<Rightarrow> string \<Rightarrow> ToolFailure \<Rightarrow> int \<Rightarrow> tool_db \<Rightarrow> (DbError + unit) \<times> tool_db" where
  "complete_failure rid sid failure now_ms =
     (let f = normalized failure in
      write_failure rid sid (if tf_kind f \<in> {PolicyDenied, ApprovalDenied} then ''denied'' else ''failed'') f None None now_ms)"

section \<open>Circuit breaker\<close>

definition find_circuit :: "string \<Rightarrow> tool_db \<Rightarrow> circuit_row option" where
  "find_circuit i t = find (\<lambda>c. ci_integration_id c = i) (circuits t)"

definition acquire_circuit :: "string \<Rightarrow> string \<Rightarrow> string \<Rightarrow> int \<Rightarrow> tool_db \<Rightarrow> (DbError + CircuitPermit) \<times> tool_db" where
  "acquire_circuit i rid sid now_ms = transaction (\<lambda>t. case find_circuit i t of
      None \<Rightarrow> Inr (PermitClosed, t)
    | Some c \<Rightarrow>
        if ci_state c = ''closed'' then Inr (PermitClosed, t)
        else if ci_state c = ''open''
        then (case ci_open_until_ms c of
            None \<Rightarrow> Inl (Invariant (''open circuit '' @ i @ '' has no deadline''))
          | Some open_until \<Rightarrow>
              if now_ms < open_until then Inr (PermitOpen (nat (open_until - now_ms)), t)
              else Inr (PermitHalfOpen, t\<lparr>circuits := update_where (\<lambda>c. ci_integration_id c = i)
                (\<lambda>c. c\<lparr>ci_state := ''half_open'', ci_open_until_ms := None, ci_probe_run_id := Some rid, ci_probe_step_id := Some sid,
                       ci_updated_at_ms := now_ms\<rparr>) (circuits t)\<rparr>))
        else if ci_state c = ''half_open''
        then Inr (if ci_probe_run_id c = Some rid \<and> ci_probe_step_id c = Some sid then PermitHalfOpen else PermitHalfOpenBusy, t)
        else Inl (Invariant (''unknown circuit state '' @ ci_state c)))"

text \<open>\<open>INSERT ... ON CONFLICT(integration_id) DO UPDATE\<close>.\<close>

definition upsert_circuit :: "circuit_row \<Rightarrow> (circuit_row \<Rightarrow> circuit_row) \<Rightarrow> tool_db \<Rightarrow> tool_db" where
  "upsert_circuit c f t = t\<lparr>circuits :=
     (if find_circuit (ci_integration_id c) t = None then circuits t @ [c]
      else update_where (\<lambda>r. ci_integration_id r = ci_integration_id c) f (circuits t))\<rparr>"

definition record_circuit_success :: "string \<Rightarrow> int \<Rightarrow> tool_db \<Rightarrow> tool_db" where
  "record_circuit_success i now_ms = upsert_circuit
     \<lparr>ci_integration_id = i, ci_state = ''closed'', ci_consecutive_failures = 0, ci_open_until_ms = None, ci_probe_run_id = None,
      ci_probe_step_id = None, ci_updated_at_ms = now_ms\<rparr>
     (\<lambda>c. c\<lparr>ci_state := ''closed'', ci_consecutive_failures := 0, ci_open_until_ms := None, ci_probe_run_id := None,
            ci_probe_step_id := None, ci_updated_at_ms := now_ms\<rparr>)"

text \<open>The sum of the clock and the cooldown is taken to stay within \<open>i64\<close>.\<close>

definition record_circuit_failure :: "string \<Rightarrow> nat \<Rightarrow> nat \<Rightarrow> int \<Rightarrow> tool_db \<Rightarrow> tool_db" where
  "record_circuit_failure i threshold cooldown_ms now_ms =
     (let cooldown = min (int cooldown_ms) i64_max in upsert_circuit
     \<lparr>ci_integration_id = i, ci_state = (if threshold \<le> 1 then ''open'' else ''closed''), ci_consecutive_failures = 1,
      ci_open_until_ms = (if threshold \<le> 1 then Some (now_ms + cooldown) else None), ci_probe_run_id = None,
      ci_probe_step_id = None, ci_updated_at_ms = now_ms\<rparr>
     (\<lambda>c. let trips = ci_state c = ''half_open'' \<or> int threshold \<le> ci_consecutive_failures c + 1 in
          c\<lparr>ci_consecutive_failures := ci_consecutive_failures c + 1, ci_state := (if trips then ''open'' else ''closed''),
            ci_open_until_ms := (if trips then Some (now_ms + cooldown) else None), ci_probe_run_id := None,
            ci_probe_step_id := None, ci_updated_at_ms := now_ms\<rparr>))"

end
