(* ===== verification/Tool_Execution_Properties.thy ===== *)
theory Tool_Execution_Properties
  imports Tool_Execution Run_Machine
begin

text \<open>
  Quotas, the durable clock and the circuit breaker: no run exceeds its retry and effect quotas, a clock that moved backward is
  refused by the run store, and a half-open circuit admits one probe.
\<close>

section \<open>Quotas\<close>

definition claims_of :: "string \<Rightarrow> run_db \<Rightarrow> (string \<times> string \<times> int) list" where
  "claims_of rid s = filter (\<lambda>c. fst c = rid) (effect_claims s)"

definition quota_ok :: "run_db \<Rightarrow> exec_budget_row \<Rightarrow> bool" where
  "quota_ok s b \<longleftrightarrow> 0 \<le> eb_retries_used b \<and> eb_retries_used b \<le> eb_retry_limit b \<and> 0 \<le> eb_effect_limit b \<and>
     eb_effects_used b \<le> eb_effect_limit b \<and> int (length (claims_of (eb_run_id b) s)) = eb_effects_used b"

definition quotas_ok :: "run_db \<Rightarrow> bool" where
  "quotas_ok s \<longleftrightarrow> distinct (map eb_run_id (exec_budgets s)) \<and> distinct (map (\<lambda>c. (fst c, fst (snd c))) (effect_claims s)) \<and>
     (\<forall>c \<in> set (effect_claims s). fst c \<in> eb_run_id ` set (exec_budgets s)) \<and> (\<forall>b \<in> set (exec_budgets s). quota_ok s b)"

datatype budget_action =
    BEnsure string nat nat nat int
  | BToolEnsure string nat int
  | BObserve string int
  | BSecond string int
  | BRetry string int
  | BToolRetry string int
  | BEffect string string int
  | BToolEffect string string int

definition on_runs :: "(run_db \<Rightarrow> run_db) \<Rightarrow> tool_db \<Rightarrow> tool_db" where
  "on_runs f t = t\<lparr>run_state := f (run_state t)\<rparr>"

fun budget_step :: "tool_db \<Rightarrow> budget_action \<Rightarrow> tool_db" where
  "budget_step t (BEnsure rid time r e now) = on_runs (snd \<circ> ensure_execution_budget rid time r e now) t"
| "budget_step t (BToolEnsure rid limit now) = snd (ensure_run_retry_budget rid limit now t)"
| "budget_step t (BObserve rid now) = on_runs (snd \<circ> execution_budget_at rid now) t"
| "budget_step t (BSecond rid now) = on_runs (snd \<circ> observe_execution_budget_at_second rid now) t"
| "budget_step t (BRetry rid now) = on_runs (snd \<circ> consume_execution_retry rid now) t"
| "budget_step t (BToolRetry rid now) = snd (consume_run_retry rid now t)"
| "budget_step t (BEffect rid sid now) = on_runs (snd \<circ> claim_execution_effect rid sid now) t"
| "budget_step t (BToolEffect rid sid now) = on_runs (snd \<circ> claim_run_effect rid sid now) t"

lemma update_budgets_tables [simp]:
  "exec_budgets (update_budgets p f s) = update_where p f (exec_budgets s)" "effect_claims (update_budgets p f s) = effect_claims s"
  by (simp_all add: update_budgets_def)

lemma quota_ok_cong: "effect_claims s' = effect_claims s \<Longrightarrow> quota_ok s' b = quota_ok s b"
  by (simp add: quota_ok_def claims_of_def)

lemma quotas_ok_update:
  assumes "quotas_ok s" "\<And>b. b \<in> set (exec_budgets s) \<Longrightarrow> p b \<Longrightarrow> quota_ok s b \<Longrightarrow> eb_run_id (f b) = eb_run_id b \<and> quota_ok s (f b)"
  shows "quotas_ok (update_budgets p f s)"
proof -
  have ids: "map eb_run_id (update_where p f (exec_budgets s)) = map eb_run_id (exec_budgets s)"
    using assms by (auto simp: update_where_def quotas_ok_def)
  then have ids': "eb_run_id ` set (update_where p f (exec_budgets s)) = eb_run_id ` set (exec_budgets s)" by (metis list.set_map)
  have "quota_ok (update_budgets p f s) b" if "b \<in> set (update_where p f (exec_budgets s))" for b
    unfolding quota_ok_cong [OF update_budgets_tables(2)] using that
  proof (cases rule: update_where_cases)
    case (changed r)
    with assms(1) have "quota_ok s r" by (simp add: quotas_ok_def)
    with assms(2) [OF changed(1,2)] changed(3) show "quota_ok s b" by simp
  qed (use assms(1) in \<open>simp add: quotas_ok_def\<close>)
  with assms(1) show ?thesis by (simp add: quotas_ok_def ids ids')
qed

lemma quotas_ok_fresh:
  assumes "quotas_ok s" "insert_budget b s = Inr s'" "eb_retries_used b = 0" "eb_effects_used b = 0" "0 \<le> eb_retry_limit b" "0 \<le> eb_effect_limit b"
  shows "quotas_ok s'"
proof (cases "find_budget (eb_run_id b) s = None")
  case True
  then have new: "eb_run_id b \<notin> eb_run_id ` set (exec_budgets s)" by (auto simp: find_budget_def find_None_iff)
  with assms(1) have none: "claims_of (eb_run_id b) s = []" by (auto simp: quotas_ok_def claims_of_def filter_empty_conv)
  have s': "s' = s\<lparr>exec_budgets := exec_budgets s @ [b]\<rparr>" using assms(2) True by (simp add: insert_budget_def split: if_splits)
  have same: "quota_ok s' c = quota_ok s c" "effect_claims s' = effect_claims s" for c by (simp_all add: s' quota_ok_def claims_of_def)
  have "quota_ok s b" using assms(3-6) none by (simp add: quota_ok_def)
  then show ?thesis using assms(1) new unfolding quotas_ok_def same by (auto simp: s')
next
  case False
  with assms show ?thesis by (simp add: insert_budget_def)
qed

lemma quotas_ok_runs: "quotas_ok (update_runs p f s) = quotas_ok s"
  by (simp add: quotas_ok_def quota_ok_def claims_of_def)

lemma budgets_unique: "quotas_ok s \<Longrightarrow> a \<in> set (exec_budgets s) \<Longrightarrow> b \<in> set (exec_budgets s) \<Longrightarrow> eb_run_id a = eb_run_id b \<Longrightarrow> a = b"
  by (auto simp: quotas_ok_def distinct_map inj_on_def)

lemma quotas_ok_charge:
  assumes ok: "quotas_ok s" and p: "\<And>b. p b \<Longrightarrow> eb_run_id b = rid \<and> eb_effects_used b < eb_effect_limit b" and new: "\<not> effect_claimed rid sid s"
  shows "quotas_ok (snd (charge_effect p rid sid now s))"
proof -
  let ?f = "\<lambda>b. b\<lparr>eb_effects_used := eb_effects_used b + 1, eb_updated_at_ms := now\<rparr>"
  have count: "count_where p (exec_budgets s) = of_bool (\<exists>b \<in> set (exec_budgets s). p b)"
    using ok p by (intro count_where_distinct [where k = eb_run_id]) (auto simp: quotas_ok_def)
  show ?thesis
  proof (cases "\<exists>b \<in> set (exec_budgets s). p b")
    case False
    then have "update_where p ?f (exec_budgets s) = exec_budgets s" by (intro update_where_none) blast
    with False ok count show ?thesis by (simp add: charge_effect_def Let_def quotas_ok_def quota_ok_def claims_of_def)
  next
    case True
    then obtain b0 where b0: "b0 \<in> set (exec_budgets s)" "p b0" by blast
    let ?s = "(update_budgets p ?f s)\<lparr>effect_claims := effect_claims s @ [(rid, sid, now)]\<rparr>"
    have ids: "map eb_run_id (update_where p ?f (exec_budgets s)) = map eb_run_id (exec_budgets s)" by (intro map_update_where) simp
    then have ids': "eb_run_id ` set (update_where p ?f (exec_budgets s)) = eb_run_id ` set (exec_budgets s)" by (metis list.set_map)
    have "quota_ok ?s b" if "b \<in> set (update_where p ?f (exec_budgets s))" for b
      using that
    proof (cases rule: update_where_cases)
      case kept
      with b0 p budgets_unique [OF ok kept(1) b0(1)] have "eb_run_id b \<noteq> rid" by auto
      with kept(1) ok show ?thesis by (simp add: quotas_ok_def quota_ok_def claims_of_def)
    next
      case (changed c)
      with ok have "quota_ok s c" by (simp add: quotas_ok_def)
      with p [OF changed(2)] changed(3) show ?thesis by (simp add: quota_ok_def claims_of_def)
    qed
    moreover have "rid \<in> eb_run_id ` set (exec_budgets s)" using b0 p by force
    ultimately have "quotas_ok ?s" using ok new by (auto simp: quotas_ok_def ids ids' effect_claimed_def)
    with True count show ?thesis by (simp add: charge_effect_def Let_def)
  qed
qed

lemma quotas_ok_transaction: "quotas_ok s \<Longrightarrow> (\<And>a s'. f s = Inr (a, s') \<Longrightarrow> quotas_ok s') \<Longrightarrow> quotas_ok (snd (transaction f s))"
  by (rule transaction_invariant [where P = quotas_ok])

lemma quotas_ok_effect:
  assumes ok: "quotas_ok s"
  shows "quotas_ok (snd (claim_execution_effect rid sid now s))" "quotas_ok (snd (claim_run_effect rid sid now s))"
proof -
  let ?p = "\<lambda>b. eb_run_id b = rid \<and> eb_updated_at_ms b \<le> now \<and> eb_effects_used b < eb_effect_limit b \<and> now < eb_deadline_at_ms b"
  have charge: "quotas_ok s'" if "\<not> effect_claimed rid sid s" "charge_effect ?p rid sid now s = (a, s')" for a s'
  proof -
    have "quotas_ok (snd (charge_effect ?p rid sid now s))" by (rule quotas_ok_charge [OF ok _ that(1)]) simp
    with that(2) show ?thesis by simp
  qed
  have touch: "quotas_ok (update_budgets p (\<lambda>b. b\<lparr>eb_updated_at_ms := now\<rparr>) s)" for p
    by (rule quotas_ok_update [OF ok]) (simp add: quota_ok_def)
  show "quotas_ok (snd (claim_execution_effect rid sid now s))"
    unfolding claim_execution_effect_def
    by (rule quotas_ok_transaction [OF ok]) (auto simp: claim_execution_effect_tx_def touch split: sum.splits if_splits dest: charge)
  show "quotas_ok (snd (claim_run_effect rid sid now s))"
    using ok by (auto simp: claim_run_effect_def intro: quotas_ok_charge)
qed

lemma quotas_ok_clock:
  assumes ok: "quotas_ok s"
  shows "quotas_ok (snd (execution_budget_at rid now s))" "quotas_ok (snd (observe_execution_budget_at_second rid now s))"
    "quotas_ok (snd (consume_execution_retry rid now s))"
proof -
  have touch: "quotas_ok (update_budgets p (\<lambda>b. b\<lparr>eb_updated_at_ms := g b\<rparr>) s)" for p g
    by (rule quotas_ok_update [OF ok]) (simp add: quota_ok_def)
  show "quotas_ok (snd (execution_budget_at rid now s))"
    unfolding execution_budget_at_def
    by (rule quotas_ok_transaction [OF ok]) (use ok touch in \<open>auto simp: execution_budget_at_tx_def Let_def split: if_splits option.splits sum.splits\<close>)
  show "quotas_ok (snd (observe_execution_budget_at_second rid now s))"
    unfolding observe_execution_budget_at_second_def
    by (rule quotas_ok_transaction [OF ok]) (use ok touch in \<open>auto split: if_splits option.splits\<close>)
  show "quotas_ok (snd (consume_execution_retry rid now s))"
    unfolding consume_execution_retry_def Let_def snd_conv by (rule quotas_ok_update [OF ok]) (simp add: quota_ok_def)
qed

lemma quotas_ok_tool_retry:
  assumes ok: "quotas_ok (run_state t)"
  shows "quotas_ok (run_state (snd (consume_run_retry rid now t)))"
proof -
  let ?p = "\<lambda>b. eb_run_id b = rid \<and> eb_retries_used b < eb_retry_limit b \<and> now < eb_deadline_at_ms b"
  let ?s1 = "update_budgets ?p (\<lambda>b. b\<lparr>eb_retries_used := eb_retries_used b + 1, eb_updated_at_ms := now\<rparr>) (run_state t)"
  have ok1: "quotas_ok ?s1" by (rule quotas_ok_update [OF ok]) (simp add: quota_ok_def)
  have "quotas_ok (update_budgets (\<lambda>b. eb_run_id b = rid) (\<lambda>b. b\<lparr>eb_retries_used := max 0 (eb_retries_used b - 1), eb_updated_at_ms := now\<rparr>) ?s1)"
    by (rule quotas_ok_update [OF ok1]) (auto simp: quota_ok_def)
  with ok1 show ?thesis by (simp add: consume_run_retry_def Let_def)
qed

lemma quotas_ok_ensure:
  assumes ok: "quotas_ok s"
  shows "quotas_ok (snd (ensure_execution_budget rid time r e now s))"
proof -
  have "quotas_ok s1" if "insert_budget (fresh_budget rid a b (int r) (int e) d) s = Inr s1" for a b d s1
    by (rule quotas_ok_fresh [OF ok that]) (simp_all add: fresh_budget_def)
  with ok show ?thesis unfolding ensure_execution_budget_def Let_def by (auto simp: quotas_ok_runs split: sum.split option.split)
qed

lemma quotas_ok_tool_ensure:
  assumes ok: "quotas_ok (run_state t)"
  shows "quotas_ok (run_state (snd (ensure_run_retry_budget rid limit now t)))"
proof -
  have "quotas_ok s1" if "insert_budget (fresh_budget rid a b (int limit) 64 d) (run_state t) = Inr s1" for a b d s1
    by (rule quotas_ok_fresh [OF ok that]) (simp_all add: fresh_budget_def)
  with ok show ?thesis unfolding ensure_run_retry_budget_def Let_def by (auto split: sum.split option.split)
qed

interpretation budget_machine: invariant_machine budget_step "\<lambda>t. quotas_ok (run_state t)"
proof
  fix t :: tool_db and a assume "quotas_ok (run_state t)"
  then show "quotas_ok (run_state (budget_step t a))"
    by (cases a) (simp_all add: on_runs_def quotas_ok_ensure quotas_ok_tool_ensure quotas_ok_clock quotas_ok_tool_retry quotas_ok_effect)
qed

text \<open>
  C20: No history of budget operations, of the run store and of the tool dispatch store, exceeds a quota: the retries of a run stay within
  its limit, and the steps that were admitted as effects, each once, are as many as the run has been charged for and no more than its limit.
\<close>

theorem execution_quotas_hold:
  assumes "exec_budgets (run_state t) = []" "effect_claims (run_state t) = []"
    "b \<in> set (exec_budgets (run_state (foldl budget_step t actions)))"
  shows "eb_retries_used b \<le> eb_retry_limit b \<and>
    int (length (claims_of (eb_run_id b) (run_state (foldl budget_step t actions)))) = eb_effects_used b \<and>
    eb_effects_used b \<le> eb_effect_limit b \<and>
    distinct (map (\<lambda>c. (fst c, fst (snd c))) (effect_claims (run_state (foldl budget_step t actions))))"
proof -
  have "quotas_ok (run_state t)" using assms(1,2) by (simp add: quotas_ok_def)
  then have "quotas_ok (run_state (foldl budget_step t actions))" by (rule budget_machine.run_inv)
  with assms(3) show ?thesis by (auto simp: quotas_ok_def quota_ok_def)
qed

definition sample_tool_db :: tool_db where
  "sample_tool_db = \<lparr>run_state = empty_run_db\<lparr>core := empty_database\<lparr>state_runs :=
      [\<lparr>rn_run_id = ''r'', rn_conversation_id = ''c'', rn_parent_run_id = None, rn_status = ''running'', rn_cursor = 0, rn_input_event_seq = 1,
        rn_started_at = 1, rn_updated_at = 1, rn_deadline_at = None\<rparr>]\<rparr>\<rparr>, retry_budgets = [], invocations = [], circuits = []\<rparr>"

abbreviation sample_budget_history :: "budget_action list" where
  "sample_budget_history \<equiv> [BEnsure ''r'' 1000 1 1 0, BRetry ''r'' 5, BRetry ''r'' 6, BEffect ''r'' ''a'' 7, BToolEffect ''r'' ''b'' 8,
     BToolEffect ''r'' ''a'' 9]"

definition sample_budget :: exec_budget_row where
  "sample_budget = \<lparr>eb_run_id = ''r'', eb_time_limit_ms = 1000, eb_deadline_at_ms = 1000, eb_retry_limit = 1, eb_retries_used = 1,
     eb_effect_limit = 1, eb_effects_used = 1, eb_updated_at_ms = 7\<rparr>"

theorem execution_quotas_hold_witness:
  "exec_budgets (run_state (foldl budget_step sample_tool_db sample_budget_history)) = [sample_budget] \<and>
   int (length (claims_of ''r'' (run_state (foldl budget_step sample_tool_db sample_budget_history)))) = 1"
proof -
  have e: "exec_budgets (run_state (foldl budget_step sample_tool_db sample_budget_history)) = [sample_budget]" by code_simp
  have "exec_budgets (run_state sample_tool_db) = []" "effect_claims (run_state sample_tool_db) = []" by code_simp+
  from execution_quotas_hold [OF this, of sample_budget sample_budget_history] e show ?thesis by (simp add: sample_budget_def)
qed

section \<open>The durable clock\<close>

text \<open>The last observation of the clock, per run.\<close>

definition last_observed :: "string \<Rightarrow> run_db \<Rightarrow> int option" where
  "last_observed rid s = map_option eb_updated_at_ms (find_budget rid s)"

text \<open>
  A clock that moved backward is refused: when the last durable observation of a run is later than the present reading, the run store
  makes no timer decision, grants no retry and no effect and changes nothing, not even for an effect that it has admitted before.
\<close>

theorem clock_rollback_refused:
  assumes "quotas_ok s" "last_observed rid s = Some seen" "now_ms < seen"
  shows "(\<exists>e. execution_budget_at rid now_ms s = (Inl e, s)) \<and> (\<exists>e. claim_execution_effect rid sid now_ms s = (Inl e, s)) \<and>
    consume_execution_retry rid now_ms s = (False, s) \<and>
    (\<exists>e. fail_run_if_budget_expired rid now_ms s = (Inl e, s))"
proof -
  from assms(2) obtain b where b: "find_budget rid s = Some b" "eb_updated_at_ms b = seen" by (auto simp: last_observed_def)
  then have mem: "b \<in> set (exec_budgets s)" "eb_run_id b = rid" by (auto simp: find_budget_def dest: find_SomeD)
  have none: "\<not> (eb_run_id c = rid \<and> eb_updated_at_ms c \<le> now_ms)" if "c \<in> set (exec_budgets s)" for c
    using budgets_unique [OF assms(1) that mem(1)] mem(2) b(2) assms(3) by auto
  then have zero: "count_where (\<lambda>b. eb_run_id b = rid \<and> eb_updated_at_ms b \<le> now_ms) (exec_budgets s) = 0"
    by (auto simp: count_where_def filter_empty_conv)
  have clock: "validate_run_clock (eb_updated_at_ms b) now_ms = Inl (Rollback seen now_ms)" using b(2) assms(3) by (simp add: validate_run_clock_def)
  have observe: "\<exists>e. execution_budget_at rid now_ms s = (Inl e, s)"
    using zero b(1) clock by (simp add: execution_budget_at_def execution_budget_at_tx_def transaction_def Let_def)
  moreover have "\<exists>e. claim_execution_effect rid sid now_ms s = (Inl e, s)"
    using b(1) clock by (simp add: claim_execution_effect_def claim_execution_effect_tx_def transaction_def)
  moreover have "consume_execution_retry rid now_ms s = (False, s)"
  proof -
    let ?p = "\<lambda>b. eb_run_id b = rid \<and> eb_updated_at_ms b \<le> now_ms \<and> eb_retries_used b < eb_retry_limit b \<and> now_ms < eb_deadline_at_ms b"
    have "update_where ?p f (exec_budgets s) = exec_budgets s" for f using none by (intro update_where_none) blast
    moreover have "count_where ?p (exec_budgets s) = 0" using none by (auto simp: count_where_def filter_empty_conv)
    ultimately show ?thesis by (simp add: consume_execution_retry_def Let_def update_budgets_def)
  qed
  moreover have "\<exists>e. fail_run_if_budget_expired rid now_ms s = (Inl e, s)"
    using observe by (auto simp: fail_run_if_budget_expired_def)
  ultimately show ?thesis by blast
qed

definition sample_clock_db :: run_db where
  "sample_clock_db = (run_state sample_tool_db)\<lparr>exec_budgets := [sample_budget\<lparr>eb_effects_used := 0, eb_updated_at_ms := 2000\<rparr>]\<rparr>"

theorem clock_rollback_refused_witness:
  "last_observed ''r'' sample_clock_db = Some 2000 \<and> (\<exists>e. claim_execution_effect ''r'' ''a'' 900 sample_clock_db = (Inl e, sample_clock_db))"
proof -
  have q: "quotas_ok sample_clock_db" by code_simp
  have l: "last_observed ''r'' sample_clock_db = Some 2000" by code_simp
  have t: "(900::int) < 2000" by simp
  from clock_rollback_refused [OF q l t] l show ?thesis by blast
qed

text \<open>
  The claim of the tool dispatch store does not read the last observation: at a reading that moved backward it admits an effect although the
  deadline had passed at the observed time, and moves the durable observation back, so that the run store accepts
  the reading afterwards.
\<close>

theorem tool_claim_moves_clock_back:
  "last_observed ''r'' sample_clock_db = Some 2000 \<and> map_option eb_deadline_at_ms (find_budget ''r'' sample_clock_db) = Some 1000 \<and>
   fst (claim_run_effect ''r'' ''a'' 900 sample_clock_db) \<and>
   last_observed ''r'' (snd (claim_run_effect ''r'' ''a'' 900 sample_clock_db)) = Some 900"
  by code_simp

section \<open>The circuit breaker\<close>

datatype circuit_action =
    Acquire string string string int
  | Success string int
  | Failure string nat nat int

fun circuit_step :: "tool_db \<Rightarrow> circuit_action \<Rightarrow> tool_db" where
  "circuit_step t (Acquire i rid sid now) = snd (acquire_circuit i rid sid now t)"
| "circuit_step t (Success i now) = record_circuit_success i now t"
| "circuit_step t (Failure i threshold cooldown now) = record_circuit_failure i threshold cooldown now t"

fun concerns :: "string \<Rightarrow> circuit_action \<Rightarrow> bool" where
  "concerns i (Acquire j rid sid now) \<longleftrightarrow> False"
| "concerns i (Success j now) \<longleftrightarrow> i = j"
| "concerns i (Failure j threshold cooldown now) \<longleftrightarrow> i = j"

definition probing :: "string \<Rightarrow> string \<Rightarrow> string \<Rightarrow> tool_db \<Rightarrow> bool" where
  "probing i rid sid t \<longleftrightarrow> (\<exists>c. find_circuit i t = Some c \<and> ci_state c = ''half_open'' \<and> ci_probe_run_id c = Some rid \<and> ci_probe_step_id c = Some sid)"

lemma find_circuit_update:
  assumes "\<And>c. ci_integration_id (f c) = ci_integration_id c"
  shows "find_circuit i (t\<lparr>circuits := update_where (\<lambda>c. ci_integration_id c = j) f (circuits t)\<rparr>) =
   (if i = j then map_option f (find_circuit i t) else find_circuit i t)"
proof -
  have "find_circuit i (t\<lparr>circuits := update_where (\<lambda>c. ci_integration_id c = j) f (circuits t)\<rparr>) =
      map_option (\<lambda>c. if ci_integration_id c = j then f c else c) (find_circuit i t)"
    by (simp add: find_circuit_def find_update_where_key assms)
  then show ?thesis by (cases "find_circuit i t") (auto simp: find_circuit_def dest: find_SomeD)
qed

lemma find_circuit_upsert:
  assumes "\<And>d. ci_integration_id (f d) = ci_integration_id d" "ci_integration_id c \<noteq> i"
  shows "find_circuit i (upsert_circuit c f t) = find_circuit i t"
proof (cases "find_circuit (ci_integration_id c) t")
  case None
  with assms(2) show ?thesis by (auto simp: upsert_circuit_def find_circuit_def find_append split: option.split)
next
  case (Some d)
  with assms find_circuit_update [where f = f and j = "ci_integration_id c" and i = i and t = t] show ?thesis
    by (simp add: upsert_circuit_def)
qed

lemma acquire_probing:
  assumes "probing i rid sid t"
  shows "acquire_circuit i rid' sid' now t = (Inr (if rid' = rid \<and> sid' = sid then PermitHalfOpen else PermitHalfOpenBusy), t)"
  using assms by (auto simp: probing_def acquire_circuit_def transaction_def)

lemma probing_step:
  assumes "probing i rid sid t" "\<not> concerns i a"
  shows "probing i rid sid (circuit_step t a)"
proof (cases a)
  case (Acquire j rid' sid' now)
  show ?thesis
  proof (cases "j = i")
    case True
    with Acquire acquire_probing [OF assms(1), of rid' sid' now] assms(1) show ?thesis by simp
  next
    case False
    have "find_circuit i (snd (acquire_circuit j rid' sid' now t)) = find_circuit i t"
      using False by (auto simp: acquire_circuit_def transaction_def find_circuit_update split: option.split)
    with Acquire assms(1) show ?thesis by (simp add: probing_def)
  qed
qed (use assms in \<open>auto simp: probing_def record_circuit_success_def record_circuit_failure_def find_circuit_upsert Let_def\<close>)

text \<open>
  C21: A half-open circuit admits one probe: from the moment a step holds it, until an outcome of the integration is recorded, every
  request of that step is admitted as the probe and every other request is told that the probe is busy, whatever the time and
  whatever happens to other integrations. A probe that is never settled therefore keeps the integration closed to all others.
\<close>

theorem circuit_single_probe:
  assumes "probing i rid sid t" "list_all (\<lambda>a. \<not> concerns i a) actions"
  shows "fst (acquire_circuit i rid' sid' now (foldl circuit_step t actions)) =
    Inr (if rid' = rid \<and> sid' = sid then PermitHalfOpen else PermitHalfOpenBusy)"
proof -
  have "probing i rid sid (foldl circuit_step t actions)"
    using assms by (induction actions arbitrary: t) (auto intro: probing_step)
  then show ?thesis by (simp add: acquire_probing)
qed

theorem circuit_single_probe_witness:
  "fst (acquire_circuit ''i'' ''r2'' ''a'' 999999 (foldl circuit_step
     (foldl circuit_step sample_tool_db [Failure ''i'' 1 50 0, Acquire ''i'' ''r'' ''a'' 60]) [Acquire ''i'' ''r3'' ''b'' 500, Failure ''j'' 1 5 0])) = Inr PermitHalfOpenBusy"
proof -
  have p: "probing ''i'' ''r'' ''a'' (foldl circuit_step sample_tool_db [Failure ''i'' 1 50 0, Acquire ''i'' ''r'' ''a'' 60])"
    by (simp add: probing_def find_circuit_def sample_tool_db_def record_circuit_failure_def upsert_circuit_def acquire_circuit_def transaction_def i64_max_def)
  from circuit_single_probe [OF p, of "[Acquire ''i'' ''r3'' ''b'' 500, Failure ''j'' 1 5 0]" "''r2''" "''a''" 999999] show ?thesis by simp
qed

end
