(* ===== verification/Child_Tasks.thy ===== *)
theory Child_Tasks
  imports Run_Machine
begin

text \<open>
  Child tasks of a durable run (\<open>crates/core/src/runs.rs\<close>): the dependency graph and its cycle check, the reservation of a child's
  share of the parent's budget, and the settlement from measured use.

  A hash map is an association list with distinct keys in the order the map is iterated, which the theorems leave open. The JSON
  library is a parameter.
\<close>

section \<open>Cycle detection\<close>

type_synonym dep_graph = "(string \<times> string list) list"

definition has_key :: "dep_graph \<Rightarrow> string \<Rightarrow> bool" where
  "has_key g n \<longleftrightarrow> n \<in> fst ` set g"

text \<open>
  The inner function \<open>visit\<close>, with the completed nodes threaded through, and its loop over the dependencies of a node.
\<close>

function (sequential) visit :: "dep_graph \<Rightarrow> string \<Rightarrow> string list \<Rightarrow> string list \<Rightarrow> string list option \<times> string list"
  and visit_deps :: "dep_graph \<Rightarrow> string list \<Rightarrow> string list \<Rightarrow> string list \<Rightarrow> string list option \<times> string list" where
  "visit g node path complete =
     (if node \<in> set path then (Some (dropWhile (\<lambda>e. e \<noteq> node) path @ [node]), complete)
      else if node \<in> set complete then (None, complete)
      else (case map_of g node of
          None \<Rightarrow> (None, node # complete)
        | Some ds \<Rightarrow> (case visit_deps g ds (path @ [node]) complete of
            (Some c, complete1) \<Rightarrow> (Some c, complete1)
          | (None, complete1) \<Rightarrow> (None, node # complete1))))"
| "visit_deps g [] path complete = (None, complete)"
| "visit_deps g (d # ds) path complete =
     (if has_key g d
      then (case visit g d path complete of
          (Some c, complete1) \<Rightarrow> (Some c, complete1)
        | (None, complete1) \<Rightarrow> visit_deps g ds path complete1)
      else visit_deps g ds path complete)"
  by pat_completeness auto
termination
proof (relation "(\<lambda>x. case x of Inl (g, node, path, complete) \<Rightarrow> card (fst ` set g - set path) | Inr (g, ds, path, complete) \<Rightarrow> card (fst ` set g - set path))
    <*mlex*> measure (\<lambda>x. case x of Inl _ \<Rightarrow> 0 | Inr (g, ds, path, complete) \<Rightarrow> Suc (length ds))")
  fix g :: dep_graph and node path complete ds
  assume "node \<notin> set path" "map_of g node = Some ds"
  then have "node \<in> fst ` set g - set path" by (metis Diff_iff fst_conv image_eqI map_of_SomeD)
  then have "fst ` set g - set (path @ [node]) \<subset> fst ` set g - set path" by auto
  then have "card (fst ` set g - set (path @ [node])) < card (fst ` set g - set path)"
    by (rule psubset_card_mono [rotated]) simp
  then show "(Inr (g, ds, path @ [node], complete), Inl (g, node, path, complete))
    \<in> (\<lambda>x. case x of Inl (g, node, path, complete) \<Rightarrow> card (fst ` set g - set path) | Inr (g, ds, path, complete) \<Rightarrow> card (fst ` set g - set path))
      <*mlex*> measure (\<lambda>x. case x of Inl _ \<Rightarrow> 0 | Inr (g, ds, path, complete) \<Rightarrow> Suc (length ds))"
    by (simp add: mlex_prod_def)
qed (auto simp: mlex_prod_def intro!: wf_mlex)

fun cycle_from :: "dep_graph \<Rightarrow> string list \<Rightarrow> string list \<Rightarrow> string list option" where
  "cycle_from g [] complete = None"
| "cycle_from g (n # ns) complete = (case visit g n [] complete of
      (Some c, _) \<Rightarrow> Some c | (None, complete1) \<Rightarrow> cycle_from g ns complete1)"

definition child_dependency_cycle :: "dep_graph \<Rightarrow> string list option" where
  "child_dependency_cycle g = cycle_from g (map fst g) []"

section \<open>The cycle check is exact\<close>

text \<open>The edges the check follows: dependencies that are tasks of the same parent.\<close>

definition dep_rel :: "dep_graph \<Rightarrow> (string \<times> string) set" where
  "dep_rel g = {(n, d). \<exists>ds. map_of g n = Some ds \<and> d \<in> set ds \<and> has_key g d}"

definition is_cycle :: "dep_graph \<Rightarrow> string list \<Rightarrow> bool" where
  "is_cycle g c \<longleftrightarrow> 2 \<le> length c \<and> hd c = last c \<and> successively (\<lambda>n d. (n, d) \<in> dep_rel g) c"

text \<open>A set of nodes is settled: it is closed under dependencies and has no cycle.\<close>

definition settled_nodes :: "dep_graph \<Rightarrow> string set \<Rightarrow> bool" where
  "settled_nodes g C \<longleftrightarrow> dep_rel g `` C \<subseteq> C \<and> acyclic (dep_rel g \<inter> C \<times> C)"

lemma settled_empty: "settled_nodes g {}"
  by (simp add: settled_nodes_def acyclic_def)

lemma settled_insert:
  assumes "settled_nodes g C" "dep_rel g `` {n} \<subseteq> C" "n \<notin> C"
  shows "settled_nodes g (insert n C)"
proof -
  let ?R = "dep_rel g \<inter> insert n C \<times> insert n C"
  have closed: "dep_rel g `` insert n C \<subseteq> C" using assms(1,2) by (auto simp: settled_nodes_def)
  have sub: "?R \<subseteq> (dep_rel g \<inter> C \<times> C) \<union> {n} \<times> C" using closed by auto
  have into: "(x, y) \<in> ?R\<^sup>+ \<Longrightarrow> y \<in> C" for x y
    by (induction rule: trancl_induct) (use closed in auto)
  have within: "(x, y) \<in> ?R\<^sup>+ \<Longrightarrow> x \<in> C \<Longrightarrow> (x, y) \<in> (dep_rel g \<inter> C \<times> C)\<^sup>+" for x y
  proof (induction rule: trancl_induct)
    case (base y)
    then show ?case using closed by auto
  next
    case (step y z)
    from step.hyps(1) have "y \<in> C" by (rule into)
    with step.hyps(2) closed have "(y, z) \<in> dep_rel g \<inter> C \<times> C" by auto
    with step.IH [OF step.prems] show ?case by (rule trancl_into_trancl)
  qed
  have "acyclic ?R" unfolding acyclic_def
  proof (intro allI notI)
    fix x assume x: "(x, x) \<in> ?R\<^sup>+"
    from into [OF this] have "x \<in> C" .
    from within [OF x this] assms(1) show False by (auto simp: settled_nodes_def acyclic_def)
  qed
  with closed show ?thesis by (auto simp: settled_nodes_def)
qed

text \<open>The node lies on the end of a path of dependencies.\<close>

definition on_path :: "dep_graph \<Rightarrow> string list \<Rightarrow> string \<Rightarrow> bool" where
  "on_path g path n \<longleftrightarrow> successively (\<lambda>n d. (n, d) \<in> dep_rel g) (path @ [n])"

lemma path_cycle:
  assumes "on_path g path n" "n \<in> set path"
  shows "is_cycle g (dropWhile (\<lambda>e. e \<noteq> n) path @ [n])"
proof -
  let ?d = "dropWhile (\<lambda>e. e \<noteq> n) path"
  have split: "path @ [n] = takeWhile (\<lambda>e. e \<noteq> n) path @ (?d @ [n])" by simp
  have "?d \<noteq> []" using assms(2) by (simp add: dropWhile_eq_Nil_conv)
  moreover from this have "hd ?d = n" using hd_dropWhile [of "\<lambda>e. e \<noteq> n" path] by simp
  moreover have "successively (\<lambda>n d. (n, d) \<in> dep_rel g) (?d @ [n])"
    using assms(1) unfolding on_path_def by (subst (asm) split) (simp add: successively_append_iff)
  ultimately show ?thesis by (cases ?d) (auto simp: is_cycle_def)
qed

lemma on_path_snoc: "on_path g path n \<Longrightarrow> (n, d) \<in> dep_rel g \<Longrightarrow> on_path g (path @ [n]) d"
  by (simp add: on_path_def successively_append_iff)

lemma visit_sound:
  "visit g node path complete = (res, complete') \<Longrightarrow> on_path g path node \<Longrightarrow> settled_nodes g (set complete) \<Longrightarrow> set complete \<inter> set path = {} \<Longrightarrow>
   case res of Some c \<Rightarrow> is_cycle g c
   | None \<Rightarrow> settled_nodes g (set complete') \<and> set complete \<subseteq> set complete' \<and> node \<in> set complete' \<and> set complete' \<inter> set path = {}"
  "visit_deps g ds path complete = (res, complete') \<Longrightarrow> (\<And>d. d \<in> set ds \<Longrightarrow> has_key g d \<Longrightarrow> on_path g path d) \<Longrightarrow> settled_nodes g (set complete) \<Longrightarrow>
   set complete \<inter> set path = {} \<Longrightarrow>
   case res of Some c \<Rightarrow> is_cycle g c
   | None \<Rightarrow> settled_nodes g (set complete') \<and> set complete \<subseteq> set complete' \<and> (\<forall>d \<in> set ds. has_key g d \<longrightarrow> d \<in> set complete') \<and>
       set complete' \<inter> set path = {}"
proof (induction g node path complete and g ds path complete arbitrary: res complete' and res complete' rule: visit_visit_deps.induct)
  case (1 g node path complete)
  show ?case
  proof (cases "node \<in> set path")
    case True
    with "1.prems" path_cycle [of g path node] show ?thesis by auto
  next
    case np: False
    show ?thesis
    proof (cases "node \<in> set complete")
      case True
      with np "1.prems" show ?thesis by auto
    next
      case nc: False
      show ?thesis
      proof (cases "map_of g node")
        case None
        with np nc "1.prems"(1) have r: "res = None" "complete' = node # complete" by auto
        have "dep_rel g `` {node} \<subseteq> set complete" using None by (auto simp: dep_rel_def)
        with settled_insert [OF "1.prems"(3) _ nc] r np "1.prems"(4) show ?thesis by auto
      next
        case (Some ds)
        obtain res1 complete1 where v: "visit_deps g ds (path @ [node]) complete = (res1, complete1)"
          by (cases "visit_deps g ds (path @ [node]) complete")
        have path: "on_path g (path @ [node]) d" if "d \<in> set ds" "has_key g d" for d
          using that Some by (intro on_path_snoc [OF "1.prems"(2)]) (auto simp: dep_rel_def)
        have disj: "set complete \<inter> set (path @ [node]) = {}" using "1.prems"(4) nc by auto
        note ih = "1.IH" [OF np nc Some v path "1.prems"(3) disj]
        show ?thesis
        proof (cases res1)
          case None
          with ih have ok: "settled_nodes g (set complete1)" "set complete \<subseteq> set complete1" "\<forall>d \<in> set ds. has_key g d \<longrightarrow> d \<in> set complete1"
            "set complete1 \<inter> set (path @ [node]) = {}" by auto
          have "dep_rel g `` {node} \<subseteq> set complete1" using Some ok(3) by (auto simp: dep_rel_def)
          with settled_insert [OF ok(1) this] ok v None Some np nc "1.prems"(1) show ?thesis by auto
        next
          case Some1: (Some c)
          with ih v Some np nc "1.prems"(1) show ?thesis by auto
        qed
      qed
    qed
  qed
next
  case (2 g path complete)
  then show ?case by auto
next
  case (3 g d ds path complete)
  have rest: "\<And>e. e \<in> set ds \<Longrightarrow> has_key g e \<Longrightarrow> on_path g path e" using "3.prems"(2) by simp
  show ?case
  proof (cases "has_key g d")
    case False
    with "3.IH"(3) [OF False _ rest "3.prems"(3,4)] "3.prems"(1) show ?thesis by (auto split: option.splits)
  next
    case True
    obtain res1 complete1 where v: "visit g d path complete = (res1, complete1)" by (cases "visit g d path complete")
    have "on_path g path d" using "3.prems"(2) True by simp
    note ih = "3.IH"(1) [OF True v this "3.prems"(3,4)]
    show ?thesis
    proof (cases res1)
      case (Some c)
      with ih v True "3.prems"(1) show ?thesis by auto
    next
      case None
      with ih have ok: "settled_nodes g (set complete1)" "set complete \<subseteq> set complete1" "d \<in> set complete1" "set complete1 \<inter> set path = {}" by auto
      have v2: "visit_deps g ds path complete1 = (res, complete')" using v None True "3.prems"(1) by simp
      from "3.IH"(2) [OF True v [symmetric] None v2 rest ok(1,4)] ok show ?thesis by (auto split: option.splits)
    qed
  qed
qed

lemma cycle_from_sound:
  assumes "settled_nodes g (set complete)"
  shows "case cycle_from g ns complete of Some c \<Rightarrow> is_cycle g c | None \<Rightarrow> \<exists>C. settled_nodes g C \<and> set ns \<subseteq> C \<and> set complete \<subseteq> C"
  using assms
proof (induction ns arbitrary: complete)
  case (Cons n ns)
  obtain res complete1 where v: "visit g n [] complete = (res, complete1)" by (cases "visit g n [] complete")
  have "on_path g [] n" by (simp add: on_path_def)
  note s = visit_sound(1) [OF v this Cons.prems]
  show ?case
  proof (cases res)
    case None
    with s Cons.IH [of complete1] v show ?thesis by (auto split: option.splits) 
  qed (use s v in auto)
qed auto

lemma cycle_not_acyclic: "is_cycle g c \<Longrightarrow> \<not> acyclic (dep_rel g)"
proof -
  have chain: "successively (\<lambda>n d. (n, d) \<in> R) (x # xs) \<Longrightarrow> xs \<noteq> [] \<Longrightarrow> (x, last xs) \<in> R\<^sup>+" for R :: "('a \<times> 'a) set" and x xs
  proof (induction xs arbitrary: x)
    case (Cons y ys)
    then show ?case by (cases "ys = []") (auto intro: trancl_into_trancl2)
  qed simp
  assume c: "is_cycle g c"
  then obtain x xs where "c = x # xs" "xs \<noteq> []" by (cases c; cases "tl c") (auto simp: is_cycle_def)
  with chain [of "dep_rel g" x xs] c have "(x, x) \<in> (dep_rel g)\<^sup>+" by (auto simp: is_cycle_def)
  then show ?thesis by (auto simp: acyclic_def)
qed

lemma child_dependency_cycle_cases:
  "case child_dependency_cycle g of Some c \<Rightarrow> is_cycle g c | None \<Rightarrow> acyclic (dep_rel g)"
proof (cases "child_dependency_cycle g")
  case None
  with cycle_from_sound [OF settled_empty [of g, folded list.set(1)], of "map fst g"] obtain C where C: "settled_nodes g C" "fst ` set g \<subseteq> C"
    by (auto simp: child_dependency_cycle_def)
  have "dep_rel g \<subseteq> C \<times> C" using C(2) by (force simp: dep_rel_def has_key_def dest: map_of_SomeD)
  then have "dep_rel g \<inter> C \<times> C = dep_rel g" by blast
  with C(1) None show ?thesis by (simp add: settled_nodes_def)
next
  case (Some c)
  with cycle_from_sound [OF settled_empty [of g, folded list.set(1)], of "map fst g"] show ?thesis
    by (simp add: child_dependency_cycle_def)
qed

text \<open>
  C19: The cycle check decides exactly whether the dependencies among the tasks of a parent have a cycle, in whatever order the map is
  iterated, and what it reports is a cycle of these dependencies: consecutive entries are dependencies, the last entry is the first.
\<close>

theorem cycle_check_exact:
  "(child_dependency_cycle g = None \<longleftrightarrow> acyclic (dep_rel g)) \<and> pred_option (is_cycle g) (child_dependency_cycle g)"
  using child_dependency_cycle_cases [of g] cycle_not_acyclic [of g] by (auto split: option.splits)

end
