(* ===== verification/Child_Reservations.thy ===== *)
theory Child_Reservations
  imports Child_Tasks
begin

text \<open>
  The contracts of child tasks and their share of the parent's budget (\<open>crates/core/src/runs.rs\<close>): the reservation, the settlement
  from measured use, and the listings.

  The JSON library is a parameter: \<^typ>\<open>'j json\<close> for values and \<open>deps_json\<close> for lists of strings. An unsigned argument is a
  \<^typ>\<open>nat\<close>; a column read as \<open>u32\<close> fails outside the range of that type. SQLite's sums of the columns are taken in the integers.
\<close>

section \<open>Data\<close>

record ChildExecutionBudget =
  ce_tokens :: nat
  ce_time_ms :: nat
  ce_retries :: nat
  ce_effects :: nat

record 'j ChildTaskRecord =
  task_child_run_id :: string
  task_parent_run_id :: string
  task_value :: 'j
  task_hash :: string
  task_trust_ceiling :: 'j
  task_budget_tokens :: nat
  task_tokens_used :: "nat option"
  task_budget_time_ms :: nat
  task_time_used_ms :: "nat option"
  task_budget_retries :: nat
  task_retries_used :: "nat option"
  task_budget_effects :: nat
  task_effects_used :: "nat option"
  task_dependencies :: "string list"
  task_result_artifact_id :: "string option"
  task_status :: RunStatus
  task_created_at :: int
  task_updated_at :: int

record deps_json =
  deps_to_string :: "string list \<Rightarrow> string"
  deps_from_str :: "string \<Rightarrow> string list option"

definition MAX_CHILD_TASKS_PER_PARENT :: nat where
  "MAX_CHILD_TASKS_PER_PARENT = 128"

definition in_u32 :: "int \<Rightarrow> bool" where
  "in_u32 x \<longleftrightarrow> 0 \<le> x \<and> x < 2 ^ 32"

definition saturating_add_u32 :: "int \<Rightarrow> int \<Rightarrow> int" where
  "saturating_add_u32 a b = min (2 ^ 32 - 1) (a + b)"

section \<open>The dependency graph of a parent\<close>

abbreviation of_parent :: "string \<Rightarrow> child_task_row \<Rightarrow> bool" where
  "of_parent parent t \<equiv> ct_parent_run_id t = parent"

definition decode_deps :: "deps_json \<Rightarrow> child_task_row \<Rightarrow> DbError + string \<times> string list" where
  "decode_deps dj t = (case deps_from_str dj (ct_dependencies_json t) of
      None \<Rightarrow> Inl (Invariant ''stored child dependency list is invalid'')
    | Some ds \<Rightarrow> Inr (ct_child_run_id t, ds))"

text \<open>\<open>ORDER BY child_run_id LIMIT 129\<close>; a child run id is the key of its row.\<close>

definition dependency_graph :: "deps_json \<Rightarrow> string \<Rightarrow> run_db \<Rightarrow> DbError + dep_graph" where
  "dependency_graph dj parent s = collect_results (map (decode_deps dj)
     (take (MAX_CHILD_TASKS_PER_PARENT + 1) (sort_key ct_child_run_id (filter (of_parent parent) (child_tasks s)))))"

definition graph_insert :: "string \<Rightarrow> string list \<Rightarrow> dep_graph \<Rightarrow> dep_graph" where
  "graph_insert k ds g = (k, ds) # filter (\<lambda>e. fst e \<noteq> k) g"

section \<open>Reservation\<close>

definition find_child_budget :: "string \<Rightarrow> run_db \<Rightarrow> child_budget_row option" where
  "find_child_budget parent s = find (\<lambda>b. cb_parent_run_id b = parent) (child_budgets s)"

definition find_child_task :: "string \<Rightarrow> run_db \<Rightarrow> child_task_row option" where
  "find_child_task child s = find (\<lambda>t. ct_child_run_id t = child) (child_tasks s)"

definition fresh_child_budget :: "string \<Rightarrow> ChildExecutionBudget \<Rightarrow> int \<Rightarrow> child_budget_row" where
  "fresh_child_budget parent ab now = \<lparr>cb_parent_run_id = parent, cb_token_limit = int (ce_tokens ab), cb_tokens_reserved = 0,
     cb_updated_at = now, cb_time_limit_ms = int (ce_time_ms ab), cb_time_reserved_ms = 0, cb_retry_limit = int (ce_retries ab),
     cb_retries_reserved = 0, cb_effect_limit = int (ce_effects ab), cb_effects_reserved = 0\<rparr>"

text \<open>\<open>INSERT OR IGNORE\<close>: the parent is there and the limits satisfy the checks.\<close>

definition insert_child_budget_or_ignore :: "child_budget_row \<Rightarrow> run_db \<Rightarrow> run_db" where
  "insert_child_budget_or_ignore b s = (if find_child_budget (cb_parent_run_id b) s \<noteq> None then s
     else s\<lparr>child_budgets := child_budgets s @ [b]\<rparr>)"

definition fresh_child_task :: "string \<Rightarrow> string \<Rightarrow> string \<Rightarrow> string \<Rightarrow> string \<Rightarrow> ChildExecutionBudget \<Rightarrow> string \<Rightarrow> int \<Rightarrow> child_task_row" where
  "fresh_child_task parent child task_json hash trust_json tb dependencies_json now =
     \<lparr>ct_child_run_id = child, ct_parent_run_id = parent, ct_task_json = task_json, ct_task_hash = hash,
      ct_trust_ceiling_json = trust_json, ct_budget_tokens = int (ce_tokens tb), ct_tokens_used = None,
      ct_dependencies_json = dependencies_json, ct_result_artifact_id = None, ct_budget_settled = False, ct_created_at = now,
      ct_updated_at = now, ct_budget_time_ms = int (ce_time_ms tb), ct_time_used_ms = None, ct_budget_retries = int (ce_retries tb),
      ct_retries_used = None, ct_budget_effects = int (ce_effects tb), ct_effects_used = None\<rparr>"

definition same_contract :: "child_task_row \<Rightarrow> child_task_row \<Rightarrow> bool" where
  "same_contract t u \<longleftrightarrow> ct_task_json t = ct_task_json u \<and> ct_task_hash t = ct_task_hash u \<and>
     ct_trust_ceiling_json t = ct_trust_ceiling_json u \<and> ct_budget_tokens t = ct_budget_tokens u \<and>
     ct_dependencies_json t = ct_dependencies_json u \<and> ct_budget_time_ms t = ct_budget_time_ms u \<and>
     ct_budget_retries t = ct_budget_retries u \<and> ct_budget_effects t = ct_budget_effects u"

definition budgets_fit :: "ChildExecutionBudget \<Rightarrow> ChildExecutionBudget \<Rightarrow> bool" where
  "budgets_fit tb ab \<longleftrightarrow> ce_tokens tb \<noteq> 0 \<and> ce_tokens ab \<noteq> 0 \<and> ce_tokens tb \<le> ce_tokens ab \<and> ce_time_ms tb \<noteq> 0 \<and>
     ce_time_ms ab \<noteq> 0 \<and> ce_time_ms tb \<le> ce_time_ms ab \<and> ce_retries tb \<le> ce_retries ab \<and> ce_effects tb \<le> ce_effects ab"

definition dependencies_ok :: "string list \<Rightarrow> bool" where
  "dependencies_ok ds \<longleftrightarrow> length ds \<le> 64 \<and> list_all (\<lambda>d. length d \<le> 128) ds \<and> distinct ds"

definition share_exceeds :: "child_budget_row \<Rightarrow> child_task_row \<Rightarrow> bool" where
  "share_exceeds b t \<longleftrightarrow> cb_token_limit b < saturating_add_u32 (cb_tokens_reserved b) (ct_budget_tokens t) \<or>
     cb_time_limit_ms b < saturating_add_i64 (cb_time_reserved_ms b) (ct_budget_time_ms t) \<or>
     cb_retry_limit b < saturating_add_u32 (cb_retries_reserved b) (ct_budget_retries t) \<or>
     cb_effect_limit b < saturating_add_u32 (cb_effects_reserved b) (ct_budget_effects t)"

definition charge_share :: "child_task_row \<Rightarrow> int \<Rightarrow> child_budget_row \<Rightarrow> child_budget_row" where
  "charge_share t now b = b\<lparr>cb_tokens_reserved := cb_tokens_reserved b + ct_budget_tokens t,
     cb_time_reserved_ms := cb_time_reserved_ms b + ct_budget_time_ms t,
     cb_retries_reserved := cb_retries_reserved b + ct_budget_retries t,
     cb_effects_reserved := cb_effects_reserved b + ct_budget_effects t, cb_updated_at := now\<rparr>"

definition update_child_budgets :: "string \<Rightarrow> (child_budget_row \<Rightarrow> child_budget_row) \<Rightarrow> run_db \<Rightarrow> run_db" where
  "update_child_budgets parent f s = s\<lparr>child_budgets := update_where (\<lambda>b. cb_parent_run_id b = parent) f (child_budgets s)\<rparr>"

definition budget_columns :: "child_budget_row \<Rightarrow> int list" where
  "budget_columns b = [cb_token_limit b, cb_tokens_reserved b, cb_retry_limit b, cb_retries_reserved b, cb_effect_limit b,
     cb_effects_reserved b]"

definition task_columns :: "child_task_row \<Rightarrow> int list" where
  "task_columns t = [ct_budget_tokens t, ct_budget_retries t, ct_budget_effects t]"

text \<open>The part of the transaction after the graph is checked: the aggregate budget, the replay, the share.\<close>

definition reserve_share :: "child_task_row \<Rightarrow> ChildExecutionBudget \<Rightarrow> int \<Rightarrow> run_db \<Rightarrow> DbError + bool \<times> run_db" where
  "reserve_share t ab now s =
     (let s1 = insert_child_budget_or_ignore (fresh_child_budget (ct_parent_run_id t) ab now) s in
      case find_child_budget (ct_parent_run_id t) s1 of
        None \<Rightarrow> Inl (Sqlite QueryReturnedNoRows)
      | Some b \<Rightarrow>
          if \<not> list_all in_u32 (budget_columns b) then Inl (Sqlite IntegralValueOutOfRange)
          else if cb_token_limit b \<noteq> int (ce_tokens ab) \<or> cb_time_limit_ms b \<noteq> int (ce_time_ms ab) \<or>
             cb_retry_limit b \<noteq> int (ce_retries ab) \<or> cb_effect_limit b \<noteq> int (ce_effects ab)
          then Inl (Invariant ''parent aggregate child budget changed during a run'')
          else (case find_child_task (ct_child_run_id t) s1 of
              Some existing \<Rightarrow>
                if \<not> list_all in_u32 (task_columns existing) then Inl (Sqlite IntegralValueOutOfRange)
                else if same_contract existing t then Inr (False, s1)
                else Inl (Invariant ''child run id was reused with a different task contract or budget'')
            | None \<Rightarrow>
                if share_exceeds b t then Inl (Invariant ''aggregate child execution budget exhausted'')
                else Inr (True, update_child_budgets (ct_parent_run_id t) (charge_share t now)
                       (s1\<lparr>child_tasks := child_tasks s1 @ [t]\<rparr>))))"

text \<open>The column is read as a text: a run without a parent is a type error.\<close>

definition child_parent :: "string \<Rightarrow> run_db \<Rightarrow> DbError + string option" where
  "child_parent child s = (case find (\<lambda>r. rn_run_id r = child) (run_rows s) of
      None \<Rightarrow> Inr None
    | Some r \<Rightarrow> (case rn_parent_run_id r of None \<Rightarrow> Inl (Sqlite InvalidColumnType) | Some p \<Rightarrow> Inr (Some p)))"

definition reserve_child_task_tx :: "deps_json \<Rightarrow> child_task_row \<Rightarrow> ChildExecutionBudget \<Rightarrow> string list \<Rightarrow> int \<Rightarrow> run_db \<Rightarrow> DbError + bool \<times> run_db" where
  "reserve_child_task_tx dj t ab dependencies now s =
     (case child_parent (ct_child_run_id t) s of
        Inl e \<Rightarrow> Inl e
      | Inr p \<Rightarrow>
          if \<not> run_exists (ct_parent_run_id t) s \<or> p \<noteq> Some (ct_parent_run_id t)
          then Inl (Invariant ''child contract must reference an existing child and parent run'')
          else (case dependency_graph dj (ct_parent_run_id t) s of
              Inl e \<Rightarrow> Inl e
            | Inr g \<Rightarrow>
                if MAX_CHILD_TASKS_PER_PARENT \<le> length g then Inl (Invariant ''parent child-task limit (128) reached'')
                else (case child_dependency_cycle (graph_insert (ct_child_run_id t) dependencies g) of
                    Some _ \<Rightarrow> Inl (Invariant ''child dependency cycle rejected'')
                  | None \<Rightarrow> reserve_share t ab now s)))"

definition reserve_child_task_with_budgets :: "'j json \<Rightarrow> deps_json \<Rightarrow> string \<Rightarrow> string \<Rightarrow> 'j \<Rightarrow> string \<Rightarrow> 'j \<Rightarrow> ChildExecutionBudget
   \<Rightarrow> ChildExecutionBudget \<Rightarrow> string list \<Rightarrow> int \<Rightarrow> run_db \<Rightarrow> (RunStoreError + bool) \<times> run_db" where
  "reserve_child_task_with_budgets js dj parent child task hash trust tb ab dependencies now s =
     (if \<not> budgets_fit tb ab then (Inl (Conflict ''child budgets must be positive and fit the parent aggregate limits''), s)
      else if \<not> dependencies_ok dependencies
      then (Inl (Conflict ''child dependency list exceeds its bounds or repeats an edge''), s)
      else let task_json = json_to_string js task; trust_json = json_to_string js trust in
        if 64 * 1024 < length task_json \<or> 8 * 1024 < length trust_json \<or> length hash \<noteq> 64
        then (Inl (Conflict ''child task contract is malformed or oversized''), s)
        else if i64_max < int (ce_time_ms tb) then (Inl (Conflict ''child time budget is too large''), s)
        else if i64_max < int (ce_time_ms ab) then (Inl (Conflict ''parent time budget is too large''), s)
        else (case transaction (reserve_child_task_tx dj
                (fresh_child_task parent child task_json hash trust_json tb (deps_to_string dj dependencies) now) ab dependencies now) s of
            (Inl e, s1) \<Rightarrow> (Inl (RunDb e), s1) | (Inr r, s1) \<Rightarrow> (Inr r, s1)))"

definition reserve_child_task :: "'j json \<Rightarrow> deps_json \<Rightarrow> string \<Rightarrow> string \<Rightarrow> 'j \<Rightarrow> string \<Rightarrow> 'j \<Rightarrow> nat \<Rightarrow> nat \<Rightarrow> string list \<Rightarrow> int
   \<Rightarrow> run_db \<Rightarrow> (RunStoreError + bool) \<times> run_db" where
  "reserve_child_task js dj parent child task hash trust budget_tokens aggregate_limit_tokens =
     reserve_child_task_with_budgets js dj parent child task hash trust
       \<lparr>ce_tokens = budget_tokens, ce_time_ms = 120000, ce_retries = 0, ce_effects = 0\<rparr>
       \<lparr>ce_tokens = aggregate_limit_tokens, ce_time_ms = 3600000, ce_retries = 64, ce_effects = 0\<rparr>"

section \<open>Settlement\<close>

record child_usage =
  u_tokens :: "nat option"
  u_time_ms :: "nat option"
  u_retries :: "nat option"
  u_effects :: "nat option"

definition or_else :: "'a option \<Rightarrow> 'a option \<Rightarrow> 'a option" where
  "or_else a b = (case a of None \<Rightarrow> b | Some x \<Rightarrow> Some x)"

definition charged :: "nat option \<Rightarrow> int \<Rightarrow> int" where
  "charged u budget = (case u of None \<Rightarrow> budget | Some n \<Rightarrow> int n)"

definition release_share :: "child_usage \<Rightarrow> child_task_row \<Rightarrow> int \<Rightarrow> child_budget_row \<Rightarrow> child_budget_row" where
  "release_share u t now b = b
     \<lparr>cb_tokens_reserved := max 0 (cb_tokens_reserved b - ct_budget_tokens t + charged (u_tokens u) (ct_budget_tokens t)),
      cb_time_reserved_ms := max 0 (cb_time_reserved_ms b - ct_budget_time_ms t + charged (u_time_ms u) (ct_budget_time_ms t)),
      cb_retries_reserved := max 0 (cb_retries_reserved b - ct_budget_retries t + charged (u_retries u) (ct_budget_retries t)),
      cb_effects_reserved := max 0 (cb_effects_reserved b - ct_budget_effects t + charged (u_effects u) (ct_budget_effects t)),
      cb_updated_at := now\<rparr>"

definition settle_row :: "child_usage \<Rightarrow> string option \<Rightarrow> int \<Rightarrow> child_task_row \<Rightarrow> child_task_row" where
  "settle_row u artifact now t = t
     \<lparr>ct_tokens_used := or_else (map_option int (u_tokens u)) (ct_tokens_used t),
      ct_time_used_ms := or_else (map_option int (u_time_ms u)) (ct_time_used_ms t),
      ct_retries_used := or_else (map_option int (u_retries u)) (ct_retries_used t),
      ct_effects_used := or_else (map_option int (u_effects u)) (ct_effects_used t),
      ct_result_artifact_id := or_else artifact (ct_result_artifact_id t), ct_budget_settled := True, ct_updated_at := now\<rparr>"

definition usage_columns :: "child_task_row \<Rightarrow> int list" where
  "usage_columns t = List.map_filter (\<lambda>c. c) [ct_tokens_used t, ct_retries_used t, ct_effects_used t]"

abbreviation is_task :: "string \<Rightarrow> string \<Rightarrow> child_task_row \<Rightarrow> bool" where
  "is_task child parent t \<equiv> ct_child_run_id t = child \<and> ct_parent_run_id t = parent"

definition settle_child_task_tx :: "string \<Rightarrow> string \<Rightarrow> child_usage \<Rightarrow> string option \<Rightarrow> int \<Rightarrow> run_db \<Rightarrow> DbError + unit \<times> run_db" where
  "settle_child_task_tx parent child u artifact now s =
     (case find (is_task child parent) (child_tasks s) of
        None \<Rightarrow> Inl (Invariant ''child task contract was not found'')
      | Some t \<Rightarrow>
          if \<not> list_all in_u32 (task_columns t @ usage_columns t) then Inl (Sqlite IntegralValueOutOfRange)
          else if ct_budget_settled t then Inr ((), s)
          else let s1 = update_child_budgets parent (release_share u t now) s in
            Inr ((), s1\<lparr>child_tasks := update_where (is_task child parent) (settle_row u artifact now) (child_tasks s1)\<rparr>))"

definition settle_child_task_with_usage :: "string \<Rightarrow> string \<Rightarrow> child_usage \<Rightarrow> string option \<Rightarrow> int \<Rightarrow> run_db
   \<Rightarrow> (RunStoreError + unit) \<times> run_db" where
  "settle_child_task_with_usage parent child u artifact now s =
     (if (case u_time_ms u of None \<Rightarrow> False | Some n \<Rightarrow> i64_max < int n) then (Inl (Conflict ''child time usage is too large''), s)
      else (case transaction (settle_child_task_tx parent child u artifact now) s of
          (Inl e, s1) \<Rightarrow> (Inl (RunDb e), s1) | (Inr r, s1) \<Rightarrow> (Inr r, s1)))"

definition settle_child_task :: "string \<Rightarrow> string \<Rightarrow> nat option \<Rightarrow> string option \<Rightarrow> int \<Rightarrow> run_db \<Rightarrow> (RunStoreError + unit) \<times> run_db" where
  "settle_child_task parent child tokens_used = settle_child_task_with_usage parent child
     \<lparr>u_tokens = tokens_used, u_time_ms = None, u_retries = None, u_effects = None\<rparr>"

section \<open>Listing\<close>

definition task_record :: "'j json \<Rightarrow> deps_json \<Rightarrow> child_task_row \<Rightarrow> run_row \<Rightarrow> DbError + 'j ChildTaskRecord" where
  "task_record js dj t r =
     (if \<not> list_all in_u32 (task_columns t @ usage_columns t) then Inl (Sqlite IntegralValueOutOfRange)
      else let value = (\<lambda>x. case json_from_str js x of None \<Rightarrow> json_null js | Some j \<Rightarrow> j) in
        Inr \<lparr>task_child_run_id = ct_child_run_id t, task_parent_run_id = ct_parent_run_id t, task_value = value (ct_task_json t),
          task_hash = ct_task_hash t, task_trust_ceiling = value (ct_trust_ceiling_json t),
          task_budget_tokens = nat (ct_budget_tokens t), task_tokens_used = map_option nat (ct_tokens_used t),
          task_budget_time_ms = nat (ct_budget_time_ms t), task_time_used_ms = map_option nat (ct_time_used_ms t),
          task_budget_retries = nat (ct_budget_retries t), task_retries_used = map_option nat (ct_retries_used t),
          task_budget_effects = nat (ct_budget_effects t), task_effects_used = map_option nat (ct_effects_used t),
          task_dependencies = (case deps_from_str dj (ct_dependencies_json t) of None \<Rightarrow> [] | Some ds \<Rightarrow> ds),
          task_result_artifact_id = ct_result_artifact_id t,
          task_status = (case RunStatus_parse (rn_status r) of None \<Rightarrow> RunFailed | Some st \<Rightarrow> st),
          task_created_at = ct_created_at t, task_updated_at = ct_updated_at t\<rparr>)"

definition joined_tasks :: "child_task_row list \<Rightarrow> run_db \<Rightarrow> (child_task_row \<times> run_row) list" where
  "joined_tasks ts s = List.map_filter (\<lambda>t. map_option (Pair t) (find (\<lambda>r. rn_run_id r = ct_child_run_id t) (run_rows s)))
     (sort_key ct_created_at (sort_key ct_child_run_id ts))"

definition list_child_tasks :: "'j json \<Rightarrow> deps_json \<Rightarrow> string \<Rightarrow> run_db \<Rightarrow> DbError + 'j ChildTaskRecord list" where
  "list_child_tasks js dj parent s =
     collect_results (map (\<lambda>(t, r). task_record js dj t r) (joined_tasks (filter (of_parent parent) (child_tasks s)) s))"

definition list_recent_child_tasks :: "'j json \<Rightarrow> deps_json \<Rightarrow> nat \<Rightarrow> run_db \<Rightarrow> DbError + 'j ChildTaskRecord list" where
  "list_recent_child_tasks js dj limit s =
     collect_results (map (\<lambda>(t, r). task_record js dj t r) (take (clamp 1 100 limit) (rev (joined_tasks (child_tasks s) s))))"

end
