(* ===== verification/Child_Machine.thy ===== *)
theory Child_Machine
  imports Child_Reservations
begin

text \<open>
  Child tasks as a state machine: the accounting of the four shared resources, the dependency graph, and replays.
\<close>

section \<open>The accounting invariant\<close>

datatype resource = Tokens | TimeMs | Retries | Effects

fun reserved_of :: "resource \<Rightarrow> child_budget_row \<Rightarrow> int" where
  "reserved_of Tokens = cb_tokens_reserved"
| "reserved_of TimeMs = cb_time_reserved_ms"
| "reserved_of Retries = cb_retries_reserved"
| "reserved_of Effects = cb_effects_reserved"

fun limit_of :: "resource \<Rightarrow> child_budget_row \<Rightarrow> int" where
  "limit_of Tokens = cb_token_limit"
| "limit_of TimeMs = cb_time_limit_ms"
| "limit_of Retries = cb_retry_limit"
| "limit_of Effects = cb_effect_limit"

fun share_of :: "resource \<Rightarrow> child_task_row \<Rightarrow> int" where
  "share_of Tokens = ct_budget_tokens"
| "share_of TimeMs = ct_budget_time_ms"
| "share_of Retries = ct_budget_retries"
| "share_of Effects = ct_budget_effects"

fun used_of :: "resource \<Rightarrow> child_task_row \<Rightarrow> int option" where
  "used_of Tokens = ct_tokens_used"
| "used_of TimeMs = ct_time_used_ms"
| "used_of Retries = ct_retries_used"
| "used_of Effects = ct_effects_used"

fun usage_of :: "resource \<Rightarrow> child_usage \<Rightarrow> nat option" where
  "usage_of Tokens = u_tokens"
| "usage_of TimeMs = u_time_ms"
| "usage_of Retries = u_retries"
| "usage_of Effects = u_effects"

text \<open>What a task costs its parent: the measured use, the full share as long as nothing was measured.\<close>

definition cost :: "resource \<Rightarrow> child_task_row \<Rightarrow> int" where
  "cost k t = (case used_of k t of None \<Rightarrow> share_of k t | Some u \<Rightarrow> u)"

definition committed :: "resource \<Rightarrow> string \<Rightarrow> child_task_row list \<Rightarrow> int" where
  "committed k parent ts = (\<Sum>t \<leftarrow> filter (of_parent parent) ts. cost k t)"

definition task_row_ok :: "child_task_row \<Rightarrow> bool" where
  "task_row_ok t \<longleftrightarrow> (\<forall>k. 0 \<le> share_of k t \<and> 0 \<le> cost k t \<and> (\<not> ct_budget_settled t \<longrightarrow> used_of k t = None))"

definition child_store_ok :: "run_db \<Rightarrow> bool" where
  "child_store_ok s \<longleftrightarrow> distinct (map cb_parent_run_id (child_budgets s)) \<and> distinct (map ct_child_run_id (child_tasks s)) \<and>
     list_all task_row_ok (child_tasks s) \<and> ct_parent_run_id ` set (child_tasks s) \<subseteq> cb_parent_run_id ` set (child_budgets s) \<and>
     (\<forall>b \<in> set (child_budgets s). \<forall>k. reserved_of k b = committed k (cb_parent_run_id b) (child_tasks s))"

lemma resource_fields [simp]:
  "reserved_of k (charge_share t now b) = reserved_of k b + share_of k t"
  "reserved_of k (release_share u t now b) = max 0 (reserved_of k b - share_of k t + charged (usage_of k u) (share_of k t))"
  "cb_parent_run_id (charge_share t now b) = cb_parent_run_id b"
  "cb_parent_run_id (release_share u t now b) = cb_parent_run_id b"
  "limit_of k (charge_share t now b) = limit_of k b"
  "reserved_of k (fresh_child_budget parent ab now) = 0"
  "cb_parent_run_id (fresh_child_budget parent ab now) = parent"
  "used_of k (settle_row u artifact now t) = or_else (map_option int (usage_of k u)) (used_of k t)"
  "share_of k (settle_row u artifact now t) = share_of k t"
  "used_of k (fresh_child_task parent child tj h tr tb dj now) = None"
  "0 \<le> share_of k (fresh_child_task parent child tj h tr tb dj now)"
  by (cases k; simp add: charge_share_def release_share_def fresh_child_budget_def settle_row_def fresh_child_task_def)+

lemma settle_row_ids [simp]:
  "ct_child_run_id (settle_row u artifact now t) = ct_child_run_id t" "ct_parent_run_id (settle_row u artifact now t) = ct_parent_run_id t"
  "ct_dependencies_json (settle_row u artifact now t) = ct_dependencies_json t" "ct_budget_settled (settle_row u artifact now t)"
  by (simp_all add: settle_row_def)

lemma fresh_child_task_fields [simp]:
  "ct_child_run_id (fresh_child_task parent child tj h tr tb dj now) = child"
  "ct_parent_run_id (fresh_child_task parent child tj h tr tb dj now) = parent"
  "ct_dependencies_json (fresh_child_task parent child tj h tr tb dj now) = dj"
  by (simp_all add: fresh_child_task_def)

lemma fresh_child_task_ok: "task_row_ok (fresh_child_task parent child tj h tr tb dj now)"
  by (simp add: task_row_ok_def cost_def)

lemma committed_append: "committed k parent (ts @ [t]) = committed k parent ts + (if of_parent parent t then cost k t else 0)"
  by (simp add: committed_def)

lemma committed_none: "parent \<notin> ct_parent_run_id ` set ts \<Longrightarrow> committed k parent ts = 0"
  by (induction ts) (auto simp: committed_def)

lemma committed_nonneg: "list_all task_row_ok ts \<Longrightarrow> 0 \<le> committed k parent ts"
  by (induction ts) (auto simp: committed_def task_row_ok_def)

lemma committed_ge:
  "list_all task_row_ok ts \<Longrightarrow> t \<in> set ts \<Longrightarrow> cost k t \<le> committed k (ct_parent_run_id t) ts"
proof (induction ts)
  case (Cons u ts)
  then have rest: "list_all task_row_ok ts" "task_row_ok u" by simp_all
  from rest(2) have "0 \<le> cost k u" by (simp add: task_row_ok_def)
  with committed_nonneg [OF rest(1), of k "ct_parent_run_id t"] Cons show ?case by (auto simp: committed_def intro: add_increasing)
qed simp

lemma committed_update:
  assumes "distinct (map ct_child_run_id ts)" "t \<in> set ts" "\<And>t. ct_parent_run_id (f t) = ct_parent_run_id t"
  shows "committed k parent (update_where (is_task (ct_child_run_id t) (ct_parent_run_id t)) f ts) =
    committed k parent ts + (if of_parent parent t then cost k (f t) - cost k t else 0)"
  using assms
proof (induction ts)
  case (Cons u ts)
  show ?case
  proof (cases "u = t")
    case True
    with Cons.prems(1) have "update_where (is_task (ct_child_run_id t) (ct_parent_run_id t)) f ts = ts"
      by (intro update_where_none) (metis distinct.simps(2) imageI list.set_map list.simps(9))
    with True Cons.prems(3) show ?thesis by (simp add: committed_def)
  next
    case False
    with Cons.prems have "t \<in> set ts" "ct_child_run_id u \<noteq> ct_child_run_id t" by auto
    with Cons show ?thesis by (cases "of_parent parent t") (simp_all add: committed_def)
  qed
qed simp

section \<open>Operations keep it\<close>

lemma find_child_budget_Some: "find_child_budget parent s = Some b \<Longrightarrow> b \<in> set (child_budgets s) \<and> cb_parent_run_id b = parent"
  unfolding find_child_budget_def by (auto dest: find_SomeD)

lemma find_child_budget_None: "find_child_budget parent s = None \<longleftrightarrow> parent \<notin> cb_parent_run_id ` set (child_budgets s)"
  unfolding find_child_budget_def by (auto simp: find_None_iff)

lemma find_child_task_None: "find_child_task child s = None \<longleftrightarrow> child \<notin> ct_child_run_id ` set (child_tasks s)"
  unfolding find_child_task_def by (auto simp: find_None_iff)

lemma insert_child_budget_ok:
  assumes "child_store_ok s"
  shows "child_store_ok (insert_child_budget_or_ignore (fresh_child_budget parent ab now) s)"
proof (cases "find_child_budget parent s")
  case None
  with assms have "parent \<notin> ct_parent_run_id ` set (child_tasks s)" "parent \<notin> cb_parent_run_id ` set (child_budgets s)"
    by (auto simp: find_child_budget_None child_store_ok_def)
  with assms None show ?thesis by (auto simp: insert_child_budget_or_ignore_def child_store_ok_def committed_none)
qed (use assms in \<open>simp add: insert_child_budget_or_ignore_def\<close>)

lemma insert_child_budget_tables [simp]:
  "child_tasks (insert_child_budget_or_ignore b s) = child_tasks s" "core (insert_child_budget_or_ignore b s) = core s"
  by (simp_all add: insert_child_budget_or_ignore_def)

lemma update_child_budgets_simps [simp]:
  "child_budgets (update_child_budgets parent f s) = update_where (\<lambda>b. cb_parent_run_id b = parent) f (child_budgets s)"
  "child_tasks (update_child_budgets parent f s) = child_tasks s"
  "core (update_child_budgets parent f s) = core s"
  by (simp_all add: update_child_budgets_def)

lemma update_where_keys:
  assumes "\<And>b. key (f b) = key b"
  shows "map key (update_where p f bs) = map key bs" "key ` set (update_where p f bs) = key ` set bs"
proof -
  show "map key (update_where p f bs) = map key bs" using assms by (simp add: update_where_def)
  from arg_cong [OF this, of set] show "key ` set (update_where p f bs) = key ` set bs" by simp
qed

lemma charge_share_ok:
  assumes ok: "child_store_ok s" and t: "task_row_ok t" "\<And>k. used_of k t = None" and fresh: "ct_child_run_id t \<notin> ct_child_run_id ` set (child_tasks s)"
    and parent: "ct_parent_run_id t \<in> cb_parent_run_id ` set (child_budgets s)"
  shows "child_store_ok (update_child_budgets (ct_parent_run_id t) (charge_share t now) (s\<lparr>child_tasks := child_tasks s @ [t]\<rparr>))"
proof -
  have "reserved_of k b' = committed k (cb_parent_run_id b') (child_tasks s @ [t])"
    if "b' \<in> set (update_where (\<lambda>b. cb_parent_run_id b = ct_parent_run_id t) (charge_share t now) (child_budgets s))" for b' k
    using that
  proof (cases rule: update_where_cases)
    case kept
    with ok show ?thesis by (simp add: child_store_ok_def committed_append)
  next
    case (changed b)
    with ok t(2) show ?thesis by (simp add: child_store_ok_def committed_append cost_def)
  qed
  with assms show ?thesis by (simp add: child_store_ok_def update_where_keys)
qed

lemma reserve_share_ok:
  assumes "child_store_ok s" "task_row_ok t" "\<And>k. used_of k t = None" "reserve_share t ab now s = Inr (r, s')"
  shows "child_store_ok s'"
proof -
  define s1 where "s1 = insert_child_budget_or_ignore (fresh_child_budget (ct_parent_run_id t) ab now) s"
  have ok: "child_store_ok s1" unfolding s1_def by (rule insert_child_budget_ok [OF assms(1)])
  from assms(4) consider "s' = s1"
    | "find_child_task (ct_child_run_id t) s1 = None" "\<exists>b. find_child_budget (ct_parent_run_id t) s1 = Some b"
      "s' = update_child_budgets (ct_parent_run_id t) (charge_share t now) (s1\<lparr>child_tasks := child_tasks s1 @ [t]\<rparr>)"
    unfolding reserve_share_def Let_def s1_def [symmetric] by (auto split: option.splits if_splits)
  then show ?thesis
  proof cases
    case 2
    then have "ct_parent_run_id t \<in> cb_parent_run_id ` set (child_budgets s1)" using find_child_budget_None [of "ct_parent_run_id t" s1] by auto
    with 2 charge_share_ok [OF ok assms(2,3)] show ?thesis by (simp add: find_child_task_None)
  qed (use ok in simp)
qed

lemma reserve_ok:
  assumes "child_store_ok s"
  shows "child_store_ok (snd (reserve_child_task_with_budgets js dj parent child task hash trust tb ab ds now s))"
proof -
  define t where "t = fresh_child_task parent child (json_to_string js task) hash (json_to_string js trust) tb (deps_to_string dj ds) now"
  have "child_store_ok (snd (transaction (reserve_child_task_tx dj t ab ds now) s))"
  proof (rule transaction_invariant [where P = child_store_ok, OF assms])
    fix r s' assume "reserve_child_task_tx dj t ab ds now s = Inr (r, s')"
    then have "reserve_share t ab now s = Inr (r, s')"
      unfolding reserve_child_task_tx_def by (auto split: sum.splits if_splits option.splits)
    then show "child_store_ok s'" by (rule reserve_share_ok [OF assms, rotated 2]) (simp_all add: t_def fresh_child_task_ok)
  qed
  with assms show ?thesis
    unfolding reserve_child_task_with_budgets_def Let_def t_def [symmetric] by (auto split: prod.splits sum.splits)
qed

lemma settle_task_ok: "task_row_ok t \<Longrightarrow> task_row_ok (settle_row u artifact now t)"
  by (auto simp: task_row_ok_def cost_def or_else_def split: option.splits)

lemma cost_settle_row: "task_row_ok t \<Longrightarrow> \<not> ct_budget_settled t \<Longrightarrow> cost k (settle_row u artifact now t) = charged (usage_of k u) (share_of k t)"
  by (auto simp: task_row_ok_def cost_def or_else_def charged_def split: option.splits)

lemma settle_ok:
  assumes ok: "child_store_ok s"
  shows "child_store_ok (snd (settle_child_task_with_usage parent child u artifact now s))"
proof -
  have "child_store_ok s'" if settle: "settle_child_task_tx parent child u artifact now s = Inr (r, s')" for r s'
  proof (cases "s' = s")
    case False
    with settle obtain t where t: "find (is_task child parent) (child_tasks s) = Some t" "\<not> ct_budget_settled t" and
      budgets: "child_budgets s' = update_where (\<lambda>b. cb_parent_run_id b = parent) (release_share u t now) (child_budgets s)" and
      tasks: "child_tasks s' = update_where (is_task child parent) (settle_row u artifact now) (child_tasks s)"
      unfolding settle_child_task_tx_def Let_def by (auto split: option.splits if_splits)
    from t(1) have mem: "t \<in> set (child_tasks s)" and ids: "ct_child_run_id t = child" "ct_parent_run_id t = parent"
      by (auto dest: find_SomeD)
    have rows: "list_all task_row_ok (child_tasks s)" and distinct: "distinct (map ct_child_run_id (child_tasks s))"
      using ok by (simp_all add: child_store_ok_def)
    have row: "task_row_ok t" using mem rows by (simp add: list_all_iff)
    have comm: "committed k p (child_tasks s') = committed k p (child_tasks s) +
        (if parent = p then charged (usage_of k u) (share_of k t) - cost k t else 0)" for k p
      using committed_update [OF distinct mem, of "settle_row u artifact now" k p] cost_settle_row [OF row t(2)]
      by (simp add: tasks ids)
    have "reserved_of k b' = committed k (cb_parent_run_id b') (child_tasks s')" if "b' \<in> set (child_budgets s')" for b' k
      using that unfolding budgets
    proof (cases rule: update_where_cases)
      case kept
      with ok comm show ?thesis by (simp add: child_store_ok_def)
    next
      case (changed b)
      have "cost k t = share_of k t" using row t(2) by (simp add: task_row_ok_def cost_def)
      moreover have "share_of k t \<le> reserved_of k b"
        using committed_ge [OF rows mem, of k] changed ok ids calculation by (simp add: child_store_ok_def)
      moreover have "0 \<le> charged (usage_of k u) (share_of k t)" using row by (auto simp: charged_def task_row_ok_def split: option.splits)
      ultimately show ?thesis using changed ok comm [of k parent] by (simp add: child_store_ok_def)
    qed
    moreover have "list_all task_row_ok (child_tasks s')"
      using rows unfolding tasks list_all_iff by (auto simp: set_update_where settle_task_ok)
    moreover have "map ct_child_run_id (child_tasks s') = map ct_child_run_id (child_tasks s)"
      "ct_parent_run_id ` set (child_tasks s') = ct_parent_run_id ` set (child_tasks s)"
      unfolding tasks by (simp_all add: update_where_keys)
    ultimately show ?thesis using ok unfolding child_store_ok_def by (simp add: budgets update_where_keys)
  qed (use ok in simp)
  then have "child_store_ok (snd (transaction (settle_child_task_tx parent child u artifact now) s))"
    by (rule transaction_invariant [where P = child_store_ok, OF ok])
  with ok show ?thesis unfolding settle_child_task_with_usage_def by (auto split: prod.splits sum.splits)
qed

section \<open>The dependency graph\<close>

definition stored_graph :: "deps_json \<Rightarrow> string \<Rightarrow> child_task_row list \<Rightarrow> dep_graph" where
  "stored_graph dj parent ts = map (\<lambda>t. (ct_child_run_id t, the (deps_from_str dj (ct_dependencies_json t)))) (filter (of_parent parent) ts)"

definition child_graph_ok :: "deps_json \<Rightarrow> run_db \<Rightarrow> bool" where
  "child_graph_ok dj s \<longleftrightarrow> distinct (map ct_child_run_id (child_tasks s)) \<and>
     (\<forall>t \<in> set (child_tasks s). deps_from_str dj (ct_dependencies_json t) \<noteq> None) \<and>
     (\<forall>parent. acyclic (dep_rel (stored_graph dj parent (child_tasks s))) \<and>
        length (filter (of_parent parent) (child_tasks s)) \<le> MAX_CHILD_TASKS_PER_PARENT)"

lemma dep_rel_set:
  "distinct (map fst g) \<Longrightarrow> distinct (map fst h) \<Longrightarrow> set g = set h \<Longrightarrow> dep_rel g = dep_rel h"
  unfolding dep_rel_def has_key_def by (simp add: map_of_eq_Some_iff)

lemma distinct_stored_graph: "distinct (map ct_child_run_id ts) \<Longrightarrow> distinct (map fst (stored_graph dj parent ts))"
  by (simp add: stored_graph_def comp_def distinct_map_filter)

lemma decode_deps_ok:
  "deps_from_str dj (ct_dependencies_json t) \<noteq> None \<Longrightarrow> decode_deps dj t = Inr (ct_child_run_id t, the (deps_from_str dj (ct_dependencies_json t)))"
  by (auto simp: decode_deps_def)

lemma dependency_graph_ok:
  assumes "child_graph_ok dj s"
  shows "dependency_graph dj parent s = Inr (stored_graph dj parent (sort_key ct_child_run_id (child_tasks s)))"
proof -
  let ?ts = "filter (of_parent parent) (sort_key ct_child_run_id (child_tasks s))"
  have "length ?ts \<le> MAX_CHILD_TASKS_PER_PARENT" using assms by (simp add: child_graph_ok_def filter_sort_key)
  then have all: "take (MAX_CHILD_TASKS_PER_PARENT + 1) ?ts = ?ts" by simp
  have "map (decode_deps dj) ?ts = map Inr (stored_graph dj parent (sort_key ct_child_run_id (child_tasks s)))"
    using assms by (auto simp: stored_graph_def child_graph_ok_def decode_deps_ok)
  then show ?thesis unfolding dependency_graph_def filter_sort_key [symmetric] all by simp
qed

lemma sorted_graph:
  assumes "child_graph_ok dj s"
  shows "distinct (map fst (stored_graph dj parent (sort_key ct_child_run_id (child_tasks s))))"
    "set (stored_graph dj parent (sort_key ct_child_run_id (child_tasks s))) = set (stored_graph dj parent (child_tasks s))"
proof -
  have "distinct (map ct_child_run_id (sort_key ct_child_run_id (child_tasks s)))"
    using assms by (simp add: child_graph_ok_def distinct_map)
  then show "distinct (map fst (stored_graph dj parent (sort_key ct_child_run_id (child_tasks s))))" by (rule distinct_stored_graph)
qed (simp add: stored_graph_def)

lemma distinct_graph_insert: "distinct (map fst g) \<Longrightarrow> distinct (map fst (graph_insert k ds g))"
  by (auto simp: graph_insert_def distinct_map_filter)

text \<open>Adding a task whose insertion into the graph passed the check.\<close>

lemma add_task_graph_ok:
  assumes ok: "child_graph_ok dj s" and codec: "deps_from_str dj (ct_dependencies_json t) = Some ds"
    and fresh: "ct_child_run_id t \<notin> ct_child_run_id ` set (child_tasks s)"
    and room: "length (filter (of_parent (ct_parent_run_id t)) (child_tasks s)) < MAX_CHILD_TASKS_PER_PARENT"
    and check: "child_dependency_cycle (graph_insert (ct_child_run_id t) ds
        (stored_graph dj (ct_parent_run_id t) (sort_key ct_child_run_id (child_tasks s)))) = None"
    and tasks: "child_tasks s' = child_tasks s @ [t]"
  shows "child_graph_ok dj s'"
proof -
  let ?p = "ct_parent_run_id t"
  let ?g = "stored_graph dj ?p (sort_key ct_child_run_id (child_tasks s))"
  have distinct: "distinct (map ct_child_run_id (child_tasks s @ [t]))" using ok fresh by (simp add: child_graph_ok_def)
  have keys: "ct_child_run_id t \<notin> fst ` set ?g" using fresh by (auto simp: stored_graph_def)
  then have "filter (\<lambda>e. fst e \<noteq> ct_child_run_id t) ?g = ?g" by (intro filter_True) force
  then have "set (graph_insert (ct_child_run_id t) ds ?g) = set (stored_graph dj ?p (child_tasks s @ [t]))"
    using codec sorted_graph(2) [OF ok, of ?p] by (simp add: graph_insert_def stored_graph_def)
  then have "dep_rel (graph_insert (ct_child_run_id t) ds ?g) = dep_rel (stored_graph dj ?p (child_tasks s @ [t]))"
    by (intro dep_rel_set distinct_graph_insert sorted_graph(1) [OF ok] distinct_stored_graph distinct)
  moreover have "acyclic (dep_rel (graph_insert (ct_child_run_id t) ds ?g))"
    using child_dependency_cycle_cases [of "graph_insert (ct_child_run_id t) ds ?g"] check by simp
  moreover have "stored_graph dj parent (child_tasks s @ [t]) = stored_graph dj parent (child_tasks s)" if "parent \<noteq> ?p" for parent
    using that by (simp add: stored_graph_def)
  ultimately have "acyclic (dep_rel (stored_graph dj parent (child_tasks s @ [t])))" for parent
    using ok by (cases "parent = ?p") (simp_all add: child_graph_ok_def)
  with ok codec distinct room show ?thesis unfolding child_graph_ok_def tasks by auto
qed

lemma reserve_graph_ok:
  assumes ok: "child_graph_ok dj s" and codec: "deps_from_str dj (deps_to_string dj ds) = Some ds"
  shows "child_graph_ok dj (snd (reserve_child_task_with_budgets js dj parent child task hash trust tb ab ds now s))"
proof -
  define t where "t = fresh_child_task parent child (json_to_string js task) hash (json_to_string js trust) tb (deps_to_string dj ds) now"
  let ?g = "stored_graph dj parent (sort_key ct_child_run_id (child_tasks s))"
  have t: "ct_child_run_id t = child" "ct_parent_run_id t = parent" "deps_from_str dj (ct_dependencies_json t) = Some ds"
    using codec by (simp_all add: t_def)
  have "child_graph_ok dj (snd (transaction (reserve_child_task_tx dj t ab ds now) s))"
  proof (rule transaction_invariant [where P = "child_graph_ok dj", OF ok])
    fix r s' assume r: "reserve_child_task_tx dj t ab ds now s = Inr (r, s')"
    then have room: "length ?g < MAX_CHILD_TASKS_PER_PARENT" and check: "child_dependency_cycle (graph_insert child ds ?g) = None"
      and share: "reserve_share t ab now s = Inr (r, s')"
      unfolding reserve_child_task_tx_def by (auto simp: t dependency_graph_ok [OF ok] split: sum.splits if_splits option.splits)
    from share have "child_tasks s' = child_tasks s \<or> find_child_task child s = None \<and> child_tasks s' = child_tasks s @ [t]"
      unfolding reserve_share_def Let_def by (auto simp: t find_child_task_def split: option.splits if_splits)
    then show "child_graph_ok dj s'"
    proof
      assume "find_child_task child s = None \<and> child_tasks s' = child_tasks s @ [t]"
      then show ?thesis
        using room check by (intro add_task_graph_ok [OF ok t(3)]) (simp_all add: t find_child_task_None stored_graph_def filter_sort_key)
    qed (use ok in \<open>simp add: child_graph_ok_def\<close>)
  qed
  with ok show ?thesis
    unfolding reserve_child_task_with_budgets_def Let_def t_def [symmetric] by (auto split: prod.splits sum.splits)
qed

lemma settle_graph_ok:
  assumes ok: "child_graph_ok dj s"
  shows "child_graph_ok dj (snd (settle_child_task_with_usage parent child u artifact now s))"
proof -
  have same: "child_graph_ok dj s'" if "child_tasks s' = update_where p (settle_row u artifact now) (child_tasks s)" for s' p
  proof -
    have "filter (of_parent q) (update_where p (settle_row u artifact now) (child_tasks s)) =
        update_where p (settle_row u artifact now) (filter (of_parent q) (child_tasks s))" for q
      by (rule filter_update_where) simp
    then have "stored_graph dj q (child_tasks s') = stored_graph dj q (child_tasks s)"
      "length (filter (of_parent q) (child_tasks s')) = length (filter (of_parent q) (child_tasks s))" for q
      by (simp_all add: that stored_graph_def update_where_def)
    with ok that show ?thesis by (simp add: child_graph_ok_def update_where_keys) (auto simp: set_update_where)
  qed
  have "child_graph_ok dj (snd (transaction (settle_child_task_tx parent child u artifact now) s))"
  proof (rule transaction_invariant [where P = "child_graph_ok dj", OF ok])
    fix r s' assume "settle_child_task_tx parent child u artifact now s = Inr (r, s')"
    then have "s' = s \<or> (\<exists>p. child_tasks s' = update_where p (settle_row u artifact now) (child_tasks s))"
      unfolding settle_child_task_tx_def Let_def by (auto split: option.splits if_splits)
    with ok same show "child_graph_ok dj s'" by auto
  qed
  with ok show ?thesis unfolding settle_child_task_with_usage_def by (auto split: prod.splits sum.splits)
qed

section \<open>The other operations of the store\<close>

text \<open>The operations on runs and steps leave the two tables alone.\<close>

definition child_rows :: "run_db \<Rightarrow> child_budget_row list \<times> child_task_row list" where
  "child_rows s = (child_budgets s, child_tasks s)"

lemma child_rows_simps [simp]:
  "child_rows (update_runs p f s) = child_rows s" "child_rows (update_steps q g s) = child_rows s"
  "child_rows (set_run_status rid st now s) = child_rows s" "child_rows (update_budgets pb fb s) = child_rows s"
  "child_rows (close_steps C out at s) = child_rows s" "child_rows (append_run r s) = child_rows s"
  "child_rows (s\<lparr>label_events := ls\<rparr>) = child_rows s" "child_rows (s\<lparr>core := db\<rparr>) = child_rows s"
  "child_rows (s\<lparr>run_steps := rs\<rparr>) = child_rows s" "child_rows (s\<lparr>effect_claims := ec\<rparr>) = child_rows s"
  "child_rows (s\<lparr>exec_budgets := eb\<rparr>) = child_rows s" "child_rows (s\<lparr>inference_attempts := ia\<rparr>) = child_rows s"
  by (simp_all add: child_rows_def set_run_status_def update_budgets_def close_steps_def append_run_def)

lemma child_rows_transaction: "(\<And>a s'. f s = Inr (a, s') \<Longrightarrow> child_rows s' = child_rows s) \<Longrightarrow> child_rows (snd (transaction f s)) = child_rows s"
  by (rule transaction_invariant [where P = "\<lambda>s'. child_rows s' = child_rows s"]) auto

lemma child_rows_step_transition [simp]: "child_rows (snd (step_transition rid sid op p f st now s)) = child_rows s"
  by (simp add: step_transition_def Let_def)

lemma child_rows_observe: "child_rows (snd (observe_execution_budget_at_second rid now s)) = child_rows s"
  unfolding observe_execution_budget_at_second_def by (rule child_rows_transaction) (auto split: option.splits if_splits)

lemma child_rows_budget_at: "child_rows (snd (execution_budget_at rid now s)) = child_rows s"
  unfolding execution_budget_at_def
  by (rule child_rows_transaction) (auto simp: execution_budget_at_tx_def Let_def split: option.splits if_splits sum.splits)

lemma child_rows_steps:
  "child_rows (snd (claim_step rid sid owner now expires s)) = child_rows s"
  "child_rows (snd (finish_step rid sid owner st out at s)) = child_rows s"
  "child_rows (snd (wait_step rid sid owner approval at s)) = child_rows s"
  "child_rows (snd (resume_waiting_step rid sid approval at s)) = child_rows s"
  using child_rows_observe [of rid now s]
  by (auto simp: claim_step_def finish_step_def wait_step_def resume_waiting_step_def split: prod.splits sum.splits)

lemma child_rows_create: "child_rows (snd (create_run_with_id lj sha uuid rid n s)) = child_rows s"
proof -
  have tx: "child_rows (snd (transaction (create_run_tx rid n) s)) = child_rows s"
    by (rule child_rows_transaction)
      (auto simp: create_run_tx_def insert_run_or_ignore_def split: option.splits sum.splits if_splits)
  have label: "child_rows s2 = child_rows s1" if "observe_run_label lj sha uuid rid n s1 = (r, s2)" for r s1 s2
    using that by (auto simp: observe_run_label_def Let_def split: prod.splits sum.splits option.splits)
  from tx show ?thesis unfolding create_run_with_id_def
    by (cases "transaction (create_run_tx rid n) s") (auto split: prod.split sum.split dest: label)
qed

lemma child_rows_add_step: "child_rows (snd (add_step rid n s)) = child_rows s"
proof -
  have "child_rows s' = child_rows s" if "add_step_tx rid n s = Inr (r, s')" for r s'
    using that by (auto simp: add_step_tx_def Let_def insert_step_or_ignore_def split: option.splits if_splits sum.splits)
  then show ?thesis unfolding add_step_def by (auto split: sum.splits prod.splits option.splits)
qed

lemma child_rows_enqueue: "child_rows (snd (enqueue_outbox_and_complete_step rid sid owner row out at s)) = child_rows s"
proof -
  have "child_rows (snd (transaction (enqueue_tx rid sid owner row out at) s)) = child_rows s"
    by (rule child_rows_transaction) (auto simp: enqueue_tx_def Let_def split: option.splits if_splits)
  then show ?thesis unfolding enqueue_outbox_and_complete_step_def by (auto split: prod.splits sum.splits)
qed

lemma child_rows_cursor [simp]:
  "child_rows (snd (advance_cursor rid expected at s)) = child_rows s"
  "child_rows (snd (complete_run rid expected at s)) = child_rows s"
  "child_rows (snd (cancel_run rid at s)) = child_rows s"
  "child_rows (snd (fail_run rid at s)) = child_rows s"
  by (simp_all add: advance_cursor_def complete_run_def cancel_run_def fail_run_def Let_def split: option.split)

lemma child_rows_expired: "child_rows (snd (fail_run_if_budget_expired rid now s)) = child_rows s"
  using child_rows_budget_at [of rid now s] unfolding fail_run_if_budget_expired_def Let_def by (auto split: prod.splits sum.splits)

lemma child_rows_recover_run: "child_rows (snd (recover_run now budget run action s)) = child_rows s"
proof (induction now budget run action s rule: recover_run.induct)
  case (2 now budget run action s)
  have adv: "child_rows s1 = child_rows s" if "advance_cursor (run_id run) (run_cursor run) now s = (r, s1)" for r s1
    using child_rows_cursor(1) [of "run_id run" "run_cursor run" now s] that by simp
  have comp: "child_rows s1 = child_rows s" if "complete_run (run_id run) c now s = (r, s1)" for c r s1
    using child_rows_cursor(2) [of "run_id run" c now s] that by simp
  show ?case
  proof (cases action)
    case (AdvanceCursor st)
    show ?thesis
    proof (cases "advance_cursor (run_id run) (run_cursor run) now s")
      case (Pair r s1)
      show ?thesis
      proof (cases r)
        case (Inr run1)
        show ?thesis
        proof (cases "next_safe_action (run_id run1) now s1")
          case n: (Inr action1)
          from 2 [OF AdvanceCursor Pair [symmetric] Inr refl n] Pair Inr n AdvanceCursor adv show ?thesis
            by (auto split: prod.splits sum.splits)
        qed (use Pair Inr AdvanceCursor adv in simp)
      qed (use Pair AdvanceCursor adv in simp)
    qed
  next
    case (CompleteRun c)
    then show ?thesis by (auto split: prod.splits sum.splits dest: comp)
  qed simp_all
qed simp

lemma child_rows_recover: "child_rows (snd (recover_completed_transitions now n m s)) = child_rows s"
proof -
  have "child_rows (snd (recover_runs now budget cs s)) = child_rows s" for budget cs s
  proof (induction now budget cs s rule: recover_runs.induct)
    case (2 now budget run action rest s)
    show ?case
    proof (cases "recover_run now budget run action s")
      case (Pair r s1)
      with child_rows_recover_run [of now budget run action s] have s1: "child_rows s1 = child_rows s" by simp
      show ?thesis
      proof (cases r)
        case (Inr q)
        obtain ts stop where q: "q = (ts, stop)" by (cases q)
        show ?thesis
        proof (cases stop)
          case False
          with 2 [of r s1 q ts stop] Pair Inr q s1 show ?thesis by (auto split: prod.splits sum.splits)
        qed (use Pair Inr q s1 in simp)
      qed (use Pair s1 in simp)
    qed
  qed simp
  then show ?thesis unfolding recover_completed_transitions_def by (auto split: sum.split)
qed

lemma child_rows_budgets:
  "child_rows (snd (ensure_execution_budget rid t r e now s)) = child_rows s"
  "child_rows (snd (consume_execution_retry rid now s)) = child_rows s"
  "child_rows (snd (claim_execution_effect rid sid now s)) = child_rows s"
  "child_rows (snd (claim_run_effect rid sid now s)) = child_rows s"
proof -
  have charge: "child_rows (snd (charge_effect p rid sid now s)) = child_rows s" for p s
    by (simp add: charge_effect_def Let_def)
  then have charged: "charge_effect p rid sid now s = (b, s1) \<Longrightarrow> child_rows s1 = child_rows s" for p b s1 by (metis snd_conv)
  show "child_rows (snd (claim_run_effect rid sid now s)) = child_rows s" by (simp add: claim_run_effect_def charge)
  show "child_rows (snd (consume_execution_retry rid now s)) = child_rows s" by (simp add: consume_execution_retry_def Let_def)
  show "child_rows (snd (ensure_execution_budget rid t r e now s)) = child_rows s"
    by (auto simp: ensure_execution_budget_def Let_def insert_budget_def split: sum.splits option.splits if_splits)
  show "child_rows (snd (claim_execution_effect rid sid now s)) = child_rows s"
    unfolding claim_execution_effect_def
  proof (rule child_rows_transaction)
    fix a s' assume "claim_execution_effect_tx rid sid now s = Inr (a, s')"
    then show "child_rows s' = child_rows s"
      unfolding claim_execution_effect_tx_def by (auto split: sum.splits if_splits dest: charged)
  qed
qed

lemma child_rows_attempts:
  "child_rows (snd (start_inference_attempt rid sid owner at s)) = child_rows s"
  "child_rows (snd (finish_inference_attempt rid sid k ok err at s)) = child_rows s"
  "child_rows (snd (mark_inference_attempt_retrying rid sid k cls at s)) = child_rows s"
proof -
  show "child_rows (snd (start_inference_attempt rid sid owner at s)) = child_rows s"
    unfolding start_inference_attempt_def by (rule child_rows_transaction) (auto simp: Let_def split: if_splits)
qed (simp_all add: finish_inference_attempt_def mark_inference_attempt_retrying_def update_attempt_def Let_def)

lemma child_rows_run_step: "child_rows (store_step s a) = child_rows s"
  by (cases a) (simp_all add: child_rows_steps complete_step_def fail_step_def child_rows_budget_at child_rows_create child_rows_add_step child_rows_enqueue
      child_rows_expired child_rows_recover child_rows_budgets child_rows_attempts)

section \<open>The machine\<close>

datatype 'j child_action =
    Reserve "'j json" string string 'j string 'j ChildExecutionBudget ChildExecutionBudget "string list" int
  | Settle string string child_usage "string option" int
  | OnRun run_action

fun child_step :: "deps_json \<Rightarrow> run_db \<Rightarrow> 'j child_action \<Rightarrow> run_db" where
  "child_step dj s (Reserve js parent child task hash trust tb ab ds now) =
     snd (reserve_child_task_with_budgets js dj parent child task hash trust tb ab ds now s)"
| "child_step dj s (Settle parent child u artifact now) = snd (settle_child_task_with_usage parent child u artifact now s)"
| "child_step dj s (OnRun a) = store_step s a"

definition deps_codec :: "deps_json \<Rightarrow> bool" where
  "deps_codec dj \<longleftrightarrow> (\<forall>ds. deps_from_str dj (deps_to_string dj ds) = Some ds)"

lemma child_tables_run_step [simp]: "child_budgets (store_step s a) = child_budgets s" "child_tasks (store_step s a) = child_tasks s"
  using child_rows_run_step [of s a] by (simp_all add: child_rows_def)

interpretation child_accounting: invariant_machine "child_step dj" child_store_ok for dj
proof
  show "child_store_ok s \<Longrightarrow> child_store_ok (child_step dj s a)" for s and a :: "'b child_action"
    by (cases a) (simp_all add: reserve_ok settle_ok, simp add: child_store_ok_def)
qed

interpretation child_graph: invariant_machine "child_step dj" "\<lambda>s. deps_codec dj \<longrightarrow> child_graph_ok dj s" for dj
proof
  show "deps_codec dj \<longrightarrow> child_graph_ok dj s \<Longrightarrow> deps_codec dj \<longrightarrow> child_graph_ok dj (child_step dj s a)" for s and a :: "'b child_action"
    by (cases a) (auto simp: reserve_graph_ok settle_graph_ok deps_codec_def, simp add: child_graph_ok_def)
qed

section \<open>Replays\<close>

lemma reserve_facts:
  assumes "reserve_child_task_with_budgets js dj parent child task hash trust tb ab ds now s = (Inr r, s')"
  shows "budgets_fit tb ab" "dependencies_ok ds" "length (json_to_string js task) \<le> 64 * 1024" "length (json_to_string js trust) \<le> 8 * 1024"
    "length hash = 64" "int (ce_time_ms tb) \<le> i64_max" "int (ce_time_ms ab) \<le> i64_max"
    "reserve_child_task_tx dj (fresh_child_task parent child (json_to_string js task) hash (json_to_string js trust) tb (deps_to_string dj ds) now)
       ab ds now s = Inr (r, s')"
  using assms unfolding reserve_child_task_with_budgets_def Let_def
  by (auto split: if_splits prod.splits sum.splits simp: transaction_Inr_iff not_less)

lemma reserve_by_facts:
  assumes "budgets_fit tb ab" "dependencies_ok ds" "length (json_to_string js task) \<le> 64 * 1024" "length (json_to_string js trust) \<le> 8 * 1024"
    "length hash = 64" "int (ce_time_ms tb) \<le> i64_max" "int (ce_time_ms ab) \<le> i64_max"
  shows "reserve_child_task_with_budgets js dj parent child task hash trust tb ab ds now s =
    (case transaction (reserve_child_task_tx dj (fresh_child_task parent child (json_to_string js task) hash (json_to_string js trust) tb
       (deps_to_string dj ds) now) ab ds now) s of (Inl e, s1) \<Rightarrow> (Inl (RunDb e), s1) | (Inr r, s1) \<Rightarrow> (Inr r, s1))"
  using assms unfolding reserve_child_task_with_budgets_def Let_def by simp

lemma reserve_tx_facts:
  assumes "reserve_child_task_tx dj t ab ds now s = Inr (True, s')"
  shows "run_exists (ct_parent_run_id t) s" "child_parent (ct_child_run_id t) s = Inr (Some (ct_parent_run_id t))"
    "reserve_share t ab now s = Inr (True, s')"
  using assms unfolding reserve_child_task_tx_def by (auto split: sum.splits if_splits option.splits)

lemma reserve_share_facts:
  assumes "reserve_share t ab now s = Inr (True, s')"
  shows "\<exists>b. find_child_budget (ct_parent_run_id t) s' = Some (charge_share t now b) \<and> list_all in_u32 (budget_columns b) \<and>
      cb_token_limit b = int (ce_tokens ab) \<and> cb_time_limit_ms b = int (ce_time_ms ab) \<and> cb_retry_limit b = int (ce_retries ab) \<and>
      cb_effect_limit b = int (ce_effects ab) \<and> \<not> share_exceeds b t"
    and "child_tasks s' = child_tasks s @ [t]" "core s' = core s" "ct_child_run_id t \<notin> ct_child_run_id ` set (child_tasks s)"
proof -
  let ?s1 = "insert_child_budget_or_ignore (fresh_child_budget (ct_parent_run_id t) ab now) s"
  from assms obtain b where b: "find_child_budget (ct_parent_run_id t) ?s1 = Some b" "list_all in_u32 (budget_columns b)"
    "cb_token_limit b = int (ce_tokens ab)" "cb_time_limit_ms b = int (ce_time_ms ab)" "cb_retry_limit b = int (ce_retries ab)"
    "cb_effect_limit b = int (ce_effects ab)" "\<not> share_exceeds b t" "find_child_task (ct_child_run_id t) ?s1 = None"
    "s' = update_child_budgets (ct_parent_run_id t) (charge_share t now) (?s1\<lparr>child_tasks := child_tasks ?s1 @ [t]\<rparr>)"
    unfolding reserve_share_def Let_def by (auto split: option.splits if_splits)
  have "find_child_budget (ct_parent_run_id t) s' = Some (charge_share t now b)"
    using b(1) find_child_budget_Some [OF b(1)] unfolding b(9) find_child_budget_def
    by (simp add: find_update_where_key [of _ cb_parent_run_id])
  with b(2-7) show "\<exists>b. find_child_budget (ct_parent_run_id t) s' = Some (charge_share t now b) \<and> list_all in_u32 (budget_columns b) \<and>
      cb_token_limit b = int (ce_tokens ab) \<and> cb_time_limit_ms b = int (ce_time_ms ab) \<and> cb_retry_limit b = int (ce_retries ab) \<and>
      cb_effect_limit b = int (ce_effects ab) \<and> \<not> share_exceeds b t" by blast
qed (use assms in \<open>auto simp: reserve_share_def Let_def find_child_task_None [symmetric] find_child_task_def split: option.splits if_splits\<close>)

lemma share_in_u32: "budgets_fit tb ab \<Longrightarrow> in_u32 (int (ce_tokens ab)) \<Longrightarrow> in_u32 (int (ce_retries ab)) \<Longrightarrow> in_u32 (int (ce_effects ab)) \<Longrightarrow>
   list_all in_u32 (task_columns (fresh_child_task parent child tj h tr tb dj now))"
  by (auto simp: budgets_fit_def in_u32_def task_columns_def fresh_child_task_def)

text \<open>A stored task is in the graph already: checking it once more finds the graph as it is.\<close>

lemma stored_task_check:
  assumes ok: "child_graph_ok dj s" and t: "t \<in> set (child_tasks s)" "deps_from_str dj (ct_dependencies_json t) = Some ds"
  shows "child_dependency_cycle (graph_insert (ct_child_run_id t) ds
    (stored_graph dj (ct_parent_run_id t) (sort_key ct_child_run_id (child_tasks s)))) = None"
proof -
  let ?g = "stored_graph dj (ct_parent_run_id t) (sort_key ct_child_run_id (child_tasks s))"
  have d: "distinct (map fst ?g)" by (rule sorted_graph(1) [OF ok])
  have "(ct_child_run_id t, ds) \<in> set ?g" using t by (force simp: stored_graph_def)
  with d have "set (graph_insert (ct_child_run_id t) ds ?g) = set ?g"
    by (auto simp: graph_insert_def dest: eq_key_imp_eq_value)
  then have "dep_rel (graph_insert (ct_child_run_id t) ds ?g) = dep_rel (stored_graph dj (ct_parent_run_id t) (child_tasks s))"
    using sorted_graph(2) [OF ok] ok
    by (intro dep_rel_set [OF distinct_graph_insert [OF d] distinct_stored_graph]) (simp_all add: child_graph_ok_def)
  moreover have "acyclic (dep_rel (stored_graph dj (ct_parent_run_id t) (child_tasks s)))" using ok by (simp add: child_graph_ok_def)
  ultimately show ?thesis
    using child_dependency_cycle_cases [of "graph_insert (ct_child_run_id t) ds ?g"] by (auto split: option.splits dest: cycle_not_acyclic)
qed

end
