(* ===== verification/Child_Properties.thy ===== *)
theory Child_Properties
  imports Child_Machine
begin

text \<open>
  What the contracts of child tasks promise their parent: its budget is accounted for, a reservation fits the limits, the
  dependencies stay acyclic, and a replay changes nothing.
\<close>

section \<open>A parent with a child\<close>

definition sample_run :: "string \<Rightarrow> string option \<Rightarrow> run_row" where
  "sample_run rid parent = \<lparr>rn_run_id = rid, rn_conversation_id = ''c'', rn_parent_run_id = parent, rn_status = ''running'', rn_cursor = 0,
     rn_input_event_seq = 1, rn_started_at = 0, rn_updated_at = 0, rn_deadline_at = None\<rparr>"

definition sample_parents :: run_db where
  "sample_parents = empty_run_db\<lparr>core := empty_database\<lparr>state_runs := [sample_run ''p'' None, sample_run ''a'' (Some ''p'')]\<rparr>\<rparr>"

definition child_json_value :: "string json" where
  "child_json_value = \<lparr>json_from_str = Some, json_null = ''null'', json_to_string = (\<lambda>j. j), json_array_to_string = concat\<rparr>"

text \<open>A codec of string lists: each string with its length in unary.\<close>

fun enc_list :: "string list \<Rightarrow> string" where
  "enc_list [] = []"
| "enc_list (x # xs) = CHR ''l'' # replicate (length x) CHR ''n'' @ CHR '':'' # x @ enc_list xs"

fun dec_list :: "nat \<Rightarrow> string \<Rightarrow> string list option" where
  "dec_list 0 s = (if s = [] then Some [] else None)"
| "dec_list (Suc k) [] = Some []"
| "dec_list (Suc k) (c # s) = (let n = length (takeWhile (\<lambda>c. c = CHR ''n'') s); r = drop (Suc n) s in
     map_option ((#) (take n r)) (dec_list k (drop n r)))"

definition sample_deps :: deps_json where
  "sample_deps = \<lparr>deps_to_string = enc_list, deps_from_str = (\<lambda>s. dec_list (length s) s)\<rparr>"

lemma dec_enc_list: "length (enc_list ds) \<le> k \<Longrightarrow> dec_list k (enc_list ds) = Some ds"
proof (induction ds arbitrary: k)
  case Nil
  then show ?case by (cases k) simp_all
next
  case (Cons x xs)
  then obtain k' where k: "k = Suc k'" by (cases k) simp_all
  have "takeWhile (\<lambda>c. c = CHR ''n'') (replicate (length x) CHR ''n'' @ CHR '':'' # x @ enc_list xs) = replicate (length x) CHR ''n''"
    by (simp add: takeWhile_append)
  moreover have "dec_list k' (enc_list xs) = Some xs" using Cons k by simp
  ultimately show ?case by (simp add: k Let_def)
qed

lemma sample_deps_codec: "deps_codec sample_deps"
  by (simp add: deps_codec_def sample_deps_def dec_enc_list)

definition small_share :: ChildExecutionBudget where
  "small_share = \<lparr>ce_tokens = 10, ce_time_ms = 20, ce_retries = 1, ce_effects = 0\<rparr>"

definition small_total :: ChildExecutionBudget where
  "small_total = \<lparr>ce_tokens = 15, ce_time_ms = 60, ce_retries = 2, ce_effects = 0\<rparr>"

definition child_hash :: string where
  "child_hash = replicate 64 CHR ''0''"

definition reserve_sample :: "int \<Rightarrow> run_db \<Rightarrow> (RunStoreError + bool) \<times> run_db" where
  "reserve_sample now = reserve_child_task_with_budgets child_json_value sample_deps ''p'' ''a'' ''t'' child_hash ''u'' small_share small_total [''b''] now"

lemma reserve_sample_tx:
  "reserve_child_task_with_budgets child_json_value sample_deps ''p'' ''a'' ''t'' child_hash ''u'' small_share small_total [''b''] now s =
   (case transaction (reserve_child_task_tx sample_deps (fresh_child_task ''p'' ''a'' ''t'' child_hash ''u'' small_share
      (enc_list [''b'']) now) small_total [''b''] now) s of (Inl e, s1) \<Rightarrow> (Inl (RunDb e), s1) | (Inr r, s1) \<Rightarrow> (Inr r, s1))"
  by (subst reserve_by_facts)
    (simp_all add: budgets_fit_def small_share_def small_total_def dependencies_ok_def child_json_value_def child_hash_def i64_max_def sample_deps_def)

lemma sample_parents_tables: "child_rows sample_parents = ([], [])"
  by (simp add: child_rows_def sample_parents_def empty_run_db_def)

lemma empty_child_tables: "child_rows s = ([], []) \<Longrightarrow> child_store_ok s" "child_rows s = ([], []) \<Longrightarrow> child_graph_ok dj s"
  by (simp_all add: child_rows_def child_store_ok_def child_graph_ok_def stored_graph_def dep_rel_def acyclic_def)

section \<open>Properties\<close>

text \<open>
  C17: From empty child tables, whatever reservations, settlements and operations on runs follow and in whatever order, the reserved
  column of each of the four resources of a parent is the sum over its child tasks of what was measured, and of the full share of every
  task whose use is unknown: settling twice, replaying a reservation or failing halfway neither loses nor creates capacity.
\<close>

theorem child_budget_accounting:
  assumes "child_rows s = ([], [])" "s' = foldl (child_step dj) s actions" "b \<in> set (child_budgets s')"
  shows "reserved_of k b = committed k (cb_parent_run_id b) (child_tasks s')"
  using child_accounting.run_inv [OF empty_child_tables(1) [OF assms(1)], of dj actions] assms(2,3) by (simp add: child_store_ok_def)

theorem child_budget_accounting_witness:
  "\<exists>b. child_budgets (foldl (child_step sample_deps) sample_parents
       [Reserve child_json_value ''p'' ''a'' ''t'' child_hash ''u'' small_share small_total [''b''] 5, OnRun (CancelRun ''a'' 6),
        Settle ''p'' ''a'' \<lparr>u_tokens = Some 12, u_time_ms = None, u_retries = Some 0, u_effects = None\<rparr> None 7]) = [b] \<and>
     reserved_of Tokens b = 12 \<and> reserved_of TimeMs b = 20 \<and> reserved_of Retries b = 0"
proof -
  define acts where "acts = [Reserve child_json_value ''p'' ''a'' ''t'' child_hash ''u'' small_share small_total [''b''] 5, OnRun (CancelRun ''a'' 6),
    Settle ''p'' ''a'' \<lparr>u_tokens = Some 12, u_time_ms = None, u_retries = Some 0, u_effects = None\<rparr> None 7]"
  define s' where "s' = foldl (child_step sample_deps) sample_parents acts"
  have "length (child_budgets s') = 1 \<and> map cb_parent_run_id (child_budgets s') = [''p''] \<and> committed Tokens ''p'' (child_tasks s') = 12 \<and>
      committed TimeMs ''p'' (child_tasks s') = 20 \<and> committed Retries ''p'' (child_tasks s') = 0"
    unfolding s'_def acts_def foldl.simps child_step.simps reserve_sample_tx by code_simp
  moreover from this obtain b where b: "child_budgets s' = [b]" by (cases "child_budgets s'") auto
  moreover have acc: "reserved_of k b = committed k (cb_parent_run_id b) (child_tasks s')" for k
    using b by (intro child_budget_accounting [OF sample_parents_tables s'_def]) simp
  ultimately have "child_budgets s' = [b] \<and> reserved_of Tokens b = 12 \<and> reserved_of TimeMs b = 20 \<and> reserved_of Retries b = 0" unfolding acc by simp
  then show ?thesis unfolding s'_def acts_def by blast
qed

text \<open>
  A reservation that succeeds fits: afterwards, for each resource, what the parent's child tasks have used or hold together stays
  within the aggregate limit. The limit is below the maximum of its type, at which the saturating sum of the check stops comparing.
\<close>

theorem child_reservation_fits:
  assumes "child_store_ok s" "reserve_child_task_with_budgets js dj parent child task hash trust tb ab ds now s = (Inr True, s')"
    "find_child_budget parent s' = Some b" "limit_of k b < (if k = TimeMs then i64_max else 2 ^ 32 - 1)"
  shows "committed k parent (child_tasks s') \<le> limit_of k b"
proof -
  define t where "t = fresh_child_task parent child (json_to_string js task) hash (json_to_string js trust) tb (deps_to_string dj ds) now"
  have "ct_parent_run_id t = parent" by (simp add: t_def)
  with reserve_share_facts(1) [OF reserve_tx_facts(3) [OF reserve_facts(8) [OF assms(2), folded t_def]]] obtain b0 where
    b0: "find_child_budget parent s' = Some (charge_share t now b0)" "\<not> share_exceeds b0 t" by auto
  from b0(1) assms(3) have b: "b = charge_share t now b0" by simp
  have "reserved_of k b = committed k parent (child_tasks s')"
    using reserve_ok [OF assms(1), of js dj parent child task hash trust tb ab ds now] assms(2) find_child_budget_Some [OF assms(3)]
    by (simp add: child_store_ok_def)
  moreover have "reserved_of k b \<le> limit_of k b"
    using b0(2) assms(4) unfolding b
    by (cases k) (simp_all add: share_exceeds_def saturating_add_u32_def saturating_add_i64_def not_less charge_share_def
        i64_max_def min_le_iff_disj)
  ultimately show ?thesis by simp
qed

theorem child_reservation_fits_witness:
  "\<exists>s' b. reserve_sample 5 sample_parents = (Inr True, s') \<and> find_child_budget ''p'' s' = Some b \<and> limit_of Tokens b = 15 \<and>
     committed Tokens ''p'' (child_tasks s') \<le> 15"
proof -
  obtain r s' where rs: "reserve_sample 5 sample_parents = (r, s')" by (cases "reserve_sample 5 sample_parents")
  have "fst (reserve_sample 5 sample_parents) = Inr True \<and>
      map_option (limit_of Tokens) (find_child_budget ''p'' (snd (reserve_sample 5 sample_parents))) = Some 15"
    unfolding reserve_sample_def reserve_sample_tx by code_simp
  with rs obtain b where r: "r = Inr True" and b: "find_child_budget ''p'' s' = Some b" "limit_of Tokens b = 15" by auto
  have "committed Tokens ''p'' (child_tasks s') \<le> limit_of Tokens b"
    by (rule child_reservation_fits [OF empty_child_tables(1) [OF sample_parents_tables] rs [unfolded r reserve_sample_def] b(1)]) (use b(2) in simp)
  with rs r b show ?thesis by auto
qed

text \<open>
  C18: From empty child tables, whatever reservations, settlements and operations on runs follow, the dependencies among the tasks of
  one parent have no cycle, so there always is a task that waits for no other, and a parent never has more than 128 tasks.
\<close>

theorem child_dependencies_acyclic:
  assumes "deps_codec dj" "child_rows s = ([], [])" "s' = foldl (child_step dj) s actions"
  shows "acyclic (dep_rel (stored_graph dj parent (child_tasks s'))) \<and> length (filter (of_parent parent) (child_tasks s')) \<le> 128"
  using child_graph.run_inv [of dj s actions] assms empty_child_tables(2) [OF assms(2), of dj]
  by (simp add: child_graph_ok_def MAX_CHILD_TASKS_PER_PARENT_def)

theorem child_dependencies_acyclic_witness:
  "\<exists>s'. s' = foldl (child_step sample_deps) sample_parents
       [Reserve child_json_value ''p'' ''a'' ''t'' child_hash ''u'' small_share small_total [''b''] 5] \<and>
     map ct_child_run_id (child_tasks s') = [''a''] \<and> acyclic (dep_rel (stored_graph sample_deps ''p'' (child_tasks s')))"
proof -
  define s' where "s' = foldl (child_step sample_deps) sample_parents
    [Reserve child_json_value ''p'' ''a'' ''t'' child_hash ''u'' small_share small_total [''b''] 5]"
  have "map ct_child_run_id (child_tasks s') = [''a'']" unfolding s'_def foldl.simps child_step.simps reserve_sample_tx by code_simp
  with child_dependencies_acyclic [OF sample_deps_codec sample_parents_tables s'_def, of "''p''"] have
    "s' = foldl (child_step sample_deps) sample_parents
       [Reserve child_json_value ''p'' ''a'' ''t'' child_hash ''u'' small_share small_total [''b''] 5] \<and>
     map ct_child_run_id (child_tasks s') = [''a''] \<and> acyclic (dep_rel (stored_graph sample_deps ''p'' (child_tasks s')))"
    unfolding s'_def by blast
  then show ?thesis by (rule exI)
qed

text \<open>
  Repeating the reservation that just succeeded returns that nothing was new and changes nothing, unless the parent has reached
  its 128 tasks: then the replay of a task that is stored is refused with the limit error.
\<close>

theorem child_reservation_replay:
  assumes "child_graph_ok dj s" "deps_codec dj" "reserve_child_task_with_budgets js dj parent child task hash trust tb ab ds now s = (Inr True, s')"
    "find_child_budget parent s' = Some b" "list_all in_u32 (budget_columns b)"
  shows "reserve_child_task_with_budgets js dj parent child task hash trust tb ab ds now' s' =
    (if length (filter (of_parent parent) (child_tasks s')) < 128 then Inr False
     else Inl (RunDb (Invariant ''parent child-task limit (128) reached'')), s')"
proof -
  let ?t = "\<lambda>now. fresh_child_task parent child (json_to_string js task) hash (json_to_string js trust) tb (deps_to_string dj ds) now"
  note facts = reserve_facts [OF assms(3)]
  note tx = reserve_tx_facts [OF facts(8)]
  note share_facts = reserve_share_facts [OF tx(3)]
  from share_facts(1) assms(4) obtain b0 where b0: "b = charge_share (?t now) now b0" "list_all in_u32 (budget_columns b0)"
    "cb_token_limit b0 = int (ce_tokens ab)" "cb_time_limit_ms b0 = int (ce_time_ms ab)" "cb_retry_limit b0 = int (ce_retries ab)"
    "cb_effect_limit b0 = int (ce_effects ab)" by auto
  note tasks = share_facts(2) and core = share_facts(3) and fresh = share_facts(4)
  have codec: "deps_from_str dj (deps_to_string dj ds) = Some ds" using assms(2) by (simp add: deps_codec_def)
  have ok: "child_graph_ok dj s'" using reserve_graph_ok [OF assms(1) codec, of js parent child task hash trust tb ab now] assms(3) by simp
  have check: "child_dependency_cycle (graph_insert child ds (stored_graph dj parent (sort_key ct_child_run_id (child_tasks s')))) = None"
    using stored_task_check [OF ok, of "?t now"] codec by (simp add: tasks)
  have "find_child_task child s = None" using fresh by (simp add: find_child_task_None)
  then have "find_child_task child s' = Some (?t now)" by (simp add: find_child_task_def tasks find_append)
  moreover have "same_contract (?t now) (?t now')" by (simp add: same_contract_def fresh_child_task_def)
  moreover have "list_all in_u32 (task_columns (?t now))"
    using b0 by (intro share_in_u32 [OF facts(1)]) (simp_all add: budget_columns_def)
  ultimately have share: "reserve_share (?t now') ab now' s' = Inr (False, s')"
    using assms(4,5) b0 by (simp add: reserve_share_def Let_def insert_child_budget_or_ignore_def charge_share_def)
  have len: "length (stored_graph dj parent (sort_key ct_child_run_id (child_tasks s'))) = length (filter (of_parent parent) (child_tasks s'))"
    by (simp add: stored_graph_def filter_sort_key)
  have "reserve_child_task_tx dj (?t now') ab ds now' s' =
      (if length (filter (of_parent parent) (child_tasks s')) < 128 then Inr (False, s')
       else Inl (Invariant ''parent child-task limit (128) reached''))"
    using tx(1,2) core unfolding reserve_child_task_tx_def
    by (simp add: child_parent_def run_exists_def dependency_graph_ok [OF ok] len check share MAX_CHILD_TASKS_PER_PARENT_def)
  then show ?thesis unfolding reserve_by_facts [OF facts(1-7)] by (simp add: transaction_def)
qed

theorem child_reservation_replay_witness:
  "\<exists>s'. reserve_sample 5 sample_parents = (Inr True, s') \<and> reserve_sample 9 s' = (Inr False, s')"
proof -
  obtain r s' where rs: "reserve_sample 5 sample_parents = (r, s')" by (cases "reserve_sample 5 sample_parents")
  have "fst (reserve_sample 5 sample_parents) = Inr True \<and>
      map_option (\<lambda>b. list_all in_u32 (budget_columns b)) (find_child_budget ''p'' (snd (reserve_sample 5 sample_parents))) = Some True \<and>
      length (filter (of_parent ''p'') (child_tasks (snd (reserve_sample 5 sample_parents)))) = 1"
    unfolding reserve_sample_def reserve_sample_tx by code_simp
  with rs obtain b where r: "r = Inr True" and b: "find_child_budget ''p'' s' = Some b" "list_all in_u32 (budget_columns b)"
    and n: "length (filter (of_parent ''p'') (child_tasks s')) = 1" by auto
  have "reserve_sample 9 s' = (Inr False, s')"
    using child_reservation_replay [OF empty_child_tables(2) [OF sample_parents_tables] sample_deps_codec rs [unfolded r reserve_sample_def] b, of 9] n
    by (simp add: reserve_sample_def)
  with rs r show ?thesis by auto
qed

end
