(* ===== verification/Text_Parsing.thy ===== *)
theory Text_Parsing
  imports Prelude
begin

text \<open>
  The parsing helpers of Rust's standard library that configuration values go through: \<open>parse::<u64>\<close>, \<open>split\<close>, \<open>splitn(2, \<dots>)\<close>,
  \<open>strip_prefix\<close> and \<open>join\<close>, with their round trips against printing.
\<close>

section \<open>Unsigned numbers\<close>

definition is_ascii_digit :: "char \<Rightarrow> bool" where
  "is_ascii_digit c \<longleftrightarrow> 48 \<le> (of_char c :: nat) \<and> (of_char c :: nat) \<le> 57"

lemma is_ascii_digit_code [code]: "is_ascii_digit c \<longleftrightarrow> c \<in> set ''0123456789''"
  by (cases c) (auto simp: is_ascii_digit_def of_char_def)

definition u64_limit :: nat where
  "u64_limit = 18446744073709551616"

definition fits_u64 :: "nat \<Rightarrow> bool" where
  "fits_u64 n \<longleftrightarrow> int n < 18446744073709551616"

lemma fits_u64_iff [simp]: "fits_u64 n \<longleftrightarrow> n < u64_limit"
  by (simp add: fits_u64_def u64_limit_def nat_less_iff [symmetric])

text \<open>\<open>u64::from_str\<close>, and \<open>usize::from_str\<close> on a 64-bit target: an optional plus sign, then digits only; None on overflow.\<close>

definition parse_u64 :: "string \<Rightarrow> nat option" where
  "parse_u64 s = (let digits = (case s of c # cs \<Rightarrow> if c = CHR ''+'' then cs else s | [] \<Rightarrow> []) in
     if digits = [] \<or> \<not> list_all is_ascii_digit digits then None
     else let v = foldl (\<lambda>v c. 10 * v + digit_val c) 0 digits in if fits_u64 v then Some v else None)"

lemma show_nat_all_digits: "list_all is_ascii_digit (show_nat n)"
  using show_nat_digits [of _ n] by (fastforce simp: list_all_iff is_ascii_digit_def of_char_digit_char)

lemma show_nat_not_in: "\<not> is_ascii_digit c \<Longrightarrow> c \<notin> set (show_nat n)"
  using show_nat_all_digits [of n] by (auto simp: list_all_iff)

lemma parse_show_u64: "n < u64_limit \<Longrightarrow> parse_u64 (show_nat n) = Some n"
  using show_nat_nonempty [of n] show_nat_all_digits [of n] show_nat_not_in [of "CHR ''+''" n] show_nat_value [of n]
  by (cases "show_nat n") (auto simp: parse_u64_def Let_def is_ascii_digit_def)

lemma parse_u64_bound: "parse_u64 s = Some n \<Longrightarrow> n < u64_limit"
  by (auto simp: parse_u64_def Let_def split: if_splits)

section \<open>Splitting and joining\<close>

text \<open>\<open>str::split\<close> at a character, \<open>join\<close> with one, \<open>splitn(2, c)\<close> and \<open>strip_prefix\<close>.\<close>

fun split_on :: "char \<Rightarrow> string \<Rightarrow> string list" where
  "split_on c [] = [[]]"
| "split_on c (x # xs) = (if x = c then [] # split_on c xs else (x # hd (split_on c xs)) # tl (split_on c xs))"

fun join_with :: "char \<Rightarrow> string list \<Rightarrow> string" where
  "join_with c [] = []"
| "join_with c [s] = s"
| "join_with c (s # t # ts) = s @ c # join_with c (t # ts)"

definition splitn2 :: "char \<Rightarrow> string \<Rightarrow> string list" where
  "splitn2 c s = (if c \<in> set s then [takeWhile ((\<noteq>) c) s, tl (dropWhile ((\<noteq>) c) s)] else [s])"

definition strip_prefix :: "string \<Rightarrow> string \<Rightarrow> string option" where
  "strip_prefix p s = (if starts_with s p then Some (drop (length p) s) else None)"

lemma strip_prefix_append [simp]: "strip_prefix p (p @ s) = Some s"
  by (auto simp: strip_prefix_def starts_with_iff)

lemma strip_prefix_iff: "strip_prefix p s = Some t \<longleftrightarrow> s = p @ t"
  by (auto simp: strip_prefix_def starts_with_iff)

lemma splitn2_append: "c \<notin> set a \<Longrightarrow> splitn2 c (a @ c # b) = [a, b]"
  by (auto simp: splitn2_def takeWhile_append dropWhile_append)

lemma split_on_not_empty [simp]: "split_on c s \<noteq> []"
  by (cases s) auto

lemma split_on_none: "c \<notin> set s \<Longrightarrow> split_on c s = [s]"
  by (induction s) auto

lemma split_on_append: "c \<notin> set a \<Longrightarrow> split_on c (a @ c # b) = a # split_on c b"
  by (induction a) auto

lemma split_join: "ss \<noteq> [] \<Longrightarrow> (\<And>s. s \<in> set ss \<Longrightarrow> c \<notin> set s) \<Longrightarrow> split_on c (join_with c ss) = ss"
  by (induction c ss rule: join_with.induct) (auto simp: split_on_none split_on_append)

lemma split_on_parts: "p \<in> set (split_on c s) \<Longrightarrow> c \<notin> set p"
proof (induction s arbitrary: p)
  case (Cons x xs)
  then show ?case by (cases "split_on c xs") (auto split: if_splits)
qed simp

end
