(* ===== verification/Json_Value.thy ===== *)
theory Json_Value
  imports Text_Parsing
begin

text \<open>
  JSON values with the shape of \<open>serde_json::Value\<close>, and the accessors the sources use. A number is kept as its text.
\<close>

datatype Value = JNull | JBool bool | JNumber string | JString string | JArray "Value list" | JObject "(string \<times> Value) list"

fun Value_get :: "string \<Rightarrow> Value \<Rightarrow> Value option" where
  "Value_get k (JObject entries) = map_of entries k"
| "Value_get k _ = None"

fun Value_as_str :: "Value \<Rightarrow> string option" where
  "Value_as_str (JString s) = Some s"
| "Value_as_str _ = None"

fun Value_as_array :: "Value \<Rightarrow> Value list option" where
  "Value_as_array (JArray vs) = Some vs"
| "Value_as_array _ = None"

text \<open>\<open>as_i64\<close>: an integer without fraction and exponent that fits; \<open>-0\<close> is a floating-point number.\<close>

fun Value_as_i64 :: "Value \<Rightarrow> int option" where
  "Value_as_i64 (JNumber t) =
    (if t \<noteq> [] \<and> hd t = CHR ''-''
     then (case parse_u64 (tl t) of Some n \<Rightarrow> if 0 < n \<and> int n \<le> 2 ^ 63 then Some (- int n) else None | None \<Rightarrow> None)
     else (case parse_u64 t of Some n \<Rightarrow> if int n < 2 ^ 63 then Some (int n) else None | None \<Rightarrow> None))"
| "Value_as_i64 _ = None"

lemma Value_as_i64_range: "Value_as_i64 v = Some i \<Longrightarrow> i64_range i"
  by (cases v) (auto simp: i64_range_def split: option.splits if_splits)

lemma Value_as_i64_show: "n < 2 ^ 63 \<Longrightarrow> Value_as_i64 (JNumber (show_nat n)) = Some (int n)"
  using parse_show_u64 [of n] show_nat_not_in [of "CHR ''-''" n] hd_in_set [of "show_nat n"] show_nat_nonempty [of n]
  by (cases "hd (show_nat n) = CHR ''-''") (auto simp: u64_limit_def is_ascii_digit_def)

end
