(* ===== verification/Completion_Evidence.thy ===== *)
theory Completion_Evidence
  imports Child_Reservations Events Json_Value
begin

text \<open>
  The proof checks for task completion (\<open>crates/core/src/completion_evidence.rs\<close>): a produced artifact that still has its bytes, a
  persisted agent output, the attestation of a Controller, and a delivered transport effect.

  Decoding a JSON value, and the payloads of the two event kinds, is a
  parameter, as are the file system and SHA-256. The state adds the tables that completion reads and writes to the run store.
\<close>

section \<open>Cards and the environment\<close>

datatype CardState = CardPending | CardRunning | CardPaused | CardCompleted | CardFailed | CardCancelled

record evidence_env =
  json_value :: "string \<Rightarrow> Value option"
  tool_result_outcome :: "string \<Rightarrow> (string + Value) option"
  card_closed :: "string \<Rightarrow> (CardState \<times> string option) option"
  json_pointer_get :: "string \<Rightarrow> Value \<Rightarrow> Value option"
  hex_sha256 :: "string \<Rightarrow> string"

section \<open>State\<close>

record artifact_row =
  af_id :: string
  af_research_job_id :: "string option"
  af_kind :: string
  af_path :: string
  af_sha256 :: string
  af_bytes :: "int option"
  af_created_at :: int
  af_expires_at :: "int option"

record tool_artifact_row =
  ta_artifact_id :: string
  ta_conversation_id :: string
  ta_run_id :: string
  ta_sha256 :: string
  ta_byte_length :: int
  ta_expires_at :: int

record research_row =
  rj_id :: string
  rj_conversation_id :: string
  rj_status :: string
  rj_attachment_id :: "string option"
  rj_created_at :: int

record attachment_row =
  at_id :: string
  at_conversation_id :: string
  at_path :: string
  at_sha256 :: string
  at_received_at :: int

record audit_row =
  au_id :: int
  au_actor :: string
  au_table_name :: string
  au_row_id :: string
  au_new_json :: "string option"

record contract_row =
  cc_run_id :: string
  cc_acceptance_criteria_json :: string
  cc_required_artifacts_json :: string
  cc_delivery_required :: bool
  cc_delivery_confirmed :: bool
  cc_delivery_evidence_ref :: "string option"
  cc_created_at :: int
  cc_updated_at :: int

record verification_row =
  cv_run_id :: string
  cv_criterion_id :: string
  cv_status :: string
  cv_evidence_refs_json :: string
  cv_detail :: "string option"
  cv_verified_at :: int

record artifact_check_row =
  ca_run_id :: string
  ca_artifact_id :: string
  ca_present :: bool
  ca_evidence_ref :: "string option"
  ca_detail :: "string option"
  ca_checked_at :: int

record completion_db =
  base :: run_db
  contracts :: "contract_row list"
  criterion_checks :: "verification_row list"
  artifact_checks :: "artifact_check_row list"
  config_audit :: "audit_row list"
  state_artifacts :: "artifact_row list"
  tool_result_artifacts :: "tool_artifact_row list"
  research_jobs :: "research_row list"
  state_attachments :: "attachment_row list"
  agent_runs :: "(string \<times> string \<times> string option) list"

text \<open>What \<open>symlink_metadata\<close>, \<open>metadata\<close> and reading find at a path; a number is the length that \<open>metadata\<close> reports.\<close>

datatype file_node = RegularFile string | UnreadableFile nat | Symlink nat | Directory nat

type_synonym file_system = "string \<Rightarrow> file_node option"

fun file_len :: "file_node \<Rightarrow> nat" where
  "file_len (RegularFile content) = length content"
| "file_len (UnreadableFile n) = n"
| "file_len (Symlink n) = n"
| "file_len (Directory n) = n"

section \<open>References in tool results\<close>

fun has_named_reference :: "Value \<Rightarrow> string \<Rightarrow> string \<Rightarrow> nat \<Rightarrow> bool" where
  "has_named_reference v key expected 0 = False"
| "has_named_reference v key expected (Suc depth) = (case v of
      JObject entries \<Rightarrow> Option.bind (map_of entries key) Value_as_str = Some expected \<or>
        list_ex (\<lambda>f. has_named_reference (snd f) key expected depth) entries
    | JArray values \<Rightarrow> list_ex (\<lambda>w. has_named_reference w key expected depth) values
    | _ \<Rightarrow> False)"

fun has_research_job_reference :: "Value \<Rightarrow> string \<Rightarrow> nat \<Rightarrow> bool" where
  "has_research_job_reference v expected 0 = False"
| "has_research_job_reference v expected (Suc depth) = (case v of
      JObject entries \<Rightarrow> Option.bind (map_of entries ''job_id'') Value_as_str = Some expected \<or>
        Option.bind (Option.bind (map_of entries ''job'') (Value_get ''id'')) Value_as_str = Some expected \<or>
        list_ex (\<lambda>f. has_research_job_reference (snd f) expected depth) entries
    | JArray values \<Rightarrow> list_ex (\<lambda>w. has_research_job_reference w expected depth) values
    | _ \<Rightarrow> False)"

section \<open>Artifacts\<close>

definition file_matches :: "evidence_env \<Rightarrow> file_system \<Rightarrow> string \<Rightarrow> string \<Rightarrow> int \<Rightarrow> bool" where
  "file_matches env fs path expected_sha256 expected_bytes =
     (if expected_bytes < 0 \<or> length expected_sha256 \<noteq> 64 then False
      else (case fs path of
          Some (RegularFile content) \<Rightarrow> int (length content) = expected_bytes \<and> hex_sha256 env content = expected_sha256
        | _ \<Rightarrow> False))"

definition unexpired :: "int \<Rightarrow> int option \<Rightarrow> bool" where
  "unexpired now e \<longleftrightarrow> (case e of None \<Rightarrow> True | Some t \<Rightarrow> now < t)"

abbreviation find_run_row :: "string \<Rightarrow> completion_db \<Rightarrow> run_row option" where
  "find_run_row rid s \<equiv> find (\<lambda>r. rn_run_id r = rid) (run_rows (base s))"

text \<open>The first of the two sources of an artifact: path, digest, size, kind and research job.\<close>

definition produced_artifact :: "run_row \<Rightarrow> string \<Rightarrow> int \<Rightarrow> completion_db \<Rightarrow> (string \<times> string \<times> int \<times> string \<times> string option) option" where
  "produced_artifact r artifact_id now s =
     map_option (\<lambda>a. (af_path a, af_sha256 a, (case af_bytes a of None \<Rightarrow> -1 | Some b \<Rightarrow> b), af_kind a, af_research_job_id a))
       (find (\<lambda>a. af_id a = artifact_id \<and> af_kind a \<in> {''plugin_artifact'', ''research_pdf''} \<and>
          rn_started_at r \<le> af_created_at a \<and> unexpired now (af_expires_at a)) (state_artifacts s))"

text \<open>The second: the attachment of a completed research job, with the length the file has.\<close>

definition research_attachment :: "file_system \<Rightarrow> run_row \<Rightarrow> string \<Rightarrow> completion_db \<Rightarrow> (string \<times> string \<times> int \<times> string \<times> string option) option" where
  "research_attachment fs r artifact_id s =
     map_option (\<lambda>(j, a). (at_path a, at_sha256 a,
         (case fs (at_path a) of Some f \<Rightarrow> if int (file_len f) \<le> i64_max then int (file_len f) else -1 | None \<Rightarrow> -1),
         ''research_pdf'', Some (rj_id j)))
       (find (\<lambda>(j, a). rj_attachment_id j = Some artifact_id \<and> at_id a = artifact_id \<and> at_conversation_id a = rj_conversation_id j \<and>
          rn_conversation_id r = rj_conversation_id j \<and> rj_status j = ''complete'' \<and> rn_started_at r \<le> rj_created_at j \<and>
          rn_started_at r \<le> at_received_at a) (List.product (research_jobs s) (state_attachments s)))"

definition next_input :: "run_row \<Rightarrow> completion_db \<Rightarrow> int option" where
  "next_input r s = (case map rn_input_event_seq (filter (\<lambda>n. rn_conversation_id n = rn_conversation_id r \<and>
       rn_input_event_seq r < rn_input_event_seq n) (run_rows (base s))) of
     [] \<Rightarrow> None | n # ns \<Rightarrow> Some (fold min ns n))"

text \<open>The event of the run's window that names the artifact; an undecodable payload is skipped.\<close>

definition names_artifact :: "evidence_env \<Rightarrow> string \<Rightarrow> string option \<Rightarrow> string \<Rightarrow> event_row \<Rightarrow> bool" where
  "names_artifact env k job artifact_id e =
     (if er_kind e = ''tool_result''
      then (case decode_payload_bytes (tool_result_outcome env) (EventKind_parse (er_kind e)) (er_payload e) of
          Inr (Inr value) \<Rightarrow>
            k = ''plugin_artifact'' \<and> (has_named_reference value ''attachment_id'' artifact_id 8 \<or>
              has_named_reference value ''artifact_id'' artifact_id 8) \<or>
            k = ''research_pdf'' \<and> (case job of None \<Rightarrow> False | Some j \<Rightarrow> has_research_job_reference value j 8)
        | _ \<Rightarrow> False)
      else (case decode_payload_bytes (card_closed env) (EventKind_parse (er_kind e)) (er_payload e) of
          Inr (st, attachment) \<Rightarrow> st = CardCompleted \<and> attachment = Some artifact_id
        | _ \<Rightarrow> False))"

definition artifact_has_run_producer :: "evidence_env \<Rightarrow> file_system \<Rightarrow> string \<Rightarrow> string \<Rightarrow> int \<Rightarrow> completion_db \<Rightarrow> bool" where
  "artifact_has_run_producer env fs rid artifact_id now s = (case find_run_row rid s of
      None \<Rightarrow> False
    | Some r \<Rightarrow> (case (case produced_artifact r artifact_id now s of
          None \<Rightarrow> research_attachment fs r artifact_id s | Some a \<Rightarrow> Some a) of
        None \<Rightarrow> False
      | Some (path, digest, bytes, k, job) \<Rightarrow>
          if \<not> file_matches env fs path digest bytes then False
          else if k = ''research_pdf'' \<and> (case job of None \<Rightarrow> True | Some j \<Rightarrow>
              \<not> list_ex (\<lambda>q. rj_id q = j \<and> rj_conversation_id q = rn_conversation_id r \<and> rj_status q = ''complete'' \<and>
                 rj_attachment_id q = Some artifact_id) (research_jobs s))
          then False
          else list_ex (\<lambda>e. er_conversation_id e = rn_conversation_id r \<and> rn_input_event_seq r \<le> er_seq e \<and>
              er_seq e < (case next_input r s of None \<Rightarrow> i64_max | Some n \<Rightarrow> n) \<and> er_kind e \<in> {''tool_result'', ''card_closed''} \<and>
              names_artifact env k job artifact_id e) (state_events (core (base s)))))"

definition run_artifact_exists :: "evidence_env \<Rightarrow> file_system \<Rightarrow> string \<Rightarrow> string \<Rightarrow> int \<Rightarrow> completion_db \<Rightarrow> bool" where
  "run_artifact_exists env fs rid reference now s = (case strip_prefix ''attachment:'' reference of
      None \<Rightarrow> False
    | Some artifact_id \<Rightarrow>
        if artifact_id = [] then False
        else (case find (\<lambda>(ta, a). ta_artifact_id ta = artifact_id \<and> af_id a = artifact_id \<and> ta_run_id ta = rid \<and>
              (case find_run_row rid s of None \<Rightarrow> False | Some r \<Rightarrow> rn_conversation_id r = ta_conversation_id ta) \<and>
              now < ta_expires_at ta \<and> unexpired now (af_expires_at a) \<and> af_sha256 a = ta_sha256 ta \<and>
              af_bytes a = Some (ta_byte_length ta)) (List.product (tool_result_artifacts s) (state_artifacts s)) of
            Some (ta, a) \<Rightarrow> file_matches env fs (af_path a) (af_sha256 a) (ta_byte_length ta)
          | None \<Rightarrow>
              (case find (\<lambda>(t, a). ct_parent_run_id t = rid \<and> ct_result_artifact_id t = Some artifact_id \<and> af_id a = artifact_id \<and>
                  (case find_run_row (ct_child_run_id t) s of None \<Rightarrow> False | Some c \<Rightarrow> rn_status c = ''completed'') \<and>
                  unexpired now (af_expires_at a)) (List.product (child_tasks (base s)) (state_artifacts s)) of
                 Some (t, a) \<Rightarrow> file_matches env fs (af_path a) (af_sha256 a) (case af_bytes a of None \<Rightarrow> -1 | Some b \<Rightarrow> b)
               | None \<Rightarrow> False) \<or>
              artifact_has_run_producer env fs rid artifact_id now s))"

section \<open>Agent outputs, attestations and deliveries\<close>

definition agent_output_exists :: "string \<Rightarrow> string \<Rightarrow> completion_db \<Rightarrow> bool" where
  "agent_output_exists rid reference s =
     (if reference \<noteq> ''agent-run:'' @ rid @ ''/output'' then False
      else (case find (\<lambda>r. fst r = rid) (agent_runs s) of
          None \<Rightarrow> False
        | Some (_, status, text) \<Rightarrow> status = ''success'' \<and> (case text of None \<Rightarrow> False | Some t \<Rightarrow> rust_trim t \<noteq> [])))"

text \<open>\<open>str::parse::<i64>\<close>.\<close>

definition parse_digits :: "string \<Rightarrow> nat option" where
  "parse_digits s = (if s \<noteq> [] \<and> list_all (byte_in 0x30 0x39) s then Some (foldl (\<lambda>n c. 10 * n + (of_char c - 48)) 0 s) else None)"

definition parse_i64 :: "string \<Rightarrow> int option" where
  "parse_i64 s = (case s of
      [] \<Rightarrow> None
    | c # t \<Rightarrow>
        (case (if c = CHR ''-'' then map_option (\<lambda>n. - int n) (parse_digits t)
               else if c = CHR ''+'' then map_option int (parse_digits t) else map_option int (parse_digits s)) of
           None \<Rightarrow> None | Some x \<Rightarrow> if i64_range x then Some x else None))"

definition referenced_id :: "string \<Rightarrow> string \<Rightarrow> int option" where
  "referenced_id pre reference = Option.bind (Option.bind (strip_prefix pre reference) parse_i64)
     (\<lambda>i. if 0 < i then Some i else None)"

text \<open>What the stored decision must say, by the status it is used for.\<close>

definition attests :: "Value \<Rightarrow> string \<Rightarrow> string list option \<Rightarrow> bool" where
  "attests value required_status submitted_refs =
     (if required_status = ''passed''
      then (case submitted_refs of
          None \<Rightarrow> False
        | Some expected \<Rightarrow>
            let submitted = filter (\<lambda>r. \<not> starts_with r ''attestation:'') expected in
            submitted \<noteq> [] \<and> (case Option.bind (Value_get ''submitted_evidence_refs'' value) Value_as_array of
                None \<Rightarrow> False
              | Some stored \<Rightarrow> map Value_as_str stored = map Some submitted))
      else if required_status = ''confirmed''
      then (case Option.bind (Value_get ''submitted_evidence_ref'' value) Value_as_str of
          None \<Rightarrow> False | Some r \<Rightarrow> rust_trim r \<noteq> [] \<and> length r \<le> 512)
      else False)"

definition attestation_exists :: "evidence_env \<Rightarrow> string \<Rightarrow> string \<Rightarrow> string \<Rightarrow> string \<Rightarrow> string list option \<Rightarrow> completion_db \<Rightarrow> bool" where
  "attestation_exists env reference table_name row_id required_status submitted_refs s =
     (case referenced_id ''attestation:'' reference of
        None \<Rightarrow> False
      | Some i \<Rightarrow> (case find (\<lambda>a. au_id a = i \<and> au_table_name a = table_name \<and> au_row_id a = row_id) (config_audit s) of
          None \<Rightarrow> False
        | Some a \<Rightarrow> (case Option.bind (au_new_json a) (json_value env) of
            None \<Rightarrow> False
          | Some value \<Rightarrow>
              rust_trim (au_actor a) \<noteq> [] \<and> Option.bind (Value_get ''status'' value) Value_as_str = Some required_status \<and>
              attests value required_status submitted_refs)))"

text \<open>\<open>LIKE 'transport.%'\<close> ignores the case of ASCII letters.\<close>

definition run_delivery_exists :: "string \<Rightarrow> string \<Rightarrow> completion_db \<Rightarrow> bool" where
  "run_delivery_exists rid reference s = (case referenced_id ''outbox:'' reference of
      None \<Rightarrow> False
    | Some i \<Rightarrow> (case find_run_row rid s of
        None \<Rightarrow> False
      | Some r \<Rightarrow> list_ex (\<lambda>ob. ob_id ob = i \<and> ob_conversation_id ob = rn_conversation_id r \<and> rn_input_event_seq r \<le> ob_enqueued_seq ob \<and>
            ob_enqueued_seq ob < (case next_input r s of None \<Rightarrow> i64_max | Some n \<Rightarrow> n) \<and> ob_status ob = ''delivered'' \<and>
            starts_with (to_ascii_lowercase (ob_effect_kind ob)) ''transport.'' \<and>
            list_ex (\<lambda>d. de_outbox_id d = i \<and> de_transition d \<in> {''delivered'', ''operator_confirmed_delivered''})
              (state_outbox_delivery_events (core (base s)))) (state_outbox (core (base s)))))"

end
