(* ===== verification/Run_Completion.thy ===== *)
theory Run_Completion
  imports Completion_Evidence
begin

text \<open>
  Completion contracts of durable runs (\<open>crates/core/src/runs.rs\<close>): the immutable contract, the verifications recorded against it,
  and the report that derives the outcome from what is persisted.

  The JSON encodings of criteria, artifacts and reference lists are parameters (\<open>contract_json\<close>). The clock that the code reads while it
  checks an artifact is an argument.
\<close>

section \<open>Data\<close>

record RunStepVerifier =
  v_step_id :: string
  v_json_pointer :: string
  v_expected :: Value

record AcceptanceCriterion =
  cr_criterion_id :: string
  cr_description :: string
  cr_required :: bool
  cr_verifier :: "RunStepVerifier option"

record RequiredRunArtifact =
  ra_artifact_id :: string
  ra_description :: string

record RunCompletionContract =
  rc_run_id :: string
  rc_acceptance_criteria :: "AcceptanceCriterion list"
  rc_required_artifacts :: "RequiredRunArtifact list"
  rc_delivery_required :: bool
  rc_created_at :: int

datatype VerificationStatus = VPending | VPassed | VFailed | VBlocked

fun VerificationStatus_as_str :: "VerificationStatus \<Rightarrow> string" where
  "VerificationStatus_as_str VPending = ''pending''"
| "VerificationStatus_as_str VPassed = ''passed''"
| "VerificationStatus_as_str VFailed = ''failed''"
| "VerificationStatus_as_str VBlocked = ''blocked''"

definition VerificationStatus_parse :: "string \<Rightarrow> VerificationStatus option" where
  "VerificationStatus_parse s =
     (if s = ''pending'' then Some VPending
      else if s = ''passed'' then Some VPassed
      else if s = ''failed'' then Some VFailed
      else if s = ''blocked'' then Some VBlocked
      else None)"

interpretation verification_status: wire_enum VerificationStatus_as_str VerificationStatus_parse
proof
  show "VerificationStatus_parse (VerificationStatus_as_str x) = Some x" for x
    by (cases x) (simp_all add: VerificationStatus_parse_def)
  show "VerificationStatus_parse s = Some x \<Longrightarrow> VerificationStatus_as_str x = s" for s x
    by (auto simp: VerificationStatus_parse_def split: if_splits)
qed

record CriterionVerification =
  vf_criterion_id :: string
  vf_status :: VerificationStatus
  vf_evidence_refs :: "string list"
  vf_detail :: "string option"
  vf_verified_at :: int

record ArtifactVerification =
  av_artifact_id :: string
  av_present :: bool
  av_evidence_ref :: "string option"
  av_detail :: "string option"
  av_checked_at :: int

datatype RunCompletionStatus = Incomplete | Partial | Blocked | VerifiedComplete

record RunCompletionReport =
  rp_contract :: RunCompletionContract
  rp_verifications :: "CriterionVerification list"
  rp_artifacts :: "ArtifactVerification list"
  rp_delivery_confirmed :: bool
  rp_delivery_evidence_ref :: "string option"
  rp_status :: RunCompletionStatus
  rp_unfinished :: "string list"

record contract_json =
  criteria_to_string :: "AcceptanceCriterion list \<Rightarrow> string"
  criteria_from_str :: "string \<Rightarrow> AcceptanceCriterion list option"
  artifacts_to_string :: "RequiredRunArtifact list \<Rightarrow> string"
  artifacts_from_str :: "string \<Rightarrow> RequiredRunArtifact list option"
  refs_to_string :: "string list \<Rightarrow> string"
  refs_from_str :: "string \<Rightarrow> string list option"
  value_to_vec :: "Value \<Rightarrow> string"

section \<open>Validation\<close>

definition verifier_ok :: "contract_json \<Rightarrow> RunStepVerifier \<Rightarrow> bool" where
  "verifier_ok cj v \<longleftrightarrow> rust_trim (v_step_id v) \<noteq> [] \<and> length (v_step_id v) \<le> 128 \<and> starts_with (v_json_pointer v) ''/'' \<and>
     length (v_json_pointer v) \<le> 256 \<and> length (value_to_vec cj (v_expected v)) \<le> 4096"

fun validate_criteria :: "contract_json \<Rightarrow> string list \<Rightarrow> AcceptanceCriterion list \<Rightarrow> RunStoreError + unit" where
  "validate_criteria cj seen [] = Inr ()"
| "validate_criteria cj seen (c # cs) =
     (if rust_trim (cr_criterion_id c) = [] \<or> 128 < length (cr_criterion_id c) \<or> rust_trim (cr_description c) = [] \<or>
         2000 < length (cr_description c) \<or> cr_criterion_id c \<in> set seen
      then Inl (Corrupt ''acceptance criteria need unique bounded ids and descriptions'')
      else if \<not> pred_option (verifier_ok cj) (cr_verifier c)
      then Inl (Corrupt ''step verifier needs a bounded step id, JSON pointer, and expected value'')
      else validate_criteria cj (cr_criterion_id c # seen) cs)"

fun validate_artifacts :: "string list \<Rightarrow> RequiredRunArtifact list \<Rightarrow> RunStoreError + unit" where
  "validate_artifacts seen [] = Inr ()"
| "validate_artifacts seen (a # as) =
     (if rust_trim (ra_artifact_id a) = [] \<or> 128 < length (ra_artifact_id a) \<or> rust_trim (ra_description a) = [] \<or>
         2000 < length (ra_description a) \<or> ra_artifact_id a \<in> set seen
      then Inl (Corrupt ''required artifacts need unique bounded ids and descriptions'')
      else validate_artifacts (ra_artifact_id a # seen) as)"

definition validate_completion_contract :: "contract_json \<Rightarrow> RunCompletionContract \<Rightarrow> RunStoreError + unit" where
  "validate_completion_contract cj c =
     (if rust_trim (rc_run_id c) = [] \<or> 100 < length (rc_acceptance_criteria c) \<or> 100 < length (rc_required_artifacts c) \<or>
         (rc_acceptance_criteria c = [] \<and> rc_required_artifacts c = []) \<or>
         (\<not> list_ex cr_required (rc_acceptance_criteria c) \<and> rc_required_artifacts c = [])
      then Inl (Corrupt ''a completion contract requires at least one required criterion or artifact'')
      else (case validate_criteria cj [] (rc_acceptance_criteria c) of
          Inl e \<Rightarrow> Inl e
        | Inr _ \<Rightarrow> validate_artifacts [] (rc_required_artifacts c)))"

text \<open>\<open>RunCompletionContractDraft::validate\<close>.\<close>

definition draft_validate :: "contract_json \<Rightarrow> AcceptanceCriterion list \<Rightarrow> RequiredRunArtifact list \<Rightarrow> bool \<Rightarrow> RunStoreError + unit" where
  "draft_validate cj criteria required_artifacts delivery_required = validate_completion_contract cj
     \<lparr>rc_run_id = ''validation'', rc_acceptance_criteria = criteria, rc_required_artifacts = required_artifacts,
      rc_delivery_required = delivery_required, rc_created_at = 0\<rparr>"

definition validate_reference_list :: "string list \<Rightarrow> RunStoreError + unit" where
  "validate_reference_list refs =
     (if 32 < length refs \<or> list_ex (\<lambda>r. rust_trim r = [] \<or> 512 < length r) refs
      then Inl (Corrupt ''evidence references must be non-empty and bounded'') else Inr ())"

section \<open>The outcome\<close>

text \<open>The loops over criteria and artifacts: which of the three flags an entry raises, and what it leaves unfinished.\<close>

record outcome_flags =
  fl_blocked :: bool
  fl_incomplete :: bool
  fl_partial :: bool
  fl_unfinished :: "string list"

definition quoted :: "string \<Rightarrow> string" where
  "quoted s = CHR 0x27 # s @ [CHR 0x27]"

definition note_criterion :: "AcceptanceCriterion \<times> CriterionVerification \<Rightarrow> outcome_flags \<Rightarrow> outcome_flags" where
  "note_criterion cv fl = (case cv of (c, v) \<Rightarrow>
     let text = (\<lambda>a b. a @ quoted (cr_description c) @ b); add = (\<lambda>m. fl_unfinished fl @ [m]) in
     (case vf_status v of
        VPassed \<Rightarrow> fl
      | VPending \<Rightarrow>
          if cr_required c then fl\<lparr>fl_incomplete := True, fl_unfinished := add (text ''Required criterion ''  '' is not verified'')\<rparr>
          else fl\<lparr>fl_partial := True, fl_unfinished := add (text ''Optional criterion '' '' is not verified'')\<rparr>
      | _ \<Rightarrow>
          if cr_required c
          then fl\<lparr>fl_blocked := True, fl_unfinished := add (case vf_detail v of Some d \<Rightarrow> d | None \<Rightarrow> text ''Required criterion '' '' did not pass'')\<rparr>
          else fl\<lparr>fl_partial := True, fl_unfinished := add (case vf_detail v of Some d \<Rightarrow> d | None \<Rightarrow> text ''Optional criterion '' '' did not pass'')\<rparr>))"

definition note_artifact :: "RequiredRunArtifact \<times> ArtifactVerification \<Rightarrow> outcome_flags \<Rightarrow> outcome_flags" where
  "note_artifact av fl = (case av of (a, v) \<Rightarrow>
     if av_checked_at v = 0
     then fl\<lparr>fl_incomplete := True, fl_unfinished := fl_unfinished fl @ [''Required artifact '' @ quoted (ra_description a) @ '' has not been checked'']\<rparr>
     else if \<not> av_present v
     then fl\<lparr>fl_blocked := True, fl_unfinished := fl_unfinished fl @
            [case av_detail v of Some d \<Rightarrow> d | None \<Rightarrow> ''Required artifact '' @ quoted (ra_description a) @ '' is missing'']\<rparr>
     else fl)"

text \<open>A hash map filled from a list: the last entry of a key.\<close>

definition last_by :: "('v \<Rightarrow> string) \<Rightarrow> 'v list \<Rightarrow> string \<Rightarrow> 'v option" where
  "last_by key vs k = find (\<lambda>v. key v = k) (rev vs)"

definition criterion_result :: "CriterionVerification list \<Rightarrow> AcceptanceCriterion \<Rightarrow> CriterionVerification" where
  "criterion_result vs c = (case last_by vf_criterion_id vs (cr_criterion_id c) of
      Some v \<Rightarrow> v
    | None \<Rightarrow> \<lparr>vf_criterion_id = cr_criterion_id c, vf_status = VPending, vf_evidence_refs = [], vf_detail = None, vf_verified_at = 0\<rparr>)"

definition artifact_result :: "ArtifactVerification list \<Rightarrow> RequiredRunArtifact \<Rightarrow> ArtifactVerification" where
  "artifact_result as a = (case last_by av_artifact_id as (ra_artifact_id a) of
      Some v \<Rightarrow> v
    | None \<Rightarrow> \<lparr>av_artifact_id = ra_artifact_id a, av_present = False, av_evidence_ref = None, av_detail = None, av_checked_at = 0\<rparr>)"

definition build_completion_report :: "RunCompletionContract \<Rightarrow> CriterionVerification list \<Rightarrow> ArtifactVerification list \<Rightarrow> bool
   \<Rightarrow> string option \<Rightarrow> RunCompletionReport" where
  "build_completion_report c verifications artifacts delivery_confirmed delivery_evidence_ref =
     (let vs = map (criterion_result verifications) (rc_acceptance_criteria c);
          as = map (artifact_result artifacts) (rc_required_artifacts c);
          fl0 = \<lparr>fl_blocked = False, fl_incomplete = False, fl_partial = False, fl_unfinished = []\<rparr>;
          fl1 = fold note_criterion (zip (rc_acceptance_criteria c) vs) fl0;
          fl2 = fold note_artifact (zip (rc_required_artifacts c) as) fl1;
          fl3 = (if rc_delivery_required c \<and> \<not> delivery_confirmed
                 then fl2\<lparr>fl_incomplete := True, fl_unfinished := fl_unfinished fl2 @ [''Required delivery has no durable confirmation'']\<rparr>
                 else fl2) in
      \<lparr>rp_contract = c, rp_verifications = vs, rp_artifacts = as, rp_delivery_confirmed = delivery_confirmed,
       rp_delivery_evidence_ref = delivery_evidence_ref,
       rp_status = (if fl_blocked fl3 then Blocked else if fl_incomplete fl3 then Incomplete
                    else if fl_partial fl3 then Partial else VerifiedComplete),
       rp_unfinished = fl_unfinished fl3\<rparr>)"

section \<open>The report\<close>

definition find_contract :: "string \<Rightarrow> completion_db \<Rightarrow> contract_row option" where
  "find_contract rid s = find (\<lambda>c. cc_run_id c = rid) (contracts s)"

definition row_to_contract :: "contract_json \<Rightarrow> contract_row \<Rightarrow> DbError + RunCompletionContract" where
  "row_to_contract cj r = (case criteria_from_str cj (cc_acceptance_criteria_json r) of
      None \<Rightarrow> Inl (Invariant ''invalid completion criteria'')
    | Some criteria \<Rightarrow> (case artifacts_from_str cj (cc_required_artifacts_json r) of
        None \<Rightarrow> Inl (Invariant ''invalid required artifacts'')
      | Some required \<Rightarrow> Inr \<lparr>rc_run_id = cc_run_id r, rc_acceptance_criteria = criteria, rc_required_artifacts = required,
          rc_delivery_required = cc_delivery_required r, rc_created_at = cc_created_at r\<rparr>))"

definition row_to_verification :: "contract_json \<Rightarrow> verification_row \<Rightarrow> DbError + CriterionVerification" where
  "row_to_verification cj r = (case VerificationStatus_parse (cv_status r) of
      None \<Rightarrow> Inl (Sqlite InvalidColumnType)
    | Some st \<Rightarrow> (case refs_from_str cj (cv_evidence_refs_json r) of
        None \<Rightarrow> Inl (Sqlite InvalidColumnType)
      | Some refs \<Rightarrow> Inr \<lparr>vf_criterion_id = cv_criterion_id r, vf_status = st, vf_evidence_refs = refs, vf_detail = cv_detail r,
          vf_verified_at = cv_verified_at r\<rparr>))"

definition row_to_artifact_check :: "artifact_check_row \<Rightarrow> ArtifactVerification" where
  "row_to_artifact_check r = \<lparr>av_artifact_id = ca_artifact_id r, av_present = ca_present r, av_evidence_ref = ca_evidence_ref r,
     av_detail = ca_detail r, av_checked_at = ca_checked_at r\<rparr>"

text \<open>The status that a step verifier derives from the step as stored, with its detail and time.\<close>

definition verify_step :: "evidence_env \<Rightarrow> RunStepVerifier \<Rightarrow> step_row option \<Rightarrow> VerificationStatus \<times> string \<times> int" where
  "verify_step env v step = (case step of
      None \<Rightarrow> (VPending, ''step has not started'', 0)
    | Some r \<Rightarrow>
        let at = (case sr_completed_at r of None \<Rightarrow> 0 | Some t \<Rightarrow> t) in
        if sr_kind r \<noteq> ''tool_dispatch'' \<and> sr_kind r \<noteq> ''artifact_publish'' \<and> sr_kind r \<noteq> ''deterministic_compute''
        then (VFailed, ''verifier step is not a host tool'', at)
        else if active (sr_status r) then (VPending, ''step has not completed'', 0)
        else if sr_status r \<noteq> ''completed'' then (VFailed, ''step did not complete'', at)
        else if Option.bind (Option.bind (Option.bind (sr_output_ref r) (strip_prefix ''json:'')) (json_value env))
               (json_pointer_get env (v_json_pointer v)) = Some (v_expected v)
        then (VPassed, ''checkpoint value matched'', at)
        else (VFailed, ''checkpoint value did not match'', at))"

text \<open>The attestation of a manual result: one of the references is a Controller record for these references.\<close>

definition attested :: "evidence_env \<Rightarrow> string \<Rightarrow> string \<Rightarrow> string list \<Rightarrow> completion_db \<Rightarrow> bool" where
  "attested env rid criterion_id refs s =
     list_ex (\<lambda>r. attestation_exists env r ''run_completion_verification'' (rid @ ''/'' @ criterion_id) ''passed'' (Some refs) s) refs"

text \<open>\<open>iter_mut().find(...)\<close>: the first record of the criterion.\<close>

fun update_first :: "('a \<Rightarrow> bool) \<Rightarrow> ('a \<Rightarrow> 'a) \<Rightarrow> 'a list \<Rightarrow> 'a list" where
  "update_first p f [] = []"
| "update_first p f (x # xs) = (if p x then f x # xs else x # update_first p f xs)"

definition check_criterion :: "evidence_env \<Rightarrow> string \<Rightarrow> completion_db \<Rightarrow> AcceptanceCriterion \<Rightarrow> CriterionVerification list \<Rightarrow> CriterionVerification list" where
  "check_criterion env rid s c vs = (case cr_verifier c of
      Some v \<Rightarrow> (case verify_step env v (find_step rid (v_step_id v) (base s)) of (st, detail, at) \<Rightarrow>
        filter (\<lambda>i. vf_criterion_id i \<noteq> cr_criterion_id c) vs @
          [\<lparr>vf_criterion_id = cr_criterion_id c, vf_status = st,
            vf_evidence_refs = (if st = VPassed then [''run:'' @ rid @ ''/step:'' @ v_step_id v] else []), vf_detail = Some detail,
            vf_verified_at = at\<rparr>])
    | None \<Rightarrow> update_first (\<lambda>i. vf_criterion_id i = cr_criterion_id c)
        (\<lambda>i. if vf_status i = VPassed \<and> \<not> attested env rid (cr_criterion_id c) (vf_evidence_refs i) s
             then i\<lparr>vf_status := VBlocked, vf_detail := Some ''Controller attestation is missing or invalid''\<rparr> else i) vs)"

definition check_artifact :: "evidence_env \<Rightarrow> file_system \<Rightarrow> string \<Rightarrow> int \<Rightarrow> completion_db \<Rightarrow> ArtifactVerification \<Rightarrow> ArtifactVerification" where
  "check_artifact env fs rid clock s a =
     (if av_present a \<and> \<not> run_artifact_exists env fs rid (case av_evidence_ref a of None \<Rightarrow> [] | Some r \<Rightarrow> r) clock s
      then a\<lparr>av_present := False, av_detail := Some ''produced artifact is missing or invalid''\<rparr> else a)"

definition delivery_valid :: "evidence_env \<Rightarrow> string \<Rightarrow> string \<Rightarrow> completion_db \<Rightarrow> bool" where
  "delivery_valid env rid reference s \<longleftrightarrow> run_delivery_exists rid reference s \<or>
     attestation_exists env reference ''run_completion_delivery'' rid ''confirmed'' None s"

definition executor_outcome :: "string \<Rightarrow> RunCompletionReport \<Rightarrow> RunCompletionReport" where
  "executor_outcome status rp =
     (if status = ''completed'' then rp
      else if status = ''failed'' \<or> status = ''cancelled''
      then rp\<lparr>rp_status := Blocked, rp_unfinished := rp_unfinished rp @ [''Executor run '' @ status]\<rparr>
      else if rp_status rp = VerifiedComplete
      then rp\<lparr>rp_status := Incomplete, rp_unfinished := rp_unfinished rp @ [''Executor run has not completed'']\<rparr>
      else rp)"

definition completion_report :: "evidence_env \<Rightarrow> file_system \<Rightarrow> contract_json \<Rightarrow> int \<Rightarrow> string \<Rightarrow> completion_db
   \<Rightarrow> DbError + RunCompletionReport option" where
  "completion_report env fs cj clock rid s = (case find_contract rid s of
      None \<Rightarrow> Inr None
    | Some row \<Rightarrow> (case row_to_contract cj row of Inl e \<Rightarrow> Inl e | Inr c \<Rightarrow>
       (case collect_results (map (row_to_verification cj)
            (sort_key cv_criterion_id (filter (\<lambda>r. cv_run_id r = rid) (criterion_checks s)))) of Inl e \<Rightarrow> Inl e | Inr stored \<Rightarrow>
          let verifications = fold (check_criterion env rid s) (rc_acceptance_criteria c) stored;
              artifacts = map (check_artifact env fs rid clock s \<circ> row_to_artifact_check)
                (sort_key ca_artifact_id (filter (\<lambda>r. ca_run_id r = rid) (artifact_checks s)));
              delivery_proven = cc_delivery_confirmed row \<and>
                delivery_valid env rid (case cc_delivery_evidence_ref row of None \<Rightarrow> [] | Some r \<Rightarrow> r) s;
              report = build_completion_report c verifications artifacts delivery_proven (cc_delivery_evidence_ref row) in
          (case find_run_row rid s of
             None \<Rightarrow> Inl (Sqlite QueryReturnedNoRows)
           | Some r \<Rightarrow> Inr (Some (executor_outcome (rn_status r) report))))))"

section \<open>Recording\<close>

definition set_completion_contract :: "contract_json \<Rightarrow> RunCompletionContract \<Rightarrow> completion_db \<Rightarrow> (RunStoreError + unit) \<times> completion_db" where
  "set_completion_contract cj c s = (case validate_completion_contract cj c of Inl e \<Rightarrow> (Inl e, s) | Inr _ \<Rightarrow>
     if list_ex (\<lambda>cr. pred_option (\<lambda>v. v_step_id v = ''agent:output'') (cr_verifier cr) \<and> cr_verifier cr \<noteq> None) (rc_acceptance_criteria c)
     then (Inl (Corrupt ''agent:output verifiers require an agent run''), s)
     else let criteria_json = criteria_to_string cj (rc_acceptance_criteria c);
              artifacts_json = artifacts_to_string cj (rc_required_artifacts c) in
       (case find_contract (rc_run_id c) s of
          None \<Rightarrow>
            if \<not> run_exists (rc_run_id c) (base s)
            then (Inl (RunDb (Sqlite (ConstraintViolation ''FOREIGN KEY constraint failed''))), s)
            else (Inr (), s\<lparr>contracts := contracts s @ [\<lparr>cc_run_id = rc_run_id c, cc_acceptance_criteria_json = criteria_json,
                cc_required_artifacts_json = artifacts_json, cc_delivery_required = rc_delivery_required c,
                cc_delivery_confirmed = False, cc_delivery_evidence_ref = None, cc_created_at = rc_created_at c,
                cc_updated_at = rc_created_at c\<rparr>]\<rparr>)
        | Some stored \<Rightarrow>
            if cc_acceptance_criteria_json stored \<noteq> criteria_json \<or> cc_required_artifacts_json stored \<noteq> artifacts_json \<or>
               cc_delivery_required stored \<noteq> rc_delivery_required c
            then (Inl (RunDb (Invariant (''run '' @ rc_run_id c @ '' already has a different completion contract''))), s)
            else (Inr (), s)))"

definition required_report :: "evidence_env \<Rightarrow> file_system \<Rightarrow> contract_json \<Rightarrow> int \<Rightarrow> string \<Rightarrow> completion_db \<Rightarrow> RunStoreError + RunCompletionReport" where
  "required_report env fs cj clock rid s = (case completion_report env fs cj clock rid s of
      Inl e \<Rightarrow> Inl (RunDb e)
    | Inr None \<Rightarrow> Inl (NotFound ''completion contract'' rid)
    | Inr (Some rp) \<Rightarrow> Inr rp)"

text \<open>\<open>INSERT ... ON CONFLICT(key) DO UPDATE\<close>: the key columns of the row stay, so the row takes the place of the old one.\<close>

definition upsert :: "('r \<Rightarrow> 'k) \<Rightarrow> 'r \<Rightarrow> 'r list \<Rightarrow> 'r list" where
  "upsert key r rows = (if key r \<in> key ` set rows then update_where (\<lambda>q. key q = key r) (\<lambda>_. r) rows else rows @ [r])"

definition record_completion_verification :: "evidence_env \<Rightarrow> file_system \<Rightarrow> contract_json \<Rightarrow> int \<Rightarrow> string \<Rightarrow> CriterionVerification \<Rightarrow> completion_db
   \<Rightarrow> (RunStoreError + unit) \<times> completion_db" where
  "record_completion_verification env fs cj clock rid v s = (case validate_reference_list (vf_evidence_refs v) of Inl e \<Rightarrow> (Inl e, s) | Inr _ \<Rightarrow>
     if vf_status v = VPassed \<and> vf_evidence_refs v = [] then (Inl (Corrupt ''a passing verification requires evidence references''), s)
     else if (case vf_detail v of None \<Rightarrow> False | Some d \<Rightarrow> 2000 < length d)
     then (Inl (Corrupt ''verification detail exceeds 2000 bytes''), s)
     else (case required_report env fs cj clock rid s of Inl e \<Rightarrow> (Inl e, s) | Inr rp \<Rightarrow>
       (case find (\<lambda>c. cr_criterion_id c = vf_criterion_id v) (rc_acceptance_criteria (rp_contract rp)) of
          None \<Rightarrow> (Inl (NotFound ''acceptance criterion'' (vf_criterion_id v)), s)
        | Some c \<Rightarrow>
            if cr_verifier c \<noteq> None then (Inl (Conflict ''a deterministic criterion cannot be overridden by a manual result''), s)
            else if vf_status v = VPassed \<and> \<not> attested env rid (vf_criterion_id v) (vf_evidence_refs v) s
            then (Inl (Corrupt ''a manual passing result requires a scoped Controller attestation''), s)
            else (Inr (), s\<lparr>criterion_checks := upsert (\<lambda>r. (cv_run_id r, cv_criterion_id r))
                   \<lparr>cv_run_id = rid, cv_criterion_id = vf_criterion_id v, cv_status = VerificationStatus_as_str (vf_status v),
                    cv_evidence_refs_json = refs_to_string cj (vf_evidence_refs v), cv_detail = vf_detail v,
                    cv_verified_at = vf_verified_at v\<rparr> (criterion_checks s)\<rparr>))))"

definition record_artifact_verification :: "evidence_env \<Rightarrow> file_system \<Rightarrow> contract_json \<Rightarrow> int \<Rightarrow> string \<Rightarrow> ArtifactVerification \<Rightarrow> completion_db
   \<Rightarrow> (RunStoreError + unit) \<times> completion_db" where
  "record_artifact_verification env fs cj clock rid v s =
     (if av_present v \<and> (case av_evidence_ref v of None \<Rightarrow> True | Some r \<Rightarrow> r = [])
      then (Inl (Corrupt ''a present artifact requires an evidence reference''), s)
      else if (case av_detail v of None \<Rightarrow> False | Some d \<Rightarrow> 2000 < length d) \<or>
          (case av_evidence_ref v of None \<Rightarrow> False | Some r \<Rightarrow> 512 < length r)
      then (Inl (Corrupt ''artifact evidence fields exceed their size limits''), s)
      else (case required_report env fs cj clock rid s of Inl e \<Rightarrow> (Inl e, s) | Inr rp \<Rightarrow>
        if \<not> list_ex (\<lambda>a. ra_artifact_id a = av_artifact_id v) (rc_required_artifacts (rp_contract rp))
        then (Inl (NotFound ''required artifact'' (av_artifact_id v)), s)
        else if av_present v \<and> \<not> run_artifact_exists env fs rid (case av_evidence_ref v of None \<Rightarrow> [] | Some r \<Rightarrow> r) clock s
        then (Inl (Corrupt ''artifact reference has no intact producer in this run''), s)
        else (Inr (), s\<lparr>artifact_checks := upsert (\<lambda>r. (ca_run_id r, ca_artifact_id r))
               \<lparr>ca_run_id = rid, ca_artifact_id = av_artifact_id v, ca_present = av_present v, ca_evidence_ref = av_evidence_ref v,
                ca_detail = av_detail v, ca_checked_at = av_checked_at v\<rparr> (artifact_checks s)\<rparr>)))"

definition confirm_run_delivery :: "evidence_env \<Rightarrow> string \<Rightarrow> string \<Rightarrow> int \<Rightarrow> completion_db \<Rightarrow> (RunStoreError + unit) \<times> completion_db" where
  "confirm_run_delivery env rid evidence_ref confirmed_at s =
     (if rust_trim evidence_ref = [] \<or> 512 < length evidence_ref
      then (Inl (Corrupt ''delivery confirmation requires a bounded evidence reference''), s)
      else if \<not> delivery_valid env rid evidence_ref s
      then (Inl (Corrupt ''delivery reference has no scoped receipt or Controller attestation''), s)
      else let p = (\<lambda>c. cc_run_id c = rid \<and> cc_delivery_required c);
               s1 = s\<lparr>contracts := update_where p (\<lambda>c. c\<lparr>cc_delivery_confirmed := True, cc_delivery_evidence_ref := Some evidence_ref,
                 cc_updated_at := confirmed_at\<rparr>) (contracts s)\<rparr> in
        if count_where p (contracts s) \<noteq> 1 then (Inl (Conflict (''run '' @ rid @ '' has no pending delivery requirement'')), s1)
        else (Inr (), s1))"

section \<open>Forks\<close>

text \<open>\<open>INSERT INTO state_runs\<close> and, when the source has a contract, its copy under the new id.\<close>

definition fork_tx :: "contract_json \<Rightarrow> RunRecord \<Rightarrow> string \<Rightarrow> RunCompletionContract option \<Rightarrow> int \<Rightarrow> completion_db \<Rightarrow> DbError + unit \<times> completion_db" where
  "fork_tx cj source new_id contract now s =
     (if run_exists new_id (base s) then Inl (Sqlite (ConstraintViolation ''UNIQUE constraint failed: state_runs.run_id''))
      else if \<not> input_event_exists (run_conversation_id source) (run_input_event_seq source) (base s)
      then Inl (Sqlite (ConstraintViolation ''FOREIGN KEY constraint failed''))
      else let s1 = s\<lparr>base := append_run (fresh_run new_id \<lparr>nr_conversation_id = run_conversation_id source,
               nr_parent_run_id = Some (run_id source), nr_input_event_seq = run_input_event_seq source, nr_started_at = now,
               nr_deadline_at = None\<rparr>) (base s)\<rparr> in
        (case contract of
           None \<Rightarrow> Inr ((), s1)
         | Some c \<Rightarrow>
             if find_contract new_id s \<noteq> None
             then Inl (Sqlite (ConstraintViolation ''UNIQUE constraint failed: state_run_completion_contracts.run_id''))
             else Inr ((), s1\<lparr>contracts := contracts s1 @ [\<lparr>cc_run_id = rc_run_id c,
                 cc_acceptance_criteria_json = criteria_to_string cj (rc_acceptance_criteria c),
                 cc_required_artifacts_json = artifacts_to_string cj (rc_required_artifacts c), cc_delivery_required = rc_delivery_required c,
                 cc_delivery_confirmed = False, cc_delivery_evidence_ref = None, cc_created_at = now, cc_updated_at = now\<rparr>]\<rparr>)))"

definition fork_run :: "evidence_env \<Rightarrow> file_system \<Rightarrow> contract_json \<Rightarrow> int \<Rightarrow> string \<Rightarrow> string \<Rightarrow> int \<Rightarrow> completion_db
   \<Rightarrow> (RunStoreError + RunRecord) \<times> completion_db" where
  "fork_run env fs cj clock new_id source_run_id now s = (case get_run source_run_id (base s) of
      Inl e \<Rightarrow> (Inl e, s)
    | Inr None \<Rightarrow> (Inl (NotFound ''run'' source_run_id), s)
    | Inr (Some source) \<Rightarrow> (case completion_report env fs cj clock source_run_id s of
        Inl e \<Rightarrow> (Inl (RunDb e), s)
      | Inr report \<Rightarrow>
          let contract = map_option (\<lambda>rp. (rp_contract rp)\<lparr>rc_run_id := new_id, rc_created_at := now\<rparr>) report in
          (case (case contract of None \<Rightarrow> Inr () | Some c \<Rightarrow> validate_completion_contract cj c) of
             Inl e \<Rightarrow> (Inl e, s)
           | Inr _ \<Rightarrow> (case transaction (fork_tx cj source new_id contract now) s of
               (Inl e, s1) \<Rightarrow> (Inl (RunDb e), s1)
             | (Inr _, s1) \<Rightarrow> (case get_run new_id (base s1) of
                 Inl e \<Rightarrow> (Inl e, s1)
               | Inr None \<Rightarrow> (Inl (NotFound ''forked run'' new_id), s1)
               | Inr (Some r) \<Rightarrow> (Inr r, s1))))))"

end
