(* ===== verification/Completion_Machine.thy ===== *)
theory Completion_Machine
  imports Run_Completion
begin

text \<open>
  What a completion report says about the persisted evidence, and the store of contracts as a state machine.
\<close>

section \<open>The outcome of a report\<close>

definition clear :: "outcome_flags \<Rightarrow> bool" where
  "clear fl \<longleftrightarrow> \<not> fl_blocked fl \<and> \<not> fl_incomplete fl \<and> \<not> fl_partial fl"

definition explained :: "outcome_flags \<Rightarrow> bool" where
  "explained fl \<longleftrightarrow> (clear fl \<longleftrightarrow> fl_unfinished fl = [])"

lemma note_criterion_clear:
  "explained fl \<Longrightarrow> explained (note_criterion (c, v) fl) \<and> (clear (note_criterion (c, v) fl) \<longleftrightarrow> clear fl \<and> vf_status v = VPassed)"
  by (auto simp: explained_def clear_def note_criterion_def Let_def split: VerificationStatus.split)

lemma note_artifact_clear:
  "explained fl \<Longrightarrow> explained (note_artifact (a, v) fl) \<and> (clear (note_artifact (a, v) fl) \<longleftrightarrow> clear fl \<and> av_checked_at v \<noteq> 0 \<and> av_present v)"
  by (auto simp: explained_def clear_def note_artifact_def)

lemma note_criteria_clear:
  "explained fl \<Longrightarrow> explained (fold note_criterion cvs fl) \<and>
   (clear (fold note_criterion cvs fl) \<longleftrightarrow> clear fl \<and> (\<forall>(c, v) \<in> set cvs. vf_status v = VPassed))"
proof (induction cvs arbitrary: fl)
  case (Cons cv cvs)
  obtain c v where "cv = (c, v)" by (cases cv)
  with note_criterion_clear [OF Cons.prems, of c v] Cons.IH show ?case by auto
qed simp

lemma note_artifacts_clear:
  "explained fl \<Longrightarrow> explained (fold note_artifact avs fl) \<and>
   (clear (fold note_artifact avs fl) \<longleftrightarrow> clear fl \<and> (\<forall>(a, v) \<in> set avs. av_checked_at v \<noteq> 0 \<and> av_present v))"
proof (induction avs arbitrary: fl)
  case (Cons av avs)
  obtain a v where "av = (a, v)" by (cases av)
  with note_artifact_clear [OF Cons.prems, of a v] Cons.IH show ?case by auto
qed simp

lemma build_completion_report_status:
  assumes "rp = build_completion_report c vs as delivered reference"
  shows "rp_status rp = VerifiedComplete \<longleftrightarrow> (\<forall>cr \<in> set (rc_acceptance_criteria c). vf_status (criterion_result vs cr) = VPassed) \<and>
      (\<forall>a \<in> set (rc_required_artifacts c). av_checked_at (artifact_result as a) \<noteq> 0 \<and> av_present (artifact_result as a)) \<and>
      (rc_delivery_required c \<longrightarrow> delivered)"
    and "rp_unfinished rp = [] \<longleftrightarrow> rp_status rp = VerifiedComplete"
proof -
  define cvs where "cvs = zip (rc_acceptance_criteria c) (map (criterion_result vs) (rc_acceptance_criteria c))"
  define avs where "avs = zip (rc_required_artifacts c) (map (artifact_result as) (rc_required_artifacts c))"
  define fl0 where "fl0 = \<lparr>fl_blocked = False, fl_incomplete = False, fl_partial = False, fl_unfinished = []\<rparr>"
  define fl1 where "fl1 = fold note_criterion cvs fl0"
  define fl2 where "fl2 = fold note_artifact avs fl1"
  define fl3 where "fl3 = (if rc_delivery_required c \<and> \<not> delivered
    then fl2\<lparr>fl_incomplete := True, fl_unfinished := fl_unfinished fl2 @ [''Required delivery has no durable confirmation'']\<rparr> else fl2)"
  have 0: "explained fl0" "clear fl0" by (simp_all add: fl0_def explained_def clear_def)
  have 1: "explained fl1" "clear fl1 \<longleftrightarrow> (\<forall>(c, v) \<in> set cvs. vf_status v = VPassed)"
    using note_criteria_clear [OF 0(1), of cvs] 0(2) by (simp_all add: fl1_def)
  have 2: "explained fl2" "clear fl2 \<longleftrightarrow> clear fl1 \<and> (\<forall>(a, v) \<in> set avs. av_checked_at v \<noteq> 0 \<and> av_present v)"
    using note_artifacts_clear [OF 1(1), of avs] by (simp_all add: fl2_def)
  have 3: "explained fl3" "clear fl3 \<longleftrightarrow> clear fl2 \<and> (rc_delivery_required c \<longrightarrow> delivered)"
    using 2(1) by (auto simp: fl3_def explained_def clear_def)
  have rp: "rp_status rp = VerifiedComplete \<longleftrightarrow> clear fl3" "rp_unfinished rp = fl_unfinished fl3"
    unfolding assms build_completion_report_def Let_def cvs_def [symmetric] avs_def [symmetric] fl0_def [symmetric] fl1_def [symmetric]
      fl2_def [symmetric] fl3_def [symmetric] by (auto simp: clear_def)
  show "rp_unfinished rp = [] \<longleftrightarrow> rp_status rp = VerifiedComplete" using rp 3(1) by (simp add: explained_def)
  have "cvs = map (\<lambda>cr. (cr, criterion_result vs cr)) (rc_acceptance_criteria c)"
    "avs = map (\<lambda>a. (a, artifact_result as a)) (rc_required_artifacts c)"
    by (simp_all add: cvs_def avs_def zip_map2 zip_same_conv_map)
  then show "rp_status rp = VerifiedComplete \<longleftrightarrow> (\<forall>cr \<in> set (rc_acceptance_criteria c). vf_status (criterion_result vs cr) = VPassed) \<and>
      (\<forall>a \<in> set (rc_required_artifacts c). av_checked_at (artifact_result as a) \<noteq> 0 \<and> av_present (artifact_result as a)) \<and>
      (rc_delivery_required c \<longrightarrow> delivered)"
    using rp(1) 1(2) 2(2) 3(2) by auto
qed

lemma executor_outcome_status:
  "(rp_unfinished rp = [] \<longleftrightarrow> rp_status rp = VerifiedComplete) \<Longrightarrow>
   (rp_status (executor_outcome st rp) = VerifiedComplete \<longleftrightarrow> st = ''completed'' \<and> rp_status rp = VerifiedComplete) \<and>
   (rp_unfinished (executor_outcome st rp) = [] \<longleftrightarrow> rp_status (executor_outcome st rp) = VerifiedComplete)"
  by (auto simp: executor_outcome_def)

section \<open>Records by key\<close>

lemma update_first_distinct:
  "distinct (map key vs) \<Longrightarrow> update_first (\<lambda>i. key i = k) f vs = update_where (\<lambda>i. key i = k) f vs"
proof (induction vs)
  case (Cons v vs)
  show ?case
  proof (cases "key v = k")
    case True
    with Cons.prems have "update_where (\<lambda>i. key i = k) f vs = vs" by (intro update_where_none) (metis distinct.simps(2) imageI list.set_map list.simps(9))
    with True show ?thesis by simp
  qed (use Cons in simp)
qed simp

lemma last_by_update_where:
  "(\<And>i. key (f i) = key i) \<Longrightarrow> last_by key (update_where (\<lambda>i. key i = k) f vs) k' =
   map_option (\<lambda>i. if key i = k then f i else i) (last_by key vs k')"
  by (simp add: last_by_def update_where_def rev_map find_update_where_key [of "\<lambda>i. key i = k" key f k' "rev vs", unfolded update_where_def])

lemma last_by_append: "last_by key (vs @ [v]) k = (if key v = k then Some v else last_by key vs k)"
  by (simp add: last_by_def)

lemma last_by_filter: "k \<noteq> k' \<Longrightarrow> last_by key (filter (\<lambda>i. key i \<noteq> k') vs) k = last_by key vs k"
  unfolding last_by_def by (induction vs rule: rev_induct) auto

lemma last_by_Some: "last_by key vs k = Some v \<Longrightarrow> v \<in> set vs \<and> key v = k"
  unfolding last_by_def by (auto dest: find_SomeD)

lemma last_by_distinct: "distinct (map key vs) \<Longrightarrow> last_by key vs k = Some v \<longleftrightarrow> v \<in> set vs \<and> key v = k"
  unfolding last_by_def using find_key_iff [of key "rev vs" k v] by (auto simp: rev_map [symmetric])

section \<open>Checked criteria\<close>

definition block_unattested :: "evidence_env \<Rightarrow> string \<Rightarrow> completion_db \<Rightarrow> CriterionVerification \<Rightarrow> CriterionVerification" where
  "block_unattested env rid s i = (if vf_status i = VPassed \<and> \<not> attested env rid (vf_criterion_id i) (vf_evidence_refs i) s
     then i\<lparr>vf_status := VBlocked, vf_detail := Some ''Controller attestation is missing or invalid''\<rparr> else i)"

lemma check_criterion_keys:
  "distinct (map vf_criterion_id vs) \<Longrightarrow> distinct (map vf_criterion_id (check_criterion env rid s c vs))"
proof (cases "cr_verifier c")
  case None
  assume d: "distinct (map vf_criterion_id vs)"
  then have "map vf_criterion_id (check_criterion env rid s c vs) = map vf_criterion_id vs"
    unfolding check_criterion_def None by (auto simp: update_first_distinct update_where_def)
  with d show ?thesis by simp
qed (auto simp: check_criterion_def distinct_map_filter split: prod.split)

lemma check_criterion_other:
  "distinct (map vf_criterion_id vs) \<Longrightarrow> k \<noteq> cr_criterion_id c \<Longrightarrow> last_by vf_criterion_id (check_criterion env rid s c vs) k = last_by vf_criterion_id vs k"
  by (auto simp: check_criterion_def last_by_append last_by_filter update_first_distinct last_by_update_where dest: last_by_Some
      split: option.split prod.split intro!: option.map_ident_strong)

lemma check_criterion_same:
  assumes "distinct (map vf_criterion_id vs)"
  shows "map_option vf_status (last_by vf_criterion_id (check_criterion env rid s c vs) (cr_criterion_id c)) = (case cr_verifier c of
      Some v \<Rightarrow> Some (fst (verify_step env v (find_step rid (v_step_id v) (base s))))
    | None \<Rightarrow> map_option (vf_status \<circ> block_unattested env rid s) (last_by vf_criterion_id vs (cr_criterion_id c)))"
proof (cases "cr_verifier c")
  case None
  have "last_by vf_criterion_id (check_criterion env rid s c vs) (cr_criterion_id c) =
      map_option (block_unattested env rid s) (last_by vf_criterion_id vs (cr_criterion_id c))"
    unfolding check_criterion_def None option.case
    by (subst update_first_distinct [OF assms], subst last_by_update_where)
      (auto simp: block_unattested_def dest: last_by_Some intro!: option.map_cong)
  then show ?thesis by (simp add: None option.map_comp)
qed (auto simp: check_criterion_def last_by_append split: prod.split)

lemma check_criteria_keys:
  "distinct (map vf_criterion_id vs) \<Longrightarrow> distinct (map vf_criterion_id (fold (check_criterion env rid s) cs vs))"
  by (induction cs arbitrary: vs) (simp_all add: check_criterion_keys)

lemma check_criteria_other:
  "distinct (map vf_criterion_id vs) \<Longrightarrow> k \<notin> cr_criterion_id ` set cs \<Longrightarrow>
   last_by vf_criterion_id (fold (check_criterion env rid s) cs vs) k = last_by vf_criterion_id vs k"
  by (induction cs arbitrary: vs) (simp_all add: check_criterion_keys check_criterion_other)

lemma check_criteria_same:
  assumes "distinct (map vf_criterion_id vs)" "distinct (map cr_criterion_id cs)" "c \<in> set cs"
  shows "map_option vf_status (last_by vf_criterion_id (fold (check_criterion env rid s) cs vs) (cr_criterion_id c)) = (case cr_verifier c of
      Some v \<Rightarrow> Some (fst (verify_step env v (find_step rid (v_step_id v) (base s))))
    | None \<Rightarrow> map_option (vf_status \<circ> block_unattested env rid s) (last_by vf_criterion_id vs (cr_criterion_id c)))"
  using assms
proof (induction cs arbitrary: vs)
  case (Cons d cs)
  show ?case
  proof (cases "d = c")
    case True
    with Cons.prems have "cr_criterion_id c \<notin> cr_criterion_id ` set cs" by simp
    with True check_criteria_other [OF check_criterion_keys [OF Cons.prems(1)]] check_criterion_same [OF Cons.prems(1)]
    show ?thesis by simp
  next
    case False
    with Cons.prems have "c \<in> set cs" by simp
    with Cons.prems(2) have c: "c \<in> set cs" "cr_criterion_id c \<noteq> cr_criterion_id d"
      by (simp, metis distinct.simps(2) imageI list.set_map list.simps(9))
    with Cons.IH [OF check_criterion_keys [OF Cons.prems(1)]] Cons.prems check_criterion_other [OF Cons.prems(1) c(2)]
    show ?thesis by (simp split: option.split)
  qed
qed simp

section \<open>The evidence behind a report\<close>

text \<open>The keys of the tables, and contracts that were validated before they were stored.\<close>

abbreviation check_key :: "verification_row \<Rightarrow> string \<times> string" where
  "check_key r \<equiv> (cv_run_id r, cv_criterion_id r)"

abbreviation artifact_key :: "artifact_check_row \<Rightarrow> string \<times> string" where
  "artifact_key r \<equiv> (ca_run_id r, ca_artifact_id r)"

definition contract_row_ok :: "contract_json \<Rightarrow> contract_row \<Rightarrow> bool" where
  "contract_row_ok cj r \<longleftrightarrow> (\<exists>cs as. criteria_from_str cj (cc_acceptance_criteria_json r) = Some cs \<and> distinct (map cr_criterion_id cs) \<and>
     artifacts_from_str cj (cc_required_artifacts_json r) = Some as \<and> distinct (map ra_artifact_id as))"

definition completion_store_ok :: "contract_json \<Rightarrow> completion_db \<Rightarrow> bool" where
  "completion_store_ok cj s \<longleftrightarrow> distinct (map cc_run_id (contracts s)) \<and> distinct (map check_key (criterion_checks s)) \<and>
     distinct (map artifact_key (artifact_checks s)) \<and> (\<forall>r \<in> set (contracts s). contract_row_ok cj r)"

definition criterion_met :: "evidence_env \<Rightarrow> contract_json \<Rightarrow> string \<Rightarrow> completion_db \<Rightarrow> AcceptanceCriterion \<Rightarrow> bool" where
  "criterion_met env cj rid s c \<longleftrightarrow> (case cr_verifier c of
      Some v \<Rightarrow> fst (verify_step env v (find_step rid (v_step_id v) (base s))) = VPassed
    | None \<Rightarrow> (\<exists>r \<in> set (criterion_checks s). check_key r = (rid, cr_criterion_id c) \<and> cv_status r = ''passed'' \<and>
        (\<exists>refs. refs_from_str cj (cv_evidence_refs_json r) = Some refs \<and> attested env rid (cr_criterion_id c) refs s)))"

definition artifact_met :: "evidence_env \<Rightarrow> file_system \<Rightarrow> int \<Rightarrow> string \<Rightarrow> completion_db \<Rightarrow> RequiredRunArtifact \<Rightarrow> bool" where
  "artifact_met env fs clock rid s a \<longleftrightarrow> (\<exists>r \<in> set (artifact_checks s). artifact_key r = (rid, ra_artifact_id a) \<and> ca_checked_at r \<noteq> 0 \<and>
     ca_present r \<and> run_artifact_exists env fs rid (case ca_evidence_ref r of None \<Rightarrow> [] | Some x \<Rightarrow> x) clock s)"

definition delivery_met :: "evidence_env \<Rightarrow> string \<Rightarrow> completion_db \<Rightarrow> bool" where
  "delivery_met env rid s \<longleftrightarrow> (case find_contract rid s of
      None \<Rightarrow> False
    | Some r \<Rightarrow> cc_delivery_confirmed r \<and> delivery_valid env rid (case cc_delivery_evidence_ref r of None \<Rightarrow> [] | Some x \<Rightarrow> x) s)"

lemma distinct_run_key:
  assumes "distinct (map (\<lambda>r. (f r, g r)) rows)"
  shows "distinct (map g (sort_key g (filter (\<lambda>r. f r = k) rows)))"
proof -
  have "inj_on g (set (filter (\<lambda>r. f r = k) rows))" using assms by (auto simp: distinct_map inj_on_def)
  moreover have "distinct (filter (\<lambda>r. f r = k) rows)" using assms by (simp add: distinct_map)
  ultimately show ?thesis by (simp add: distinct_map)
qed

lemma map_Inr_keys: "map f xs = map Inr ys \<Longrightarrow> (\<And>x y. f x = Inr y \<Longrightarrow> k y = j x) \<Longrightarrow> map k ys = map j xs"
  by (induction xs ys rule: list_induct2') auto

lemma stored_verifications:
  assumes "distinct (map check_key rows)" "collect_results (map (row_to_verification cj)
      (sort_key cv_criterion_id (filter (\<lambda>r. cv_run_id r = rid) rows))) = Inr stored"
  shows "distinct (map vf_criterion_id stored)"
    "last_by vf_criterion_id stored k = Some v \<longleftrightarrow> (\<exists>r \<in> set rows. check_key r = (rid, k) \<and> row_to_verification cj r = Inr v)"
proof -
  let ?rows = "sort_key cv_criterion_id (filter (\<lambda>r. cv_run_id r = rid) rows)"
  have dec: "map (row_to_verification cj) ?rows = map Inr stored" using assms(2) by (simp add: collect_results_Inr)
  have id: "row_to_verification cj r = Inr v \<Longrightarrow> vf_criterion_id v = cv_criterion_id r" for r v
    by (auto simp: row_to_verification_def split: option.splits)
  have "map vf_criterion_id stored = map cv_criterion_id ?rows"
    by (rule map_Inr_keys [OF dec id])
  then show d: "distinct (map vf_criterion_id stored)" using distinct_run_key [OF assms(1)] by simp
  have "v \<in> set stored \<longleftrightarrow> (\<exists>r \<in> set rows. cv_run_id r = rid \<and> row_to_verification cj r = Inr v)" for v
  proof -
    have "v \<in> set stored \<longleftrightarrow> (Inr v :: DbError + CriterionVerification) \<in> set (map Inr stored)" by auto
    then show ?thesis unfolding dec [symmetric] by (auto simp: image_iff)
  qed
  then show "last_by vf_criterion_id stored k = Some v \<longleftrightarrow> (\<exists>r \<in> set rows. check_key r = (rid, k) \<and> row_to_verification cj r = Inr v)"
    unfolding last_by_distinct [OF d] by (metis id prod.inject)
qed

lemma passed_row:
  "(\<exists>v. row_to_verification cj r = Inr v \<and> vf_status v = VPassed \<and> attested env rid (vf_criterion_id v) (vf_evidence_refs v) s) \<longleftrightarrow>
   cv_status r = ''passed'' \<and> (\<exists>refs. refs_from_str cj (cv_evidence_refs_json r) = Some refs \<and> attested env rid (cv_criterion_id r) refs s)"
proof -
  have "cv_status r = ''passed'' \<longleftrightarrow> VerificationStatus_parse (cv_status r) = Some VPassed" by (simp add: verification_status.parse_iff)
  then show ?thesis unfolding row_to_verification_def
    by (cases "VerificationStatus_parse (cv_status r)"; cases "refs_from_str cj (cv_evidence_refs_json r)") auto
qed

lemma criterion_passed:
  assumes "distinct (map check_key (criterion_checks s))" "collect_results (map (row_to_verification cj)
      (sort_key cv_criterion_id (filter (\<lambda>r. cv_run_id r = rid) (criterion_checks s)))) = Inr stored"
    "distinct (map cr_criterion_id cs)" "c \<in> set cs"
  shows "vf_status (criterion_result (fold (check_criterion env rid s) cs stored) c) = VPassed \<longleftrightarrow> criterion_met env cj rid s c"
proof -
  note st = stored_verifications [OF assms(1,2)]
  have "vf_status (criterion_result (fold (check_criterion env rid s) cs stored) c) = VPassed \<longleftrightarrow>
      map_option vf_status (last_by vf_criterion_id (fold (check_criterion env rid s) cs stored) (cr_criterion_id c)) = Some VPassed"
    by (auto simp: criterion_result_def split: option.split)
  also have "\<dots> \<longleftrightarrow> criterion_met env cj rid s c"
  proof (cases "cr_verifier c")
    case (Some v)
    then show ?thesis using check_criteria_same [OF st(1) assms(3,4), of env rid s] by (auto simp: criterion_met_def)
  next
    case None
    have "vf_status (block_unattested env rid s i) = VPassed \<longleftrightarrow> vf_status i = VPassed \<and> attested env rid (vf_criterion_id i) (vf_evidence_refs i) s" for i
      by (auto simp: block_unattested_def)
    then have "map_option vf_status (last_by vf_criterion_id (fold (check_criterion env rid s) cs stored) (cr_criterion_id c)) = Some VPassed \<longleftrightarrow>
        (\<exists>i. last_by vf_criterion_id stored (cr_criterion_id c) = Some i \<and> vf_status i = VPassed \<and>
          attested env rid (vf_criterion_id i) (vf_evidence_refs i) s)"
      using check_criteria_same [OF st(1) assms(3,4), of env rid s] by (auto simp: None)
    also have "\<dots> \<longleftrightarrow> (\<exists>r \<in> set (criterion_checks s). check_key r = (rid, cr_criterion_id c) \<and> (\<exists>v. row_to_verification cj r = Inr v \<and>
        vf_status v = VPassed \<and> attested env rid (vf_criterion_id v) (vf_evidence_refs v) s))"
      unfolding st(2) by blast
    also have "\<dots> \<longleftrightarrow> criterion_met env cj rid s c"
      unfolding passed_row criterion_met_def None option.case by (intro bex_cong refl) auto
    finally show ?thesis .
  qed
  finally show ?thesis .
qed

lemma artifact_passed:
  assumes "distinct (map artifact_key (artifact_checks s))" "as = map (check_artifact env fs rid clock s \<circ> row_to_artifact_check)
      (sort_key ca_artifact_id (filter (\<lambda>r. ca_run_id r = rid) (artifact_checks s)))"
  shows "av_checked_at (artifact_result as a) \<noteq> 0 \<and> av_present (artifact_result as a) \<longleftrightarrow> artifact_met env fs clock rid s a"
proof -
  let ?f = "check_artifact env fs rid clock s \<circ> row_to_artifact_check"
  have f: "av_artifact_id (?f r) = ca_artifact_id r" for r by (simp add: check_artifact_def row_to_artifact_check_def)
  have "map av_artifact_id as = map ca_artifact_id (sort_key ca_artifact_id (filter (\<lambda>r. ca_run_id r = rid) (artifact_checks s)))"
    unfolding assms(2) using f by simp
  then have d: "distinct (map av_artifact_id as)" using distinct_run_key [OF assms(1)] by simp
  have "av_checked_at (artifact_result as a) \<noteq> 0 \<and> av_present (artifact_result as a) \<longleftrightarrow>
      (\<exists>v. last_by av_artifact_id as (ra_artifact_id a) = Some v \<and> av_checked_at v \<noteq> 0 \<and> av_present v)"
    by (auto simp: artifact_result_def split: option.split)
  also have "\<dots> \<longleftrightarrow> (\<exists>r \<in> set (artifact_checks s). artifact_key r = (rid, ra_artifact_id a) \<and> av_checked_at (?f r) \<noteq> 0 \<and> av_present (?f r))"
    unfolding last_by_distinct [OF d] using f by (auto simp: assms(2))
  also have "\<dots> \<longleftrightarrow> artifact_met env fs clock rid s a"
    unfolding artifact_met_def by (auto simp: check_artifact_def row_to_artifact_check_def)
  finally show ?thesis .
qed

lemma completion_report_facts:
  assumes ok: "completion_store_ok cj s" and rp: "completion_report env fs cj clock rid s = Inr (Some rp)"
  shows "rp_status rp = VerifiedComplete \<longleftrightarrow> map_option rn_status (find_run_row rid s) = Some ''completed'' \<and>
      (\<forall>c \<in> set (rc_acceptance_criteria (rp_contract rp)). criterion_met env cj rid s c) \<and>
      (\<forall>a \<in> set (rc_required_artifacts (rp_contract rp)). artifact_met env fs clock rid s a) \<and>
      (rc_delivery_required (rp_contract rp) \<longrightarrow> delivery_met env rid s)"
    and "rp_unfinished rp = [] \<longleftrightarrow> rp_status rp = VerifiedComplete"
proof -
  from rp obtain row c stored r where row: "find_contract rid s = Some row" "row_to_contract cj row = Inr c" and
    stored: "collect_results (map (row_to_verification cj) (sort_key cv_criterion_id (filter (\<lambda>r. cv_run_id r = rid) (criterion_checks s)))) = Inr stored" and
    run: "find_run_row rid s = Some r"
    unfolding completion_report_def Let_def by (auto split: option.splits sum.splits)
  define as where "as = map (check_artifact env fs rid clock s \<circ> row_to_artifact_check)
      (sort_key ca_artifact_id (filter (\<lambda>r. ca_run_id r = rid) (artifact_checks s)))"
  define built where "built = build_completion_report c (fold (check_criterion env rid s) (rc_acceptance_criteria c) stored) as
      (delivery_met env rid s) (cc_delivery_evidence_ref row)"
  from rp have eq: "rp = executor_outcome (rn_status r) built"
    unfolding completion_report_def Let_def built_def as_def delivery_met_def by (simp add: row stored run)
  have contract: "rp_contract rp = c" by (simp add: eq executor_outcome_def built_def build_completion_report_def Let_def)
  have "row \<in> set (contracts s)" using row(1) by (auto simp: find_contract_def dest: find_SomeD)
  with ok have "contract_row_ok cj row" by (simp add: completion_store_ok_def)
  with row(2) have distinct: "distinct (map cr_criterion_id (rc_acceptance_criteria c))"
    by (auto simp: contract_row_ok_def row_to_contract_def)
  note built = build_completion_report_status [OF built_def]
  note exec = executor_outcome_status [OF built(2), of "rn_status r", folded eq]
  show "rp_unfinished rp = [] \<longleftrightarrow> rp_status rp = VerifiedComplete" using exec by simp
  have "(\<forall>cr \<in> set (rc_acceptance_criteria c). vf_status (criterion_result (fold (check_criterion env rid s) (rc_acceptance_criteria c) stored) cr) = VPassed) \<longleftrightarrow>
      (\<forall>cr \<in> set (rc_acceptance_criteria c). criterion_met env cj rid s cr)"
    using ok by (intro ball_cong refl criterion_passed [OF _ stored distinct]) (simp_all add: completion_store_ok_def)
  moreover have "(\<forall>a \<in> set (rc_required_artifacts c). av_checked_at (artifact_result as a) \<noteq> 0 \<and> av_present (artifact_result as a)) \<longleftrightarrow>
      (\<forall>a \<in> set (rc_required_artifacts c). artifact_met env fs clock rid s a)"
    using ok by (intro ball_cong refl artifact_passed [OF _ as_def]) (simp_all add: completion_store_ok_def)
  ultimately show "rp_status rp = VerifiedComplete \<longleftrightarrow> map_option rn_status (find_run_row rid s) = Some ''completed'' \<and>
      (\<forall>c \<in> set (rc_acceptance_criteria (rp_contract rp)). criterion_met env cj rid s c) \<and>
      (\<forall>a \<in> set (rc_required_artifacts (rp_contract rp)). artifact_met env fs clock rid s a) \<and>
      (rc_delivery_required (rp_contract rp) \<longrightarrow> delivery_met env rid s)"
    using exec built(1) by (simp add: contract run)
qed

section \<open>The machine\<close>

datatype completion_action =
    SetContract RunCompletionContract
  | RecordCriterion file_system int string CriterionVerification
  | RecordArtifact file_system int string ArtifactVerification
  | ConfirmDelivery string string int
  | Fork file_system int string string int
  | OnRuns run_action

fun completion_step :: "evidence_env \<Rightarrow> contract_json \<Rightarrow> completion_db \<Rightarrow> completion_action \<Rightarrow> completion_db" where
  "completion_step env cj s (SetContract c) = snd (set_completion_contract cj c s)"
| "completion_step env cj s (RecordCriterion fs clock rid v) = snd (record_completion_verification env fs cj clock rid v s)"
| "completion_step env cj s (RecordArtifact fs clock rid v) = snd (record_artifact_verification env fs cj clock rid v s)"
| "completion_step env cj s (ConfirmDelivery rid reference at) = snd (confirm_run_delivery env rid reference at s)"
| "completion_step env cj s (Fork fs clock new_id source now) = snd (fork_run env fs cj clock new_id source now s)"
| "completion_step env cj s (OnRuns a) = s\<lparr>base := store_step (base s) a\<rparr>"

definition contract_codec :: "contract_json \<Rightarrow> bool" where
  "contract_codec cj \<longleftrightarrow> (\<forall>cs. criteria_from_str cj (criteria_to_string cj cs) = Some cs) \<and>
     (\<forall>as. artifacts_from_str cj (artifacts_to_string cj as) = Some as)"

lemma validate_criteria_distinct:
  "validate_criteria cj seen cs = Inr () \<Longrightarrow> distinct (map cr_criterion_id cs) \<and> set (map cr_criterion_id cs) \<inter> set seen = {}"
  by (induction cj seen cs rule: validate_criteria.induct) (auto split: if_splits)

lemma validate_artifacts_distinct:
  "validate_artifacts seen as = Inr () \<Longrightarrow> distinct (map ra_artifact_id as) \<and> set (map ra_artifact_id as) \<inter> set seen = {}"
  by (induction seen as rule: validate_artifacts.induct) (auto split: if_splits)

lemma validate_contract_distinct:
  assumes "validate_completion_contract cj c = Inr u"
  shows "distinct (map cr_criterion_id (rc_acceptance_criteria c)) \<and> distinct (map ra_artifact_id (rc_required_artifacts c))"
proof -
  from assms have "validate_criteria cj [] (rc_acceptance_criteria c) = Inr ()" "validate_artifacts [] (rc_required_artifacts c) = Inr ()"
    unfolding validate_completion_contract_def by (auto split: if_splits sum.splits)
  with validate_criteria_distinct [of cj "[]"] validate_artifacts_distinct [of "[]"] show ?thesis by blast
qed

text \<open>What every step does to the contracts: an update that keeps the terms, then new rows under new ids.\<close>

definition same_terms :: "contract_row \<Rightarrow> contract_row \<Rightarrow> bool" where
  "same_terms r q \<longleftrightarrow> cc_run_id q = cc_run_id r \<and> cc_acceptance_criteria_json q = cc_acceptance_criteria_json r \<and>
     cc_required_artifacts_json q = cc_required_artifacts_json r \<and> cc_delivery_required q = cc_delivery_required r \<and>
     (cc_delivery_confirmed r \<longrightarrow> cc_delivery_confirmed q)"

definition contract_row_of :: "contract_json \<Rightarrow> RunCompletionContract \<Rightarrow> contract_row" where
  "contract_row_of cj c = \<lparr>cc_run_id = rc_run_id c, cc_acceptance_criteria_json = criteria_to_string cj (rc_acceptance_criteria c),
     cc_required_artifacts_json = artifacts_to_string cj (rc_required_artifacts c), cc_delivery_required = rc_delivery_required c,
     cc_delivery_confirmed = False, cc_delivery_evidence_ref = None, cc_created_at = rc_created_at c, cc_updated_at = rc_created_at c\<rparr>"

inductive contracts_grow :: "contract_json \<Rightarrow> contract_row list \<Rightarrow> contract_row list \<Rightarrow> bool" for cj where
  same: "contracts_grow cj rows rows"
| added: "validate_completion_contract cj c = Inr u \<Longrightarrow> rc_run_id c \<notin> cc_run_id ` set rows \<Longrightarrow> contracts_grow cj rows (rows @ [contract_row_of cj c])"
| confirmed: "(\<And>r. same_terms r (f r)) \<Longrightarrow> contracts_grow cj rows (update_where p f rows)"

lemma find_contract_None: "find_contract rid s = None \<longleftrightarrow> rid \<notin> cc_run_id ` set (contracts s)"
  unfolding find_contract_def by (auto simp: find_None_iff)

lemma set_contract_grow: "contracts_grow cj (contracts s) (contracts (snd (set_completion_contract cj c s)))"
  unfolding set_completion_contract_def Let_def
  by (auto split: sum.split option.split simp: find_contract_None contract_row_of_def [symmetric] intro: same added)

lemma fork_tx_grow:
  "fork_tx cj src new_id None now s = Inr (u, s') \<Longrightarrow> contracts_grow cj (contracts s) (contracts s')"
  "fork_tx cj src new_id (Some (c\<lparr>rc_run_id := new_id, rc_created_at := now\<rparr>)) now s = Inr (u, s') \<Longrightarrow>
   validate_completion_contract cj (c\<lparr>rc_run_id := new_id, rc_created_at := now\<rparr>) = Inr w \<Longrightarrow> contracts_grow cj (contracts s) (contracts s')"
proof -
  show "fork_tx cj src new_id None now s = Inr (u, s') \<Longrightarrow> contracts_grow cj (contracts s) (contracts s')"
    unfolding fork_tx_def Let_def by (auto split: if_splits intro: same)
  let ?c = "c\<lparr>rc_run_id := new_id, rc_created_at := now\<rparr>"
  assume tx: "fork_tx cj src new_id (Some ?c) now s = Inr (u, s')" and valid: "validate_completion_contract cj ?c = Inr w"
  from tx have "contracts s' = contracts s @ [contract_row_of cj ?c]" "find_contract new_id s = None"
    unfolding fork_tx_def Let_def contract_row_of_def by (auto split: if_splits)
  then show "contracts_grow cj (contracts s) (contracts s')" using added [OF valid, of "contracts s"] by (simp add: find_contract_None)
qed

lemma fork_grow: "contracts_grow cj (contracts s) (contracts (snd (fork_run env fs cj clock new_id source now s)))"
  unfolding fork_run_def Let_def transaction_def
  by (auto split: sum.split option.split prod.split intro: same dest: fork_tx_grow)

lemma completion_step_grow: "contracts_grow cj (contracts s) (contracts (completion_step env cj s a))"
proof (cases a)
  case (ConfirmDelivery rid reference at)
  have "contracts_grow cj (contracts s) (update_where p (\<lambda>c. c\<lparr>cc_delivery_confirmed := True, cc_delivery_evidence_ref := Some reference,
      cc_updated_at := at\<rparr>) (contracts s))" for p
    by (rule confirmed) (simp add: same_terms_def)
  with ConfirmDelivery show ?thesis by (simp add: confirm_run_delivery_def Let_def same)
next
  case (RecordCriterion fs clock rid v)
  then show ?thesis by (auto simp: record_completion_verification_def same split: sum.split option.split)
next
  case (RecordArtifact fs clock rid v)
  then show ?thesis by (auto simp: record_artifact_verification_def same split: sum.split option.split)
qed (simp_all add: set_contract_grow fork_grow same)

lemma contracts_grow_find:
  "contracts_grow cj rows rows' \<Longrightarrow> find (\<lambda>c. cc_run_id c = rid) rows = Some r \<Longrightarrow>
   \<exists>q. find (\<lambda>c. cc_run_id c = rid) rows' = Some q \<and> same_terms r q"
proof (induction rule: contracts_grow.induct)
  case (confirmed f rows p)
  then have "find (\<lambda>c. cc_run_id c = rid) (update_where p f rows) = Some (if p r then f r else r)"
    by (simp add: find_update_where_key [of p cc_run_id] same_terms_def)
  with confirmed show ?case by (auto simp: same_terms_def)
qed (auto simp: find_append same_terms_def)

lemma contracts_grow_ok:
  assumes "contract_codec cj" "contracts_grow cj rows rows'" "distinct (map cc_run_id rows)" "\<forall>r \<in> set rows. contract_row_ok cj r"
  shows "distinct (map cc_run_id rows') \<and> (\<forall>r \<in> set rows'. contract_row_ok cj r)"
  using assms(2,1,3,4)
proof (induction rule: contracts_grow.induct)
  case (added c u rows)
  with validate_contract_distinct [OF added.hyps(1)] show ?case
    by (auto simp: contract_row_of_def contract_row_ok_def contract_codec_def)
next
  case (confirmed f rows p)
  have "map cc_run_id (update_where p f rows) = map cc_run_id rows" using confirmed(1) by (simp add: update_where_def same_terms_def)
  moreover have "contract_row_ok cj (f r)" if "contract_row_ok cj r" for r
    using that confirmed(1) [of r] by (simp add: contract_row_ok_def same_terms_def)
  ultimately show ?case using confirmed by (auto simp: set_update_where)
qed simp

lemma upsert_keys:
  assumes "distinct (map key rows)"
  shows "distinct (map key (upsert key r rows))"
proof (cases "key r \<in> key ` set rows")
  case True
  have "map key (update_where (\<lambda>q. key q = key r) (\<lambda>_. r) rows) = map key rows" by (auto simp: update_where_def)
  with True assms show ?thesis by (simp add: upsert_def)
qed (use assms in \<open>simp add: upsert_def\<close>)

lemma completion_step_checks:
  assumes "distinct (map check_key (criterion_checks s))" "distinct (map artifact_key (artifact_checks s))"
  shows "distinct (map check_key (criterion_checks (completion_step env cj s a)))" "distinct (map artifact_key (artifact_checks (completion_step env cj s a)))"
proof -
  have fork: "criterion_checks s' = criterion_checks s \<and> artifact_checks s' = artifact_checks s" if "fork_tx cj src i c now s = Inr (u, s')" for src i c now u s'
    using that unfolding fork_tx_def Let_def by (auto split: if_splits option.splits)
  have "distinct (map check_key (criterion_checks (completion_step env cj s a))) \<and> distinct (map artifact_key (artifact_checks (completion_step env cj s a)))"
  proof (cases a)
    case (Fork fs clock new_id source now)
    have "criterion_checks (completion_step env cj s a) = criterion_checks s \<and> artifact_checks (completion_step env cj s a) = artifact_checks s"
      unfolding Fork completion_step.simps fork_run_def Let_def transaction_def
      by (auto split: sum.split option.split prod.split dest: fork)
    with assms show ?thesis by simp
  next
    case (RecordCriterion fs clock rid v)
    then show ?thesis using assms upsert_keys [of check_key]
      by (auto simp: record_completion_verification_def split: sum.split option.split)
  next
    case (RecordArtifact fs clock rid v)
    then show ?thesis using assms upsert_keys [of artifact_key]
      by (auto simp: record_artifact_verification_def split: sum.split option.split)
  qed (use assms in \<open>auto simp: set_completion_contract_def confirm_run_delivery_def Let_def split: sum.split option.split\<close>)
  then show "distinct (map check_key (criterion_checks (completion_step env cj s a)))" "distinct (map artifact_key (artifact_checks (completion_step env cj s a)))"
    by simp_all
qed

interpretation completion_machine: invariant_machine "completion_step env cj" "\<lambda>s. contract_codec cj \<longrightarrow> completion_store_ok cj s" for env cj
proof
  show "contract_codec cj \<longrightarrow> completion_store_ok cj s \<Longrightarrow> contract_codec cj \<longrightarrow> completion_store_ok cj (completion_step env cj s a)" for s a
    using contracts_grow_ok [OF _ completion_step_grow [of cj s env a]] completion_step_checks [of s env cj a]
    by (simp add: completion_store_ok_def)
qed

interpretation contract_machine: invariant_machine "completion_step env cj"
  "\<lambda>s. \<exists>q. find (\<lambda>c. cc_run_id c = rid) (contracts s) = Some q \<and> same_terms r q" for env cj rid r
proof
  fix s :: completion_db and a assume "\<exists>q. find (\<lambda>c. cc_run_id c = rid) (contracts s) = Some q \<and> same_terms r q"
  then obtain q where q: "find (\<lambda>c. cc_run_id c = rid) (contracts s) = Some q" "same_terms r q" by blast
  from contracts_grow_find [OF completion_step_grow [of cj s env a] q(1)] q(2)
  show "\<exists>q. find (\<lambda>c. cc_run_id c = rid) (contracts (completion_step env cj s a)) = Some q \<and> same_terms r q"
    by (auto simp: same_terms_def)
qed

end
