(* ===== verification/Completion_Properties.thy ===== *)
theory Completion_Properties
  imports Completion_Machine "HOL-Library.Countable"
begin

text \<open>
  What a completion report promises: a run is complete exactly when the persisted evidence says so, and the terms it is measured
  against never change.
\<close>

section \<open>A run with a contract\<close>

definition step_criterion :: AcceptanceCriterion where
  "step_criterion = \<lparr>cr_criterion_id = ''k'', cr_description = ''d'', cr_required = True,
     cr_verifier = Some \<lparr>v_step_id = ''st'', v_json_pointer = ''/x'', v_expected = JBool True\<rparr>\<rparr>"

definition manual_criterion :: AcceptanceCriterion where
  "manual_criterion = \<lparr>cr_criterion_id = ''m'', cr_description = ''e'', cr_required = True, cr_verifier = None\<rparr>"

text \<open>A codec of these criteria; every other list has a text of its own length.\<close>

definition sample_contract_json :: contract_json where
  "sample_contract_json = \<lparr>
     criteria_to_string = (\<lambda>cs. if cs = [step_criterion, manual_criterion] then ''both'' else []),
     criteria_from_str = (\<lambda>t. if t = ''both'' then Some [step_criterion, manual_criterion] else None),
     artifacts_to_string = (\<lambda>as. if as = [] then ''none'' else []),
     artifacts_from_str = (\<lambda>t. if t = ''none'' then Some [] else None),
     refs_to_string = concat, refs_from_str = (\<lambda>t. if t = ''refs'' then Some [''note'', ''attestation:7''] else None),
     value_to_vec = (\<lambda>_. ''v'')\<rparr>"

definition sample_env :: evidence_env where
  "sample_env = \<lparr>
     json_value = (\<lambda>t. if t = ''ok'' then Some (JObject [(''x'', JBool True)])
       else if t = ''audit'' then Some (JObject [(''status'', JString ''passed''), (''submitted_evidence_refs'', JArray [JString ''note''])]) else None),
     tool_result_outcome = (\<lambda>_. None), card_closed = (\<lambda>_. None),
     json_pointer_get = (\<lambda>p v. if p = ''/x'' then Value_get ''x'' v else None), hex_sha256 = (\<lambda>_. [])\<rparr>"

definition sample_contract_row :: contract_row where
  "sample_contract_row = \<lparr>cc_run_id = ''r'', cc_acceptance_criteria_json = ''both'', cc_required_artifacts_json = ''none'', cc_delivery_required = False,
     cc_delivery_confirmed = False, cc_delivery_evidence_ref = None, cc_created_at = 1, cc_updated_at = 1\<rparr>"

definition sample_completion :: completion_db where
  "sample_completion = \<lparr>
     base = empty_run_db\<lparr>
       core := empty_database\<lparr>state_runs := [\<lparr>rn_run_id = ''r'', rn_conversation_id = ''c'', rn_parent_run_id = None, rn_status = ''completed'',
         rn_cursor = 1, rn_input_event_seq = 1, rn_started_at = 0, rn_updated_at = 0, rn_deadline_at = None\<rparr>]\<rparr>,
       run_steps := [\<lparr>sr_run_id = ''r'', sr_step_id = ''st'', sr_ordinal = 0, sr_kind = ''tool_dispatch'', sr_status = ''completed'', sr_attempt = 1,
         sr_input_hash = ''h'', sr_output_ref = Some ''json:ok'', sr_approval_id = None, sr_outbox_idempotency_key = None, sr_lease_owner = None,
         sr_lease_expires_at = None, sr_started_at = Some 1, sr_completed_at = Some 2\<rparr>]\<rparr>,
     contracts = [sample_contract_row],
     criterion_checks = [\<lparr>cv_run_id = ''r'', cv_criterion_id = ''m'', cv_status = ''passed'', cv_evidence_refs_json = ''refs'', cv_detail = None, cv_verified_at = 3\<rparr>],
     artifact_checks = [],
     config_audit = [\<lparr>au_id = 7, au_actor = ''op'', au_table_name = ''run_completion_verification'', au_row_id = ''r/m'', au_new_json = Some ''audit''\<rparr>],
     state_artifacts = [], tool_result_artifacts = [], research_jobs = [], state_attachments = [], agent_runs = []\<rparr>"

lemma sample_completion_ok: "completion_store_ok sample_contract_json sample_completion"
  by (simp add: completion_store_ok_def sample_completion_def contract_row_ok_def sample_contract_row_def sample_contract_json_def
      step_criterion_def manual_criterion_def)

section \<open>Properties\<close>

text \<open>
  C15: A report is verified complete exactly when the executor completed the run, every criterion, required or optional, is met, every
  required artifact was checked and is still intact, and a required delivery is proven. A criterion with a verifier is met by the
  completed host-tool step whose checkpoint has the expected value, any other by a recorded pass that a Controller record attests for
  exactly the submitted references. Whatever else the report says, it lists something unfinished.
\<close>

theorem completion_needs_evidence:
  assumes "completion_store_ok cj s" "completion_report env fs cj clock rid s = Inr (Some rp)"
  shows "(rp_status rp = VerifiedComplete \<longleftrightarrow> map_option rn_status (find_run_row rid s) = Some ''completed'' \<and>
      list_all (criterion_met env cj rid s) (rc_acceptance_criteria (rp_contract rp)) \<and>
      list_all (artifact_met env fs clock rid s) (rc_required_artifacts (rp_contract rp)) \<and>
      (rc_delivery_required (rp_contract rp) \<longrightarrow> delivery_met env rid s)) \<and>
    (rp_unfinished rp = [] \<longleftrightarrow> rp_status rp = VerifiedComplete)"
  using completion_report_facts [OF assms] by (simp add: list_all_iff)

theorem completion_needs_evidence_witness:
  "\<exists>rp. completion_report sample_env (\<lambda>_. None) sample_contract_json 9 ''r'' sample_completion = Inr (Some rp) \<and>
     rp_status rp = VerifiedComplete \<and> list_all (criterion_met sample_env sample_contract_json ''r'' sample_completion) [step_criterion, manual_criterion]"
proof -
  let ?rp = "completion_report sample_env (\<lambda>_. None) sample_contract_json 9 ''r'' sample_completion"
  have "map_sum id (map_option (\<lambda>rp. (rp_status rp, rc_acceptance_criteria (rp_contract rp)))) ?rp =
      Inr (Some (VerifiedComplete, [step_criterion, manual_criterion]))" by code_simp
  then obtain rp where rp: "?rp = Inr (Some rp)" "rp_status rp = VerifiedComplete"
      "rc_acceptance_criteria (rp_contract rp) = [step_criterion, manual_criterion]"
    by (cases ?rp) auto
  from completion_needs_evidence [OF sample_completion_ok rp(1)] rp show ?thesis by auto
qed

text \<open>
  C16: Whatever contracts are submitted, results recorded, deliveries confirmed, runs forked or executed, the terms of a stored contract
  never change: its criteria, its artifacts and its delivery requirement stay, and a confirmed delivery stays confirmed. And once
  contracts are validated and keys unique they remain so.
\<close>

theorem contract_terms_fixed:
  assumes "contract_codec cj" "completion_store_ok cj s" "find_contract rid s = Some r" "s' = foldl (completion_step env cj) s actions"
  shows "completion_store_ok cj s' \<and> (\<exists>q. find_contract rid s' = Some q \<and> same_terms r q)"
proof -
  have "\<exists>q. find (\<lambda>c. cc_run_id c = rid) (contracts s) = Some q \<and> same_terms r q"
    using assms(3) by (simp add: find_contract_def same_terms_def)
  from contract_machine.run_inv [OF this, of env cj actions] completion_machine.run_inv [of cj s env actions] assms(1,2)
  show ?thesis unfolding assms(4) find_contract_def by simp
qed

text \<open>An encoding of every list of criteria and artifacts: the number of its enumeration.\<close>

instance Value :: countable
  by countable_datatype

definition criterion_tuple :: "AcceptanceCriterion \<Rightarrow> string \<times> string \<times> bool \<times> (string \<times> string \<times> Value) option" where
  "criterion_tuple c = (cr_criterion_id c, cr_description c, cr_required c,
     map_option (\<lambda>v. (v_step_id v, v_json_pointer v, v_expected v)) (cr_verifier c))"

definition tuple_criterion :: "string \<times> string \<times> bool \<times> (string \<times> string \<times> Value) option \<Rightarrow> AcceptanceCriterion" where
  "tuple_criterion t = (case t of (i, d, r, v) \<Rightarrow> \<lparr>cr_criterion_id = i, cr_description = d, cr_required = r,
     cr_verifier = map_option (\<lambda>(st, p, e). \<lparr>v_step_id = st, v_json_pointer = p, v_expected = e\<rparr>) v\<rparr>)"

definition text_number :: "string \<Rightarrow> nat" where
  "text_number t = foldl (\<lambda>v c. 10 * v + digit_val c) 0 t"

definition numbered_json :: contract_json where
  "numbered_json = \<lparr>
     criteria_to_string = (\<lambda>cs. show_nat (to_nat (map criterion_tuple cs))),
     criteria_from_str = (\<lambda>t. Some (map tuple_criterion (from_nat (text_number t)))),
     artifacts_to_string = (\<lambda>as. show_nat (to_nat (map (\<lambda>a. (ra_artifact_id a, ra_description a)) as))),
     artifacts_from_str = (\<lambda>t. Some (map (\<lambda>(i, d). \<lparr>ra_artifact_id = i, ra_description = d\<rparr>) (from_nat (text_number t)))),
     refs_to_string = concat, refs_from_str = (\<lambda>_. None), value_to_vec = (\<lambda>_. ''v'')\<rparr>"

lemma numbered_codec: "contract_codec numbered_json"
proof -
  have "tuple_criterion (criterion_tuple c) = c" for c
    by (cases "cr_verifier c") (simp_all add: criterion_tuple_def tuple_criterion_def)
  then show ?thesis by (auto simp: contract_codec_def numbered_json_def text_number_def show_nat_value comp_def intro!: map_idI)
qed

definition numbered_row :: contract_row where
  "numbered_row = sample_contract_row\<lparr>cc_acceptance_criteria_json := criteria_to_string numbered_json [manual_criterion],
     cc_required_artifacts_json := artifacts_to_string numbered_json []\<rparr>"

definition numbered_completion :: completion_db where
  "numbered_completion = sample_completion\<lparr>contracts := [numbered_row]\<rparr>"

theorem contract_terms_fixed_witness:
  "\<exists>q. find_contract ''r'' (foldl (completion_step sample_env numbered_json) numbered_completion
      [SetContract \<lparr>rc_run_id = ''r'', rc_acceptance_criteria = [step_criterion], rc_required_artifacts = [], rc_delivery_required = True,
         rc_created_at = 5\<rparr>, ConfirmDelivery ''r'' ''attestation:7'' 6, Fork (\<lambda>_. None) 7 ''f'' ''r'' 8]) = Some q \<and>
     cc_acceptance_criteria_json q = criteria_to_string numbered_json [manual_criterion] \<and> \<not> cc_delivery_required q"
proof -
  have codec: "criteria_from_str numbered_json (criteria_to_string numbered_json cs) = Some cs"
    "artifacts_from_str numbered_json (artifacts_to_string numbered_json as) = Some as" for cs as
    using numbered_codec by (simp_all add: contract_codec_def)
  have ok: "completion_store_ok numbered_json numbered_completion"
    by (simp add: completion_store_ok_def numbered_completion_def sample_completion_def contract_row_ok_def numbered_row_def codec)
  have row: "find_contract ''r'' numbered_completion = Some numbered_row"
    by (simp add: find_contract_def numbered_completion_def numbered_row_def sample_contract_row_def)
  from contract_terms_fixed [OF numbered_codec ok row refl] show ?thesis
    by (fastforce simp: same_terms_def numbered_row_def sample_contract_row_def)
qed

end
