(* ===== verification/Run_Manifests.thy ===== *)
theory Run_Manifests
  imports Completion_Evidence
begin

text \<open>
  Input manifests of durable runs (\<open>crates/core/src/runs.rs\<close>) and the canonical hash of tool schemas (\<open>crates/core/src/tool.rs\<close>): the
  fingerprint of a turn, the snapshot of its tool catalog, and the pins of the implementations the run may invoke.

  A parsed object lists its entries in the order of its keys, as the sorted map of \<open>serde_json\<close> does. The JSON texts of keys and
  scalars, SHA-256 and the decoding of the pins are parameters.
\<close>

section \<open>The canonical encoding\<close>

record canonical_env =
  key_text :: "string \<Rightarrow> string"
  scalar_text :: "Value \<Rightarrow> string"
  schema_sha256 :: "string \<Rightarrow> string"
  pins_from_value :: "Value \<Rightarrow> (string \<times> string \<times> string \<times> string \<times> string \<times> string option \<times> string option \<times> string option) list option"

definition joined :: "string list \<Rightarrow> string" where
  "joined xs = concat (case xs of [] \<Rightarrow> [] | y # ys \<Rightarrow> y # map ((#) CHR '','') ys)"

text \<open>The encodings of the members are built first and then sorted by key: sorting the entries and encoding them is the same.\<close>

fun write_canonical_json :: "canonical_env \<Rightarrow> Value \<Rightarrow> string" where
  "write_canonical_json env (JObject entries) =
     ''{'' @ joined (map (\<lambda>(k, t). key_text env k @ '':'' @ t) (sort_key fst (map (\<lambda>(k, v). (k, write_canonical_json env v)) entries))) @ ''}''"
| "write_canonical_json env (JArray vs) = ''['' @ joined (map (write_canonical_json env) vs) @ '']''"
| "write_canonical_json env v = scalar_text env v"

definition tool_schema_hash :: "canonical_env \<Rightarrow> Value \<Rightarrow> string" where
  "tool_schema_hash env v = schema_sha256 env (write_canonical_json env v)"

fun find_network_ref :: "Value \<Rightarrow> string option" and find_network_ref_entries :: "(string \<times> Value) list \<Rightarrow> string option"
  and find_network_ref_values :: "Value list \<Rightarrow> string option" where
  "find_network_ref (JObject entries) = find_network_ref_entries entries"
| "find_network_ref (JArray vs) = find_network_ref_values vs"
| "find_network_ref _ = None"
| "find_network_ref_entries [] = None"
| "find_network_ref_entries ((k, v) # rest) =
     (case (case Value_as_str v of
         Some r \<Rightarrow> if k \<in> {''$ref'', ''$dynamicRef''} \<and> (starts_with r ''http://'' \<or> starts_with r ''https://'') then Some r else find_network_ref v
       | None \<Rightarrow> find_network_ref v) of
        Some r \<Rightarrow> Some r | None \<Rightarrow> find_network_ref_entries rest)"
| "find_network_ref_values [] = None"
| "find_network_ref_values (v # rest) = (case find_network_ref v of Some r \<Rightarrow> Some r | None \<Rightarrow> find_network_ref_values rest)"

text \<open>\<open>compile_tool_schema\<close>; the validator of the library is a parameter.\<close>

definition compile_tool_schema :: "(Value \<Rightarrow> 'v option) \<Rightarrow> Value \<Rightarrow> string \<Rightarrow> string + 'v" where
  "compile_tool_schema build schema label = (case schema of
      JObject _ \<Rightarrow> (case find_network_ref schema of
          Some reference \<Rightarrow> Inl (label @ '' contains forbidden network reference '' @ CHR 0x27 # reference @ [CHR 0x27])
        | None \<Rightarrow> (case build schema of None \<Rightarrow> Inl (label @ '' is not valid Draft 2020-12'') | Some v \<Rightarrow> Inr v))
    | _ \<Rightarrow> Inl (label @ '' must be a JSON object''))"

section \<open>State\<close>

record RunInputManifest =
  mf_input_version :: nat
  mf_prompt_hash :: string
  mf_model_settings_hash :: string
  mf_tool_catalog_hash :: string
  mf_tool_catalog_snapshot_json :: "string option"
  mf_recorded_at :: int

record RunToolImplementationPin =
  pin_runtime_kind :: string
  pin_plugin_id :: string
  pin_plugin_version :: string
  pin_tool_name :: string
  pin_artifact_sha256 :: string
  pin_input_schema_sha256 :: "string option"
  pin_result_schema_sha256 :: "string option"
  pin_server_identity :: "string option"

record manifest_row =
  mr_run_id :: string
  mr_input_version :: int
  mr_prompt_hash :: string
  mr_model_settings_hash :: string
  mr_tool_catalog_hash :: string
  mr_recorded_at :: int
  mr_tool_catalog_snapshot_json :: "string option"

record pin_row =
  pr_run_id :: string
  pr_pin :: RunToolImplementationPin
  pr_created_at :: int

record manifest_db =
  mbase :: run_db
  input_manifests :: "manifest_row list"
  implementation_pin_rows :: "pin_row list"
  mutation_leases :: "string list"

section \<open>Pins\<close>

definition valid_digest :: "string \<Rightarrow> bool" where
  "valid_digest d \<longleftrightarrow> length d = 64 \<and> list_all is_ascii_hexdigit d"

definition pin_ok :: "RunToolImplementationPin \<Rightarrow> bool" where
  "pin_ok p \<longleftrightarrow> pin_runtime_kind p \<in> {''plugin'', ''mcp''} \<and> rust_trim (pin_plugin_id p) \<noteq> [] \<and> length (pin_plugin_id p) \<le> 128 \<and>
     rust_trim (pin_plugin_version p) \<noteq> [] \<and> length (pin_plugin_version p) \<le> 128 \<and> rust_trim (pin_tool_name p) \<noteq> [] \<and>
     length (pin_tool_name p) \<le> 128 \<and> valid_digest (pin_artifact_sha256 p) \<and> pred_option valid_digest (pin_input_schema_sha256 p) \<and>
     pred_option valid_digest (pin_result_schema_sha256 p) \<and>
     (pin_runtime_kind p = ''mcp'' \<longrightarrow> pin_server_identity p \<noteq> None \<and> pin_server_identity p \<noteq> Some []) \<and>
     (pin_runtime_kind p = ''plugin'' \<longrightarrow> pin_server_identity p = None)"

fun validate_pins_from :: "string list \<Rightarrow> RunToolImplementationPin list \<Rightarrow> RunStoreError + unit" where
  "validate_pins_from tools [] = Inr ()"
| "validate_pins_from tools (p # ps) = (if \<not> pin_ok p \<or> pin_tool_name p \<in> set tools
     then Inl (Conflict ''implementation pins contain invalid or duplicate tool identities'')
     else validate_pins_from (pin_tool_name p # tools) ps)"

definition validate_implementation_pins :: "RunToolImplementationPin list \<Rightarrow> RunStoreError + unit" where
  "validate_implementation_pins = validate_pins_from []"

definition tuple_pin :: "string \<times> string \<times> string \<times> string \<times> string \<times> string option \<times> string option \<times> string option \<Rightarrow> RunToolImplementationPin" where
  "tuple_pin t = (case t of (rk, pid, ver, tool, sha, inp, res, srv) \<Rightarrow>
     \<lparr>pin_runtime_kind = rk, pin_plugin_id = pid, pin_plugin_version = ver, pin_tool_name = tool, pin_artifact_sha256 = sha,
      pin_input_schema_sha256 = inp, pin_result_schema_sha256 = res, pin_server_identity = srv\<rparr>)"

text \<open>The checks of a submitted snapshot, with the pins it carries.\<close>

definition check_snapshot :: "evidence_env \<Rightarrow> canonical_env \<Rightarrow> RunInputManifest \<Rightarrow> RunStoreError + RunToolImplementationPin list" where
  "check_snapshot env cenv m = (case mf_tool_catalog_snapshot_json m of
      None \<Rightarrow> Inr []
    | Some snapshot_json \<Rightarrow>
        if 1024 * 1024 < length snapshot_json then Inl (Conflict ''tool catalog snapshot exceeds the 1 MiB storage limit'')
        else (case json_value env snapshot_json of
            None \<Rightarrow> Inl (Conflict ''invalid tool catalog snapshot'')
          | Some snapshot \<Rightarrow>
              (case (case Value_get ''implementation_pins'' snapshot of None \<Rightarrow> Some [] | Some v \<Rightarrow> pins_from_value cenv v) of
                 None \<Rightarrow> Inl (Conflict ''invalid implementation pins in tool snapshot'')
               | Some tuples \<Rightarrow>
                   let pins = map tuple_pin tuples in
                   (case validate_implementation_pins pins of Inl e \<Rightarrow> Inl e | Inr _ \<Rightarrow>
                   (case Option.bind (Value_get ''tools'' snapshot) Value_as_array of
                      None \<Rightarrow> Inl (Conflict ''tool catalog snapshot omitted tools'')
                    | Some tools \<Rightarrow> (case Option.bind (Value_get ''discoverable_tools'' snapshot) Value_as_array of
                        None \<Rightarrow> Inl (Conflict ''tool catalog snapshot omitted discoverable tools'')
                      | Some discoverable \<Rightarrow>
                          if tool_schema_hash cenv (JArray (discoverable @ tools)) \<noteq> mf_tool_catalog_hash m
                          then Inl (Conflict ''tool catalog snapshot does not match its recorded hash'')
                          else Inr pins))))))"

section \<open>Recording\<close>

definition find_manifest :: "string \<Rightarrow> manifest_db \<Rightarrow> manifest_row option" where
  "find_manifest rid s = find (\<lambda>r. mr_run_id r = rid) (input_manifests s)"

definition manifest_row_of :: "string \<Rightarrow> RunInputManifest \<Rightarrow> manifest_row" where
  "manifest_row_of rid m = \<lparr>mr_run_id = rid, mr_input_version = int (mf_input_version m), mr_prompt_hash = mf_prompt_hash m,
     mr_model_settings_hash = mf_model_settings_hash m, mr_tool_catalog_hash = mf_tool_catalog_hash m, mr_recorded_at = mf_recorded_at m,
     mr_tool_catalog_snapshot_json = mf_tool_catalog_snapshot_json m\<rparr>"

text \<open>\<open>INSERT OR IGNORE\<close>: the check \<open>input_version > 0\<close> skips a version 0, a run that is not there is an error.\<close>

definition insert_manifest :: "string \<Rightarrow> RunInputManifest \<Rightarrow> manifest_db \<Rightarrow> DbError + manifest_db" where
  "insert_manifest rid m s =
     (if find_manifest rid s \<noteq> None \<or> mf_input_version m = 0 then Inr s
      else if \<not> run_exists rid (mbase s) then Inl (Sqlite (ConstraintViolation ''FOREIGN KEY constraint failed''))
      else Inr (s\<lparr>input_manifests := input_manifests s @ [manifest_row_of rid m]\<rparr>))"

definition same_inputs :: "manifest_row \<Rightarrow> RunInputManifest \<Rightarrow> bool" where
  "same_inputs r m \<longleftrightarrow> mr_input_version r = int (mf_input_version m) \<and> mr_prompt_hash r = mf_prompt_hash m \<and>
     mr_model_settings_hash r = mf_model_settings_hash m \<and> mr_tool_catalog_hash r = mf_tool_catalog_hash m"

definition match_snapshot :: "evidence_env \<Rightarrow> string \<Rightarrow> string option \<Rightarrow> string option \<Rightarrow> manifest_db \<Rightarrow> DbError + manifest_db" where
  "match_snapshot env rid stored submitted s = (case (stored, submitted) of
      (Some stored_json, Some new_json) \<Rightarrow> (case json_value env stored_json of
          None \<Rightarrow> Inl (Serde ''stored tool catalog snapshot'')
        | Some stored_value \<Rightarrow> (case json_value env new_json of
            None \<Rightarrow> Inl (Serde ''new tool catalog snapshot'')
          | Some new_value \<Rightarrow> if stored_value \<noteq> new_value
              then Inl (Invariant (''run '' @ rid @ '' was reopened with a different tool catalog snapshot'')) else Inr s))
    | (None, Some new_json) \<Rightarrow> Inr (s\<lparr>input_manifests := update_where (\<lambda>r. mr_run_id r = rid \<and> mr_tool_catalog_snapshot_json r = None)
        (\<lambda>r. r\<lparr>mr_tool_catalog_snapshot_json := Some new_json\<rparr>) (input_manifests s)\<rparr>)
    | _ \<Rightarrow> Inr s)"

definition find_pin :: "string \<Rightarrow> string \<Rightarrow> manifest_db \<Rightarrow> pin_row option" where
  "find_pin rid tool s = find (\<lambda>r. pr_run_id r = rid \<and> pin_tool_name (pr_pin r) = tool) (implementation_pin_rows s)"

fun record_pins :: "string \<Rightarrow> int \<Rightarrow> RunToolImplementationPin list \<Rightarrow> manifest_db \<Rightarrow> DbError + manifest_db" where
  "record_pins rid at [] s = Inr s"
| "record_pins rid at (p # ps) s =
     (if pin_plugin_id p \<in> set (mutation_leases s)
      then Inl (Invariant (''plugin '' @ pin_plugin_id p @ '' is changing while run '' @ rid @ '' pins its tool surface''))
      else let s1 = (if find_pin rid (pin_tool_name p) s \<noteq> None then s
             else s\<lparr>implementation_pin_rows := implementation_pin_rows s @ [\<lparr>pr_run_id = rid, pr_pin = p, pr_created_at = at\<rparr>]\<rparr>) in
        (case find_pin rid (pin_tool_name p) s1 of
           None \<Rightarrow> Inl (Sqlite QueryReturnedNoRows)
         | Some r \<Rightarrow> if pr_pin r \<noteq> p then Inl (Invariant (''run '' @ rid @ '' tool '' @ pin_tool_name p @ '' implementation pin changed''))
             else record_pins rid at ps s1))"

definition record_manifest_tx :: "evidence_env \<Rightarrow> string \<Rightarrow> RunInputManifest \<Rightarrow> RunToolImplementationPin list \<Rightarrow> manifest_db \<Rightarrow> DbError + unit \<times> manifest_db" where
  "record_manifest_tx env rid m pins s = (case insert_manifest rid m s of Inl e \<Rightarrow> Inl e | Inr s1 \<Rightarrow>
     (case find_manifest rid s1 of
        None \<Rightarrow> Inl (Sqlite QueryReturnedNoRows)
      | Some stored \<Rightarrow>
          if \<not> same_inputs stored m then Inl (Invariant (''run '' @ rid @ '' was reopened with changed turn inputs''))
          else (case match_snapshot env rid (mr_tool_catalog_snapshot_json stored) (mf_tool_catalog_snapshot_json m) s1 of
              Inl e \<Rightarrow> Inl e
            | Inr s2 \<Rightarrow> (case record_pins rid (mf_recorded_at m) pins s2 of Inl e \<Rightarrow> Inl e | Inr s3 \<Rightarrow> Inr ((), s3)))))"

definition record_input_manifest :: "evidence_env \<Rightarrow> canonical_env \<Rightarrow> string \<Rightarrow> RunInputManifest \<Rightarrow> manifest_db \<Rightarrow> (RunStoreError + unit) \<times> manifest_db" where
  "record_input_manifest env cenv rid m s = (case check_snapshot env cenv m of
      Inl e \<Rightarrow> (Inl e, s)
    | Inr pins \<Rightarrow> (case transaction (record_manifest_tx env rid m pins) s of
        (Inl e, s1) \<Rightarrow> (Inl (RunDb e), s1) | (Inr u, s1) \<Rightarrow> (Inr u, s1)))"

section \<open>Reading\<close>

definition implementation_pins :: "string \<Rightarrow> manifest_db \<Rightarrow> RunToolImplementationPin list" where
  "implementation_pins rid s = map pr_pin (sort_key (\<lambda>r. pin_tool_name (pr_pin r)) (filter (\<lambda>r. pr_run_id r = rid) (implementation_pin_rows s)))"

definition active_runs_pinning_plugin :: "string \<Rightarrow> manifest_db \<Rightarrow> nat" where
  "active_runs_pinning_plugin plugin_id s = length (remdups (map pr_run_id (filter (\<lambda>r.
     pin_runtime_kind (pr_pin r) = ''plugin'' \<and> pin_plugin_id (pr_pin r) = plugin_id \<and>
     list_ex (\<lambda>n. rn_run_id n = pr_run_id r \<and> active (rn_status n)) (run_rows (mbase s))) (implementation_pin_rows s))))"

definition input_manifest :: "string \<Rightarrow> manifest_db \<Rightarrow> RunInputManifest option" where
  "input_manifest rid s = map_option (\<lambda>r. \<lparr>
     mf_input_version = (if 0 \<le> mr_input_version r \<and> mr_input_version r < 2 ^ 32 then nat (mr_input_version r) else 0),
     mf_prompt_hash = mr_prompt_hash r, mf_model_settings_hash = mr_model_settings_hash r, mf_tool_catalog_hash = mr_tool_catalog_hash r,
     mf_tool_catalog_snapshot_json = mr_tool_catalog_snapshot_json r, mf_recorded_at = mr_recorded_at r\<rparr>) (find_manifest rid s)"

end
