(* ===== verification/Manifest_Properties.thy ===== *)
theory Manifest_Properties
  imports Run_Manifests "HOL-Library.Multiset"
begin

text \<open>
  The canonical hash does not depend on the order of members, and what a run recorded as its inputs stays.
\<close>

section \<open>The canonical encoding\<close>

text \<open>Equal up to the order of the members of objects, at every depth; the keys of an object are distinct.\<close>

inductive same_json :: "Value \<Rightarrow> Value \<Rightarrow> bool" where
  leaf: "same_json v v"
| array: "list_all2 same_json vs ws \<Longrightarrow> same_json (JArray vs) (JArray ws)"
| members: "list_all2 (\<lambda>e f. fst e = fst f \<and> same_json (snd e) (snd f)) es fs \<Longrightarrow> mset gs = mset fs \<Longrightarrow> distinct (map fst fs) \<Longrightarrow>
    same_json (JObject es) (JObject gs)"

lemma sort_key_fst_mset:
  assumes "mset xs = mset ys" "distinct (map fst xs)"
  shows "sort_key fst xs = sort_key fst ys"
proof (rule map_sorted_distinct_set_unique [where f = fst])
  have set: "set xs = set ys" using assms(1) by (rule mset_eq_setD)
  have "mset (map fst xs) = mset (map fst ys)" using assms(1) by simp
  then have "distinct (map fst ys)" using assms(2) by (metis mset_eq_imp_distinct_iff)
  then show "distinct (map fst (sort_key fst ys))" by (simp add: distinct_map)
  show "distinct (map fst (sort_key fst xs))" using assms(2) by (simp add: distinct_map)
  show "inj_on fst (set (sort_key fst xs) \<union> set (sort_key fst ys))" using assms(2) set by (simp add: distinct_map)
  show "set (sort_key fst xs) = set (sort_key fst ys)" using set by simp
qed simp_all

text \<open>
  The canonical encoding, and with it the hash of a tool schema or catalog, does not depend on the order in which the members of
  objects are written, at any depth.
\<close>

theorem canonical_hash_ignores_order:
  assumes "same_json v w"
  shows "write_canonical_json env v = write_canonical_json env w \<and> tool_schema_hash env v = tool_schema_hash env w"
proof -
  have "write_canonical_json env v = write_canonical_json env w"
    using assms
  proof (induction rule: same_json.induct)
    case (array vs ws)
    then have "map (write_canonical_json env) vs = map (write_canonical_json env) ws" by (induction rule: list_all2_induct) auto
    then show ?case by simp
  next
    case (members es fs gs)
    let ?enc = "map (\<lambda>(k, v). (k, write_canonical_json env v))"
    have "?enc es = ?enc fs" using members(1) by (induction rule: list_all2_induct) auto
    moreover have "sort_key fst (?enc fs) = sort_key fst (?enc gs)"
      using members(2,3) by (intro sort_key_fst_mset) (simp_all add: comp_def case_prod_beta)
    ultimately show ?case by simp
  qed simp
  then show ?thesis by (simp add: tool_schema_hash_def)
qed

definition sample_canonical :: canonical_env where
  "sample_canonical = \<lparr>key_text = (\<lambda>k. CHR 0x22 # k @ [CHR 0x22]), scalar_text = (\<lambda>_. ''0''), schema_sha256 = (\<lambda>b. b),
     pins_from_value = (\<lambda>_. Some [(''plugin'', ''p'', ''1'', ''t'', replicate 64 CHR ''0'', None, None, None)])\<rparr>"

theorem canonical_hash_ignores_order_witness:
  "tool_schema_hash sample_canonical (JObject [(''b'', JNull), (''a'', JArray [JObject [(''y'', JNull), (''x'', JNull)]])]) =
   tool_schema_hash sample_canonical (JObject [(''a'', JArray [JObject [(''x'', JNull), (''y'', JNull)]]), (''b'', JNull)])"
proof -
  have "same_json (JObject [(''y'', JNull), (''x'', JNull)]) (JObject [(''x'', JNull), (''y'', JNull)])"
    by (rule members [of _ "[(''y'', JNull), (''x'', JNull)]"]) (simp_all add: leaf add_mset_commute)
  then have "same_json (JObject [(''b'', JNull), (''a'', JArray [JObject [(''y'', JNull), (''x'', JNull)]])])
      (JObject [(''a'', JArray [JObject [(''x'', JNull), (''y'', JNull)]]), (''b'', JNull)])"
    by (intro members [of _ "[(''b'', JNull), (''a'', JArray [JObject [(''x'', JNull), (''y'', JNull)]])]"])
      (simp_all add: leaf array add_mset_commute)
  then show ?thesis using canonical_hash_ignores_order by blast
qed

section \<open>Recorded inputs\<close>

datatype manifest_action = RecordManifest string RunInputManifest | SetLeases "string list" | OnManifestRuns run_action

fun manifest_step :: "evidence_env \<Rightarrow> canonical_env \<Rightarrow> manifest_db \<Rightarrow> manifest_action \<Rightarrow> manifest_db" where
  "manifest_step env cenv s (RecordManifest rid m) = snd (record_input_manifest env cenv rid m s)"
| "manifest_step env cenv s (SetLeases ls) = s\<lparr>mutation_leases := ls\<rparr>"
| "manifest_step env cenv s (OnManifestRuns a) = s\<lparr>mbase := store_step (mbase s) a\<rparr>"

definition keeps_row :: "manifest_row \<Rightarrow> manifest_row \<Rightarrow> bool" where
  "keeps_row r q \<longleftrightarrow> mr_run_id q = mr_run_id r \<and> mr_input_version q = mr_input_version r \<and> mr_prompt_hash q = mr_prompt_hash r \<and>
     mr_model_settings_hash q = mr_model_settings_hash r \<and> mr_tool_catalog_hash q = mr_tool_catalog_hash r \<and>
     (mr_tool_catalog_snapshot_json r \<noteq> None \<longrightarrow> mr_tool_catalog_snapshot_json q = mr_tool_catalog_snapshot_json r)"

text \<open>The rows of one run: its manifest and the pins of its tools.\<close>

definition inputs_kept :: "string \<Rightarrow> manifest_row \<Rightarrow> (string \<rightharpoonup> pin_row) \<Rightarrow> manifest_db \<Rightarrow> bool" where
  "inputs_kept rid r pins s \<longleftrightarrow> (\<exists>q. find_manifest rid s = Some q \<and> keeps_row r q) \<and> (\<forall>t p. pins t = Some p \<longrightarrow> find_pin rid t s = Some p)"

lemma record_pins_kept: "record_pins rid' at ps s = Inr s' \<Longrightarrow> inputs_kept rid r pins s \<Longrightarrow> inputs_kept rid r pins s'"
proof (induction ps arbitrary: s)
  case (Cons p ps)
  define s1 where "s1 = (if find_pin rid' (pin_tool_name p) s \<noteq> None then s
    else s\<lparr>implementation_pin_rows := implementation_pin_rows s @ [\<lparr>pr_run_id = rid', pr_pin = p, pr_created_at = at\<rparr>]\<rparr>)"
  have "record_pins rid' at ps s1 = Inr s'"
    using Cons.prems(1) by (auto simp: Let_def s1_def split: if_splits option.splits)
  moreover have "inputs_kept rid r pins s1"
    using Cons.prems(2) by (auto simp: s1_def inputs_kept_def find_manifest_def find_pin_def find_append)
  ultimately show ?case by (rule Cons.IH)
qed simp

lemma match_snapshot_kept:
  "match_snapshot env rid' stored submitted s = Inr s' \<Longrightarrow> inputs_kept rid r pins s \<Longrightarrow> inputs_kept rid r pins s'"
proof -
  have upd: "find_manifest rid (s\<lparr>input_manifests := update_where (\<lambda>r. mr_run_id r = rid' \<and> mr_tool_catalog_snapshot_json r = None)
      (\<lambda>r. r\<lparr>mr_tool_catalog_snapshot_json := Some j\<rparr>) (input_manifests s)\<rparr>) =
    map_option (\<lambda>r. if mr_run_id r = rid' \<and> mr_tool_catalog_snapshot_json r = None then r\<lparr>mr_tool_catalog_snapshot_json := Some j\<rparr> else r) (find_manifest rid s)" for j
    unfolding find_manifest_def by (simp add: find_update_where_key [where k = mr_run_id])
  assume "match_snapshot env rid' stored submitted s = Inr s'" "inputs_kept rid r pins s"
  then show ?thesis
    by (auto simp: match_snapshot_def inputs_kept_def upd keeps_row_def find_pin_def split: option.splits if_splits)
qed

lemma record_manifest_kept:
  assumes "inputs_kept rid r pins s"
  shows "inputs_kept rid r pins (snd (record_input_manifest env cenv rid' m s))"
proof -
  have inserted: "inputs_kept rid r pins s1" if "insert_manifest rid' m s = Inr s1" for s1
    using that assms by (auto simp: insert_manifest_def inputs_kept_def find_manifest_def find_append find_pin_def split: if_splits)
  have "inputs_kept rid r pins s'" if "record_manifest_tx env rid' m ps s = Inr (u, s')" for ps u s'
    using that unfolding record_manifest_tx_def
    by (auto split: sum.splits option.splits if_splits) (rule record_pins_kept, assumption, rule match_snapshot_kept, assumption, rule inserted)
  then have "inputs_kept rid r pins (snd (transaction (record_manifest_tx env rid' m ps) s))" for ps
    by (rule transaction_invariant [where P = "inputs_kept rid r pins", OF assms])
  then show ?thesis using assms unfolding record_input_manifest_def
    by (cases "check_snapshot env cenv m") (auto split: prod.splits sum.splits, metis snd_conv, metis snd_conv)
qed

interpretation manifest_machine: invariant_machine "manifest_step env cenv" "inputs_kept rid r pins" for env cenv rid r pins
proof
  show "inputs_kept rid r pins s \<Longrightarrow> inputs_kept rid r pins (manifest_step env cenv s a)" for s a
    by (cases a) (simp_all add: record_manifest_kept, simp_all add: inputs_kept_def find_manifest_def find_pin_def)
qed

lemma record_manifest_same_inputs:
  assumes "fst (record_input_manifest env cenv rid m s) = Inr ()" "find_manifest rid s = Some q"
  shows "same_inputs q m"
proof -
  from assms(1) obtain ps s' where tx: "record_manifest_tx env rid m ps s = Inr ((), s')"
    unfolding record_input_manifest_def
    by (cases "check_snapshot env cenv m") (auto split: prod.splits sum.splits simp: transaction_Inr_iff)
  have "insert_manifest rid m s = Inr s" using assms(2) by (simp add: insert_manifest_def)
  with tx assms(2) show ?thesis unfolding record_manifest_tx_def by (auto split: sum.splits if_splits)
qed

text \<open>
  C22: Once a run has recorded its inputs, no sequence of recordings for any run, plugin updates and run operations changes them: the
  version, the hashes of prompt, model settings and tool catalog, a recorded snapshot and every pinned implementation stay, and reopening
  the run succeeds with the same inputs only.
\<close>

theorem recorded_inputs_fixed:
  assumes "find_manifest rid s = Some r" "s' = foldl (manifest_step env cenv) s actions"
  shows "(\<exists>q. find_manifest rid s' = Some q \<and> keeps_row r q) \<and> (find_pin rid tool s = Some p \<longrightarrow> find_pin rid tool s' = Some p) \<and>
    (fst (record_input_manifest env cenv rid m s') = Inr () \<longrightarrow> same_inputs r m)"
proof -
  have "inputs_kept rid r (\<lambda>t. find_pin rid t s) s" using assms(1) by (simp add: inputs_kept_def keeps_row_def)
  from manifest_machine.run_inv [OF this, of env cenv actions] have kept: "inputs_kept rid r (\<lambda>t. find_pin rid t s) s'" by (simp add: assms(2))
  then obtain q where q: "find_manifest rid s' = Some q" "keeps_row r q" by (auto simp: inputs_kept_def)
  have "same_inputs r m" if "fst (record_input_manifest env cenv rid m s') = Inr ()"
    using record_manifest_same_inputs [OF that q(1)] q(2) by (simp add: same_inputs_def keeps_row_def)
  with q kept show ?thesis by (auto simp: inputs_kept_def)
qed

definition turn_manifest :: RunInputManifest where
  "turn_manifest = \<lparr>mf_input_version = 1, mf_prompt_hash = ''p'', mf_model_settings_hash = ''m'', mf_tool_catalog_hash = ''t'',
     mf_tool_catalog_snapshot_json = None, mf_recorded_at = 4\<rparr>"

definition sample_manifest_db :: manifest_db where
  "sample_manifest_db = \<lparr>mbase = empty_run_db, input_manifests = [manifest_row_of ''r'' turn_manifest], implementation_pin_rows = [], mutation_leases = []\<rparr>"

definition silent_env :: evidence_env where
  "silent_env = \<lparr>json_value = (\<lambda>_. None), tool_result_outcome = (\<lambda>_. None), card_closed = (\<lambda>_. None), json_pointer_get = (\<lambda>_ _. None),
     hex_sha256 = (\<lambda>_. [])\<rparr>"

theorem recorded_inputs_fixed_witness:
  "\<exists>q. find_manifest ''r'' (foldl (manifest_step silent_env sample_canonical) sample_manifest_db
       [RecordManifest ''r'' (turn_manifest\<lparr>mf_prompt_hash := ''changed''\<rparr>), SetLeases [''p'']]) = Some q \<and> mr_prompt_hash q = ''p''"
proof -
  have "find_manifest ''r'' sample_manifest_db = Some (manifest_row_of ''r'' turn_manifest)"
    by (simp add: find_manifest_def sample_manifest_db_def manifest_row_of_def)
  from recorded_inputs_fixed [OF this refl, of silent_env sample_canonical
      "[RecordManifest ''r'' (turn_manifest\<lparr>mf_prompt_hash := ''changed''\<rparr>), SetLeases [''p'']]"]
  obtain q where "find_manifest ''r'' (foldl (manifest_step silent_env sample_canonical) sample_manifest_db
       [RecordManifest ''r'' (turn_manifest\<lparr>mf_prompt_hash := ''changed''\<rparr>), SetLeases [''p'']]) = Some q"
    and "keeps_row (manifest_row_of ''r'' turn_manifest) q" by blast
  moreover from this(2) have "mr_prompt_hash q = ''p''" by (simp add: keeps_row_def manifest_row_of_def turn_manifest_def)
  ultimately show ?thesis by blast
qed

end
