(* ===== verification/Context_Window.thy ===== *)
theory Context_Window
  imports Text_Parsing
begin

text \<open>
  Trimming the message list of a model call (\<open>crates/context-window/src/lib.rs\<close>; messages from \<open>crates/inference-api/src/lib.rs\<close>): the
  policies, the compilation of a complete request against a token budget, and the parsing of the configured policy.

  The serialization of messages, requests and tools is a parameter, given by the error or the length of the bytes.
\<close>

section \<open>Messages\<close>

datatype Role = System | User | Assistant | Tool

datatype ContentPart = TextPart string | ImageUrl string

datatype MessageContent = Text string | Parts "ContentPart list"

record ToolCallFunction =
  fn_name :: string
  fn_arguments :: string

record ToolCall =
  tc_id :: string
  tc_kind :: string
  tc_function :: ToolCallFunction

record ChatMessage =
  msg_role :: Role
  msg_content :: "MessageContent option"
  msg_reasoning :: "string option"
  msg_tool_call_id :: "string option"
  msg_name :: "string option"
  msg_tool_calls :: "ToolCall list"

definition part_text :: "ContentPart \<Rightarrow> string option" where
  "part_text p = (case p of TextPart t \<Rightarrow> Some t | ImageUrl _ \<Rightarrow> None)"

fun as_text :: "MessageContent \<Rightarrow> string" where
  "as_text (Text s) = s"
| "as_text (Parts ps) = join_with (CHR 0x0A) (List.map_filter part_text ps)"

definition plain_message :: "Role \<Rightarrow> string \<Rightarrow> ChatMessage" where
  "plain_message r s = \<lparr>msg_role = r, msg_content = Some (Text s), msg_reasoning = None, msg_tool_call_id = None, msg_name = None,
     msg_tool_calls = []\<rparr>"

section \<open>Estimates\<close>

text \<open>\<open>estimate_tokens_from_bytes\<close>: the division rounds up, in \<open>u128\<close>, and is cut off at \<open>usize::MAX\<close>.\<close>

definition u128_max :: nat where
  "u128_max = 2 ^ 128 - 1"

definition token_ratio :: "nat \<Rightarrow> nat" where
  "token_ratio bytes_per_token_milli = max 1000 (min 3000 bytes_per_token_milli)"

definition estimate_tokens_from_bytes :: "nat \<Rightarrow> nat \<Rightarrow> nat" where
  "estimate_tokens_from_bytes bytes bytes_per_token_milli =
     (let ratio = token_ratio bytes_per_token_milli in
      min (min u128_max (min u128_max (bytes * 1000) + (ratio - 1)) div ratio) (u64_limit - 1))"

definition part_size :: "ContentPart \<Rightarrow> nat" where
  "part_size p = (case p of TextPart t \<Rightarrow> length t | ImageUrl _ \<Rightarrow> 256)"

definition content_chars :: "ChatMessage \<Rightarrow> nat" where
  "content_chars m = (case msg_content m of Some (Text t) \<Rightarrow> length t | Some (Parts ps) \<Rightarrow> sum_list (map part_size ps) | None \<Rightarrow> 0)"

definition estimate_message_tokens :: "ChatMessage list \<Rightarrow> nat" where
  "estimate_message_tokens ms = sum_list (map (\<lambda>m. 4 + content_chars m div 4) ms)"

section \<open>Policies\<close>

datatype ContextWindowPolicy = FullReplay | SlidingTurns nat | TokenBudget nat nat

text \<open>\<open>iter().position(\<dots>)\<close>.\<close>

fun position :: "('a \<Rightarrow> bool) \<Rightarrow> 'a list \<Rightarrow> nat option" where
  "position p [] = None"
| "position p (x # xs) = (if p x then Some 0 else map_option Suc (position p xs))"

definition conversation_start :: "ChatMessage list \<Rightarrow> nat option" where
  "conversation_start = position (\<lambda>m. msg_role m \<noteq> System)"

text \<open>
  The backward walk of \<open>SlidingTurns\<close> over indexed messages, newest first: the turns counted and the index to keep from, which
  is the given default unless the count is reached.
\<close>

fun walk_turns :: "nat \<Rightarrow> nat \<Rightarrow> nat \<Rightarrow> (nat \<times> ChatMessage) list \<Rightarrow> nat \<times> nat" where
  "walk_turns max_turns counted dflt [] = (counted, dflt)"
| "walk_turns max_turns counted dflt ((i, m) # older) =
    (let counted' = (if msg_role m = User then counted + 1 else counted) in
     if counted' = max_turns then (counted', i) else walk_turns max_turns counted' dflt older)"

definition apply_sliding :: "nat \<Rightarrow> ChatMessage list \<Rightarrow> ChatMessage list" where
  "apply_sliding max_turns ms =
    (if max_turns = 0 then take 1 ms
     else
       let start = (case conversation_start ms of Some i \<Rightarrow> i | None \<Rightarrow> 0);
           (counted, keep_from) = walk_turns max_turns 0 (length ms) (rev (drop start (enumerate 0 ms))) in
       if start < keep_from \<and> max_turns \<le> counted then take start ms @ drop keep_from ms else ms)"

text \<open>The loop of \<open>TokenBudget\<close>, which removes the message at the start of the conversation until the rest fits.\<close>

function trim_to_budget :: "nat \<Rightarrow> nat \<Rightarrow> ChatMessage list \<Rightarrow> ChatMessage list" where
  "trim_to_budget budget start ms =
    (if estimate_message_tokens ms \<le> budget then ms
     else if length ms - 1 \<le> start then ms
     else trim_to_budget budget start (take start ms @ drop (Suc start) ms))"
  by pat_completeness auto
termination
  by (relation "measure (\<lambda>(budget, start, ms). length ms)") auto

declare trim_to_budget.simps [simp del]

definition apply_budget :: "nat \<Rightarrow> nat \<Rightarrow> ChatMessage list \<Rightarrow> ChatMessage list" where
  "apply_budget max_tokens reserve_for_reply ms =
    (let start = (case conversation_start ms of Some i \<Rightarrow> i | None \<Rightarrow> length ms) in
     trim_to_budget (max_tokens - reserve_for_reply) start ms)"

definition apply_policy :: "ContextWindowPolicy \<Rightarrow> ChatMessage list \<Rightarrow> ChatMessage list" where
  "apply_policy policy ms =
    (if length ms \<le> 1 then ms
     else case policy of
       FullReplay \<Rightarrow> ms
     | SlidingTurns n \<Rightarrow> apply_sliding n ms
     | TokenBudget max_tokens reserve_for_reply \<Rightarrow> apply_budget max_tokens reserve_for_reply ms)"

definition parse_policy :: "string \<Rightarrow> ContextWindowPolicy" where
  "parse_policy s =
    (if s = ''full_replay'' then FullReplay
     else case strip_prefix ''sliding:'' s of
       Some rest \<Rightarrow> (case parse_u64 rest of Some n \<Rightarrow> SlidingTurns n | None \<Rightarrow> FullReplay)
     | None \<Rightarrow>
        (case strip_prefix ''token_budget:'' s of
           Some rest \<Rightarrow>
             (case splitn2 (CHR '':'') rest of
                [a, b] \<Rightarrow>
                  (case (parse_u64 a, parse_u64 b) of
                     (Some max_tokens, Some reserve) \<Rightarrow> TokenBudget max_tokens reserve
                   | _ \<Rightarrow> FullReplay)
              | _ \<Rightarrow> FullReplay)
         | None \<Rightarrow> FullReplay))"

section \<open>Fitting a request\<close>

definition is_compaction_receipt :: "ChatMessage \<Rightarrow> bool" where
  "is_compaction_receipt m \<longleftrightarrow> msg_role m = User \<and>
     (case msg_content m of Some content \<Rightarrow> starts_with (as_text content) ''Untrusted history summary '' | None \<Rightarrow> False)"

definition starts_turn :: "ChatMessage \<Rightarrow> bool" where
  "starts_turn m \<longleftrightarrow> msg_role m = User \<and> \<not> is_compaction_receipt m"

definition next_turn :: "nat \<Rightarrow> ChatMessage list \<Rightarrow> nat option" where
  "next_turn first ms = map_option (\<lambda>i. Suc first + i) (position starts_turn (drop (Suc first) ms))"

text \<open>The loop that both functions run; an error of the serialization ends it with the messages as they are then.\<close>

lemma position_length: "position p xs = Some i \<Longrightarrow> i < length xs \<and> p (xs ! i)"
  by (induction xs arbitrary: i) (auto split: if_splits)

function fit_turns :: "(ChatMessage list \<Rightarrow> string + nat) \<Rightarrow> nat \<Rightarrow> ChatMessage list \<Rightarrow> (string + unit) \<times> ChatMessage list" where
  "fit_turns estimate budget ms =
    (case estimate ms of
       Inl e \<Rightarrow> (Inl e, ms)
     | Inr tokens \<Rightarrow>
        if budget < tokens \<and> 2 < length ms then
          (case position starts_turn ms of
             None \<Rightarrow> (Inr (), ms)
           | Some first_user \<Rightarrow>
              (case next_turn first_user ms of
                 None \<Rightarrow> (Inr (), ms)
               | Some next_user \<Rightarrow> fit_turns estimate budget (take first_user ms @ drop next_user ms)))
        else (Inr (), ms))"
  by pat_completeness auto
termination
  by (relation "measure (\<lambda>(estimate, budget, ms). length ms)") (auto simp: next_turn_def dest!: position_length)

declare fit_turns.simps [simp del]

text \<open>The final check, whose error text is given without the interpolated numbers.\<close>

definition final_fit :: "string \<Rightarrow> (ChatMessage list \<Rightarrow> string + nat) \<Rightarrow> nat \<Rightarrow> ChatMessage list \<Rightarrow> (string + nat) \<times> ChatMessage list" where
  "final_fit refusal estimate budget ms =
    (case fit_turns estimate budget ms of
       (Inl e, ms') \<Rightarrow> (Inl e, ms')
     | (Inr _, ms') \<Rightarrow>
        (case estimate ms' of
           Inl e \<Rightarrow> (Inl e, ms')
         | Inr final_estimate \<Rightarrow> (if budget < final_estimate then Inl refusal else Inr final_estimate, ms')))"

text \<open>A request: the messages, and everything else as one value of the parameter type.\<close>

record 'o ChatRequest =
  rq_messages :: "ChatMessage list"
  rq_other :: 'o

definition fit_chat_request ::
  "('o ChatRequest \<Rightarrow> string + nat) \<Rightarrow> 'o ChatRequest \<Rightarrow> nat \<Rightarrow> nat \<Rightarrow> nat \<Rightarrow> (string + nat) \<times> 'o ChatRequest" where
  "fit_chat_request request_bytes request context_tokens output_reserve bytes_per_token_milli =
    (let budget = context_tokens - output_reserve;
         estimate = (\<lambda>ms. map_sum id (\<lambda>n. estimate_tokens_from_bytes n bytes_per_token_milli) (request_bytes (request\<lparr>rq_messages := ms\<rparr>)));
         (result, ms') = final_fit ''mandatory serialized model request exceeds context budget'' estimate budget (rq_messages request) in
     (result, request\<lparr>rq_messages := ms'\<rparr>))"

text \<open>\<open>usize::saturating_add\<close> of the two lengths.\<close>

definition round_bytes :: "(ChatMessage list \<Rightarrow> string + nat) \<Rightarrow> ('t list \<Rightarrow> string + nat) \<Rightarrow> 't list \<Rightarrow> ChatMessage list \<Rightarrow> string + nat" where
  "round_bytes messages_bytes tools_bytes tools ms =
    (case messages_bytes ms of
       Inl e \<Rightarrow> Inl e
     | Inr a \<Rightarrow> (case tools_bytes tools of Inl e \<Rightarrow> Inl e | Inr b \<Rightarrow> Inr (min (a + b) (u64_limit - 1))))"

definition fit_model_round ::
  "(ChatMessage list \<Rightarrow> string + nat) \<Rightarrow> ('t list \<Rightarrow> string + nat) \<Rightarrow> ChatMessage list \<Rightarrow> 't list \<Rightarrow> nat \<Rightarrow> nat \<Rightarrow> nat \<Rightarrow>
   (string + nat) \<times> ChatMessage list" where
  "fit_model_round messages_bytes tools_bytes ms tools context_tokens output_reserve bytes_per_token_milli =
    final_fit ''mandatory model request block exceeds context budget''
      (\<lambda>ms. map_sum id (\<lambda>n. estimate_tokens_from_bytes n bytes_per_token_milli) (round_bytes messages_bytes tools_bytes tools ms))
      (context_tokens - output_reserve) ms"

end
