(* ===== verification/Context_Properties.thy ===== *)
theory Context_Properties
  imports Context_Window
begin

text \<open>
  What trimming keeps: the leading system messages and the newest turns, no more and no less than the policy asks for; a second
  application changes nothing; a fitted request is within its budget.
\<close>

section \<open>The two parts of a message list\<close>

definition lead :: "ChatMessage list \<Rightarrow> ChatMessage list" where
  "lead ms = takeWhile (\<lambda>m. msg_role m = System) ms"

definition conversation :: "ChatMessage list \<Rightarrow> ChatMessage list" where
  "conversation ms = dropWhile (\<lambda>m. msg_role m = System) ms"

definition users :: "ChatMessage list \<Rightarrow> nat" where
  "users ms = length (filter (\<lambda>m. msg_role m = User) ms)"

lemma lead_conversation [simp]: "lead ms @ conversation ms = ms"
  by (simp add: lead_def conversation_def)

lemma users_simps [simp]: "users [] = 0" "users (m # ms) = (if msg_role m = User then Suc (users ms) else users ms)"
  "users (as @ bs) = users as + users bs"
  by (simp_all add: users_def)

lemma users_lead [simp]: "users (lead ms) = 0"
  by (auto simp: users_def lead_def filter_empty_conv dest: set_takeWhileD)

lemma users_conversation [simp]: "users (conversation ms) = users ms"
  by (metis add_0 lead_conversation users_lead users_simps(3))

lemma position_takeWhile:
  "position p xs = (if \<exists>x \<in> set xs. p x then Some (length (takeWhile (\<lambda>x. \<not> p x) xs)) else None)"
  by (induction xs) auto

lemma conversation_start_eq: "conversation_start ms = (if conversation ms = [] then None else Some (length (lead ms)))"
  by (auto simp: conversation_start_def position_takeWhile conversation_def lead_def dropWhile_eq_Nil_conv)

lemma lead_append:
  assumes "xs = [] \<or> msg_role (hd xs) \<noteq> System"
  shows "lead (lead ms @ xs) = lead ms" "conversation (lead ms @ xs) = xs"
proof -
  have "\<forall>m \<in> set (lead ms). msg_role m = System" by (auto simp: lead_def dest: set_takeWhileD)
  then show "lead (lead ms @ xs) = lead ms" "conversation (lead ms @ xs) = xs"
    using assms by (cases xs; auto simp: lead_def conversation_def takeWhile_append dropWhile_append)+
qed

section \<open>Sliding turns\<close>

lemma walk_turns_exact:
  assumes "counted < n"
  shows "case walk_turns n counted dflt (rev (enumerate k ms)) of (c, i) \<Rightarrow>
     if counted + users ms < n then c = counted + users ms \<and> i = dflt
     else c = n \<and> k \<le> i \<and> i < k + length ms \<and> msg_role (ms ! (i - k)) = User \<and> counted + users (drop (i - k) ms) = n"
  using assms
proof (induction ms arbitrary: counted rule: rev_induct)
  case (snoc m ms)
  define counted' where "counted' = (if msg_role m = User then counted + 1 else counted)"
  have step: "walk_turns n counted dflt (rev (enumerate k (ms @ [m]))) =
      (if counted' = n then (counted', k + length ms) else walk_turns n counted' dflt (rev (enumerate k ms)))"
    by (simp add: enumerate_append_eq counted'_def Let_def)
  show ?case
  proof (cases "counted' = n")
    case True
    then show ?thesis using snoc.prems unfolding step by (auto simp: counted'_def nth_append split: if_splits)
  next
    case False
    then have "counted' < n" using snoc.prems by (auto simp: counted'_def split: if_splits)
    from snoc.IH [OF this] False show ?thesis
      unfolding step by (auto simp: counted'_def nth_append split: prod.splits if_splits)
  qed
qed simp

lemma drop_enumerate_lead: "drop (length (lead ms)) (enumerate 0 ms) = enumerate (length (lead ms)) (conversation ms)"
  by (metis add_0 append_eq_conv_conj enumerate_append_eq length_enumerate lead_conversation)

lemma apply_sliding_exact:
  assumes "0 < n"
  obtains k where "apply_sliding n ms = lead ms @ drop k (conversation ms)" "users (drop k (conversation ms)) = min n (users ms)"
    "k = 0 \<or> k < length (conversation ms) \<and> msg_role (conversation ms ! k) = User"
proof (cases "conversation ms = []")
  case True
  then have ms: "lead ms = ms" using lead_conversation [of ms] by simp
  have none: "users ms = 0" using True users_conversation [of ms] by simp
  have "walk_turns n 0 (length ms) (rev (enumerate 0 ms)) = (0, length ms)"
    using walk_turns_exact [OF assms, where dflt = "length ms" and k = 0 and ms = ms] none assms by (auto split: prod.splits)
  then have "apply_sliding n ms = ms"
    using assms True by (simp add: apply_sliding_def conversation_start_eq)
  then show ?thesis using that [of 0] ms True none by simp
next
  case False
  let ?s = "length (lead ms)"
  obtain c i where w: "walk_turns n 0 (length ms) (rev (enumerate ?s (conversation ms))) = (c, i)" by force
  have eq: "apply_sliding n ms = (if ?s < i \<and> n \<le> c then take ?s ms @ drop i ms else ms)"
    using assms False w by (simp add: apply_sliding_def conversation_start_eq drop_enumerate_lead Let_def)
  have tk: "take ?s ms = lead ms" "\<And>j. ?s \<le> j \<Longrightarrow> drop j ms = drop (j - ?s) (conversation ms)"
    using lead_conversation [of ms] by (metis append_eq_conv_conj, metis append_Nil drop_all drop_append)
  note exact = walk_turns_exact [OF assms, where dflt = "length ms" and k = ?s and ms = "conversation ms", unfolded w]
  show ?thesis
  proof (cases "users ms < n")
    case True
    then show ?thesis using that [of 0] eq exact by simp
  next
    case False
    with exact have i: "c = n" "?s \<le> i" "i - ?s < length (conversation ms)" "msg_role (conversation ms ! (i - ?s)) = User"
      "users (drop (i - ?s) (conversation ms)) = n" by auto
    have "apply_sliding n ms = lead ms @ drop (i - ?s) (conversation ms)"
      using i(1,2) eq tk lead_conversation [of ms] by (cases "?s < i") auto
    then show ?thesis using that [of "i - ?s"] i False by simp
  qed
qed

section \<open>Token budgets\<close>

lemma trim_to_budget_exact:
  "\<exists>k. trim_to_budget b (length as) (as @ bs) = as @ drop k bs \<and> (k = 0 \<or> k < length bs) \<and>
     (\<forall>j < k. b < estimate_message_tokens (as @ drop j bs)) \<and> (estimate_message_tokens (as @ drop k bs) \<le> b \<or> length (drop k bs) \<le> 1)"
proof (induction bs)
  case Nil
  then show ?case by (simp add: trim_to_budget.simps [of b _ as])
next
  case (Cons m bs)
  note unfold = trim_to_budget.simps [of b "length as" "as @ m # bs"]
  show ?case
  proof (cases "estimate_message_tokens (as @ m # bs) \<le> b \<or> bs = []")
    case True
    then have "trim_to_budget b (length as) (as @ m # bs) = as @ drop 0 (m # bs)" by (subst unfold) auto
    with True show ?thesis by (intro exI [of _ 0]) auto
  next
    case False
    then have "trim_to_budget b (length as) (as @ m # bs) = trim_to_budget b (length as) (as @ bs)"
      by (subst unfold) (cases bs; simp)
    with Cons.IH obtain k where k: "trim_to_budget b (length as) (as @ m # bs) = as @ drop k bs" "k = 0 \<or> k < length bs"
      "\<forall>j < k. b < estimate_message_tokens (as @ drop j bs)" "estimate_message_tokens (as @ drop k bs) \<le> b \<or> length (drop k bs) \<le> 1" by auto
    show ?thesis
    proof (intro exI [of _ "Suc k"] conjI allI impI)
      show "b < estimate_message_tokens (as @ drop j (m # bs))" if "j < Suc k" for j
        using that k(3) False by (cases j) auto
    qed (use k False in auto)
  qed
qed

lemma apply_budget_exact:
  obtains k where "apply_budget a r ms = lead ms @ drop k (conversation ms)" "k = 0 \<or> k < length (conversation ms)"
    "\<forall>j < k. a - r < estimate_message_tokens (lead ms @ drop j (conversation ms))"
    "estimate_message_tokens (apply_budget a r ms) \<le> a - r \<or> length (drop k (conversation ms)) \<le> 1"
proof -
  have "apply_budget a r ms = trim_to_budget (a - r) (length (lead ms)) (lead ms @ conversation ms)"
    using lead_conversation [of ms] by (cases "conversation ms = []") (auto simp: apply_budget_def conversation_start_eq)
  then show ?thesis
    using trim_to_budget_exact [of "a - r" "lead ms" "conversation ms"] that by auto
qed

section \<open>What a policy keeps\<close>

text \<open>
  Trimming keeps the leading system messages and a suffix of the conversation, which is the whole of it or starts at the cut:
  sliding turns keep exactly the newest \<open>n\<close> user messages, and a token budget removes the fewest messages after which the estimate fits, or
  keeps the last message only.
\<close>

theorem context_trim_exact:
  assumes "policy \<noteq> SlidingTurns 0"
  shows "\<exists>k. apply_policy policy ms = lead ms @ drop k (conversation ms) \<and> (k = 0 \<or> k < length (conversation ms)) \<and>
     (case policy of
        FullReplay \<Rightarrow> k = 0
      | SlidingTurns n \<Rightarrow> users (apply_policy policy ms) = min n (users ms) \<and> (k = 0 \<or> msg_role (conversation ms ! k) = User)
      | TokenBudget a r \<Rightarrow> (\<forall>j < k. a - r < estimate_message_tokens (lead ms @ drop j (conversation ms))) \<and>
          (estimate_message_tokens (apply_policy policy ms) \<le> a - r \<or> length (drop k (conversation ms)) \<le> 1))"
proof (cases "length ms \<le> 1")
  case True
  moreover have "users ms \<le> length ms" by (simp add: users_def)
  moreover have "length (lead ms) + length (conversation ms) = length ms" using lead_conversation [of ms] by (metis length_append)
  ultimately have "length (conversation ms) \<le> 1" "users ms \<le> 1" by linarith+
  with True assms show ?thesis by (intro exI [of _ 0]) (auto simp: apply_policy_def split: ContextWindowPolicy.splits)
next
  case False
  show ?thesis
  proof (cases policy)
    case FullReplay
    then show ?thesis using False by (intro exI [of _ 0]) (simp add: apply_policy_def)
  next
    case (SlidingTurns n)
    with assms have "0 < n" by simp
    then obtain k where "apply_sliding n ms = lead ms @ drop k (conversation ms)" "users (drop k (conversation ms)) = min n (users ms)"
      "k = 0 \<or> k < length (conversation ms) \<and> msg_role (conversation ms ! k) = User" by (rule apply_sliding_exact)
    then show ?thesis using False SlidingTurns by (intro exI [of _ k]) (auto simp: apply_policy_def)
  next
    case (TokenBudget a r)
    obtain k where "apply_budget a r ms = lead ms @ drop k (conversation ms)" "k = 0 \<or> k < length (conversation ms)"
      "\<forall>j < k. a - r < estimate_message_tokens (lead ms @ drop j (conversation ms))"
      "estimate_message_tokens (apply_budget a r ms) \<le> a - r \<or> length (drop k (conversation ms)) \<le> 1" by (rule apply_budget_exact)
    then show ?thesis using False TokenBudget by (intro exI [of _ k]) (simp add: apply_policy_def)
  qed
qed

definition sample_chat :: "ChatMessage list" where
  "sample_chat = [plain_message System ''rules'', plain_message User ''one'', plain_message Assistant ''a'', plain_message User ''two'',
     plain_message Assistant ''b'']"

theorem context_trim_exact_witness:
  "\<exists>k. apply_policy (SlidingTurns 1) sample_chat = lead sample_chat @ drop k (conversation sample_chat) \<and>
     users (apply_policy (SlidingTurns 1) sample_chat) = 1 \<and> apply_policy (SlidingTurns 1) sample_chat \<noteq> sample_chat"
proof -
  have "users sample_chat = 2" by (simp add: sample_chat_def plain_message_def)
  moreover have ne: "SlidingTurns 1 \<noteq> SlidingTurns 0" by simp
  from context_trim_exact [OF ne, of sample_chat]
  obtain k where "apply_policy (SlidingTurns 1) sample_chat = lead sample_chat @ drop k (conversation sample_chat)"
    "users (apply_policy (SlidingTurns 1) sample_chat) = min 1 (users sample_chat)"
    unfolding ContextWindowPolicy.case by blast
  moreover have "apply_policy (SlidingTurns 1) sample_chat \<noteq> sample_chat"
    using calculation(1,3) by (metis min.absorb1 n_not_Suc_n numeral_2_eq_2 One_nat_def Suc_n_not_le_n nat_le_linear)
  ultimately show ?thesis by (intro exI [of _ k] conjI) simp_all
qed

text \<open>A second application of the same policy.\<close>

lemma apply_sliding_again:
  assumes "0 < n"
  shows "apply_sliding n (apply_sliding n ms) = apply_sliding n ms"
proof -
  obtain k where k: "apply_sliding n ms = lead ms @ drop k (conversation ms)" "users (drop k (conversation ms)) = min n (users ms)"
    "k = 0 \<or> k < length (conversation ms) \<and> msg_role (conversation ms ! k) = User" by (rule apply_sliding_exact [OF assms])
  show ?thesis
  proof (cases "k = 0")
    case True
    then show ?thesis using k(1) by simp
  next
    case False
    with k(3) have first: "drop k (conversation ms) \<noteq> []" "msg_role (hd (drop k (conversation ms))) = User" by (auto simp: hd_drop_conv_nth)
    let ?r = "apply_sliding n ms"
    have parts: "lead ?r = lead ms" "conversation ?r = drop k (conversation ms)" unfolding k(1) using lead_append first by auto
    obtain j where j: "apply_sliding n ?r = lead ?r @ drop j (conversation ?r)" "users (drop j (conversation ?r)) = min n (users ?r)"
      by (rule apply_sliding_exact [OF assms])
    have "users ?r = min n (users ms)" using k(1,2) by simp
    then have same: "users (drop j (drop k (conversation ms))) = users (drop k (conversation ms))" using j(2) k(2) parts(2) by simp
    have "j = 0"
    proof (rule ccontr)
      assume "j \<noteq> 0"
      obtain m rest where r: "drop k (conversation ms) = m # rest" "msg_role m = User" using first by (cases "drop k (conversation ms)") auto
      obtain i where i: "j = Suc i" using \<open>j \<noteq> 0\<close> by (cases j) auto
      have "users (drop i rest) \<le> users rest" using users_simps(3) [of "take i rest" "drop i rest"] by simp
      then show False using same r(2) by (simp add: r(1) i)
    qed
    then show ?thesis using j(1) by simp
  qed
qed

lemma trim_to_budget_stop: "estimate_message_tokens ms \<le> b \<or> length ms \<le> Suc start \<Longrightarrow> trim_to_budget b start ms = ms"
  by (subst trim_to_budget.simps) auto

lemma apply_budget_stop:
  assumes "estimate_message_tokens ms \<le> a - r \<or> length ms \<le> Suc (length (lead ms))"
  shows "apply_budget a r ms = ms"
proof -
  have "conversation ms = [] \<Longrightarrow> length (lead ms) = length ms" using lead_conversation [of ms] by simp
  then show ?thesis using assms by (auto simp: apply_budget_def conversation_start_eq intro!: trim_to_budget_stop)
qed

lemma apply_budget_again: "apply_budget a r (apply_budget a r ms) = apply_budget a r ms"
proof -
  obtain k where k: "apply_budget a r ms = lead ms @ drop k (conversation ms)" "k = 0 \<or> k < length (conversation ms)"
    "estimate_message_tokens (apply_budget a r ms) \<le> a - r \<or> length (drop k (conversation ms)) \<le> 1" by (rule apply_budget_exact)
  have "length (lead ms) \<le> length (lead (lead ms @ drop k (conversation ms)))"
    by (auto simp: lead_def takeWhile_append dest: set_takeWhileD)
  with k(3) show ?thesis unfolding k(1) by (intro apply_budget_stop) auto
qed

text \<open>C0: A policy is idempotent: applying it to what it returned changes nothing.\<close>

theorem context_trim_idempotent: "apply_policy policy (apply_policy policy ms) = apply_policy policy ms"
proof (cases policy)
  case (SlidingTurns n)
  then show ?thesis
    using apply_sliding_again [of n ms] by (cases "n = 0") (auto simp: apply_policy_def apply_sliding_def [of 0])
next
  case (TokenBudget a r)
  then show ?thesis using apply_budget_again [of a r ms] by (auto simp: apply_policy_def)
qed (simp add: apply_policy_def)

text \<open>A system message that is not at the front is removed like any other message.\<close>

lemma later_system_prompt_removed:
  "apply_policy (SlidingTurns 1) [plain_message User ''one'', plain_message System ''rules'', plain_message User ''two''] =
     [plain_message User ''two'']"
  by (simp add: apply_policy_def apply_sliding_def conversation_start_def plain_message_def)

section \<open>Fitting a request\<close>

lemma position_append: "(\<And>x. x \<in> set xs \<Longrightarrow> \<not> p x) \<Longrightarrow> position p (xs @ ys) = map_option ((+) (length xs)) (position p ys)"
  by (induction xs; cases "position p ys") auto

text \<open>One pass of the loop on messages that are split at their first turn.\<close>

lemma fit_turns_step:
  assumes "\<And>m. m \<in> set as \<Longrightarrow> \<not> starts_turn m" "starts_turn b" "estimate (as @ b # bs) = Inr t"
  shows "fit_turns estimate budget (as @ b # bs) =
    (if budget < t \<and> 2 < length (as @ b # bs) then
       (case position starts_turn bs of None \<Rightarrow> (Inr (), as @ b # bs) | Some i \<Rightarrow> fit_turns estimate budget (as @ drop i bs))
     else (Inr (), as @ b # bs))"
proof -
  have first: "position starts_turn (as @ b # bs) = Some (length as)" using assms(1,2) by (simp add: position_append)
  have "next_turn (length as) (as @ b # bs) = map_option (\<lambda>i. Suc (length as) + i) (position starts_turn bs)" by (simp add: next_turn_def)
  with first show ?thesis
    by (subst fit_turns.simps) (auto simp: assms(3) split: option.splits)
qed

definition over :: "(ChatMessage list \<Rightarrow> string + nat) \<Rightarrow> nat \<Rightarrow> ChatMessage list \<Rightarrow> bool" where
  "over estimate budget ms \<longleftrightarrow> (\<exists>t. estimate ms = Inr t \<and> budget < t)"

text \<open>
  What the loop leaves of the messages \<open>as @ bs\<close>, where no turn starts in \<open>as\<close> and one starts at the head of \<open>bs\<close>: the
  first cut at a turn that is within the budget, or the last cut there is.
\<close>

definition fitted :: "(ChatMessage list \<Rightarrow> string + nat) \<Rightarrow> nat \<Rightarrow> ChatMessage list \<Rightarrow> ChatMessage list \<Rightarrow> nat \<Rightarrow> bool" where
  "fitted estimate budget as bs k \<longleftrightarrow> (k = 0 \<or> k < length bs \<and> starts_turn (bs ! k)) \<and>
     (\<forall>j < k. j = 0 \<or> starts_turn (bs ! j) \<longrightarrow> over estimate budget (as @ drop j bs)) \<and>
     (over estimate budget (as @ drop k bs) \<longrightarrow> length (as @ drop k bs) \<le> 2 \<or> (\<forall>m \<in> set (tl (drop k bs)). \<not> starts_turn m))"

lemma fitted_later:
  assumes "over estimate budget (as @ b # bs)" "position starts_turn bs = Some i" "fitted estimate budget as (drop i bs) k"
  shows "fitted estimate budget as (b # bs) (Suc (i + k))"
proof -
  have i: "i < length bs" "starts_turn (bs ! i)" using position_length [OF assms(2)] by auto
  have before: "\<not> starts_turn (bs ! j)" if "j < i" for j
    using assms(2) that by (auto simp: position_takeWhile split: if_splits dest: nth_length_takeWhile) (metis nth_mem set_takeWhileD takeWhile_nth)
  show ?thesis
    unfolding fitted_def
  proof (intro conjI allI impI)
    show "Suc (i + k) = 0 \<or> Suc (i + k) < length (b # bs) \<and> starts_turn ((b # bs) ! Suc (i + k))"
      using assms(3) i by (auto simp: fitted_def)
  next
    fix j assume j: "j < Suc (i + k)" "j = 0 \<or> starts_turn ((b # bs) ! j)"
    show "over estimate budget (as @ drop j (b # bs))"
    proof (cases j)
      case 0
      then show ?thesis using assms(1) by simp
    next
      case (Suc l)
      then have "i \<le> l" using before [of l] j(2) by (cases "l < i") auto
      then have "l - i < k" "starts_turn (drop i bs ! (l - i))" using Suc j i(1) by simp_all
      then have "over estimate budget (as @ drop (l - i) (drop i bs))" using assms(3) unfolding fitted_def by blast
      then show ?thesis using Suc \<open>i \<le> l\<close> by simp
    qed
  next
    assume "over estimate budget (as @ drop (Suc (i + k)) (b # bs))"
    then show "length (as @ drop (Suc (i + k)) (b # bs)) \<le> 2 \<or> (\<forall>m \<in> set (tl (drop (Suc (i + k)) (b # bs))). \<not> starts_turn m)"
      using assms(3) unfolding fitted_def by (auto simp: add.commute)
  qed
qed

lemma fit_turns_fitted:
  assumes "\<And>m. m \<in> set as \<Longrightarrow> \<not> starts_turn m" "bs = [] \<or> starts_turn (hd bs)"
  shows "\<exists>k. snd (fit_turns estimate budget (as @ bs)) = as @ drop k bs \<and> fitted estimate budget as bs k \<and>
     (case fst (fit_turns estimate budget (as @ bs)) of Inl e \<Rightarrow> estimate (as @ drop k bs) = Inl e | Inr _ \<Rightarrow> \<exists>t. estimate (as @ drop k bs) = Inr t)"
  using assms(2)
proof (induction "length bs" arbitrary: bs rule: less_induct)
  case less
  show ?case
  proof (cases "estimate (as @ bs)")
    case (Inl e)
    then show ?thesis by (intro exI [of _ 0]) (simp add: fit_turns.simps [of estimate budget "as @ bs"] fitted_def over_def)
  next
    case (Inr t)
    show ?thesis
    proof (cases bs)
      case Nil
      have "position starts_turn as = None" using assms(1) by (simp add: position_takeWhile)
      then show ?thesis
        using Inr Nil by (intro exI [of _ 0]) (simp add: fit_turns.simps [of estimate budget as] fitted_def)
    next
      case (Cons b rest)
      then have b: "starts_turn b" using less.prems by simp
      note step = fit_turns_step [where as = as and estimate = estimate and budget = budget, OF assms(1) b Inr [unfolded Cons], folded Cons]
      consider (stop) "\<not> (budget < t \<and> 2 < length (as @ bs))" | (last) "budget < t" "2 < length (as @ bs)" "position starts_turn rest = None"
        | (next_one) i where "budget < t" "2 < length (as @ bs)" "position starts_turn rest = Some i" by (cases "position starts_turn rest") auto
      then show ?thesis
      proof cases
        case stop
        then show ?thesis using Inr step by (intro exI [of _ 0]) (auto simp: fitted_def over_def)
      next
        case last
        then have "\<forall>m \<in> set rest. \<not> starts_turn m" by (auto simp: position_takeWhile split: if_splits)
        with last show ?thesis using Inr step Cons by (intro exI [of _ 0]) (auto simp: fitted_def over_def)
      next
        case next_one
        note i = position_length [OF next_one(3)]
        have eq: "fit_turns estimate budget (as @ bs) = fit_turns estimate budget (as @ drop i rest)" using step next_one by simp
        have "length (drop i rest) < length bs" "drop i rest = [] \<or> starts_turn (hd (drop i rest))"
          using i Cons by (auto simp: hd_drop_conv_nth)
        from less.hyps [OF this] obtain k where k: "snd (fit_turns estimate budget (as @ bs)) = as @ drop k (drop i rest)"
          "fitted estimate budget as (drop i rest) k"
          "case fst (fit_turns estimate budget (as @ bs)) of Inl e \<Rightarrow> estimate (as @ drop k (drop i rest)) = Inl e
             | Inr _ \<Rightarrow> \<exists>t. estimate (as @ drop k (drop i rest)) = Inr t"
          unfolding eq [symmetric] by blast
        have "over estimate budget (as @ b # rest)" using Inr next_one(1) Cons by (simp add: over_def)
        from fitted_later [OF this next_one(3) k(2)] k(1,3) show ?thesis
          unfolding Cons by (intro exI [of _ "Suc (i + k)"]) (auto simp: add.commute split: sum.splits)
      qed
    qed
  qed
qed

definition before_turns :: "ChatMessage list \<Rightarrow> ChatMessage list" where
  "before_turns ms = takeWhile (\<lambda>m. \<not> starts_turn m) ms"

definition from_turns :: "ChatMessage list \<Rightarrow> ChatMessage list" where
  "from_turns ms = dropWhile (\<lambda>m. \<not> starts_turn m) ms"

lemma final_fit_fitted:
  assumes "final_fit refusal estimate budget ms = (result, ms')"
  obtains k where "ms' = before_turns ms @ drop k (from_turns ms)" "fitted estimate budget (before_turns ms) (from_turns ms) k"
    "case result of Inr n \<Rightarrow> estimate ms' = Inr n \<and> n \<le> budget | Inl e \<Rightarrow> estimate ms' = Inl e \<or> e = refusal \<and> over estimate budget ms'"
proof -
  have "\<not> starts_turn m" if "m \<in> set (before_turns ms)" for m using that by (auto simp: before_turns_def dest: set_takeWhileD)
  moreover have "from_turns ms = [] \<or> starts_turn (hd (from_turns ms))"
    using hd_dropWhile [of "\<lambda>m. \<not> starts_turn m" ms] by (auto simp: from_turns_def)
  ultimately obtain k where k: "snd (fit_turns estimate budget ms) = before_turns ms @ drop k (from_turns ms)"
    "fitted estimate budget (before_turns ms) (from_turns ms) k"
    "case fst (fit_turns estimate budget ms) of Inl e \<Rightarrow> estimate (before_turns ms @ drop k (from_turns ms)) = Inl e
       | Inr _ \<Rightarrow> \<exists>t. estimate (before_turns ms @ drop k (from_turns ms)) = Inr t"
    using fit_turns_fitted [of "before_turns ms" "from_turns ms" estimate budget] by (auto simp: before_turns_def from_turns_def)
  have "ms' = before_turns ms @ drop k (from_turns ms)"
    using assms k(1) by (auto simp: final_fit_def split: prod.splits sum.splits)
  moreover have "case result of Inr n \<Rightarrow> estimate ms' = Inr n \<and> n \<le> budget | Inl e \<Rightarrow> estimate ms' = Inl e \<or> e = refusal \<and> over estimate budget ms'"
    using assms k(1,3) by (auto simp: final_fit_def over_def split: prod.splits sum.splits if_splits)
  ultimately show ?thesis using that k(2) by blast
qed

text \<open>The estimate is the number of bytes divided by the ratio, rounded up.\<close>

lemma estimate_tokens_from_bytes_exact:
  assumes "bytes < u64_limit"
  shows "estimate_tokens_from_bytes bytes m = (bytes * 1000 + (token_ratio m - 1)) div token_ratio m"
    and "bytes \<le> 3 * estimate_tokens_from_bytes bytes m" "estimate_tokens_from_bytes bytes m \<le> bytes"
proof -
  have r: "1000 \<le> token_ratio m" "token_ratio m \<le> 3000" by (auto simp: token_ratio_def)
  let ?q = "(bytes * 1000 + (token_ratio m - 1)) div token_ratio m"
  have "?q * token_ratio m \<le> bytes * 1000 + (token_ratio m - 1)" by simp
  have up: "?q \<le> bytes"
  proof -
    have "bytes * 1000 \<le> bytes * token_ratio m" using r(1) by simp
    moreover have "(bytes + 1) * token_ratio m = bytes * token_ratio m + token_ratio m" by simp
    ultimately have "bytes * 1000 + (token_ratio m - 1) < (bytes + 1) * token_ratio m" using r(1) by linarith
    then show ?thesis by (simp add: less_mult_imp_div_less flip: less_Suc_eq_le)
  qed
  have low: "bytes \<le> 3 * ?q"
  proof -
    have "bytes * 1000 + (token_ratio m - 1) < (?q + 1) * token_ratio m"
      using r(1) by (metis Suc_eq_plus1 dividend_less_times_div mult.commute mult_Suc_right not_one_le_zero order_trans_rules(23) zero_less_numeral bot_nat_0.not_eq_extremum le_zero_eq)
    then have "bytes * 1000 < ?q * token_ratio m + 1" using r(1) by (simp add: algebra_simps)
    also have "\<dots> \<le> ?q * 3000 + 1" using r(2) by simp
    finally show ?thesis by simp
  qed
  have fits: "bytes * 1000 + (token_ratio m - 1) \<le> u128_max" using assms r(2) by (simp add: u64_limit_def u128_max_def)
  then have "min u128_max (bytes * 1000) = bytes * 1000" by simp
  moreover have "min u128_max (bytes * 1000 + (token_ratio m - 1)) = bytes * 1000 + (token_ratio m - 1)" using fits by simp
  moreover have "?q \<le> u64_limit - 1" using up assms by simp
  ultimately show "estimate_tokens_from_bytes bytes m = ?q" by (simp only: estimate_tokens_from_bytes_def Let_def) simp
  with up low show "bytes \<le> 3 * estimate_tokens_from_bytes bytes m" "estimate_tokens_from_bytes bytes m \<le> bytes" by simp_all
qed

definition request_tokens :: "('o ChatRequest \<Rightarrow> string + nat) \<Rightarrow> nat \<Rightarrow> 'o ChatRequest \<Rightarrow> ChatMessage list \<Rightarrow> string + nat" where
  "request_tokens request_bytes ratio request ms =
    map_sum id (\<lambda>n. estimate_tokens_from_bytes n ratio) (request_bytes (request\<lparr>rq_messages := ms\<rparr>))"

text \<open>
  C35: Fitting a request to its budget removes the oldest whole turns and nothing else: what is left is everything before the
  first turn and a suffix that starts at a turn, no earlier cut fits, the newest turn is always kept, and a success is the exact
  estimate of the request that is left, within the budget.
\<close>

theorem request_fit_exact:
  assumes "fit_chat_request request_bytes request context_tokens output_reserve ratio = (result, request')"
  shows "\<exists>k. request' = request\<lparr>rq_messages := before_turns (rq_messages request) @ drop k (from_turns (rq_messages request))\<rparr> \<and>
     fitted (request_tokens request_bytes ratio request) (context_tokens - output_reserve) (before_turns (rq_messages request))
       (from_turns (rq_messages request)) k \<and>
     (case result of
        Inr n \<Rightarrow> request_tokens request_bytes ratio request (rq_messages request') = Inr n \<and> n \<le> context_tokens - output_reserve
      | Inl e \<Rightarrow> request_tokens request_bytes ratio request (rq_messages request') = Inl e \<or>
          over (request_tokens request_bytes ratio request) (context_tokens - output_reserve) (rq_messages request'))"
proof -
  obtain ms' where fit: "final_fit ''mandatory serialized model request exceeds context budget'' (request_tokens request_bytes ratio request)
      (context_tokens - output_reserve) (rq_messages request) = (result, ms')" and r: "request' = request\<lparr>rq_messages := ms'\<rparr>"
    using assms unfolding fit_chat_request_def request_tokens_def [symmetric] Let_def by (auto split: prod.splits)
  show ?thesis
    by (rule final_fit_fitted [OF fit]) (use r in \<open>auto split: sum.splits\<close>)
qed

definition count_bytes :: "unit ChatRequest \<Rightarrow> string + nat" where
  "count_bytes request = Inr (estimate_message_tokens (rq_messages request))"

theorem request_fit_exact_witness:
  "\<exists>request' n. fit_chat_request count_bytes \<lparr>rq_messages = sample_chat, rq_other = ()\<rparr> 15 2 1000 = (Inr n, request') \<and> n \<le> 13 \<and>
     rq_messages request' \<noteq> sample_chat"
proof -
  have ratio: "estimate_tokens_from_bytes n 1000 = n" if "n < u64_limit" for n
    using estimate_tokens_from_bytes_exact(1) [OF that, of 1000] by (simp add: token_ratio_def)
  let ?request' = "\<lparr>rq_messages = [plain_message System ''rules'', plain_message User ''two'', plain_message Assistant ''b''], rq_other = ()\<rparr>"
  note msgs = sample_chat_def plain_message_def starts_turn_def is_compaction_receipt_def next_turn_def estimate_message_tokens_def content_chars_def
  let ?e = "\<lambda>ms. Inr (estimate_tokens_from_bytes (estimate_message_tokens ms) 1000) :: string + nat"
  have one: "fit_turns ?e 13 sample_chat = fit_turns ?e 13 (rq_messages ?request')"
    by (subst fit_turns.simps) (simp add: msgs ratio u64_limit_def)
  have two: "fit_turns ?e 13 (rq_messages ?request') = (Inr (), rq_messages ?request')"
    by (subst fit_turns.simps) (simp add: msgs ratio u64_limit_def)
  have fit: "fit_chat_request count_bytes \<lparr>rq_messages = sample_chat, rq_other = ()\<rparr> 15 2 1000 = (Inr 13, ?request')"
    using one two by (simp add: fit_chat_request_def final_fit_def count_bytes_def) (simp add: msgs ratio u64_limit_def)
  have "13 \<le> (15 :: nat) - 2" using request_fit_exact [OF fit] by auto
  with fit show ?thesis by (auto simp: sample_chat_def plain_message_def)
qed

end
