(* ===== verification/Endpoint_Policy.thy ===== *)
theory Endpoint_Policy
  imports Text_Parsing "HOL-Library.Word"
begin

text \<open>
  The network policy (\<open>crates/local-endpoint-policy/src/lib.rs\<close>): public destinations for web access, local endpoints that the operator
  approved, and the HTTP clients pinned to the addresses that were checked.

  The URL parser, the CIDR library, the resolver's answer and the HTTP client builder are parameters (\<open>url_lib\<close>, \<open>net_lib\<close>, the
  argument \<open>resolver\<close>, \<open>client_lib\<close>). An address is a word of its width, most significant byte first.
\<close>

section \<open>Addresses\<close>

datatype IpAddr = V4 "32 word" | V6 "128 word"

text \<open>The derived order of \<open>std::net::IpAddr\<close>, by which a \<open>BTreeSet\<close> lists its elements.\<close>

instantiation IpAddr :: linorder
begin

fun less_eq_IpAddr :: "IpAddr \<Rightarrow> IpAddr \<Rightarrow> bool" where
  "less_eq_IpAddr (V4 a) (V4 b) = (a \<le> b)"
| "less_eq_IpAddr (V4 _) (V6 _) = True"
| "less_eq_IpAddr (V6 _) (V4 _) = False"
| "less_eq_IpAddr (V6 a) (V6 b) = (a \<le> b)"

definition less_IpAddr :: "IpAddr \<Rightarrow> IpAddr \<Rightarrow> bool" where
  "less_IpAddr a b \<longleftrightarrow> a \<le> b \<and> \<not> b \<le> a"

instance
proof
  fix a b c :: IpAddr
  show "a < b \<longleftrightarrow> a \<le> b \<and> \<not> b \<le> a" by (simp add: less_IpAddr_def)
  show "a \<le> a" by (cases a) simp_all
  show "a \<le> c" if "a \<le> b" "b \<le> c" using that by (cases a; cases b; cases c) auto
  show "a = b" if "a \<le> b" "b \<le> a" using that by (cases a; cases b) auto
  show "a \<le> b \<or> b \<le> a" by (cases a; cases b) auto
qed

end

definition collect_btree :: "IpAddr list \<Rightarrow> IpAddr list" where
  "collect_btree addresses = sort (remdups addresses)"

lemma collect_btree [simp]: "set (collect_btree xs) = set xs" "distinct (collect_btree xs)" "sorted (collect_btree xs)"
  by (simp_all add: collect_btree_def)

lemma collect_btree_Nil [simp]: "collect_btree xs = [] \<longleftrightarrow> xs = []"
  by (metis collect_btree(1) set_empty)

type_synonym SocketAddr = "IpAddr \<times> nat"

text \<open>\<open>Ipv6Addr::to_ipv4_mapped\<close>: the block \<open>::ffff:0:0/96\<close>. \<open>IpAddr::is_loopback\<close>: \<open>127.0.0.0/8\<close> and \<open>::1\<close>.\<close>

definition to_ipv4_mapped :: "128 word \<Rightarrow> (32 word) option" where
  "to_ipv4_mapped a = (if drop_bit 32 a = 0xFFFF then Some (ucast a) else None)"

fun normalize_mapped_ip :: "IpAddr \<Rightarrow> IpAddr" where
  "normalize_mapped_ip (V6 a) = (case to_ipv4_mapped a of Some b \<Rightarrow> V4 b | None \<Rightarrow> V6 a)"
| "normalize_mapped_ip (V4 a) = V4 a"

fun is_loopback :: "IpAddr \<Rightarrow> bool" where
  "is_loopback (V4 a) = (drop_bit 24 a = 127)"
| "is_loopback (V6 a) = (a = 1)"

section \<open>Libraries\<close>

datatype Host = Ipv4 "32 word" | Ipv6 "128 word" | Domain string

record 'u url_lib =
  url_parse :: "string \<Rightarrow> string + 'u"
  url_scheme :: "'u \<Rightarrow> string"
  url_username :: "'u \<Rightarrow> string"
  url_password :: "'u \<Rightarrow> string option"
  url_host :: "'u \<Rightarrow> Host option"
  url_host_str :: "'u \<Rightarrow> string option"
  url_port_or_known_default :: "'u \<Rightarrow> nat option"

record 'n net_lib =
  net_parse :: "string \<Rightarrow> 'n option"
  net_contains :: "'n \<Rightarrow> IpAddr \<Rightarrow> bool"

record ('b, 'c) client_lib =
  client_builder :: 'b
  resolve_to_addrs :: "string \<Rightarrow> SocketAddr list \<Rightarrow> 'b \<Rightarrow> 'b"
  no_proxy :: "'b \<Rightarrow> 'b"
  redirect_none :: "'b \<Rightarrow> 'b"
  client_build :: "'b \<Rightarrow> string + 'c"

type_synonym resolver = "string \<Rightarrow> nat \<Rightarrow> string + SocketAddr list"

section \<open>Errors and results\<close>

datatype EndpointClassification = Loopback | ApprovedCidr | ApprovedDns

fun EndpointClassification_as_str :: "EndpointClassification \<Rightarrow> string" where
  "EndpointClassification_as_str Loopback = ''loopback''"
| "EndpointClassification_as_str ApprovedCidr = ''approved_cidr''"
| "EndpointClassification_as_str ApprovedDns = ''approved_dns''"

record 'u EndpointResolution =
  er_url :: 'u
  er_classification :: EndpointClassification
  er_addresses :: "IpAddr list"

record 'u PublicEgressResolution =
  pr_url :: 'u
  pr_addresses :: "IpAddr list"

datatype PolicyError = InvalidUrl string | Scheme | Userinfo | AlternateNumericHost | UnapprovedDns string | UnapprovedAddress IpAddr
  | ProhibitedPublicAddress IpAddr | EmptyResolution string | Resolution string string | InvalidCidr string | Client string

section \<open>Numeric host forms\<close>

text \<open>\<open>split_once\<close>, \<open>rsplit_once\<close> and the first piece of a split at any of some characters.\<close>

definition split_once :: "string \<Rightarrow> string \<Rightarrow> (string \<times> string) option" where
  "split_once p s = map_option (\<lambda>i. (take i s, drop (i + length p) s)) (str_find s p)"

definition rsplit_once :: "char \<Rightarrow> string \<Rightarrow> (string \<times> string) option" where
  "rsplit_once c s = (if c \<in> set s then Some (rev (tl (dropWhile ((\<noteq>) c) (rev s))), rev (takeWhile ((\<noteq>) c) (rev s))) else None)"

definition url_authority :: "string \<Rightarrow> string" where
  "url_authority raw_url =
    (let rest = (case split_once ''://'' raw_url of Some (_, rest) \<Rightarrow> rest | None \<Rightarrow> raw_url) in
     takeWhile (\<lambda>c. c \<notin> set ''/?#'') rest)"

definition written_host :: "string \<Rightarrow> string" where
  "written_host raw_url =
    (let authority = url_authority raw_url;
         host_port = (case rsplit_once (CHR ''@'') authority of Some (_, v) \<Rightarrow> v | None \<Rightarrow> authority) in
     if starts_with host_port ''['' then
       (case split_once '']'' host_port of Some (v, _) \<Rightarrow> v @ '']'' | None \<Rightarrow> host_port)
     else takeWhile ((\<noteq>) CHR '':'') host_port)"

definition reject_alternate_numeric_host :: "string \<Rightarrow> PolicyError + unit" where
  "reject_alternate_numeric_host raw_url =
    (let lower = to_ascii_lowercase (written_host raw_url);
         dotted_leading_zero = list_ex (\<lambda>part. 1 < length part \<and> starts_with part ''0'' \<and> list_all is_ascii_digit part) (split_on (CHR ''.'') lower);
         integer_form = CHR ''.'' \<notin> set lower \<and> list_all is_ascii_digit lower;
         hex_or_octal = starts_with lower ''0x'' \<or> dotted_leading_zero in
     if integer_form \<or> hex_or_octal then Inl AlternateNumericHost else Inr ())"

text \<open>The checks on the URL with which both policies begin.\<close>

definition checked_url :: "'u url_lib \<Rightarrow> string \<Rightarrow> PolicyError + 'u \<times> Host \<times> nat" where
  "checked_url ul raw_url =
    (case reject_alternate_numeric_host raw_url of
       Inl e \<Rightarrow> Inl e
     | Inr _ \<Rightarrow>
        (case url_parse ul raw_url of
           Inl m \<Rightarrow> Inl (InvalidUrl m)
         | Inr url \<Rightarrow>
            if url_scheme ul url \<notin> {''http'', ''https''} then Inl Scheme
            else if url_username ul url \<noteq> [] \<or> url_password ul url \<noteq> None then Inl Userinfo
            else (case url_host ul url of
                    None \<Rightarrow> Inl (InvalidUrl ''missing host'')
                  | Some host \<Rightarrow>
                     (case url_port_or_known_default ul url of
                        None \<Rightarrow> Inl (InvalidUrl ''missing port'')
                      | Some port \<Rightarrow> Inr (url, host, port)))))"

definition host_text :: "'u url_lib \<Rightarrow> 'u \<Rightarrow> string" where
  "host_text ul url = (case url_host_str ul url of Some h \<Rightarrow> h | None \<Rightarrow> [])"

section \<open>Public destinations\<close>

definition prohibited_v4 :: "string list" where
  "prohibited_v4 = [''0.0.0.0/8'', ''10.0.0.0/8'', ''100.64.0.0/10'', ''127.0.0.0/8'', ''169.254.0.0/16'', ''172.16.0.0/12'', ''192.0.0.0/24'',
     ''192.0.2.0/24'', ''192.88.99.0/24'', ''192.168.0.0/16'', ''198.18.0.0/15'', ''198.51.100.0/24'', ''203.0.113.0/24'', ''224.0.0.0/4'',
     ''240.0.0.0/4'']"

definition prohibited_v6 :: "string list" where
  "prohibited_v6 = [''2001::/23'', ''2001:db8::/32'', ''2002::/16'', ''3fff::/20'', ''64:ff9b::/96'', ''64:ff9b:1::/48'']"

text \<open>\<open>cidr.parse::<IpNet>().is_ok_and(|network| network.contains(&address))\<close>.\<close>

definition in_net :: "'n net_lib \<Rightarrow> IpAddr \<Rightarrow> string \<Rightarrow> bool" where
  "in_net nl address cidr = (case net_parse nl cidr of Some network \<Rightarrow> net_contains nl network address | None \<Rightarrow> False)"

definition is_globally_routable :: "'n net_lib \<Rightarrow> IpAddr \<Rightarrow> bool" where
  "is_globally_routable nl address =
    (case normalize_mapped_ip address of
       V4 v4 \<Rightarrow> \<not> list_ex (in_net nl (V4 v4)) prohibited_v4
     | V6 v6 \<Rightarrow> in_net nl (V6 v6) ''2000::/3'' \<and> \<not> list_ex (in_net nl (V6 v6)) prohibited_v6)"

definition public_addresses :: "resolver \<Rightarrow> Host \<Rightarrow> nat \<Rightarrow> PolicyError + IpAddr list" where
  "public_addresses resolver host port =
    (case host of
       Ipv4 a \<Rightarrow> Inr [V4 a]
     | Ipv6 a \<Rightarrow> Inr [normalize_mapped_ip (V6 a)]
     | Domain name \<Rightarrow>
        (case resolver name port of
           Inl m \<Rightarrow> Inl (Resolution name m)
         | Inr sockets \<Rightarrow> Inr (collect_btree (map (normalize_mapped_ip \<circ> fst) sockets))))"

definition resolve_with :: "'u url_lib \<Rightarrow> 'n net_lib \<Rightarrow> resolver \<Rightarrow> string \<Rightarrow> PolicyError + 'u PublicEgressResolution" where
  "resolve_with ul nl resolver raw_url =
    (case checked_url ul raw_url of
       Inl e \<Rightarrow> Inl e
     | Inr (url, host, port) \<Rightarrow>
        (case public_addresses resolver host port of
           Inl e \<Rightarrow> Inl e
         | Inr addresses \<Rightarrow>
            if addresses = [] then Inl (EmptyResolution (host_text ul url))
            else (case find (\<lambda>a. \<not> is_globally_routable nl a) addresses of
                    Some a \<Rightarrow> Inl (ProhibitedPublicAddress a)
                  | None \<Rightarrow> Inr \<lparr>pr_url = url, pr_addresses = addresses\<rparr>)))"

text \<open>The end of both client constructors: None is the panic of an \<open>expect\<close>.\<close>

definition pinned_client ::
  "'u url_lib \<Rightarrow> ('b, 'c) client_lib \<Rightarrow> ('b \<Rightarrow> 'b) \<Rightarrow> 'u \<Rightarrow> IpAddr list \<Rightarrow> (PolicyError + 'c) option" where
  "pinned_client ul cl configure url addresses =
    (let builder = configure (client_builder cl);
         finish = (\<lambda>b. Some (map_sum Client id (client_build cl (redirect_none cl (no_proxy cl b))))) in
     case url_host ul url of
       Some (Domain _) \<Rightarrow>
         (case (url_host_str ul url, url_port_or_known_default ul url) of
            (Some host, Some port) \<Rightarrow> finish (resolve_to_addrs cl host (map (\<lambda>a. (a, port)) addresses) builder)
          | _ \<Rightarrow> None)
     | _ \<Rightarrow> finish builder)"

definition public_client ::
  "'u url_lib \<Rightarrow> 'n net_lib \<Rightarrow> ('b, 'c) client_lib \<Rightarrow> ('b \<Rightarrow> 'b) \<Rightarrow> 'u PublicEgressResolution \<Rightarrow> (PolicyError + 'c) option" where
  "public_client ul nl cl configure r =
    (if url_scheme ul (pr_url r) \<notin> {''http'', ''https''} then Some (Inl Scheme)
     else if url_username ul (pr_url r) \<noteq> [] \<or> url_password ul (pr_url r) \<noteq> None then Some (Inl Userinfo)
     else if pr_addresses r = [] then Some (Inl (EmptyResolution (host_text ul (pr_url r))))
     else (case find (\<lambda>a. \<not> is_globally_routable nl a) (pr_addresses r) of
             Some a \<Rightarrow> Some (Inl (ProhibitedPublicAddress a))
           | None \<Rightarrow> pinned_client ul cl configure (pr_url r) (pr_addresses r)))"

section \<open>Local endpoints\<close>

record 'n LocalEndpointPolicy =
  approved_cidrs :: "'n list"
  approved_dns_names :: "string list"

text \<open>\<open>trim_end_matches('.')\<close>.\<close>

definition trim_end_dots :: "string \<Rightarrow> string" where
  "trim_end_dots s = rev (dropWhile ((=) CHR ''.'') (rev s))"

fun parse_cidrs :: "'n net_lib \<Rightarrow> string list \<Rightarrow> PolicyError + 'n list" where
  "parse_cidrs nl [] = Inr []"
| "parse_cidrs nl (c # cs) =
    (case net_parse nl c of
       None \<Rightarrow> Inl (InvalidCidr c)
     | Some n \<Rightarrow> (case parse_cidrs nl cs of Inl e \<Rightarrow> Inl e | Inr ns \<Rightarrow> Inr (n # ns)))"

definition normal_dns :: "string \<Rightarrow> string" where
  "normal_dns name = to_ascii_lowercase (trim_end_dots name)"

definition LocalEndpointPolicy_new :: "'n net_lib \<Rightarrow> string list \<Rightarrow> string list \<Rightarrow> PolicyError + 'n LocalEndpointPolicy" where
  "LocalEndpointPolicy_new nl cidrs dns_names =
    (case parse_cidrs nl cidrs of
       Inl e \<Rightarrow> Inl e
     | Inr ns \<Rightarrow> Inr \<lparr>approved_cidrs = ns, approved_dns_names = filter (\<lambda>n. n \<noteq> []) (map normal_dns dns_names)\<rparr>)"

definition loopback_only :: "'n LocalEndpointPolicy" where
  "loopback_only = \<lparr>approved_cidrs = [], approved_dns_names = []\<rparr>"

definition locally_approved :: "'n net_lib \<Rightarrow> 'n LocalEndpointPolicy \<Rightarrow> IpAddr \<Rightarrow> bool" where
  "locally_approved nl p address \<longleftrightarrow> is_loopback address \<or> list_ex (\<lambda>n. net_contains nl n address) (approved_cidrs p)"

definition validate_addresses ::
  "'u url_lib \<Rightarrow> 'n net_lib \<Rightarrow> 'n LocalEndpointPolicy \<Rightarrow> 'u \<Rightarrow> IpAddr list \<Rightarrow> bool \<Rightarrow> PolicyError + 'u EndpointResolution" where
  "validate_addresses ul nl p url addresses0 dns =
    (let addresses = collect_btree (map normalize_mapped_ip addresses0) in
     if addresses = [] then Inl (EmptyResolution (host_text ul url))
     else (case find (\<lambda>a. \<not> locally_approved nl p a) addresses of
             Some a \<Rightarrow> Inl (UnapprovedAddress a)
           | None \<Rightarrow> Inr \<lparr>er_url = url,
               er_classification = (if dns then ApprovedDns else if list_all is_loopback addresses then Loopback else ApprovedCidr),
               er_addresses = addresses\<rparr>))"

definition validate_with ::
  "'u url_lib \<Rightarrow> 'n net_lib \<Rightarrow> 'n LocalEndpointPolicy \<Rightarrow> resolver \<Rightarrow> string \<Rightarrow> PolicyError + 'u EndpointResolution" where
  "validate_with ul nl p resolver raw_url =
    (case checked_url ul raw_url of
       Inl e \<Rightarrow> Inl e
     | Inr (url, host, port) \<Rightarrow>
        (case host of
           Ipv4 a \<Rightarrow> validate_addresses ul nl p url [V4 a] False
         | Ipv6 a \<Rightarrow> validate_addresses ul nl p url [V6 a] False
         | Domain name \<Rightarrow>
            (let normalized = normal_dns name in
             if normalized \<noteq> ''localhost'' \<and> normalized \<notin> set (approved_dns_names p) then Inl (UnapprovedDns normalized)
             else (case resolver name port of
                     Inl m \<Rightarrow> Inl (Resolution name m)
                   | Inr sockets \<Rightarrow> validate_addresses ul nl p url (collect_btree (map fst sockets)) True))))"

definition local_client ::
  "'u url_lib \<Rightarrow> ('b, 'c) client_lib \<Rightarrow> ('b \<Rightarrow> 'b) \<Rightarrow> 'u EndpointResolution \<Rightarrow> (PolicyError + 'c) option" where
  "local_client ul cl configure r = pinned_client ul cl configure (er_url r) (er_addresses r)"

end
