(* ===== verification/Endpoint_Properties.thy ===== *)
theory Endpoint_Properties
  imports Endpoint_Policy
begin

unbundle bit_operations_syntax

text \<open>
  What the network policy guarantees: a public destination is pinned to addresses outside every block that the policy lists, in whatever
  form the host or the resolver gives them, its client has no proxy and follows no redirects, and a local endpoint to loopback or approved addresses.
\<close>

section \<open>Blocks of addresses\<close>

text \<open>The addresses that share the first \<open>n\<close> bits with a base address.\<close>

definition same_prefix :: "nat \<Rightarrow> 'a::len word \<Rightarrow> 'a word \<Rightarrow> bool" where
  "same_prefix n a b \<longleftrightarrow> drop_bit (LENGTH('a) - n) a = drop_bit (LENGTH('a) - n) b"

lemma drop_bit_eq_iff_div: "drop_bit n a = drop_bit n b \<longleftrightarrow> unat a div 2 ^ n = unat b div 2 ^ n"
  unfolding word_unat_eq_iff [of "drop_bit n a"] unat_drop_bit_eq by (simp add: drop_bit_eq_div)

lemma same_prefix_range:
  fixes a b :: "'a::len word"
  assumes "unat b = lo" "2 ^ (LENGTH('a) - n) dvd lo"
  shows "same_prefix n a b \<longleftrightarrow> lo \<le> unat a \<and> unat a < lo + 2 ^ (LENGTH('a) - n)"
proof -
  let ?m = "2 ^ (LENGTH('a) - n) :: nat"
  obtain q where q: "lo = ?m * q" using assms(2) by (auto elim: dvdE)
  have "same_prefix n a b \<longleftrightarrow> unat a div ?m = q"
    by (simp add: same_prefix_def drop_bit_eq_iff_div assms(1) q)
  also have "\<dots> \<longleftrightarrow> ?m * q \<le> unat a \<and> unat a < ?m * q + ?m"
    by (metis add.commute div_nat_eqI dividend_less_times_div less_le_not_le mult.commute mult_Suc times_div_less_eq_dividend zero_less_numeral zero_less_power)
  finally show ?thesis by (simp add: q)
qed

text \<open>The networks whose text the code contains, with their base addresses and lengths.\<close>

definition v4_blocks :: "(string \<times> 32 word \<times> nat) list" where
  "v4_blocks = zip prohibited_v4 [(0, 8), (0x0A000000, 8), (0x64400000, 10), (0x7F000000, 8), (0xA9FE0000, 16), (0xAC100000, 12), (0xC0000000, 24),
     (0xC0000200, 24), (0xC0586300, 24), (0xC0A80000, 16), (0xC6120000, 15), (0xC6336400, 24), (0xCB007100, 24), (0xE0000000, 4),
     (0xF0000000, 4)]"

definition v6_blocks :: "(string \<times> 128 word \<times> nat) list" where
  "v6_blocks = zip (''2000::/3'' # prohibited_v6) [(0x20000000000000000000000000000000, 3), (0x20010000000000000000000000000000, 23),
     (0x20010DB8000000000000000000000000, 32), (0x20020000000000000000000000000000, 16), (0x3FFF0000000000000000000000000000, 20),
     (0x0064FF9B000000000000000000000000, 96), (0x0064FF9B000100000000000000000000, 48)]"

text \<open>The CIDR library: these texts parse, and a network contains the addresses of its family with its prefix.\<close>

definition net_lib_ok :: "'n net_lib \<Rightarrow> bool" where
  "net_lib_ok nl \<longleftrightarrow>
     (\<forall>(t, b, n) \<in> set v4_blocks. \<exists>x. net_parse nl t = Some x \<and> (\<forall>a. net_contains nl x (V4 a) \<longleftrightarrow> same_prefix n a b)) \<and>
     (\<forall>(t, b, n) \<in> set v6_blocks. \<exists>x. net_parse nl t = Some x \<and> (\<forall>a. net_contains nl x (V6 a) \<longleftrightarrow> same_prefix n a b))"

text \<open>The special-purpose ranges, as half-open intervals of numbers.\<close>

definition special_v4 :: "(nat \<times> nat) list" where
  "special_v4 = [(0, 0x01000000), (0x0A000000, 0x0B000000), (0x64400000, 0x64800000), (0x7F000000, 0x80000000), (0xA9FE0000, 0xA9FF0000),
     (0xAC100000, 0xAC200000), (0xC0000000, 0xC0000100), (0xC0000200, 0xC0000300), (0xC0586300, 0xC0586400), (0xC0A80000, 0xC0A90000),
     (0xC6120000, 0xC6140000), (0xC6336400, 0xC6336500), (0xCB007100, 0xCB007200), (0xE0000000, 0xF0000000),
     (0xF0000000, 0x100000000)]"

definition special_v6 :: "(nat \<times> nat) list" where
  "special_v6 = [(0x20010000000000000000000000000000, 0x20010200000000000000000000000000),
     (0x20010DB8000000000000000000000000, 0x20010DB9000000000000000000000000),
     (0x20020000000000000000000000000000, 0x20030000000000000000000000000000),
     (0x3FFF0000000000000000000000000000, 0x3FFF1000000000000000000000000000)]"

definition in_ranges :: "(nat \<times> nat) list \<Rightarrow> nat \<Rightarrow> bool" where
  "in_ranges rs x \<longleftrightarrow> list_ex (\<lambda>(lo, hi). lo \<le> x \<and> x < hi) rs"

fun public_ip :: "IpAddr \<Rightarrow> bool" where
  "public_ip (V4 a) = (\<not> in_ranges special_v4 (unat a))"
| "public_ip (V6 a) = (0x20000000000000000000000000000000 \<le> unat a \<and> unat a < 0x40000000000000000000000000000000 \<and>
     \<not> in_ranges special_v6 (unat a))"

lemma in_net_v4:
  assumes "net_lib_ok nl" "(t, b, n) \<in> set v4_blocks"
  shows "in_net nl (V4 a) t \<longleftrightarrow> same_prefix n a b"
  using assms unfolding net_lib_ok_def in_net_def by fastforce

lemma in_net_v6:
  assumes "net_lib_ok nl" "(t, b, n) \<in> set v6_blocks"
  shows "in_net nl (V6 a) t \<longleftrightarrow> same_prefix n a b"
  using assms unfolding net_lib_ok_def in_net_def by fastforce

lemma list_ex_zip: "length ts = length bs \<Longrightarrow> (\<And>t b. (t, b) \<in> set (zip ts bs) \<Longrightarrow> p t \<longleftrightarrow> q b) \<Longrightarrow> list_ex p ts \<longleftrightarrow> list_ex q bs"
  by (induction ts bs rule: list_induct2) auto

lemma prohibited_v4_range:
  assumes "net_lib_ok nl"
  shows "list_ex (in_net nl (V4 a)) prohibited_v4 \<longleftrightarrow> in_ranges special_v4 (unat a)"
proof -
  have "list_ex (in_net nl (V4 a)) prohibited_v4 \<longleftrightarrow>
      list_ex (\<lambda>(b, n). same_prefix n a b) [(0, 8), (0x0A000000, 8), (0x64400000, 10), (0x7F000000, 8), (0xA9FE0000, 16), (0xAC100000, 12), (0xC0000000, 24),
     (0xC0000200, 24), (0xC0586300, 24), (0xC0A80000, 16), (0xC6120000, 15), (0xC6336400, 24), (0xCB007100, 24), (0xE0000000, 4),
     (0xF0000000, 4)]"
    by (rule list_ex_zip) (auto simp: prohibited_v4_def intro!: in_net_v4 [OF assms], auto simp: v4_blocks_def prohibited_v4_def)
  also have "\<dots> \<longleftrightarrow> in_ranges special_v4 (unat a)"
    by (simp add: same_prefix_range in_ranges_def special_v4_def)
  finally show ?thesis .
qed

text \<open>The last two blocks of the list lie outside the global unicast block.\<close>

lemma prohibited_v6_range:
  assumes "net_lib_ok nl"
  shows "in_net nl (V6 a) ''2000::/3'' \<and> \<not> list_ex (in_net nl (V6 a)) prohibited_v6 \<longleftrightarrow> public_ip (V6 a)"
proof -
  have unicast: "in_net nl (V6 a) ''2000::/3'' \<longleftrightarrow> same_prefix 3 a 0x20000000000000000000000000000000"
    by (rule in_net_v6 [OF assms]) (simp add: v6_blocks_def)
  have "list_ex (in_net nl (V6 a)) prohibited_v6 \<longleftrightarrow> list_ex (\<lambda>(b, n). same_prefix n a b) [(0x20010000000000000000000000000000, 23),
     (0x20010DB8000000000000000000000000, 32), (0x20020000000000000000000000000000, 16), (0x3FFF0000000000000000000000000000, 20),
     (0x0064FF9B000000000000000000000000, 96), (0x0064FF9B000100000000000000000000, 48)]"
    by (rule list_ex_zip) (auto simp: prohibited_v6_def intro!: in_net_v6 [OF assms], auto simp: v6_blocks_def prohibited_v6_def)
  note blocks = unicast this
  show ?thesis
  proof (cases "0x20000000000000000000000000000000 \<le> unat a")
    case True
    then have "\<not> unat a < 0x0064FF9B000000000000000100000000" "\<not> unat a < 0x0064FF9B000200000000000000000000" by linarith+
    with True show ?thesis unfolding blocks by (simp add: same_prefix_range in_ranges_def special_v6_def)
  qed (simp add: blocks same_prefix_range)
qed

lemma is_globally_routable_iff:
  assumes "net_lib_ok nl"
  shows "is_globally_routable nl a \<longleftrightarrow> public_ip (normalize_mapped_ip a)"
  using prohibited_v4_range [OF assms] prohibited_v6_range [OF assms]
  by (auto simp: is_globally_routable_def simp del: public_ip.simps(2) split: IpAddr.split)

lemma normalize_idem [simp]: "normalize_mapped_ip (normalize_mapped_ip a) = normalize_mapped_ip a"
  by (cases a) (auto split: option.split)

section \<open>Public destinations\<close>

lemma checked_url_ok:
  assumes "checked_url ul raw_url = Inr (url, host, port)"
  shows "url_parse ul raw_url = Inr url" "url_scheme ul url \<in> {''http'', ''https''}" "url_username ul url = []" "url_password ul url = None"
    "url_host ul url = Some host" "url_port_or_known_default ul url = Some port"
  using assms by (auto simp: checked_url_def split: sum.splits option.splits if_splits)

lemma public_addresses_normal:
  "public_addresses resolver host port = Inr addresses \<Longrightarrow> a \<in> set addresses \<Longrightarrow> normalize_mapped_ip a = a"
  by (auto simp: public_addresses_def simp del: normalize_mapped_ip.simps(1) split: Host.splits sum.splits)

lemma find_none_iff: "find (\<lambda>a. \<not> p a) xs = None \<longleftrightarrow> list_all p xs"
  by (auto simp: find_None_iff list_all_iff)

text \<open>
  C31: A public destination is pinned and judged. When the policy accepts a URL, it is an HTTP URL without credentials, and every
  address the client may connect to lies outside the blocks that the policy lists (\<open>special_v4\<close>, and for IPv6 in the global unicast block outside
  \<open>special_v6\<close>; IPv4-mapped addresses are judged and pinned as IPv4). The addresses are the host literal, or exactly the
  resolver's answer. For every host the client is the caller's builder without proxy and without redirects, for a host name with
  the name pinned to these addresses and the port of the URL. What the policy does not list counts as public.
\<close>

theorem public_egress_safe:
  assumes "net_lib_ok nl" "resolve_with ul nl resolver raw_url = Inr r"
    and "finish = (\<lambda>b. Some (map_sum Client id (client_build cl (redirect_none cl (no_proxy cl b)))))"
  shows "pr_addresses r \<noteq> [] \<and> list_all public_ip (pr_addresses r) \<and> url_parse ul raw_url = Inr (pr_url r) \<and>
    url_scheme ul (pr_url r) \<in> {''http'', ''https''} \<and> url_username ul (pr_url r) = [] \<and> url_password ul (pr_url r) = None \<and>
    (case (url_host ul (pr_url r), url_port_or_known_default ul (pr_url r)) of
       (Some (Ipv4 a), _) \<Rightarrow> pr_addresses r = [V4 a] \<and> public_client ul nl cl configure r = finish (configure (client_builder cl))
     | (Some (Ipv6 a), _) \<Rightarrow> pr_addresses r = [normalize_mapped_ip (V6 a)] \<and>
         public_client ul nl cl configure r = finish (configure (client_builder cl))
     | (Some (Domain name), Some port) \<Rightarrow>
         (case resolver name port of Inr sockets \<Rightarrow> set (pr_addresses r) = (normalize_mapped_ip \<circ> fst) ` set sockets | Inl _ \<Rightarrow> False) \<and>
         public_client ul nl cl configure r = (case url_host_str ul (pr_url r) of
            Some h \<Rightarrow> finish (resolve_to_addrs cl h (map (\<lambda>a. (a, port)) (pr_addresses r)) (configure (client_builder cl)))
          | None \<Rightarrow> None)
     | _ \<Rightarrow> False)"
proof -
  obtain url host port addresses where url: "checked_url ul raw_url = Inr (url, host, port)"
    and addresses: "public_addresses resolver host port = Inr addresses" "addresses \<noteq> []"
    and routable: "find (\<lambda>a. \<not> is_globally_routable nl a) addresses = None" and r: "r = \<lparr>pr_url = url, pr_addresses = addresses\<rparr>"
    using assms(2) by (auto simp: resolve_with_def split: sum.splits prod.splits option.splits if_splits)
  have public: "list_all public_ip addresses"
    using routable public_addresses_normal [OF addresses(1)] is_globally_routable_iff [OF assms(1)]
    by (auto simp: find_none_iff list_all_iff)
  show ?thesis
    using checked_url_ok [OF url] addresses public routable
    by (auto simp: r assms(3) public_addresses_def public_client_def pinned_client_def Let_def simp del: normalize_mapped_ip.simps(1) comp_apply split: Host.splits sum.splits option.splits)
qed

text \<open>A CIDR library that knows the texts of the code.\<close>

datatype sample_net = Net4 "32 word" nat | Net6 "128 word" nat

fun sample_contains :: "sample_net \<Rightarrow> IpAddr \<Rightarrow> bool" where
  "sample_contains (Net4 b n) (V4 a) = same_prefix n a b"
| "sample_contains (Net6 b n) (V6 a) = same_prefix n a b"
| "sample_contains _ _ = False"

definition sample_nets :: "sample_net net_lib" where
  "sample_nets = \<lparr>net_parse = (\<lambda>t. case map_of v4_blocks t of Some (b, n) \<Rightarrow> Some (Net4 b n)
       | None \<Rightarrow> map_option (\<lambda>(b, n). Net6 b n) (map_of v6_blocks t)), net_contains = sample_contains\<rparr>"

lemma sample_nets_ok: "net_lib_ok sample_nets"
  unfolding net_lib_ok_def sample_nets_def v4_blocks_def v6_blocks_def prohibited_v4_def prohibited_v6_def by simp

definition sample_urls :: "string url_lib" where
  "sample_urls = \<lparr>url_parse = Inr, url_scheme = (\<lambda>_. ''https''), url_username = (\<lambda>_. []), url_password = (\<lambda>_. None),
     url_host = (\<lambda>_. Some (Domain ''host'')), url_host_str = (\<lambda>_. Some ''host''), url_port_or_known_default = (\<lambda>_. Some 443)\<rparr>"

definition sample_resolver :: "32 word \<Rightarrow> resolver" where
  "sample_resolver a = (\<lambda>_ port. Inr [(V4 a, port)])"

theorem public_egress_safe_witness:
  "(\<exists>r. resolve_with sample_urls sample_nets (sample_resolver 0x5DB8D822) ''https://host/'' = Inr r \<and> pr_addresses r = [V4 0x5DB8D822] \<and>
     list_all public_ip (pr_addresses r)) \<and>
   resolve_with sample_urls sample_nets (sample_resolver 0x0A000001) ''https://host/'' = Inl (ProhibitedPublicAddress (V4 0x0A000001))"
proof -
  have url: "checked_url sample_urls ''https://host/'' = Inr (''https://host/'', Domain ''host'', 443)" by code_simp
  note eval = resolve_with_def url public_addresses_def sample_resolver_def collect_btree_def is_globally_routable_iff [OF sample_nets_ok]
    in_ranges_def special_v4_def
  let ?r = "\<lparr>pr_url = ''https://host/'', pr_addresses = [V4 0x5DB8D822]\<rparr>"
  have ok: "resolve_with sample_urls sample_nets (sample_resolver 0x5DB8D822) ''https://host/'' = Inr ?r" by (simp add: eval)
  have refused: "resolve_with sample_urls sample_nets (sample_resolver 0x0A000001) ''https://host/'' = Inl (ProhibitedPublicAddress (V4 0x0A000001))"
    by (simp add: eval)
  have "list_all public_ip (pr_addresses ?r)"
    using public_egress_safe [OF sample_nets_ok ok refl] by blast
  with ok refused show ?thesis by auto
qed

section \<open>Local endpoints\<close>

lemma validate_addresses_ok:
  assumes "validate_addresses ul nl p url addresses dns = Inr r"
  shows "er_url r = url" "er_addresses r = collect_btree (map normalize_mapped_ip addresses)" "er_addresses r \<noteq> []"
    "list_all (locally_approved nl p) (er_addresses r)"
    "er_classification r = (if dns then ApprovedDns else if list_all is_loopback (er_addresses r) then Loopback else ApprovedCidr)"
  using assms by (auto simp: validate_addresses_def Let_def find_none_iff [symmetric] split: option.splits if_splits)

text \<open>
  A local endpoint is loopback or approved. When the policy accepts a URL, every address is loopback or in a network the
  operator approved, a host name is \<open>localhost\<close> or an approved name with all addresses of its answer checked, and the classification says which.
\<close>

theorem local_endpoint_approved:
  assumes "validate_with ul nl p resolver raw_url = Inr r"
  shows "er_addresses r \<noteq> [] \<and>
    list_all (\<lambda>a. is_loopback a \<or> list_ex (\<lambda>n. net_contains nl n a) (approved_cidrs p)) (er_addresses r) \<and>
    (case (url_host ul (er_url r), url_port_or_known_default ul (er_url r)) of
       (Some (Ipv4 a), _) \<Rightarrow> er_addresses r = [V4 a] \<and> er_classification r = (if is_loopback (V4 a) then Loopback else ApprovedCidr)
     | (Some (Ipv6 a), _) \<Rightarrow> er_addresses r = [normalize_mapped_ip (V6 a)] \<and>
         er_classification r = (if is_loopback (normalize_mapped_ip (V6 a)) then Loopback else ApprovedCidr)
     | (Some (Domain name), Some port) \<Rightarrow> er_classification r = ApprovedDns \<and>
         (normal_dns name = ''localhost'' \<or> normal_dns name \<in> set (approved_dns_names p)) \<and>
         (case resolver name port of Inr sockets \<Rightarrow> set (er_addresses r) = (normalize_mapped_ip \<circ> fst) ` set sockets | Inl _ \<Rightarrow> False)
     | _ \<Rightarrow> False)"
proof -
  obtain url host port where url: "checked_url ul raw_url = Inr (url, host, port)"
    using assms by (auto simp: validate_with_def split: sum.splits)
  obtain addresses dns where v: "validate_addresses ul nl p url addresses dns = Inr r"
    and parts: "case host of Ipv4 a \<Rightarrow> addresses = [V4 a] \<and> \<not> dns | Ipv6 a \<Rightarrow> addresses = [V6 a] \<and> \<not> dns
      | Domain name \<Rightarrow> dns \<and> (normal_dns name = ''localhost'' \<or> normal_dns name \<in> set (approved_dns_names p)) \<and>
          (\<exists>sockets. resolver name port = Inr sockets \<and> addresses = collect_btree (map fst sockets))"
    using assms by (auto simp: validate_with_def url Let_def split: Host.splits sum.splits if_splits)
  have "collect_btree [a] = [a]" for a by (simp add: collect_btree_def)
  with checked_url_ok(5,6) [OF url] validate_addresses_ok [OF v] parts show ?thesis
    by (auto simp: locally_approved_def [abs_def] simp del: normalize_mapped_ip.simps(1) split: Host.splits sum.splits) force+
qed

theorem local_endpoint_approved_witness:
  "\<exists>r. validate_with sample_urls sample_nets \<lparr>approved_cidrs = [Net4 0x0A000000 8], approved_dns_names = [''host'']\<rparr>
       (sample_resolver 0x0A010203) ''https://host/'' = Inr r \<and> er_addresses r = [V4 0x0A010203] \<and> er_classification r = ApprovedDns"
proof -
  have url: "checked_url sample_urls ''https://host/'' = Inr (''https://host/'', Domain ''host'', 443)" by code_simp
  have name: "normal_dns ''host'' = ''host''" by code_simp
  let ?p = "\<lparr>approved_cidrs = [Net4 0x0A000000 8], approved_dns_names = [''host'']\<rparr>"
  have ok: "validate_with sample_urls sample_nets ?p (sample_resolver 0x0A010203) ''https://host/'' =
      Inr \<lparr>er_url = ''https://host/'', er_classification = ApprovedDns, er_addresses = [V4 0x0A010203]\<rparr>" (is "_ = Inr ?r")
    by (simp add: validate_with_def url name sample_resolver_def validate_addresses_def collect_btree_def locally_approved_def sample_nets_def
        same_prefix_range)
  have "er_classification ?r = ApprovedDns"
    using local_endpoint_approved [OF ok] by (auto simp: sample_urls_def)
  with ok show ?thesis by auto
qed

text \<open>A hexadecimal part that is not the first one passes the check of numeric host forms.\<close>

lemma later_hex_part_passes: "reject_alternate_numeric_host ''http://127.0x0.0.1/'' = Inr ()"
  by code_simp

end
