(* ===== verification/Conversations.thy ===== *)
theory Conversations
  imports Db
begin

text \<open>
  Conversation rows (\<open>crates/core/src/conversation.rs\<close>): kinds, phases and modalities with their stored texts, the upsert of the turn
  machinery, the mutators of the thread metadata, and the listings. The session state machine is that of \<open>crates/session/src/lib.rs\<close>.

  The cascading deletion of a conversation is not modelled.
\<close>

section \<open>Kinds, phases, modalities\<close>

datatype ConversationKind = ControllerDM | GroupWithControllerPresent | GroupWithControllerAbsent | ExternalWithOutsider | MixedTrust

definition count_tags :: "string list \<Rightarrow> string list \<Rightarrow> nat" where
  "count_tags tags classes = length (filter (\<lambda>c. c \<in> set tags) classes)"

definition derive :: "string list \<Rightarrow> ConversationKind" where
  "derive classes =
    (if classes = [] then ControllerDM
     else
       let has_controller = ''Controller'' \<in> set classes;
           trusted = count_tags [''Controller'', ''Delegated'', ''KnownTrusted''] classes;
           untrusted = count_tags [''KnownLimited'', ''UnknownPending''] classes in
       if 0 < trusted \<and> 0 < untrusted then MixedTrust
       else if trusted = 0 \<and> 0 < untrusted then ExternalWithOutsider
       else if has_controller then (if length classes = 1 then ControllerDM else GroupWithControllerPresent)
       else GroupWithControllerAbsent)"

fun ConversationKind_as_str :: "ConversationKind \<Rightarrow> string" where
  "ConversationKind_as_str ControllerDM = ''ControllerDM''"
| "ConversationKind_as_str GroupWithControllerPresent = ''GroupWithControllerPresent''"
| "ConversationKind_as_str GroupWithControllerAbsent = ''GroupWithControllerAbsent''"
| "ConversationKind_as_str ExternalWithOutsider = ''ExternalWithOutsider''"
| "ConversationKind_as_str MixedTrust = ''MixedTrust''"

definition ConversationKind_parse :: "string \<Rightarrow> ConversationKind option" where
  "ConversationKind_parse s =
    (if s = ''ControllerDM'' then Some ControllerDM
     else if s = ''GroupWithControllerPresent'' then Some GroupWithControllerPresent
     else if s = ''GroupWithControllerAbsent'' then Some GroupWithControllerAbsent
     else if s = ''ExternalWithOutsider'' then Some ExternalWithOutsider
     else if s = ''MixedTrust'' then Some MixedTrust else None)"

interpretation conversation_kind: wire_enum ConversationKind_as_str ConversationKind_parse
proof
  show "ConversationKind_parse (ConversationKind_as_str x) = Some x" for x by (cases x) (simp_all add: ConversationKind_parse_def)
  show "ConversationKind_parse s = Some x \<Longrightarrow> ConversationKind_as_str x = s" for s x by (auto simp: ConversationKind_parse_def split: if_splits)
qed

datatype Phase = Idle | Thinking | AwaitingTool | AwaitingApproval | AwaitingWakeup | AwaitingReconnect | AwaitingTrustDecision | TrustRevoked

fun Phase_as_str :: "Phase \<Rightarrow> string" where
  "Phase_as_str Idle = ''idle''"
| "Phase_as_str Thinking = ''thinking''"
| "Phase_as_str AwaitingTool = ''awaiting_tool''"
| "Phase_as_str AwaitingApproval = ''awaiting_approval''"
| "Phase_as_str AwaitingWakeup = ''awaiting_wakeup''"
| "Phase_as_str AwaitingReconnect = ''awaiting_reconnect''"
| "Phase_as_str AwaitingTrustDecision = ''awaiting_trust_decision''"
| "Phase_as_str TrustRevoked = ''trust_revoked''"

definition Phase_parse :: "string \<Rightarrow> Phase option" where
  "Phase_parse s =
    (if s = ''idle'' then Some Idle
     else if s = ''thinking'' then Some Thinking
     else if s = ''awaiting_tool'' then Some AwaitingTool
     else if s = ''awaiting_approval'' then Some AwaitingApproval
     else if s = ''awaiting_wakeup'' then Some AwaitingWakeup
     else if s = ''awaiting_reconnect'' then Some AwaitingReconnect
     else if s = ''awaiting_trust_decision'' then Some AwaitingTrustDecision
     else if s = ''trust_revoked'' then Some TrustRevoked else None)"

interpretation phase: wire_enum Phase_as_str Phase_parse
proof
  show "Phase_parse (Phase_as_str x) = Some x" for x by (cases x) (simp_all add: Phase_parse_def)
  show "Phase_parse s = Some x \<Longrightarrow> Phase_as_str x = s" for s x by (auto simp: Phase_parse_def split: if_splits)
qed

definition is_processing :: "Phase \<Rightarrow> bool" where
  "is_processing p \<longleftrightarrow> p \<in> {Thinking, AwaitingTool}"

datatype Modality = ModalityText | Voice

fun Modality_as_str :: "Modality \<Rightarrow> string" where
  "Modality_as_str ModalityText = ''Text''"
| "Modality_as_str Voice = ''Voice''"

definition Modality_parse :: "string \<Rightarrow> Modality option" where
  "Modality_parse s = (if s = ''Text'' then Some ModalityText else if s = ''Voice'' then Some Voice else None)"

interpretation modality: wire_enum Modality_as_str Modality_parse
proof
  show "Modality_parse (Modality_as_str x) = Some x" for x by (cases x) (simp_all add: Modality_parse_def)
  show "Modality_parse s = Some x \<Longrightarrow> Modality_as_str x = s" for s x by (auto simp: Modality_parse_def split: if_splits)
qed

section \<open>Rows\<close>

record ConversationRow =
  cr_conversation_id :: string
  cr_kind :: ConversationKind
  cr_last_seq :: int
  cr_phase :: Phase
  cr_controller_id :: "string option"
  cr_trust_class :: string
  cr_snapshot_blob :: "string option"
  cr_snapshot_seq :: "int option"
  cr_lease_owner :: "string option"
  cr_lease_expires :: "int option"
  cr_modality :: Modality
  cr_display_name :: "string option"
  cr_display_name_source :: string
  cr_is_pinned :: bool
  cr_is_ephemeral :: bool
  cr_ephemeral_expires_at :: "int option"
  cr_last_activity_at :: int
  cr_context_window_policy :: "string option"

text \<open>The stored row: the enumerations and flags as the columns hold them.\<close>

record thread_row =
  th_conversation_id :: string
  th_kind :: string
  th_last_seq :: int
  th_phase :: string
  th_controller_id :: "string option"
  th_trust_class :: string
  th_snapshot_blob :: "string option"
  th_snapshot_seq :: "int option"
  th_lease_owner :: "string option"
  th_lease_expires :: "int option"
  th_modality :: string
  th_display_name :: "string option"
  th_display_name_source :: string
  th_is_pinned :: int
  th_is_ephemeral :: int
  th_ephemeral_expires_at :: "int option"
  th_last_activity_at :: int
  th_context_window_policy :: "string option"

definition stored_row :: "ConversationRow \<Rightarrow> thread_row" where
  "stored_row r = \<lparr>th_conversation_id = cr_conversation_id r, th_kind = ConversationKind_as_str (cr_kind r), th_last_seq = cr_last_seq r,
     th_phase = Phase_as_str (cr_phase r), th_controller_id = cr_controller_id r, th_trust_class = cr_trust_class r,
     th_snapshot_blob = cr_snapshot_blob r, th_snapshot_seq = cr_snapshot_seq r, th_lease_owner = cr_lease_owner r,
     th_lease_expires = cr_lease_expires r, th_modality = Modality_as_str (cr_modality r), th_display_name = cr_display_name r,
     th_display_name_source = cr_display_name_source r, th_is_pinned = of_bool (cr_is_pinned r), th_is_ephemeral = of_bool (cr_is_ephemeral r),
     th_ephemeral_expires_at = cr_ephemeral_expires_at r, th_last_activity_at = cr_last_activity_at r,
     th_context_window_policy = cr_context_window_policy r\<rparr>"

definition or_default :: "'a \<Rightarrow> 'a option \<Rightarrow> 'a" where
  "or_default d x = (case x of Some y \<Rightarrow> y | None \<Rightarrow> d)"

definition row_to_conversation :: "thread_row \<Rightarrow> ConversationRow" where
  "row_to_conversation r = \<lparr>cr_conversation_id = th_conversation_id r, cr_kind = or_default ControllerDM (ConversationKind_parse (th_kind r)),
     cr_last_seq = th_last_seq r, cr_phase = or_default Idle (Phase_parse (th_phase r)), cr_controller_id = th_controller_id r,
     cr_trust_class = th_trust_class r, cr_snapshot_blob = th_snapshot_blob r, cr_snapshot_seq = th_snapshot_seq r,
     cr_lease_owner = th_lease_owner r, cr_lease_expires = th_lease_expires r, cr_modality = or_default ModalityText (Modality_parse (th_modality r)),
     cr_display_name = th_display_name r, cr_display_name_source = th_display_name_source r, cr_is_pinned = (th_is_pinned r \<noteq> 0),
     cr_is_ephemeral = (th_is_ephemeral r \<noteq> 0), cr_ephemeral_expires_at = th_ephemeral_expires_at r,
     cr_last_activity_at = th_last_activity_at r, cr_context_window_policy = th_context_window_policy r\<rparr>"

record ThreadSummary =
  ts_conversation_id :: string
  ts_kind :: ConversationKind
  ts_phase :: Phase
  ts_trust_class :: string
  ts_modality :: Modality
  ts_display_name :: "string option"
  ts_display_name_source :: string
  ts_is_pinned :: bool
  ts_is_ephemeral :: bool
  ts_ephemeral_expires_at :: "int option"
  ts_last_seq :: int
  ts_last_activity_at :: int

section \<open>The store\<close>

definition find_thread :: "string \<Rightarrow> thread_row list \<Rightarrow> thread_row option" where
  "find_thread c rows = find (\<lambda>r. th_conversation_id r = c) rows"

text \<open>The conflict clause of the upsert: the columns of the turn machinery are overwritten, the thread metadata stays.\<close>

definition overwrite_turn_columns :: "thread_row \<Rightarrow> thread_row \<Rightarrow> thread_row" where
  "overwrite_turn_columns new old = old\<lparr>th_kind := th_kind new, th_last_seq := th_last_seq new, th_phase := th_phase new,
     th_controller_id := th_controller_id new, th_trust_class := th_trust_class new, th_snapshot_blob := th_snapshot_blob new,
     th_snapshot_seq := th_snapshot_seq new, th_lease_owner := th_lease_owner new, th_lease_expires := th_lease_expires new,
     th_modality := th_modality new\<rparr>"

definition upsert_conversation :: "ConversationRow \<Rightarrow> thread_row list \<Rightarrow> thread_row list" where
  "upsert_conversation row rows =
    (if find_thread (cr_conversation_id row) rows = None then rows @ [stored_row row]
     else update_where (\<lambda>r. th_conversation_id r = cr_conversation_id row) (overwrite_turn_columns (stored_row row)) rows)"

definition set_display_name :: "string \<Rightarrow> string option \<Rightarrow> thread_row list \<Rightarrow> thread_row list" where
  "set_display_name c name rows = update_where (\<lambda>r. th_conversation_id r = c)
     (\<lambda>r. r\<lparr>th_display_name := name, th_display_name_source := (if name \<noteq> None then ''manual'' else ''auto'')\<rparr>) rows"

definition auto_nameable :: "string \<Rightarrow> string \<Rightarrow> thread_row \<Rightarrow> bool" where
  "auto_nameable c name r \<longleftrightarrow> th_conversation_id r = c \<and> th_display_name_source r = ''auto'' \<and>
     (th_display_name r = None \<or> th_display_name r \<noteq> Some name)"

definition apply_auto_display_name :: "string \<Rightarrow> string \<Rightarrow> thread_row list \<Rightarrow> bool \<times> thread_row list" where
  "apply_auto_display_name c name rows =
    (let trimmed = rust_trim name in
     if trimmed = [] then (False, rows)
     else (0 < count_where (auto_nameable c trimmed) rows,
           update_where (auto_nameable c trimmed) (\<lambda>r. r\<lparr>th_display_name := Some trimmed, th_display_name_source := ''auto''\<rparr>) rows))"

definition set_last_activity_at :: "string \<Rightarrow> int \<Rightarrow> thread_row list \<Rightarrow> thread_row list" where
  "set_last_activity_at c ts rows = update_where (\<lambda>r. th_conversation_id r = c) (\<lambda>r. r\<lparr>th_last_activity_at := ts\<rparr>) rows"

definition set_context_window_policy :: "string \<Rightarrow> string option \<Rightarrow> thread_row list \<Rightarrow> thread_row list" where
  "set_context_window_policy c policy rows = update_where (\<lambda>r. th_conversation_id r = c) (\<lambda>r. r\<lparr>th_context_window_policy := policy\<rparr>) rows"

definition set_pinned :: "string \<Rightarrow> bool \<Rightarrow> thread_row list \<Rightarrow> thread_row list" where
  "set_pinned c pinned rows = update_where (\<lambda>r. th_conversation_id r = c) (\<lambda>r. r\<lparr>th_is_pinned := of_bool pinned\<rparr>) rows"

definition mark_ephemeral :: "string \<Rightarrow> int option \<Rightarrow> thread_row list \<Rightarrow> thread_row list" where
  "mark_ephemeral c expires_at rows = update_where (\<lambda>r. th_conversation_id r = c)
     (\<lambda>r. r\<lparr>th_is_ephemeral := of_bool (expires_at \<noteq> None), th_ephemeral_expires_at := expires_at\<rparr>) rows"

definition thread_summary :: "thread_row \<Rightarrow> ThreadSummary" where
  "thread_summary r = \<lparr>ts_conversation_id = th_conversation_id r, ts_kind = or_default ControllerDM (ConversationKind_parse (th_kind r)),
     ts_phase = or_default Idle (Phase_parse (th_phase r)), ts_trust_class = th_trust_class r,
     ts_modality = or_default ModalityText (Modality_parse (th_modality r)), ts_display_name = th_display_name r,
     ts_display_name_source = th_display_name_source r, ts_is_pinned = (th_is_pinned r \<noteq> 0), ts_is_ephemeral = (th_is_ephemeral r \<noteq> 0),
     ts_ephemeral_expires_at = th_ephemeral_expires_at r, ts_last_seq = th_last_seq r, ts_last_activity_at = th_last_activity_at r\<rparr>"

text \<open>\<open>ORDER BY is_pinned DESC, last_activity_at DESC, conversation_id ASC\<close>: sorts from the last key to the first, each stable.\<close>

definition list_thread_summaries :: "thread_row list \<Rightarrow> ThreadSummary list" where
  "list_thread_summaries rows = map thread_summary
     (sort_key (\<lambda>r. - th_is_pinned r) (sort_key (\<lambda>r. - th_last_activity_at r) (sort_key th_conversation_id rows)))"

definition list_expired_threads :: "int \<Rightarrow> thread_row list \<Rightarrow> string list" where
  "list_expired_threads now rows = map th_conversation_id (filter (\<lambda>r. th_is_ephemeral r = 1 \<and>
     (case th_ephemeral_expires_at r of None \<Rightarrow> False | Some t \<Rightarrow> t \<le> now)) rows)"

definition get_conversation :: "string \<Rightarrow> thread_row list \<Rightarrow> ConversationRow option" where
  "get_conversation c rows = map_option row_to_conversation (find_thread c rows)"

section \<open>Sessions\<close>

datatype SessionState = SessionIdle | SessionActive | SessionAwaitingApproval | SessionCompleting | SessionClosed

datatype SessionEvent = TurnStarted | ApprovalRequired | ApprovalResolved | TurnCompleted | ConversationClosed

record SessionError =
  se_state :: SessionState
  se_event :: SessionEvent

record Session =
  ss_conversation_id :: string
  ss_modality :: Modality
  ss_state :: SessionState

definition Session_new :: "string \<Rightarrow> Modality \<Rightarrow> Session" where
  "Session_new c m = \<lparr>ss_conversation_id = c, ss_modality = m, ss_state = SessionIdle\<rparr>"

fun next_state :: "SessionState \<Rightarrow> SessionEvent \<Rightarrow> SessionState option" where
  "next_state SessionIdle TurnStarted = Some SessionActive"
| "next_state SessionIdle ConversationClosed = Some SessionClosed"
| "next_state SessionActive ApprovalRequired = Some SessionAwaitingApproval"
| "next_state SessionActive TurnCompleted = Some SessionIdle"
| "next_state SessionActive ConversationClosed = Some SessionClosed"
| "next_state SessionAwaitingApproval ApprovalResolved = Some SessionActive"
| "next_state SessionAwaitingApproval ConversationClosed = Some SessionClosed"
| "next_state SessionCompleting ConversationClosed = Some SessionClosed"
| "next_state _ _ = None"

definition Session_transition :: "SessionEvent \<Rightarrow> Session \<Rightarrow> (SessionError + unit) \<times> Session" where
  "Session_transition event s = (case next_state (ss_state s) event of
      Some st \<Rightarrow> (Inr (), s\<lparr>ss_state := st\<rparr>)
    | None \<Rightarrow> (Inl \<lparr>se_state = ss_state s, se_event = event\<rparr>, s))"

end
