(* ===== verification/Conversation_Properties.thy ===== *)
theory Conversation_Properties
  imports Conversations
begin

text \<open>
  What conversation rows promise: the kind follows from the participants, the turn machinery keeps the thread metadata, a name the operator
  chose stays, and a closed session stays closed.
\<close>

section \<open>Kinds\<close>

definition trusted_tag :: "string \<Rightarrow> bool" where
  "trusted_tag c \<longleftrightarrow> c \<in> set [''Controller'', ''Delegated'', ''KnownTrusted'']"

definition untrusted_tag :: "string \<Rightarrow> bool" where
  "untrusted_tag c \<longleftrightarrow> c \<in> set [''KnownLimited'', ''UnknownPending'']"

lemma count_tags_pos: "0 < count_tags tags cs \<longleftrightarrow> (\<exists>c \<in> set cs. c \<in> set tags)"
  by (induction cs) (auto simp: count_tags_def)

text \<open>
  The kind of a conversation follows from its participants: the controller alone or nobody, a mix of trusted and untrusted
  participants, untrusted ones without trusted ones, and otherwise a group with or without the controller.
\<close>

theorem conversation_kind_exact:
  "(derive cs = ControllerDM \<longleftrightarrow> cs = [] \<or> cs = [''Controller'']) \<and>
   (derive cs = MixedTrust \<longleftrightarrow> (\<exists>c \<in> set cs. trusted_tag c) \<and> (\<exists>c \<in> set cs. untrusted_tag c)) \<and>
   (derive cs = ExternalWithOutsider \<longleftrightarrow> (\<exists>c \<in> set cs. untrusted_tag c) \<and> \<not> (\<exists>c \<in> set cs. trusted_tag c)) \<and>
   (derive cs = GroupWithControllerPresent \<longleftrightarrow> ''Controller'' \<in> set cs \<and> 1 < length cs \<and> \<not> (\<exists>c \<in> set cs. untrusted_tag c)) \<and>
   (derive cs = GroupWithControllerAbsent \<longleftrightarrow> cs \<noteq> [] \<and> ''Controller'' \<notin> set cs \<and> \<not> (\<exists>c \<in> set cs. untrusted_tag c))"
proof -
  have t: "0 < count_tags [''Controller'', ''Delegated'', ''KnownTrusted''] cs \<longleftrightarrow> (\<exists>c \<in> set cs. trusted_tag c)"
    by (simp only: count_tags_pos trusted_tag_def)
  have u: "0 < count_tags [''KnownLimited'', ''UnknownPending''] cs \<longleftrightarrow> (\<exists>c \<in> set cs. untrusted_tag c)"
    by (simp only: count_tags_pos untrusted_tag_def)
  have controller: "trusted_tag ''Controller''" by (simp add: trusted_tag_def)
  have alone: "length cs = 1 \<Longrightarrow> c \<in> set cs \<Longrightarrow> cs = [c]" for c by (cases cs) auto
  have not_untrusted: "\<not> untrusted_tag ''Controller''" by (simp add: untrusted_tag_def)
  have derive: "derive cs = (if cs = [] then ControllerDM
     else if (\<exists>c \<in> set cs. trusted_tag c) \<and> (\<exists>c \<in> set cs. untrusted_tag c) then MixedTrust
     else if \<not> (\<exists>c \<in> set cs. trusted_tag c) \<and> (\<exists>c \<in> set cs. untrusted_tag c) then ExternalWithOutsider
     else if ''Controller'' \<in> set cs then (if length cs = 1 then ControllerDM else GroupWithControllerPresent) else GroupWithControllerAbsent)"
    unfolding derive_def Let_def t [symmetric] u [symmetric] by simp
  show ?thesis
  proof (cases "cs = []")
    case True
    then show ?thesis by (simp add: derive_def)
  next
    case False
    then have "length cs \<noteq> 1 \<longleftrightarrow> 1 < length cs" by (cases cs) auto
    moreover have "cs = [''Controller''] \<longleftrightarrow> ''Controller'' \<in> set cs \<and> length cs = 1" using alone by auto
    moreover have "''Controller'' \<in> set cs \<Longrightarrow> \<exists>c \<in> set cs. trusted_tag c" using controller by blast
    moreover have "cs = [''Controller''] \<Longrightarrow> \<not> (\<exists>c \<in> set cs. untrusted_tag c)" using not_untrusted by simp
    ultimately show ?thesis using False unfolding derive by (simp split: if_split) blast
  qed
qed

text \<open>A participant with no tag of the table counts as trusted when it is alone.\<close>

lemma blocked_counts_as_group: "derive [''Blocked''] = GroupWithControllerAbsent"
  by (simp add: derive_def count_tags_def)

section \<open>Rows\<close>

lemma find_thread_update:
  assumes "\<And>r. th_conversation_id (f r) = th_conversation_id r"
  shows "find_thread c (update_where p f rows) = map_option (\<lambda>r. if p r then f r else r) (find_thread c rows)"
  unfolding find_thread_def by (induction rows) (auto simp: assms)

lemma find_thread_id: "find_thread c rows = Some r \<Longrightarrow> th_conversation_id r = c"
  unfolding find_thread_def using find_SomeD by fast

lemma stored_row_read: "row_to_conversation (stored_row r) = r"
  by (simp add: row_to_conversation_def stored_row_def or_default_def conversation_kind.parse_as_str phase.parse_as_str modality.parse_as_str)

lemma stored_id [simp]: "th_conversation_id (stored_row r) = cr_conversation_id r"
  by (simp add: stored_row_def)

text \<open>
  C36: A row that was written is read back, enumerations and flags included. An upsert of an existing conversation replaces what the
  turn machinery owns and keeps the name and its source, the pin, the incognito mark with its expiry, the activity time and the context
  window policy; it changes no other conversation.
\<close>

theorem conversation_upsert_roundtrip:
  "get_conversation c (upsert_conversation row rows) =
    (if c \<noteq> cr_conversation_id row then get_conversation c rows
     else case get_conversation c rows of
        None \<Rightarrow> Some row
      | Some old \<Rightarrow> Some (row\<lparr>cr_display_name := cr_display_name old, cr_display_name_source := cr_display_name_source old,
          cr_is_pinned := cr_is_pinned old, cr_is_ephemeral := cr_is_ephemeral old, cr_ephemeral_expires_at := cr_ephemeral_expires_at old,
          cr_last_activity_at := cr_last_activity_at old, cr_context_window_policy := cr_context_window_policy old\<rparr>))"
proof (cases "find_thread (cr_conversation_id row) rows")
  case None
  have "find_thread c (rows @ [stored_row row]) =
      (case find_thread c rows of Some r \<Rightarrow> Some r | None \<Rightarrow> if cr_conversation_id row = c then Some (stored_row row) else None)"
    using stored_id [of row] by (auto simp: find_thread_def find_append split: option.split)
  with None show ?thesis by (auto simp: get_conversation_def upsert_conversation_def stored_row_read split: option.splits)
next
  case (Some old)
  have "th_conversation_id (overwrite_turn_columns n r) = th_conversation_id r" for n r by (simp add: overwrite_turn_columns_def)
  note upd = find_thread_update [of "overwrite_turn_columns (stored_row row)", OF this]
  have over: "row_to_conversation (overwrite_turn_columns (stored_row row) old) = row
    \<lparr>cr_conversation_id := th_conversation_id old, cr_display_name := th_display_name old, cr_display_name_source := th_display_name_source old,
     cr_is_pinned := (th_is_pinned old \<noteq> 0), cr_is_ephemeral := (th_is_ephemeral old \<noteq> 0), cr_ephemeral_expires_at := th_ephemeral_expires_at old,
     cr_last_activity_at := th_last_activity_at old, cr_context_window_policy := th_context_window_policy old\<rparr>"
    by (simp add: row_to_conversation_def overwrite_turn_columns_def stored_row_def or_default_def conversation_kind.parse_as_str
        phase.parse_as_str modality.parse_as_str)
  have metadata: "cr_display_name (row_to_conversation r) = th_display_name r" "cr_display_name_source (row_to_conversation r) = th_display_name_source r"
    "cr_is_pinned (row_to_conversation r) = (th_is_pinned r \<noteq> 0)" "cr_is_ephemeral (row_to_conversation r) = (th_is_ephemeral r \<noteq> 0)"
    "cr_ephemeral_expires_at (row_to_conversation r) = th_ephemeral_expires_at r" "cr_last_activity_at (row_to_conversation r) = th_last_activity_at r"
    "cr_context_window_policy (row_to_conversation r) = th_context_window_policy r" for r
    by (simp_all add: row_to_conversation_def)
  show ?thesis
  proof (cases "c = cr_conversation_id row")
    case True
    then show ?thesis
      using Some find_thread_id [OF Some] by (simp add: get_conversation_def upsert_conversation_def upd over metadata)
  next
    case False
    then show ?thesis
      using Some find_thread_id [of c rows] by (cases "find_thread c rows") (auto simp: get_conversation_def upsert_conversation_def upd)
  qed
qed

section \<open>Names\<close>

datatype thread_action = Upsert ConversationRow | SetDisplayName string "string option" | ApplyAutoName string string | SetLastActivity string int
  | SetPolicy string "string option" | SetPinned string bool | MarkEphemeral string "int option"

fun thread_step :: "thread_row list \<Rightarrow> thread_action \<Rightarrow> thread_row list" where
  "thread_step rows (Upsert row) = upsert_conversation row rows"
| "thread_step rows (SetDisplayName c name) = set_display_name c name rows"
| "thread_step rows (ApplyAutoName c name) = snd (apply_auto_display_name c name rows)"
| "thread_step rows (SetLastActivity c ts) = set_last_activity_at c ts rows"
| "thread_step rows (SetPolicy c policy) = set_context_window_policy c policy rows"
| "thread_step rows (SetPinned c pinned) = set_pinned c pinned rows"
| "thread_step rows (MarkEphemeral c expires_at) = mark_ephemeral c expires_at rows"

definition manually_named :: "string \<Rightarrow> string option \<Rightarrow> thread_row list \<Rightarrow> bool" where
  "manually_named c name rows \<longleftrightarrow> (\<exists>r. find_thread c rows = Some r \<and> th_display_name r = name \<and> th_display_name_source r = ''manual'')"

lemma thread_step_name:
  assumes "manually_named c name rows" "\<And>n. a \<noteq> SetDisplayName c n"
  shows "manually_named c name (thread_step rows a)"
proof -
  have upd: "manually_named c name (update_where p f rows)"
    if "\<And>r. th_conversation_id (f r) = th_conversation_id r"
      "\<And>r. p r \<Longrightarrow> th_conversation_id r = c \<Longrightarrow> th_display_name_source r = ''manual'' \<Longrightarrow> th_display_name (f r) = th_display_name r \<and> th_display_name_source (f r) = ''manual''"
    for p f
    using assms(1) that find_thread_id unfolding manually_named_def by (fastforce simp: find_thread_update)
  show ?thesis
  proof (cases a)
    case (Upsert row)
    have "manually_named c name (rows @ [x])" for x
      using assms(1) by (auto simp: manually_named_def find_thread_def find_append)
    then show ?thesis unfolding Upsert by (auto simp: upsert_conversation_def overwrite_turn_columns_def intro!: upd)
  next
    case (SetDisplayName c' n)
    with assms(2) have "c' \<noteq> c" by auto
    then show ?thesis unfolding SetDisplayName by (auto simp: set_display_name_def intro!: upd)
  next
    case (ApplyAutoName c' n)
    show ?thesis unfolding ApplyAutoName using assms(1) by (auto simp: apply_auto_display_name_def auto_nameable_def Let_def intro!: upd)
  qed (auto simp: set_last_activity_at_def set_context_window_policy_def set_pinned_def mark_ephemeral_def intro!: upd)
qed

text \<open>
  A name the operator gave a conversation stays until the operator names it again: no history of turns, transport-driven renames,
  pins, incognito marks and namings of other conversations changes the name or its source.
\<close>

theorem manual_name_stays:
  assumes "find_thread c rows = Some r" "\<And>n. SetDisplayName c n \<notin> set actions"
  shows "\<exists>r'. find_thread c (foldl thread_step (thread_step rows (SetDisplayName c (Some name))) actions) = Some r' \<and>
    th_display_name r' = Some name \<and> th_display_name_source r' = ''manual''"
proof -
  have "manually_named c (Some name) (thread_step rows (SetDisplayName c (Some name)))"
    using assms(1) find_thread_id [OF assms(1)] by (auto simp: manually_named_def set_display_name_def find_thread_update)
  then have "manually_named c (Some name) (foldl thread_step (thread_step rows (SetDisplayName c (Some name))) actions)"
    using assms(2)
  proof (induction actions rule: rev_induct)
    case (snoc a actions)
    then show ?case using thread_step_name [of c "Some name" _ a] by auto
  qed simp
  then show ?thesis by (simp add: manually_named_def)
qed

definition sample_thread :: ConversationRow where
  "sample_thread = \<lparr>cr_conversation_id = ''c'', cr_kind = ControllerDM, cr_last_seq = 0, cr_phase = Idle, cr_controller_id = None,
     cr_trust_class = ''Controller'', cr_snapshot_blob = None, cr_snapshot_seq = None, cr_lease_owner = None, cr_lease_expires = None,
     cr_modality = ModalityText, cr_display_name = None, cr_display_name_source = ''auto'', cr_is_pinned = False, cr_is_ephemeral = False,
     cr_ephemeral_expires_at = None, cr_last_activity_at = 0, cr_context_window_policy = None\<rparr>"

theorem manual_name_stays_witness:
  "map_option th_display_name (find_thread ''c'' (foldl thread_step (upsert_conversation sample_thread [])
     [SetDisplayName ''c'' (Some ''mine''), ApplyAutoName ''c'' ''group'', Upsert sample_thread])) = Some (Some ''mine'')"
proof -
  have found: "find_thread ''c'' (upsert_conversation sample_thread []) = Some (stored_row sample_thread)"
    by (simp add: upsert_conversation_def find_thread_def stored_row_def sample_thread_def)
  have "\<exists>r'. find_thread ''c'' (foldl thread_step (thread_step (upsert_conversation sample_thread []) (SetDisplayName ''c'' (Some ''mine'')))
      [ApplyAutoName ''c'' ''group'', Upsert sample_thread]) = Some r' \<and> th_display_name r' = Some ''mine'' \<and> th_display_name_source r' = ''manual''"
    by (rule manual_name_stays [OF found]) simp
  then show ?thesis by auto
qed

text \<open>Without a name, a row whose source is not \<open>auto\<close> is not named by a transport.\<close>

lemma auto_name_needs_auto_source:
  "apply_auto_display_name ''c'' ''group'' [(stored_row sample_thread)\<lparr>th_display_name_source := ''manual''\<rparr>] =
     (False, [(stored_row sample_thread)\<lparr>th_display_name_source := ''manual''\<rparr>])"
  by code_simp

section \<open>Sessions\<close>

definition session_run :: "Session \<Rightarrow> SessionEvent list \<Rightarrow> Session" where
  "session_run = foldl (\<lambda>s e. snd (Session_transition e s))"

lemma Session_transition_state: "ss_state (snd (Session_transition e s)) = or_default (ss_state s) (next_state (ss_state s) e)"
  by (simp add: Session_transition_def or_default_def split: option.split)

lemma closed_session_stays: "ss_state s = SessionClosed \<Longrightarrow> session_run s es = s"
  unfolding session_run_def by (induction es arbitrary: s) (auto simp: Session_transition_def)

text \<open>No history of a session reaches the draining state.\<close>

lemma session_never_completing: "ss_state s \<noteq> SessionCompleting \<Longrightarrow> ss_state (session_run s es) \<noteq> SessionCompleting"
proof (induction es arbitrary: s)
  case (Cons e es)
  have "next_state (ss_state s) e \<noteq> Some SessionCompleting" by (cases "ss_state s"; cases e) simp_all
  then have "ss_state (snd (Session_transition e s)) \<noteq> SessionCompleting" using Cons.prems by (auto simp: Session_transition_state or_default_def split: option.split)
  with Cons.IH show ?case by (simp add: session_run_def)
qed (simp add: session_run_def)

end
