(* ===== verification/Principal_Groups.thy ===== *)
theory Principal_Groups
  imports Db
begin

text \<open>
  Principal groups (\<open>crates/core/src/principal_groups.rs\<close>): the resolution of a channel and its participants to a stable group, the
  reconciliation of members with its membership epoch, and the audience of a conversation.

  SHA-256 in hexadecimal (\<open>sha\<close>) and the fresh group identifier are parameters. The state holds the group tables and the group column of
  the conversations.
\<close>

section \<open>State\<close>

record group_row =
  gr_group_id :: string
  gr_channel :: string
  gr_native_group_id :: "string option"
  gr_principal_set_hash :: string
  gr_includes_controller :: int
  gr_created_at :: int
  gr_last_active_at :: int
  gr_membership_epoch :: int

record group_db =
  principal_groups :: "group_row list"
  group_members :: "(string \<times> string) list"
  conversation_groups :: "(string \<times> string option) list"

record PrincipalGroup =
  pg_group_id :: string
  pg_channel :: string
  pg_native_group_id :: "string option"
  pg_principal_set_hash :: string
  pg_includes_controller :: bool
  pg_created_at :: int
  pg_last_active_at :: int

record GroupKey =
  gk_channel :: string
  gk_native_group_id :: "string option"
  gk_principals :: "string list"
  gk_includes_controller :: bool

section \<open>Resolution\<close>

text \<open>\<open>sort_unstable\<close> followed by \<open>dedup\<close>, and the digest of the names joined by line feeds.\<close>

definition sorted_ids :: "string list \<Rightarrow> string list" where
  "sorted_ids ids = remdups_adj (sort ids)"

definition principal_set_hash :: "(string \<Rightarrow> string) \<Rightarrow> string list \<Rightarrow> string" where
  "principal_set_hash sha ids =
    sha (concat (case sorted_ids ids of [] \<Rightarrow> [] | i # rest \<Rightarrow> i # map ((#) (CHR 0x0A)) rest))"

definition find_group :: "string \<Rightarrow> group_db \<Rightarrow> group_row option" where
  "find_group gid s = find (\<lambda>g. gr_group_id g = gid) (principal_groups s)"

definition group_record :: "group_row \<Rightarrow> PrincipalGroup" where
  "group_record g = \<lparr>pg_group_id = gr_group_id g, pg_channel = gr_channel g, pg_native_group_id = gr_native_group_id g,
     pg_principal_set_hash = gr_principal_set_hash g, pg_includes_controller = (gr_includes_controller g \<noteq> 0),
     pg_created_at = gr_created_at g, pg_last_active_at = gr_last_active_at g\<rparr>"

definition get_group :: "string \<Rightarrow> group_db \<Rightarrow> PrincipalGroup option" where
  "get_group gid s = map_option group_record (find_group gid s)"

text \<open>\<open>SELECT principal_id \<dots> WHERE group_id = ? ORDER BY principal_id ASC\<close>.\<close>

definition members_of :: "string \<Rightarrow> group_db \<Rightarrow> string list" where
  "members_of gid s = sort (map snd (filter (\<lambda>m. fst m = gid) (group_members s)))"

definition lookup_group :: "string \<Rightarrow> GroupKey \<Rightarrow> group_db \<Rightarrow> group_row option" where
  "lookup_group hash k s = (case gk_native_group_id k of
      Some native \<Rightarrow> find (\<lambda>g. gr_channel g = gk_channel k \<and> gr_native_group_id g = Some native) (principal_groups s)
    | None \<Rightarrow> find (\<lambda>g. gr_channel g = gk_channel k \<and> gr_principal_set_hash g = hash \<and> gr_native_group_id g = None) (principal_groups s))"

definition fresh_group :: "string \<Rightarrow> string \<Rightarrow> GroupKey \<Rightarrow> int \<Rightarrow> group_row" where
  "fresh_group gid hash k now = \<lparr>gr_group_id = gid, gr_channel = gk_channel k, gr_native_group_id = gk_native_group_id k,
     gr_principal_set_hash = hash, gr_includes_controller = of_bool (gk_includes_controller k), gr_created_at = now,
     gr_last_active_at = now, gr_membership_epoch = 0\<rparr>"

definition reconcile_members :: "string \<Rightarrow> string list \<Rightarrow> bool \<Rightarrow> int \<Rightarrow> group_db \<Rightarrow> group_db" where
  "reconcile_members gid principals includes_controller now s =
    (let seen = sorted_ids principals;
         membership_changed = (members_of gid s \<noteq> seen);
         members = (if membership_changed then filter (\<lambda>m. fst m \<noteq> gid) (group_members s) @ map (Pair gid) seen else group_members s) in
     s\<lparr>group_members := members,
       principal_groups := update_where (\<lambda>g. gr_group_id g = gid)
         (\<lambda>g. g\<lparr>gr_includes_controller := max (gr_includes_controller g) (of_bool includes_controller), gr_last_active_at := now,
              gr_membership_epoch := gr_membership_epoch g + of_bool membership_changed\<rparr>) (principal_groups s)\<rparr>)"

definition insert_group :: "group_row \<Rightarrow> group_db \<Rightarrow> DbError + group_db" where
  "insert_group g s = (if find_group (gr_group_id g) s \<noteq> None then Inl (Sqlite (ConstraintViolation ''state_principal_groups.group_id''))
     else Inr (s\<lparr>principal_groups := principal_groups s @ [g]\<rparr>))"

definition resolve_group :: "(string \<Rightarrow> string) \<Rightarrow> string \<Rightarrow> GroupKey \<Rightarrow> int \<Rightarrow> group_db \<Rightarrow> (DbError + PrincipalGroup) \<times> group_db" where
  "resolve_group sha fresh k now s =
    (let hash = principal_set_hash sha (gk_principals k);
         reconciled = (\<lambda>gid s1. let s2 = reconcile_members gid (gk_principals k) (gk_includes_controller k) now s1 in
            (case get_group gid s2 of Some g \<Rightarrow> Inr g | None \<Rightarrow> Inl (Sqlite QueryReturnedNoRows), s2)) in
     case lookup_group hash k s of
       Some g \<Rightarrow> reconciled (gr_group_id g) s
     | None \<Rightarrow>
        (case insert_group (fresh_group fresh hash k now) s of
           Inl e \<Rightarrow> (Inl e, s)
         | Inr s1 \<Rightarrow> reconciled fresh s1))"

section \<open>Other operations\<close>

definition add_member :: "string \<Rightarrow> string \<Rightarrow> int \<Rightarrow> group_db \<Rightarrow> group_db" where
  "add_member gid who now s =
    (let inserted = ((gid, who) \<notin> set (group_members s)) in
     s\<lparr>group_members := (if inserted then group_members s @ [(gid, who)] else group_members s),
       principal_groups := update_where (\<lambda>g. gr_group_id g = gid)
         (\<lambda>g. g\<lparr>gr_last_active_at := now, gr_membership_epoch := gr_membership_epoch g + of_bool inserted\<rparr>) (principal_groups s)\<rparr>)"

definition is_controller_solo :: "string \<Rightarrow> group_db \<Rightarrow> bool" where
  "is_controller_solo gid s = (case find_group gid s of
      Some g \<Rightarrow> gr_includes_controller g \<noteq> 0 \<and> count_where (\<lambda>m. fst m = gid) (group_members s) = 1
    | None \<Rightarrow> False)"

definition conversation_group :: "string \<Rightarrow> group_db \<Rightarrow> string option" where
  "conversation_group c s = (case map_of (conversation_groups s) c of Some g \<Rightarrow> g | None \<Rightarrow> None)"

definition audience_state :: "(string \<Rightarrow> string) \<Rightarrow> string \<Rightarrow> group_db \<Rightarrow> (string \<times> string option \<times> int \<times> string \<times> string list) option" where
  "audience_state sha c s =
    (case conversation_group c s of
       None \<Rightarrow> None
     | Some gid \<Rightarrow>
        (case find_group gid s of
           None \<Rightarrow> None
         | Some g \<Rightarrow>
            (let members = members_of gid s in
             Some (gid, gr_native_group_id g, gr_membership_epoch g, sha (concat (map nul_field members)), members))))"

definition list_groups :: "group_db \<Rightarrow> PrincipalGroup list" where
  "list_groups s = map group_record (sort_key (\<lambda>g. - gr_last_active_at g) (principal_groups s))"

definition delete_group :: "string \<Rightarrow> group_db \<Rightarrow> bool \<times> group_db" where
  "delete_group gid s = (list_ex (\<lambda>g. gr_group_id g = gid) (principal_groups s),
     s\<lparr>group_members := filter (\<lambda>m. fst m \<noteq> gid) (group_members s), principal_groups := filter (\<lambda>g. gr_group_id g \<noteq> gid) (principal_groups s)\<rparr>)"

definition touch_active :: "string \<Rightarrow> int \<Rightarrow> group_db \<Rightarrow> group_db" where
  "touch_active gid now s = s\<lparr>principal_groups := update_where (\<lambda>g. gr_group_id g = gid) (\<lambda>g. g\<lparr>gr_last_active_at := now\<rparr>) (principal_groups s)\<rparr>"

definition bind_conversation :: "string \<Rightarrow> string \<Rightarrow> group_db \<Rightarrow> group_db" where
  "bind_conversation c gid s = s\<lparr>conversation_groups := map (\<lambda>(d, g). if d = c then (d, Some gid) else (d, g)) (conversation_groups s)\<rparr>"

definition principal_group_id_for :: "string \<Rightarrow> group_db \<Rightarrow> string option" where
  "principal_group_id_for c s = conversation_group c s"

section \<open>Histories\<close>

datatype group_action = Resolve string GroupKey int | AddMember string string int | DeleteGroup string | TouchActive string int
  | BindConversation string string

fun group_step :: "(string \<Rightarrow> string) \<Rightarrow> group_db \<Rightarrow> group_action \<Rightarrow> group_db" where
  "group_step sha s (Resolve fresh k now) = snd (resolve_group sha fresh k now s)"
| "group_step sha s (AddMember gid who now) = add_member gid who now s"
| "group_step sha s (DeleteGroup gid) = snd (delete_group gid s)"
| "group_step sha s (TouchActive gid now) = touch_active gid now s"
| "group_step sha s (BindConversation c gid) = bind_conversation c gid s"

text \<open>
  The epoch of a group counts the changes of its members: it never decreases, and an equal epoch means equal members.
\<close>

definition epoch_tracks :: "string \<Rightarrow> group_db \<Rightarrow> group_db \<Rightarrow> bool" where
  "epoch_tracks gid s s' \<longleftrightarrow> (\<forall>g. find_group gid s = Some g \<longrightarrow>
     (\<exists>g'. find_group gid s' = Some g' \<and> gr_native_group_id g' = gr_native_group_id g \<and> gr_channel g' = gr_channel g \<and>
        gr_membership_epoch g \<le> gr_membership_epoch g' \<and>
        (gr_membership_epoch g' = gr_membership_epoch g \<longrightarrow> members_of gid s' = members_of gid s)))"

lemma epoch_tracks_refl: "epoch_tracks gid s s"
  by (simp add: epoch_tracks_def)

lemma epoch_tracks_trans:
  assumes "epoch_tracks gid s s'" "epoch_tracks gid s' s''"
  shows "epoch_tracks gid s s''"
  unfolding epoch_tracks_def
proof (intro allI impI)
  fix g assume "find_group gid s = Some g"
  then obtain g' where g': "find_group gid s' = Some g'" "gr_native_group_id g' = gr_native_group_id g" "gr_channel g' = gr_channel g"
    "gr_membership_epoch g \<le> gr_membership_epoch g'" "gr_membership_epoch g' = gr_membership_epoch g \<longrightarrow> members_of gid s' = members_of gid s"
    using assms(1) unfolding epoch_tracks_def by blast
  then obtain g'' where g'': "find_group gid s'' = Some g''" "gr_native_group_id g'' = gr_native_group_id g'" "gr_channel g'' = gr_channel g'"
    "gr_membership_epoch g' \<le> gr_membership_epoch g''" "gr_membership_epoch g'' = gr_membership_epoch g' \<longrightarrow> members_of gid s'' = members_of gid s'"
    using assms(2) unfolding epoch_tracks_def by blast
  show "\<exists>g'. find_group gid s'' = Some g' \<and> gr_native_group_id g' = gr_native_group_id g \<and> gr_channel g' = gr_channel g \<and>
      gr_membership_epoch g \<le> gr_membership_epoch g' \<and> (gr_membership_epoch g' = gr_membership_epoch g \<longrightarrow> members_of gid s'' = members_of gid s)"
    using g' g'' by (intro exI [of _ g'']) auto
qed

lemma find_group_update:
  assumes "\<And>g. gr_group_id (f g) = gr_group_id g"
  shows "find (\<lambda>g. gr_group_id g = gid) (update_where p f rows) = map_option (\<lambda>g. if p g then f g else g) (find (\<lambda>g. gr_group_id g = gid) rows)"
  by (induction rows) (auto simp: assms)

lemma find_group_id: "find_group gid s = Some g \<Longrightarrow> gr_group_id g = gid"
  unfolding find_group_def using find_SomeD by fast

lemma filter_other_group [simp]: "g \<noteq> gid \<Longrightarrow> filter (\<lambda>m. fst m \<noteq> g \<and> fst m = gid) ms = filter (\<lambda>m. fst m = gid) ms"
  by (rule filter_cong) auto

lemma find_other_group [simp]: "g \<noteq> gid \<Longrightarrow> find (\<lambda>x. gr_group_id x = gid) (filter (\<lambda>x. gr_group_id x \<noteq> g) xs) = find (\<lambda>x. gr_group_id x = gid) xs"
  by (induction xs) auto

lemma reconcile_tracks: "epoch_tracks gid s (reconcile_members gid' ps b now s)"
proof -
  let ?s = "reconcile_members gid' ps b now s"
  have members: "members_of gid ?s = members_of gid s" if "gid \<noteq> gid' \<or> members_of gid s = sorted_ids ps"
    using that by (auto simp: members_of_def reconcile_members_def Let_def filter_empty_conv intro!: arg_cong [of _ _ sort])
  show ?thesis
    unfolding epoch_tracks_def
  proof (intro allI impI)
    fix g assume g: "find_group gid s = Some g"
    let ?g = "if gid = gid' then g\<lparr>gr_includes_controller := max (gr_includes_controller g) (of_bool b), gr_last_active_at := now,
      gr_membership_epoch := gr_membership_epoch g + of_bool (members_of gid s \<noteq> sorted_ids ps)\<rparr> else g"
    have "find_group gid ?s = Some ?g"
      using g find_group_id [OF g] by (simp add: find_group_def reconcile_members_def Let_def find_group_update)
    then show "\<exists>g'. find_group gid ?s = Some g' \<and> gr_native_group_id g' = gr_native_group_id g \<and> gr_channel g' = gr_channel g \<and>
        gr_membership_epoch g \<le> gr_membership_epoch g' \<and> (gr_membership_epoch g' = gr_membership_epoch g \<longrightarrow> members_of gid ?s = members_of gid s)"
      using members by (intro exI [of _ ?g]) auto
  qed
qed

lemma add_member_tracks: "epoch_tracks gid s (add_member gid' who now s)"
proof -
  let ?s = "add_member gid' who now s"
  have members: "members_of gid ?s = members_of gid s" if "gid \<noteq> gid' \<or> (gid', who) \<in> set (group_members s)"
    using that by (auto simp: members_of_def add_member_def Let_def)
  show ?thesis
    unfolding epoch_tracks_def
  proof (intro allI impI)
    fix g assume g: "find_group gid s = Some g"
    let ?g = "if gid = gid' then g\<lparr>gr_last_active_at := now, gr_membership_epoch := gr_membership_epoch g + of_bool ((gid', who) \<notin> set (group_members s))\<rparr> else g"
    have "find_group gid ?s = Some ?g"
      using g find_group_id [OF g] by (simp add: find_group_def add_member_def Let_def find_group_update)
    then show "\<exists>g'. find_group gid ?s = Some g' \<and> gr_native_group_id g' = gr_native_group_id g \<and> gr_channel g' = gr_channel g \<and>
        gr_membership_epoch g \<le> gr_membership_epoch g' \<and> (gr_membership_epoch g' = gr_membership_epoch g \<longrightarrow> members_of gid ?s = members_of gid s)"
      using members by (intro exI [of _ ?g]) auto
  qed
qed

lemma insert_tracks: "insert_group x s = Inr s' \<Longrightarrow> epoch_tracks gid s s'"
  by (auto simp: insert_group_def epoch_tracks_def find_group_def find_append members_of_def split: if_splits)

lemma group_step_tracks:
  assumes "a \<noteq> DeleteGroup gid"
  shows "epoch_tracks gid s (group_step sha s a)"
proof (cases a)
  case (Resolve fresh k now)
  then show ?thesis
    using reconcile_tracks epoch_tracks_refl epoch_tracks_trans [OF insert_tracks reconcile_tracks]
    by (auto simp: resolve_group_def Let_def split: option.splits sum.splits)
next
  case (AddMember g who now)
  then show ?thesis using add_member_tracks by simp
next
  case (DeleteGroup g)
  with assms have "g \<noteq> gid" by auto
  with DeleteGroup show ?thesis
    by (auto simp: epoch_tracks_def delete_group_def find_group_def members_of_def)
next
  case (TouchActive g now)
  then show ?thesis
    by (auto simp: epoch_tracks_def touch_active_def find_group_def find_group_update members_of_def)
next
  case (BindConversation c g)
  then show ?thesis by (simp add: epoch_tracks_def bind_conversation_def find_group_def members_of_def)
qed

lemma group_history_tracks:
  assumes "DeleteGroup gid \<notin> set actions"
  shows "epoch_tracks gid s (foldl (group_step sha) s actions)"
  using assms
proof (induction actions arbitrary: s)
  case Nil
  then show ?case by (simp add: epoch_tracks_refl)
next
  case (Cons a actions)
  then have "epoch_tracks gid s (group_step sha s a)" by (intro group_step_tracks) auto
  with Cons show ?case using epoch_tracks_trans by simp
qed

section \<open>Stability\<close>

lemma distinct_remdups_adj_sorted: "sorted (xs :: string list) \<Longrightarrow> distinct (remdups_adj xs)"
  by (induction xs rule: remdups_adj.induct) (auto simp: order_less_le)

lemma sorted_ids_set: "sorted_ids ids = sorted_list_of_set (set ids)"
proof -
  have "sorted (sorted_ids ids)" "distinct (sorted_ids ids)" "set (sorted_ids ids) = set ids"
    by (simp_all add: sorted_ids_def sorted_remdups_adj distinct_remdups_adj_sorted)
  then show ?thesis by (metis sorted_list_of_set.idem_if_sorted_distinct)
qed

lemma sort_sorted_ids [simp]: "sort (sorted_ids ids) = sorted_ids ids"
  by (simp add: sorted_ids_def sorted_sort_id)

lemma members_of_reconcile: "members_of gid (reconcile_members gid ps b now s) = sorted_ids ps"
proof (cases "members_of gid s = sorted_ids ps")
  case True
  then show ?thesis by (simp add: members_of_def reconcile_members_def Let_def)
next
  case False
  moreover have "filter (\<lambda>m. fst m = gid) (map (Pair gid) xs) = map (Pair gid) xs" for xs :: "string list" by (induction xs) auto
  moreover have "filter (\<lambda>m. fst m \<noteq> gid \<and> fst m = gid) ms = []" for ms :: "(string \<times> string) list" by (simp add: filter_empty_conv)
  ultimately show ?thesis by (simp add: members_of_def reconcile_members_def Let_def comp_def)
qed

lemma groups_reconcile: "principal_groups (reconcile_members gid ps b now s) = update_where (\<lambda>g. gr_group_id g = gid)
    (\<lambda>g. g\<lparr>gr_includes_controller := max (gr_includes_controller g) (of_bool b), gr_last_active_at := now,
       gr_membership_epoch := gr_membership_epoch g + of_bool (members_of gid s \<noteq> sorted_ids ps)\<rparr>) (principal_groups s)"
  by (simp add: reconcile_members_def Let_def)

lemma find_group_reconcile: "find_group gid (reconcile_members gid ps b now s) =
    map_option (\<lambda>g. g\<lparr>gr_includes_controller := max (gr_includes_controller g) (of_bool b), gr_last_active_at := now,
      gr_membership_epoch := gr_membership_epoch g + of_bool (members_of gid s \<noteq> sorted_ids ps)\<rparr>) (find_group gid s)"
  unfolding find_group_def groups_reconcile
  by (subst find_group_update) (auto simp: map_option_case dest: find_SomeD split: option.split)

lemma find_reconcile:
  assumes "\<And>g g'. gr_channel g' = gr_channel g \<Longrightarrow> gr_native_group_id g' = gr_native_group_id g \<Longrightarrow>
      gr_principal_set_hash g' = gr_principal_set_hash g \<Longrightarrow> gr_group_id g' = gr_group_id g \<Longrightarrow> p g' = p g"
  shows "map_option gr_group_id (find p (principal_groups (reconcile_members gid ps b now s))) = map_option gr_group_id (find p (principal_groups s))"
proof -
  have upd: "map_option gr_group_id (find p (update_where q f rows)) = map_option gr_group_id (find p rows)"
    if "\<And>g. p (f g) = p g" "\<And>g. gr_group_id (f g) = gr_group_id g" for q f rows
    by (induction rows) (auto simp: that)
  show ?thesis
    unfolding groups_reconcile by (rule upd) (rule assms, simp_all)
qed

lemma lookup_reconcile:
  "map_option gr_group_id (lookup_group hash k (reconcile_members gid ps b now s)) = map_option gr_group_id (lookup_group hash k s)"
proof (cases "gk_native_group_id k")
  case None
  show ?thesis unfolding lookup_group_def None option.case by (rule find_reconcile) metis
next
  case (Some native)
  show ?thesis unfolding lookup_group_def Some option.case by (rule find_reconcile) metis
qed

text \<open>
  The group of a channel and its participants is stable. Resolving gives a group of that channel whose members are exactly the given
  participants, and resolving again gives the same group: for a native group identifier with any participants, and without one for
  the same set of participants in any order.
\<close>

theorem group_resolve_stable:
  assumes "distinct (map gr_group_id (principal_groups s))" "resolve_group sha fresh k now s = (Inr g, s')"
    and "gk_channel k' = gk_channel k" "gk_native_group_id k' = gk_native_group_id k"
    and "gk_native_group_id k = None \<Longrightarrow> set (gk_principals k') = set (gk_principals k)"
  shows "members_of (pg_group_id g) s' = sorted_list_of_set (set (gk_principals k)) \<and> pg_channel g = gk_channel k \<and>
    pg_native_group_id g = gk_native_group_id k \<and>
    (\<exists>g'. fst (resolve_group sha fresh' k' now' s') = Inr g' \<and> pg_group_id g' = pg_group_id g \<and> pg_created_at g' = pg_created_at g)"
proof -
  let ?h = "principal_set_hash sha (gk_principals k)"
  define fit where "fit x \<longleftrightarrow> gr_channel x = gk_channel k \<and> gr_native_group_id x = gk_native_group_id k" for x :: group_row
  obtain s1 x where x: "lookup_group ?h k s1 = Some x" "find_group (gr_group_id x) s1 = Some x" "fit x"
    and s': "s' = reconcile_members (gr_group_id x) (gk_principals k) (gk_includes_controller k) now s1"
    and g: "get_group (gr_group_id x) s' = Some g"
  proof (cases "lookup_group ?h k s")
    case (Some x)
    have "x \<in> set (principal_groups s)" "fit x"
      using Some find_SomeD by (fastforce simp: lookup_group_def fit_def split: option.splits)+
    then have "find_group (gr_group_id x) s = Some x"
      unfolding find_group_def using assms(1) find_distinct_key [of gr_group_id "principal_groups s" x] by simp
    with that [of s x] Some \<open>fit x\<close> assms(2) show ?thesis by (auto simp: resolve_group_def Let_def split: option.splits)
  next
    case None
    let ?x = "fresh_group fresh ?h k now"
    obtain s1 where ins: "insert_group ?x s = Inr s1"
      using None assms(2) by (auto simp: resolve_group_def Let_def split: sum.splits)
    then have s1: "s1 = s\<lparr>principal_groups := principal_groups s @ [?x]\<rparr>" "find_group fresh s = None"
      by (auto simp: insert_group_def fresh_group_def split: if_splits)
    have "lookup_group ?h k s1 = Some ?x" "find_group fresh s1 = Some ?x" "gr_group_id ?x = fresh" "fit ?x"
      using None s1 by (auto simp: lookup_group_def find_group_def fresh_group_def fit_def find_append split: option.splits)
    with that [of s1 ?x] None ins assms(2) show ?thesis by (auto simp: resolve_group_def Let_def split: option.splits)
  qed
  let ?h' = "principal_set_hash sha (gk_principals k')"
  have same: "lookup_group ?h' k' t = lookup_group ?h k t" for t
    using assms(3-5) by (auto simp: lookup_group_def principal_set_hash_def sorted_ids_set split: option.split)
  have "map_option gr_group_id (lookup_group ?h' k' s') = Some (gr_group_id x)"
    unfolding same s' lookup_reconcile x(1) by simp
  then obtain y where y: "lookup_group ?h' k' s' = Some y" "gr_group_id y = gr_group_id x" by auto
  have rec: "pg_group_id g = gr_group_id x" "pg_channel g = gr_channel x" "pg_native_group_id g = gr_native_group_id x" "pg_created_at g = gr_created_at x"
    using g x(2) by (auto simp: get_group_def s' find_group_reconcile group_record_def)
  have "\<exists>g'. fst (resolve_group sha fresh' k' now' s') = Inr g' \<and> pg_group_id g' = gr_group_id x \<and> pg_created_at g' = gr_created_at x"
    using y x(2) by (auto simp: resolve_group_def Let_def get_group_def find_group_reconcile s' group_record_def)
  with rec x(3) show ?thesis by (simp add: s' members_of_reconcile sorted_ids_set fit_def)
qed

definition sample_key :: GroupKey where
  "sample_key = \<lparr>gk_channel = ''web'', gk_native_group_id = None, gk_principals = [''bob'', ''ann'', ''bob''], gk_includes_controller = True\<rparr>"

definition no_groups :: group_db where
  "no_groups = \<lparr>principal_groups = [], group_members = [], conversation_groups = []\<rparr>"

theorem group_resolve_stable_witness:
  "\<exists>g s' g'. resolve_group id ''g1'' sample_key 5 no_groups = (Inr g, s') \<and> members_of (pg_group_id g) s' = [''ann'', ''bob''] \<and>
     fst (resolve_group id ''g2'' (sample_key\<lparr>gk_principals := [''ann'', ''bob'']\<rparr>) 6 s') = Inr g' \<and> pg_group_id g' = pg_group_id g"
proof -
  obtain result s' where r: "resolve_group id ''g1'' sample_key 5 no_groups = (result, s')" by force
  have "case fst (resolve_group id ''g1'' sample_key 5 no_groups) of Inr _ \<Rightarrow> True | Inl _ \<Rightarrow> False" by code_simp
  then obtain g where g: "resolve_group id ''g1'' sample_key 5 no_groups = (Inr g, s')" using r by (auto split: sum.splits)
  have "sorted_list_of_set (set (gk_principals sample_key)) = [''ann'', ''bob'']" by code_simp
  then show ?thesis
    using group_resolve_stable [OF _ g, of "sample_key\<lparr>gk_principals := [''ann'', ''bob'']\<rparr>" "''g2''" 6] g
    by (fastforce simp: no_groups_def sample_key_def)
qed

text \<open>
  The controller mark of a group stays when the controller leaves, so a group whose only member is somebody else can count as the
  controller's own.
\<close>

lemma controller_mark_sticks:
  "is_controller_solo ''g1'' (foldl (group_step id) no_groups [
     Resolve ''g1'' (sample_key\<lparr>gk_native_group_id := Some ''n''\<rparr>) 5,
     Resolve ''g2'' \<lparr>gk_channel = ''web'', gk_native_group_id = Some ''n'', gk_principals = [''bob''], gk_includes_controller = False\<rparr> 6])"
  by code_simp

end
