(* ===== verification/Reply_Drafts.thy ===== *)
theory Reply_Drafts
  imports Principal_Groups Json_Value
begin

text \<open>
  Review of proposed replies (\<open>crates/core/src/reply_drafts.rs\<close>): creation, revisions, staleness, approval, rejection, delivery, and
  the check that the audience is still the one the draft was written for.

  The JSON library is a parameter (\<open>draft_json\<close>), and so is SHA-256 in hexadecimal. Rows that the queries return without an order, or
  with equal keys, come in the order of insertion.
\<close>

section \<open>State\<close>

record draft_row =
  dr_id :: string
  dr_agent_id :: string
  dr_conversation_id :: string
  dr_channel :: string
  dr_recipient :: string
  dr_inbound_text :: string
  dr_draft_text :: string
  dr_status :: string
  dr_created_at :: int
  dr_reviewed_at :: "int option"
  dr_sent_at :: "int option"
  dr_run_id :: "string option"
  dr_source_event_id :: "string option"
  dr_source_event_seq :: "int option"
  dr_model_seq :: "int option"
  dr_revision :: int
  dr_audience_json :: string
  dr_source_last_seq :: "int option"
  dr_stale_at :: "int option"
  dr_reviewer_id :: "string option"
  dr_approved_text :: "string option"

record binding_row =
  bd_channel :: string
  bd_foreign_id :: string
  bd_principal_group_id :: string
  bd_is_group :: int

record draft_db =
  drafts :: "draft_row list"
  transport_bindings :: "binding_row list"
  groups :: group_db

record draft_json =
  value_to_string :: "Value \<Rightarrow> string + string"
  value_from_str :: "string \<Rightarrow> Value option"

record ReplyDraft =
  rd_id :: string
  rd_agent_id :: string
  rd_conversation_id :: string
  rd_channel :: string
  rd_recipient :: string
  rd_source_event_id :: "string option"
  rd_source_event_seq :: "int option"
  rd_model_seq :: "int option"
  rd_revision :: nat
  rd_audience :: Value
  rd_inbound_text :: string
  rd_draft_text :: string
  rd_status :: string
  rd_stale_at :: "int option"
  rd_reviewed_at :: "int option"
  rd_reviewer_id :: "string option"
  rd_approved_text :: "string option"
  rd_created_at :: int

record NewReplyDraft =
  nd_id :: string
  nd_agent_id :: string
  nd_run_id :: string
  nd_conversation_id :: string
  nd_channel :: string
  nd_recipient :: string
  nd_source_event_id :: "string option"
  nd_source_event_seq :: "int option"
  nd_audience :: Value
  nd_inbound_text :: string
  nd_draft_text :: string
  nd_now :: int

section \<open>Reading\<close>

text \<open>The revision is read as a \<open>u32\<close>.\<close>

definition map_draft :: "draft_json \<Rightarrow> draft_row \<Rightarrow> DbError + ReplyDraft" where
  "map_draft js r =
    (if dr_revision r < 0 \<or> 2 ^ 32 \<le> dr_revision r then Inl (Sqlite IntegralValueOutOfRange)
     else Inr \<lparr>rd_id = dr_id r, rd_agent_id = dr_agent_id r, rd_conversation_id = dr_conversation_id r, rd_channel = dr_channel r,
       rd_recipient = dr_recipient r, rd_source_event_id = dr_source_event_id r, rd_source_event_seq = dr_source_event_seq r,
       rd_model_seq = dr_model_seq r, rd_revision = nat (dr_revision r),
       rd_audience = (case value_from_str js (dr_audience_json r) of Some v \<Rightarrow> v | None \<Rightarrow> JNull),
       rd_inbound_text = dr_inbound_text r, rd_draft_text = dr_draft_text r, rd_status = dr_status r, rd_stale_at = dr_stale_at r,
       rd_reviewed_at = dr_reviewed_at r, rd_reviewer_id = dr_reviewer_id r, rd_approved_text = dr_approved_text r,
       rd_created_at = dr_created_at r\<rparr>)"

fun map_drafts :: "draft_json \<Rightarrow> draft_row list \<Rightarrow> DbError + ReplyDraft list" where
  "map_drafts js [] = Inr []"
| "map_drafts js (r # rs) =
    (case map_draft js r of Inl e \<Rightarrow> Inl e | Inr d \<Rightarrow> (case map_drafts js rs of Inl e \<Rightarrow> Inl e | Inr ds \<Rightarrow> Inr (d # ds)))"

definition read_one :: "draft_json \<Rightarrow> draft_row option \<Rightarrow> DbError + ReplyDraft option" where
  "read_one js found = (case found of None \<Rightarrow> Inr None | Some r \<Rightarrow> (case map_draft js r of Inl e \<Rightarrow> Inl e | Inr d \<Rightarrow> Inr (Some d)))"

definition find_draft :: "string \<Rightarrow> draft_db \<Rightarrow> draft_row option" where
  "find_draft i s = find (\<lambda>r. dr_id r = i) (drafts s)"

definition get_draft :: "draft_json \<Rightarrow> string \<Rightarrow> draft_db \<Rightarrow> DbError + ReplyDraft option" where
  "get_draft js i s = read_one js (find_draft i s)"

definition for_model_seq :: "draft_json \<Rightarrow> string \<Rightarrow> int \<Rightarrow> draft_db \<Rightarrow> DbError + ReplyDraft option" where
  "for_model_seq js c q s = read_one js (find (\<lambda>r. dr_conversation_id r = c \<and> dr_model_seq r = Some q) (drafts s))"

definition for_conversation :: "draft_json \<Rightarrow> string \<Rightarrow> draft_db \<Rightarrow> DbError + ReplyDraft list" where
  "for_conversation js c s = map_drafts js (filter (\<lambda>r. dr_conversation_id r = c \<and> dr_model_seq r \<noteq> None) (drafts s))"

definition draft_inbox :: "draft_json \<Rightarrow> nat \<Rightarrow> draft_db \<Rightarrow> DbError + ReplyDraft list" where
  "draft_inbox js limit s =
    map_drafts js (take (min limit 200) (sort_key (\<lambda>r. - dr_created_at r) (filter (\<lambda>r. dr_status r = ''pending'') (drafts s))))"

text \<open>The read after a write, with its error for a row that is gone.\<close>

definition reread :: "draft_json \<Rightarrow> string \<Rightarrow> string \<Rightarrow> draft_db \<Rightarrow> DbError + ReplyDraft" where
  "reread js i gone s = (case get_draft js i s of Inl e \<Rightarrow> Inl e | Inr None \<Rightarrow> Inl (Invariant gone) | Inr (Some d) \<Rightarrow> Inr d)"

section \<open>Writing\<close>

definition fresh_draft :: "NewReplyDraft \<Rightarrow> string \<Rightarrow> draft_row" where
  "fresh_draft n audience = \<lparr>dr_id = nd_id n, dr_agent_id = nd_agent_id n, dr_conversation_id = nd_conversation_id n, dr_channel = nd_channel n,
     dr_recipient = nd_recipient n, dr_inbound_text = nd_inbound_text n, dr_draft_text = nd_draft_text n, dr_status = ''pending'',
     dr_created_at = nd_now n, dr_reviewed_at = None, dr_sent_at = None, dr_run_id = Some (nd_run_id n),
     dr_source_event_id = nd_source_event_id n, dr_source_event_seq = nd_source_event_seq n, dr_model_seq = None, dr_revision = 1,
     dr_audience_json = audience, dr_source_last_seq = nd_source_event_seq n, dr_stale_at = None, dr_reviewer_id = None, dr_approved_text = None\<rparr>"

definition insert_draft :: "draft_row \<Rightarrow> draft_db \<Rightarrow> draft_db" where
  "insert_draft r s = (if find_draft (dr_id r) s = None then s\<lparr>drafts := drafts s @ [r]\<rparr> else s)"

definition create_draft :: "draft_json \<Rightarrow> NewReplyDraft \<Rightarrow> draft_db \<Rightarrow> (DbError + ReplyDraft) \<times> draft_db" where
  "create_draft js n s =
    (if nd_id n = [] \<or> rust_trim (nd_draft_text n) = [] \<or> nd_recipient n = []
     then (Inl (Invariant ''draft ID, text, and recipient are required''), s)
     else (case value_to_string js (nd_audience n) of
        Inl m \<Rightarrow> (Inl (Invariant m), s)
      | Inr audience \<Rightarrow>
         (let s' = insert_draft (fresh_draft n audience) s in
          (case reread js (nd_id n) ''draft disappeared after insert'' s' of
             Inl e \<Rightarrow> (Inl e, s')
           | Inr d \<Rightarrow>
              (if rd_agent_id d \<noteq> nd_agent_id n \<or> rd_conversation_id d \<noteq> nd_conversation_id n \<or> rd_channel d \<noteq> nd_channel n
                  \<or> rd_recipient d \<noteq> nd_recipient n \<or> rd_source_event_id d \<noteq> nd_source_event_id n \<or> rd_draft_text d \<noteq> nd_draft_text n
               then Inl (Invariant ''draft identity collision'') else Inr d, s')))))"

text \<open>A guarded update of one row: the number of changed rows must be one.\<close>

definition update_draft :: "string \<Rightarrow> (draft_row \<Rightarrow> bool) \<Rightarrow> (draft_row \<Rightarrow> draft_row) \<Rightarrow> draft_db \<Rightarrow> draft_db" where
  "update_draft i p f s = s\<lparr>drafts := update_where (\<lambda>r. dr_id r = i \<and> p r) f (drafts s)\<rparr>"

definition draft_matches :: "string \<Rightarrow> (draft_row \<Rightarrow> bool) \<Rightarrow> draft_db \<Rightarrow> bool" where
  "draft_matches i p s \<longleftrightarrow> count_where (\<lambda>r. dr_id r = i \<and> p r) (drafts s) = 1"

definition model_seq_open :: "int \<Rightarrow> draft_row \<Rightarrow> bool" where
  "model_seq_open q r \<longleftrightarrow> dr_model_seq r = None \<or> dr_model_seq r = Some q"

text \<open>The unique index on \<open>(conversation_id, model_seq)\<close>.\<close>

definition model_seq_taken :: "string \<Rightarrow> int \<Rightarrow> draft_db \<Rightarrow> bool" where
  "model_seq_taken i q s \<longleftrightarrow> list_ex (\<lambda>r. dr_id r = i \<and> model_seq_open q r \<and>
     list_ex (\<lambda>r'. dr_id r' \<noteq> i \<and> dr_conversation_id r' = dr_conversation_id r \<and> dr_model_seq r' = Some q) (drafts s)) (drafts s)"

definition attach_model_seq :: "string \<Rightarrow> int \<Rightarrow> draft_db \<Rightarrow> (DbError + unit) \<times> draft_db" where
  "attach_model_seq i q s =
    (if model_seq_taken i q s then (Inl (Sqlite (ConstraintViolation ''idx_reply_drafts_model_event'')), s)
     else (let s' = update_draft i (model_seq_open q) (\<lambda>r. r\<lparr>dr_model_seq := Some q\<rparr>) s in
       (if draft_matches i (model_seq_open q) s then Inr () else Inl (Invariant ''draft model event changed''), s')))"

definition outdated :: "string \<Rightarrow> string \<Rightarrow> string \<Rightarrow> int \<Rightarrow> draft_row \<Rightarrow> bool" where
  "outdated c channel recipient source_seq r \<longleftrightarrow> dr_conversation_id r = c \<and> dr_channel r = channel \<and> dr_recipient r = recipient \<and>
     dr_status r = ''pending'' \<and> dr_stale_at r = None \<and> (case dr_source_event_seq r of Some q \<Rightarrow> q < source_seq | None \<Rightarrow> False)"

definition stale_after_inbound :: "string \<Rightarrow> string \<Rightarrow> string \<Rightarrow> int \<Rightarrow> int \<Rightarrow> draft_db \<Rightarrow> nat \<times> draft_db" where
  "stale_after_inbound c channel recipient source_seq now s =
    (count_where (outdated c channel recipient source_seq) (drafts s),
     s\<lparr>drafts := update_where (outdated c channel recipient source_seq) (\<lambda>r. r\<lparr>dr_stale_at := Some now\<rparr>) (drafts s)\<rparr>)"

definition at_revision :: "nat \<Rightarrow> draft_row \<Rightarrow> bool" where
  "at_revision revision r \<longleftrightarrow> dr_revision r = int revision \<and> dr_status r = ''pending''"

definition edit_draft :: "draft_json \<Rightarrow> string \<Rightarrow> nat \<Rightarrow> string \<Rightarrow> draft_db \<Rightarrow> (DbError + ReplyDraft) \<times> draft_db" where
  "edit_draft js i expected_revision body s =
    (if rust_trim body = [] then (Inl (Invariant ''draft text is empty''), s)
     else (let s' = update_draft i (at_revision expected_revision)
                 (\<lambda>r. r\<lparr>dr_draft_text := rust_trim body, dr_revision := dr_revision r + 1\<rparr>) s in
       (if draft_matches i (at_revision expected_revision) s then reread js i ''draft disappeared after edit'' s'
        else Inl (Invariant ''draft revision or status changed''), s')))"

definition approvable :: "nat \<Rightarrow> draft_row \<Rightarrow> bool" where
  "approvable revision r \<longleftrightarrow> at_revision revision r \<and> dr_stale_at r = None \<and> dr_model_seq r \<noteq> None"

definition approve_draft :: "draft_json \<Rightarrow> string \<Rightarrow> nat \<Rightarrow> string \<Rightarrow> int \<Rightarrow> draft_db \<Rightarrow> (DbError + ReplyDraft) \<times> draft_db" where
  "approve_draft js i expected_revision reviewer now s =
    (let s' = update_draft i (approvable expected_revision)
        (\<lambda>r. r\<lparr>dr_status := ''approved'', dr_reviewed_at := Some now, dr_reviewer_id := Some reviewer, dr_approved_text := Some (dr_draft_text r)\<rparr>) s in
     (if draft_matches i (approvable expected_revision) s then reread js i ''draft disappeared after approval'' s'
      else Inl (Invariant ''draft is stale, changed, or already reviewed''), s'))"

definition reject_draft :: "string \<Rightarrow> nat \<Rightarrow> string \<Rightarrow> int \<Rightarrow> draft_db \<Rightarrow> (DbError + unit) \<times> draft_db" where
  "reject_draft i expected_revision reviewer now s =
    (let s' = update_draft i (at_revision expected_revision)
        (\<lambda>r. r\<lparr>dr_status := ''rejected'', dr_reviewed_at := Some now, dr_reviewer_id := Some reviewer\<rparr>) s in
     (if draft_matches i (at_revision expected_revision) s then Inr () else Inl (Invariant ''draft revision or status changed''), s'))"

definition mark_draft_delivery :: "string \<Rightarrow> string \<Rightarrow> int \<Rightarrow> draft_db \<Rightarrow> (DbError + unit) \<times> draft_db" where
  "mark_draft_delivery i status now s =
    (if status \<notin> {''sent'', ''failed''} then (Inl (Invariant ''invalid draft delivery status''), s)
     else (Inr (), update_draft i (\<lambda>r. dr_status r = ''approved'')
       (\<lambda>r. r\<lparr>dr_status := status, dr_sent_at := (if status = ''sent'' then Some now else dr_sent_at r)\<rparr>) s))"

section \<open>Audience\<close>

definition audience_str :: "string \<Rightarrow> Value \<Rightarrow> string option" where
  "audience_str k v = (case Value_get k v of Some w \<Rightarrow> Value_as_str w | None \<Rightarrow> None)"

definition audience_i64 :: "string \<Rightarrow> Value \<Rightarrow> int option" where
  "audience_i64 k v = (case Value_get k v of Some w \<Rightarrow> Value_as_i64 w | None \<Rightarrow> None)"

definition recipient_bound :: "string \<Rightarrow> string \<Rightarrow> string \<Rightarrow> draft_db \<Rightarrow> bool" where
  "recipient_bound c channel recipient s \<longleftrightarrow> list_ex (\<lambda>b. bd_channel b = channel \<and> bd_foreign_id b = recipient \<and>
     conversation_group c (groups s) = Some (bd_principal_group_id b) \<and> bd_is_group b = 0) (transport_bindings s)"

definition validate_audience :: "draft_json \<Rightarrow> (string \<Rightarrow> string) \<Rightarrow> string \<Rightarrow> draft_db \<Rightarrow> DbError + unit" where
  "validate_audience js sha i s =
    (case get_draft js i s of
       Inl e \<Rightarrow> Inl e
     | Inr None \<Rightarrow> Inl (Invariant ''reply draft not found'')
     | Inr (Some d) \<Rightarrow>
        (if audience_str ''channel'' (rd_audience d) \<noteq> Some (rd_channel d) \<or> audience_str ''recipient'' (rd_audience d) \<noteq> Some (rd_recipient d)
         then Inl (Invariant ''reply draft transport destination changed'')
         else (case audience_str ''group_id'' (rd_audience d) of
            None \<Rightarrow>
              (if recipient_bound (rd_conversation_id d) (rd_channel d) (rd_recipient d) s then Inr ()
               else Inl (Invariant ''reply draft recipient identity is no longer bound to this conversation''))
          | Some native_group \<Rightarrow>
             (case audience_state sha (rd_conversation_id d) (groups s) of
                None \<Rightarrow> Inl (Invariant ''reply draft group audience is unavailable'')
              | Some (gid, current_native_group, epoch, member_hash, _) \<Rightarrow>
                 (if current_native_group \<noteq> Some native_group \<or> audience_str ''principal_group_id'' (rd_audience d) \<noteq> Some gid
                     \<or> audience_i64 ''membership_epoch'' (rd_audience d) \<noteq> Some epoch
                     \<or> audience_str ''members_sha256'' (rd_audience d) \<noteq> Some member_hash
                  then Inl (Invariant ''reply draft audience changed since it was proposed'')
                  else Inr ())))))"

end
