(* ===== verification/Reply_Draft_Properties.thy ===== *)
theory Reply_Draft_Properties
  imports Reply_Drafts
begin

text \<open>
  What the review of drafts promises: the text that is approved is the text the reviewer saw, an approval is final, a stale or changed
  draft is not approved, and the store stays well-formed.
\<close>

section \<open>Histories\<close>

datatype draft_action = Create NewReplyDraft | AttachModelSeq string int | StaleAfterInbound string string string int int
  | Edit string nat string | Approve string nat string int | Reject string nat string int | MarkDelivery string string int

fun draft_step :: "draft_json \<Rightarrow> draft_db \<Rightarrow> draft_action \<Rightarrow> draft_db" where
  "draft_step js s (Create n) = snd (create_draft js n s)"
| "draft_step js s (AttachModelSeq i q) = snd (attach_model_seq i q s)"
| "draft_step js s (StaleAfterInbound c ch rc q now) = snd (stale_after_inbound c ch rc q now s)"
| "draft_step js s (Edit i vn body) = snd (edit_draft js i vn body s)"
| "draft_step js s (Approve i vn who now) = snd (approve_draft js i vn who now s)"
| "draft_step js s (Reject i vn who now) = snd (reject_draft i vn who now s)"
| "draft_step js s (MarkDelivery i status now) = snd (mark_draft_delivery i status now s)"

definition granted_status :: "string \<Rightarrow> bool" where
  "granted_status st \<longleftrightarrow> st \<in> {''approved'', ''sent'', ''failed''}"

definition closed_status :: "string \<Rightarrow> bool" where
  "closed_status st \<longleftrightarrow> st \<in> {''rejected'', ''sent'', ''failed''}"

lemma status_simps [simp]:
  "granted_status ''approved''" "granted_status ''sent''" "granted_status ''failed''" "\<not> granted_status ''pending''" "\<not> granted_status ''rejected''"
  "\<not> closed_status ''approved''" "\<not> closed_status ''pending''" "closed_status ''sent''" "closed_status ''failed''" "closed_status ''rejected''"
  by (simp_all add: granted_status_def closed_status_def)

text \<open>What may happen to a row: its text changes only with its revision and only while it is pending.\<close>

definition evolves :: "draft_row \<Rightarrow> draft_row \<Rightarrow> bool" where
  "evolves r r' \<longleftrightarrow> dr_id r' = dr_id r \<and> dr_revision r \<le> dr_revision r' \<and>
     (dr_revision r' = dr_revision r \<longrightarrow> dr_draft_text r' = dr_draft_text r) \<and>
     (dr_status r \<noteq> ''pending'' \<longrightarrow> dr_revision r' = dr_revision r \<and> dr_status r' \<noteq> ''pending'' \<and> dr_approved_text r' = dr_approved_text r \<and>
        dr_reviewer_id r' = dr_reviewer_id r) \<and>
     (granted_status (dr_status r) \<longrightarrow> granted_status (dr_status r')) \<and> (closed_status (dr_status r) \<longrightarrow> dr_status r' = dr_status r) \<and>
     (dr_stale_at r \<noteq> None \<longrightarrow> dr_stale_at r' = dr_stale_at r \<and> (granted_status (dr_status r') \<longrightarrow> granted_status (dr_status r)))"

lemma evolves_refl [simp]: "evolves r r"
  by (simp add: evolves_def)

lemma evolves_trans:
  assumes "evolves r r'" "evolves r' r''"
  shows "evolves r r''"
proof -
  have "dr_draft_text r'' = dr_draft_text r" if "dr_revision r'' = dr_revision r"
  proof -
    have "dr_revision r' = dr_revision r" "dr_revision r'' = dr_revision r'" using assms that unfolding evolves_def by linarith+
    then show ?thesis using assms unfolding evolves_def by metis
  qed
  moreover have "dr_id r'' = dr_id r" "dr_revision r \<le> dr_revision r''" using assms unfolding evolves_def by auto
  ultimately show ?thesis using assms unfolding evolves_def by metis
qed

lemma find_update_keeps_id:
  assumes "\<And>r. dr_id (f r) = dr_id r"
  shows "find (\<lambda>r. dr_id r = i) (update_where p f rows) = map_option (\<lambda>r. if p r then f r else r) (find (\<lambda>r. dr_id r = i) rows)"
  by (induction rows) (auto simp: assms)

lemma draft_step_evolves:
  assumes "find_draft i s = Some r"
  obtains r' where "find_draft i (draft_step js s a) = Some r'" "evolves r r'"
proof -
  have upd: "find_draft i (s\<lparr>drafts := update_where p f (drafts s)\<rparr>) = Some (if p r then f r else r)"
    if "\<And>r. dr_id (f r) = dr_id r" for p f
    using assms find_update_keeps_id [of f i p "drafts s"] that by (simp add: find_draft_def)
  have one: "\<exists>r'. find_draft i (update_draft j p f s) = Some r' \<and> evolves r r'"
    if "\<And>r. dr_id (f r) = dr_id r" "dr_id r = j \<Longrightarrow> p r \<Longrightarrow> evolves r (f r)" for j p f
    using upd [of f "\<lambda>r. dr_id r = j \<and> p r"] that by (auto simp: update_draft_def)
  have "\<exists>r'. find_draft i (draft_step js s a) = Some r' \<and> evolves r r'"
  proof (cases a)
    case (Create n)
    have "find_draft i (insert_draft x s) = Some r" for x
      using assms by (auto simp: insert_draft_def find_draft_def find_append)
    then show ?thesis
      using assms Create by (auto simp: create_draft_def Let_def split: sum.splits)
  next
    case (AttachModelSeq j q)
    have "\<exists>r'. find_draft i (update_draft j (model_seq_open q) (\<lambda>r. r\<lparr>dr_model_seq := Some q\<rparr>) s) = Some r' \<and> evolves r r'"
      by (rule one) (auto simp: evolves_def)
    then show ?thesis using assms AttachModelSeq by (auto simp: attach_model_seq_def Let_def)
  next
    case (StaleAfterInbound c ch rc q now)
    have "evolves r (if outdated c ch rc q r then r\<lparr>dr_stale_at := Some now\<rparr> else r)" by (auto simp: evolves_def outdated_def)
    then show ?thesis using StaleAfterInbound by (auto simp: stale_after_inbound_def upd)
  next
    case (Edit j vn body)
    have "\<exists>r'. find_draft i (update_draft j (at_revision vn)
        (\<lambda>r. r\<lparr>dr_draft_text := rust_trim body, dr_revision := dr_revision r + 1\<rparr>) s) = Some r' \<and> evolves r r'"
      by (rule one) (auto simp: evolves_def at_revision_def)
    then show ?thesis using assms Edit by (auto simp: edit_draft_def Let_def)
  next
    case (Approve j vn who now)
    show ?thesis
      unfolding Approve by (simp add: approve_draft_def Let_def, rule one) (auto simp: evolves_def approvable_def at_revision_def)
  next
    case (Reject j vn who now)
    show ?thesis
      unfolding Reject by (simp add: reject_draft_def Let_def, rule one) (auto simp: evolves_def at_revision_def)
  next
    case (MarkDelivery j status now)
    have "\<exists>r'. find_draft i (update_draft j (\<lambda>r. dr_status r = ''approved'')
       (\<lambda>r. r\<lparr>dr_status := status, dr_sent_at := (if status = ''sent'' then Some now else dr_sent_at r)\<rparr>) s) = Some r' \<and> evolves r r'"
      if "status = ''sent'' \<or> status = ''failed''"
      by (rule one) (use that in \<open>auto simp: evolves_def\<close>)
    then show ?thesis using assms MarkDelivery by (auto simp: mark_draft_delivery_def)
  qed
  then show ?thesis using that by blast
qed

lemma draft_history_evolves:
  assumes "find_draft i s = Some r"
  shows "\<exists>r'. find_draft i (foldl (draft_step js) s actions) = Some r' \<and> evolves r r'"
  using assms
proof (induction actions arbitrary: s r)
  case Nil
  then show ?case by simp
next
  case (Cons a actions)
  obtain r1 where "find_draft i (draft_step js s a) = Some r1" "evolves r r1" by (rule draft_step_evolves [OF Cons.prems])
  with Cons.IH [of "draft_step js s a" r1] show ?case by (auto intro: evolves_trans)
qed

section \<open>The store\<close>

definition draft_ok :: "draft_row \<Rightarrow> bool" where
  "draft_ok r \<longleftrightarrow> dr_status r \<in> {''pending'', ''approved'', ''rejected'', ''sent'', ''failed''} \<and> 1 \<le> dr_revision r \<and>
     (dr_approved_text r = (if granted_status (dr_status r) then Some (dr_draft_text r) else None)) \<and>
     (dr_reviewer_id r = None \<longleftrightarrow> dr_status r = ''pending'') \<and> (dr_reviewed_at r = None \<longleftrightarrow> dr_status r = ''pending'') \<and>
     (dr_sent_at r \<noteq> None \<longleftrightarrow> dr_status r = ''sent'') \<and>
     (granted_status (dr_status r) \<longrightarrow> dr_stale_at r = None \<and> dr_model_seq r \<noteq> None)"

definition drafts_ok :: "draft_db \<Rightarrow> bool" where
  "drafts_ok s \<longleftrightarrow> distinct (map dr_id (drafts s)) \<and> (\<forall>r \<in> set (drafts s). draft_ok r) \<and>
     (\<forall>r \<in> set (drafts s). \<forall>r' \<in> set (drafts s). dr_conversation_id r = dr_conversation_id r' \<longrightarrow> dr_model_seq r = dr_model_seq r' \<longrightarrow>
        dr_model_seq r \<noteq> None \<longrightarrow> r = r')"

lemma drafts_ok_update:
  assumes "drafts_ok s" and keep: "\<And>r. dr_id (f r) = dr_id r" "\<And>r. dr_conversation_id (f r) = dr_conversation_id r" "\<And>r. dr_model_seq (f r) = dr_model_seq r"
    and ok: "\<And>r. draft_ok r \<Longrightarrow> p r \<Longrightarrow> draft_ok (f r)"
  shows "drafts_ok (s\<lparr>drafts := update_where p f (drafts s)\<rparr>)"
  unfolding drafts_ok_def
proof (intro conjI ballI impI)
  show "distinct (map dr_id (drafts (s\<lparr>drafts := update_where p f (drafts s)\<rparr>)))"
    using assms(1) keep(1) by (simp add: drafts_ok_def map_update_where)
next
  fix r assume "r \<in> set (drafts (s\<lparr>drafts := update_where p f (drafts s)\<rparr>))"
  then show "draft_ok r" using assms(1) ok by (auto simp: drafts_ok_def set_update_where)
next
  fix r r' assume *: "r \<in> set (drafts (s\<lparr>drafts := update_where p f (drafts s)\<rparr>))" "r' \<in> set (drafts (s\<lparr>drafts := update_where p f (drafts s)\<rparr>))"
    "dr_conversation_id r = dr_conversation_id r'" "dr_model_seq r = dr_model_seq r'" "dr_model_seq r \<noteq> None"
  obtain x x' where x: "x \<in> set (drafts s)" "r = (if p x then f x else x)" "x' \<in> set (drafts s)" "r' = (if p x' then f x' else x')"
    using *(1,2) by (auto simp: set_update_where)
  have "x = x'" using assms(1) x *(3-5) keep(2,3) unfolding drafts_ok_def by (metis (no_types, lifting))
  with x show "r = r'" by simp
qed

lemma drafts_ok_insert: "drafts_ok s \<Longrightarrow> draft_ok r \<Longrightarrow> dr_model_seq r = None \<Longrightarrow> drafts_ok (insert_draft r s)"
  by (auto simp: drafts_ok_def insert_draft_def find_draft_def find_None_iff)

lemma model_seq_takenI:
  "r \<in> set (drafts s) \<Longrightarrow> r' \<in> set (drafts s) \<Longrightarrow> dr_id r = i \<Longrightarrow> model_seq_open q r \<Longrightarrow> dr_id r' \<noteq> i \<Longrightarrow>
   dr_conversation_id r' = dr_conversation_id r \<Longrightarrow> dr_model_seq r' = Some q \<Longrightarrow> model_seq_taken i q s"
  unfolding model_seq_taken_def list_ex_iff by blast

lemma drafts_ok_attach:
  assumes ok: "drafts_ok s" and free: "\<not> model_seq_taken i q s"
  shows "drafts_ok (update_draft i (model_seq_open q) (\<lambda>r. r\<lparr>dr_model_seq := Some q\<rparr>) s)"
proof -
  let ?f = "\<lambda>r. if dr_id r = i \<and> model_seq_open q r then r\<lparr>dr_model_seq := Some q\<rparr> else r"
  have rows: "set (drafts (update_draft i (model_seq_open q) (\<lambda>r. r\<lparr>dr_model_seq := Some q\<rparr>) s)) = ?f ` set (drafts s)"
    by (simp add: update_draft_def set_update_where)
  have ids: "dr_id (?f r) = dr_id r" for r by simp
  have "?f r = ?f r'" if r: "r \<in> set (drafts s)" "r' \<in> set (drafts s)" and same: "dr_conversation_id (?f r) = dr_conversation_id (?f r')"
    "dr_model_seq (?f r) = dr_model_seq (?f r')" "dr_model_seq (?f r) \<noteq> None" for r r'
  proof (cases "dr_id r = i \<and> model_seq_open q r"; cases "dr_id r' = i \<and> model_seq_open q r'")
    assume "dr_id r = i \<and> model_seq_open q r" "dr_id r' = i \<and> model_seq_open q r'"
    then have "r = r'" using ok r unfolding drafts_ok_def by (metis inj_on_contraD distinct_map)
    then show ?thesis by simp
  next
    assume *: "dr_id r = i \<and> model_seq_open q r" "\<not> (dr_id r' = i \<and> model_seq_open q r')"
    show ?thesis
    proof (cases "dr_id r' = i")
      case True
      then have "r = r'" using * ok r unfolding drafts_ok_def by (metis inj_on_contraD distinct_map)
      then show ?thesis by simp
    next
      case False
      then have "model_seq_taken i q s" using model_seq_takenI [OF r] * same by auto
      with free show ?thesis by simp
    qed
  next
    assume *: "\<not> (dr_id r = i \<and> model_seq_open q r)" "dr_id r' = i \<and> model_seq_open q r'"
    show ?thesis
    proof (cases "dr_id r = i")
      case True
      then have "r = r'" using * ok r unfolding drafts_ok_def by (metis inj_on_contraD distinct_map)
      then show ?thesis by simp
    next
      case False
      then have "model_seq_taken i q s" using model_seq_takenI [OF r(2,1)] * same by auto
      with free show ?thesis by simp
    qed
  next
    assume "\<not> (dr_id r = i \<and> model_seq_open q r)" "\<not> (dr_id r' = i \<and> model_seq_open q r')"
    then show ?thesis using ok r same unfolding drafts_ok_def by auto
  qed
  moreover have "draft_ok (?f r)" if "draft_ok r" for r using that by (auto simp: draft_ok_def)
  moreover have "distinct (map dr_id (drafts (update_draft i (model_seq_open q) (\<lambda>r. r\<lparr>dr_model_seq := Some q\<rparr>) s)))"
    using ok by (simp add: drafts_ok_def update_draft_def map_update_where)
  ultimately show ?thesis using ok unfolding drafts_ok_def rows by blast
qed

lemma draft_step_ok: "drafts_ok s \<Longrightarrow> drafts_ok (draft_step js s a)"
proof (cases a)
  case (Create n)
  assume "drafts_ok s"
  then show ?thesis
    unfolding Create by (auto simp: create_draft_def Let_def fresh_draft_def draft_ok_def intro!: drafts_ok_insert split: sum.splits)
next
  case (AttachModelSeq i q)
  assume "drafts_ok s"
  then show ?thesis
    unfolding AttachModelSeq using drafts_ok_attach [of s i q] by (auto simp: attach_model_seq_def Let_def)
next
  case (StaleAfterInbound c ch rc q now)
  assume "drafts_ok s"
  then show ?thesis
    unfolding StaleAfterInbound by (simp add: stale_after_inbound_def, intro drafts_ok_update) (auto simp: draft_ok_def outdated_def)
next
  case (Edit i vn body)
  assume "drafts_ok s"
  then show ?thesis
    unfolding Edit by (auto simp: edit_draft_def update_draft_def Let_def draft_ok_def at_revision_def intro!: drafts_ok_update)
next
  case (Approve i vn who now)
  assume "drafts_ok s"
  then show ?thesis
    unfolding Approve
    by (simp add: approve_draft_def update_draft_def Let_def, intro drafts_ok_update) (auto simp: draft_ok_def approvable_def at_revision_def)
next
  case (Reject i vn who now)
  assume "drafts_ok s"
  then show ?thesis
    unfolding Reject by (simp add: reject_draft_def update_draft_def Let_def, intro drafts_ok_update) (auto simp: draft_ok_def at_revision_def)
next
  case (MarkDelivery i status now)
  assume "drafts_ok s"
  then show ?thesis
    unfolding MarkDelivery
    by (auto simp: mark_draft_delivery_def update_draft_def draft_ok_def intro!: drafts_ok_update)
qed

interpretation draft_machine: invariant_machine "draft_step js" drafts_ok for js
  by unfold_locales (rule draft_step_ok)

section \<open>What a reviewer approves\<close>

text \<open>C0: Every history of the review store, from an empty table, keeps it well-formed: unique identifiers and model events, known
  status texts, and an approved text exactly on approved, sent and failed drafts, which is the text of the draft.\<close>

theorem draft_store_invariant:
  assumes "drafts s = []"
  shows "drafts_ok (foldl (draft_step js) s actions)"
  by (rule draft_machine.run_inv) (simp add: drafts_ok_def assms)

definition draft_codec :: draft_json where
  "draft_codec = \<lparr>value_to_string = (\<lambda>_. Inr ''{}''), value_from_str = (\<lambda>_. Some (JObject []))\<rparr>"

definition no_drafts :: draft_db where
  "no_drafts = \<lparr>drafts = [], transport_bindings = [], groups = no_groups\<rparr>"

definition sample_draft :: NewReplyDraft where
  "sample_draft = \<lparr>nd_id = ''d'', nd_agent_id = ''a'', nd_run_id = ''r'', nd_conversation_id = ''c'', nd_channel = ''signal'', nd_recipient = ''x'',
     nd_source_event_id = None, nd_source_event_seq = Some 3, nd_audience = JNull, nd_inbound_text = ''hi'', nd_draft_text = ''hello'', nd_now = 5\<rparr>"

definition reviewed_drafts :: draft_db where
  "reviewed_drafts = foldl (draft_step draft_codec) no_drafts [Create sample_draft, AttachModelSeq ''d'' 4, Edit ''d'' 1 ''hey'']"

theorem draft_store_invariant_witness: "drafts_ok reviewed_drafts \<and> length (drafts reviewed_drafts) = 1"
proof -
  have "length (drafts reviewed_drafts) = 1" by code_simp
  moreover have "drafts no_drafts = []" by (simp add: no_drafts_def)
  ultimately show ?thesis unfolding reviewed_drafts_def using draft_store_invariant by blast
qed

lemma draft_matches_found:
  assumes "drafts_ok s" "find_draft i s = Some r" "draft_matches i p s"
  shows "p r"
proof -
  obtain x where x: "x \<in> set (drafts s)" "dr_id x = i" "p x"
    using assms(3) unfolding draft_matches_def count_where_def by (metis (mono_tags, lifting) filter_False list.size(3) zero_neq_one)
  have "r \<in> set (drafts s)" "dr_id r = i" using assms(2) find_SomeD unfolding find_draft_def by fast+
  then have "r = x" using x assms(1) unfolding drafts_ok_def by (metis inj_on_contraD distinct_map)
  with x show ?thesis by simp
qed

text \<open>
  C23: What is approved is what was reviewed. If a reviewer read a draft at some revision, and after any further history approves
  that revision, then the approved text is the text the reviewer read, and in every later history the draft stays approved
  by that reviewer with that text.
\<close>

theorem approved_text_is_reviewed_text:
  assumes "drafts_ok s" "find_draft i s = Some r"
    and "approve_draft js i (nat (dr_revision r)) who now (foldl (draft_step js) s actions) = (Inr d, s')"
  shows "rd_approved_text d = Some (dr_draft_text r) \<and> rd_reviewer_id d = Some who \<and> rd_stale_at d = None \<and>
    (\<forall>later. \<exists>r'. find_draft i (foldl (draft_step js) s' later) = Some r' \<and> dr_approved_text r' = Some (dr_draft_text r) \<and>
       dr_reviewer_id r' = Some who \<and> granted_status (dr_status r'))"
proof -
  let ?t = "foldl (draft_step js) s actions" and ?p = "approvable (nat (dr_revision r))"
  let ?f = "\<lambda>r. r\<lparr>dr_status := ''approved'', dr_reviewed_at := Some now, dr_reviewer_id := Some who, dr_approved_text := Some (dr_draft_text r)\<rparr>"
  obtain x where x: "find_draft i ?t = Some x" "evolves r x" using draft_history_evolves [OF assms(2)] by blast
  have matches: "draft_matches i ?p ?t" and s': "s' = update_draft i ?p ?f ?t" and d: "reread js i ''draft disappeared after approval'' s' = Inr d"
    using assms(3) by (auto simp: approve_draft_def Let_def split: if_splits)
  have "?p x" by (rule draft_matches_found [OF draft_machine.run_inv [OF assms(1)] x(1) matches])
  moreover have "0 \<le> dr_revision r"
    using assms(1,2) find_SomeD unfolding find_draft_def drafts_ok_def draft_ok_def by fastforce
  ultimately have x': "dr_draft_text x = dr_draft_text r" "dr_stale_at x = None"
    using x(2) by (auto simp: approvable_def at_revision_def evolves_def)
  have "dr_id x = i" using x(1) find_SomeD unfolding find_draft_def by fast
  then have y: "find_draft i s' = Some (?f x)"
    using x(1) \<open>?p x\<close> find_update_keeps_id [of ?f i "\<lambda>r. dr_id r = i \<and> ?p r" "drafts ?t"] unfolding s' update_draft_def find_draft_def by simp
  then have "map_draft js (?f x) = Inr d"
    using d by (auto simp: reread_def get_draft_def read_one_def split: sum.splits option.splits)
  moreover have "\<exists>r'. find_draft i (foldl (draft_step js) s' later) = Some r' \<and> dr_approved_text r' = Some (dr_draft_text r) \<and>
       dr_reviewer_id r' = Some who \<and> granted_status (dr_status r')" for later
    using draft_history_evolves [OF y, of js later] x'(1) by (auto simp: evolves_def)
  ultimately show ?thesis using x' by (auto simp: map_draft_def split: if_splits)
qed

theorem approved_text_is_reviewed_text_witness:
  "\<exists>d s'. approve_draft draft_codec ''d'' 2 ''op'' 9 (foldl (draft_step draft_codec) reviewed_drafts [Reject ''d'' 1 ''op'' 8]) = (Inr d, s') \<and>
     rd_approved_text d = Some ''hey''"
proof -
  let ?r = "the (find_draft ''d'' reviewed_drafts)" and ?s = "foldl (draft_step draft_codec) reviewed_drafts [Reject ''d'' 1 ''op'' 8]"
  have ok: "drafts_ok reviewed_drafts" unfolding reviewed_drafts_def by (rule draft_machine.run_inv) (simp add: drafts_ok_def no_drafts_def)
  have found: "find_draft ''d'' reviewed_drafts = Some ?r" by code_simp
  have read: "nat (dr_revision ?r) = 2" "dr_draft_text ?r = ''hey''" by code_simp+
  have "case approve_draft draft_codec ''d'' 2 ''op'' 9 ?s of (Inr d, _) \<Rightarrow> True | (Inl _, _) \<Rightarrow> False" by code_simp
  then obtain d s' where approve: "approve_draft draft_codec ''d'' 2 ''op'' 9 ?s = (Inr d, s')" by (auto split: prod.splits sum.splits)
  have "rd_approved_text d = Some (dr_draft_text ?r)"
    using approved_text_is_reviewed_text [OF ok found, of draft_codec "''op''" 9 "[Reject ''d'' 1 ''op'' 8]" d s'] approve read(1) by simp
  with approve read(2) show ?thesis by auto
qed

section \<open>Audience\<close>

text \<open>
  C39: A draft that passes the audience check reaches exactly the people it was written for. If its audience records the state of the
  conversation's group at some time, then whatever happened to the groups since then, short of deleting that group, the group of the
  conversation has the same native identifier, epoch and members now.
\<close>

theorem validated_audience_unchanged:
  assumes "validate_audience js sha i s = Inr ()" "get_draft js i s = Inr (Some d)"
    and "audience_state sha c before = Some (gid, Some native, epoch, hash, members)" "conversation_group c before = Some gid"
    and "audience_str ''group_id'' (rd_audience d) = Some native" "audience_str ''principal_group_id'' (rd_audience d) = Some gid"
      "audience_i64 ''membership_epoch'' (rd_audience d) = Some epoch"
    and "groups s = foldl (group_step sha) before actions" "DeleteGroup gid \<notin> set actions"
  shows "audience_state sha (rd_conversation_id d) (groups s) = Some (gid, Some native, epoch, hash, members)"
proof -
  obtain hash' now_members where now: "audience_state sha (rd_conversation_id d) (groups s) = Some (gid, Some native, epoch, hash', now_members)"
    using assms(1,2,5-7) by (auto simp: validate_audience_def split: option.splits prod.splits if_splits)
  obtain g g' where g: "find_group gid before = Some g" "gr_membership_epoch g = epoch"
    and g': "find_group gid (groups s) = Some g'" "gr_membership_epoch g' = epoch"
    using assms(3) now by (auto simp: audience_state_def Let_def split: option.splits)
  have "members_of gid (groups s) = members_of gid before"
    using group_history_tracks [OF assms(9), of before sha] g g' unfolding assms(8) [symmetric] epoch_tracks_def by auto
  then show ?thesis
    using assms(3) now by (auto simp: audience_state_def Let_def split: option.splits)
qed

definition group_codec :: draft_json where
  "group_codec = \<lparr>value_to_string = (\<lambda>_. Inr ''{}''), value_from_str = (\<lambda>_. Some (JObject [(''channel'', JString ''signal''), (''recipient'', JString ''x''),
     (''group_id'', JString ''n''), (''principal_group_id'', JString ''g1''), (''membership_epoch'', JNumber ''1''),
     (''members_sha256'', JString (concat (map nul_field [''ann'', ''bob''])))]))\<rparr>"

definition audience_then :: group_db where
  "audience_then = foldl (group_step id) (no_groups\<lparr>conversation_groups := [(''c'', None)]\<rparr>)
     [Resolve ''g1'' (sample_key\<lparr>gk_native_group_id := Some ''n''\<rparr>) 5, BindConversation ''c'' ''g1'']"

definition group_drafts :: draft_db where
  "group_drafts = (foldl (draft_step group_codec) no_drafts [Create sample_draft])\<lparr>groups := foldl (group_step id) audience_then [TouchActive ''g1'' 9]\<rparr>"

theorem validated_audience_unchanged_witness:
  "validate_audience group_codec id ''d'' group_drafts = Inr () \<and>
   audience_state id ''c'' (groups group_drafts) = Some (''g1'', Some ''n'', 1, concat (map nul_field [''ann'', ''bob'']), [''ann'', ''bob''])"
proof -
  have ok: "validate_audience group_codec id ''d'' group_drafts = Inr ()" by code_simp
  let ?d = "case get_draft group_codec ''d'' group_drafts of Inr (Some d) \<Rightarrow> d"
  have d: "get_draft group_codec ''d'' group_drafts = Inr (Some ?d)" by code_simp
  have snapshot: "audience_state id ''c'' audience_then = Some (''g1'', Some ''n'', 1, concat (map nul_field [''ann'', ''bob'']), [''ann'', ''bob''])"
    "conversation_group ''c'' audience_then = Some ''g1''" by code_simp+
  have parts: "audience_str ''group_id'' (rd_audience ?d) = Some ''n''" "audience_str ''principal_group_id'' (rd_audience ?d) = Some ''g1''"
    "audience_i64 ''membership_epoch'' (rd_audience ?d) = Some 1" "rd_conversation_id ?d = ''c''" by code_simp+
  have "audience_state id (rd_conversation_id ?d) (groups group_drafts) =
      Some (''g1'', Some ''n'', 1, concat (map nul_field [''ann'', ''bob'']), [''ann'', ''bob''])"
    by (rule validated_audience_unchanged [where actions = "[TouchActive ''g1'' 9]", OF ok d snapshot parts(1-3)]) (simp_all add: group_drafts_def)
  with ok parts(4) show ?thesis by simp
qed

end
