(* ===== verification/Refresh_Tokens.thy ===== *)
theory Refresh_Tokens
  imports Db
begin

text \<open>
  Refresh tokens (\<open>crates/core/src/refresh_tokens.rs\<close>): issue, single-use consumption, revocation by session and by user, the password
  change, the checks against a session, and the sweep of expired rows; with what a history of them promises.

  A fresh token string is an argument of \<open>issue\<close>, as is the reading of the clock; the sum of the clock and the lifetime is taken in the
  integers. Of a user row only the columns that the store touches are kept.
\<close>

section \<open>State and operations\<close>

record token_row =
  tk_token :: string
  tk_principal_id :: string
  tk_session_id :: string
  tk_issued_at :: int
  tk_expires_at :: int

record user_row =
  us_user_id :: string
  us_password_hash :: string

record token_db =
  refresh_tokens :: "token_row list"
  users_table :: "user_row list"

record RefreshTokenRow =
  rt_principal_id :: string
  rt_session_id :: string
  rt_expires_at :: int

definition delete_tokens :: "(token_row \<Rightarrow> bool) \<Rightarrow> token_db \<Rightarrow> nat \<times> token_db" where
  "delete_tokens p s = (count_where p (refresh_tokens s), s\<lparr>refresh_tokens := filter (\<lambda>r. \<not> p r) (refresh_tokens s)\<rparr>)"

definition issue_token :: "string \<Rightarrow> string \<Rightarrow> string \<Rightarrow> int \<Rightarrow> int \<Rightarrow> token_db \<Rightarrow> (DbError + string) \<times> token_db" where
  "issue_token fresh who session ttl_secs now s =
    (if list_ex (\<lambda>r. tk_token r = fresh) (refresh_tokens s)
     then (Inl (Sqlite (ConstraintViolation ''state_refresh_tokens.token'')), s)
     else (Inr fresh, s\<lparr>refresh_tokens := refresh_tokens s @ [\<lparr>tk_token = fresh, tk_principal_id = who, tk_session_id = session,
       tk_issued_at = now, tk_expires_at = now + ttl_secs\<rparr>]\<rparr>))"

definition consume_token :: "string \<Rightarrow> int \<Rightarrow> token_db \<Rightarrow> RefreshTokenRow option \<times> token_db" where
  "consume_token tok now s =
    (case find (\<lambda>r. tk_token r = tok) (refresh_tokens s) of
       None \<Rightarrow> (None, s)
     | Some r \<Rightarrow>
        (if tk_expires_at r < now then None
         else Some \<lparr>rt_principal_id = tk_principal_id r, rt_session_id = tk_session_id r, rt_expires_at = tk_expires_at r\<rparr>,
         snd (delete_tokens (\<lambda>r. tk_token r = tok) s)))"

definition revoke_session :: "string \<Rightarrow> token_db \<Rightarrow> nat \<times> token_db" where
  "revoke_session session s = delete_tokens (\<lambda>r. tk_session_id r = session) s"

definition session_is_active :: "string \<Rightarrow> string \<Rightarrow> int \<Rightarrow> token_db \<Rightarrow> bool" where
  "session_is_active who session now s \<longleftrightarrow>
     list_ex (\<lambda>r. tk_principal_id r = who \<and> tk_session_id r = session \<and> now < tk_expires_at r) (refresh_tokens s)"

definition revoke_all_for_user :: "string \<Rightarrow> token_db \<Rightarrow> nat \<times> token_db" where
  "revoke_all_for_user who s = delete_tokens (\<lambda>r. tk_principal_id r = who) s"

definition set_password_hash_and_revoke_all :: "string \<Rightarrow> string \<Rightarrow> token_db \<Rightarrow> nat option \<times> token_db" where
  "set_password_hash_and_revoke_all who hash s =
    (if \<not> list_ex (\<lambda>u. us_user_id u = who) (users_table s) then (None, s)
     else (let (removed, s') = delete_tokens (\<lambda>r. tk_principal_id r = who)
               (s\<lparr>users_table := update_where (\<lambda>u. us_user_id u = who) (\<lambda>u. u\<lparr>us_password_hash := hash\<rparr>) (users_table s)\<rparr>) in
           (Some removed, s')))"

definition active_session_count :: "string \<Rightarrow> int \<Rightarrow> token_db \<Rightarrow> nat" where
  "active_session_count who now s =
    length (remdups (map tk_session_id (filter (\<lambda>r. tk_principal_id r = who \<and> now < tk_expires_at r) (refresh_tokens s))))"

definition purge_expired :: "int \<Rightarrow> token_db \<Rightarrow> nat \<times> token_db" where
  "purge_expired now s = delete_tokens (\<lambda>r. tk_expires_at r \<le> now) s"

section \<open>Histories\<close>

datatype token_action = Issue string string string int int | Consume string int | RevokeSession string | RevokeAll string
  | SetPassword string string | Purge int

fun token_step :: "token_db \<Rightarrow> token_action \<Rightarrow> token_db" where
  "token_step s (Issue fresh p session ttl now) = snd (issue_token fresh p session ttl now s)"
| "token_step s (Consume tok now) = snd (consume_token tok now s)"
| "token_step s (RevokeSession session) = snd (revoke_session session s)"
| "token_step s (RevokeAll p) = snd (revoke_all_for_user p s)"
| "token_step s (SetPassword p hash) = snd (set_password_hash_and_revoke_all p hash s)"
| "token_step s (Purge now) = snd (purge_expired now s)"

text \<open>A row appears only when it is issued.\<close>

definition issues :: "(token_row \<Rightarrow> bool) \<Rightarrow> token_action \<Rightarrow> bool" where
  "issues p a \<longleftrightarrow> (\<exists>fresh pr session ttl now. a = Issue fresh pr session ttl now \<and>
     p \<lparr>tk_token = fresh, tk_principal_id = pr, tk_session_id = session, tk_issued_at = now, tk_expires_at = now + ttl\<rparr>)"

lemma absent_after_delete: "\<not> list_ex p (refresh_tokens s) \<Longrightarrow> \<not> list_ex p (refresh_tokens (snd (delete_tokens q s)))"
  by (auto simp: delete_tokens_def list_ex_iff)

lemma token_step_absent:
  assumes "\<not> list_ex p (refresh_tokens s)" "\<not> issues p a"
  shows "\<not> list_ex p (refresh_tokens (token_step s a))"
proof (cases a)
  case (Issue fresh who session ttl now)
  then show ?thesis using assms by (auto simp: issue_token_def issues_def)
next
  case (Consume tok now)
  then show ?thesis using assms(1) absent_after_delete by (auto simp: consume_token_def split: option.split)
next
  case (SetPassword who hash)
  have "\<not> list_ex p (refresh_tokens (snd (delete_tokens q (s\<lparr>users_table := us\<rparr>))))" for q us
    using absent_after_delete [of p "s\<lparr>users_table := us\<rparr>" q] assms(1) by simp
  then show ?thesis using SetPassword assms(1) by (auto simp: set_password_hash_and_revoke_all_def Let_def split: prod.splits) (metis snd_conv)
qed (use assms(1) absent_after_delete in \<open>auto simp: revoke_session_def revoke_all_for_user_def purge_expired_def\<close>)

lemma token_history_absent:
  assumes "\<not> list_ex p (refresh_tokens s)" "\<not> list_ex (issues p) actions"
  shows "\<not> list_ex p (refresh_tokens (foldl token_step s actions))"
  using assms
proof (induction actions arbitrary: s)
  case (Cons a actions)
  then show ?case using token_step_absent [of p s a] by simp
qed simp

lemma delete_tokens_absent: "\<not> list_ex p (refresh_tokens (snd (delete_tokens p s)))"
  by (auto simp: delete_tokens_def list_ex_iff)

lemma find_absent: "\<not> list_ex p xs \<Longrightarrow> find p xs = None"
  by (induction xs) auto

lemma consume_absent: "\<not> list_ex (\<lambda>r. tk_token r = tok) (refresh_tokens s) \<Longrightarrow> consume_token tok now s = (None, s)"
  by (simp add: consume_token_def find_absent)

lemma inactive_absent:
  "\<not> list_ex (\<lambda>r. tk_session_id r = session) (refresh_tokens s) \<or> \<not> list_ex (\<lambda>r. tk_principal_id r = who) (refresh_tokens s) \<Longrightarrow>
   \<not> session_is_active who session now s"
  by (auto simp: session_is_active_def list_ex_iff)

text \<open>
  C40: A refresh token works once and a revocation is final. After a token was presented, and after its session was revoked, its user was
  signed out everywhere or the user's password was changed, no later history presents it successfully or finds the session active,
  unless a token is issued again.
\<close>

theorem refresh_token_single_use:
  "(\<not> list_ex (issues (\<lambda>r. tk_token r = tok)) actions \<longrightarrow>
      fst (consume_token tok now' (foldl token_step (token_step s (Consume tok now)) actions)) = None) \<and>
   (\<not> list_ex (issues (\<lambda>r. tk_session_id r = session)) actions \<longrightarrow>
      \<not> session_is_active who session now' (foldl token_step (token_step s (RevokeSession session)) actions)) \<and>
   (\<not> list_ex (issues (\<lambda>r. tk_principal_id r = who)) actions \<longrightarrow>
      \<not> session_is_active who session now' (foldl token_step (token_step s (RevokeAll who)) actions) \<and>
      (fst (set_password_hash_and_revoke_all who hash s) \<noteq> None \<longrightarrow>
       \<not> session_is_active who session now' (foldl token_step (token_step s (SetPassword who hash)) actions)))"
proof (intro conjI impI)
  have "\<not> list_ex (\<lambda>r. tk_token r = tok) (refresh_tokens (token_step s (Consume tok now)))"
    by (auto simp: consume_token_def delete_tokens_def list_ex_iff find_None_iff split: option.split)
  moreover assume "\<not> list_ex (issues (\<lambda>r. tk_token r = tok)) actions"
  ultimately show "fst (consume_token tok now' (foldl token_step (token_step s (Consume tok now)) actions)) = None"
    using token_history_absent consume_absent by (metis fst_conv)
next
  have "\<not> list_ex (\<lambda>r. tk_session_id r = session) (refresh_tokens (token_step s (RevokeSession session)))"
    by (simp add: revoke_session_def delete_tokens_absent)
  moreover assume "\<not> list_ex (issues (\<lambda>r. tk_session_id r = session)) actions"
  ultimately show "\<not> session_is_active who session now' (foldl token_step (token_step s (RevokeSession session)) actions)"
    by (intro inactive_absent disjI1 token_history_absent)
next
  assume no: "\<not> list_ex (issues (\<lambda>r. tk_principal_id r = who)) actions"
  have "\<not> list_ex (\<lambda>r. tk_principal_id r = who) (refresh_tokens (token_step s (RevokeAll who)))"
    by (simp add: revoke_all_for_user_def delete_tokens_absent)
  with no show "\<not> session_is_active who session now' (foldl token_step (token_step s (RevokeAll who)) actions)"
    by (intro inactive_absent disjI2 token_history_absent)
  assume "fst (set_password_hash_and_revoke_all who hash s) \<noteq> None"
  then have "\<not> list_ex (\<lambda>r. tk_principal_id r = who) (refresh_tokens (token_step s (SetPassword who hash)))"
    by (auto simp: set_password_hash_and_revoke_all_def delete_tokens_def list_ex_iff Let_def split: if_splits)
  with no show "\<not> session_is_active who session now' (foldl token_step (token_step s (SetPassword who hash)) actions)"
    by (intro inactive_absent disjI2 token_history_absent)
qed

definition sample_tokens :: token_db where
  "sample_tokens = foldl token_step \<lparr>refresh_tokens = [], users_table = [\<lparr>us_user_id = ''u'', us_password_hash = ''h''\<rparr>]\<rparr>
     [Issue ''t1'' ''u'' ''s'' 10 0, Issue ''t2'' ''u'' ''s'' 10 1]"

theorem refresh_token_single_use_witness:
  "session_is_active ''u'' ''s'' 5 sample_tokens \<and> fst (consume_token ''t1'' 5 sample_tokens) \<noteq> None \<and>
   fst (consume_token ''t1'' 6 (foldl token_step (token_step sample_tokens (Consume ''t1'' 5)) [Purge 3])) = None \<and>
   \<not> session_is_active ''u'' ''s'' 6 (foldl token_step (token_step sample_tokens (RevokeSession ''s'')) [Purge 3]) \<and>
   \<not> session_is_active ''u'' ''s'' 6 (foldl token_step (token_step sample_tokens (SetPassword ''u'' ''n'')) [Purge 3])"
proof -
  have start: "session_is_active ''u'' ''s'' 5 sample_tokens" "fst (consume_token ''t1'' 5 sample_tokens) \<noteq> None"
    "fst (set_password_hash_and_revoke_all ''u'' ''n'' sample_tokens) \<noteq> None" by code_simp+
  have none: "\<not> list_ex (issues p) [Purge 3]" for p by (simp add: issues_def)
  show ?thesis
    using refresh_token_single_use [of "''t1''" "[Purge 3]" 6 sample_tokens 5 "''s''" "''u''" "''n''"] none start by blast
qed

text \<open>
  At the second of its expiry a token still refreshes a session that is no longer active, and that the sweep would have removed.
\<close>

lemma token_usable_at_expiry:
  "fst (consume_token ''t1'' 10 sample_tokens) \<noteq> None \<and> \<not> session_is_active ''u'' ''s'' 11 sample_tokens \<and>
   fst (consume_token ''t1'' 10 (token_step sample_tokens (Purge 10))) = None"
  by code_simp

text \<open>The sweep changes no answer about a session that is checked at or after its time.\<close>

lemma purge_keeps_sessions: "now \<le> later \<Longrightarrow> session_is_active who session later (snd (purge_expired now s)) = session_is_active who session later s"
  by (auto simp: session_is_active_def purge_expired_def delete_tokens_def list_ex_iff)

lemma active_session_count_zero: "active_session_count who now s = 0 \<longleftrightarrow> (\<forall>session. \<not> session_is_active who session now s)"
  by (auto simp: active_session_count_def session_is_active_def list_ex_iff filter_empty_conv)

end
