(* ===== verification/Webhook_Receipts.thy ===== *)
theory Webhook_Receipts
  imports Db
begin

text \<open>
  Webhook deliveries (\<open>crates/core/src/webhook_receipts.rs\<close>) and transport cursors (\<open>crates/core/src/transport_cursor.rs\<close>): the claim of
  a provider's delivery identifier, its completion and release, and the last polled position of a plugin.
\<close>

section \<open>Receipts\<close>

record receipt_row =
  wr_plugin_id :: string
  wr_route_key :: string
  wr_event_id :: string
  wr_received_at :: int
  wr_outcome :: string
  wr_lease_expires_at :: "int option"

datatype WebhookClaim = Claimed | AlreadyProcessed

type_synonym delivery = "string \<times> string \<times> string"

definition delivery_of :: "receipt_row \<Rightarrow> delivery" where
  "delivery_of r = (wr_plugin_id r, wr_route_key r, wr_event_id r)"

definition reclaimable :: "delivery \<Rightarrow> int \<Rightarrow> receipt_row \<Rightarrow> bool" where
  "reclaimable d now r \<longleftrightarrow> delivery_of r = d \<and> wr_outcome r = ''processing'' \<and>
     (case wr_lease_expires_at r of Some t \<Rightarrow> t \<le> now | None \<Rightarrow> False)"

definition fresh_receipt :: "delivery \<Rightarrow> int \<Rightarrow> receipt_row" where
  "fresh_receipt d now = (case d of (p, k, e) \<Rightarrow> \<lparr>wr_plugin_id = p, wr_route_key = k, wr_event_id = e, wr_received_at = now,
     wr_outcome = ''processing'', wr_lease_expires_at = Some (saturating_add_i64 now 300)\<rparr>)"

definition claim_webhook :: "delivery \<Rightarrow> int \<Rightarrow> receipt_row list \<Rightarrow> (DbError + WebhookClaim) \<times> receipt_row list" where
  "claim_webhook d now rows =
    (case d of (plugin_id, route_key, event_id) \<Rightarrow>
      if rust_trim plugin_id = [] \<or> rust_trim route_key = [] \<or> rust_trim event_id = []
      then (Inl (Invariant ''webhook receipt identity is required''), rows)
      else
        (let reclaimed = update_where (reclaimable d now)
               (\<lambda>r. r\<lparr>wr_received_at := now, wr_outcome := ''processing'', wr_lease_expires_at := Some (saturating_add_i64 now 300)\<rparr>) rows in
         if count_where (reclaimable d now) rows = 1 then (Inr Claimed, reclaimed)
         else if list_ex (\<lambda>r. delivery_of r = d) reclaimed then (Inr AlreadyProcessed, reclaimed)
         else (Inr Claimed, reclaimed @ [fresh_receipt d now])))"

definition processing :: "delivery \<Rightarrow> receipt_row \<Rightarrow> bool" where
  "processing d r \<longleftrightarrow> delivery_of r = d \<and> wr_outcome r = ''processing''"

definition complete_webhook :: "delivery \<Rightarrow> string \<Rightarrow> receipt_row list \<Rightarrow> (DbError + unit) \<times> receipt_row list" where
  "complete_webhook d outcome rows =
    (if outcome \<notin> {''accepted'', ''rejected''} then (Inl (Invariant ''webhook outcome must be accepted or rejected''), rows)
     else (Inr (), update_where (processing d) (\<lambda>r. r\<lparr>wr_outcome := outcome, wr_lease_expires_at := None\<rparr>) rows))"

definition release_webhook :: "delivery \<Rightarrow> receipt_row list \<Rightarrow> receipt_row list" where
  "release_webhook d rows = filter (\<lambda>r. \<not> processing d r) rows"

definition outcome_count :: "string \<Rightarrow> receipt_row list \<Rightarrow> nat" where
  "outcome_count outcome rows = count_where (\<lambda>r. wr_outcome r = outcome) rows"

section \<open>Histories\<close>

datatype webhook_action = ClaimWebhook delivery int | CompleteWebhook delivery string | ReleaseWebhook delivery

fun webhook_step :: "receipt_row list \<Rightarrow> webhook_action \<Rightarrow> receipt_row list" where
  "webhook_step rows (ClaimWebhook d now) = snd (claim_webhook d now rows)"
| "webhook_step rows (CompleteWebhook d outcome) = snd (complete_webhook d outcome rows)"
| "webhook_step rows (ReleaseWebhook d) = release_webhook d rows"

text \<open>Unique deliveries, and a lease exactly on the rows under way.\<close>

definition receipts_ok :: "receipt_row list \<Rightarrow> bool" where
  "receipts_ok rows \<longleftrightarrow> distinct (map delivery_of rows) \<and>
     (\<forall>r \<in> set rows. wr_outcome r \<in> {''processing'', ''accepted'', ''rejected''} \<and> (wr_lease_expires_at r \<noteq> None \<longleftrightarrow> wr_outcome r = ''processing''))"

lemma delivery_of_update [simp]:
  "delivery_of (r\<lparr>wr_received_at := t\<rparr>) = delivery_of r" "delivery_of (r\<lparr>wr_outcome := oc\<rparr>) = delivery_of r"
  "delivery_of (r\<lparr>wr_lease_expires_at := l\<rparr>) = delivery_of r" "delivery_of (fresh_receipt d now) = d"
  by (auto simp: delivery_of_def fresh_receipt_def split: prod.split)

lemma fresh_receipt_fields [simp]:
  "wr_outcome (fresh_receipt d now) = ''processing''" "wr_lease_expires_at (fresh_receipt d now) = Some (saturating_add_i64 now 300)"
  by (simp_all add: fresh_receipt_def split: prod.split)

lemma receipts_ok_update:
  assumes "receipts_ok rows" "\<And>r. delivery_of (f r) = delivery_of r"
    "\<And>r. p r \<Longrightarrow> wr_outcome (f r) \<in> {''processing'', ''accepted'', ''rejected''} \<and> (wr_lease_expires_at (f r) \<noteq> None \<longleftrightarrow> wr_outcome (f r) = ''processing'')"
  shows "receipts_ok (update_where p f rows)"
  using assms by (auto simp: receipts_ok_def map_update_where set_update_where)

lemma webhook_step_ok: "receipts_ok rows \<Longrightarrow> receipts_ok (webhook_step rows a)"
proof (cases a)
  case (ClaimWebhook d now)
  assume ok: "receipts_ok rows"
  have upd: "receipts_ok (update_where (reclaimable d now)
      (\<lambda>r. r\<lparr>wr_received_at := now, wr_outcome := ''processing'', wr_lease_expires_at := Some (saturating_add_i64 now 300)\<rparr>) rows)"
    by (rule receipts_ok_update [OF ok]) auto
  have "receipts_ok (rs @ [fresh_receipt d now])" if "receipts_ok rs" "\<not> list_ex (\<lambda>r. delivery_of r = d) rs" for rs
    using that by (auto simp: receipts_ok_def list_ex_iff)
  with upd ok show ?thesis unfolding ClaimWebhook by (auto simp: claim_webhook_def Let_def split: prod.split)
next
  case (CompleteWebhook d oc)
  assume ok: "receipts_ok rows"
  then show ?thesis unfolding CompleteWebhook by (auto simp: complete_webhook_def intro!: receipts_ok_update)
next
  case (ReleaseWebhook d)
  assume "receipts_ok rows"
  then show ?thesis unfolding ReleaseWebhook by (auto simp: receipts_ok_def release_webhook_def distinct_map_filter)
qed

interpretation webhooks: invariant_machine webhook_step receipts_ok
  by unfold_locales (rule webhook_step_ok)

definition settled_receipt :: "delivery \<Rightarrow> receipt_row list \<Rightarrow> bool" where
  "settled_receipt d rows \<longleftrightarrow> (\<exists>r \<in> set rows. delivery_of r = d \<and> wr_outcome r \<in> {''accepted'', ''rejected''})"

lemma receipt_settled_step: "settled_receipt d rows \<Longrightarrow> settled_receipt d (webhook_step rows a)"
proof -
  assume "settled_receipt d rows"
  then obtain r where r: "r \<in> set rows" "delivery_of r = d" "wr_outcome r \<in> {''accepted'', ''rejected''}" by (auto simp: settled_receipt_def)
  have keep: "r \<in> set (update_where p f rows)" if "\<not> p r" for p f using r(1) that by (force simp: set_update_where)
  have "r \<in> set (webhook_step rows a)"
    using r keep by (cases a) (auto simp: claim_webhook_def complete_webhook_def release_webhook_def reclaimable_def processing_def Let_def split: prod.split)
  with r show ?thesis by (auto simp: settled_receipt_def)
qed

lemma settled_history: "settled_receipt d rows \<Longrightarrow> settled_receipt d (foldl webhook_step rows actions)"
proof (induction actions arbitrary: rows)
  case (Cons a actions)
  then show ?case using receipt_settled_step [of d rows a] by simp
qed simp

lemma not_claimed_when_present:
  assumes "receipts_ok rows" "r \<in> set rows" "delivery_of r = d" "\<not> reclaimable d now r"
  shows "fst (claim_webhook d now rows) \<noteq> Inr Claimed"
proof -
  have "\<not> reclaimable d now x" if "x \<in> set rows" for x
  proof (cases "delivery_of x = d")
    case True
    then have "x = r" using assms(1-3) that unfolding receipts_ok_def by (metis distinct_map inj_onD)
    then show ?thesis using assms(4) by simp
  qed (simp add: reclaimable_def)
  then have "update_where (reclaimable d now) f rows = rows" "count_where (reclaimable d now) rows = 0" for f
    by (auto simp: update_where_none count_where_def filter_empty_conv)
  with assms(2,3) show ?thesis by (auto simp: claim_webhook_def Let_def list_ex_iff split: prod.split)
qed

lemma claimed_row:
  assumes "fst (claim_webhook d now rows) = Inr Claimed"
  shows "\<exists>r \<in> set (snd (claim_webhook d now rows)). delivery_of r = d \<and> wr_lease_expires_at r = Some (saturating_add_i64 now 300)"
proof (cases "count_where (reclaimable d now) rows = 1")
  case True
  then obtain r where "r \<in> set rows" "reclaimable d now r"
    unfolding count_where_def by (metis (mono_tags, lifting) filter_False list.size(3) zero_neq_one)
  then have "r\<lparr>wr_received_at := now, wr_outcome := ''processing'', wr_lease_expires_at := Some (saturating_add_i64 now 300)\<rparr>
      \<in> set (snd (claim_webhook d now rows))"
    using True assms by (auto simp: claim_webhook_def Let_def set_update_where image_iff split: prod.splits if_splits)
  then show ?thesis
    using \<open>reclaimable d now r\<close> by (intro bexI [of _ "r\<lparr>wr_received_at := now, wr_outcome := ''processing'',
      wr_lease_expires_at := Some (saturating_add_i64 now 300)\<rparr>"]) (auto simp: reclaimable_def)
next
  case False
  then show ?thesis
    using assms by (auto simp: claim_webhook_def Let_def split: prod.splits if_splits)
qed

text \<open>
  A webhook delivery is processed once. Once a delivery was accepted or rejected, no later history lets anyone claim it again,
  and while a worker's lease on a delivery runs, a second claim of it is refused.
\<close>

theorem webhook_processed_once:
  assumes "receipts_ok rows"
  shows "(settled_receipt d rows \<longrightarrow> fst (claim_webhook d now (foldl webhook_step rows actions)) \<noteq> Inr Claimed) \<and>
    (fst (claim_webhook d now rows) = Inr Claimed \<and> later < saturating_add_i64 now 300 \<longrightarrow>
       fst (claim_webhook d later (snd (claim_webhook d now rows))) \<noteq> Inr Claimed)"
proof (intro conjI impI)
  assume "settled_receipt d rows"
  then obtain r where "r \<in> set (foldl webhook_step rows actions)" "delivery_of r = d" "wr_outcome r \<in> {''accepted'', ''rejected''}"
    using settled_history [of d rows actions] by (auto simp: settled_receipt_def)
  then show "fst (claim_webhook d now (foldl webhook_step rows actions)) \<noteq> Inr Claimed"
    by (intro not_claimed_when_present [OF webhooks.run_inv [OF assms]]) (auto simp: reclaimable_def)
next
  assume claim: "fst (claim_webhook d now rows) = Inr Claimed \<and> later < saturating_add_i64 now 300"
  obtain r where "r \<in> set (snd (claim_webhook d now rows))" "delivery_of r = d" "wr_lease_expires_at r = Some (saturating_add_i64 now 300)"
    using claim claimed_row by blast
  then show "fst (claim_webhook d later (snd (claim_webhook d now rows))) \<noteq> Inr Claimed"
    using claim webhook_step_ok [OF assms, of "ClaimWebhook d now"]
    by (intro not_claimed_when_present) (auto simp: reclaimable_def)
qed

definition sample_receipts :: "receipt_row list" where
  "sample_receipts = foldl webhook_step [] [ClaimWebhook (''p'', ''POST /e'', ''e1'') 10, CompleteWebhook (''p'', ''POST /e'', ''e1'') ''accepted'']"

theorem webhook_processed_once_witness:
  "fst (claim_webhook (''p'', ''POST /e'', ''e1'') 1000 (foldl webhook_step sample_receipts [ReleaseWebhook (''p'', ''POST /e'', ''e1'')])) \<noteq> Inr Claimed \<and>
   fst (claim_webhook (''p'', ''POST /e'', ''e2'') 10 sample_receipts) = Inr Claimed \<and>
   fst (claim_webhook (''p'', ''POST /e'', ''e2'') 309 (snd (claim_webhook (''p'', ''POST /e'', ''e2'') 10 sample_receipts))) \<noteq> Inr Claimed"
proof -
  have ok: "receipts_ok sample_receipts" unfolding sample_receipts_def by (rule webhooks.run_inv) (simp add: receipts_ok_def)
  have "list_ex (\<lambda>r. delivery_of r = (''p'', ''POST /e'', ''e1'') \<and> wr_outcome r = ''accepted'') sample_receipts" by code_simp
  then have settled: "settled_receipt (''p'', ''POST /e'', ''e1'') sample_receipts" by (auto simp: settled_receipt_def list_ex_iff)
  have claim: "fst (claim_webhook (''p'', ''POST /e'', ''e2'') 10 sample_receipts) = Inr Claimed" by code_simp
  have "(309 :: int) < saturating_add_i64 10 300" by code_simp
  with claim settled webhook_processed_once [OF ok, of "(''p'', ''POST /e'', ''e1'')" 1000 "[ReleaseWebhook (''p'', ''POST /e'', ''e1'')]"]
    webhook_processed_once [OF ok, of "(''p'', ''POST /e'', ''e2'')" 10 "[]" 309]
  show ?thesis by blast
qed

section \<open>Transport cursors\<close>

record cursor_row =
  tc_plugin_id :: string
  tc_cursor_value :: string
  tc_updated_at :: int

definition set_cursor :: "string \<Rightarrow> string \<Rightarrow> int \<Rightarrow> cursor_row list \<Rightarrow> cursor_row list" where
  "set_cursor plugin_id cursor_value at_time rows =
    (if list_ex (\<lambda>r. tc_plugin_id r = plugin_id) rows
     then update_where (\<lambda>r. tc_plugin_id r = plugin_id) (\<lambda>r. r\<lparr>tc_cursor_value := cursor_value, tc_updated_at := at_time\<rparr>) rows
     else rows @ [\<lparr>tc_plugin_id = plugin_id, tc_cursor_value = cursor_value, tc_updated_at = at_time\<rparr>])"

definition get_cursor :: "string \<Rightarrow> cursor_row list \<Rightarrow> string option" where
  "get_cursor plugin_id rows = map_option tc_cursor_value (find (\<lambda>r. tc_plugin_id r = plugin_id) rows)"

lemma get_set_cursor: "get_cursor p (set_cursor q v t rows) = (if p = q then Some v else get_cursor p rows)"
proof -
  have other: "p \<noteq> q \<Longrightarrow> find (\<lambda>r. tc_plugin_id r = p) (update_where (\<lambda>r. tc_plugin_id r = q) (\<lambda>r. r\<lparr>tc_cursor_value := v, tc_updated_at := t\<rparr>) rows) =
      find (\<lambda>r. tc_plugin_id r = p) rows"
    by (induction rows) auto
  have same: "list_ex (\<lambda>r. tc_plugin_id r = q) rows \<Longrightarrow> map_option tc_cursor_value
      (find (\<lambda>r. tc_plugin_id r = q) (update_where (\<lambda>r. tc_plugin_id r = q) (\<lambda>r. r\<lparr>tc_cursor_value := v, tc_updated_at := t\<rparr>) rows)) = Some v"
    by (induction rows) auto
  have none: "\<not> list_ex (\<lambda>r. tc_plugin_id r = q) rows \<Longrightarrow> find (\<lambda>r. tc_plugin_id r = q) rows = None"
    by (induction rows) auto
  show ?thesis
    using other same none by (auto simp: set_cursor_def get_cursor_def find_append split: option.split)
qed

end
