(* ===== verification/Trust_Config.thy ===== *)
theory Trust_Config
  imports Text_Parsing "HOL-Library.AList"
begin

text \<open>
  The operator's trust policy (\<open>crates/core/src/trust_policy.rs\<close>) over the key-value tables of \<open>crates/core/src/config.rs\<close>: validation,
  the write of the six keys and the read with its defaults; what is read after a write.

  A table is an association list with its keys in the order of insertion. A write of one key does not fail in the model; the statements of a
  policy write are separate transactions of the source.
\<close>

section \<open>Key-value tables\<close>

datatype ConfigTable = TableTrustPolicy | AlertRouting | ResearchQuota | RuntimeSettings

fun ConfigTable_name :: "ConfigTable \<Rightarrow> string" where
  "ConfigTable_name TableTrustPolicy = ''config_trust_policy''"
| "ConfigTable_name AlertRouting = ''config_alert_routing''"
| "ConfigTable_name ResearchQuota = ''config_research_quota''"
| "ConfigTable_name RuntimeSettings = ''config_runtime_settings''"

type_synonym kv_store = "ConfigTable \<Rightarrow> (string \<times> string) list"

definition kv_set :: "ConfigTable \<Rightarrow> string \<Rightarrow> string \<Rightarrow> kv_store \<Rightarrow> kv_store" where
  "kv_set t key v s = s(t := AList.update key v (s t))"

definition kv_get :: "ConfigTable \<Rightarrow> string \<Rightarrow> kv_store \<Rightarrow> string option" where
  "kv_get t key s = map_of (s t) key"

lemma kv_get_set [simp]: "kv_get t k (kv_set t' k' v s) = (if t = t' \<and> k = k' then Some v else kv_get t k s)"
  by (auto simp: kv_get_def kv_set_def update_conv')

section \<open>The policy\<close>

datatype MinTrustHint = Contact | Colleague | Organization

fun MinTrustHint_as_str :: "MinTrustHint \<Rightarrow> string" where
  "MinTrustHint_as_str Contact = ''Contact''"
| "MinTrustHint_as_str Colleague = ''Colleague''"
| "MinTrustHint_as_str Organization = ''Organization''"

definition MinTrustHint_parse :: "string \<Rightarrow> MinTrustHint option" where
  "MinTrustHint_parse s = (if s = ''Contact'' then Some Contact else if s = ''Colleague'' then Some Colleague
     else if s = ''Organization'' then Some Organization else None)"

interpretation min_trust_hint: wire_enum MinTrustHint_as_str MinTrustHint_parse
proof
  show "MinTrustHint_parse (MinTrustHint_as_str x) = Some x" for x by (cases x) (simp_all add: MinTrustHint_parse_def)
  show "MinTrustHint_parse s = Some x \<Longrightarrow> MinTrustHint_as_str x = s" for s x by (auto simp: MinTrustHint_parse_def split: if_splits)
qed

datatype MixedTrustPolicy = MinWins

fun MixedTrustPolicy_as_str :: "MixedTrustPolicy \<Rightarrow> string" where
  "MixedTrustPolicy_as_str MinWins = ''min_wins''"

definition MixedTrustPolicy_parse :: "string \<Rightarrow> MixedTrustPolicy option" where
  "MixedTrustPolicy_parse s = (if s = ''min_wins'' then Some MinWins else None)"

interpretation mixed_trust_policy: wire_enum MixedTrustPolicy_as_str MixedTrustPolicy_parse
proof
  show "MixedTrustPolicy_parse (MixedTrustPolicy_as_str x) = Some x" for x by (cases x) (simp add: MixedTrustPolicy_parse_def)
  show "MixedTrustPolicy_parse s = Some x \<Longrightarrow> MixedTrustPolicy_as_str x = s" for s x by (auto simp: MixedTrustPolicy_parse_def split: if_splits)
qed

datatype AutoTrustClass = KnownLimited | KnownTrusted

fun AutoTrustClass_as_str :: "AutoTrustClass \<Rightarrow> string" where
  "AutoTrustClass_as_str KnownLimited = ''KnownLimited''"
| "AutoTrustClass_as_str KnownTrusted = ''KnownTrusted''"

definition AutoTrustClass_parse :: "string \<Rightarrow> AutoTrustClass option" where
  "AutoTrustClass_parse s = (if s = ''KnownLimited'' then Some KnownLimited else if s = ''KnownTrusted'' then Some KnownTrusted else None)"

interpretation auto_trust_class: wire_enum AutoTrustClass_as_str AutoTrustClass_parse
proof
  show "AutoTrustClass_parse (AutoTrustClass_as_str x) = Some x" for x by (cases x) (simp_all add: AutoTrustClass_parse_def)
  show "AutoTrustClass_parse s = Some x \<Longrightarrow> AutoTrustClass_as_str x = s" for s x by (auto simp: AutoTrustClass_parse_def split: if_splits)
qed

record TrustPolicy =
  auto_trust_contacts :: bool
  min_trust_hint_for_auto_trust :: MinTrustHint
  auto_trust_class :: AutoTrustClass
  mixed_trust_policy :: MixedTrustPolicy
  identity_plugin_order :: "string list"
  delegated_trust_default_ttl :: string

definition TrustPolicy_defaults :: TrustPolicy where
  "TrustPolicy_defaults = \<lparr>auto_trust_contacts = True, min_trust_hint_for_auto_trust = Contact, auto_trust_class = KnownLimited,
     mixed_trust_policy = MinWins, identity_plugin_order = [], delegated_trust_default_ttl = ''7d''\<rparr>"

text \<open>\<open>TrustPolicyError::Invalid\<close> with the fixed part of its message.\<close>

datatype TrustPolicyError = Invalid string

text \<open>\<open>validate_ttl\<close>: None is the panic of \<open>split_at\<close> inside a multi-byte character.\<close>

definition validate_ttl :: "string \<Rightarrow> (TrustPolicyError + unit) option" where
  "validate_ttl s0 =
    (let s = rust_trim s0 in
     if s = [] then Some (Inl (Invalid ''delegated_trust_default_ttl must be non-empty''))
     else if utf8_cont (last s) then None
     else (let num = butlast s; u = [last s] in
       if u \<notin> {''s'', ''m'', ''h'', ''d''} then Some (Inl (Invalid ''delegated_trust_default_ttl unit must be one of s/m/h/d''))
       else if num = [] \<or> parse_u64 num = None then Some (Inl (Invalid ''delegated_trust_default_ttl numeric prefix must parse''))
       else Some (Inr ())))"

definition write_keys :: "TrustPolicy \<Rightarrow> kv_store \<Rightarrow> kv_store" where
  "write_keys p s =
    (let s1 = kv_set TableTrustPolicy ''auto_trust_contacts'' (if auto_trust_contacts p then ''true'' else ''false'') s;
         s2 = kv_set TableTrustPolicy ''min_trust_hint_for_auto_trust'' (MinTrustHint_as_str (min_trust_hint_for_auto_trust p)) s1;
         s3 = kv_set TableTrustPolicy ''auto_trust_class'' (AutoTrustClass_as_str (auto_trust_class p)) s2;
         s4 = kv_set TableTrustPolicy ''mixed_trust_policy'' (MixedTrustPolicy_as_str (mixed_trust_policy p)) s3;
         s5 = kv_set TableTrustPolicy ''identity_plugin_order'' (join_with (CHR '','') (identity_plugin_order p)) s4 in
     kv_set TableTrustPolicy ''delegated_trust_default_ttl'' (delegated_trust_default_ttl p) s5)"

definition write_policy :: "TrustPolicy \<Rightarrow> kv_store \<Rightarrow> ((TrustPolicyError + unit) \<times> kv_store) option" where
  "write_policy p s =
    (case validate_ttl (delegated_trust_default_ttl p) of
       None \<Rightarrow> None
     | Some (Inl e) \<Rightarrow> Some (Inl e, s)
     | Some (Inr _) \<Rightarrow>
        (if list_ex (\<lambda>i. CHR '','' \<in> set i) (identity_plugin_order p)
         then Some (Inl (Invalid ''identity_plugin_order entries must not contain commas''), s)
         else Some (Inr (), write_keys p s)))"

text \<open>A value that is absent or does not parse leaves the default.\<close>

definition override :: "'a \<Rightarrow> (string \<Rightarrow> 'a option) \<Rightarrow> string option \<Rightarrow> 'a" where
  "override dflt parse v = (case v of None \<Rightarrow> dflt | Some s \<Rightarrow> (case parse s of Some x \<Rightarrow> x | None \<Rightarrow> dflt))"

definition parse_order :: "string \<Rightarrow> string list" where
  "parse_order v = filter (\<lambda>s. s \<noteq> []) (map rust_trim (split_on (CHR '','') v))"

definition read_policy :: "kv_store \<Rightarrow> TrustPolicy" where
  "read_policy s =
    (let d = TrustPolicy_defaults; get = (\<lambda>k. kv_get TableTrustPolicy k s) in
     \<lparr>auto_trust_contacts = override (auto_trust_contacts d) (\<lambda>v. Some (v = ''true'')) (get ''auto_trust_contacts''),
      min_trust_hint_for_auto_trust = override (min_trust_hint_for_auto_trust d) MinTrustHint_parse (get ''min_trust_hint_for_auto_trust''),
      auto_trust_class = override (auto_trust_class d) AutoTrustClass_parse (get ''auto_trust_class''),
      mixed_trust_policy = override (mixed_trust_policy d) MixedTrustPolicy_parse (get ''mixed_trust_policy''),
      identity_plugin_order = override (identity_plugin_order d) (\<lambda>v. Some (parse_order v)) (get ''identity_plugin_order''),
      delegated_trust_default_ttl = override (delegated_trust_default_ttl d) (\<lambda>v. if rust_trim v = [] then None else Some v)
        (get ''delegated_trust_default_ttl'')\<rparr>)"

section \<open>Reading what was written\<close>

lemma validate_ttl_ok: "validate_ttl s = Some (Inr ()) \<Longrightarrow> rust_trim s \<noteq> []"
  by (auto simp: validate_ttl_def Let_def split: if_splits)

lemma parse_join_order:
  assumes "\<not> list_ex (\<lambda>i. CHR '','' \<in> set i) ids"
  shows "parse_order (join_with (CHR '','') ids) = filter (\<lambda>s. s \<noteq> []) (map rust_trim ids)"
proof (cases "ids = []")
  case True
  then show ?thesis by (simp add: parse_order_def rust_trim_def)
next
  case False
  then have "split_on (CHR '','') (join_with (CHR '','') ids) = ids"
    using assms by (intro split_join) (auto simp: list_ex_iff)
  then show ?thesis by (simp add: parse_order_def)
qed

text \<open>
  A policy that was written is read back, with the plugin order trimmed and without blank entries; a policy that is refused
  changes nothing; other tables keep their values.
\<close>

theorem trust_policy_roundtrip:
  assumes "write_policy p s = Some (result, s')"
  shows "case result of
     Inl _ \<Rightarrow> s' = s
   | Inr _ \<Rightarrow> read_policy s' = p\<lparr>identity_plugin_order := filter (\<lambda>i. i \<noteq> []) (map rust_trim (identity_plugin_order p))\<rparr> \<and>
       (\<forall>t k. t \<noteq> TableTrustPolicy \<longrightarrow> kv_get t k s' = kv_get t k s)"
proof (cases result)
  case (Inl e)
  then show ?thesis using assms by (auto simp: write_policy_def split: option.splits sum.splits if_splits)
next
  case (Inr u)
  then have ttl: "validate_ttl (delegated_trust_default_ttl p) = Some (Inr ())" and ids: "\<not> list_ex (\<lambda>i. CHR '','' \<in> set i) (identity_plugin_order p)"
    and s': "s' = write_keys p s"
    using assms by (auto simp: write_policy_def split: option.splits sum.splits if_splits)
  have "auto_trust_contacts (read_policy s') = auto_trust_contacts p"
    "min_trust_hint_for_auto_trust (read_policy s') = min_trust_hint_for_auto_trust p" "auto_trust_class (read_policy s') = auto_trust_class p"
    "mixed_trust_policy (read_policy s') = mixed_trust_policy p"
    "identity_plugin_order (read_policy s') = filter (\<lambda>i. i \<noteq> []) (map rust_trim (identity_plugin_order p))"
    "delegated_trust_default_ttl (read_policy s') = delegated_trust_default_ttl p"
    using validate_ttl_ok [OF ttl] parse_join_order [OF ids]
    by (simp_all add: s' read_policy_def write_keys_def override_def Let_def min_trust_hint.parse_as_str auto_trust_class.parse_as_str
        mixed_trust_policy.parse_as_str)
  moreover have "kv_get t k s' = kv_get t k s" if "t \<noteq> TableTrustPolicy" for t k using that by (simp add: s' write_keys_def Let_def)
  ultimately show ?thesis using Inr by simp
qed

definition sample_policy :: TrustPolicy where
  "sample_policy = TrustPolicy_defaults\<lparr>auto_trust_contacts := False, min_trust_hint_for_auto_trust := Colleague,
     identity_plugin_order := [''plugin-a'', '' plugin-b ''], delegated_trust_default_ttl := ''12h''\<rparr>"

theorem trust_policy_roundtrip_witness:
  "\<exists>s'. write_policy sample_policy (\<lambda>_. []) = Some (Inr (), s') \<and> auto_trust_contacts (read_policy s') = False \<and>
     identity_plugin_order (read_policy s') = [''plugin-a'', ''plugin-b'']"
proof -
  have "validate_ttl ''12h'' = Some (Inr ())" by code_simp
  then have w: "write_policy sample_policy (\<lambda>_. []) = Some (Inr (), write_keys sample_policy (\<lambda>_. []))"
    by (simp add: write_policy_def sample_policy_def)
  have "filter (\<lambda>i. i \<noteq> []) (map rust_trim [''plugin-a'', '' plugin-b '']) = [''plugin-a'', ''plugin-b'']" by code_simp
  then show ?thesis using trust_policy_roundtrip [OF w] w by (auto simp: sample_policy_def)
qed

text \<open>A lifetime that ends in a character outside ASCII panics.\<close>

lemma validate_ttl_panics: "validate_ttl (''7'' @ [CHR 0xD0, CHR 0xB4]) = None"
  by code_simp

end
