(* ===== verification/Spec2Isabelle.thy ===== *)
theory Spec2Isabelle
  imports Chat_Request_Properties Turn_Control_Properties Automation_Bus_Properties Tool_Access History_Budget Retention
    Freshness_Properties Ownership_Properties Scheduler Transition_Model Policy Guard_Properties Relay_Properties
    Run_Properties Tool_Execution_Properties Child_Properties Completion_Properties Manifest_Properties
    Context_Properties Endpoint_Properties Conversation_Properties Reply_Draft_Properties Refresh_Tokens Webhook_Receipts Trust_Config
begin

text \<open>
  \<^bold>\<open>Verification of execlaw\<close>, a self-hosted agent runtime (\<open>src/crates\<close>).

  The program records everything that happens in a conversation in a tamper-evident event log, sends effects to the outside world through
  a transactional outbox that a relay drains, fires scheduled wakeups, lets an operator take over a recipient
  from an agent, and decides by policy what a turn may do and what content may pass. This development
  models that core and proves what it promises. The theories follow the source files; each opens with what it holds.

  \<^bold>\<open>Foundations.\<close>
  \<^item> \<open>Prelude\<close>: integers, decimal and little-endian encodings, UTF-8 text and string search as Rust's standard library has
    them, updates and selections of tables, and the interfaces \<open>wire_enum\<close> (an enumeration and its stored text), \<open>prefix_code\<close> (uniquely readable
    fields) and \<open>invariant_machine\<close> (a step function and an invariant).
  \<^item> \<open>Db\<close>: the error type and the transaction of \<open>core/src/db.rs\<close>, the tables that the stores read and write
    (\<open>core/migrations\<close>), as lists of records, and the identifiers of \<open>core/src/ids.rs\<close>.

  \<^bold>\<open>The event log\<close> (\<open>core/src/events.rs\<close>, \<open>core/src/event_hmac.rs\<close>).
  \<^item> \<open>Event_Kind\<close>, \<open>Events\<close>: event kinds, the versioned payload envelope, records, and the pairing of tool calls with results.
  \<^item> \<open>Event_Hmac\<close>: the signed byte strings and what they determine; a NUL byte may be moved between actor and payload.
  \<^item> \<open>Event_Log\<close>: key ring, integrity rows and heads, verification, \<open>append\<close>, \<open>replay_since\<close>, \<open>commit_turn\<close> with its projection and the
    release of staged sends, checkpoints.
  \<^item> \<open>Event_Chain\<close>, \<open>Tamper\<close>: what one keyed write does to a verified chain; two verified chains with one head agree
    in everything their signatures fix.
  \<^item> \<open>Event_Properties\<close>: append and replay, commit and replay, tamper evidence, key rotation, refusal of tampered conversations, round trips.
  \<^item> \<open>Event_Freshness\<close>, \<open>Freshness_Properties\<close>: manifests of signed heads kept outside the database, the back-fill of legacy tags, snapshots; a
    match means the same signed history, a comparison is exact, hydration equals replay.

  \<^bold>\<open>Effects\<close> (\<open>core/src/outbox.rs\<close>, \<open>core/src/job_redrive.rs\<close>, \<open>crates/outbox/src\<close>, \<open>core/src/agent_ownership.rs\<close>).
  \<^item> \<open>Outbox\<close>, \<open>Outbox_Machine\<close>, \<open>Outbox_Properties\<close>: the store, its operations as actions of an \<open>invariant_machine\<close>, at-most-once enqueueing,
    leases (they last until their end or until an attempt is settled; settling is not fenced by the owner), unknown outcomes, timelines, redrive.
  \<^item> \<open>Relay\<close>, \<open>Relay_Properties\<close>: dispatchers behind the interface \<open>sink\<close>, one pass of the drain loop, backoff; a pass settles every row it lists and
    retries exactly where the attempt has shown that to be safe.
  \<^item> \<open>Scheduler\<close>: the heap of wakeups and the scheduler task as a step relation; no wakeup is slept through.
  \<^item> \<open>Ownership\<close>, \<open>Ownership_Properties\<close>: takeover, hand-back and operator actions; a takeover fences earlier automatic sends.
  \<^item> \<open>Transition_Model\<close>: the source's own bounded model of runs, approvals, leases and effects
    (\<open>core/src/transition_model.rs\<close>); its checker terminates and explores exactly the reachable states, and every trace of any
    length is safe.

  \<^bold>\<open>Requests, controls and external signals\<close> (\<open>core/src/chat_requests.rs\<close>, \<open>turn_controls.rs\<close>, \<open>automation_bus.rs\<close>). Each store keeps
  its own tables as its state.
  \<^item> \<open>Chat_Requests\<close>, \<open>Chat_Request_Properties\<close>: reservations of client request identifiers, saved responses and their recovery; one start per
    identifier, exact replay, fencing of stale reservations.
  \<^item> \<open>Turn_Controls\<close>, \<open>Turn_Control_Properties\<close>: steering and stop controls; the log of a control is its history, one delivery claim, idempotent
    submission.
  \<^item> \<open>Automation_Bus\<close>, \<open>Automation_Bus_Properties\<close>: the inbox of external events; the table operations refine the steps of a single event, leases are
    exclusive, an accepted event is completed at most once, failures are bounded, the recovery scan is exact.

  \<^bold>\<open>Durable runs\<close> (\<open>core/src/runs.rs\<close>, \<open>tool_execution.rs\<close>, \<open>completion_evidence.rs\<close>, \<open>information_store.rs\<close>). The state is the
  record \<open>run_db\<close>: the tables of \<open>Db\<close> and the tables of the run store.
  \<^item> \<open>Run_State\<close>, \<open>Run_Budgets\<close>, \<open>Runs\<close>: the tables with their status enumerations, execution budgets and the durable clock, and the operations
    on runs and steps: creation, leases, waits, the cursor, completion, cancellation of a subtree, failure, recovery.
  \<^item> \<open>Run_Machine\<close>, \<open>Run_Properties\<close>: the operations as actions of an \<open>invariant_machine\<close>; the invariant of every history, exclusive step
    leases, final runs, cancellation of exactly the unfinished part of a subtree, effects enqueued once, recovery.
  \<^item> \<open>Tool_Execution\<close>, \<open>Tool_Execution_Properties\<close>: invocations, attempts, retry budgets and the circuit breaker of an integration; quotas hold
    in every history, a circuit admits one probe.
  \<^item> \<open>Child_Tasks\<close>, \<open>Child_Reservations\<close>, \<open>Child_Machine\<close>, \<open>Child_Properties\<close>: the dependency cycle check, the reservation and settlement of a
    child's share of the parent's budget; the account adds up, reservations fit the limits, the graph stays acyclic.
  \<^item> \<open>Completion_Evidence\<close>, \<open>Run_Completion\<close>, \<open>Completion_Machine\<close>, \<open>Completion_Properties\<close>: completion contracts, the evidence behind a
    verification, the report and the fork of a run; a run is reported complete exactly on persisted evidence, and its terms never change.
  \<^item> \<open>Run_Manifests\<close>, \<open>Manifest_Properties\<close>: the canonical hash of a tool schema (\<open>core/src/tool.rs\<close>), the inputs that a run records and the pins of
    its tools; the hash ignores the order of members, recorded inputs stay.
  \<^item> \<open>Information_Store\<close>: the append-only table of information labels that runs observe.

  \<^bold>\<open>History\<close> (\<open>core/src/history_budget.rs\<close>, \<open>retention.rs\<close>, \<open>event_retention.rs\<close>, \<open>ephemeral_sweeper.rs\<close>).
  \<^item> \<open>History_Budget\<close>: the window of messages a prompt gets is the longest admitted suffix, and grows with the budget.
  \<^item> \<open>Retention\<close>: what a pass leaves alone, and, together with the event log, that a pass which deletes chained events closes the
    conversation.

  \<^bold>\<open>Policy\<close> (\<open>crates/policy/src\<close>, \<open>core/src/information.rs\<close>, \<open>core/src/tool_access.rs\<close>).
  \<^item> \<open>Policy\<close>: trust, capabilities, the evaluation of a turn, the rule of two, sideband transports.
  \<^item> \<open>Information\<close>: information labels and their join, which is the intersection of the input patterns where stars are last characters
    (interface \<open>restriction_join\<close>), and loses no common destination in general.
  \<^item> \<open>Tool_Access\<close>: registered tools and the operator's policy; the policy in force is the newest revision, rollback restores a revision exactly.
  \<^item> \<open>Guards\<close>, \<open>Guard_Properties\<close>: input filters, delimiters around untrusted content, outbound inspection.

  \<^bold>\<open>Conversations, groups and drafts\<close> (\<open>core/src/conversation.rs\<close>, \<open>principal_groups.rs\<close>, \<open>reply_drafts.rs\<close>, \<open>crates/session/src\<close>).
  \<^item> \<open>Conversations\<close>, \<open>Conversation_Properties\<close>: conversation rows with kind, phase and metadata, and the session state machine; rows are read as
    written, a turn does not touch the metadata, the operator's name of a conversation stays.
  \<^item> \<open>Principal_Groups\<close>: resolution of participants to a group and the membership epoch; resolution is stable, an equal epoch means equal members.
  \<^item> \<open>Reply_Drafts\<close>, \<open>Reply_Draft_Properties\<close>: proposals for review; what is approved is what was reviewed, an accepted audience is the recorded one.

  \<^bold>\<open>Model context\<close> (\<open>crates/context-window/src\<close>, messages of \<open>crates/inference-api/src\<close>).
  \<^item> \<open>Context_Window\<close>, \<open>Context_Properties\<close>: trimming policies and the fitting of a request; exactly the oldest turns go, no more than needed.

  \<^bold>\<open>Network policy\<close> (\<open>crates/local-endpoint-policy/src\<close>).
  \<^item> \<open>Endpoint_Policy\<close>, \<open>Endpoint_Properties\<close>: public destinations and local endpoints; an accepted destination is pinned to checked addresses,
    without proxy and redirects.

  \<^bold>\<open>Sign-in, webhooks and settings\<close> (\<open>core/src/refresh_tokens.rs\<close>, \<open>webhook_receipts.rs\<close>, \<open>transport_cursor.rs\<close>, \<open>trust_policy.rs\<close>, \<open>config.rs\<close>).
  \<^item> \<open>Refresh_Tokens\<close>: a token works once, a revocation is final. \<open>Webhook_Receipts\<close>: a delivery is processed once. \<open>Trust_Config\<close>: the
    settings of the trust policy are read as written.

  \<open>Text_Parsing\<close> and \<open>Json_Value\<close> hold the parsing of numbers, splitting and joining of text, and JSON values, which several of them share.

  This theory joins the log with the outbox and the relay: a commit makes exactly the staged sends due whose key names the source
  number of the commit (the newest active run, or the newest user message) and one of its tool calls, and a fired wakeup appends exactly one event to its conversation.

  \<^bold>\<open>Conventions.\<close> A store operation takes the readings of the clock and the database and returns an error or a value with the new
  database; an operation that runs in \<open>Database::transaction\<close> leaves the database unchanged on an error. Identifiers, sequence numbers and times
  are integers; the wrap-around or saturation of the source is written out where a value can reach it (lease ends, backoff, lengths in
  signed bytes). Byte strings and UTF-8 text are character lists. Error messages keep their text without the interpolated values.

  \<^bold>\<open>Parameters.\<close> Code outside the repository is an argument of the definitions: HMAC-SHA-256 (\<open>hmac\<close>, with the length of its tags as the
  hypothesis \<open>mac32\<close> and, for tamper evidence, injectivity on the finitely many messages of the two stores compared), SHA-256 in hexadecimal,
  MessagePack (\<open>msgpack\<close>, with its round trip), JSON, the encoding of class lists (\<open>classes_json\<close>, with its round trip), fresh UUIDs, the dispatchers of plugins and the world they act on (\<open>well_behaved\<close>), and the
  snapshot codec. For durable runs: the JSON library for values and lists of strings (\<open>json\<close>, \<open>deps_json\<close>), the encodings of contracts
  (\<open>contract_json\<close>), the files and payload decoders that evidence is read from (\<open>evidence_env\<close>) and the texts of JSON scalars and keys
  (\<open>canonical_env\<close>). For the other groups: the URL parser (\<open>url_lib\<close>), the address blocks (\<open>net_lib\<close>, with the meaning of the listed blocks as the
  hypothesis \<open>net_lib_ok\<close>), the HTTP client (\<open>client_lib\<close>), the resolver, the size of serialized requests, and JSON in drafts (\<open>draft_json\<close>).
  Each property with such a hypothesis has an instance with concrete functions (\<open>sample_mac\<close>, \<open>sample_msgpack\<close>, \<open>sample_json\<close>,
  \<open>ok_sink\<close>).

  \<^bold>\<open>Loops and bounds.\<close> Every loop of the source that is modelled is a total function: structural recursion on the rows or events it visits, or a
  measure (the unseen states of the exploration, the remaining heap or text, the unvisited nodes of a dependency graph, the runs not yet in a
  cancelled subtree, the messages of a request that is trimmed). No fuel is used. The endless tasks are a step relation
  (\<open>Scheduler\<close>) and single passes (\<open>Relay\<close>, \<open>Retention\<close>, \<open>Automation_Bus\<close>).

  \<^bold>\<open>Not modelled.\<close> SQLite itself, its errors other than constraint violations and missing rows, the bounded executor and the metrics of \<open>db.rs\<close>;
  failing conversions between \<open>u64\<close> and \<open>i64\<close> at the border of the database; logging; the sleeping loops around a drain or retention pass; the
  full-text projection of events; the deletion of a conversation, which runs over some thirty tables; and the other
  crates: the HTTP server, the command line, the plugin host, scripting, the local runner, inference and the stores of \<open>core\<close> that are not
  named above.
\<close>

section \<open>Event log and outbox: staged sends\<close>

text \<open>A send that a tool staged: pending, but not due before the end of time.\<close>

definition staged :: "outbox_row \<Rightarrow> bool" where
  "staged r \<longleftrightarrow> ob_status r = ''pending'' \<and> ob_next_attempt_at r = Some i64_max \<and>
     ob_effect_kind r \<in> {''transport.send'', ''transport.send_attachments''}"

lemma staged_not_ready: "staged r \<Longrightarrow> now < i64_max \<Longrightarrow> \<not> is_ready now r"
  by (simp add: staged_def is_ready_def)

lemma find_outbox_release:
  "find_outbox i (release_key k db) =
   map_option (\<lambda>r. if staged r \<and> ob_idempotency_key r = k then r\<lparr>ob_next_attempt_at := None\<rparr> else r) (find_outbox i db)"
proof -
  have "release_key k db = update_outbox (\<lambda>r. staged r \<and> ob_idempotency_key r = k) (\<lambda>r. r\<lparr>ob_next_attempt_at := None\<rparr>) db"
    by (simp add: release_key_def update_outbox_def staged_def conj_ac)
  then show ?thesis by (simp add: find_outbox_update)
qed

lemma not_staged_released: "\<not> staged (r\<lparr>ob_next_attempt_at := None\<rparr>)"
  by (simp add: staged_def)

lemma find_outbox_release_all:
  "find_outbox i (fold (\<lambda>n. release_key (k n)) ns db) =
   map_option (\<lambda>r. if staged r \<and> ob_idempotency_key r \<in> k ` set ns then r\<lparr>ob_next_attempt_at := None\<rparr> else r) (find_outbox i db)"
proof (induction ns arbitrary: db)
  case Nil
  then show ?case by (simp add: option.map_ident)
next
  case (Cons n ns)
  then show ?case
    by (cases "find_outbox i db") (auto simp: find_outbox_release not_staged_released)
qed

lemma insert_unsigned_frame:
  "insert_unsigned evs db = Inr db1 \<Longrightarrow> state_outbox db1 = state_outbox db \<and> state_runs db1 = state_runs db"
  by (induction evs arbitrary: db) (auto simp: insert_event_row_def split: sum.splits if_splits)

lemma chain_events_frame:
  "chain_events hmac ring key c evs h db = Inr (h', db1) \<Longrightarrow> state_outbox db1 = state_outbox db \<and> state_runs db1 = state_runs db"
proof (induction evs arbitrary: db h)
  case (Cons ev evs)
  then show ?case
    by (auto simp: chain_event_def insert_event_row_def Let_def split: sum.splits if_splits)
qed simp

lemma mem_map_filter: "y \<in> set (List.map_filter f xs) \<longleftrightarrow> Some y \<in> f ` set xs"
  by (induction xs) (auto simp: List.map_filter_simps split: option.splits)

text \<open>What a successful commit does to the outbox: nothing, or the release of staged sends.\<close>

lemma commit_turn_outbox:
  assumes "commit_turn mp hmac ring now now_head c since evs db = (Inr done, db')"
  obtains db1 out where "enforce_tool_pairing mp now c since evs = Inr out" "done = shift_events (last_seq db c) since out"
    "state_outbox db1 = state_outbox db" "state_runs db1 = state_runs db"
    "db' = (if list_ex (\<lambda>ev. kind ev = ToolResult) out then release_staged_transport_effects mp c done db1 else db1)"
proof -
  obtain out where out: "enforce_tool_pairing mp now c since evs = Inr out"
    and tx: "commit_tx mp hmac ring now_head c since (\<lambda>_ db. Inr db) out db = Inr (done, db')"
    using assms by (auto simp: commit_turn_def commit_turn_with_projection_def transaction_Inr_iff split: sum.splits)
  note tx = tx [unfolded commit_tx_def Let_def commit_tx_tail]
  show ?thesis
  proof (cases ring)
    case None
    with tx obtain db1 where "insert_unsigned (shift_events (last_seq db c) since out) db = Inr db1"
      "done = shift_events (last_seq db c) since out"
      "db' = (if list_ex (\<lambda>ev. kind ev = ToolResult) out then release_staged_transport_effects mp c done db1 else db1)"
      by (auto split: if_splits sum.splits)
    then show ?thesis using that out insert_unsigned_frame by blast
  next
    case (Some rg)
    with tx obtain key h h' db1 where "chain_events hmac rg key c (shift_events (last_seq db c) since out) h db = Inr (h', db1)"
      "done = shift_events (last_seq db c) since out"
      "db' = (if list_ex (\<lambda>ev. kind ev = ToolResult) out
        then release_staged_transport_effects mp c done (write_integrity_head now_head c h' db1)
        else write_integrity_head now_head c h' db1)"
      by (auto split: if_splits sum.splits option.splits)
    then show ?thesis
      using that [OF out, of "write_integrity_head now_head c h' db1"] chain_events_frame [of hmac rg key c _ h db h' db1] by simp
  qed
qed


text \<open>
  The number under which a commit looks for staged sends, \<open>db\<close> before and \<open>db'\<close> after it: the input of the active run of the conversation
  that was started last (the first by id of several started at the same time), or, with no active run, the newest user message,
  one of the batch included.
\<close>

definition commit_source :: "database \<Rightarrow> database \<Rightarrow> string \<Rightarrow> int \<Rightarrow> bool" where
  "commit_source db db' c source \<longleftrightarrow>
     (let live = {n \<in> set (state_runs db). rn_conversation_id n = c \<and> rn_status n \<in> {''pending'', ''running'', ''waiting''}};
          messages = {e \<in> set (state_events db'). er_conversation_id e = c \<and> er_kind e = ''user_msg''} in
      if live \<noteq> {}
      then \<exists>n \<in> live. rn_input_event_seq n = source \<and> (\<forall>m \<in> live. rn_started_at m < rn_started_at n \<or>
             rn_started_at m = rn_started_at n \<and> rn_run_id n \<le> rn_run_id m)
      else messages \<noteq> {} \<and> source = Max (er_seq ` messages))"

lemma sort_key_twice_first:
  fixes f :: "'a \<Rightarrow> 'b::linorder" and g :: "'a \<Rightarrow> 'c::linorder"
  assumes "sort_key f (sort_key g xs) = x # rest" "y \<in> set xs"
  shows "x \<in> set xs" "f x < f y \<or> f x = f y \<and> g x \<le> g y"
proof -
  let ?ys = "sort_key g xs"
  have "set (x # rest) = set xs" using arg_cong [OF assms(1), of set] by simp
  then show "x \<in> set xs" by auto
  have "sorted (map f (x # rest))" using sorted_sort_key [of f ?ys] by (simp only: assms(1))
  moreover have "y \<in> set (x # rest)" using assms(2) \<open>set (x # rest) = set xs\<close> by simp
  ultimately have le: "f x \<le> f y" by auto
  have zs: "filter (\<lambda>z. f z = f x) ?ys = x # filter (\<lambda>z. f z = f x) rest"
    using sort_key_stable [where f = f and k = "f x" and xs = ?ys] by (simp add: assms(1))
  have "sorted (map g (filter (\<lambda>z. f z = f x) ?ys))" by (rule sorted_filter) simp
  then have least: "g x \<le> g z" if "z \<in> set (filter (\<lambda>z. f z = f x) ?ys)" for z
    using that unfolding zs by auto
  show "f x < f y \<or> f x = f y \<and> g x \<le> g y"
  proof (cases "f y = f x")
    case True
    then have "y \<in> set (filter (\<lambda>z. f z = f x) ?ys)" using assms(2) by simp
    with least True show ?thesis by auto
  qed (use le in auto)
qed

lemma newest_first:
  fixes t :: "'a \<Rightarrow> int" and g :: "'a \<Rightarrow> 'c::linorder"
  assumes "sort_key (\<lambda>r. - t r) (sort_key g xs) = x # rest" "y \<in> set xs"
  shows "t y < t x \<or> t y = t x \<and> g x \<le> g y"
  using sort_key_twice_first(2) [OF assms] by auto

lemma newest_unique:
  fixes t :: "'a \<Rightarrow> int" and g :: "'a \<Rightarrow> 'c::linorder"
  assumes "\<forall>k \<in> S. t k < t m \<or> t k = t m \<and> g m \<le> g k" "\<forall>k \<in> S. t k < t n \<or> t k = t n \<and> g n \<le> g k"
    and "m \<in> S" "n \<in> S" "inj_on g S"
  shows "m = n"
proof -
  have "t n < t m \<or> t n = t m \<and> g m \<le> g n" "t m < t n \<or> t m = t n \<and> g n \<le> g m"
    using assms(1-4) by blast+
  then have "g m = g n" by auto
  then show ?thesis using assms(3-5) by (auto dest: inj_onD)
qed

lemma fold_max_Max: "fold max ss s = Max (set (s # ss))" for s :: int
  by (simp only: Max.set_eq_fold)

lemma latest_user_seq_Max:
  "latest_user_seq db c = (let messages = {e \<in> set (state_events db). er_conversation_id e = c \<and> er_kind e = ''user_msg''} in
     if messages = {} then None else Some (Max (er_seq ` messages)))"
proof -
  let ?ms = "filter (\<lambda>r. er_conversation_id r = c \<and> er_kind r = ''user_msg'') (state_events db)"
  have "latest_user_seq db c = (if ?ms = [] then None else Some (Max (set (map er_seq ?ms))))"
    by (cases ?ms) (simp_all add: latest_user_seq_def fold_max_Max del: set_map)
  then show ?thesis by (simp add: Let_def filter_empty_conv conj_commute)
qed

lemma commit_source_iff:
  assumes "distinct (map rn_run_id (state_runs db))"
  shows "commit_source db db' c source \<longleftrightarrow>
    (case active_run_source db c of Some s \<Rightarrow> Some s | None \<Rightarrow> latest_user_seq db' c) = Some source"
proof -
  let ?live = "filter (\<lambda>r. rn_conversation_id r = c \<and> rn_status r \<in> {''pending'', ''running'', ''waiting''}) (state_runs db)"
  let ?order = "sort_key (\<lambda>r. - rn_started_at r) (sort_key rn_run_id ?live)"
  have live: "{n \<in> set (state_runs db). rn_conversation_id n = c \<and> rn_status n \<in> {''pending'', ''running'', ''waiting''}} = set ?live"
    by simp
  have same: "set ?order = set ?live" by (simp only: set_sort)
  show ?thesis
  proof (cases ?order)
    case Nil
    from same have "set ?live = {}" unfolding Nil by (simp only: list.set)
    then have "commit_source db db' c source \<longleftrightarrow> latest_user_seq db' c = Some source"
      unfolding commit_source_def live latest_user_seq_Max Let_def by (simp only: simp_thms if_False) force
    moreover have "active_run_source db c = None" unfolding active_run_source_def Nil by simp
    ultimately show ?thesis by simp
  next
    case (Cons n rest)
    have "set ?live \<noteq> {}" using same unfolding Cons by (metis list.set_intros(1) empty_iff)
    have mem: "n \<in> set ?live" using same unfolding Cons by (metis list.set_intros(1))
    have first: "\<forall>m \<in> set ?live. rn_started_at m < rn_started_at n \<or> rn_started_at m = rn_started_at n \<and> rn_run_id n \<le> rn_run_id m"
      by (rule ballI) (rule newest_first [OF Cons])
    note n = mem first
    have "inj_on rn_run_id (set ?live)"
      using assms by (auto simp: distinct_map intro: inj_on_subset)
    note only = newest_unique [OF _ n(2) _ n(1) this]
    have "commit_source db db' c source \<longleftrightarrow> (\<exists>m \<in> set ?live. rn_input_event_seq m = source \<and> (\<forall>k \<in> set ?live.
        rn_started_at k < rn_started_at m \<or> rn_started_at k = rn_started_at m \<and> rn_run_id m \<le> rn_run_id k))"
      unfolding commit_source_def live Let_def if_P [OF \<open>set ?live \<noteq> {}\<close>] by (rule refl)
    also have "\<dots> \<longleftrightarrow> rn_input_event_seq n = source"
    proof
      assume "\<exists>m \<in> set ?live. rn_input_event_seq m = source \<and> (\<forall>k \<in> set ?live.
        rn_started_at k < rn_started_at m \<or> rn_started_at k = rn_started_at m \<and> rn_run_id m \<le> rn_run_id k)"
      then obtain m where m: "m \<in> set ?live" "rn_input_event_seq m = source" "\<forall>k \<in> set ?live.
        rn_started_at k < rn_started_at m \<or> rn_started_at k = rn_started_at m \<and> rn_run_id m \<le> rn_run_id k" by (elim bexE conjE)
      show "rn_input_event_seq n = source" using only [OF m(3,1)] m(2) by (simp only:)
    qed (use n in \<open>intro bexI conjI\<close>)
    also have "\<dots> \<longleftrightarrow> (case active_run_source db c of Some s \<Rightarrow> Some s | None \<Rightarrow> latest_user_seq db' c) = Some source"
      unfolding active_run_source_def Cons by simp
    finally show ?thesis .
  qed
qed

text \<open>
  C26: A staged send becomes due exactly when a batch commits that holds its tool call. A successful commit of a batch of conversation
  \<open>c\<close> makes the send with key \<open>mint c source n\<close> due at once if the committed batch holds the tool call with ordinal \<open>n\<close> and \<open>source\<close> is the
  number of this commit (\<open>commit_source\<close>: the input of the newest active run of the conversation, or without one its newest user
  message), and leaves every other staged send as it was, every one of them when the conversation has neither. The commit does not say
  which run made it: of several active runs the newest counts, whoever commits. Run ids are the primary key of their table.
\<close>

theorem commit_releases_staged_sends:
  assumes "commit_turn mp hmac ring now now_head c since evs db = (Inr done, db')" "msgpack_roundtrip mp"
    and "distinct (map rn_run_id (state_runs db))" "find_outbox i db = Some r" "staged r"
  shows "find_outbox i db' = Some (if \<exists>source n. commit_source db db' c source \<and> ob_idempotency_key r = mint c source n \<and>
        Some n \<in> use_ordinal mp ` set done
      then r\<lparr>ob_next_attempt_at := None\<rparr> else r)"
proof -
  obtain db1 out where out: "enforce_tool_pairing mp now c since evs = Inr out" "done = shift_events (last_seq db c) since out"
    and db1: "state_outbox db1 = state_outbox db" "state_runs db1 = state_runs db"
    and db': "db' = (if list_ex (\<lambda>ev. kind ev = ToolResult) out then release_staged_transport_effects mp c done db1 else db1)"
    by (rule commit_turn_outbox [OF assms(1)])
  have "state_events db' = state_events db1" by (simp add: db')
  then have latest: "latest_user_seq db' c = latest_user_seq db1 c" by (simp add: latest_user_seq_def)
  have live: "active_run_source db1 c = active_run_source db c" by (simp add: active_run_source_def db1(2))
  have src: "commit_source db db' c source \<longleftrightarrow>
      (case active_run_source db1 c of Some s \<Rightarrow> Some s | None \<Rightarrow> latest_user_seq db1 c) = Some source" for source
    unfolding commit_source_iff [OF assms(3)] latest live by (rule refl)
  have row: "find_outbox i db1 = Some r" using assms(4) find_outbox_cong [OF db1(1)] by simp
  have views: "use_ordinal mp ` set done = use_ordinal mp ` set out" "result_ordinal mp ` set done = result_ordinal mp ` set out"
    using shift_events_view(3,4) [of mp "last_seq db c" since out] unfolding out(2) by (metis list.set_map)+
  have paired: "Some n \<in> result_ordinal mp ` set done" if "Some n \<in> use_ordinal mp ` set done" for n
    using that enforce_tool_pairing_paired [OF assms(2) out(1), of _ n] unfolding views
    by (metis (no_types, lifting) imageE image_eqI)
  let ?ns = "filter (\<lambda>n. n \<in> set (List.map_filter (result_ordinal mp) done)) (List.map_filter (use_ordinal mp) done)"
  have ns: "n \<in> set ?ns \<longleftrightarrow> Some n \<in> use_ordinal mp ` set done" for n
    using paired [of n] by (auto simp: mem_map_filter)
  show ?thesis
  proof (cases "list_ex (\<lambda>ev. kind ev = ToolResult) out")
    case True
    then have rel: "db' = release_staged_transport_effects mp c done db1" by (simp add: db')
    show ?thesis
    proof (cases "case active_run_source db1 c of Some s \<Rightarrow> Some s | None \<Rightarrow> latest_user_seq db1 c")
      case None
      with src rel row show ?thesis by (simp add: release_staged_transport_effects_def)
    next
      case (Some source)
      with rel have "db' = fold (\<lambda>n. release_key (mint c source n)) ?ns db1"
        by (simp add: release_staged_transport_effects_def mint_def)
      then have "find_outbox i db' = Some (if staged r \<and> ob_idempotency_key r \<in> mint c source ` set ?ns
          then r\<lparr>ob_next_attempt_at := None\<rparr> else r)"
        by (simp add: find_outbox_release_all row)
      moreover have "ob_idempotency_key r \<in> mint c source ` set ?ns \<longleftrightarrow>
          (\<exists>n. ob_idempotency_key r = mint c source n \<and> Some n \<in> use_ordinal mp ` set done)"
        using ns by blast
      ultimately show ?thesis using assms(5) src Some by simp
    qed
  next
    case False
    then have "Some n \<notin> result_ordinal mp ` set out" for n
      by (auto simp: list_ex_iff result_ordinal_def split: if_splits)
    then have "Some n \<notin> use_ordinal mp ` set done" for n using paired views by blast
    with False show ?thesis by (simp add: db' row)
  qed
qed


lemma insert_unsigned_ok:
  "distinct (map seq es) \<Longrightarrow> (\<And>r e. r \<in> set (state_events db) \<Longrightarrow> e \<in> set es \<Longrightarrow> er_seq r \<noteq> seq e) \<Longrightarrow>
   \<exists>db1. insert_unsigned es db = Inr db1"
proof (induction es arbitrary: db)
  case (Cons e es)
  let ?db = "db\<lparr>state_events := state_events db @ [unsigned_row e]\<rparr>"
  have "insert_event_row (unsigned_row e) db = Inr ?db"
    using Cons.prems(2) by (auto simp: insert_event_row_def unsigned_row_def list_ex_iff)
  moreover have "\<exists>db1. insert_unsigned es ?db = Inr db1"
    by (rule Cons.IH) (use Cons.prems in \<open>auto simp: unsigned_row_def image_iff\<close>)
  ultimately show ?case by simp
qed simp

text \<open>Two active runs: the send was staged by the newer one, and the batch that commits does not tell which run it is of.\<close>

definition staged_store :: database where
  "staged_store = (snd (enqueue 5 ((sample_row (mint ''c'' 4 2) ''hello'')\<lparr>o_next_attempt_at := Some i64_max\<rparr>) empty_database))
     \<lparr>state_runs := [sample_run ''r1'' None, (sample_run ''r2'' None)\<lparr>rn_input_event_seq := 4, rn_started_at := 9\<rparr>]\<rparr>"

theorem commit_releases_staged_sends_witness:
  "\<exists>committed db'. commit_turn sample_msgpack sample_mac None 9 9 ''c'' 0 tool_turn staged_store = (Inr committed, db') \<and>
     map_option ob_next_attempt_at (find_outbox 1 db') = Some None"
proof -
  let ?r = "the (find_outbox 1 staged_store)"
  obtain out where out: "enforce_tool_pairing sample_msgpack 9 ''c'' 0 tool_turn = Inr out"
    using tool_turn_pairs by blast
  have empty: "load_integrity_rows staged_store ''c'' = []" "load_integrity_head staged_store ''c'' = None"
    "state_events staged_store = []" by code_simp+
  have "distinct (map seq out)"
    unfolding enforce_tool_pairing_seqs [OF out] by (simp add: distinct_map inj_on_def)
  then obtain db1 where "insert_unsigned (shift_events 0 0 out) staged_store = Inr db1"
    using insert_unsigned_ok [of out staged_store] by (auto simp: shift_events_def empty)
  then obtain committed db' where commit: "commit_turn sample_msgpack sample_mac None 9 9 ''c'' 0 tool_turn staged_store = (Inr committed, db')"
    by (auto simp: commit_turn_def commit_turn_with_projection_def out transaction_def commit_tx_def empty Let_def)
  have ids: "distinct (map rn_run_id (state_runs staged_store))" by code_simp
  have "active_run_source staged_store ''c'' = Some 4" by code_simp
  then have src: "commit_source staged_store db' ''c'' 4" by (simp add: commit_source_iff [OF ids])
  have row: "find_outbox 1 staged_store = Some ?r" by code_simp
  have st: "staged ?r" by code_simp
  have key: "ob_idempotency_key ?r = mint ''c'' 4 2" by code_simp
  obtain db2 out2 where d: "enforce_tool_pairing sample_msgpack 9 ''c'' 0 tool_turn = Inr out2"
    "committed = shift_events (last_seq staged_store ''c'') 0 out2"
    using commit_turn_outbox [OF commit] by metis
  have "Some 2 \<in> use_ordinal sample_msgpack ` set out2"
    using d(1)
    by (auto simp: enforce_tool_pairing_def tool_turn_def decode_payload_bytes_def decode_versioned_payload_def
        VERSIONED_PAYLOAD_MAGIC_def sample_msgpack_def encode_versioned_payload_def schema_id_valid Let_def
        use_ordinal_def materialize_def)
  then have "Some 2 \<in> use_ordinal sample_msgpack ` set committed"
    using shift_events_view(3) [of sample_msgpack "last_seq staged_store ''c''" 0 out2] unfolding d(2) by (metis list.set_map)
  then have "find_outbox 1 db' = Some (?r\<lparr>ob_next_attempt_at := None\<rparr>)"
    unfolding commit_releases_staged_sends [OF commit sample_msgpack_roundtrip ids row st] using src key by auto
  with commit show ?thesis by auto
qed


section \<open>Relay and event log: wakeups\<close>

text \<open>
  Firing a scheduled wakeup appends exactly one \<open>wakeup\<close> event with the scheduled payload to its
  verified conversation, as the next event, and reports success; a payload that does not decode is refused as not
  accepted and changes nothing.
\<close>

theorem wakeup_appends_event:
  assumes "mac32 hmac" "current_key ring = Some key" "chain_ok hmac ring (o_conversation_id row) db"
  shows "case decode_wakeup (o_payload row) of
     None \<Rightarrow> wakeup_dispatch decode_wakeup hmac (Some ring) clock row (db, w) = (Inl (NotAccepted ''decode wakeup''), db, w)
   | Some note \<Rightarrow> \<exists>db' w' old ev. wakeup_dispatch decode_wakeup hmac (Some ring) clock row (db, w) =
         (Inr \<lparr>external_receipt = None\<rparr>, db', w') \<and>
       replay_since hmac (Some ring) db (o_conversation_id row) 0 = Inr old \<and>
       replay_since hmac (Some ring) db' (o_conversation_id row) 0 = Inr (old @ [ev]) \<and>
       kind ev = Wakeup \<and> payload ev = o_payload row \<and> actor ev = Some ''system'' \<and>
       seq ev = last_seq db (o_conversation_id row) + 1 \<and> chain_ok hmac ring (o_conversation_id row) db'"
proof (cases "decode_wakeup (o_payload row)")
  case (Some decoded)
  obtain now w1 where 1: "clock w = (now, w1)" by (cases "clock w")
  obtain now_head w2 where 2: "clock w1 = (now_head, w2)" by (cases "clock w1")
  define ev where "ev = \<lparr>conversation_id = o_conversation_id row, seq = last_seq db (o_conversation_id row) + 1,
    kind = Wakeup, payload = o_payload row, committed_at = now, actor = Some ''system''\<rparr>"
  have ev: "conversation_id ev = o_conversation_id row" "seq ev = last_seq db (conversation_id ev) + 1"
    by (simp_all add: ev_def)
  obtain h rows where w: "EventLog_append hmac (Some ring) now_head ev db =
      (Inr (), keyed_write now_head (conversation_id ev) rows h db)"
    "map (\<lambda>r. ir_event (integrity_row r)) rows = [ev]"
    "chain_ok hmac ring (conversation_id ev) (keyed_write now_head (conversation_id ev) rows h db)"
    "load_integrity_rows (keyed_write now_head (conversation_id ev) rows h db) (conversation_id ev) =
     load_integrity_rows db (conversation_id ev) @ map integrity_row rows"
    by (rule append_keyed [OF assms(1,2) assms(3) [folded ev(1)] ev(2), of now_head]) (rule that)
  have "wakeup_dispatch decode_wakeup hmac (Some ring) clock row (db, w) =
      (Inr \<lparr>external_receipt = None\<rparr>, keyed_write now_head (conversation_id ev) rows h db, w2)"
    using w(1) by (simp add: wakeup_dispatch_def Some 1 2 EventSeq_next_def ev_def Let_def)
  moreover have "replay_since hmac (Some ring) (keyed_write now_head (conversation_id ev) rows h db) (o_conversation_id row) 0 =
      Inr (map ir_event (load_integrity_rows db (o_conversation_id row)) @ [ev])"
    using replay_all [OF w(3)] w(2,4) ev(1) by (simp add: comp_def)
  ultimately show ?thesis
    using Some replay_all [OF assms(3)] w(3) ev(1) by (simp add: ev_def)
qed (simp add: wakeup_dispatch_def)

theorem wakeup_appends_event_witness:
  "\<exists>db' w' ev. wakeup_dispatch Some sample_mac (Some sample_ring) tick (sample_row ''k'' ''note'') (sample_store ''hi'', 9) =
       (Inr \<lparr>external_receipt = None\<rparr>, db', w') \<and>
     replay_since sample_mac (Some sample_ring) db' ''c'' 0 = Inr [sample_event 1 ''hi'', ev] \<and> kind ev = Wakeup"
proof -
  have c: "o_conversation_id (sample_row ''k'' ''note'') = ''c''" by (simp add: sample_row_def)
  have ok: "chain_ok sample_mac sample_ring (o_conversation_id (sample_row ''k'' ''note'')) (sample_store ''hi'')" by code_simp
  have old: "replay_since sample_mac (Some sample_ring) (sample_store ''hi'') ''c'' 0 = Inr [sample_event 1 ''hi'']" by code_simp
  show ?thesis
    using wakeup_appends_event [OF mac32_sample current_key_sample ok, of Some tick 9] old by (auto simp: c)
qed

end
